(* ===== verification/Prelude.thy ===== *)
theory Prelude
  imports
    Complex_Main
    "HOL-Library.AList"
    "HOL-Library.Product_Lexorder"
    "HOL-Library.List_Lexorder"
    "HOL-Library.Char_ord"
begin

text \<open>
  Shared vocabulary of the development: Python dictionaries as association lists that keep
  insertion order, exceptions as the left side of a sum, the truncating \<open>int()\<close>, the
  first-wins \<open>min\<close> and \<open>max\<close> with a key, order-preserving de-duplication, and the
  string helpers the configuration tables are looked up with.

  A Python float is read as the exact rational it denotes and float arithmetic as exact
  rational arithmetic (see the header of the root theory).
\<close>

section \<open>Collections of rewrite and introduction rules\<close>

named_theorems dict_simps \<open>lookups in updated dictionaries\<close>
named_theorems result_simps \<open>when a computation returns\<close>
named_theorems keeps \<open>operations that preserve an invariant\<close>

section \<open>Dictionaries\<close>

type_synonym ('k, 'v) dict = "('k \<times> 'v) list"

text \<open>
  \<open>d[k] = v\<close> overwrites in place or appends at the end, as a Python dictionary does;
  \<open>d.pop(k, None)\<close> removes the entry.
\<close>

abbreviation dget :: "('k, 'v) dict \<Rightarrow> 'k \<Rightarrow> 'v option" where
  "dget d k \<equiv> map_of d k"

abbreviation dset :: "'k \<Rightarrow> 'v \<Rightarrow> ('k, 'v) dict \<Rightarrow> ('k, 'v) dict" where
  "dset k v d \<equiv> AList.update k v d"

abbreviation dpop :: "'k \<Rightarrow> ('k, 'v) dict \<Rightarrow> ('k, 'v) dict" where
  "dpop k d \<equiv> AList.delete k d"

abbreviation dkeys :: "('k, 'v) dict \<Rightarrow> 'k list" where
  "dkeys d \<equiv> map fst d"

abbreviation dvalues :: "('k, 'v) dict \<Rightarrow> 'v list" where
  "dvalues d \<equiv> map snd d"

text \<open>The invariant of every dictionary: a key occurs once.\<close>

abbreviation dict_ok :: "('k, 'v) dict \<Rightarrow> bool" where
  "dict_ok d \<equiv> distinct (map fst d)"

text \<open>\<open>d.get(k, default)\<close> and \<open>d.setdefault(k, v)\<close>.\<close>

definition dget_or :: "('k, 'v) dict \<Rightarrow> 'k \<Rightarrow> 'v \<Rightarrow> 'v" where
  "dget_or d k v = (case map_of d k of None \<Rightarrow> v | Some w \<Rightarrow> w)"

definition dsetdefault :: "'k \<Rightarrow> 'v \<Rightarrow> ('k, 'v) dict \<Rightarrow> ('k, 'v) dict" where
  "dsetdefault k v d = (case map_of d k of None \<Rightarrow> d @ [(k, v)] | Some _ \<Rightarrow> d)"

lemma dget_dset [simp, dict_simps]:
  "dget (dset k v d) k' = (if k' = k then Some v else dget d k')"
  by (simp add: update_conv')

lemma dget_dpop [simp, dict_simps]:
  "dget (dpop k d) k' = (if k' = k then None else dget d k')"
  by (simp add: delete_conv')

lemma dict_ok_dset [simp, intro]: "dict_ok d \<Longrightarrow> dict_ok (dset k v d)"
  by (rule distinct_update)

lemma dict_ok_dpop [simp, intro]: "dict_ok d \<Longrightarrow> dict_ok (dpop k d)"
  by (rule distinct_delete)

lemma map_of_eq_None_notin: "dget d k = None \<longleftrightarrow> k \<notin> set (dkeys d)"
  by (simp add: map_of_eq_None_iff)

lemma dget_dsetdefault [simp, dict_simps]:
  "dget (dsetdefault k v d) k' =
     (if k' = k then Some (dget_or d k v) else dget d k')"
  by (auto simp: dsetdefault_def dget_or_def map_add_def split: option.splits)

lemma dict_ok_dsetdefault [simp, intro]: "dict_ok d \<Longrightarrow> dict_ok (dsetdefault k v d)"
  by (auto simp: dsetdefault_def map_of_eq_None_notin split: option.splits)

lemma dget_or_None [simp]: "dget d k = None \<Longrightarrow> dget_or d k v = v"
  by (simp add: dget_or_def)

lemma dget_or_Some [simp]: "dget d k = Some w \<Longrightarrow> dget_or d k v = w"
  by (simp add: dget_or_def)

lemma dget_filter_key [simp, dict_simps]:
  "dget (filter (\<lambda>p. P (fst p)) d) k = (if P k then dget d k else None)"
  by (induction d) auto

lemma dget_filter_keys [simp, dict_simps]:
  "dget (filter (\<lambda>p. fst p \<in> A) d) k = (if k \<in> A then dget d k else None)"
  by (induction d) auto

lemma dict_ok_filter [simp, intro]: "dict_ok d \<Longrightarrow> dict_ok (filter P d)"
  by (induction d) auto

lemma set_dpop: "dict_ok d \<Longrightarrow> set (dpop k d) = {p \<in> set d. fst p \<noteq> k}"
  by (induction d) auto

section \<open>Results: a value or a Python exception\<close>

datatype py_error =
    KeyError string
  | ValueError string
  | TypeError string
  | AttributeError string
  | OSError string
  | IndexError
  | ZeroDivisionError
  | OverflowError

type_synonym 'a result = "py_error + 'a"

fun bindR :: "'e + 'a \<Rightarrow> ('a \<Rightarrow> 'e + 'b) \<Rightarrow> 'e + 'b" where
  "bindR (Inl e) f = Inl e"
| "bindR (Inr x) f = f x"

fun mapR :: "('a \<Rightarrow> 'b) \<Rightarrow> 'e + 'a \<Rightarrow> 'e + 'b" where
  "mapR f (Inl e) = Inl e"
| "mapR f (Inr x) = Inr (f x)"

definition returns :: "'e + 'a \<Rightarrow> bool" where
  "returns r \<longleftrightarrow> (case r of Inl _ \<Rightarrow> False | Inr _ \<Rightarrow> True)"

lemma returns_simps [simp]: "returns (Inr x)" "\<not> returns (Inl e)"
  by (simp_all add: returns_def)

lemma returns_iff: "returns r \<longleftrightarrow> (\<exists>x. r = Inr x)"
  by (cases r) auto

lemma bindR_eq_Inr [result_simps]: "bindR r f = Inr y \<longleftrightarrow> (\<exists>x. r = Inr x \<and> f x = Inr y)"
  by (cases r) auto

lemma bindR_eq_Inl [result_simps]:
  "bindR r f = Inl e \<longleftrightarrow> r = Inl e \<or> (\<exists>x. r = Inr x \<and> f x = Inl e)"
  by (cases r) auto

lemma mapR_eq_Inr [result_simps]: "mapR f r = Inr y \<longleftrightarrow> (\<exists>x. r = Inr x \<and> y = f x)"
  by (cases r) auto

lemma mapR_eq_Inl [result_simps]: "mapR f r = Inl e \<longleftrightarrow> r = Inl e"
  by (cases r) auto

text \<open>A comprehension whose body may raise: the first exception wins.\<close>

fun traverse :: "('a \<Rightarrow> 'e + 'b) \<Rightarrow> 'a list \<Rightarrow> 'e + 'b list" where
  "traverse f [] = Inr []"
| "traverse f (x # xs) = bindR (f x) (\<lambda>y. mapR (Cons y) (traverse f xs))"

lemma traverse_eq_Inr: "traverse f xs = Inr ys \<longleftrightarrow> list_all2 (\<lambda>x y. f x = Inr y) xs ys"
proof (induction xs arbitrary: ys)
  case (Cons x xs)
  then show ?case by (cases ys) (auto simp: bindR_eq_Inr mapR_eq_Inr)
qed auto

lemma traverse_returns: "(\<And>x. x \<in> set xs \<Longrightarrow> \<exists>y. f x = Inr y) \<Longrightarrow> \<exists>ys. traverse f xs = Inr ys"
  by (induction xs) (auto simp: bindR_eq_Inr mapR_eq_Inr)

text \<open>True division and floor division raise on a zero divisor.\<close>

definition py_truediv :: "rat \<Rightarrow> rat \<Rightarrow> rat result" where
  "py_truediv a b = (if b = 0 then Inl ZeroDivisionError else Inr (a / b))"

definition py_floordiv :: "int \<Rightarrow> int \<Rightarrow> int result" where
  "py_floordiv a b = (if b = 0 then Inl ZeroDivisionError else Inr (a div b))"

section \<open>Numbers\<close>

text \<open>\<open>int(x)\<close> on a float truncates towards zero.\<close>

definition py_int :: "rat \<Rightarrow> int" where
  "py_int x = (if x < 0 then \<lceil>x\<rceil> else \<lfloor>x\<rfloor>)"

lemma py_int_of_int [simp]: "py_int (of_int n) = n"
  by (simp add: py_int_def)

lemma py_int_nonneg: "0 \<le> x \<Longrightarrow> 0 \<le> py_int x"
  by (simp add: py_int_def)

lemma py_int_mono: "x \<le> y \<Longrightarrow> py_int x \<le> py_int y"
  unfolding py_int_def
  by (smt (verit) ceiling_le_zero ceiling_mono floor_mono zero_le_floor linorder_not_le order_less_le order_trans)

lemma py_int_le_self: "0 \<le> x \<Longrightarrow> of_int (py_int x) \<le> x"
  by (simp add: py_int_def)

text \<open>\<open>math.ceil(a / b)\<close> for integers, \<open>b\<close> positive.\<close>

definition ceil_div :: "int \<Rightarrow> int \<Rightarrow> int" where
  "ceil_div a b = - ((- a) div b)"

lemma ceil_div_ceiling: "0 < b \<Longrightarrow> ceil_div a b = \<lceil>of_int a / (of_int b :: rat)\<rceil>"
  by (simp add: ceil_div_def ceiling_divide_eq_div)

lemma ceil_div_bounds:
  assumes "0 < b"
  shows "a \<le> ceil_div a b * b \<and> ceil_div a b * b < a + b"
proof -
  have "- a = (- a) div b * b + (- a) mod b"
    by (simp only: div_mult_mod_eq)
  moreover have "0 \<le> (- a) mod b" "(- a) mod b < b"
    using assms by (simp_all only: pos_mod_sign pos_mod_bound)
  ultimately show ?thesis
    unfolding ceil_div_def mult_minus_left by linarith
qed

text \<open>\<open>round(x)\<close> and \<open>round(x, 1)\<close>: ties to even.\<close>

definition round_half_even :: "rat \<Rightarrow> int" where
  "round_half_even y =
     (let f = \<lfloor>y\<rfloor>; r = y - of_int f in
      if r < 1 / 2 then f else if r > 1 / 2 then f + 1 else if even f then f else f + 1)"

definition round1 :: "rat \<Rightarrow> rat" where
  "round1 x = of_int (round_half_even (x * 10)) / 10"

lemma round_half_even_nonneg: "0 \<le> x \<Longrightarrow> 0 \<le> round_half_even x"
  by (simp add: round_half_even_def Let_def)

lemma round_half_even_mono:
  assumes "x \<le> y"
  shows "round_half_even x \<le> round_half_even y"
proof -
  have f: "\<lfloor>x\<rfloor> \<le> \<lfloor>y\<rfloor>" using assms by (rule floor_mono)
  have up: "round_half_even z \<le> \<lfloor>z\<rfloor> + 1" "\<lfloor>z\<rfloor> \<le> round_half_even z" for z
    by (simp_all add: round_half_even_def Let_def)
  show ?thesis
  proof (cases "\<lfloor>x\<rfloor> = \<lfloor>y\<rfloor>")
    case True
    then show ?thesis using assms by (auto simp: round_half_even_def Let_def)
  next
    case False
    with f have "\<lfloor>x\<rfloor> + 1 \<le> \<lfloor>y\<rfloor>" by simp
    then show ?thesis using up(1) [of x] up(2) [of y] by simp
  qed
qed

lemma round_half_even_of_int [simp]: "round_half_even (of_int n) = n"
  by (simp add: round_half_even_def)

section \<open>First-wins minimum and maximum\<close>

definition min_by :: "('a \<Rightarrow> 'k::linorder) \<Rightarrow> 'a list \<Rightarrow> 'a option" where
  "min_by f xs = (case xs of [] \<Rightarrow> None
     | y # ys \<Rightarrow> Some (fold (\<lambda>z m. if f z < f m then z else m) ys y))"

definition max_by :: "('a \<Rightarrow> 'k::linorder) \<Rightarrow> 'a list \<Rightarrow> 'a option" where
  "max_by f xs = (case xs of [] \<Rightarrow> None
     | y # ys \<Rightarrow> Some (fold (\<lambda>z m. if f m < f z then z else m) ys y))"

lemma fold_min_by:
  "fold (\<lambda>z m. if f z < f m then z else m) ys y \<in> insert y (set ys) \<and>
   (\<forall>z \<in> insert y (set ys). f (fold (\<lambda>z m. if f z < f m then z else m) ys y) \<le> (f z :: 'k::linorder))"
  by (induction ys arbitrary: y) (fastforce, force)

lemma fold_max_by:
  "fold (\<lambda>z m. if f m < f z then z else m) ys y \<in> insert y (set ys) \<and>
   (\<forall>z \<in> insert y (set ys). (f z :: 'k::linorder) \<le> f (fold (\<lambda>z m. if f m < f z then z else m) ys y))"
  by (induction ys arbitrary: y) (fastforce, force)

lemma min_by_None [simp]: "min_by f xs = None \<longleftrightarrow> xs = []"
  by (simp add: min_by_def split: list.splits)

lemma max_by_None [simp]: "max_by f xs = None \<longleftrightarrow> xs = []"
  by (simp add: max_by_def split: list.splits)

lemma min_by_Nil [simp]: "min_by f [] = None"
  by simp

lemma max_by_Nil [simp]: "max_by f [] = None"
  by simp

lemma min_by_in: "min_by f xs = Some m \<Longrightarrow> m \<in> set xs"
  using fold_min_by [of f "tl xs" "hd xs"]
  by (cases xs) (simp_all add: min_by_def)

lemma min_by_le: "min_by f xs = Some m \<Longrightarrow> y \<in> set xs \<Longrightarrow> f m \<le> f y"
  using fold_min_by [of f "tl xs" "hd xs"]
  by (cases xs) (auto simp add: min_by_def)

lemma max_by_in: "max_by f xs = Some m \<Longrightarrow> m \<in> set xs"
  using fold_max_by [of f "tl xs" "hd xs"]
  by (cases xs) (simp_all add: max_by_def)

lemma max_by_ge: "max_by f xs = Some m \<Longrightarrow> y \<in> set xs \<Longrightarrow> f y \<le> f m"
  using fold_max_by [of f "tl xs" "hd xs"]
  by (cases xs) (auto simp add: max_by_def)

section \<open>De-duplication that keeps first occurrences\<close>

fun dedup_from :: "'a list \<Rightarrow> 'a list \<Rightarrow> 'a list" where
  "dedup_from seen [] = []"
| "dedup_from seen (x # xs) =
     (if x \<in> set seen then dedup_from seen xs else x # dedup_from (x # seen) xs)"

lemma set_dedup_from: "set (dedup_from seen xs) = set xs - set seen"
  by (induction seen xs rule: dedup_from.induct) auto

lemma distinct_dedup_from: "distinct (dedup_from seen xs)"
  by (induction seen xs rule: dedup_from.induct) (auto simp: set_dedup_from)

section \<open>Strings\<close>

text \<open>The characters \<open>str.isspace\<close> accepts among the first 256 code points.\<close>

definition is_space :: "char \<Rightarrow> bool" where
  "is_space c \<longleftrightarrow> (let n = (of_char c :: nat) in
     9 \<le> n \<and> n \<le> 13 \<or> 28 \<le> n \<and> n \<le> 32 \<or> n = 133 \<or> n = 160)"

definition lower_char :: "char \<Rightarrow> char" where
  "lower_char c =
     (let n = (of_char c :: nat) in if 65 \<le> n \<and> n \<le> 90 then char_of (n + 32) else c)"

definition str_lower :: "string \<Rightarrow> string" where
  "str_lower s = map lower_char s"

definition str_strip :: "string \<Rightarrow> string" where
  "str_strip s = rev (dropWhile is_space (rev (dropWhile is_space s)))"

definition is_alnum :: "char \<Rightarrow> bool" where
  "is_alnum c \<longleftrightarrow>
     (let n = (of_char c :: nat) in 48 \<le> n \<and> n \<le> 57 \<or> 65 \<le> n \<and> n \<le> 90 \<or> 97 \<le> n \<and> n \<le> 122)"

text \<open>\<open>s.split()\<close>: the runs of non-blank characters.\<close>

function words :: "string \<Rightarrow> string list" where
  "words s =
     (case dropWhile is_space s of
        [] \<Rightarrow> []
      | t \<Rightarrow> takeWhile (\<lambda>c. \<not> is_space c) t # words (dropWhile (\<lambda>c. \<not> is_space c) t))"
  by pat_completeness auto

termination words
proof (relation "measure length")
  fix s :: string and c cs
  assume t: "dropWhile is_space s = c # cs"
  have "length (dropWhile is_space s) \<le> length s" by (rule length_dropWhile_le)
  moreover have "\<not> is_space c" using t by (simp add: dropWhile_eq_Cons_conv)
  then have "length (dropWhile (\<lambda>c. \<not> is_space c) (c # cs)) < length (c # cs)"
    by (simp add: length_dropWhile_le less_Suc_eq_le)
  ultimately show "(dropWhile (\<lambda>c. \<not> is_space c) (c # cs), s) \<in> measure length" using t by simp
qed simp

declare words.simps [simp del]

text \<open>\<open>s.split(sep)\<close>.\<close>

fun split_on :: "char \<Rightarrow> string \<Rightarrow> string list" where
  "split_on c [] = [[]]"
| "split_on c (d # ds) =
     (if d = c then [] # split_on c ds
      else case split_on c ds of [] \<Rightarrow> [[d]] | w # ws \<Rightarrow> (d # w) # ws)"

text \<open>\<open>sep.join(parts)\<close> and \<open>prefix in text\<close>.\<close>

fun str_join :: "string \<Rightarrow> string list \<Rightarrow> string" where
  "str_join sep [] = []"
| "str_join sep [p] = p"
| "str_join sep (p # ps) = p @ sep @ str_join sep ps"

fun starts_with :: "string \<Rightarrow> string \<Rightarrow> bool" where
  "starts_with [] s = True"
| "starts_with (c # cs) [] = False"
| "starts_with (c # cs) (d # ds) = (c = d \<and> starts_with cs ds)"

fun str_contains :: "string \<Rightarrow> string \<Rightarrow> bool" where
  "str_contains sub [] = (sub = [])"
| "str_contains sub (c # cs) = (starts_with sub (c # cs) \<or> str_contains sub cs)"

lemma words_clean: "w \<in> set (words s) \<Longrightarrow> w \<noteq> [] \<and> list_all (\<lambda>c. \<not> is_space c) w"
proof (induction s rule: words.induct)
  case (1 s)
  show ?case
  proof (cases "dropWhile is_space s")
    case Nil
    then show ?thesis using "1.prems" by (simp add: words.simps [of s] del: dropWhile_eq_Nil_conv)
  next
    case (Cons c cs)
    then have c: "\<not> is_space c" by (simp add: dropWhile_eq_Cons_conv)
    have "w = c # takeWhile (\<lambda>c. \<not> is_space c) cs \<or> w \<in> set (words (dropWhile (\<lambda>c. \<not> is_space c) cs))"
      using "1.prems" c unfolding words.simps [of s] Cons by simp
    moreover have "list_all (\<lambda>c. \<not> is_space c) (takeWhile (\<lambda>c. \<not> is_space c) cs)"
      unfolding list_all_iff by (blast dest: set_takeWhileD)
    moreover have "w \<noteq> [] \<and> list_all (\<lambda>c. \<not> is_space c) w"
      if "w \<in> set (words (dropWhile (\<lambda>c. \<not> is_space c) cs))"
      using "1.IH" [OF Cons] c that by simp
    ultimately show ?thesis using c by (elim disjE) simp_all
  qed
qed

lemma words_single:
  assumes "list_all (\<lambda>c. \<not> is_space c) w" and "w \<noteq> []" and "rest = [] \<or> is_space (hd rest)"
  shows "words (w @ rest) = w # words rest"
proof -
  obtain c cs where w: "w = c # cs" using assms(2) by (cases w) auto
  have "takeWhile (\<lambda>c. \<not> is_space c) (cs @ rest) = cs" "dropWhile (\<lambda>c. \<not> is_space c) (cs @ rest) = rest"
    using assms(1,3) by (cases rest; simp add: list_all_iff w)+
  then show ?thesis using assms(1) by (simp add: words.simps [of "c # cs @ rest"] w)
qed

lemma words_blank: "is_space c \<Longrightarrow> words (c # s) = words s"
  by (simp add: words.simps [of "c # s"] words.simps [of s])

lemma words_join:
  assumes "\<And>w. w \<in> set ws \<Longrightarrow> w \<noteq> [] \<and> list_all (\<lambda>c. \<not> is_space c) w"
  shows "words (str_join '' '' ws) = ws"
  using assms
proof (induction ws)
  case Nil
  then show ?case by (simp add: words.simps)
next
  case (Cons p ps)
  have blank: "is_space (CHR '' '')" by (simp add: is_space_def)
  have p: "p \<noteq> []" "list_all (\<lambda>c. \<not> is_space c) p" using Cons.prems by auto
  show ?case
  proof (cases ps)
    case Nil
    then show ?thesis using words_single [OF p(2,1), of "[]"] by (simp add: words.simps [of "[]"])
  next
    case [simp]: (Cons q qs)
    have "words (p @ CHR '' '' # str_join '' '' ps) = p # words (CHR '' '' # str_join '' '' ps)"
      using p blank by (intro words_single) auto
    then show ?thesis using Cons.IH Cons.prems blank by (simp add: words_blank)
  qed
qed

section \<open>The interface of a life cycle\<close>

text \<open>
  A life cycle is a step relation with final states that have no successor; what every
  client relies on is that a final state, once reached, is where the record stays.
\<close>

locale lifecycle =
  fixes step :: "'s \<Rightarrow> 's \<Rightarrow> bool"
    and final :: "'s \<Rightarrow> bool"
  assumes final_stuck: "final s \<Longrightarrow> \<not> step s t"
begin

lemma final_absorbs: "step\<^sup>*\<^sup>* s t \<Longrightarrow> final s \<Longrightarrow> t = s"
  by (induction rule: converse_rtranclp_induct) (auto dest: final_stuck)

lemma moved_not_final: "step\<^sup>+\<^sup>+ s t \<Longrightarrow> \<not> final s"
  by (auto dest: tranclpD final_stuck)

end

end
