(* ===== verification/Deploy_Fsm.thy ===== *)
theory Deploy_Fsm
  imports Prelude
begin

text \<open>
  The deployment life cycle: \<open>control_plane/deploy/fsm.py\<close> over the states of
  \<open>control_plane/contracts/deployment.py\<close>, and the gateway's own spelling of which states
  mean what in \<open>control_plane/gateway/states.py\<close>.
\<close>

section \<open>States and the table of legal transitions\<close>

datatype deployment_state =
  PLANNED | LAUNCHING | READY | DEGRADED | FAILED | STOPPING | STOPPED

fun state_value :: "deployment_state \<Rightarrow> string" where
  "state_value PLANNED = ''planned''"
| "state_value LAUNCHING = ''launching''"
| "state_value READY = ''ready''"
| "state_value DEGRADED = ''degraded''"
| "state_value FAILED = ''failed''"
| "state_value STOPPING = ''stopping''"
| "state_value STOPPED = ''stopped''"

definition all_states :: "deployment_state list" where
  "all_states = [PLANNED, LAUNCHING, READY, DEGRADED, FAILED, STOPPING, STOPPED]"

fun LEGAL :: "deployment_state \<Rightarrow> deployment_state list" where
  "LEGAL PLANNED = [LAUNCHING]"
| "LEGAL LAUNCHING = [READY, FAILED]"
| "LEGAL READY = [DEGRADED, FAILED, STOPPING]"
| "LEGAL DEGRADED = [READY, FAILED, STOPPING]"
| "LEGAL STOPPING = [STOPPED]"
| "LEGAL FAILED = []"
| "LEGAL STOPPED = []"

definition TERMINAL :: "deployment_state list" where
  "TERMINAL = [FAILED, STOPPED]"

definition SERVING :: "deployment_state list" where
  "SERVING = [READY, DEGRADED]"

definition PERSISTED :: "deployment_state list" where
  "PERSISTED = [LAUNCHING, READY, DEGRADED, STOPPING, FAILED, STOPPED]"

section \<open>Checking a transition\<close>

record illegal_transition =
  it_deployment :: string
  it_source :: deployment_state
  it_target :: deployment_state
  it_allowed :: "string list"

definition IllegalTransition ::
  "string \<Rightarrow> deployment_state \<Rightarrow> deployment_state \<Rightarrow> illegal_transition" where
  "IllegalTransition dep source target =
     \<lparr>it_deployment = dep, it_source = source, it_target = target,
      it_allowed = (let vs = sort (map state_value (LEGAL source))
                    in if vs = [] then [''(terminal)''] else vs)\<rparr>"

definition can :: "deployment_state \<Rightarrow> deployment_state \<Rightarrow> bool" where
  "can source target \<longleftrightarrow> target \<in> set (LEGAL source)"

definition check_transition ::
  "string \<Rightarrow> deployment_state \<Rightarrow> deployment_state \<Rightarrow> illegal_transition + unit" where
  "check_transition dep source target =
     (if source = target then Inr ()
      else if \<not> can source target then Inl (IllegalTransition dep source target)
      else Inr ())"

section \<open>The gateway's copies\<close>

definition gw_TERMINAL :: "deployment_state list" where
  "gw_TERMINAL = [FAILED, STOPPED]"

definition gw_SERVING :: "deployment_state list" where
  "gw_SERVING = [READY, DEGRADED]"

definition gw_LIVE :: "deployment_state list" where
  "gw_LIVE = filter (\<lambda>s. s \<notin> set gw_TERMINAL) all_states"

lemmas state_sets = TERMINAL_def SERVING_def PERSISTED_def gw_TERMINAL_def gw_SERVING_def
  gw_LIVE_def all_states_def

section \<open>Histories\<close>

text \<open>A record changes state by a checked transition to a different state.\<close>

inductive transition :: "deployment_state \<Rightarrow> deployment_state \<Rightarrow> bool" where
  "check_transition dep s t = Inr () \<Longrightarrow> s \<noteq> t \<Longrightarrow> transition s t"

lemma transition_iff: "transition s t \<longleftrightarrow> t \<in> set (LEGAL s)"
  by (cases s; cases t) (auto simp: transition.simps check_transition_def can_def)

inductive_cases transition_into: "transition s t"

interpretation fsm: lifecycle transition "\<lambda>s. s \<in> set TERMINAL"
  by unfold_locales (auto simp: transition_iff TERMINAL_def)

text \<open>
  Every strict run is summarised by a height that falls along it, but for the one pair of
  states that feed each other.
\<close>

fun height :: "deployment_state \<Rightarrow> nat" where
  "height PLANNED = 5"
| "height LAUNCHING = 4"
| "height READY = 3"
| "height DEGRADED = 3"
| "height STOPPING = 2"
| "height STOPPED = 0"
| "height FAILED = 0"

lemma transition_height: "transition s t \<Longrightarrow> height t \<le> height s"
  by (cases s) (auto simp: transition_iff)

lemma transition_height_strict:
  "transition s t \<Longrightarrow> \<not> (s \<in> set SERVING \<and> t \<in> set SERVING) \<Longrightarrow> height t < height s"
  by (cases s) (auto simp: transition_iff SERVING_def)

lemma run_height: "transition\<^sup>*\<^sup>* s t \<Longrightarrow> height t \<le> height s"
  by (induction rule: rtranclp_induct) (auto dest: transition_height)

lemma height_serving: "height s = height t \<Longrightarrow> s \<in> set SERVING \<Longrightarrow> t \<in> set SERVING"
  by (cases s; cases t) (auto simp: SERVING_def)

text \<open>The only states a deployment can come back to are the two serving states, READY and
  DEGRADED: no history of checked transitions leaves any other state and returns to it, so a
  deployment is never launched, stopped or failed twice under one record.\<close>

theorem only_serving_states_recur: "transition\<^sup>+\<^sup>+ s s \<longleftrightarrow> s \<in> set SERVING"
proof
  assume "transition\<^sup>+\<^sup>+ s s"
  then obtain t where st: "transition s t" and ts: "transition\<^sup>*\<^sup>* t s"
    by (auto dest: tranclpD)
  have "height s \<le> height t" using run_height [OF ts] .
  with st show "s \<in> set SERVING"
    using transition_height_strict by fastforce
next
  assume "s \<in> set SERVING"
  then have "transition s READY \<and> transition READY DEGRADED \<and> s = DEGRADED \<or>
    transition s DEGRADED \<and> transition DEGRADED READY \<and> s = READY"
    by (auto simp: SERVING_def transition_iff)
  then show "transition\<^sup>+\<^sup>+ s s"
    by (meson tranclp.r_into_trancl tranclp.trancl_into_trancl)
qed

end
