(* ===== verification/Contracts.thy ===== *)
theory Contracts
  imports Prelude Deploy_Fsm
begin

text \<open>
  The data the components exchange, \<open>control_plane/contracts/\<close>: the hardware a node
  reports, the shape of a model, a parallelism plan, the verdict of the fit gate, a deployment,
  a provider and a routing target, with the constants frozen beside them.

  A reason or warning is prose with values interpolated into it. It is modelled as a
  \<open>msg\<close>: a tag for the sentence and the values it carries, in the order they appear.
\<close>

section \<open>Sentences\<close>

datatype msg = Msg string "marg list"
  and marg = I int | F rat | S string | M msg

fun msg_tag :: "msg \<Rightarrow> string" where
  "msg_tag (Msg t _) = t"

section \<open>Constants\<close>

definition GIB :: int where "GIB = 1024 ^ 3"
definition TP_VIABLE_THRESHOLD :: rat where "TP_VIABLE_THRESHOLD = 40"
definition EP_VIABLE_THRESHOLD :: rat where "EP_VIABLE_THRESHOLD = 40"
definition DEGRADED_TPS_THRESHOLD :: rat where "DEGRADED_TPS_THRESHOLD = 10"
definition DEFAULT_GUARDRAIL :: rat where "DEFAULT_GUARDRAIL = 0.9"
definition COMM_BUFFER_BYTES :: int where "COMM_BUFFER_BYTES = py_int (1.5 * 1024 ^ 3)"
definition EP_EXTRA_BUFFER_BYTES :: int where "EP_EXTRA_BUFFER_BYTES = py_int (2 * 1024 ^ 3)"
definition FRAMEWORK_OVERHEAD :: int where "FRAMEWORK_OVERHEAD = py_int (1 * 1024 ^ 3)"

lemma buffer_values [simp]:
  "COMM_BUFFER_BYTES = 1610612736" "EP_EXTRA_BUFFER_BYTES = 2147483648"
  "FRAMEWORK_OVERHEAD = 1073741824"
  by (simp_all add: COMM_BUFFER_BYTES_def EP_EXTRA_BUFFER_BYTES_def FRAMEWORK_OVERHEAD_def
      py_int_def)

section \<open>Hardware\<close>

datatype device_class = GB10 | DISCRETE | APPLE | CPU | UNKNOWN

definition unified_memory :: "device_class \<Rightarrow> bool" where
  "unified_memory d \<longleftrightarrow> d \<in> {GB10, APPLE}"

record node_profile =
  node_id :: string
  hostname :: string
  address :: string
  device_class :: device_class
  gpu_name :: string
  gpu_count :: int
  total_memory :: int
  addressable_memory :: int
  memory_bandwidth_gbps :: rat
  compute_capability :: string
  driver_version :: string

definition usable_memory :: "node_profile \<Rightarrow> rat \<Rightarrow> int" where
  "usable_memory n guardrail = py_int (of_int (addressable_memory n) * guardrail)"

definition describe_node :: "node_profile \<Rightarrow> string" where
  "describe_node n =
     (if gpu_name n \<noteq> [] then node_id n @ '' ('' @ gpu_name n @ '')'' else node_id n)"

record node_state =
  profile :: node_profile
  ns_healthy :: bool
  last_seen :: rat
  memory_used :: int
  power_watts :: rat
  temperature_c :: rat
  utilization_pct :: rat
  memory_total_live :: int
  sample_ts :: rat
  is_local :: bool
  build :: string

record link_measurement =
  link_src :: string
  link_dst :: string
  all_reduce_gbps :: rat
  sendrecv_gbps :: rat
  latency_us :: rat
  gpudirect_rdma :: bool
  measured_at :: rat
  link_method :: string

section \<open>Model shapes\<close>

record model_shape =
  model_id :: string
  num_layers :: int
  hidden_size :: int
  num_attention_heads :: int
  num_kv_heads :: int
  vocab_size :: int
  total_params :: int
  dtype :: string
  head_dim :: "int option"
  num_experts :: int
  num_experts_per_token :: int
  active_params :: "int option"
  sliding_window :: "int option"
  layers_with_full_attention :: "int option"
  mla_latent_dim :: "int option"
  mla_rope_dim :: "int option"
  vision_params :: int
  is_encoder_decoder :: bool

text \<open>An optional integer is true in Python when it is there and not zero.\<close>

definition truthy :: "int option \<Rightarrow> bool" where
  "truthy v \<longleftrightarrow> (case v of None \<Rightarrow> False | Some n \<Rightarrow> n \<noteq> 0)"

definition is_moe :: "model_shape \<Rightarrow> bool" where
  "is_moe s \<longleftrightarrow> num_experts s > 0"

definition effective_head_dim :: "model_shape \<Rightarrow> int result" where
  "effective_head_dim s =
     (case head_dim s of Some d \<Rightarrow> Inr d
      | None \<Rightarrow> py_floordiv (hidden_size s) (num_attention_heads s))"

definition effective_mla_rope_dim :: "model_shape \<Rightarrow> int" where
  "effective_mla_rope_dim s =
     (case mla_latent_dim s of None \<Rightarrow> 0
      | Some _ \<Rightarrow> (case mla_rope_dim s of Some r \<Rightarrow> r | None \<Rightarrow> 64))"

definition effective_active_params :: "model_shape \<Rightarrow> int" where
  "effective_active_params s =
     (case active_params s of Some a \<Rightarrow> a | None \<Rightarrow> total_params s)"

section \<open>Plans and verdicts\<close>

datatype parallelism_kind = SINGLE_NODE | TENSOR | PIPELINE | EXPERT | HYBRID

record parallelism_plan =
  kind :: parallelism_kind
  tensor_parallel :: int
  pipeline_parallel :: int
  expert_parallel :: int
  data_parallel :: int
  node_ids :: "string list"
  plan_reason :: "msg list"
  measured_link_gbps :: rat
  rejected :: "msg list"

definition world_size :: "parallelism_plan \<Rightarrow> int" where
  "world_size p = tensor_parallel p * pipeline_parallel p * data_parallel p"

datatype verdict = FITS | FITS_DEGRADED | WONT_FIT

record memory_breakdown =
  mb_weights :: int
  mb_kv_cache :: int
  mb_activations :: int
  mb_comm_buffers :: int
  mb_replicated :: int
  mb_framework_overhead :: int

definition mb_total :: "memory_breakdown \<Rightarrow> int" where
  "mb_total b = mb_weights b + mb_kv_cache b + mb_activations b + mb_comm_buffers b
     + mb_replicated b + mb_framework_overhead b"

datatype limiting_term =
  Lim_weights | Lim_kv_cache | Lim_bandwidth | Lim_combined | Lim_context | Lim_none

datatype budget_basis = Static | Live

record fit_result =
  fr_verdict :: verdict
  fr_breakdown :: memory_breakdown
  usable_per_node :: int
  headroom :: int
  fr_reason :: msg
  limiting_term :: limiting_term
  max_context_that_fits :: "int option"
  predicted_decode_tps :: "rat option"
  fr_warnings :: "msg list"
  fr_budget_basis :: budget_basis

definition fit_ok :: "fit_result \<Rightarrow> bool" where
  "fit_ok r \<longleftrightarrow> fr_verdict r \<noteq> WONT_FIT"

record fit_request =
  req_shape :: model_shape
  context_length :: int
  max_concurrent_seqs :: int
  kv_dtype :: string
  req_plan :: parallelism_plan
  req_weight_bytes :: "int option"
  native_window :: "int option"

section \<open>Deployments\<close>

datatype modality = TEXT | EMBEDDING | SPEECH | TRANSCRIPTION

record deployment =
  deployment_id :: string
  served_name :: string
  dep_shape :: model_shape
  dep_plan :: "parallelism_plan option"
  dep_fit :: "fit_result option"
  runtime :: string
  dep_state :: deployment_state
  backend_url :: "string option"
  dep_context_length :: int
  dep_max_concurrent_seqs :: int
  started_at :: "rat option"
  dep_last_error :: "string option"
  dep_modality :: modality
  extra_args :: "string list"
  custom_command :: "string list"

section \<open>Providers and routing targets\<close>

datatype provider_kind = OPENROUTER | OPENAI | ANTHROPIC | TOGETHER | GROQ | OLLAMA | CUSTOM

record provider_model =
  pm_served_name :: string
  upstream_id :: string
  pm_context_length :: int
  supports_streaming :: bool
  supports_tools :: bool
  input_cost_per_mtok :: "rat option"
  output_cost_per_mtok :: "rat option"
  pm_modality :: modality

record provider =
  provider_id :: string
  provider_kind :: provider_kind
  display_name :: string
  base_url :: string
  api_key_ref :: string
  enabled :: bool
  priority :: int
  models :: "provider_model list"
  prov_healthy :: bool
  prov_last_error :: "string option"
  last_refreshed :: rat

datatype routing_policy =
    LEAST_OUTSTANDING | ROUND_ROBIN | WEIGHTED_CAPACITY | CACHE_AFFINITY
  | FAILOVER | LOCAL_FIRST | COST_AWARE

datatype target_kind = LOCAL | REMOTE

record route_target =
  target_id :: string
  target_kind :: target_kind
  target_url :: string
  weight :: rat
  outstanding :: int
  healthy :: bool
  admitting :: bool
  strength :: rat
  cost_per_mtok :: "rat option"

record routing_config =
  rc_served_name :: string
  policy :: routing_policy
  rc_targets :: "route_target list"
  rc_sticky_ttl_s :: int

text \<open>One GB10 node as the probe reports it, for the worked examples.\<close>

definition example_node :: node_profile where
  "example_node = \<lparr>node_id = ''n1'', hostname = ''spark-1'', address = ''10.0.0.1'',
     device_class = GB10, gpu_name = ''GB10'', gpu_count = 1, total_memory = 137438953472,
     addressable_memory = 128526896332, memory_bandwidth_gbps = 273,
     compute_capability = ''12.1'', driver_version = ''580''\<rparr>"

text \<open>An idle local replica.\<close>

definition replica :: "string \<Rightarrow> rat \<Rightarrow> route_target" where
  "replica i w = \<lparr>target_id = i, target_kind = LOCAL, target_url = ''http://10.0.0.1:8000'', weight = w,
     outstanding = 0, healthy = True, admitting = True, strength = w, cost_per_mtok = Some 0\<rparr>"

end
