(* ===== verification/Quant.thy ===== *)
theory Quant
  imports Contracts
begin

text \<open>
  The quantization table, \<open>control_plane/contracts/quant.py\<close>: bytes per parameter of every
  scheme, the spellings that name them, and the functions that price a parameter count. The free
  text note of a \<open>QuantInfo\<close> is left out.
\<close>

section \<open>The tables\<close>

definition BYTES_PER_PARAM :: "(string, rat) dict" where
  "BYTES_PER_PARAM = [
     (''fp32'', 4), (''fp16'', 2), (''bf16'', 2), (''fp8'', 1), (''int8'', 1),
     (''q8_0'', 1.0625), (''q6_k'', 0.82), (''q5_k_m'', 0.711), (''q4_k_m'', 0.6125),
     (''q4_0'', 0.5625), (''q3_k_m'', 0.456), (''q2_k'', 0.329), (''mxfp4'', 0.53125),
     (''nvfp4'', 0.5625), (''awq_int4'', 0.5625), (''gptq_int4'', 0.5625), (''nf4'', 0.5163),
     (''q4_1'', 0.625), (''q5_0'', 0.6875), (''q5_1'', 0.75), (''q2_k_s'', 0.3712),
     (''iq1_s'', 0.2505), (''iq1_m'', 0.2683), (''iq2_xxs'', 0.2978), (''iq2_xs'', 0.3235),
     (''iq2_s'', 0.3425), (''iq2_m'', 0.3662), (''iq3_xxs'', 0.4069), (''iq3_xs'', 0.4372),
     (''iq3_s'', 0.4576), (''iq3_m'', 0.4704), (''iq4_xs'', 0.5575), (''iq4_nl'', 0.5852)]"

definition DEFAULT_DTYPE :: string where
  "DEFAULT_DTYPE = ''bf16''"

definition ALIASES :: "(string, string) dict" where
  "ALIASES = [
     (''float32'', ''fp32''), (''f32'', ''fp32''), (''torch.float32'', ''fp32''),
     (''float16'', ''fp16''), (''f16'', ''fp16''), (''half'', ''fp16''),
     (''torch.float16'', ''fp16''), (''bfloat16'', ''bf16''), (''torch.bfloat16'', ''bf16''),
     (''fp8e4m3'', ''fp8''), (''fp8e5m2'', ''fp8''), (''f8e4m3'', ''fp8''),
     (''f8e4m3fn'', ''fp8''), (''e4m3'', ''fp8''), (''e5m2'', ''fp8''), (''float8'', ''fp8''),
     (''fp8w8a8'', ''fp8''), (''w8a8'', ''int8''), (''i8'', ''int8''), (''q80'', ''q8_0''),
     (''q8k'', ''q8_0''), (''q6k'', ''q6_k''), (''q5km'', ''q5_k_m''), (''q5k'', ''q5_k_m''),
     (''q5ks'', ''q5_k_m''), (''q5kl'', ''q5_k_m''), (''q4km'', ''q4_k_m''),
     (''q4k'', ''q4_k_m''), (''q4ks'', ''q4_k_m''), (''q4kl'', ''q4_k_m''), (''q40'', ''q4_0''),
     (''q41'', ''q4_1''), (''q3km'', ''q3_k_m''), (''q3k'', ''q3_k_m''), (''q3ks'', ''q3_k_m''),
     (''q3kl'', ''q3_k_m''), (''q2k'', ''q2_k''), (''mxfp4moe'', ''mxfp4''),
     (''fp4'', ''nvfp4''), (''nvfp4a16'', ''nvfp4''), (''awq'', ''awq_int4''),
     (''awqint4'', ''awq_int4''), (''awqmarlin'', ''awq_int4''), (''gptq'', ''gptq_int4''),
     (''gptqint4'', ''gptq_int4''), (''gptqmarlin'', ''gptq_int4''), (''w4a16'', ''gptq_int4''),
     (''bnbnf4'', ''nf4''), (''iq1s'', ''iq1_s''), (''iq1m'', ''iq1_m''),
     (''iq2xxs'', ''iq2_xxs''), (''iq2xs'', ''iq2_xs''), (''iq2s'', ''iq2_s''),
     (''iq2m'', ''iq2_m''), (''iq3xxs'', ''iq3_xxs''), (''iq3xs'', ''iq3_xs''),
     (''iq3s'', ''iq3_s''), (''iq3m'', ''iq3_m''), (''iq4xs'', ''iq4_xs''),
     (''iq4nl'', ''iq4_nl''), (''q50'', ''q5_0''), (''q51'', ''q5_1''), (''q2ks'', ''q2_k_s''),
     (''q2kl'', ''q2_k''), (''q2kxl'', ''q2_k''), (''q3kxl'', ''q3_k_m''),
     (''q4kxl'', ''q4_k_m''), (''q5kxl'', ''q5_k_m''), (''q6kxl'', ''q6_k''),
     (''q8kxl'', ''q8_0'')]"

datatype quant_family = Float_fam | Int_fam | Gguf_fam | Block_float_fam

record quant_info =
  qi_key :: string
  bits_per_weight :: rat
  family :: quant_family
  native_compute_capability :: "rat option"
  emulated_below_native :: bool

definition QuantInfo ::
  "string \<Rightarrow> rat \<Rightarrow> quant_family \<Rightarrow> rat option \<Rightarrow> bool \<Rightarrow> string \<times> quant_info" where
  "QuantInfo k b f c e = (k, \<lparr>qi_key = k, bits_per_weight = b, family = f,
     native_compute_capability = c, emulated_below_native = e\<rparr>)"

definition QUANT_INFO :: "(string, quant_info) dict" where
  "QUANT_INFO = [
     QuantInfo ''fp32'' 32 Float_fam None False, QuantInfo ''fp16'' 16 Float_fam None False,
     QuantInfo ''bf16'' 16 Float_fam (Some 8) True,
     QuantInfo ''fp8'' 8 Float_fam (Some 8.9) True, QuantInfo ''int8'' 8 Int_fam (Some 7.5) True,
     QuantInfo ''q8_0'' 8.5 Gguf_fam None False, QuantInfo ''q6_k'' 6.56 Gguf_fam None False,
     QuantInfo ''q5_k_m'' 5.69 Gguf_fam None False, QuantInfo ''q4_k_m'' 4.9 Gguf_fam None False,
     QuantInfo ''q4_0'' 4.5 Gguf_fam None False, QuantInfo ''q3_k_m'' 3.65 Gguf_fam None False,
     QuantInfo ''q2_k'' 2.63 Gguf_fam None False,
     QuantInfo ''mxfp4'' 4.25 Block_float_fam (Some 10) True,
     QuantInfo ''nvfp4'' 4.5 Block_float_fam (Some 10) False,
     QuantInfo ''awq_int4'' 4.5 Int_fam (Some 7.5) False,
     QuantInfo ''gptq_int4'' 4.5 Int_fam (Some 7.5) False,
     QuantInfo ''nf4'' 4.13 Int_fam (Some 7.5) False, QuantInfo ''q4_1'' 5 Gguf_fam None False,
     QuantInfo ''q5_0'' 5.5 Gguf_fam None False, QuantInfo ''q5_1'' 6 Gguf_fam None False,
     QuantInfo ''q2_k_s'' 2.9697 Gguf_fam None False,
     QuantInfo ''iq1_s'' 2.0042 Gguf_fam None False,
     QuantInfo ''iq1_m'' 2.146 Gguf_fam None False,
     QuantInfo ''iq2_xxs'' 2.3824 Gguf_fam None False,
     QuantInfo ''iq2_xs'' 2.5882 Gguf_fam None False,
     QuantInfo ''iq2_s'' 2.7403 Gguf_fam None False,
     QuantInfo ''iq2_m'' 2.9294 Gguf_fam None False,
     QuantInfo ''iq3_xxs'' 3.2548 Gguf_fam None False,
     QuantInfo ''iq3_xs'' 3.4977 Gguf_fam None False,
     QuantInfo ''iq3_s'' 3.6606 Gguf_fam None False,
     QuantInfo ''iq3_m'' 3.7628 Gguf_fam None False,
     QuantInfo ''iq4_xs'' 4.4597 Gguf_fam None False,
     QuantInfo ''iq4_nl'' 4.6818 Gguf_fam None False]"

section \<open>Names and prices\<close>

text \<open>\<open>raw in BYTES_PER_PARAM\<close>, then the aliases, then the spelling with separators removed.\<close>

definition normalize_dtype :: "string option \<Rightarrow> string option" where
  "normalize_dtype name =
     (case name of None \<Rightarrow> None
      | Some n \<Rightarrow>
        if n = [] then None
        else let raw = str_lower (str_strip n) in
          if raw \<in> set (dkeys BYTES_PER_PARAM) then Some raw
          else case dget ALIASES raw of Some k \<Rightarrow> Some k
          | None \<Rightarrow>
            let squashed = filter is_alnum raw in
            if squashed \<in> set (dkeys BYTES_PER_PARAM) then Some squashed
            else case dget ALIASES squashed of Some k \<Rightarrow> Some k
            | None \<Rightarrow>
              if take 2 squashed = ''ud'' \<and> length squashed > 2 then
                let base = drop 2 squashed in
                if base \<in> set (dkeys BYTES_PER_PARAM) then Some base
                else dget ALIASES base
              else None)"

definition is_known_dtype :: "string option \<Rightarrow> bool" where
  "is_known_dtype d \<longleftrightarrow> normalize_dtype d \<noteq> None"

definition bytes_per_param_of :: "string option \<Rightarrow> rat result" where
  "bytes_per_param_of d =
     (case normalize_dtype d of
        None \<Rightarrow> Inl (KeyError (case d of None \<Rightarrow> [] | Some n \<Rightarrow> n))
      | Some k \<Rightarrow> (case dget BYTES_PER_PARAM k of None \<Rightarrow> Inl (KeyError k) | Some b \<Rightarrow> Inr b))"

definition bytes_per_param_or_default :: "string option \<Rightarrow> rat result" where
  "bytes_per_param_or_default d =
     (let k = (case normalize_dtype d of None \<Rightarrow> DEFAULT_DTYPE | Some k \<Rightarrow> k)
      in case dget BYTES_PER_PARAM k of None \<Rightarrow> Inl (KeyError k) | Some b \<Rightarrow> Inr b)"

definition quant_weight_bytes :: "int \<Rightarrow> string option \<Rightarrow> int result" where
  "quant_weight_bytes params d =
     mapR (\<lambda>b. py_int (of_int params * b)) (bytes_per_param_or_default d)"

definition quant_info_of :: "string option \<Rightarrow> quant_info result" where
  "quant_info_of d =
     (let k = (case normalize_dtype d of None \<Rightarrow> DEFAULT_DTYPE | Some k \<Rightarrow> k)
      in case dget QUANT_INFO k of None \<Rightarrow> Inl (KeyError k) | Some i \<Rightarrow> Inr i)"

definition is_quantized :: "string option \<Rightarrow> bool result" where
  "is_quantized d = mapR (\<lambda>i. bits_per_weight i < 16) (quant_info_of d)"

text \<open>\<open>ModelShape.bytes_per_param\<close> looks the shape's dtype up as it is spelled.\<close>

definition bytes_per_param :: "model_shape \<Rightarrow> rat result" where
  "bytes_per_param s =
     (case dget BYTES_PER_PARAM (dtype s) of None \<Rightarrow> Inl (KeyError (dtype s)) | Some b \<Rightarrow> Inr b)"

section \<open>The table is closed under its own names\<close>

lemma alias_targets_priced: "set (dvalues ALIASES) \<subseteq> set (dkeys BYTES_PER_PARAM)"
  by code_simp

lemma quant_info_covers: "set (dkeys BYTES_PER_PARAM) \<subseteq> set (dkeys QUANT_INFO)"
  by code_simp

lemma prices_positive: "\<forall>b \<in> set (dvalues BYTES_PER_PARAM). 0 < b"
  by code_simp

lemma bytes_per_param_pos: "bytes_per_param s = Inr b \<Longrightarrow> 0 < b"
  using prices_positive
  by (auto simp: bytes_per_param_def split: option.splits dest!: map_of_SomeD)

lemma alias_key: "dget ALIASES x = Some y \<Longrightarrow> y \<in> set (dkeys BYTES_PER_PARAM)"
  using alias_targets_priced by (force dest!: map_of_SomeD)

lemma normalize_dtype_key: "normalize_dtype n = Some k \<Longrightarrow> k \<in> set (dkeys BYTES_PER_PARAM)"
  unfolding normalize_dtype_def Let_def
  by (auto simp only: option.case option.inject split: option.splits if_splits dest: alias_key)

lemma priced_dget: "k \<in> set (dkeys BYTES_PER_PARAM) \<Longrightarrow> \<exists>b. dget BYTES_PER_PARAM k = Some b \<and> 0 < b"
  using prices_positive
  by (metis (no_types, lifting) image_eqI list.set_map map_of_SomeD map_of_eq_None_iff
      not_None_eq snd_conv)

text \<open>Whatever spelling a dtype is given in, the name it normalises to is a key of the price
  table, so the functions that price a normalised name never raise: a spelling is either unknown,
  and refused as such, or it has a positive price.\<close>

theorem quant_names_priced:
  "case normalize_dtype d of
     None \<Rightarrow> \<exists>e. bytes_per_param_of d = Inl e
   | Some k \<Rightarrow> \<exists>b. 0 < b \<and> bytes_per_param_of d = Inr b \<and> dget BYTES_PER_PARAM k = Some b"
proof (cases "normalize_dtype d")
  case None
  then show ?thesis by (simp add: bytes_per_param_of_def)
next
  case (Some k)
  then obtain b where "dget BYTES_PER_PARAM k = Some b" "0 < b"
    using normalize_dtype_key priced_dget by blast
  with Some show ?thesis by (simp add: bytes_per_param_of_def)
qed

end
