(* ===== verification/Fit_Kv.thy ===== *)
theory Fit_Kv
  imports Quant
begin

text \<open>
  KV cache sizing, \<open>control_plane/fit/kv.py\<close> with the tables of
  \<open>control_plane/fit/constants.py\<close>: what one token costs, how many tokens each layer keeps,
  and how a parallelism plan divides the cache over its ranks. A division by zero in the source
  (a shape with no layers or no attention heads) is an error value.
\<close>

section \<open>Constants\<close>

definition ACTIVATION_CHUNK_TOKENS :: int where "ACTIVATION_CHUNK_TOKENS = 2048"
definition DECODE_EFFICIENCY :: rat where "DECODE_EFFICIENCY = 0.55"
definition CONTEXT_ROUNDING :: int where "CONTEXT_ROUNDING = 512"
definition MAX_CONTEXT_SEARCH :: int where "MAX_CONTEXT_SEARCH = 2097152"
definition MAX_SEARCH_NODES :: int where "MAX_SEARCH_NODES = 64"

definition KV_ELEM_BYTES :: "(string, rat) dict" where
  "KV_ELEM_BYTES = [(''fp32'', 4), (''float32'', 4), (''fp16'', 2), (''float16'', 2),
     (''half'', 2), (''bf16'', 2), (''bfloat16'', 2), (''fp8'', 1), (''fp8_e4m3'', 1),
     (''fp8_e5m2'', 1), (''float8'', 1), (''int8'', 1), (''uint8'', 1)]"

definition KV_FALLBACK_DTYPE :: string where
  "KV_FALLBACK_DTYPE = ''bf16''"

definition QUANT_SUGGESTION_ORDER :: "string list" where
  "QUANT_SUGGESTION_ORDER = [''fp32'', ''bf16'', ''fp16'', ''q8_0'', ''fp8'', ''q6_k'',
     ''q5_k_m'', ''q4_k_m'', ''nvfp4'', ''mxfp4'', ''q3_k_m'', ''q2_k'']"

section \<open>Bytes per element\<close>

definition kv_key :: "string \<Rightarrow> string" where
  "kv_key d = str_lower (str_strip (if d = [] then ''auto'' else d))"

definition kv_auto_keys :: "string list" where
  "kv_auto_keys = [''auto'', [], ''none'', ''model'']"

definition kv_fallback_bytes :: rat where
  "kv_fallback_bytes = dget_or KV_ELEM_BYTES KV_FALLBACK_DTYPE 0"

definition kv_elem_bytes :: "string \<Rightarrow> model_shape option \<Rightarrow> rat" where
  "kv_elem_bytes d shape =
     (let key = kv_key d in
      if key \<in> set kv_auto_keys then
        (case shape of
           Some s \<Rightarrow> (case dget KV_ELEM_BYTES (str_lower (dtype s)) of
                       Some b \<Rightarrow> b | None \<Rightarrow> kv_fallback_bytes)
         | None \<Rightarrow> kv_fallback_bytes)
      else dget_or KV_ELEM_BYTES key kv_fallback_bytes)"

definition is_known_kv_dtype :: "string \<Rightarrow> bool" where
  "is_known_kv_dtype d \<longleftrightarrow>
     (let key = kv_key d in key \<in> set kv_auto_keys \<or> key \<in> set (dkeys KV_ELEM_BYTES))"

section \<open>The cache of a model\<close>

definition per_layer_per_token_bytes :: "model_shape \<Rightarrow> string \<Rightarrow> rat result" where
  "per_layer_per_token_bytes s d =
     (let elem = kv_elem_bytes d (Some s) in
      case mla_latent_dim s of
        Some l \<Rightarrow>
          if l \<noteq> 0 then Inr (of_int (l + effective_mla_rope_dim s) * elem)
          else mapR (\<lambda>h. of_int (2 * num_kv_heads s * h) * elem) (effective_head_dim s)
      | None \<Rightarrow> mapR (\<lambda>h. of_int (2 * num_kv_heads s * h) * elem) (effective_head_dim s))"

definition kv_bytes_per_token :: "model_shape \<Rightarrow> string \<Rightarrow> rat result" where
  "kv_bytes_per_token s d = mapR (\<lambda>b. of_int (num_layers s) * b) (per_layer_per_token_bytes s d)"

definition cached_layer_tokens :: "model_shape \<Rightarrow> int \<Rightarrow> int" where
  "cached_layer_tokens s ctx =
     (let context = max 0 ctx in
      case sliding_window s of
        Some w \<Rightarrow>
          if w \<noteq> 0 then
            (case layers_with_full_attention s of
               Some f \<Rightarrow>
                 (let full = min (max 0 f) (num_layers s); windowed = num_layers s - full
                  in full * context + windowed * min w context)
             | None \<Rightarrow> num_layers s * min w context)
          else num_layers s * context
      | None \<Rightarrow> num_layers s * context)"

definition kv_cache_bytes :: "model_shape \<Rightarrow> int \<Rightarrow> int \<Rightarrow> string \<Rightarrow> rat result" where
  "kv_cache_bytes s context batch d =
     mapR (\<lambda>b. b * of_int (cached_layer_tokens s context) * of_int (max 0 batch))
       (per_layer_per_token_bytes s d)"

definition stage_fraction :: "model_shape \<Rightarrow> int \<Rightarrow> rat result" where
  "stage_fraction s pipeline =
     (let pp = max 1 pipeline in
      if pp \<le> 1 then Inr 1
      else py_truediv (of_int (ceil_div (num_layers s) pp)) (of_int (num_layers s)))"

definition kv_divisor :: "model_shape \<Rightarrow> parallelism_plan \<Rightarrow> rat result" where
  "kv_divisor s plan =
     (let tp = max 1 (tensor_parallel plan); pp = max 1 (pipeline_parallel plan);
          tp_div = (if truthy (mla_latent_dim s) then 1 else of_int (min tp (max 1 (num_kv_heads s))))
      in bindR (stage_fraction s pp) (\<lambda>f. py_truediv tp_div f))"

section \<open>Shapes the arithmetic is defined on\<close>

text \<open>
  What a resolved model satisfies: it has layers and attention heads, no width is negative, and
  its dtype is a key of the price table.
\<close>

definition well_shape :: "model_shape \<Rightarrow> bool" where
  "well_shape s \<longleftrightarrow>
     0 < num_layers s \<and> 0 \<le> hidden_size s \<and> 0 < num_attention_heads s \<and> 0 \<le> num_kv_heads s \<and>
     0 \<le> vocab_size s \<and> 0 \<le> total_params s \<and>
     (case head_dim s of None \<Rightarrow> True | Some d \<Rightarrow> 0 \<le> d) \<and>
     (case sliding_window s of None \<Rightarrow> True | Some w \<Rightarrow> 0 \<le> w) \<and>
     (case mla_latent_dim s of None \<Rightarrow> True | Some l \<Rightarrow> 0 \<le> l) \<and>
     (case mla_rope_dim s of None \<Rightarrow> True | Some r \<Rightarrow> 0 \<le> r) \<and>
     dget BYTES_PER_PARAM (dtype s) \<noteq> None"

lemma well_shapeD:
  assumes "well_shape s"
  shows "0 < num_layers s" "0 \<le> hidden_size s" "0 < num_attention_heads s" "0 \<le> num_kv_heads s"
    "0 \<le> vocab_size s" "0 \<le> total_params s" "sliding_window s = Some w \<Longrightarrow> 0 \<le> w"
    "\<exists>b. bytes_per_param s = Inr b \<and> 0 < b"
proof -
  from assms obtain b where b: "dget BYTES_PER_PARAM (dtype s) = Some b"
    unfolding well_shape_def by blast
  then have "bytes_per_param s = Inr b" by (simp add: bytes_per_param_def)
  then show "\<exists>b. bytes_per_param s = Inr b \<and> 0 < b"
    using bytes_per_param_pos by blast
qed (use assms in \<open>auto simp: well_shape_def\<close>)

lemma kv_fallback_2 [simp]: "kv_fallback_bytes = 2"
  by code_simp

lemma kv_table_pos: "dget KV_ELEM_BYTES k = Some b \<Longrightarrow> 1 \<le> b"
proof -
  have "\<forall>b \<in> set (dvalues KV_ELEM_BYTES). 1 \<le> b" by code_simp
  then show "dget KV_ELEM_BYTES k = Some b \<Longrightarrow> 1 \<le> b"
    by (auto dest!: map_of_SomeD)
qed

lemma kv_elem_ge_1: "1 \<le> kv_elem_bytes d shape"
  by (auto simp: kv_elem_bytes_def Let_def dget_or_def kv_table_pos split: option.splits)

lemma effective_head_dim_returns:
  "well_shape s \<Longrightarrow> \<exists>h. effective_head_dim s = Inr h \<and> 0 \<le> h"
  by (auto simp: well_shape_def effective_head_dim_def py_floordiv_def
      pos_imp_zdiv_nonneg_iff split: option.splits)

lemma effective_mla_rope_nonneg: "well_shape s \<Longrightarrow> 0 \<le> effective_mla_rope_dim s"
  by (auto simp: well_shape_def effective_mla_rope_dim_def split: option.splits)

lemma per_layer_returns:
  assumes "well_shape s"
  shows "\<exists>b. per_layer_per_token_bytes s d = Inr b \<and> 0 \<le> b"
proof -
  obtain h where h: "effective_head_dim s = Inr h" "0 \<le> h"
    using effective_head_dim_returns [OF assms] by blast
  have e: "0 \<le> kv_elem_bytes d (Some s)"
    using kv_elem_ge_1 [of d "Some s"] by linarith
  have l: "mla_latent_dim s = Some l \<Longrightarrow> 0 \<le> l" for l
    using assms by (simp add: well_shape_def)
  show ?thesis
    using h e effective_mla_rope_nonneg [OF assms] well_shapeD(4) [OF assms]
    by (auto simp: per_layer_per_token_bytes_def Let_def dest!: l split: option.splits)
qed

lemma cached_mono:
  assumes "well_shape s" "a \<le> b"
  shows "cached_layer_tokens s a \<le> cached_layer_tokens s b"
  using well_shapeD(1) [OF assms(1)] assms(2)
  by (auto simp: cached_layer_tokens_def Let_def split: option.splits
      intro!: add_mono mult_left_mono)

lemma cached_nonneg:
  assumes "well_shape s"
  shows "0 \<le> cached_layer_tokens s a"
  using well_shapeD(1) [OF assms] well_shapeD(7) [OF assms]
  by (auto simp: cached_layer_tokens_def Let_def split: option.splits
      intro!: add_nonneg_nonneg mult_nonneg_nonneg)

lemma cached_le_full:
  assumes "well_shape s"
  shows "cached_layer_tokens s a \<le> num_layers s * max 0 a"
proof -
  let ?c = "max 0 a"
  have "full * ?c + (n - full) * min w ?c \<le> n * ?c" if "full \<le> n" for full n w :: int
  proof -
    have "(n - full) * min w ?c \<le> (n - full) * ?c"
      using that by (intro mult_left_mono) auto
    then show ?thesis by (simp add: algebra_simps)
  qed
  moreover have "num_layers s * min w ?c \<le> num_layers s * ?c" for w
    using well_shapeD(1) [OF assms] by (intro mult_left_mono) auto
  ultimately show ?thesis
    by (auto simp: cached_layer_tokens_def Let_def split: option.splits)
qed

lemma stage_fraction_returns:
  assumes "well_shape s"
  shows "\<exists>f. stage_fraction s pp = Inr f \<and> 0 < f"
proof (cases "max 1 pp \<le> 1")
  case False
  have n: "0 < num_layers s" by (rule well_shapeD(1) [OF assms])
  have "num_layers s \<le> ceil_div (num_layers s) (max 1 pp) * max 1 pp"
    using ceil_div_bounds [of "max 1 pp" "num_layers s"] False by simp
  with n have "0 < ceil_div (num_layers s) (max 1 pp) * max 1 pp" by linarith
  then have "0 < ceil_div (num_layers s) (max 1 pp)"
    by (simp add: zero_less_mult_iff)
  with n False show ?thesis by (simp add: stage_fraction_def py_truediv_def)
qed (simp add: stage_fraction_def)

lemma kv_divisor_returns:
  assumes "well_shape s"
  shows "\<exists>q. kv_divisor s plan = Inr q \<and> 0 < q"
proof -
  obtain f where "stage_fraction s (max 1 (pipeline_parallel plan)) = Inr f" "0 < f"
    using stage_fraction_returns [OF assms] by blast
  then show ?thesis
    by (cases "truthy (mla_latent_dim s)")
      (simp_all add: kv_divisor_def Let_def py_truediv_def less_max_iff_disj)
qed

lemma kv_cache_returns:
  assumes "well_shape s"
  shows "\<exists>b. kv_cache_bytes s context batch d = Inr b \<and> 0 \<le> b"
  using per_layer_returns [OF assms, of d] cached_nonneg [OF assms]
  by (auto simp: kv_cache_bytes_def)

lemma kv_cache_mono:
  assumes "well_shape s" "a \<le> b" "m \<le> n"
    "kv_cache_bytes s a m d = Inr x" "kv_cache_bytes s b n d = Inr y"
  shows "x \<le> y"
proof -
  obtain p where p: "per_layer_per_token_bytes s d = Inr p" "0 \<le> p"
    using per_layer_returns [OF assms(1)] by blast
  have "p * of_int (cached_layer_tokens s a) \<le> p * of_int (cached_layer_tokens s b)"
    using p(2) cached_mono [OF assms(1,2)] by (intro mult_left_mono) simp_all
  moreover have "(0::rat) \<le> p * of_int (cached_layer_tokens s b)"
    using p(2) cached_nonneg [OF assms(1)] by simp
  moreover have "(of_int (max 0 m) :: rat) \<le> of_int (max 0 n)" "(0::rat) \<le> of_int (max 0 m)"
    using assms(3) by simp_all
  ultimately have "p * of_int (cached_layer_tokens s a) * of_int (max 0 m)
      \<le> p * of_int (cached_layer_tokens s b) * of_int (max 0 n)"
    using mult_mono by blast
  then show ?thesis
    using assms(4,5) p(1) by (simp add: kv_cache_bytes_def)
qed

section \<open>What the sizing guarantees\<close>

text \<open>A sliding window caps the total and not the rate: the cache of a model, windowed or
  not, never exceeds the per-token rate times the context times the number of sequences, and with
  no window it is exactly that product.\<close>

theorem kv_cache_bounded_by_rate:
  assumes "well_shape s" and "0 \<le> ctx" and "0 \<le> batch"
  shows "\<exists>total rate. kv_cache_bytes s ctx batch d = Inr total \<and> kv_bytes_per_token s d = Inr rate
    \<and> 0 \<le> total \<and> total \<le> rate * of_int ctx * of_int batch
    \<and> (\<not> truthy (sliding_window s) \<longrightarrow> total = rate * of_int ctx * of_int batch)"
proof -
  obtain p where p: "per_layer_per_token_bytes s d = Inr p" "0 \<le> p"
    using per_layer_returns [OF assms(1)] by blast
  let ?c = "cached_layer_tokens s ctx"
  have le: "?c \<le> num_layers s * ctx"
    using cached_le_full [OF assms(1), of ctx] assms(2) by simp
  have "p * of_int ?c * of_int batch \<le> p * of_int (num_layers s * ctx) * of_int batch"
    using p(2) le assms(3) by (intro mult_right_mono mult_left_mono) (auto simp del: of_int_mult)
  moreover have "\<not> truthy (sliding_window s) \<Longrightarrow> ?c = num_layers s * ctx"
    using assms(2) by (auto simp: truthy_def cached_layer_tokens_def Let_def split: option.splits)
  ultimately show ?thesis
    using p assms(3) cached_nonneg [OF assms(1), of ctx]
    by (auto simp: kv_cache_bytes_def kv_bytes_per_token_def mult_ac)
qed

definition example_shape :: model_shape where
  "example_shape = \<lparr>model_id = ''example'', num_layers = 36, hidden_size = 2880,
     num_attention_heads = 64, num_kv_heads = 8, vocab_size = 201088,
     total_params = 116800000000, dtype = ''mxfp4'', head_dim = Some 64, num_experts = 128,
     num_experts_per_token = 4, active_params = Some 5100000000, sliding_window = Some 128,
     layers_with_full_attention = Some 18, mla_latent_dim = None, mla_rope_dim = None,
     vision_params = 0, is_encoder_decoder = False\<rparr>"

lemma example_well_shape: "well_shape example_shape"
  by code_simp

theorem kv_cache_bounded_by_rate_witness:
  "\<exists>total rate. kv_cache_bytes example_shape 8192 4 ''auto'' = Inr total
    \<and> kv_bytes_per_token example_shape ''auto'' = Inr rate
    \<and> 0 \<le> total \<and> total \<le> rate * of_int 8192 * of_int 4
    \<and> (\<not> truthy (sliding_window example_shape) \<longrightarrow> total = rate * of_int 8192 * of_int 4)"
  by (rule kv_cache_bounded_by_rate [OF example_well_shape]) simp_all

text \<open>Pipeline and tensor parallelism never under-charge a rank: the share of the layers
  charged to the busiest stage is at least an even split and at most everything, the tensor degree
  never divides the cache by more than the number of KV heads, and a rank is charged at least the
  whole cache divided by the number of tensor and pipeline ranks.\<close>

theorem kv_divisor_conservative:
  assumes "well_shape s" and "0 < tensor_parallel plan" and "0 < pipeline_parallel plan"
  shows "\<exists>f q. stage_fraction s (pipeline_parallel plan) = Inr f \<and> kv_divisor s plan = Inr q
    \<and> 1 / of_int (pipeline_parallel plan) \<le> f \<and> f \<le> 1
    \<and> 0 < q \<and> q * f \<le> of_int (max 1 (num_kv_heads s))
    \<and> q \<le> of_int (tensor_parallel plan * pipeline_parallel plan)"
proof -
  let ?pp = "pipeline_parallel plan" and ?n = "num_layers s"
  have n: "0 < ?n" by (rule well_shapeD(1) [OF assms(1)])
  obtain f where f: "stage_fraction s ?pp = Inr f" "0 < f"
    using stage_fraction_returns [OF assms(1)] by blast
  have low: "1 / of_int ?pp \<le> f" and high: "f \<le> 1"
  proof -
    let ?c = "ceil_div ?n ?pp"
    have b: "?n \<le> ?c * ?pp" "?c * ?pp < ?n + ?pp"
      using ceil_div_bounds [OF assms(3)] by simp_all
    have "?c \<le> ?n"
    proof (rule ccontr)
      assume "\<not> ?c \<le> ?n"
      then have "(?n + 1) * ?pp \<le> ?c * ?pp" using assms(3) by (intro mult_right_mono) auto
      moreover have "?n \<le> ?n * ?pp" using n assms(3) by simp
      ultimately show False using b(2) by (simp add: algebra_simps)
    qed
    moreover have "(of_int ?n :: rat) \<le> of_int ?c * of_int ?pp"
      using b(1) by (metis of_int_le_iff of_int_mult)
    moreover have "?pp \<le> 1 \<and> f = 1 \<or> f = of_int ?c / of_int ?n"
      using f n assms(3) by (auto simp: stage_fraction_def Let_def py_truediv_def max_def split: if_splits)
    ultimately show "1 / of_int ?pp \<le> f" "f \<le> 1"
      using n assms(3) by (auto simp: le_divide_eq divide_le_eq mult.commute)
  qed
  let ?t = "if truthy (mla_latent_dim s) then 1
    else of_int (min (tensor_parallel plan) (max 1 (num_kv_heads s))) :: rat"
  have t: "1 \<le> ?t" "?t \<le> of_int (tensor_parallel plan)" "?t \<le> of_int (max 1 (num_kv_heads s))"
    using assms(2) by auto
  have q: "kv_divisor s plan = Inr (?t / f)"
    using f assms(2,3) by (simp add: kv_divisor_def Let_def py_truediv_def max_def)
  have "?t / f \<le> of_int (tensor_parallel plan) * of_int ?pp"
  proof -
    have "1 / f \<le> of_int ?pp"
      using low f(2) assms(3) by (simp add: field_simps)
    then have "?t * (1 / f) \<le> of_int (tensor_parallel plan) * of_int ?pp"
      using t f(2) assms(2) by (intro mult_mono) auto
    then show ?thesis by simp
  qed
  with f q low high t show ?thesis
    by (intro exI [of _ f] exI [of _ "?t / f"]) auto
qed

definition example_plan :: parallelism_plan where
  "example_plan = \<lparr>kind = HYBRID, tensor_parallel = 2, pipeline_parallel = 5, expert_parallel = 1,
     data_parallel = 1, node_ids = [''n1''], plan_reason = [], measured_link_gbps = 0,
     rejected = []\<rparr>"

theorem kv_divisor_conservative_witness:
  "\<exists>f q. stage_fraction example_shape (pipeline_parallel example_plan) = Inr f
    \<and> kv_divisor example_shape example_plan = Inr q
    \<and> 1 / of_int (pipeline_parallel example_plan) \<le> f \<and> f \<le> 1
    \<and> 0 < q \<and> q * f \<le> of_int (max 1 (num_kv_heads example_shape))
    \<and> q \<le> of_int (tensor_parallel example_plan * pipeline_parallel example_plan)"
  by (rule kv_divisor_conservative [OF example_well_shape]) (simp_all add: example_plan_def)

end
