(* ===== verification/Gate_Search.thy ===== *)
theory Gate_Search
  imports Prelude
begin

text \<open>
  The binary search that the fit gate runs over contexts and over concurrency
  (\<open>FitCalculator._largest_context\<close> and \<open>_largest_max_seqs\<close> in
  \<open>control_plane/fit/calculator.py\<close>), with the interface it relies on: a demand in bytes that
  is always defined on good inputs and never falls as the searched quantity grows.
\<close>

section \<open>The loop\<close>

text \<open>
  \<open>while lo < hi: mid = (lo + hi + 1) // 2; if fits(mid): lo = mid else: hi = mid - 1\<close>,
  where evaluating \<open>fits\<close> may raise.
\<close>

function bisect :: "(int \<Rightarrow> bool result) \<Rightarrow> int \<Rightarrow> int \<Rightarrow> int result" where
  "bisect fits lo hi =
     (if lo < hi then
        (let mid = (lo + hi + 1) div 2 in
         case fits mid of
           Inl e \<Rightarrow> Inl e
         | Inr b \<Rightarrow> if b then bisect fits mid hi else bisect fits lo (mid - 1))
      else Inr lo)"
  by pat_completeness auto
termination
  by (relation "measure (\<lambda>(fits, lo, hi). nat (hi - lo))") auto

declare bisect.simps [simp del]

text \<open>
  The guard after the search: \<open>while result > 0 and not fits(result): result -= step\<close>.
\<close>

function step_down :: "(int \<Rightarrow> bool result) \<Rightarrow> int \<Rightarrow> int \<Rightarrow> int result" where
  "step_down fits step result =
     (if result > 0 \<and> 0 < step then
        (case fits result of
           Inl e \<Rightarrow> Inl e
         | Inr b \<Rightarrow> if b then Inr result else step_down fits step (result - step))
      else Inr result)"
  by pat_completeness auto
termination
  by (relation "measure (\<lambda>(fits, step, result). nat result)") auto

declare step_down.simps [simp del]

section \<open>The interface\<close>

text \<open>
  \<open>demand p n\<close> is what configuration \<open>p\<close> needs at size \<open>n\<close>; \<open>ok\<close> says for which
  configurations it is defined.
\<close>

locale gate =
  fixes ok :: "'p \<Rightarrow> bool"
    and demand :: "'p \<Rightarrow> int \<Rightarrow> int result"
  assumes defined: "ok p \<Longrightarrow> \<exists>d. demand p n = Inr d"
    and rises: "ok p \<Longrightarrow> m \<le> n \<Longrightarrow> demand p m = Inr d \<Longrightarrow> demand p n = Inr e \<Longrightarrow> d \<le> e"
begin

definition fits :: "'p \<Rightarrow> int \<Rightarrow> int \<Rightarrow> bool" where
  "fits p budget n \<longleftrightarrow> (\<exists>d. demand p n = Inr d \<and> d \<le> budget)"

lemma fits_code: "ok p \<Longrightarrow> mapR (\<lambda>d. d \<le> budget) (demand p n) = Inr (fits p budget n)"
  using defined [of p n] by (auto simp: fits_def)

lemma fits_down: "ok p \<Longrightarrow> m \<le> n \<Longrightarrow> fits p budget n \<Longrightarrow> fits p budget m"
  using defined [of p m] rises by (fastforce simp: fits_def)

lemma bisect_finds:
  assumes "ok p" and "lo \<le> hi" and "fits p budget lo"
    and "\<And>n. F n = Inr (fits p budget n)"
  shows "\<exists>r. bisect F lo hi = Inr r \<and> lo \<le> r \<and> r \<le> hi \<and> fits p budget r
    \<and> (r < hi \<longrightarrow> \<not> fits p budget (r + 1))"
  using assms(2,3)
proof (induction "nat (hi - lo)" arbitrary: lo hi rule: less_induct)
  case (less lo hi)
  show ?case
  proof (cases "lo < hi")
    case False
    then show ?thesis using less.prems by (subst bisect.simps) auto
  next
    case True
    let ?mid = "(lo + hi + 1) div 2"
    have mid: "lo < ?mid" "?mid \<le> hi" using True by linarith+
    show ?thesis
    proof (cases "fits p budget ?mid")
      case fit: True
      have "bisect F lo hi = bisect F ?mid hi"
        using True fit by (subst bisect.simps) (simp add: assms(4))
      moreover obtain r where "bisect F ?mid hi = Inr r" "?mid \<le> r" "r \<le> hi" "fits p budget r"
        "r < hi \<longrightarrow> \<not> fits p budget (r + 1)"
        using less.hyps [of hi ?mid] mid fit True by auto
      ultimately show ?thesis using mid by auto
    next
      case no: False
      have "bisect F lo hi = bisect F lo (?mid - 1)"
        using True no by (subst bisect.simps) (simp add: assms(4))
      moreover obtain r where "bisect F lo (?mid - 1) = Inr r" "lo \<le> r" "r \<le> ?mid - 1"
        "fits p budget r" "r < ?mid - 1 \<longrightarrow> \<not> fits p budget (r + 1)"
        using less.hyps [of "?mid - 1" lo] mid less.prems True by auto
      ultimately show ?thesis using mid no by (cases "r = ?mid - 1") auto
    qed
  qed
qed

lemma step_down_stays:
  assumes "fits p budget r" and "\<And>n. F n = Inr (fits p budget (g n))" and "g r' = r"
  shows "step_down F step r' = Inr r'"
  using assms by (subst step_down.simps) simp

end

end
