(* ===== verification/Fit_Calculator.thy ===== *)
theory Fit_Calculator
  imports Fit_Kv Gate_Search
begin

text \<open>
  The blocking pre-launch memory gate, \<open>control_plane/fit/calculator.py\<close>: the per-rank memory
  breakdown, the searches over contexts, sequences and node counts, the verdict, and the sentence
  that names the term which blew the budget and the change that would work.
\<close>

section \<open>Decode rate\<close>

definition predict_decode_tps :: "model_shape \<Rightarrow> rat \<Rightarrow> rat \<Rightarrow> rat result" where
  "predict_decode_tps s bandwidth kv_read =
     (if bandwidth \<le> 0 then Inr 0
      else bindR (bytes_per_param s) (\<lambda>bpp.
        let bytes_per_token = of_int (effective_active_params s) * bpp + max 0 kv_read in
        if bytes_per_token \<le> 0 then Inr 0
        else Inr ((bandwidth * 1000000000) / bytes_per_token * DECODE_EFFICIENCY)))"

section \<open>The terms of the budget\<close>

definition vision_share :: "model_shape \<Rightarrow> int" where
  "vision_share s = min (max 0 (vision_params s)) (total_params s)"

definition weight_bytes_per_rank ::
  "model_shape \<Rightarrow> parallelism_plan \<Rightarrow> int option \<Rightarrow> rat result" where
  "weight_bytes_per_rank s plan total_weight_bytes =
     bindR (bytes_per_param s) (\<lambda>bpp.
       let vision = vision_share s;
           vision_bytes = of_int vision * bpp;
           formula = of_int (total_params s - vision) * bpp;
           shardable = (case total_weight_bytes of
              Some w \<Rightarrow> if w > 0 then max 0 (of_int w - vision_bytes) else formula
            | None \<Rightarrow> formula);
           tp = max 1 (tensor_parallel plan)
       in mapR (\<lambda>f. shardable * f / of_int tp) (stage_fraction s (pipeline_parallel plan)))"

definition replicated_bytes_per_rank :: "model_shape \<Rightarrow> rat result" where
  "replicated_bytes_per_rank s = mapR (\<lambda>bpp. of_int (vision_share s) * bpp) (bytes_per_param s)"

definition activation_bytes :: "model_shape \<Rightarrow> int \<Rightarrow> int \<Rightarrow> int \<Rightarrow> rat" where
  "activation_bytes s max_seqs context chunk_tokens =
     (let batch = max 1 max_seqs; chunk = min (max 1 chunk_tokens) (max 1 context);
          logits = vocab_size s * batch * 4; scratch = chunk * hidden_size s * 4 * 6
      in of_int (logits + scratch))"

definition comm_buffer_bytes :: "parallelism_plan \<Rightarrow> rat" where
  "comm_buffer_bytes plan =
     (let ep_active = expert_parallel plan > 1 in
      if world_size plan \<le> 1 \<and> \<not> ep_active then 0
      else of_int COMM_BUFFER_BYTES + (if ep_active then of_int EP_EXTRA_BUFFER_BYTES else 0))"

definition breakdown_warnings :: "model_shape \<Rightarrow> parallelism_plan \<Rightarrow> string \<Rightarrow> msg list" where
  "breakdown_warnings s plan d =
     (let tp = max 1 (tensor_parallel plan); pp = max 1 (pipeline_parallel plan) in
      (if \<not> is_known_kv_dtype d
       then [Msg ''unknown KV cache dtype'' [S d, F (kv_elem_bytes d (Some s))]] else []) @
      (if pp > num_layers s
       then [Msg ''PP exceeds layers; stages will be empty'' [I pp, I (num_layers s)]] else []) @
      (if pp > 1 \<and> num_layers s mod pp \<noteq> 0
       then [Msg ''pipeline stages are uneven'' [I (num_layers s), I pp, I (ceil_div (num_layers s) pp)]]
       else []) @
      (if \<not> truthy (mla_latent_dim s) \<and> tp > num_kv_heads s
       then [Msg ''TP exceeds KV heads'' [I tp, I (num_kv_heads s)]] else []) @
      (if truthy (mla_latent_dim s) \<and> tp > 1
       then [Msg ''MLA caches one latent per token'' []] else []) @
      (if expert_parallel plan > 1
       then [Msg ''expert parallel is active'' [I EP_EXTRA_BUFFER_BYTES, I COMM_BUFFER_BYTES]] else []) @
      (if is_encoder_decoder s
       then [Msg ''encoder-decoder shape: kv_cache is a floor'' []] else []))"

definition memory_breakdown ::
  "model_shape \<Rightarrow> parallelism_plan \<Rightarrow> int \<Rightarrow> int \<Rightarrow> string \<Rightarrow> int \<Rightarrow> int option
    \<Rightarrow> (memory_breakdown \<times> msg list) result" where
  "memory_breakdown s plan context max_seqs d chunk_tokens weight_bytes =
     bindR (kv_cache_bytes s context max_seqs d) (\<lambda>kv_total.
     bindR (weight_bytes_per_rank s plan weight_bytes) (\<lambda>weights.
     bindR (kv_divisor s plan) (\<lambda>divisor.
     bindR (py_truediv kv_total divisor) (\<lambda>kv.
     bindR (replicated_bytes_per_rank s) (\<lambda>replicated.
       Inr (\<lparr>mb_weights = py_int weights, mb_kv_cache = py_int kv,
             mb_activations = py_int (activation_bytes s max_seqs context chunk_tokens),
             mb_comm_buffers = py_int (comm_buffer_bytes plan),
             mb_replicated = py_int replicated,
             mb_framework_overhead = FRAMEWORK_OVERHEAD\<rparr>,
            breakdown_warnings s plan d))))))"

definition total_at ::
  "model_shape \<Rightarrow> parallelism_plan \<Rightarrow> int \<Rightarrow> int \<Rightarrow> string \<Rightarrow> int \<Rightarrow> int option \<Rightarrow> int result" where
  "total_at s plan context max_seqs d chunk_tokens weight_bytes =
     mapR (\<lambda>(b, ws). mb_total b) (memory_breakdown s plan context max_seqs d chunk_tokens weight_bytes)"

section \<open>Node counts\<close>

definition synthetic_plan :: "int \<Rightarrow> int \<Rightarrow> parallelism_plan" where
  "synthetic_plan tp pp =
     \<lparr>kind = (if tp = 1 \<and> pp = 1 then SINGLE_NODE else if pp = 1 then TENSOR
              else if tp = 1 then PIPELINE else HYBRID),
      tensor_parallel = tp, pipeline_parallel = pp, expert_parallel = 1, data_parallel = 1,
      node_ids = [], plan_reason = [Msg ''synthetic plan for a node-count search'' []],
      measured_link_gbps = 0, rejected = []\<rparr>"

definition candidate_shards :: "int \<Rightarrow> model_shape \<Rightarrow> parallelism_plan list" where
  "candidate_shards n s =
     concat (map (\<lambda>tp.
       if n mod tp \<noteq> 0 then []
       else if num_attention_heads s mod tp \<noteq> 0 \<or> num_kv_heads s mod tp \<noteq> 0 then []
       else let pp = n div tp in
         if pp > num_layers s then [] else [synthetic_plan tp pp]) [1..n])"

text \<open>The two nested loops of \<open>min_nodes_required\<close>; the first plan that fits returns.\<close>

fun any_plan_fits :: "(parallelism_plan \<Rightarrow> int result) \<Rightarrow> int \<Rightarrow> parallelism_plan list \<Rightarrow> bool result" where
  "any_plan_fits need usable [] = Inr False"
| "any_plan_fits need usable (p # ps) =
     bindR (need p) (\<lambda>t. if t \<le> usable then Inr True else any_plan_fits need usable ps)"

fun first_count :: "(int \<Rightarrow> bool result) \<Rightarrow> int list \<Rightarrow> int result" where
  "first_count holds [] = Inr (- 1)"
| "first_count holds (n # ns) =
     bindR (holds n) (\<lambda>b. if b then Inr n else first_count holds ns)"

definition min_nodes_required ::
  "model_shape \<Rightarrow> node_profile \<Rightarrow> int \<Rightarrow> int \<Rightarrow> string \<Rightarrow> rat \<Rightarrow> int option \<Rightarrow> int option \<Rightarrow> int result" where
  "min_nodes_required s node context max_seqs d guardrail weight_bytes usable =
     (let budget = (case usable of None \<Rightarrow> usable_memory node guardrail | Some u \<Rightarrow> u) in
      first_count (\<lambda>n. any_plan_fits
         (\<lambda>p. total_at s p context max_seqs d ACTIVATION_CHUNK_TOKENS weight_bytes) budget
         (candidate_shards n s)) [1..MAX_SEARCH_NODES])"

section \<open>Searches\<close>

definition fits_at ::
  "int \<Rightarrow> model_shape \<Rightarrow> parallelism_plan \<Rightarrow> int \<Rightarrow> int \<Rightarrow> string \<Rightarrow> int \<Rightarrow> int option \<Rightarrow> bool result" where
  "fits_at chunk s plan context max_seqs d usable weight_bytes =
     mapR (\<lambda>t. t \<le> usable) (total_at s plan context max_seqs d chunk weight_bytes)"

definition largest_max_seqs ::
  "int \<Rightarrow> model_shape \<Rightarrow> parallelism_plan \<Rightarrow> int \<Rightarrow> int \<Rightarrow> string \<Rightarrow> int \<Rightarrow> int option \<Rightarrow> int result" where
  "largest_max_seqs chunk s plan usable context d cap weight_bytes =
     (let fits = (\<lambda>seqs. fits_at chunk s plan context seqs d usable weight_bytes) in
      if cap < 1 then Inr 0
      else bindR (fits 1) (\<lambda>one.
        if \<not> one then Inr 0
        else let hi = max 1 cap in
          bindR (fits hi) (\<lambda>all. if all then Inr hi else bisect fits 1 hi)))"

definition largest_context ::
  "int \<Rightarrow> model_shape \<Rightarrow> parallelism_plan \<Rightarrow> int \<Rightarrow> int \<Rightarrow> string \<Rightarrow> int option \<Rightarrow> int result" where
  "largest_context chunk s plan usable max_seqs d weight_bytes =
     (let step = CONTEXT_ROUNDING;
          fits = (\<lambda>units. fits_at chunk s plan (units * step) max_seqs d usable weight_bytes) in
      bindR (fits 1) (\<lambda>one.
        if \<not> one then Inr 0
        else let hi = MAX_CONTEXT_SEARCH div step in
          bindR (fits hi) (\<lambda>all.
            if all then Inr (hi * step)
            else bindR (bisect fits 1 hi) (\<lambda>lo.
              bindR (step_down (\<lambda>c. fits_at chunk s plan c max_seqs d usable weight_bytes)
                       step (lo * step))
                (\<lambda>result. Inr (max 0 result))))))"

section \<open>The gate is monotone\<close>

lemma weight_bytes_returns:
  assumes "well_shape s"
  shows "\<exists>w. weight_bytes_per_rank s plan wb = Inr w"
proof -
  obtain f where "stage_fraction s (pipeline_parallel plan) = Inr f"
    using stage_fraction_returns [OF assms] by blast
  moreover obtain b where "bytes_per_param s = Inr b"
    using well_shapeD(8) [OF assms] by blast
  ultimately show ?thesis by (simp add: weight_bytes_per_rank_def Let_def)
qed

lemma replicated_returns:
  assumes "well_shape s"
  shows "\<exists>r. replicated_bytes_per_rank s = Inr r"
  using well_shapeD(8) [OF assms] by (auto simp: replicated_bytes_per_rank_def)

lemma total_at_split:
  assumes "well_shape s"
  obtains kv q w r where "kv_cache_bytes s context seqs d = Inr kv" "0 \<le> kv"
    "kv_divisor s plan = Inr q" "0 < q" "weight_bytes_per_rank s plan wb = Inr w"
    "replicated_bytes_per_rank s = Inr r"
    "memory_breakdown s plan context seqs d chunk wb = Inr
       (\<lparr>mb_weights = py_int w, mb_kv_cache = py_int (kv / q),
         mb_activations = py_int (activation_bytes s seqs context chunk),
         mb_comm_buffers = py_int (comm_buffer_bytes plan), mb_replicated = py_int r,
         mb_framework_overhead = FRAMEWORK_OVERHEAD\<rparr>, breakdown_warnings s plan d)"
    "total_at s plan context seqs d chunk wb = Inr (py_int w + py_int (kv / q)
       + py_int (activation_bytes s seqs context chunk) + py_int (comm_buffer_bytes plan)
       + py_int r + FRAMEWORK_OVERHEAD)"
proof -
  obtain kv where 1: "kv_cache_bytes s context seqs d = Inr kv" "0 \<le> kv"
    using kv_cache_returns [OF assms] by blast
  obtain q where 2: "kv_divisor s plan = Inr q" "0 < q"
    using kv_divisor_returns [OF assms] by blast
  obtain w where 3: "weight_bytes_per_rank s plan wb = Inr w"
    using weight_bytes_returns [OF assms] by blast
  obtain r where 4: "replicated_bytes_per_rank s = Inr r"
    using replicated_returns [OF assms] by blast
  show thesis
    using 1 2 3 4
    by (intro that [of kv q w r])
      (simp_all add: total_at_def memory_breakdown_def py_truediv_def mb_total_def)
qed

lemma activation_mono:
  assumes "well_shape s" "a \<le> b" "m \<le> n"
  shows "activation_bytes s m a chunk \<le> activation_bytes s n b chunk"
proof -
  have "vocab_size s * max 1 m * 4 \<le> vocab_size s * max 1 n * 4"
    using well_shapeD(5) [OF assms(1)] assms(3)
    by (intro mult_right_mono mult_left_mono) auto
  moreover have "min (max 1 chunk) (max 1 a) * hidden_size s * 4 * 6
      \<le> min (max 1 chunk) (max 1 b) * hidden_size s * 4 * 6"
    using well_shapeD(2) [OF assms(1)] assms(2)
    by (intro mult_right_mono) auto
  ultimately show ?thesis by (simp only: activation_bytes_def Let_def of_int_le_iff)
qed

lemma total_at_mono:
  assumes "well_shape s" "a \<le> b" "m \<le> n"
    "total_at s plan a m d chunk wb = Inr x" "total_at s plan b n d chunk wb = Inr y"
  shows "x \<le> y"
proof -
  obtain kv q w r where 1: "kv_cache_bytes s a m d = Inr kv" "kv_divisor s plan = Inr q" "0 < q"
    "weight_bytes_per_rank s plan wb = Inr w" "replicated_bytes_per_rank s = Inr r"
    "total_at s plan a m d chunk wb = Inr (py_int w + py_int (kv / q)
       + py_int (activation_bytes s m a chunk) + py_int (comm_buffer_bytes plan)
       + py_int r + FRAMEWORK_OVERHEAD)"
    using total_at_split [OF assms(1)] by metis
  obtain kv' q' w' r' where 2: "kv_cache_bytes s b n d = Inr kv'" "kv_divisor s plan = Inr q'"
    "weight_bytes_per_rank s plan wb = Inr w'" "replicated_bytes_per_rank s = Inr r'"
    "total_at s plan b n d chunk wb = Inr (py_int w' + py_int (kv' / q')
       + py_int (activation_bytes s n b chunk) + py_int (comm_buffer_bytes plan)
       + py_int r' + FRAMEWORK_OVERHEAD)"
    using total_at_split [OF assms(1)] by metis
  have "kv \<le> kv'" using kv_cache_mono [OF assms(1-3)] 1(1) 2(1) by blast
  then have "py_int (kv / q) \<le> py_int (kv' / q)"
    using 1(3) by (intro py_int_mono divide_right_mono) auto
  moreover have "py_int (activation_bytes s m a chunk) \<le> py_int (activation_bytes s n b chunk)"
    by (intro py_int_mono activation_mono assms)
  ultimately show ?thesis using 1 2 assms(4,5) by simp
qed

lemma total_at_returns: "well_shape s \<Longrightarrow> \<exists>t. total_at s plan context seqs d chunk wb = Inr t"
  by (rule total_at_split) auto

text \<open>The two quantities the gate searches over, as demands of a configuration.\<close>

type_synonym gate_config =
  "int \<times> model_shape \<times> parallelism_plan \<times> int \<times> string \<times> int option"

definition context_demand :: "int \<Rightarrow> gate_config \<Rightarrow> int \<Rightarrow> int result" where
  "context_demand step p n = (case p of (chunk, s, plan, seqs, d, wb) \<Rightarrow>
     total_at s plan (n * max 1 step) seqs d chunk wb)"

definition seqs_demand :: "gate_config \<Rightarrow> int \<Rightarrow> int result" where
  "seqs_demand p n = (case p of (chunk, s, plan, context, d, wb) \<Rightarrow>
     total_at s plan context n d chunk wb)"

definition config_ok :: "gate_config \<Rightarrow> bool" where
  "config_ok p \<longleftrightarrow> (case p of (chunk, s, plan, x, d, wb) \<Rightarrow> well_shape s)"

lemma context_demand_rises:
  assumes "config_ok p" "m \<le> n" "context_demand step p m = Inr x" "context_demand step p n = Inr y"
  shows "x \<le> y"
proof -
  have le: "m * max 1 step \<le> n * max 1 step"
    using assms(2) by (intro mult_right_mono) auto
  obtain chunk s plan k d wb where p: "p = (chunk, s, plan, k, d, wb)"
    by (cases p)
  show ?thesis
    using total_at_mono [OF _ le order_refl] assms
    unfolding p context_demand_def config_ok_def prod.case by blast
qed

lemma seqs_demand_rises:
  assumes "config_ok p" "m \<le> n" "seqs_demand p m = Inr x" "seqs_demand p n = Inr y"
  shows "x \<le> y"
proof -
  obtain chunk s plan k d wb where p: "p = (chunk, s, plan, k, d, wb)"
    by (cases p)
  show ?thesis
    using total_at_mono [OF _ order_refl assms(2)] assms
    unfolding p seqs_demand_def config_ok_def prod.case by blast
qed

interpretation ctx: gate config_ok "context_demand step" for step
proof
  show "\<exists>d. context_demand step p n = Inr d" if "config_ok p" for p n
    using that total_at_returns by (cases p) (simp add: context_demand_def config_ok_def)
qed (rule context_demand_rises)

interpretation seqs: gate config_ok seqs_demand
proof
  show "\<exists>d. seqs_demand p n = Inr d" if "config_ok p" for p n
    using that total_at_returns by (cases p) (simp add: seqs_demand_def config_ok_def)
qed (rule seqs_demand_rises)

section \<open>What the searches return\<close>

lemma fits_at_context:
  "well_shape s \<Longrightarrow> 1 \<le> step \<Longrightarrow>
     fits_at chunk s plan (u * step) seqs d usable wb
       = Inr (ctx.fits step (chunk, s, plan, seqs, d, wb) usable u)"
  using ctx.fits_code [of "(chunk, s, plan, seqs, d, wb)" usable step u]
  by (simp add: fits_at_def context_demand_def config_ok_def)

lemma fits_at_seqs:
  "well_shape s \<Longrightarrow>
     fits_at chunk s plan context n d usable wb
       = Inr (seqs.fits (chunk, s, plan, context, d, wb) usable n)"
  using seqs.fits_code [of "(chunk, s, plan, context, d, wb)" usable n]
  by (simp add: fits_at_def seqs_demand_def config_ok_def)

lemma fits_at_returns: "well_shape s \<Longrightarrow> \<exists>b. fits_at chunk s plan c seqs d usable wb = Inr b"
  by (metis fits_at_def mapR.simps(2) total_at_returns)

lemma fits_at_down:
  assumes "well_shape s" "a \<le> b" "m \<le> n" "fits_at chunk s plan b n d usable wb = Inr True"
  shows "fits_at chunk s plan a m d usable wb = Inr True"
proof -
  obtain x y where xy: "total_at s plan a m d chunk wb = Inr x" "total_at s plan b n d chunk wb = Inr y"
    using total_at_returns [OF assms(1)] by meson
  have "x \<le> y" by (rule total_at_mono [OF assms(1-3) xy])
  with xy assms(4) show ?thesis by (simp add: fits_at_def)
qed

lemma largest_context_cases:
  assumes "well_shape s"
  shows "\<exists>r. largest_context chunk s plan usable seqs d wb = Inr (r * CONTEXT_ROUNDING)
    \<and> 0 \<le> r \<and> r \<le> 4096
    \<and> (0 < r \<longrightarrow> ctx.fits CONTEXT_ROUNDING (chunk, s, plan, seqs, d, wb) usable r)
    \<and> (r < 4096 \<longrightarrow> \<not> ctx.fits CONTEXT_ROUNDING (chunk, s, plan, seqs, d, wb) usable (r + 1))"
proof -
  let ?p = "(chunk, s, plan, seqs, d, wb)"
  let ?fit = "ctx.fits CONTEXT_ROUNDING ?p usable"
  let ?F = "\<lambda>u. fits_at chunk s plan (u * CONTEXT_ROUNDING) seqs d usable wb"
  have F: "?F u = Inr (?fit u)" for u
    by (rule fits_at_context) (simp_all add: assms CONTEXT_ROUNDING_def)
  have ok: "config_ok ?p" using assms by (simp add: config_ok_def)
  have hi: "MAX_CONTEXT_SEARCH div CONTEXT_ROUNDING = 4096"
    by (simp add: MAX_CONTEXT_SEARCH_def CONTEXT_ROUNDING_def)
  consider "\<not> ?fit 1" | "?fit 1" "?fit 4096" | "?fit 1" "\<not> ?fit 4096" by blast
  then show ?thesis
  proof cases
    case 1
    then have "largest_context chunk s plan usable seqs d wb = Inr (0 * CONTEXT_ROUNDING)"
      using F [of 1] by (simp add: largest_context_def)
    with 1 show ?thesis by (intro exI [of _ 0]) auto
  next
    case 2
    then have "largest_context chunk s plan usable seqs d wb = Inr (4096 * CONTEXT_ROUNDING)"
      using F [of 1] F [of 4096] by (simp add: largest_context_def hi)
    with 2 show ?thesis by (intro exI [of _ 4096]) auto
  next
    case 3
    obtain r where r: "bisect ?F 1 4096 = Inr r" "1 \<le> r" "r \<le> 4096" "?fit r"
        "r < 4096 \<longrightarrow> \<not> ?fit (r + 1)"
      using ctx.bisect_finds [OF ok _ 3(1), of 4096 ?F] F by auto
    have "step_down (\<lambda>c. fits_at chunk s plan c seqs d usable wb) CONTEXT_ROUNDING
            (r * CONTEXT_ROUNDING) = Inr (r * CONTEXT_ROUNDING)"
      using r F [of r] by (subst step_down.simps) (simp add: CONTEXT_ROUNDING_def)
    then have "largest_context chunk s plan usable seqs d wb = Inr (r * CONTEXT_ROUNDING)"
      using 3 r F [of 1] F [of 4096]
      by (simp add: largest_context_def hi) (simp add: CONTEXT_ROUNDING_def)
    with r show ?thesis by (intro exI [of _ r]) auto
  qed
qed

lemma largest_context_below:
  assumes "well_shape s" "largest_context chunk s plan usable seqs d wb = Inr x"
  shows "0 \<le> x" "0 < x \<Longrightarrow> c \<le> x \<Longrightarrow> fits_at chunk s plan c seqs d usable wb = Inr True"
proof -
  obtain r where r: "x = r * CONTEXT_ROUNDING" "0 \<le> r"
    "0 < r \<Longrightarrow> ctx.fits CONTEXT_ROUNDING (chunk, s, plan, seqs, d, wb) usable r"
    using largest_context_cases [OF assms(1), of chunk plan usable seqs d wb] assms(2) by auto
  show "0 \<le> x" using r(1,2) by (simp add: CONTEXT_ROUNDING_def)
  assume "0 < x" and le: "c \<le> x"
  then have "0 < r" using r(1,2) by (simp add: CONTEXT_ROUNDING_def)
  then have "fits_at chunk s plan x seqs d usable wb = Inr True"
    using fits_at_context [OF assms(1), of CONTEXT_ROUNDING] r(1,3)
    by (simp add: CONTEXT_ROUNDING_def)
  then show "fits_at chunk s plan c seqs d usable wb = Inr True"
    by (rule fits_at_down [OF assms(1) le order_refl])
qed

text \<open>The reported context is exact on its grain: the search always returns, the result is a
  multiple of 512 no larger than the search ceiling, every context up to a positive result fits,
  and no context a full step beyond the result (within the ceiling) fits.\<close>

theorem largest_context_exact:
  assumes "well_shape s"
  shows "\<exists>r. largest_context chunk s plan usable seqs d wb = Inr r
    \<and> 0 \<le> r \<and> r \<le> MAX_CONTEXT_SEARCH \<and> CONTEXT_ROUNDING dvd r
    \<and> (\<forall>c. 0 < r \<and> c \<le> r \<longrightarrow> fits_at chunk s plan c seqs d usable wb = Inr True)
    \<and> (\<forall>c. r < MAX_CONTEXT_SEARCH \<and> r + CONTEXT_ROUNDING \<le> c \<longrightarrow>
         fits_at chunk s plan c seqs d usable wb = Inr False)"
proof -
  obtain r where r: "largest_context chunk s plan usable seqs d wb = Inr (r * CONTEXT_ROUNDING)"
    "0 \<le> r" "r \<le> 4096"
    "0 < r \<Longrightarrow> ctx.fits CONTEXT_ROUNDING (chunk, s, plan, seqs, d, wb) usable r"
    "r < 4096 \<Longrightarrow> \<not> ctx.fits CONTEXT_ROUNDING (chunk, s, plan, seqs, d, wb) usable (r + 1)"
    using largest_context_cases [OF assms] by blast
  have F: "fits_at chunk s plan (u * CONTEXT_ROUNDING) seqs d usable wb
      = Inr (ctx.fits CONTEXT_ROUNDING (chunk, s, plan, seqs, d, wb) usable u)" for u
    by (rule fits_at_context) (simp_all add: assms CONTEXT_ROUNDING_def)
  have below: "fits_at chunk s plan c seqs d usable wb = Inr True"
    if "0 < r" "c \<le> r * CONTEXT_ROUNDING" for c
    using largest_context_below(2) [OF assms r(1)] that by (simp add: CONTEXT_ROUNDING_def)
  have above: "fits_at chunk s plan c seqs d usable wb = Inr False"
    if "r < 4096" "(r + 1) * CONTEXT_ROUNDING \<le> c" for c
  proof -
    have "fits_at chunk s plan c seqs d usable wb \<noteq> Inr True"
      using fits_at_down [OF assms that(2) order_refl] F [of "r + 1"] r(5) that(1) by force
    then show ?thesis using fits_at_returns [OF assms, of chunk plan c seqs d usable wb] by auto
  qed
  show ?thesis
    using r(1-3) below above
    by (intro exI [of _ "r * CONTEXT_ROUNDING"])
      (auto simp: CONTEXT_ROUNDING_def MAX_CONTEXT_SEARCH_def)
qed

theorem largest_context_exact_witness:
  "\<exists>r. largest_context 2048 example_shape example_plan 30000000000 4 ''auto'' None = Inr r
    \<and> 0 \<le> r \<and> r \<le> MAX_CONTEXT_SEARCH \<and> CONTEXT_ROUNDING dvd r
    \<and> (\<forall>c. 0 < r \<and> c \<le> r \<longrightarrow>
         fits_at 2048 example_shape example_plan c 4 ''auto'' 30000000000 None = Inr True)
    \<and> (\<forall>c. r < MAX_CONTEXT_SEARCH \<and> r + CONTEXT_ROUNDING \<le> c \<longrightarrow>
         fits_at 2048 example_shape example_plan c 4 ''auto'' 30000000000 None = Inr False)"
  by (rule largest_context_exact [OF example_well_shape])

text \<open>The concurrency suggested by a refusal is the largest that fits below the ceiling it was
  searched under: it is 0 only when not even one sequence fits (or none was allowed), every smaller
  concurrency fits too, and one more sequence does not.\<close>

theorem largest_max_seqs_exact:
  assumes "well_shape s"
  shows "\<exists>r. largest_max_seqs chunk s plan usable context d cap wb = Inr r
    \<and> 0 \<le> r \<and> r \<le> max 0 cap
    \<and> (\<forall>n. 0 < r \<and> n \<le> r \<longrightarrow> fits_at chunk s plan context n d usable wb = Inr True)
    \<and> (r < cap \<longrightarrow> fits_at chunk s plan context (r + 1) d usable wb = Inr False)"
proof -
  let ?fit = "seqs.fits (chunk, s, plan, context, d, wb) usable"
  let ?F = "\<lambda>n. fits_at chunk s plan context n d usable wb"
  note F = fits_at_seqs [OF assms, of chunk plan "context" _ d usable wb]
  have ok: "config_ok (chunk, s, plan, context, d, wb)" using assms by (simp add: config_ok_def)
  have down: "?F n = Inr True" if "?fit r" "n \<le> r" for n r
    using seqs.fits_down [OF ok that(2,1)] F by simp
  consider "cap < 1" | "1 \<le> cap" "\<not> ?fit 1" | "1 \<le> cap" "?fit 1" "?fit cap"
    | "1 \<le> cap" "?fit 1" "\<not> ?fit cap" by linarith
  then show ?thesis
  proof cases
    case 4
    obtain r where r: "bisect ?F 1 cap = Inr r" "1 \<le> r" "r \<le> cap" "?fit r"
        "r < cap \<longrightarrow> \<not> ?fit (r + 1)"
      using seqs.bisect_finds [OF ok 4(1) 4(2), of ?F] F by auto
    then have "largest_max_seqs chunk s plan usable context d cap wb = Inr r"
      using 4 F by (simp add: largest_max_seqs_def max_def)
    with r down [OF r(4)] F show ?thesis by auto
  next
    case 3
    then have "largest_max_seqs chunk s plan usable context d cap wb = Inr cap"
      using F by (simp add: largest_max_seqs_def max_def)
    with 3 down [OF 3(3)] show ?thesis by auto
  qed (auto simp: largest_max_seqs_def F)
qed

theorem largest_max_seqs_exact_witness:
  "\<exists>r. largest_max_seqs 2048 example_shape example_plan 30000000000 8192 ''auto'' 15 None = Inr r
    \<and> 0 \<le> r \<and> r \<le> max 0 15
    \<and> (\<forall>n. 0 < r \<and> n \<le> r \<longrightarrow>
         fits_at 2048 example_shape example_plan 8192 n ''auto'' 30000000000 None = Inr True)
    \<and> (r < 15 \<longrightarrow>
         fits_at 2048 example_shape example_plan 8192 (r + 1) ''auto'' 30000000000 None = Inr False)"
  by (rule largest_max_seqs_exact [OF example_well_shape])

text \<open>The synthetic plans of a node count.\<close>

lemma set_candidate_shards:
  "p \<in> set (candidate_shards n s) \<longleftrightarrow>
     (\<exists>tp. 1 \<le> tp \<and> tp \<le> n \<and> n mod tp = 0 \<and> num_attention_heads s mod tp = 0
        \<and> num_kv_heads s mod tp = 0 \<and> n div tp \<le> num_layers s \<and> p = synthetic_plan tp (n div tp))"
  by (auto simp: candidate_shards_def Let_def split: if_splits)

lemma any_plan_fits_iff:
  assumes "\<And>p. p \<in> set ps \<Longrightarrow> \<exists>t. need p = Inr t"
  shows "any_plan_fits need usable ps = Inr (\<exists>p \<in> set ps. \<exists>t. need p = Inr t \<and> t \<le> usable)"
  using assms
proof (induction ps)
  case (Cons p ps)
  then obtain t where "need p = Inr t" by auto
  with Cons show ?case by auto
qed simp

lemma first_count_spec:
  assumes "\<And>n. holds n = Inr (P n)" "sorted ns" "\<forall>n \<in> set ns. 0 < n"
  shows "\<exists>r. first_count holds ns = Inr r
    \<and> (r = - 1 \<and> (\<forall>n \<in> set ns. \<not> P n) \<or> r \<in> set ns \<and> P r \<and> (\<forall>n \<in> set ns. n < r \<longrightarrow> \<not> P n))"
  using assms(2,3)
proof (induction ns)
  case (Cons n ns)
  then show ?case using assms(1) [of n] by (cases "P n") fastforce+
qed simp

definition count_fits ::
  "model_shape \<Rightarrow> int \<Rightarrow> int \<Rightarrow> string \<Rightarrow> int \<Rightarrow> int option \<Rightarrow> int \<Rightarrow> bool" where
  "count_fits s context seqs d budget wb n \<longleftrightarrow> (\<exists>p \<in> set (candidate_shards n s).
     fits_at ACTIVATION_CHUNK_TOKENS s p context seqs d budget wb = Inr True)"

lemma min_nodes_search:
  assumes "well_shape s"
  defines "budget u node g \<equiv> (case u of None \<Rightarrow> usable_memory node g | Some b \<Rightarrow> b)"
  shows "\<exists>r. min_nodes_required s node context seqs d g wb u = Inr r
    \<and> (r = - 1 \<and> (\<forall>n. 1 \<le> n \<and> n \<le> MAX_SEARCH_NODES \<longrightarrow>
             \<not> count_fits s context seqs d (budget u node g) wb n)
       \<or> 1 \<le> r \<and> r \<le> MAX_SEARCH_NODES \<and> count_fits s context seqs d (budget u node g) wb r
         \<and> (\<forall>n. 1 \<le> n \<and> n < r \<longrightarrow> \<not> count_fits s context seqs d (budget u node g) wb n))"
proof -
  let ?b = "budget u node g"
  let ?fit_on = "count_fits s context seqs d ?b wb"
  let ?need = "\<lambda>p. total_at s p context seqs d ACTIVATION_CHUNK_TOKENS wb"
  have "any_plan_fits ?need ?b ps
      = Inr (\<exists>p \<in> set ps. \<exists>t. ?need p = Inr t \<and> t \<le> ?b)" for ps
    by (rule any_plan_fits_iff) (rule total_at_returns [OF assms(1)])
  moreover have "(\<exists>t. ?need p = Inr t \<and> t \<le> ?b)
      \<longleftrightarrow> fits_at ACTIVATION_CHUNK_TOKENS s p context seqs d ?b wb = Inr True" for p
    by (auto simp: fits_at_def mapR_eq_Inr)
  ultimately have "any_plan_fits ?need ?b (candidate_shards n s) = Inr (?fit_on n)" for n
    by (simp add: count_fits_def)
  then have eq: "min_nodes_required s node context seqs d g wb u
      = first_count (\<lambda>n. Inr (?fit_on n)) [1..MAX_SEARCH_NODES]"
    by (simp add: min_nodes_required_def budget_def [symmetric])
  obtain r where r: "first_count (\<lambda>n. Inr (?fit_on n)) [1..MAX_SEARCH_NODES] = Inr r"
    "r = - 1 \<and> (\<forall>n \<in> set [1..MAX_SEARCH_NODES]. \<not> ?fit_on n)
       \<or> r \<in> set [1..MAX_SEARCH_NODES] \<and> ?fit_on r
         \<and> (\<forall>n \<in> set [1..MAX_SEARCH_NODES]. n < r \<longrightarrow> \<not> ?fit_on n)"
    using first_count_spec [of "\<lambda>n. Inr (?fit_on n)" ?fit_on "[1..MAX_SEARCH_NODES]"] by fastforce
  then show ?thesis unfolding eq by (intro exI [of _ r]) auto
qed

text \<open>The node-count search answers exactly: it returns the smallest count up to 64 at which
  some head-divisible tensor-by-pipeline split of that many ranks fits the budget, or -1 when no
  split of any such count does; it never returns another number and never raises on a priced shape.\<close>

theorem min_nodes_required_minimal:
  assumes "well_shape s"
  shows "\<exists>r. min_nodes_required s node context seqs d guardrail wb (Some budget) = Inr r
    \<and> (r = - 1 \<and> (\<forall>n. 1 \<le> n \<and> n \<le> MAX_SEARCH_NODES \<longrightarrow>
             \<not> count_fits s context seqs d budget wb n)
       \<or> 1 \<le> r \<and> r \<le> MAX_SEARCH_NODES \<and> count_fits s context seqs d budget wb r
         \<and> (\<forall>n. 1 \<le> n \<and> n < r \<longrightarrow> \<not> count_fits s context seqs d budget wb n))"
  using min_nodes_search [OF assms, of node "context" seqs d guardrail wb "Some budget"] by simp

theorem min_nodes_required_minimal_witness:
  "\<exists>r. min_nodes_required example_shape example_node 8192 4 ''auto'' DEFAULT_GUARDRAIL None
         (Some 30000000000) = Inr r
    \<and> (r = - 1 \<and> (\<forall>n. 1 \<le> n \<and> n \<le> MAX_SEARCH_NODES \<longrightarrow>
             \<not> count_fits example_shape 8192 4 ''auto'' 30000000000 None n)
       \<or> 1 \<le> r \<and> r \<le> MAX_SEARCH_NODES \<and> count_fits example_shape 8192 4 ''auto'' 30000000000 None r
         \<and> (\<forall>n. 1 \<le> n \<and> n < r \<longrightarrow>
               \<not> count_fits example_shape 8192 4 ''auto'' 30000000000 None n))"
  by (rule min_nodes_required_minimal [OF example_well_shape])

end
