(* ===== verification/Fit_Check.thy ===== *)
theory Fit_Check
  imports Fit_Calculator
begin

text \<open>
  The gate itself, class \<open>FitCalculator\<close> of \<open>control_plane/fit/calculator.py\<close>: which nodes
  take part, which budget is in force, the verdict on every branch, and the diagnosis of a refusal
  with the changes it suggests.
\<close>

section \<open>Participating nodes and the budget in force\<close>

record fit_calculator =
  guardrail :: rat
  chunk_tokens :: int

definition by_id :: "node_profile list \<Rightarrow> (string, node_profile) dict" where
  "by_id nodes = fold (\<lambda>n d. dset (node_id n) n d) nodes []"

definition participating ::
  "parallelism_plan \<Rightarrow> node_profile list \<Rightarrow> (node_profile list \<times> msg list) result" where
  "participating plan nodes =
     (if nodes = [] then Inl (ValueError ''fit check needs at least one NodeProfile'')
      else if node_ids plan = [] then Inr (nodes, [])
      else
        let table = by_id nodes;
            chosen = List.map_filter (dget table) (node_ids plan);
            missing = filter (\<lambda>i. dget table i = None) (node_ids plan);
            warn = (if missing \<noteq> [] then [Msg ''plan names node(s) with no profile supplied'' (map S missing)]
                    else [])
        in if chosen = []
           then Inr (nodes, warn @ [Msg ''no profile matched any node in the plan'' []])
           else Inr (chosen, warn))"

definition node_budget :: "rat \<Rightarrow> (string, int) dict \<Rightarrow> node_profile \<Rightarrow> int" where
  "node_budget g allocatable n = dget_or allocatable (node_id n) (usable_memory n g)"

definition budget_in_force ::
  "rat \<Rightarrow> node_profile list \<Rightarrow> (string, int) dict option
    \<Rightarrow> (node_profile \<times> int \<times> budget_basis \<times> msg list) result" where
  "budget_in_force g used allocatable =
     (case allocatable of
        None \<Rightarrow> (case min_by (\<lambda>n. usable_memory n g) used of
                  None \<Rightarrow> Inl (ValueError ''min() arg is an empty sequence'')
                | Some node \<Rightarrow> Inr (node, usable_memory node g, Static, []))
      | Some live \<Rightarrow>
        if live = [] then
          (case min_by (\<lambda>n. usable_memory n g) used of
             None \<Rightarrow> Inl (ValueError ''min() arg is an empty sequence'')
           | Some node \<Rightarrow> Inr (node, usable_memory node g, Static, []))
        else
          let budgets = fold (\<lambda>n d. dset (node_id n) (node_budget g live n) d) used [];
              memo = concat (map (\<lambda>n. case dget live (node_id n) of
                  None \<Rightarrow> [Msg ''no live memory reading'' [S (node_id n), I (usable_memory n g)]]
                | Some _ \<Rightarrow> []) used)
          in case min_by (\<lambda>n. dget_or budgets (node_id n) 0) used of
               None \<Rightarrow> Inl (ValueError ''min() arg is an empty sequence'')
             | Some node \<Rightarrow>
               let usable = dget_or budgets (node_id node) 0; ceil = usable_memory node g in
               (case dget live (node_id node) of
                  None \<Rightarrow> Inr (node, usable, Static, memo)
                | Some _ \<Rightarrow> Inr (node, usable, Live,
                    memo @ (if usable < ceil
                      then [Msg ''can allocate right now, below its static ceiling''
                              [S (node_id node), I usable, I (ceil - usable), I ceil]]
                      else []))))"

section \<open>What a refusal suggests\<close>

definition reported_context :: "int \<Rightarrow> int option" where
  "reported_context max_ctx = (if max_ctx = 0 then None else Some max_ctx)"

definition nodes_phrase ::
  "rat \<Rightarrow> fit_request \<Rightarrow> node_profile \<Rightarrow> int option \<Rightarrow> msg result" where
  "nodes_phrase g req node usable =
     (if addressable_memory node \<le> 0
      then Inr (Msg ''a machine with GPU memory; no number of these holds it'' [])
      else mapR (\<lambda>n. if n < 0 then Msg ''a different machine'' [] else Msg ''nodes'' [I n])
        (min_nodes_required (req_shape req) node (context_length req) (max_concurrent_seqs req)
           (kv_dtype req) g (req_weight_bytes req) usable))"

fun pick_quant :: "rat \<Rightarrow> rat \<Rightarrow> string list \<Rightarrow> (string \<times> rat) option result" where
  "pick_quant current allowed [] = Inr None"
| "pick_quant current allowed (name # names) =
     (case dget BYTES_PER_PARAM name of
        None \<Rightarrow> Inl (KeyError name)
      | Some bpp \<Rightarrow> if bpp < current \<and> bpp \<le> allowed then Inr (Some (name, bpp))
                    else pick_quant current allowed names)"

definition suggest_quant ::
  "fit_request \<Rightarrow> memory_breakdown \<Rightarrow> int \<Rightarrow> (string \<times> rat) option result" where
  "suggest_quant req b usable =
     (let s = req_shape req; plan = req_plan req; room = usable - (mb_total b - mb_weights b) in
      if room \<le> 0 then Inr None
      else bindR (stage_fraction s (pipeline_parallel plan)) (\<lambda>f.
        let params = of_int (total_params s - vision_share s) * f / of_int (max 1 (tensor_parallel plan)) in
        if params \<le> 0 then Inr None
        else bindR (bytes_per_param s) (\<lambda>current.
          mapR (map_option (\<lambda>(name, bpp). (name, params * bpp)))
            (pick_quant current (of_int room / params) QUANT_SUGGESTION_ORDER))))"

definition quant_fix :: "(string \<times> rat) option \<Rightarrow> marg list" where
  "quant_fix sug = (case sug of None \<Rightarrow> []
     | Some (name, held) \<Rightarrow> [M (Msg ''requantize'' [S name, F held])])"

definition live_budget :: "budget_basis \<Rightarrow> int \<Rightarrow> int option" where
  "live_budget basis usable = (if basis = Live then Some usable else None)"

definition weights_reason ::
  "rat \<Rightarrow> fit_request \<Rightarrow> memory_breakdown \<Rightarrow> int \<Rightarrow> node_profile \<Rightarrow> int \<Rightarrow> budget_basis \<Rightarrow> msg result" where
  "weights_reason g req b usable node over basis =
     bindR (nodes_phrase g req node (live_budget basis usable)) (\<lambda>phrase.
     bindR (suggest_quant req b usable) (\<lambda>sug.
       let place = (if basis = Live
              then Msg ''on a node with a static ceiling'' [S (node_id node), F g, I (usable_memory node g)]
            else if addressable_memory node \<le> 0
              then Msg ''has no GPU memory at all'' [S (node_id node)]
            else Msg ''of addressable'' [F g, I (addressable_memory node),
                   S (if gpu_name node \<noteq> [] then gpu_name node else node_id node)])
       in Inr (Msg ''Won't fit: weights alone''
           ([I (mb_weights b + mb_replicated b), I (mb_replicated b), I usable, M place, I over,
             S (dtype (req_shape req)), I (world_size (req_plan req)), M phrase] @ quant_fix sug))))"

definition kv_reason ::
  "fit_calculator \<Rightarrow> fit_request \<Rightarrow> memory_breakdown \<Rightarrow> int \<Rightarrow> node_profile \<Rightarrow> int \<Rightarrow> int \<Rightarrow> budget_basis
    \<Rightarrow> msg result" where
  "kv_reason c req b usable node max_ctx over basis =
     (let s = req_shape req; plan = req_plan req in
      bindR (kv_divisor s plan) (\<lambda>divisor.
      bindR (kv_cache_bytes s (context_length req) 1 (kv_dtype req)) (\<lambda>one_seq.
      bindR (py_truediv one_seq divisor) (\<lambda>per_seq.
      bindR (largest_max_seqs (chunk_tokens c) s plan usable (context_length req) (kv_dtype req)
               (max_concurrent_seqs req - 1) (req_weight_bytes req)) (\<lambda>seqs.
      bindR (nodes_phrase (guardrail c) req node (live_budget basis usable)) (\<lambda>phrase.
        let elem = kv_elem_bytes (kv_dtype req) (Some s);
            kv_fp8 = of_int (mb_kv_cache b) * (1 / elem);
            fixes_ctx = (if max_ctx \<ge> CONTEXT_ROUNDING
              then [M (Msg ''drop context to tokens'' [I max_ctx])] else []);
            fixes_seqs = (if seqs \<ge> 1
              then [M (Msg ''reduce concurrency to sequences'' [I seqs])] else []);
            fixes_fp8 = (if elem > 1 then
                (if of_int (mb_total b - mb_kv_cache b) + kv_fp8 \<le> of_int usable
                 then [M (Msg ''quantize the KV cache to fp8, which fits'' [F kv_fp8])]
                 else [M (Msg ''quantize the KV cache to fp8, still short'' [F kv_fp8])])
              else [])
        in Inr (Msg ''KV cache is the problem''
            ([I over, I (mb_kv_cache b), I (context_length req), I (max_concurrent_seqs req),
              I (usable - (mb_total b - mb_kv_cache b))] @ fixes_ctx @ fixes_seqs @ fixes_fp8 @
              [M (Msg ''spread it over'' [M phrase])]))))))))"

definition combined_reason ::
  "fit_calculator \<Rightarrow> fit_request \<Rightarrow> memory_breakdown \<Rightarrow> int \<Rightarrow> node_profile \<Rightarrow> int \<Rightarrow> budget_basis
    \<Rightarrow> msg result" where
  "combined_reason c req b usable node over basis =
     (let named = [(''weights'', mb_weights b), (''KV'', mb_kv_cache b),
                   (''activations'', mb_activations b), (''comm buffers'', mb_comm_buffers b),
                   (''replicated'', mb_replicated b), (''framework'', mb_framework_overhead b)];
          big = (case max_by snd named of None \<Rightarrow> ([], 0) | Some p \<Rightarrow> p);
          share = (if mb_total b \<noteq> 0 then of_int (snd big) / of_int (mb_total b) else 0 :: rat);
          lead = (if share > 0.5
            then Msg ''is the biggest term'' [S (fst big), I (snd big), F share, I (mb_total b - snd big), I usable]
            else Msg ''no single term dominates'' [])
      in
      bindR (nodes_phrase (guardrail c) req node (live_budget basis usable)) (\<lambda>phrase.
      bindR (largest_max_seqs (chunk_tokens c) (req_shape req) (req_plan req) usable
               (context_length req) (kv_dtype req) (max_concurrent_seqs req - 1) (req_weight_bytes req)) (\<lambda>seqs.
      bindR (suggest_quant req b usable) (\<lambda>sug.
        Inr (Msg ''Won't fit: every term''
          ([I (mb_total b), I usable, I over] @ map (\<lambda>(n, v). M (Msg n [I v])) named @ [M lead, M phrase] @
           (if seqs \<ge> 1 then [M (Msg ''reduce concurrency to sequences'' [I seqs])] else []) @
           quant_fix sug))))))"

definition diagnose ::
  "fit_calculator \<Rightarrow> fit_request \<Rightarrow> memory_breakdown \<Rightarrow> int \<Rightarrow> node_profile \<Rightarrow> int \<Rightarrow> budget_basis
    \<Rightarrow> (limiting_term \<times> msg) result" where
  "diagnose c req b usable node max_ctx basis =
     (let over = mb_total b - usable; weights_held = mb_weights b + mb_replicated b in
      if weights_held > usable then
        mapR (Pair Lim_weights) (weights_reason (guardrail c) req b usable node over basis)
      else
        let without_kv = mb_total b - mb_kv_cache b in
        if without_kv \<le> usable \<and> mb_kv_cache b > 0 then
          mapR (Pair Lim_kv_cache) (kv_reason c req b usable node max_ctx over basis)
        else mapR (Pair Lim_combined) (combined_reason c req b usable node over basis))"

section \<open>The verdict\<close>

text \<open>The branches of \<open>check\<close>, once the figures it reports have been computed.\<close>

definition window_exceeded :: "fit_request \<Rightarrow> bool" where
  "window_exceeded req \<longleftrightarrow>
     (case native_window req of None \<Rightarrow> False | Some w \<Rightarrow> w > 0 \<and> context_length req > w)"

definition verdict_of ::
  "fit_calculator \<Rightarrow> fit_request \<Rightarrow> node_profile \<Rightarrow> int \<Rightarrow> budget_basis \<Rightarrow> int \<Rightarrow> rat
    \<Rightarrow> memory_breakdown \<Rightarrow> rat \<Rightarrow> rat \<Rightarrow> int \<Rightarrow> msg list \<Rightarrow> fit_result result" where
  "verdict_of c req node usable basis ranks bandwidth b kv_read tps max_ctx warnings =
     (let s = req_shape req; plan = req_plan req; room = usable - mb_total b;
          mk = (\<lambda>v why term ctx. \<lparr>fr_verdict = v, fr_breakdown = b, usable_per_node = usable,
             headroom = room, fr_reason = why, limiting_term = term, max_context_that_fits = ctx,
             predicted_decode_tps = Some tps, fr_warnings = dedup_from [] warnings,
             fr_budget_basis = basis\<rparr>)
      in
      if world_size plan > ranks then
        Inr (mk WONT_FIT (Msg ''Won't fit: more ranks than GPUs''
          [I (world_size plan), I (tensor_parallel plan), I (pipeline_parallel plan),
           I (data_parallel plan), I ranks, I (world_size plan - ranks)]) Lim_combined None)
      else if room < 0 then
        mapR (\<lambda>(term, why). mk WONT_FIT why term (reported_context max_ctx))
          (diagnose c req b usable node max_ctx basis)
      else if window_exceeded req then
        (let w = (case native_window req of None \<Rightarrow> 0 | Some w \<Rightarrow> w) in
         Inr (mk WONT_FIT (Msg ''Won't fit: past the trained window''
           [I (context_length req), S (model_id s), I w]) Lim_context
           (reported_context (min max_ctx w))))
      else if tps < DEGRADED_TPS_THRESHOLD then
        mapR (\<lambda>bpp. mk FITS_DEGRADED (Msg ''Loads, but decode is under the usability threshold''
           [I room, F tps, F (of_int (effective_active_params s) * bpp + kv_read), F bandwidth])
           Lim_bandwidth (Some max_ctx)) (bytes_per_param s)
      else
        Inr (mk FITS (Msg ''Fits''
          [I (mb_total b), I usable, I room, F tps, I max_ctx, I (max_concurrent_seqs req)])
          Lim_none (Some max_ctx)))"

definition gpu_ranks :: "node_profile list \<Rightarrow> int" where
  "gpu_ranks used = sum_list (map (\<lambda>n. max 1 (gpu_count n)) used)"

definition hardware_warnings :: "node_profile list \<Rightarrow> node_profile \<Rightarrow> msg list" where
  "hardware_warnings used node =
     (if length (remdups (map (\<lambda>n. (addressable_memory n, gpu_name n)) used)) > 1
      then [Msg ''nodes are not identical'' [S (node_id node), I (addressable_memory node)]] else []) @
     (if list_ex (\<lambda>n. gpu_count n > 1) used
      then [Msg ''a node reports more than one GPU'' []] else [])"

definition fit_check ::
  "fit_calculator \<Rightarrow> fit_request \<Rightarrow> node_profile list \<Rightarrow> (string, int) dict option \<Rightarrow> fit_result result" where
  "fit_check c req nodes allocatable =
     (let s = req_shape req; plan = req_plan req in
      bindR (participating plan nodes) (\<lambda>(used, w_nodes).
      bindR (budget_in_force (guardrail c) used allocatable) (\<lambda>(node, usable, basis, memo).
      case min_by memory_bandwidth_gbps used of
        None \<Rightarrow> Inl (ValueError ''min() arg is an empty sequence'')
      | Some slow \<Rightarrow>
        bindR (memory_breakdown s plan (context_length req) (max_concurrent_seqs req) (kv_dtype req)
                 (chunk_tokens c) (req_weight_bytes req)) (\<lambda>(b, w_budget).
        bindR (kv_cache_bytes s (context_length req) 1 (kv_dtype req)) (\<lambda>kv_read.
        bindR (predict_decode_tps s (memory_bandwidth_gbps slow) kv_read) (\<lambda>tps.
        bindR (largest_context (chunk_tokens c) s plan usable (max_concurrent_seqs req) (kv_dtype req)
                 (req_weight_bytes req)) (\<lambda>max_ctx.
          verdict_of c req node usable basis (gpu_ranks used) (memory_bandwidth_gbps slow) b kv_read tps
            max_ctx (w_nodes @ memo @ hardware_warnings used node @ w_budget))))))))"

definition max_context ::
  "fit_calculator \<Rightarrow> model_shape \<Rightarrow> parallelism_plan \<Rightarrow> node_profile list \<Rightarrow> int \<Rightarrow> string
    \<Rightarrow> int option \<Rightarrow> (string, int) dict option \<Rightarrow> int result" where
  "max_context c s plan nodes max_seqs d weight_bytes allocatable =
     bindR (participating plan nodes) (\<lambda>(used, _).
     bindR (budget_in_force (guardrail c) used allocatable) (\<lambda>(_, usable, _, _).
       largest_context (chunk_tokens c) s plan usable max_seqs d weight_bytes))"

section \<open>Reading a verdict\<close>

lemma verdict_of_fields:
  assumes "verdict_of c req node usable basis ranks bandwidth b kv_read tps max_ctx ws = Inr r"
  shows "fr_breakdown r = b" "usable_per_node r = usable" "headroom r = usable - mb_total b"
    "fr_budget_basis r = basis"
    "fit_ok r \<longleftrightarrow> world_size (req_plan req) \<le> ranks \<and> mb_total b \<le> usable \<and> \<not> window_exceeded req"
    "max_context_that_fits r =
       (if world_size (req_plan req) > ranks then None
        else if usable < mb_total b then reported_context max_ctx
        else if window_exceeded req
          then reported_context (min max_ctx (case native_window req of None \<Rightarrow> 0 | Some w \<Rightarrow> w))
        else Some max_ctx)"
  using assms
  by (auto simp: verdict_of_def Let_def mapR_eq_Inr fit_ok_def split: if_splits)

lemma verdict_of_diagnosis:
  assumes "verdict_of c req node usable basis ranks bandwidth b kv_read tps max_ctx ws = Inr r"
    and "world_size (req_plan req) \<le> ranks" "usable < mb_total b"
  shows "\<exists>why. diagnose c req b usable node max_ctx basis = Inr (limiting_term r, why) \<and> fr_reason r = why"
  using assms by (auto simp: verdict_of_def Let_def mapR_eq_Inr split: if_splits)

lemma verdict_of_returns:
  assumes "world_size (req_plan req) \<le> ranks" "mb_total b \<le> usable"
    "bytes_per_param (req_shape req) = Inr p"
  shows "\<exists>r. verdict_of c req node usable basis ranks bandwidth b kv_read tps max_ctx ws = Inr r"
  using assms by (auto simp: verdict_of_def Let_def)

lemma fit_checkE:
  assumes "fit_check c req nodes al = Inr r"
  obtains used w1 node usable basis memo slow b w2 kv tps ctx ws where
    "participating (req_plan req) nodes = Inr (used, w1)"
    "budget_in_force (guardrail c) used al = Inr (node, usable, basis, memo)"
    "min_by memory_bandwidth_gbps used = Some slow"
    "memory_breakdown (req_shape req) (req_plan req) (context_length req) (max_concurrent_seqs req)
       (kv_dtype req) (chunk_tokens c) (req_weight_bytes req) = Inr (b, w2)"
    "largest_context (chunk_tokens c) (req_shape req) (req_plan req) usable (max_concurrent_seqs req)
       (kv_dtype req) (req_weight_bytes req) = Inr ctx"
    "verdict_of c req node usable basis (gpu_ranks used) (memory_bandwidth_gbps slow) b kv tps ctx ws
       = Inr r"
proof -
  obtain used w1 node usable basis memo where
    1: "participating (req_plan req) nodes = Inr (used, w1)"
    "budget_in_force (guardrail c) used al = Inr (node, usable, basis, memo)"
    using assms by (auto simp: fit_check_def Let_def bindR_eq_Inr)
  moreover have "min_by memory_bandwidth_gbps used \<noteq> None"
    using assms 1 by (auto simp: fit_check_def Let_def)
  then obtain slow where 2: "min_by memory_bandwidth_gbps used = Some slow" by blast
  ultimately show thesis
    using assms by (auto simp: fit_check_def Let_def bindR_eq_Inr intro!: that)
qed

lemma predict_decode_returns: "well_shape s \<Longrightarrow> \<exists>t. predict_decode_tps s bw kv = Inr t"
  using well_shapeD(8) [of s] by (auto simp: predict_decode_tps_def Let_def)

lemma breakdown_total:
  "memory_breakdown s plan ctx n d chunk wb = Inr (b, ws) \<Longrightarrow>
     total_at s plan ctx n d chunk wb = Inr (mb_total b)"
  by (simp add: total_at_def)

lemma breakdown_fits_at:
  "memory_breakdown s plan ctx n d chunk wb = Inr (b, ws) \<Longrightarrow>
     fits_at chunk s plan ctx n d usable wb = Inr (mb_total b \<le> usable)"
  by (simp add: fits_at_def total_at_def)

text \<open>A check of the same request at another context, on the same nodes and the same reading.\<close>

lemma fit_check_at_context:
  assumes "well_shape (req_shape req)"
    "participating (req_plan req) nodes = Inr (used, w1)"
    "budget_in_force (guardrail c) used al = Inr (node, usable, basis, memo)"
    "min_by memory_bandwidth_gbps used = Some slow"
    "world_size (req_plan req) \<le> gpu_ranks used"
    "fits_at (chunk_tokens c) (req_shape req) (req_plan req) x (max_concurrent_seqs req) (kv_dtype req)
       usable (req_weight_bytes req) = Inr True"
    "\<not> window_exceeded (req\<lparr>context_length := x\<rparr>)"
  shows "\<exists>r. fit_check c (req\<lparr>context_length := x\<rparr>) nodes al = Inr r \<and> fit_ok r"
proof -
  let ?q = "req\<lparr>context_length := x\<rparr>" and ?s = "req_shape req"
  obtain b w2 where b: "memory_breakdown ?s (req_plan req) x (max_concurrent_seqs req)
      (kv_dtype req) (chunk_tokens c) (req_weight_bytes req) = Inr (b, w2)"
    using total_at_split [OF assms(1)] by metis
  obtain kv where kv: "kv_cache_bytes ?s x 1 (kv_dtype req) = Inr kv"
    using kv_cache_returns [OF assms(1)] by blast
  obtain tps where tps: "predict_decode_tps ?s (memory_bandwidth_gbps slow) kv = Inr tps"
    using predict_decode_returns [OF assms(1)] by blast
  obtain ctx where ctx: "largest_context (chunk_tokens c) ?s (req_plan req) usable
      (max_concurrent_seqs req) (kv_dtype req) (req_weight_bytes req) = Inr ctx"
    using largest_context_cases [OF assms(1)] by blast
  obtain p where p: "bytes_per_param ?s = Inr p"
    using well_shapeD(8) [OF assms(1)] by blast
  have fit: "mb_total b \<le> usable"
    using assms(6) breakdown_fits_at [OF b] by simp
  obtain r where r: "verdict_of c ?q node usable basis (gpu_ranks used) (memory_bandwidth_gbps slow) b
      kv tps ctx (w1 @ memo @ hardware_warnings used node @ w2) = Inr r"
    using verdict_of_returns [of ?q "gpu_ranks used" b usable p] assms(5) fit p by fastforce
  then have "fit_ok r"
    using verdict_of_fields(5) [OF r] assms(5,7) fit by simp
  moreover have "fit_check c ?q nodes al = Inr r"
    using assms(2,3,4) b kv tps ctx r by (simp add: fit_check_def)
  ultimately show ?thesis by blast
qed

lemma window_at: "\<not> window_exceeded (req\<lparr>context_length := x\<rparr>)"
  if "native_window req = None \<or> (\<exists>w. native_window req = Some w \<and> (w \<le> 0 \<or> x \<le> w))"
  using that by (auto simp: window_exceeded_def)

section \<open>What the gate promises\<close>

text \<open>C1: the gate refuses exactly what it must: whenever a check returns, its verdict is one of the
  two fitting verdicts if and only if the plan's ranks can be placed on the GPUs supplied, the
  per-rank total is within the budget in force, and the context is within the trained window when
  one is known; the reported headroom is budget minus total in every case.\<close>

theorem fit_verdict_exact:
  assumes "fit_check c req nodes al = Inr r"
  shows "\<exists>used w. participating (req_plan req) nodes = Inr (used, w)
    \<and> (fit_ok r \<longleftrightarrow> world_size (req_plan req) \<le> gpu_ranks used
         \<and> mb_total (fr_breakdown r) \<le> usable_per_node r
         \<and> (\<forall>win. native_window req = Some win \<and> 0 < win \<longrightarrow> context_length req \<le> win))
    \<and> headroom r = usable_per_node r - mb_total (fr_breakdown r)"
proof -
  from assms obtain used w1 node usable basis memo slow b w2 kv tps ctx ws where
    p: "participating (req_plan req) nodes = Inr (used, w1)"
    "budget_in_force (guardrail c) used al = Inr (node, usable, basis, memo)"
    "min_by memory_bandwidth_gbps used = Some slow"
    "memory_breakdown (req_shape req) (req_plan req) (context_length req) (max_concurrent_seqs req)
       (kv_dtype req) (chunk_tokens c) (req_weight_bytes req) = Inr (b, w2)"
    "largest_context (chunk_tokens c) (req_shape req) (req_plan req) usable (max_concurrent_seqs req)
       (kv_dtype req) (req_weight_bytes req) = Inr ctx"
    and v: "verdict_of c req node usable basis (gpu_ranks used) (memory_bandwidth_gbps slow) b kv tps ctx ws
       = Inr r"
    by (rule fit_checkE)
  show ?thesis
    using p(1) verdict_of_fields [OF v]
    by (auto simp: window_exceeded_def not_less split: option.splits)
qed

definition example_request :: fit_request where
  "example_request = \<lparr>req_shape = example_shape, context_length = 8192, max_concurrent_seqs = 4,
     kv_dtype = ''auto'', req_plan = synthetic_plan 1 1, req_weight_bytes = None,
     native_window = Some 131072\<rparr>"

definition example_calculator :: fit_calculator where
  "example_calculator = \<lparr>guardrail = DEFAULT_GUARDRAIL, chunk_tokens = ACTIVATION_CHUNK_TOKENS\<rparr>"

theorem fit_verdict_exact_witness:
  "\<exists>r. fit_check example_calculator example_request [example_node] None = Inr r \<and> fit_ok r
    \<and> headroom r = usable_per_node r - mb_total (fr_breakdown r)"
proof -
  have ok: "(case fit_check example_calculator example_request [example_node] None of
      Inr r \<Rightarrow> fit_ok r | Inl e \<Rightarrow> False)"
    by code_simp
  then obtain r where r: "fit_check example_calculator example_request [example_node] None = Inr r" "fit_ok r"
    by (auto split: sum.splits)
  then show ?thesis using fit_verdict_exact [OF r(1)] by blast
qed

text \<open>C2: a suggested context works. On a priced shape, when a check reports a context that fits,
  asking again at that context (same nodes, same readings) is accepted, provided that context does
  not pass the model's trained window; for a refusal this is the change its sentence recommends.\<close>

theorem suggested_context_accepted:
  assumes "well_shape (req_shape req)" and "0 \<le> context_length req"
    and "fit_check c req nodes al = Inr r" and "max_context_that_fits r = Some x"
    and "\<forall>w. native_window req = Some w \<and> 0 < w \<longrightarrow> x \<le> w"
  shows "\<exists>r'. fit_check c (req\<lparr>context_length := x\<rparr>) nodes al = Inr r' \<and> fit_ok r'"
proof -
  let ?s = "req_shape req" and ?F = "\<lambda>c' u. fits_at (chunk_tokens c) (req_shape req) (req_plan req) c'
    (max_concurrent_seqs req) (kv_dtype req) u (req_weight_bytes req)"
  from assms(3) obtain used w1 node usable basis memo slow b w2 kv tps ctx ws where
    1: "participating (req_plan req) nodes = Inr (used, w1)"
    "budget_in_force (guardrail c) used al = Inr (node, usable, basis, memo)"
    "min_by memory_bandwidth_gbps used = Some slow"
    "memory_breakdown (req_shape req) (req_plan req) (context_length req) (max_concurrent_seqs req)
       (kv_dtype req) (chunk_tokens c) (req_weight_bytes req) = Inr (b, w2)"
    "largest_context (chunk_tokens c) (req_shape req) (req_plan req) usable (max_concurrent_seqs req)
       (kv_dtype req) (req_weight_bytes req) = Inr ctx"
    "verdict_of c req node usable basis (gpu_ranks used) (memory_bandwidth_gbps slow) b kv tps ctx ws
       = Inr r"
    by (rule fit_checkE)
  note fields = verdict_of_fields [OF 1(6)]
  have ranks: "world_size (req_plan req) \<le> gpu_ranks used"
    using assms(4) fields(6) by (auto split: if_splits)
  have below: "?F c' usable = Inr True" if "0 < ctx" "c' \<le> ctx" for c'
    using largest_context_below(2) [OF assms(1) 1(5) that] .
  have nonneg: "0 \<le> ctx"
    using largest_context_below(1) [OF assms(1) 1(5)] .
  have "?F x usable = Inr True"
  proof (cases "mb_total b \<le> usable \<and> \<not> window_exceeded req")
    case True
    then have x: "x = ctx" using assms(4) fields(6) ranks by simp
    show ?thesis
    proof (cases "ctx = 0")
      case True
      have "?F (context_length req) usable = Inr True"
        using breakdown_fits_at [OF 1(4)] \<open>mb_total b \<le> usable \<and> _\<close> by simp
      then show ?thesis
        using fits_at_down [OF assms(1) _ order_refl] assms(2) x True by blast
    qed (use below x nonneg in auto)
  next
    case False
    then have "0 < ctx \<and> x \<le> ctx"
      using assms(4) fields(6) ranks nonneg
      by (auto simp: reported_context_def window_exceeded_def split: if_splits option.splits)
    then show ?thesis using below by blast
  qed
  moreover have "\<not> window_exceeded (req\<lparr>context_length := x\<rparr>)"
    using assms(5) by (auto simp: window_exceeded_def split: option.splits)
  ultimately show ?thesis
    using fit_check_at_context [OF assms(1) 1(1-3) ranks] by blast
qed

definition wide_request :: fit_request where
  "wide_request = example_request\<lparr>context_length := 4000000, native_window := None\<rparr>"

theorem suggested_context_accepted_witness:
  "\<exists>r. fit_check example_calculator wide_request [example_node] None = Inr r
    \<and> \<not> fit_ok r \<and> max_context_that_fits r = Some 354816
    \<and> (\<exists>r'. fit_check example_calculator (wide_request\<lparr>context_length := 354816\<rparr>) [example_node] None
          = Inr r' \<and> fit_ok r')"
proof -
  have "(case fit_check example_calculator wide_request [example_node] None of
      Inr r \<Rightarrow> \<not> fit_ok r \<and> max_context_that_fits r = Some 354816 | Inl e \<Rightarrow> False)"
    by code_simp
  then obtain r where r: "fit_check example_calculator wide_request [example_node] None = Inr r"
      "\<not> fit_ok r" "max_context_that_fits r = Some 354816"
    by (auto split: sum.splits)
  then show ?thesis
    using suggested_context_accepted [OF _ _ r(1,3)] example_well_shape
    by (auto simp: wide_request_def example_request_def)
qed

text \<open>
  An accepted check reports what memory would hold, not what the model can serve: here the
  reported context passes the trained window that the same request carries.
\<close>

lemma reported_context_past_window:
  "(case fit_check example_calculator example_request [example_node] None of
      Inr r \<Rightarrow> fit_ok r \<and> max_context_that_fits r = Some 354816 | Inl e \<Rightarrow> False)
    \<and> native_window example_request = Some 131072"
  by code_simp

end
