(* ===== verification/Fit_Advice.thy ===== *)
theory Fit_Advice
  imports Fit_Check
begin

text \<open>
  What the gate's advice is worth (\<open>FitCalculator._budget\<close>, \<open>_diagnose\<close> and
  \<open>_suggest_quant\<close>): a refusal that blames the weights cannot be argued with, a live budget is
  the smallest one and never invents a reading, and the suggested quantization fits when it is
  asked for.
\<close>

section \<open>A refusal that blames the weights\<close>

lemma diagnose_weights:
  assumes "diagnose c req b usable node mc basis = Inr (Lim_weights, why)"
  shows "usable < mb_weights b + mb_replicated b"
  using assms by (auto simp: diagnose_def Let_def mapR_eq_Inr split: if_splits)

lemma verdict_of_weights:
  assumes "verdict_of c req node usable basis ranks bandwidth b kv_read tps mc ws = Inr r"
    "limiting_term r = Lim_weights"
  shows "usable < mb_weights b + mb_replicated b"
  using assms diagnose_weights
  by (fastforce simp: verdict_of_def Let_def mapR_eq_Inr split: if_splits)

lemma weights_floor:
  assumes "well_shape s" "memory_breakdown s plan x n d chunk wb = Inr (b, w)"
    "total_at s plan y m d chunk wb = Inr t"
  shows "mb_weights b + mb_replicated b + FRAMEWORK_OVERHEAD \<le> t"
proof -
  obtain kv q w r where 1: "weight_bytes_per_rank s plan wb = Inr w" "replicated_bytes_per_rank s = Inr r"
    "memory_breakdown s plan x n d chunk wb = Inr
       (\<lparr>mb_weights = py_int w, mb_kv_cache = py_int (kv / q),
         mb_activations = py_int (activation_bytes s n x chunk),
         mb_comm_buffers = py_int (comm_buffer_bytes plan), mb_replicated = py_int r,
         mb_framework_overhead = FRAMEWORK_OVERHEAD\<rparr>, breakdown_warnings s plan d)"
    using total_at_split [OF assms(1)] by metis
  obtain kv' q' w' r' where 2: "0 \<le> kv'" "0 < q'" "weight_bytes_per_rank s plan wb = Inr w'"
    "replicated_bytes_per_rank s = Inr r'"
    "total_at s plan y m d chunk wb = Inr (py_int w' + py_int (kv' / q')
       + py_int (activation_bytes s m y chunk) + py_int (comm_buffer_bytes plan)
       + py_int r' + FRAMEWORK_OVERHEAD)"
    using total_at_split [OF assms(1)] by metis
  have "0 \<le> py_int (kv' / q')" using 2(1,2) by (intro py_int_nonneg) simp
  moreover have "0 \<le> py_int (activation_bytes s m y chunk)"
    using well_shapeD(2,5) [OF assms(1)] unfolding activation_bytes_def Let_def
    by (intro py_int_nonneg of_int_nonneg add_nonneg_nonneg mult_nonneg_nonneg) auto
  moreover have "0 \<le> py_int (comm_buffer_bytes plan)"
    by (intro py_int_nonneg) (simp add: comm_buffer_bytes_def Let_def)
  moreover have "b = \<lparr>mb_weights = py_int w, mb_kv_cache = py_int (kv / q),
         mb_activations = py_int (activation_bytes s n x chunk),
         mb_comm_buffers = py_int (comm_buffer_bytes plan), mb_replicated = py_int r,
         mb_framework_overhead = FRAMEWORK_OVERHEAD\<rparr>"
    using 1(3) assms(2) by simp
  ultimately show ?thesis using 1(1,2) 2(3-5) assms(3) by simp
qed

text \<open>When the gate blames the weights, no smaller context and no lower concurrency would have
  helped: under the budget that judged the request every context and every number of sequences is
  refused, and accordingly no context is suggested.\<close>

theorem weights_refusal_final:
  assumes "well_shape (req_shape req)" and "fit_check c req nodes al = Inr r"
    and "limiting_term r = Lim_weights"
  shows "\<not> fit_ok r \<and> max_context_that_fits r = None
    \<and> fits_at (chunk_tokens c) (req_shape req) (req_plan req) x n (kv_dtype req)
        (usable_per_node r) (req_weight_bytes req) = Inr False"
proof -
  from assms(2) obtain used w1 node usable basis memo slow b w2 kv tps ctx ws where
    "participating (req_plan req) nodes = Inr (used, w1)"
    "budget_in_force (guardrail c) used al = Inr (node, usable, basis, memo)"
    "min_by memory_bandwidth_gbps used = Some slow"
    and b: "memory_breakdown (req_shape req) (req_plan req) (context_length req) (max_concurrent_seqs req)
       (kv_dtype req) (chunk_tokens c) (req_weight_bytes req) = Inr (b, w2)"
    and ctx: "largest_context (chunk_tokens c) (req_shape req) (req_plan req) usable
       (max_concurrent_seqs req) (kv_dtype req) (req_weight_bytes req) = Inr ctx"
    and v: "verdict_of c req node usable basis (gpu_ranks used) (memory_bandwidth_gbps slow) b kv tps ctx ws
       = Inr r"
    by (rule fit_checkE)
  note fields = verdict_of_fields [OF v]
  have over: "usable < mb_weights b + mb_replicated b"
    by (rule verdict_of_weights [OF v assms(3)])
  have no: "fits_at (chunk_tokens c) (req_shape req) (req_plan req) y m (kv_dtype req)
        usable (req_weight_bytes req) = Inr False" for y m
  proof -
    obtain t where t: "total_at (req_shape req) (req_plan req) y m (kv_dtype req) (chunk_tokens c)
        (req_weight_bytes req) = Inr t"
      using total_at_returns [OF assms(1)] by blast
    then show ?thesis using weights_floor [OF assms(1) b t] over by (simp add: fits_at_def)
  qed
  have "ctx = 0"
    using largest_context_below [OF assms(1) ctx] no by force
  moreover have "usable < mb_total b"
    using breakdown_fits_at [OF b, of usable] no [of "context_length req" "max_concurrent_seqs req"]
    by simp
  ultimately show ?thesis
    using fields no by (auto simp: reported_context_def)
qed

definition big_request :: fit_request where
  "big_request = example_request\<lparr>req_shape := example_shape\<lparr>dtype := ''bf16''\<rparr>, kv_dtype := ''fp8''\<rparr>"

lemma big_shape: "well_shape (req_shape big_request)"
  by code_simp

theorem weights_refusal_final_witness:
  "\<exists>r. fit_check example_calculator big_request [example_node] None = Inr r
    \<and> limiting_term r = Lim_weights \<and> \<not> fit_ok r
    \<and> fits_at (chunk_tokens example_calculator) (req_shape big_request) (req_plan big_request) 1 1
        (kv_dtype big_request) (usable_per_node r) (req_weight_bytes big_request) = Inr False"
proof -
  have "(case fit_check example_calculator big_request [example_node] None of
      Inr r \<Rightarrow> limiting_term r = Lim_weights | Inl e \<Rightarrow> False)"
    by code_simp
  then obtain r where r: "fit_check example_calculator big_request [example_node] None = Inr r"
      "limiting_term r = Lim_weights"
    by (auto split: sum.splits)
  then show ?thesis using weights_refusal_final [OF big_shape r] by blast
qed

section \<open>The budget in force\<close>

lemma budgets_lookup:
  "dget (fold (\<lambda>n d. dset (node_id n) (f n) d) ns d) k =
     (case dget (rev (map (\<lambda>n. (node_id n, f n)) ns)) k of Some v \<Rightarrow> Some v | None \<Rightarrow> dget d k)"
  by (induction ns arbitrary: d) (auto simp: map_add_def split: option.splits)

lemma map_of_rev_distinct: "distinct (map fst xs) \<Longrightarrow> map_of (rev xs) = map_of xs"
  by (rule map_of_eqI) (auto simp: rev_map [symmetric])

lemma budgets_node:
  assumes "distinct (map node_id ns)" "n \<in> set ns"
  shows "dget_or (fold (\<lambda>n d. dset (node_id n) (f n) d) ns []) (node_id n) z = f n"
proof -
  have "distinct (map fst (map (\<lambda>n. (node_id n, f n)) ns))"
    using assms(1) by (simp add: comp_def)
  moreover have "n' = n" if "n' \<in> set ns" "node_id n' = node_id n" for n'
    using assms that by (meson distinct_map inj_onD)
  ultimately have "dget (fold (\<lambda>n d. dset (node_id n) (f n) d) ns []) (node_id n) = Some (f n)"
    using assms(2) by (auto simp: budgets_lookup map_of_rev_distinct split: option.splits)
  then show ?thesis by simp
qed

text \<open>Under live readings the gate judges against the participating node with the least to give:
  its budget is that node's reading, or its static ceiling when the node was not polled (an
  unpolled node is never read as having no memory), no participating node has less, and the
  verdict is labelled live exactly when the binding node was read.\<close>

theorem live_budget_binds_smallest:
  assumes "distinct (map node_id used)" and "live \<noteq> []"
    and "budget_in_force g used (Some live) = Inr (node, usable, basis, memo)"
  shows "node \<in> set used \<and> usable = node_budget g live node
    \<and> (\<forall>n \<in> set used. usable \<le> node_budget g live n)
    \<and> (basis = Live \<longleftrightarrow> dget live (node_id node) = Some usable)
    \<and> (dget live (node_id node) = None \<longrightarrow> usable = usable_memory node g)"
proof -
  let ?f = "\<lambda>n. dget_or (fold (\<lambda>n d. dset (node_id n) (node_budget g live n) d) used []) (node_id n) 0"
  have f: "?f n = node_budget g live n" if "n \<in> set used" for n
    by (rule budgets_node [OF assms(1) that])
  obtain m where m: "min_by ?f used = Some m"
    using assms(2,3) by (cases "min_by ?f used") (auto simp: budget_in_force_def Let_def)
  have node: "node = m \<and> usable = ?f m \<and>
      (basis = Live \<longleftrightarrow> dget live (node_id m) \<noteq> None)"
    using assms(2,3) m by (auto simp: budget_in_force_def Let_def split: option.splits if_splits)
  have "\<forall>n \<in> set used. ?f m \<le> ?f n" using min_by_le [OF m] by blast
  with node f min_by_in [OF m] show ?thesis
    by (auto simp: node_budget_def dget_or_def split: option.splits)
qed

theorem live_budget_binds_smallest_witness:
  "\<exists>node usable basis memo.
     budget_in_force DEFAULT_GUARDRAIL [example_node, example_node\<lparr>node_id := ''n2''\<rparr>]
       (Some [(''n2'', 64000000000)]) = Inr (node, usable, basis, memo)
     \<and> node_id node = ''n2'' \<and> usable \<le> usable_memory example_node DEFAULT_GUARDRAIL"
proof -
  let ?used = "[example_node, example_node\<lparr>node_id := ''n2''\<rparr>]"
  let ?r = "budget_in_force DEFAULT_GUARDRAIL ?used (Some [(''n2'', 64000000000)])"
  have "(case ?r of Inr (node, usable, basis, memo) \<Rightarrow> node_id node = ''n2'' | Inl e \<Rightarrow> False)"
    by code_simp
  then obtain node usable basis memo where r: "?r = Inr (node, usable, basis, memo)" "node_id node = ''n2''"
    by (auto split: sum.splits prod.splits)
  have "distinct (map node_id ?used)" by (simp add: example_node_def)
  from live_budget_binds_smallest [OF this _ r(1)] r
  show ?thesis by (auto simp: node_budget_def example_node_def)
qed

section \<open>The suggested quantization\<close>

lemma pick_quant_SomeD:
  assumes "pick_quant current allowed names = Inr (Some (name, bpp))"
  shows "dget BYTES_PER_PARAM name = Some bpp \<and> bpp < current \<and> bpp \<le> allowed
    \<and> (\<forall>m \<in> set (takeWhile (\<lambda>m. m \<noteq> name) names). \<forall>q. dget BYTES_PER_PARAM m = Some q \<longrightarrow>
         q < current \<longrightarrow> allowed < q)"
  using assms
  by (induction current allowed names rule: pick_quant.induct)
    (auto split: option.splits if_splits)

lemma suggest_quantE:
  assumes "suggest_quant req b usable = Inr (Some (name, held))"
  obtains f params current bpp where
    "stage_fraction (req_shape req) (pipeline_parallel (req_plan req)) = Inr f"
    "params = of_int (total_params (req_shape req) - vision_share (req_shape req)) * f
       / of_int (max 1 (tensor_parallel (req_plan req)))"
    "0 < params" "bytes_per_param (req_shape req) = Inr current"
    "held = params * bpp"
    "pick_quant current (of_int (usable - (mb_total b - mb_weights b)) / params) QUANT_SUGGESTION_ORDER
       = Inr (Some (name, bpp))"
proof -
  let ?s = "req_shape req" and ?room = "usable - (mb_total b - mb_weights b)"
  have room: "\<not> ?room \<le> 0" using assms by (auto simp: suggest_quant_def)
  then obtain f where f: "stage_fraction ?s (pipeline_parallel (req_plan req)) = Inr f"
    using assms by (auto simp: suggest_quant_def bindR_eq_Inr Let_def)
  define p where "p = of_int (total_params ?s - vision_share ?s) * f
      / of_int (max 1 (tensor_parallel (req_plan req)))"
  have step: "suggest_quant req b usable = (if p \<le> 0 then Inr None
      else bindR (bytes_per_param ?s) (\<lambda>current. mapR (map_option (\<lambda>(name, bpp). (name, p * bpp)))
        (pick_quant current (of_int ?room / p) QUANT_SUGGESTION_ORDER)))"
    by (simp only: suggest_quant_def Let_def f bindR.simps room if_False p_def)
  then have pos: "0 < p" using assms by (auto split: if_splits)
  then obtain current bpp where "bytes_per_param ?s = Inr current" "held = p * bpp"
    "pick_quant current (of_int ?room / p) QUANT_SUGGESTION_ORDER = Inr (Some (name, bpp))"
    using assms step by (auto simp: bindR_eq_Inr mapR_eq_Inr eq_commute [of "Some (name, held)"])
  then show thesis using f pos p_def by (intro that [of f p current bpp]) simp_all
qed

lemma requantized_shape [simp]:
  "vision_share (s\<lparr>dtype := q\<rparr>) = vision_share s"
  "stage_fraction (s\<lparr>dtype := q\<rparr>) pp = stage_fraction s pp"
  "kv_divisor (s\<lparr>dtype := q\<rparr>) plan = kv_divisor s plan"
  "activation_bytes (s\<lparr>dtype := q\<rparr>) n x chunk = activation_bytes s n x chunk"
  "cached_layer_tokens (s\<lparr>dtype := q\<rparr>) x = cached_layer_tokens s x"
  by (simp_all add: vision_share_def stage_fraction_def kv_divisor_def activation_bytes_def
      cached_layer_tokens_def Let_def split: option.split)

lemma requantized_kv:
  assumes "kv_key d \<notin> set kv_auto_keys"
  shows "kv_cache_bytes (s\<lparr>dtype := q\<rparr>) x n d = kv_cache_bytes s x n d"
proof -
  have "effective_head_dim (s\<lparr>dtype := q\<rparr>) = effective_head_dim s"
    "effective_mla_rope_dim (s\<lparr>dtype := q\<rparr>) = effective_mla_rope_dim s"
    "kv_elem_bytes d (Some (s\<lparr>dtype := q\<rparr>)) = kv_elem_bytes d (Some s)"
    using assms by (simp_all add: effective_head_dim_def effective_mla_rope_dim_def kv_elem_bytes_def
        split: option.split)
  then show ?thesis by (simp add: kv_cache_bytes_def per_layer_per_token_bytes_def Let_def split: option.split)
qed

text \<open>Requantizing as suggested works: for a request whose cache dtype is named, the suggested
  dtype is one at which the same shape, plan, context and concurrency fit the budget (the
  replicated share shrinks with the price and no other term moves).\<close>

theorem suggested_quant_fits:
  assumes "well_shape (req_shape req)" and "kv_key (kv_dtype req) \<notin> set kv_auto_keys"
    and "memory_breakdown (req_shape req) (req_plan req) (context_length req)
      (max_concurrent_seqs req) (kv_dtype req) chunk (req_weight_bytes req) = Inr (b, w)"
    and "suggest_quant req b usable = Inr (Some (name, held))"
  shows "fits_at chunk ((req_shape req)\<lparr>dtype := name\<rparr>) (req_plan req) (context_length req)
      (max_concurrent_seqs req) (kv_dtype req) usable None = Inr True"
proof -
  let ?s = "req_shape req" and ?q = "(req_shape req)\<lparr>dtype := name\<rparr>"
  obtain f params current bpp where sug:
    "stage_fraction ?s (pipeline_parallel (req_plan req)) = Inr f"
    "params = of_int (total_params ?s - vision_share ?s) * f
       / of_int (max 1 (tensor_parallel (req_plan req)))"
    "0 < params" "bytes_per_param ?s = Inr current" "held = params * bpp"
    "pick_quant current (of_int (usable - (mb_total b - mb_weights b)) / params) QUANT_SUGGESTION_ORDER
       = Inr (Some (name, bpp))"
    using assms(4) by (elim suggest_quantE)
  note pick = pick_quant_SomeD [OF sug(6)]
  have new: "bytes_per_param ?q = Inr bpp" using pick by (simp add: bytes_per_param_def)
  have held: "held \<le> of_int (usable - (mb_total b - mb_weights b))"
    using pick sug(3,5) by (simp add: pos_le_divide_eq mult.commute)
  have weights: "weight_bytes_per_rank ?q (req_plan req) None = Inr held"
    using sug new by (simp add: weight_bytes_per_rank_def Let_def mult.commute mult.left_commute)
  have vis: "0 \<le> vision_share ?s" using well_shapeD(6) [OF assms(1)] by (simp add: vision_share_def)
  have repl: "replicated_bytes_per_rank ?q = Inr (of_int (vision_share ?s) * bpp)"
    using new by (simp add: replicated_bytes_per_rank_def)
  have repl_old: "replicated_bytes_per_rank ?s = Inr (of_int (vision_share ?s) * current)"
    using sug by (simp add: replicated_bytes_per_rank_def)
  have less: "py_int (of_int (vision_share ?s) * bpp) \<le> py_int (of_int (vision_share ?s) * current)"
    using pick vis by (intro py_int_mono mult_left_mono) auto
  obtain kv d w' r where old: "kv_cache_bytes ?s (context_length req) (max_concurrent_seqs req) (kv_dtype req) = Inr kv"
    "kv_divisor ?s (req_plan req) = Inr d" "0 < d"
    "replicated_bytes_per_rank ?s = Inr r"
    "memory_breakdown ?s (req_plan req) (context_length req) (max_concurrent_seqs req) (kv_dtype req) chunk
      (req_weight_bytes req) = Inr
       (\<lparr>mb_weights = py_int w', mb_kv_cache = py_int (kv / d),
         mb_activations = py_int (activation_bytes ?s (max_concurrent_seqs req) (context_length req) chunk),
         mb_comm_buffers = py_int (comm_buffer_bytes (req_plan req)), mb_replicated = py_int r,
         mb_framework_overhead = FRAMEWORK_OVERHEAD\<rparr>, breakdown_warnings ?s (req_plan req) (kv_dtype req))"
    using total_at_split [OF assms(1)] by metis
  have "0 \<le> held"
  proof -
    have "0 < bpp" using new bytes_per_param_pos by blast
    then show ?thesis using sug(3,5) by simp
  qed
  then have "py_int held \<le> usable - (mb_total b - mb_weights b)"
    using py_int_le_self held by (meson of_int_le_iff order_trans)
  moreover have "total_at ?q (req_plan req) (context_length req) (max_concurrent_seqs req) (kv_dtype req)
      chunk None = Inr (py_int held + py_int (kv / d)
        + py_int (activation_bytes ?s (max_concurrent_seqs req) (context_length req) chunk)
        + py_int (comm_buffer_bytes (req_plan req))
        + py_int (of_int (vision_share ?s) * bpp) + FRAMEWORK_OVERHEAD)"
    using old(1-3) weights repl assms(2)
    by (simp add: total_at_def memory_breakdown_def requantized_kv py_truediv_def mb_total_def)
  ultimately show ?thesis
    using less old(4,5) assms(3) repl_old by (auto simp: fits_at_def mb_total_def)
qed

theorem suggested_quant_fits_witness:
  "\<exists>b w held. memory_breakdown (req_shape big_request) (req_plan big_request) 8192 4 ''fp8'' 2048 None = Inr (b, w)
    \<and> suggest_quant big_request b 115674206698 = Inr (Some (''q6_k'', held))
    \<and> fits_at 2048 ((req_shape big_request)\<lparr>dtype := ''q6_k''\<rparr>) (req_plan big_request) 8192 4 ''fp8''
        115674206698 None = Inr True"
proof -
  have fields: "context_length big_request = 8192" "max_concurrent_seqs big_request = 4"
    "kv_dtype big_request = ''fp8''" "req_weight_bytes big_request = None"
    by (simp_all add: big_request_def example_request_def)
  have key: "kv_key (kv_dtype big_request) \<notin> set kv_auto_keys" by code_simp
  have "(case memory_breakdown (req_shape big_request) (req_plan big_request) 8192 4 ''fp8'' 2048 None of
      Inr (b, w) \<Rightarrow> (case suggest_quant big_request b 115674206698 of
        Inr (Some (name, held)) \<Rightarrow> name = ''q6_k'' | _ \<Rightarrow> False) | _ \<Rightarrow> False)"
    by code_simp
  then obtain b w held where
    "memory_breakdown (req_shape big_request) (req_plan big_request) 8192 4 ''fp8'' 2048 None = Inr (b, w)"
    "suggest_quant big_request b 115674206698 = Inr (Some (''q6_k'', held))"
    by (auto split: sum.splits option.splits prod.splits)
  then show ?thesis
    using suggested_quant_fits [OF big_shape key, unfolded fields] by blast
qed

text \<open>
  With the cache dtype left to the model, the suggestion can miss: the cache of an fp8 model is
  priced at one byte, and the suggested weight quantization is not a cache dtype, so the same
  cache is then priced at two.
\<close>

definition fp8_request :: fit_request where
  "fp8_request = example_request\<lparr>
     req_shape := example_shape\<lparr>dtype := ''fp8'', sliding_window := None\<rparr>,
     context_length := 131072, max_concurrent_seqs := 8\<rparr>"

definition fp8_followed :: fit_request where
  "fp8_followed = fp8_request\<lparr>req_shape := (req_shape fp8_request)\<lparr>dtype := ''q4_k_m''\<rparr>\<rparr>"

lemma auto_cache_suggestion_misses:
  "(case memory_breakdown (req_shape fp8_request) (req_plan fp8_request) 131072 8 ''auto'' 2048 None of
      Inr (b, w) \<Rightarrow> (case suggest_quant fp8_request b 115674206698 of
        Inr (Some (name, held)) \<Rightarrow> name = ''q4_k_m'' | _ \<Rightarrow> False) | _ \<Rightarrow> False)
    \<and> (case fit_check example_calculator fp8_followed [example_node] None of
         Inr r \<Rightarrow> \<not> fit_ok r \<and> usable_per_node r = 115674206698 | Inl e \<Rightarrow> False)"
  by code_simp

end
