(* ===== verification/Planner_Legality.thy ===== *)
theory Planner_Legality
  imports Contracts
begin

text \<open>
  Which parallelism degrees are legal, \<open>control_plane/planner/legality.py\<close> and
  \<open>planner/constants.py\<close>: the degree sets, the enumeration of candidates, and the refusals of
  degrees an operator asked for by hand. A Python set of degrees that is only sorted or tested for
  membership is its ascending list.
\<close>

definition ACTIVATION_DTYPE_BYTES :: int where "ACTIVATION_DTYPE_BYTES = 2"
definition ALLREDUCES_PER_LAYER :: int where "ALLREDUCES_PER_LAYER = 2"
definition LATENCY_CONCURRENCY_CEILING :: int where "LATENCY_CONCURRENCY_CEILING = 2"
definition PIPELINE_INFLIGHT_PER_STAGE :: int where "PIPELINE_INFLIGHT_PER_STAGE = 4"
definition MIN_NODES_FOR_CROSS_NODE_EP :: int where "MIN_NODES_FOR_CROSS_NODE_EP = 4"
definition DEFAULT_PLAN_CONTEXT :: int where "DEFAULT_PLAN_CONTEXT = 32768"
definition DEFAULT_KV_DTYPE :: string where "DEFAULT_KV_DTYPE = ''auto''"
definition MAX_NODES_CONSIDERED :: int where "MAX_NODES_CONSIDERED = 64"

section \<open>Degrees\<close>

definition valid_tp_degrees :: "model_shape \<Rightarrow> int \<Rightarrow> int list" where
  "valid_tp_degrees s max_nodes =
     1 # (if max_nodes < 2 then []
          else filter (\<lambda>tp. num_attention_heads s mod tp = 0 \<and> num_kv_heads s mod tp = 0) [2..max_nodes])"

definition valid_ep_degrees :: "model_shape \<Rightarrow> int \<Rightarrow> int list" where
  "valid_ep_degrees s max_nodes =
     1 # (if max_nodes < 2 \<or> num_experts s = 0 then []
          else filter (\<lambda>ep. num_experts s mod ep = 0) [2..max_nodes])"

definition valid_pp_degrees :: "model_shape \<Rightarrow> int \<Rightarrow> int list" where
  "valid_pp_degrees s max_nodes = [1..max 1 (min max_nodes (num_layers s))]"

record candidate =
  tp :: int
  pp :: int
  ep :: int
  dp :: int

definition cand :: "int \<Rightarrow> int \<Rightarrow> int \<Rightarrow> int \<Rightarrow> candidate" where
  "cand t p e d = \<lparr>tp = t, pp = p, ep = e, dp = d\<rparr>"

definition cand_world :: "candidate \<Rightarrow> int" where
  "cand_world c = tp c * pp c * dp c"

definition is_hybrid :: "candidate \<Rightarrow> bool" where
  "is_hybrid c \<longleftrightarrow> tp c > 1 \<and> pp c > 1"

definition label :: "candidate \<Rightarrow> msg" where
  "label c =
     (if cand_world c = 1 then Msg ''single node'' []
      else if ep c > 1 then Msg ''DP attention + EP'' [I (dp c), I (ep c)]
      else let parts = (if tp c > 1 then [M (Msg ''TP'' [I (tp c)])] else []) @
                       (if pp c > 1 then [M (Msg ''PP'' [I (pp c)])] else [])
           in if parts \<noteq> [] then Msg ''parts'' parts else Msg ''single node'' [])"

section \<open>The enumeration\<close>

definition enumerate_candidates :: "model_shape \<Rightarrow> int \<Rightarrow> int \<Rightarrow> bool \<Rightarrow> candidate list" where
  "enumerate_candidates s available min_nodes ep_allowed =
     (if available < 1 then []
      else
        let low = max 1 (min min_nodes available);
            splits = concat (map (\<lambda>t. concat (map (\<lambda>p.
                if t * p < low \<or> t * p > available then [] else [cand t p 1 1])
              (valid_pp_degrees s available))) (valid_tp_degrees s available));
            experts = (if is_moe s \<and> ep_allowed then
                concat (map (\<lambda>w. if w > num_experts s \<or> num_experts s mod w \<noteq> 0 then []
                                  else [cand 1 1 w w])
                  [max low MIN_NODES_FOR_CROSS_NODE_EP..available])
              else [])
        in dedup_from [] (splits @ experts))"

section \<open>Refusals\<close>

definition tp_rejection :: "model_shape \<Rightarrow> int \<Rightarrow> msg option" where
  "tp_rejection s t =
     (if t < 1 then Some (Msg ''TP: a parallelism degree is at least 1'' [I t])
      else let bad = (if num_attention_heads s mod t \<noteq> 0
                      then [M (Msg ''num_attention_heads'' [I (num_attention_heads s)])] else []) @
                     (if num_kv_heads s mod t \<noteq> 0
                      then [M (Msg ''num_kv_heads'' [I (num_kv_heads s)])] else [])
           in if bad = [] then None else Some (Msg ''TP: not divisible'' (I t # bad)))"

definition pp_rejection :: "model_shape \<Rightarrow> int \<Rightarrow> msg option" where
  "pp_rejection s p =
     (if p < 1 then Some (Msg ''PP: a parallelism degree is at least 1'' [I p])
      else if p > num_layers s
        then Some (Msg ''PP: a stage must own at least one layer'' [I p, I (num_layers s)])
      else None)"

definition ep_rejection :: "model_shape \<Rightarrow> int \<Rightarrow> int \<Rightarrow> msg option" where
  "ep_rejection s e d =
     (if e < 1 then Some (Msg ''EP: a parallelism degree is at least 1'' [I e])
      else if e = 1 then None
      else if num_experts s = 0 then Some (Msg ''EP: a dense model has no experts'' [I e])
      else if num_experts s mod e \<noteq> 0 then Some (Msg ''EP: not divisible'' [I e, I (num_experts s)])
      else if d \<noteq> e then Some (Msg ''EP requires DP'' [I e])
      else None)"

definition dp_rejection :: "model_shape \<Rightarrow> int \<Rightarrow> msg option" where
  "dp_rejection s d = (if d < 1 then Some (Msg ''DP: a parallelism degree is at least 1'' [I d]) else None)"

record degree_refusal =
  axis :: string
  degree :: int
  refusal_message :: msg

definition check_degrees :: "model_shape \<Rightarrow> candidate \<Rightarrow> degree_refusal list" where
  "check_degrees s c =
     List.map_filter (\<lambda>(a, n, m). map_option (\<lambda>text. \<lparr>axis = a, degree = n, refusal_message = text\<rparr>) m)
       [(''tensor_parallel'', tp c, tp_rejection s (tp c)),
        (''pipeline_parallel'', pp c, pp_rejection s (pp c)),
        (''expert_parallel'', ep c, ep_rejection s (ep c) (dp c)),
        (''data_parallel'', dp c, dp_rejection s (dp c))]"

section \<open>Membership\<close>

lemma set_valid_tp_degrees:
  "t \<in> set (valid_tp_degrees s m) \<longleftrightarrow>
     t = 1 \<or> 2 \<le> t \<and> t \<le> m \<and> num_attention_heads s mod t = 0 \<and> num_kv_heads s mod t = 0"
  by (auto simp: valid_tp_degrees_def)

lemma set_valid_pp_degrees:
  "p \<in> set (valid_pp_degrees s m) \<longleftrightarrow> p = 1 \<or> 1 \<le> p \<and> p \<le> m \<and> p \<le> num_layers s"
  by (auto simp: valid_pp_degrees_def)

lemma cand_fields [simp]:
  "tp (cand t p e d) = t" "pp (cand t p e d) = p" "ep (cand t p e d) = e" "dp (cand t p e d) = d"
  by (simp_all add: cand_def)

lemma cand_eq [simp]:
  "cand t p e d = c \<longleftrightarrow> tp c = t \<and> pp c = p \<and> ep c = e \<and> dp c = d"
  "c = cand t p e d \<longleftrightarrow> tp c = t \<and> pp c = p \<and> ep c = e \<and> dp c = d"
  by (cases c; auto simp: cand_def)+

lemma tp_rejection_None:
  "tp_rejection s t = None \<longleftrightarrow> 1 \<le> t \<and> num_attention_heads s mod t = 0 \<and> num_kv_heads s mod t = 0"
  by (auto simp: tp_rejection_def)

lemma pp_rejection_None: "pp_rejection s p = None \<longleftrightarrow> 1 \<le> p \<and> p \<le> num_layers s"
  by (auto simp: pp_rejection_def)

lemma ep_rejection_None:
  "ep_rejection s e d = None \<longleftrightarrow>
     e = 1 \<or> 1 < e \<and> num_experts s \<noteq> 0 \<and> num_experts s mod e = 0 \<and> d = e"
  by (auto simp: ep_rejection_def)

lemma dp_rejection_None: "dp_rejection s d = None \<longleftrightarrow> 1 \<le> d"
  by (auto simp: dp_rejection_def)

lemma check_degrees_Nil:
  "check_degrees s c = [] \<longleftrightarrow>
     tp_rejection s (tp c) = None \<and> pp_rejection s (pp c) = None
     \<and> ep_rejection s (ep c) (dp c) = None \<and> dp_rejection s (dp c) = None"
  by (auto simp: check_degrees_def map_filter_def split: option.splits)

lemmas refusal_free = check_degrees_Nil tp_rejection_None pp_rejection_None ep_rejection_None
  dp_rejection_None

lemma set_enumerate_candidates:
  assumes "1 \<le> available"
  shows "c \<in> set (enumerate_candidates s available min_nodes allowed) \<longleftrightarrow>
    (tp c \<in> set (valid_tp_degrees s available) \<and> pp c \<in> set (valid_pp_degrees s available)
       \<and> ep c = 1 \<and> dp c = 1
       \<and> max 1 (min min_nodes available) \<le> tp c * pp c \<and> tp c * pp c \<le> available)
    \<or> (is_moe s \<and> allowed \<and> tp c = 1 \<and> pp c = 1 \<and> dp c = ep c
       \<and> max (max 1 (min min_nodes available)) MIN_NODES_FOR_CROSS_NODE_EP \<le> ep c
       \<and> ep c \<le> available \<and> ep c \<le> num_experts s \<and> num_experts s mod ep c = 0)"
  using assms
  by (auto simp: enumerate_candidates_def Let_def set_dedup_from split: if_splits)



end
