(* ===== verification/Planner_Comm.thy ===== *)
theory Planner_Comm
  imports Planner_Legality Fit_Kv
begin

text \<open>
  What each parallelism strategy moves across the wire, \<open>control_plane/planner/comm.py\<close>: bytes and
  exchanges per decode step, the pipeline bubble, and the step-time estimate the planner ranks
  with. A float that may be infinity is a value of \<open>seconds\<close>.
\<close>

section \<open>Seconds, finite or not\<close>

datatype seconds = Secs rat | Never

instantiation seconds :: linorder
begin

fun less_eq_seconds :: "seconds \<Rightarrow> seconds \<Rightarrow> bool" where
  "less_eq_seconds a Never = True"
| "less_eq_seconds Never (Secs y) = False"
| "less_eq_seconds (Secs x) (Secs y) = (x \<le> y)"

definition less_seconds :: "seconds \<Rightarrow> seconds \<Rightarrow> bool" where
  "less_seconds a b \<longleftrightarrow> a \<le> b \<and> \<not> b \<le> (a :: seconds)"

instance
proof
  fix a b c :: seconds
  show "a < b \<longleftrightarrow> a \<le> b \<and> \<not> b \<le> a" by (rule less_seconds_def)
  show "a \<le> a" by (cases a) simp_all
  show "a \<le> b \<Longrightarrow> b \<le> c \<Longrightarrow> a \<le> c" by (cases a; cases b; cases c) simp_all
  show "a \<le> b \<Longrightarrow> b \<le> a \<Longrightarrow> a = b" by (cases a; cases b) simp_all
  show "a \<le> b \<or> b \<le> a" by (cases a; cases b) auto
qed

end

fun secs_add :: "seconds \<Rightarrow> seconds \<Rightarrow> seconds" where
  "secs_add (Secs x) (Secs y) = Secs (x + y)"
| "secs_add _ _ = Never"

fun secs_scale :: "rat \<Rightarrow> seconds \<Rightarrow> seconds" where
  "secs_scale k (Secs x) = Secs (x * k)"
| "secs_scale k Never = Never"

section \<open>Bytes and exchanges\<close>

definition tensor_bytes_per_step :: "model_shape \<Rightarrow> int \<Rightarrow> int \<Rightarrow> rat" where
  "tensor_bytes_per_step s t batch =
     (if t \<le> 1 then 0
      else let payload = of_int (hidden_size s * ACTIVATION_DTYPE_BYTES * batch);
               per_all_reduce = 2 * payload * of_int (t - 1) / of_int t
           in of_int (num_layers s * ALLREDUCES_PER_LAYER) * per_all_reduce)"

definition pipeline_bytes_per_step :: "model_shape \<Rightarrow> int \<Rightarrow> int \<Rightarrow> rat" where
  "pipeline_bytes_per_step s p batch =
     (if p \<le> 1 then 0 else of_int ((p - 1) * hidden_size s * ACTIVATION_DTYPE_BYTES * batch))"

definition expert_bytes_per_step :: "model_shape \<Rightarrow> int \<Rightarrow> int \<Rightarrow> rat" where
  "expert_bytes_per_step s e batch =
     (if e \<le> 1 \<or> \<not> is_moe s then 0
      else let payload = of_int (hidden_size s * ACTIVATION_DTYPE_BYTES * batch);
               per_layer = 2 * payload * of_int (num_experts_per_token s) * of_int (e - 1) / of_int e
           in of_int (num_layers s) * per_layer)"

definition tensor_exchanges_per_step :: "model_shape \<Rightarrow> int \<Rightarrow> int" where
  "tensor_exchanges_per_step s t = (if t \<le> 1 then 0 else num_layers s * ALLREDUCES_PER_LAYER)"

definition pipeline_exchanges_per_step :: "int \<Rightarrow> int" where
  "pipeline_exchanges_per_step p = (if p \<le> 1 then 0 else p - 1)"

definition expert_exchanges_per_step :: "model_shape \<Rightarrow> int \<Rightarrow> int" where
  "expert_exchanges_per_step s e = (if e \<le> 1 \<or> \<not> is_moe s then 0 else num_layers s * 2)"

definition pipeline_bubble_fraction :: "int \<Rightarrow> int \<Rightarrow> rat" where
  "pipeline_bubble_fraction p in_flight =
     (if p \<le> 1 then 0
      else let m = max 1 in_flight in of_int (p - 1) / of_int (m + p - 1))"

section \<open>The step estimate\<close>

definition compute_seconds_per_step :: "model_shape \<Rightarrow> node_profile \<Rightarrow> int \<Rightarrow> seconds result" where
  "compute_seconds_per_step s prof world =
     bindR (bytes_per_param s) (\<lambda>bpp.
       let active_bytes = of_int (effective_active_params s) * bpp;
           aggregate_bw = memory_bandwidth_gbps prof * 1000000000 * of_int (max 1 world)
       in Inr (if aggregate_bw \<le> 0 then Never else Secs (active_bytes / aggregate_bw)))"

definition link_seconds :: "rat \<Rightarrow> rat \<Rightarrow> int \<Rightarrow> rat \<Rightarrow> seconds" where
  "link_seconds payload gbps exchanges lat =
     (if payload \<le> 0 \<and> exchanges \<le> 0 then Secs 0
      else secs_add (if gbps > 0 then Secs (payload / (gbps * 1000000000)) else Never)
             (Secs (of_int exchanges * lat / 1000000)))"

definition estimated_step_seconds ::
  "model_shape \<Rightarrow> node_profile \<Rightarrow> link_measurement option \<Rightarrow> int \<Rightarrow> int \<Rightarrow> int \<Rightarrow> int \<Rightarrow> int \<Rightarrow> seconds result" where
  "estimated_step_seconds s prof link t p e d concurrency =
     (let world = max 1 (t * p * d); batch = max 1 concurrency in
      bindR (compute_seconds_per_step s prof world) (\<lambda>raw.
        let bubble = pipeline_bubble_fraction p concurrency;
            compute = secs_scale (if bubble < 0.99 then 1 / (1 - bubble) else 100) raw
        in Inr (case link of
             None \<Rightarrow> compute
           | Some l \<Rightarrow>
             if world = 1 then compute
             else secs_add compute
               (secs_add (secs_add
                 (link_seconds (tensor_bytes_per_step s t batch) (all_reduce_gbps l)
                    (tensor_exchanges_per_step s t) (latency_us l))
                 (link_seconds (pipeline_bytes_per_step s p batch) (sendrecv_gbps l)
                    (pipeline_exchanges_per_step p) (latency_us l)))
                 (link_seconds (expert_bytes_per_step s e batch) (sendrecv_gbps l)
                    (expert_exchanges_per_step s e) (latency_us l))))))"

lemma estimated_step_returns:
  "bytes_per_param s = Inr b \<Longrightarrow> \<exists>x. estimated_step_seconds s prof link t p e d c = Inr x"
  by (simp add: estimated_step_seconds_def compute_seconds_per_step_def Let_def)

section \<open>What the figures say\<close>

text \<open>The headline comparison: on a model with any hidden width, tensor parallel over n ranks
  moves 4 * layers / n times the bytes pipeline moves over n stages (so 160 times as many for 80
  layers on two nodes), in 2 * layers exchanges against n - 1.\<close>

theorem tensor_against_pipeline:
  assumes "1 < n"
  shows "tensor_bytes_per_step s n batch * of_int n
      = of_int (4 * num_layers s) * pipeline_bytes_per_step s n batch
    \<and> tensor_exchanges_per_step s n = 2 * num_layers s
    \<and> pipeline_exchanges_per_step n = n - 1"
  using assms
  by (simp add: tensor_bytes_per_step_def pipeline_bytes_per_step_def tensor_exchanges_per_step_def
      pipeline_exchanges_per_step_def ALLREDUCES_PER_LAYER_def ACTIVATION_DTYPE_BYTES_def field_simps)

theorem tensor_against_pipeline_witness:
  "tensor_bytes_per_step example_shape 2 1 * of_int 2
      = of_int (4 * 36) * pipeline_bytes_per_step example_shape 2 1
    \<and> tensor_exchanges_per_step example_shape 2 = 72 \<and> pipeline_exchanges_per_step 2 = 1"
  using tensor_against_pipeline [of 2 example_shape 1] by (simp add: example_shape_def)

text \<open>The pipeline bubble is a fraction, it is positive exactly for a real pipeline, and more
  requests in flight never make it larger; at the planner's floor of four requests per stage it is
  below a fifth.\<close>

theorem bubble_shrinks_with_load:
  "0 \<le> pipeline_bubble_fraction p m \<and> pipeline_bubble_fraction p m < 1
   \<and> (0 < pipeline_bubble_fraction p m \<longleftrightarrow> 1 < p)
   \<and> pipeline_bubble_fraction p (m + of_nat k) \<le> pipeline_bubble_fraction p m
   \<and> pipeline_bubble_fraction p (PIPELINE_INFLIGHT_PER_STAGE * p) < 1 / 5"
proof (cases "1 < p")
  case True
  let ?d = "\<lambda>m. of_int (max 1 m + p - 1) :: rat"
  have d: "0 < ?d m" for m using True by simp
  have eq: "pipeline_bubble_fraction p m = of_int (p - 1) / ?d m" for m
    using True by (simp add: pipeline_bubble_fraction_def Let_def)
  have "of_int (p - 1) / ?d (m + of_nat k) \<le> of_int (p - 1) / ?d m"
    using True d by (intro divide_left_mono mult_pos_pos) auto
  moreover have "of_int (p - 1) / ?d (4 * p) < (1 / 5 :: rat)"
  proof -
    have "max 1 (4 * p) = 4 * p" using True by simp
    then show ?thesis using True by (simp add: field_simps)
  qed
  moreover have "of_int (p - 1) / ?d m < 1" "0 < of_int (p - 1) / ?d m"
    using True d [of m] by (simp_all add: divide_less_eq)
  ultimately show ?thesis
    using True by (simp add: eq PIPELINE_INFLIGHT_PER_STAGE_def less_imp_le del: of_int_diff of_int_add)
qed (simp add: pipeline_bubble_fraction_def)

end
