(* ===== verification/Planner_Topology.thy ===== *)
theory Planner_Topology
  imports Contracts "HOL-Library.Multiset"
begin

text \<open>
  Grouping nodes into sets it is sane to serve one model across,
  \<open>control_plane/planner/topology.py\<close>: interchangeable nodes go in one group, groups are ordered
  strongest first, and an operator who names the nodes gets them pooled.
\<close>

section \<open>Groups\<close>

datatype hardware_key = Hardware device_class string int int rat

definition shape_key :: "node_profile \<Rightarrow> hardware_key" where
  "shape_key p = Hardware (device_class p) (gpu_name p) (gpu_count p) (addressable_memory p)
                   (round1 (memory_bandwidth_gbps p))"

text \<open>The key of a pooled group is the tuple \<open>("pooled",)\<close>.\<close>

datatype group_key = Alike hardware_key | Pooled

record node_group =
  group_key :: group_key
  group_nodes :: "node_profile list"

definition group_size :: "node_group \<Rightarrow> int" where
  "group_size g = int (length (group_nodes g))"

definition group_node_ids :: "node_group \<Rightarrow> string list" where
  "group_node_ids g = map node_id (group_nodes g)"

text \<open>\<open>min\<close> over no nodes raises; here it is \<open>None\<close>.\<close>

definition exemplar :: "node_group \<Rightarrow> node_profile option" where
  "exemplar g = min_by (\<lambda>n. (usable_memory n DEFAULT_GUARDRAIL, memory_bandwidth_gbps n)) (group_nodes g)"

definition aggregate_usable :: "node_group \<Rightarrow> int" where
  "aggregate_usable g = sum_list (map (\<lambda>n. usable_memory n DEFAULT_GUARDRAIL) (group_nodes g))"

definition group_label :: "node_group \<Rightarrow> msg" where
  "group_label g = Msg ''group'' [S (case exemplar g of None \<Rightarrow> [] | Some n \<Rightarrow> gpu_name n), I (group_size g)]"

text \<open>\<open>buckets.setdefault(key, []).append(node)\<close>\<close>

definition add_to_bucket ::
  "node_profile \<Rightarrow> (hardware_key, node_profile list) dict \<Rightarrow> (hardware_key, node_profile list) dict" where
  "add_to_bucket n d = dset (shape_key n) (dget_or d (shape_key n) [] @ [n]) d"

definition buckets :: "node_profile list \<Rightarrow> (hardware_key, node_profile list) dict" where
  "buckets nodes = fold add_to_bucket nodes []"

text \<open>\<open>sort(key, reverse=True)\<close> keeps the order of equal elements, as sorting by the negated key does.\<close>

definition strength_key :: "node_group \<Rightarrow> int \<times> int \<times> rat" where
  "strength_key g = (- aggregate_usable g, - group_size g,
     (case exemplar g of None \<Rightarrow> 0 | Some n \<Rightarrow> - memory_bandwidth_gbps n))"

definition homogeneous_groups :: "node_profile list \<Rightarrow> node_group list" where
  "homogeneous_groups nodes =
     sort_key strength_key
       (map (\<lambda>(key, members). \<lparr>group_key = Alike key, group_nodes = sort_key node_id members\<rparr>)
         (buckets nodes))"

definition pooled_group :: "node_profile list \<Rightarrow> node_group" where
  "pooled_group nodes = \<lparr>group_key = Pooled, group_nodes = nodes\<rparr>"

section \<open>The two sentences\<close>

definition node_names :: "node_group list \<Rightarrow> marg list" where
  "node_names groups = map (\<lambda>n. S (describe_node n)) (concat (map group_nodes groups))"

definition exemplar_gpu :: "node_group \<Rightarrow> marg" where
  "exemplar_gpu g = S (case exemplar g of None \<Rightarrow> [] | Some n \<Rightarrow> gpu_name n)"

definition exclusion_note :: "node_group \<Rightarrow> node_group list \<Rightarrow> msg list" where
  "exclusion_note chosen groups =
     (let others = filter (\<lambda>g. group_key g \<noteq> group_key chosen) groups in
      if others = [] then []
      else [Msg ''excluded'' (exemplar_gpu chosen # node_names others)])"

definition pooling_note :: "node_group list \<Rightarrow> msg list" where
  "pooling_note groups =
     (case groups of
        [] \<Rightarrow> [] | [_] \<Rightarrow> []
      | reference # others \<Rightarrow>
          [Msg ''Warning: pooled at the operator's instruction'' (exemplar_gpu reference # node_names others)])"

section \<open>The partition\<close>

lemma sort_key_nonempty: "xs \<noteq> [] \<Longrightarrow> sort_key f xs \<noteq> []"
  using length_sort [of f xs] by (cases "sort_key f xs") auto

lemma keys_add_to_bucket:
  "set (dkeys (add_to_bucket n d)) = insert (shape_key n) (set (dkeys d))"
  by (simp add: add_to_bucket_def dom_update)

definition buckets_ok :: "node_profile list \<Rightarrow> (hardware_key, node_profile list) dict \<Rightarrow> bool" where
  "buckets_ok ns d \<longleftrightarrow> dict_ok d \<and> set (dkeys d) = shape_key ` set ns
     \<and> (\<forall>k ms. (k, ms) \<in> set d \<longrightarrow> ms = filter (\<lambda>n. shape_key n = k) ns)"

lemma add_to_bucket_keeps [keeps]:
  assumes "buckets_ok ns d"
  shows "buckets_ok (ns @ [n]) (add_to_bucket n d)"
proof -
  have ok: "dict_ok d" "set (dkeys d) = shape_key ` set ns"
    and mem: "\<And>k ms. (k, ms) \<in> set d \<Longrightarrow> ms = filter (\<lambda>n. shape_key n = k) ns"
    using assms by (auto simp: buckets_ok_def)
  have get: "dget_or d (shape_key n) [] = filter (\<lambda>m. shape_key m = shape_key n) ns"
  proof (cases "dget d (shape_key n)")
    case None
    then have "shape_key n \<notin> shape_key ` set ns" using ok(2) by (simp add: map_of_eq_None_notin)
    then have "shape_key m \<noteq> shape_key n" if "m \<in> set ns" for m
      using that by (metis image_eqI)
    then have "filter (\<lambda>m. shape_key m = shape_key n) ns = []"
      by (simp add: filter_empty_conv)
    with None show ?thesis by simp
  next
    case (Some ms)
    then show ?thesis using mem [OF map_of_SomeD [OF Some]] by simp
  qed
  let ?d = "add_to_bucket n d"
  have ok': "dict_ok ?d" using ok(1) by (simp add: add_to_bucket_def)
  have "ms = filter (\<lambda>m. shape_key m = k) (ns @ [n])" if "(k, ms) \<in> set ?d" for k ms
  proof -
    have "dget ?d k = Some ms" using ok' that by (simp add: map_of_is_SomeI)
    then show ?thesis
      using get by (auto simp: add_to_bucket_def split: if_splits dest!: map_of_SomeD mem)
  qed
  moreover have "set (dkeys ?d) = shape_key ` set (ns @ [n])"
    using ok(2) keys_add_to_bucket [of n d] by simp
  ultimately show ?thesis using ok' by (simp add: buckets_ok_def)
qed

lemma buckets_ok_fold: "buckets_ok ms d \<Longrightarrow> buckets_ok (ms @ ns) (fold add_to_bucket ns d)"
proof (induction ns arbitrary: ms d)
  case (Cons n ns)
  show ?case using Cons.IH [OF add_to_bucket_keeps [OF Cons.prems]] by simp
qed simp

lemma buckets_ok: "buckets_ok ns (buckets ns)"
  using buckets_ok_fold [of "[]" "[]" ns] by (simp add: buckets_def buckets_ok_def)

text \<open>Grouping loses nothing and mixes nothing: for every kind of hardware present there is
  exactly one group, it holds precisely the supplied nodes of that hardware in the order of their
  ids, and the groups are listed from the most usable memory down.\<close>

theorem groups_partition:
  "distinct (map group_key (homogeneous_groups nodes))
   \<and> group_key ` set (homogeneous_groups nodes) = Alike ` shape_key ` set nodes
   \<and> (\<forall>g \<in> set (homogeneous_groups nodes). \<forall>k. group_key g = Alike k \<longrightarrow>
        group_nodes g = sort_key node_id (filter (\<lambda>n. shape_key n = k) nodes) \<and> group_nodes g \<noteq> [])
   \<and> sorted_wrt (\<lambda>g h. aggregate_usable h \<le> aggregate_usable g) (homogeneous_groups nodes)"
proof -
  let ?mk = "\<lambda>(key, members). \<lparr>group_key = Alike key, group_nodes = sort_key node_id members\<rparr>"
  let ?gs = "map ?mk (buckets nodes)"
  have ok: "dict_ok (buckets nodes)" "set (dkeys (buckets nodes)) = shape_key ` set nodes"
    and mem: "\<And>k ms. (k, ms) \<in> set (buckets nodes) \<Longrightarrow> ms = filter (\<lambda>n. shape_key n = k) nodes"
    using buckets_ok [of nodes] by (auto simp: buckets_ok_def)
  have keys: "map group_key ?gs = map Alike (dkeys (buckets nodes))"
    by (auto simp: case_prod_beta)
  have "distinct (map group_key ?gs)" unfolding keys using ok(1) by (simp add: distinct_map inj_on_def)
  then have "distinct (map group_key (homogeneous_groups nodes))"
    by (rule mset_eq_imp_distinct_iff [THEN iffD1, rotated])
      (simp only: homogeneous_groups_def mset_map mset_sort)
  moreover have "group_key ` set ?gs = Alike ` shape_key ` set nodes"
    unfolding list.set_map [symmetric] keys using ok(2) by (simp add: image_image [symmetric])
  moreover have "\<forall>g \<in> set ?gs. \<forall>k. group_key g = Alike k \<longrightarrow>
      group_nodes g = sort_key node_id (filter (\<lambda>n. shape_key n = k) nodes) \<and> group_nodes g \<noteq> []"
  proof (intro ballI allI impI)
    fix g k assume "g \<in> set ?gs" "group_key g = Alike k"
    then obtain ms where g: "(k, ms) \<in> set (buckets nodes)" "g = ?mk (k, ms)" by auto
    from g(1) have "k \<in> shape_key ` set nodes" using ok(2) by force
    then have "filter (\<lambda>n. shape_key n = k) nodes \<noteq> []" by (auto simp: filter_empty_conv)
    then show "group_nodes g = sort_key node_id (filter (\<lambda>n. shape_key n = k) nodes) \<and> group_nodes g \<noteq> []"
      using g(2) mem [OF g(1)] sort_key_nonempty [of "filter (\<lambda>n. shape_key n = k) nodes" node_id] by simp
  qed
  moreover have "sorted_wrt (\<lambda>g h. aggregate_usable h \<le> aggregate_usable g) (homogeneous_groups nodes)"
  proof -
    have "sorted (map strength_key (homogeneous_groups nodes))"
      by (simp add: homogeneous_groups_def)
    then have "sorted_wrt (\<lambda>g h. strength_key g \<le> strength_key h) (homogeneous_groups nodes)"
      by (simp add: sorted_map)
    then show ?thesis
      by (rule sorted_wrt_mono_rel [rotated]) (auto simp: strength_key_def less_eq_prod_def)
  qed
  moreover have "set (homogeneous_groups nodes) = set ?gs"
    by (simp only: homogeneous_groups_def set_sort)
  ultimately show ?thesis by (simp only: simp_thms)
qed

theorem groups_partition_witness:
  "let ns = [example_node\<lparr>addressable_memory := 1000\<rparr>, example_node] in
     group_key ` set (homogeneous_groups ns) = Alike ` shape_key ` set ns
     \<and> distinct (map group_key (homogeneous_groups ns))
     \<and> map group_nodes (homogeneous_groups ns)
         = [[example_node], [example_node\<lparr>addressable_memory := 1000\<rparr>]]"
proof -
  have "map group_nodes (homogeneous_groups [example_node\<lparr>addressable_memory := 1000\<rparr>, example_node])
      = [[example_node], [example_node\<lparr>addressable_memory := 1000\<rparr>]]"
    by code_simp
  then show ?thesis
    using groups_partition [of "[example_node\<lparr>addressable_memory := 1000\<rparr>, example_node]"]
    by (simp only: Let_def simp_thms)
qed

lemma homogeneous_groups_nonempty: "nodes \<noteq> [] \<Longrightarrow> homogeneous_groups nodes \<noteq> []"
proof -
  assume "nodes \<noteq> []"
  then have "buckets nodes \<noteq> []"
    using buckets_ok [of nodes] by (auto simp: buckets_ok_def)
  then have "map (\<lambda>(key, members). \<lparr>group_key = Alike key, group_nodes = sort_key node_id members\<rparr>)
      (buckets nodes) \<noteq> []" by simp
  then show ?thesis
    unfolding homogeneous_groups_def by (rule sort_key_nonempty)
qed

lemma group_nodes_nonempty:
  assumes "g \<in> set (homogeneous_groups nodes)"
  shows "group_nodes g \<noteq> []"
proof -
  obtain k ms where k: "(k, ms) \<in> set (buckets nodes)" "group_nodes g = sort_key node_id ms"
    using assms by (force simp: homogeneous_groups_def)
  note ok = buckets_ok [of nodes, unfolded buckets_ok_def]
  have "k \<in> fst ` set (buckets nodes)" using k(1) by (rule rev_image_eqI) simp
  then obtain n where "n \<in> set nodes" "shape_key n = k" using ok by auto
  moreover have "ms = filter (\<lambda>n. shape_key n = k) nodes" using ok k(1) by blast
  ultimately have "n \<in> set ms" by simp
  then have "ms \<noteq> []" by auto
  then show ?thesis unfolding k(2) by (rule sort_key_nonempty)
qed

end
