(* ===== verification/Planner_Fit_Bridge.thy ===== *)
theory Planner_Fit_Bridge
  imports Planner_Legality Fit_Calculator
begin

text \<open>
  The capacity question the planner asks, \<open>control_plane/planner/fit_bridge.py\<close>: the interface
  \<open>FitHelpers\<close>, the gate's own answer behind it, and the planner's fallback arithmetic for when the
  gate is not importable, with the promise the fallback makes about itself.
\<close>

section \<open>The fallback's arithmetic\<close>

definition FB_KV_ELEM_BYTES :: "(string, rat) dict" where
  "FB_KV_ELEM_BYTES = [(''fp32'', 4), (''fp16'', 2), (''bf16'', 2), (''fp8'', 1), (''int8'', 1)]"

definition fb_kv_elem_bytes :: "string \<Rightarrow> rat" where
  "fb_kv_elem_bytes d = dget_or FB_KV_ELEM_BYTES (str_lower d) 2"

definition fb_kv_bytes_per_token :: "model_shape \<Rightarrow> string \<Rightarrow> rat result" where
  "fb_kv_bytes_per_token s d =
     (let elem = fb_kv_elem_bytes d in
      if truthy (mla_latent_dim s) then
        Inr (of_int (num_layers s * (the (mla_latent_dim s) + effective_mla_rope_dim s)) * elem)
      else mapR (\<lambda>h.
        let per_layer = of_int (2 * num_kv_heads s * h) * elem in
        case layers_with_full_attention s of
          Some f \<Rightarrow> if truthy (sliding_window s) then per_layer * of_int f
                    else per_layer * of_int (num_layers s)
        | None \<Rightarrow> per_layer * of_int (num_layers s)) (effective_head_dim s))"

definition kv_total_bytes :: "model_shape \<Rightarrow> string \<Rightarrow> int \<Rightarrow> int \<Rightarrow> rat result" where
  "kv_total_bytes s d context batch =
     (let elem = fb_kv_elem_bytes d in
      if truthy (mla_latent_dim s) then
        Inr (of_int (num_layers s * (the (mla_latent_dim s) + effective_mla_rope_dim s)) * elem
               * of_int context * of_int batch)
      else mapR (\<lambda>h.
        let per_layer_per_token = of_int (2 * num_kv_heads s * h) * elem in
        case layers_with_full_attention s of
          Some full \<Rightarrow>
            if truthy (sliding_window s) then
              (let windowed = max 0 (num_layers s - full);
                   layer_tokens = full * context + windowed * min (the (sliding_window s)) context
               in per_layer_per_token * of_int layer_tokens * of_int batch)
            else per_layer_per_token * of_int (num_layers s) * of_int context * of_int batch
        | None \<Rightarrow> per_layer_per_token * of_int (num_layers s) * of_int context * of_int batch)
        (effective_head_dim s))"

definition fb_activation_bytes :: "model_shape \<Rightarrow> int \<Rightarrow> int" where
  "fb_activation_bytes s batch =
     (let logits = vocab_size s * batch * 4; scratch = 2048 * hidden_size s * 4 * 6 in logits + scratch)"

definition fb_needed ::
  "model_shape \<Rightarrow> rat \<Rightarrow> rat \<Rightarrow> rat \<Rightarrow> int \<Rightarrow> int \<Rightarrow> rat" where
  "fb_needed s weights replicated kv activations n =
     (let layers = max 1 (num_layers s);
          comm = (if n = 1 then 0 else of_int COMM_BUFFER_BYTES
                    + (if is_moe s then of_int EP_EXTRA_BUFFER_BYTES else 0));
          fraction = (if n = 1 then 1 else of_int (ceil_div layers n) / of_int layers)
      in (weights + kv) * fraction + of_int activations + replicated + comm + of_int FRAMEWORK_OVERHEAD)"

definition fb_min_nodes_required ::
  "model_shape \<Rightarrow> node_profile \<Rightarrow> int \<Rightarrow> int \<Rightarrow> string \<Rightarrow> int result" where
  "fb_min_nodes_required s prof context max_seqs d =
     bindR (bytes_per_param s) (\<lambda>bpp.
     mapR (\<lambda>kv.
       let usable = usable_memory prof DEFAULT_GUARDRAIL;
           weights = of_int (total_params s) * bpp;
           replicated = of_int (vision_params s) * bpp;
           activations = fb_activation_bytes s max_seqs
       in case find (\<lambda>n. fb_needed s weights replicated kv activations n \<le> of_int usable)
                 [1..MAX_NODES_CONSIDERED] of
            Some n \<Rightarrow> n | None \<Rightarrow> MAX_NODES_CONSIDERED)
       (kv_total_bytes s d context max_seqs))"

section \<open>The interface the planner asks through\<close>

text \<open>
  \<open>FitHelpers.min_nodes_required\<close>: given a priced shape the answer is a number, either a node
  count within the search range or the gate's -1 for "no count at all".
\<close>

type_synonym capacity_helper = "model_shape \<Rightarrow> node_profile \<Rightarrow> int \<Rightarrow> int \<Rightarrow> string \<Rightarrow> int result"

locale fit_helpers =
  fixes min_nodes :: capacity_helper
  assumes answers: "well_shape s \<Longrightarrow>
    \<exists>n. min_nodes s prof context seqs d = Inr n \<and> (n = - 1 \<or> 1 \<le> n \<and> n \<le> 64)"
begin

lemma answer_floor:
  assumes "well_shape s" "min_nodes s prof context seqs d = Inr n"
  shows "n < 1 \<longleftrightarrow> n = - 1"
  using answers [OF assms(1), of prof "context" seqs d] assms(2) by auto

end

text \<open>\<open>control_plane.fit\<close>, with the defaults the planner leaves alone.\<close>

definition gate_min_nodes :: capacity_helper where
  "gate_min_nodes s prof context seqs d =
     min_nodes_required s prof context seqs d DEFAULT_GUARDRAIL None None"

lemma gate_min_nodes_answer:
  assumes "well_shape s"
  obtains n where "gate_min_nodes s prof context seqs d = Inr n" "n = - 1 \<or> 1 \<le> n \<and> n \<le> 64"
    "\<And>m. 1 \<le> m \<Longrightarrow> m \<le> 64 \<Longrightarrow>
       count_fits s context seqs d (usable_memory prof DEFAULT_GUARDRAIL) None m \<Longrightarrow> 1 \<le> n \<and> n \<le> m"
proof -
  obtain n where n: "min_nodes_required s prof context seqs d DEFAULT_GUARDRAIL None None = Inr n"
    "n = - 1 \<and> (\<forall>m. 1 \<le> m \<and> m \<le> 64 \<longrightarrow>
        \<not> count_fits s context seqs d (usable_memory prof DEFAULT_GUARDRAIL) None m)
     \<or> 1 \<le> n \<and> n \<le> 64 \<and> (\<forall>m. 1 \<le> m \<and> m < n \<longrightarrow>
        \<not> count_fits s context seqs d (usable_memory prof DEFAULT_GUARDRAIL) None m)"
    using min_nodes_search [OF assms, of prof "context" seqs d DEFAULT_GUARDRAIL None None]
    by (auto simp: MAX_SEARCH_NODES_def)
  show thesis
  proof (rule that [of n])
    show "1 \<le> n \<and> n \<le> m" if "1 \<le> m" "m \<le> 64"
      "count_fits s context seqs d (usable_memory prof DEFAULT_GUARDRAIL) None m" for m
      using n(2) that by (metis linorder_not_le)
  qed (use n in \<open>auto simp: gate_min_nodes_def\<close>)
qed

interpretation gate_helper: fit_helpers gate_min_nodes
  by unfold_locales (metis gate_min_nodes_answer)

lemma kv_total_returns: "well_shape s \<Longrightarrow> \<exists>b. kv_total_bytes s d context batch = Inr b"
  using effective_head_dim_returns [of s] by (auto simp: kv_total_bytes_def Let_def)

interpretation fallback_helper: fit_helpers fb_min_nodes_required
proof
  fix s :: model_shape and prof :: node_profile and "context" seqs :: int and d :: string
  assume ok: "well_shape s"
  obtain b where b: "bytes_per_param s = Inr b" using well_shapeD(8) [OF ok] by blast
  obtain kv where kv: "kv_total_bytes s d context seqs = Inr kv" using kv_total_returns [OF ok] by blast
  have found: "1 \<le> n \<and> n \<le> 64" if "find P [1..64] = Some n" for P n
    using that nth_mem [of _ "[1..64] :: int list"] by (auto simp: find_Some_iff)
  show "\<exists>n. fb_min_nodes_required s prof context seqs d = Inr n \<and> (n = - 1 \<or> 1 \<le> n \<and> n \<le> 64)"
    using b kv by (auto simp: fb_min_nodes_required_def Let_def MAX_NODES_CONSIDERED_def
        split: option.split dest!: found)
qed

section \<open>The fallback never asks for fewer nodes\<close>

lemma layer_tokens_cover:
  assumes "well_shape s" "0 \<le> context" "layers_with_full_attention s = Some f" "0 \<le> f"
    "sliding_window s = Some w" "w \<noteq> 0"
  shows "cached_layer_tokens s context \<le> f * context + max 0 (num_layers s - f) * min w context"
proof (cases "f \<le> num_layers s")
  case True
  then show ?thesis using assms by (simp add: cached_layer_tokens_def)
next
  case False
  have "num_layers s * context \<le> f * context" using False assms(2) by (intro mult_right_mono) auto
  then show ?thesis using False assms by (simp add: cached_layer_tokens_def min_def max_def)
qed

lemma fallback_kv_covers:
  assumes "well_shape s" "0 \<le> context" "0 \<le> batch"
    "\<And>f. layers_with_full_attention s = Some f \<Longrightarrow> 0 \<le> f"
    "kv_elem_bytes d (Some s) \<le> fb_kv_elem_bytes d"
    "kv_cache_bytes s context batch d = Inr x" "kv_total_bytes s d context batch = Inr y"
  shows "x \<le> y"
proof -
  obtain h where h: "effective_head_dim s = Inr h" "0 \<le> h"
    using effective_head_dim_returns [OF assms(1)] by blast
  have full: "cached_layer_tokens s context \<le> num_layers s * context"
    using cached_le_full [OF assms(1), of "context"] assms(2) by simp
  obtain c t where ct: "per_layer_per_token_bytes s d = Inr (of_int c * kv_elem_bytes d (Some s))"
    "y = of_int c * fb_kv_elem_bytes d * of_int t * of_int batch" "0 \<le> c"
    "cached_layer_tokens s context \<le> t"
  proof (cases "truthy (mla_latent_dim s)")
    case True
    then obtain l where l: "mla_latent_dim s = Some l" "l \<noteq> 0" by (auto simp: truthy_def split: option.splits)
    have "0 \<le> l" using assms(1) l by (simp add: well_shape_def)
    then show thesis
      using that [of "l + effective_mla_rope_dim s" "num_layers s * context"] l assms(7) True full
        effective_mla_rope_nonneg [OF assms(1)]
      by (simp add: kv_total_bytes_def per_layer_per_token_bytes_def mult_ac)
  next
    case False
    have rate: "per_layer_per_token_bytes s d = Inr (of_int (2 * num_kv_heads s * h) * kv_elem_bytes d (Some s))"
      using False h by (auto simp: per_layer_per_token_bytes_def truthy_def split: option.splits)
    have pos: "0 \<le> 2 * num_kv_heads s * h" using h well_shapeD(4) [OF assms(1)] by simp
    show thesis
    proof (cases "truthy (sliding_window s) \<and> layers_with_full_attention s \<noteq> None")
      case True
      then obtain f w where fw: "layers_with_full_attention s = Some f" "sliding_window s = Some w" "w \<noteq> 0"
        by (auto simp: truthy_def split: option.splits)
      show thesis
        by (rule that [OF rate _ pos layer_tokens_cover [OF assms(1,2) fw(1) _ fw(2,3)]])
          (use fw False h assms(4,7) in \<open>auto simp: kv_total_bytes_def Let_def truthy_def\<close>)
    next
      case no: False
      show thesis
        by (rule that [OF rate _ pos full])
          (use no False h assms(7) in \<open>auto simp: kv_total_bytes_def Let_def mult_ac split: option.splits\<close>)
    qed
  qed
  have "of_int c * kv_elem_bytes d (Some s) * of_int (cached_layer_tokens s context) * of_int batch
      \<le> of_int c * fb_kv_elem_bytes d * of_int t * of_int batch"
    using ct(3,4) assms(3,5) kv_elem_ge_1 [of d "Some s"] cached_nonneg [OF assms(1), of "context"]
    by (intro mult_mono mult_nonneg_nonneg) auto
  then show ?thesis using ct(1,2) assms(3,6) by (simp add: kv_cache_bytes_def)
qed

lemma fallback_total_covers:
  assumes ok: "well_shape s" and "0 \<le> context" "1 \<le> seqs" "0 \<le> vision_params s"
    "\<And>f. layers_with_full_attention s = Some f \<Longrightarrow> 0 \<le> f"
    "kv_elem_bytes d (Some s) \<le> fb_kv_elem_bytes d"
    and b: "bytes_per_param s = Inr b" and kv: "kv_total_bytes s d context seqs = Inr kv"
    and n: "1 \<le> n"
    and t: "total_at s (synthetic_plan 1 n) context seqs d ACTIVATION_CHUNK_TOKENS None = Inr t"
  shows "of_int t \<le> fb_needed s (of_int (total_params s) * b) (of_int (vision_params s) * b) kv
    (fb_activation_bytes s seqs) n"
proof -
  let ?p = "synthetic_plan 1 n" and ?v = "vision_share s"
  have plan [simp]: "tensor_parallel ?p = 1" "pipeline_parallel ?p = n" "expert_parallel ?p = 1"
      "world_size ?p = n"
    by (simp_all add: synthetic_plan_def world_size_def)
  obtain f where f: "stage_fraction s n = Inr f" "0 < f"
    using stage_fraction_returns [OF ok] by blast
  have f_fb: "f = (if n = 1 then 1 else of_int (ceil_div (max 1 (num_layers s)) n) / of_int (max 1 (num_layers s)))"
    using f(1) n well_shapeD(1) [OF ok] by (auto simp: stage_fraction_def py_truediv_def split: if_splits)
  obtain k q w r where parts: "kv_cache_bytes s context seqs d = Inr k" "0 \<le> k" "kv_divisor s ?p = Inr q"
    "weight_bytes_per_rank s ?p None = Inr w" "replicated_bytes_per_rank s = Inr r"
    "total_at s ?p context seqs d ACTIVATION_CHUNK_TOKENS None = Inr (py_int w + py_int (k / q)
       + py_int (activation_bytes s seqs context ACTIVATION_CHUNK_TOKENS) + py_int (comm_buffer_bytes ?p)
       + py_int r + FRAMEWORK_OVERHEAD)"
    using total_at_split [OF ok] by metis
  have kle: "k \<le> kv" using fallback_kv_covers [OF ok assms(2) _ assms(5,6) parts(1) kv] assms(3) by simp
  have tp_div: "(if truthy (mla_latent_dim s) then 1 else of_int (min 1 (max 1 (num_kv_heads s)))) = (1 :: rat)"
    by simp
  have q: "k / q = k * f"
    using parts(3) f n by (auto simp: kv_divisor_def Let_def py_truediv_def tp_div max_def split: if_splits)
  have bp: "0 < b" using b bytes_per_param_pos by blast
  have v: "0 \<le> ?v" "?v \<le> vision_params s" "?v \<le> total_params s"
    using well_shapeD(6) [OF ok] assms(4) by (auto simp: vision_share_def)
  have w: "w = of_int (total_params s - ?v) * b * f"
    using parts(4) b f by (simp add: weight_bytes_per_rank_def Let_def)
  have r: "r = of_int ?v * b" using parts(5) b by (simp add: replicated_bytes_per_rank_def)
  have act: "activation_bytes s seqs context ACTIVATION_CHUNK_TOKENS \<le> of_int (fb_activation_bytes s seqs)"
  proof -
    have "min (max 1 2048) (max 1 context) * hidden_size s * 4 * 6 \<le> 2048 * hidden_size s * 4 * 6"
      using well_shapeD(2) [OF ok] by (intro mult_right_mono) auto
    then have "vocab_size s * max 1 seqs * 4 + min (max 1 2048) (max 1 context) * hidden_size s * 4 * 6
        \<le> fb_activation_bytes s seqs"
      using assms(3) by (simp add: fb_activation_bytes_def Let_def)
    then show ?thesis
      unfolding activation_bytes_def ACTIVATION_CHUNK_TOKENS_def Let_def of_int_le_iff .
  qed
  have "0 \<le> w" unfolding w using v bp f(2) by simp
  then have 1: "of_int (py_int w) \<le> of_int (total_params s) * b * f"
  proof -
    have "w \<le> of_int (total_params s) * b * f"
      unfolding w using v bp f(2) by (intro mult_right_mono) auto
    then show ?thesis using py_int_le_self [OF \<open>0 \<le> w\<close>] by linarith
  qed
  have 2: "of_int (py_int (k / q)) \<le> kv * f"
  proof -
    have "k * f \<le> kv * f" using kle f(2) by (intro mult_right_mono) auto
    moreover have "0 \<le> k * f" using parts(2) f(2) by simp
    ultimately show ?thesis unfolding q using py_int_le_self [of "k * f"] by linarith
  qed
  have 3: "of_int (py_int (activation_bytes s seqs context ACTIVATION_CHUNK_TOKENS))
      \<le> (of_int (fb_activation_bytes s seqs) :: rat)"
    using py_int_mono [OF act] by simp
  have 4: "of_int (py_int (comm_buffer_bytes ?p)) \<le> (if n = 1 then 0 else of_int COMM_BUFFER_BYTES
      + (if is_moe s then of_int EP_EXTRA_BUFFER_BYTES else 0) :: rat)"
    using n by (simp add: comm_buffer_bytes_def py_int_def)
  have 5: "of_int (py_int r) \<le> of_int (vision_params s) * b"
  proof -
    have "r \<le> of_int (vision_params s) * b" unfolding r using v(2) bp by (intro mult_right_mono) auto
    moreover have "0 \<le> r" unfolding r using v bp by simp
    ultimately show ?thesis using py_int_le_self [of r] by linarith
  qed
  show ?thesis
    using t parts(6) 1 2 3 4 5 unfolding fb_needed_def Let_def f_fb [symmetric]
    by (simp add: distrib_right)
qed

text \<open>The promise of the planner's fallback: when it finds a count no larger than the number of
  layers, the real gate finds a plan on that many nodes or fewer, so the fallback may ask for more
  nodes than the gate and never for fewer; this needs the fallback's short cache-dtype table not to
  price the cache below the gate's.\<close>

theorem fallback_never_fewer:
  assumes "well_shape s" and "0 \<le> context" and "1 \<le> seqs" and "0 \<le> vision_params s"
    and "case layers_with_full_attention s of None \<Rightarrow> True | Some f \<Rightarrow> 0 \<le> f"
    and "kv_elem_bytes d (Some s) \<le> fb_kv_elem_bytes d"
    and "fb_min_nodes_required s prof context seqs d = Inr n" and "n < MAX_NODES_CONSIDERED"
    and "n \<le> num_layers s"
  shows "\<exists>m. gate_min_nodes s prof context seqs d = Inr m \<and> 1 \<le> m \<and> m \<le> n"
proof -
  let ?p = "synthetic_plan 1 n" and ?u = "usable_memory prof DEFAULT_GUARDRAIL"
  obtain b where b: "bytes_per_param s = Inr b" using well_shapeD(8) [OF assms(1)] by blast
  obtain kv where kv: "kv_total_bytes s d context seqs = Inr kv" using kv_total_returns [OF assms(1)] by blast
  let ?need = "fb_needed s (of_int (total_params s) * b) (of_int (vision_params s) * b) kv
    (fb_activation_bytes s seqs)"
  have n: "find (\<lambda>n. ?need n \<le> of_int ?u) [1..64] = Some n"
    using assms(7,8) b kv
    by (auto simp: fb_min_nodes_required_def Let_def MAX_NODES_CONSIDERED_def split: option.splits)
  then have need: "?need n \<le> of_int ?u" and range: "1 \<le> n" "n \<le> 64"
    using nth_mem [of _ "[1..64] :: int list"] by (auto simp: find_Some_iff)
  obtain t where t: "total_at s ?p context seqs d ACTIVATION_CHUNK_TOKENS None = Inr t"
    using total_at_returns [OF assms(1)] by blast
  have "of_int t \<le> ?need n"
    by (rule fallback_total_covers [OF assms(1-4) _ assms(6) b kv range(1) t]) (use assms(5) in simp)
  then have "t \<le> ?u" using need by linarith
  moreover have "?p \<in> set (candidate_shards n s)"
    using range assms(9) by (auto simp: set_candidate_shards intro!: exI [of _ 1])
  ultimately have "count_fits s context seqs d ?u None n"
    using t unfolding count_fits_def fits_at_def by (intro bexI [of _ ?p]) simp_all
  moreover obtain m where "gate_min_nodes s prof context seqs d = Inr m"
    "count_fits s context seqs d ?u None n \<Longrightarrow> 1 \<le> m \<and> m \<le> n"
    using gate_min_nodes_answer [OF assms(1), of prof "context" seqs d] range by metis
  ultimately show ?thesis by blast
qed

theorem fallback_never_fewer_witness:
  "\<exists>n m. fb_min_nodes_required example_shape example_node 8192 4 ''auto'' = Inr n
    \<and> gate_min_nodes example_shape example_node 8192 4 ''auto'' = Inr m \<and> 1 \<le> m \<and> m \<le> n"
proof -
  have n: "fb_min_nodes_required example_shape example_node 8192 4 ''auto'' = Inr 1"
    by code_simp
  have elem: "kv_elem_bytes ''auto'' (Some example_shape) \<le> fb_kv_elem_bytes ''auto''"
    by code_simp
  have "\<exists>m. gate_min_nodes example_shape example_node 8192 4 ''auto'' = Inr m \<and> 1 \<le> m \<and> m \<le> 1"
    by (rule fallback_never_fewer [OF example_well_shape _ _ _ _ elem n])
      (simp_all add: example_shape_def MAX_NODES_CONSIDERED_def)
  with n show ?thesis by blast
qed

text \<open>The table is shorter than the gate's, so without that condition the promise can break.\<close>

lemma fallback_underprices_float32: "fb_kv_elem_bytes ''float32'' < kv_elem_bytes ''float32'' None"
  by code_simp

end
