(* ===== verification/Planner.thy ===== *)
theory Planner
  imports Planner_Comm Planner_Topology Planner_Fit_Bridge
begin

text \<open>
  The parallelism planner, \<open>control_plane/planner/planner.py\<close>: the facts a call resolves, the
  ranking of the legal candidates, the plans and the sentences they carry, and the override that
  renders degrees an operator chose.

  The capacity question is asked through \<open>FitHelpers\<close>, so every entry point takes the helper as a
  parameter. The facts carry the group's exemplar, a pure property of the group, so that the one
  exception it can raise (a group with no nodes) is raised where the facts are resolved.
\<close>

section \<open>Facts\<close>

record facts =
  f_shape :: model_shape
  f_group :: node_group
  f_exemplar :: node_profile
  f_groups :: "node_group list"
  f_link :: "link_measurement option"
  f_target :: string
  f_concurrency :: int
  f_context :: int
  f_kv_dtype :: string
  f_min_nodes :: int
  f_pooled :: bool

definition measured :: "facts \<Rightarrow> bool" where
  "measured f \<longleftrightarrow> f_link f \<noteq> None"

definition link_gbps :: "facts \<Rightarrow> rat" where
  "link_gbps f = (case f_link f of None \<Rightarrow> 0 | Some l \<Rightarrow> all_reduce_gbps l)"

definition gdr :: "facts \<Rightarrow> bool" where
  "gdr f \<longleftrightarrow> (case f_link f of None \<Rightarrow> False | Some l \<Rightarrow> gpudirect_rdma l)"

definition latency_override :: "facts \<Rightarrow> bool" where
  "latency_override f \<longleftrightarrow> f_target f = ''latency'' \<and> f_concurrency f \<le> LATENCY_CONCURRENCY_CEILING"

definition tp_preferred :: "facts \<Rightarrow> bool" where
  "tp_preferred f \<longleftrightarrow> measured f \<and> (link_gbps f \<ge> TP_VIABLE_THRESHOLD \<or> latency_override f)"

definition capacity_impossible :: "facts \<Rightarrow> bool" where
  "capacity_impossible f \<longleftrightarrow> f_min_nodes f < 1"

definition capacity_floor :: "facts \<Rightarrow> int" where
  "capacity_floor f = (if capacity_impossible f then group_size (f_group f) else f_min_nodes f)"

definition second_replica_possible :: "facts \<Rightarrow> bool" where
  "second_replica_possible f \<longleftrightarrow> \<not> capacity_impossible f \<and> f_min_nodes f * 2 \<le> group_size (f_group f)"

definition cross_node_ep_allowed :: "facts \<Rightarrow> bool" where
  "cross_node_ep_allowed f \<longleftrightarrow> is_moe (f_shape f) \<and> measured f \<and> link_gbps f \<ge> EP_VIABLE_THRESHOLD
     \<and> gdr f \<and> group_size (f_group f) \<ge> MIN_NODES_FOR_CROSS_NODE_EP"

section \<open>Ranking\<close>

record scored =
  sc_candidate :: candidate
  sc_kind :: parallelism_kind
  family :: int
  step_seconds :: seconds
  prefer_fewer_nodes :: bool

definition rank_key :: "scored \<Rightarrow> int \<times> int \<times> seconds" where
  "rank_key x = (let world = cand_world (sc_candidate x) in
     (family x, if prefer_fewer_nodes x then world else - world, step_seconds x))"

definition kind_of :: "candidate \<Rightarrow> parallelism_kind" where
  "kind_of c =
     (if cand_world c = 1 then SINGLE_NODE
      else if ep c > 1 then EXPERT
      else if is_hybrid c then HYBRID
      else if tp c > 1 then TENSOR
      else PIPELINE)"

fun family_rank :: "parallelism_kind \<Rightarrow> facts \<Rightarrow> int" where
  "family_rank SINGLE_NODE f = 0"
| "family_rank EXPERT f = 1"
| "family_rank TENSOR f = (if tp_preferred f then 2 else 4)"
| "family_rank HYBRID f = 3"
| "family_rank PIPELINE f = (if tp_preferred f then 4 else 2)"

definition score_one :: "facts \<Rightarrow> parallelism_kind \<Rightarrow> candidate \<Rightarrow> scored result" where
  "score_one f k c =
     mapR (\<lambda>t. \<lparr>sc_candidate = c, sc_kind = k, family = family_rank k f, step_seconds = t,
                prefer_fewer_nodes = second_replica_possible f\<rparr>)
       (estimated_step_seconds (f_shape f) (f_exemplar f) (f_link f) (tp c) (pp c) (ep c) (dp c)
          (f_concurrency f))"

text \<open>A single-node winner uses every GPU of the box that divides the model.\<close>

definition widen_head :: "facts \<Rightarrow> scored list \<Rightarrow> scored list" where
  "widen_head f xs =
     (case xs of [] \<Rightarrow> []
      | x # rest \<Rightarrow>
        let gpus = max 1 (gpu_count (f_exemplar f)) in
        if sc_kind x = SINGLE_NODE \<and> gpus > 1 then
          (let e = (if is_moe (f_shape f) then Max (set (valid_ep_degrees (f_shape f) gpus)) else 1);
               t = (if is_moe (f_shape f) then 1 else Max (set (valid_tp_degrees (f_shape f) gpus)))
           in x\<lparr>sc_candidate := cand t 1 e 1\<rparr> # rest)
        else xs)"

definition score_candidates :: "facts \<Rightarrow> candidate list" where
  "score_candidates f =
     (let cs = enumerate_candidates (f_shape f) (group_size (f_group f)) (capacity_floor f)
                 (cross_node_ep_allowed f)
      in if cs = [] then [cand 1 1 1 1] else cs)"

definition score :: "facts \<Rightarrow> scored list result" where
  "score f = mapR (\<lambda>xs. widen_head f (sort_key rank_key xs))
     (traverse (\<lambda>c. score_one f (kind_of c) c) (score_candidates f))"

definition nodes_for :: "scored \<Rightarrow> facts \<Rightarrow> string list" where
  "nodes_for x f =
     (if sc_kind x = SINGLE_NODE then take 1 (group_node_ids (f_group f))
      else take (nat (max 1 (cand_world (sc_candidate x)))) (group_node_ids (f_group f)))"

section \<open>Narration\<close>

definition bubble_warning :: "scored \<Rightarrow> facts \<Rightarrow> msg list" where
  "bubble_warning x f =
     (let p = pp (sc_candidate x); low = PIPELINE_INFLIGHT_PER_STAGE * p in
      if p \<le> 1 \<or> f_concurrency f \<ge> low then []
      else [Msg ''Warning: the pipeline bubble grows sharply''
              [I (f_concurrency f), I p, F (pipeline_bubble_fraction p (f_concurrency f) * 100), I low]])"

definition capacity_warning :: "facts \<Rightarrow> msg list" where
  "capacity_warning f =
     (if capacity_impossible f
      then [Msg ''Warning: no node count in the search range fits'' [I (f_context f), I (f_concurrency f)]]
      else if f_min_nodes f \<le> group_size (f_group f) then []
      else [Msg ''Warning: capacity needs more nodes than the group has''
              [if f_min_nodes f \<ge> MAX_NODES_CONSIDERED then M (Msg ''more than'' [I MAX_NODES_CONSIDERED])
               else I (f_min_nodes f),
               I (f_context f), I (f_concurrency f), I (group_size (f_group f))]])"

definition pooling_warning :: "facts \<Rightarrow> msg list" where
  "pooling_warning f =
     (if \<not> f_pooled f then [] else pooling_note (homogeneous_groups (group_nodes (f_group f))))"

definition justification :: "scored \<Rightarrow> facts \<Rightarrow> msg" where
  "justification x f =
     (let c = sc_candidate x; n = f_concurrency f; s = f_shape f; size = group_size (f_group f) in
      if sc_kind x = SINGLE_NODE then
        (if capacity_impossible f
         then Msg ''no node count in the search range fits this model'' [I (f_context f), I n]
         else if f_min_nodes f > 1
         then Msg ''one node cannot hold this model'' [I (f_min_nodes f), I (f_context f), I n, I size]
         else
           let gpus = max 1 (gpu_count (f_exemplar f)); degree = max (max (tp c) (ep c)) 1;
               idle = (if degree < gpus
                 then [M (Msg ''GPUs sit idle'' [I degree, I gpus,
                          S (if is_moe s then ''expert count'' else ''head counts''), I (gpus - degree)])]
                 else []);
               tail = (if size - 1 \<ge> 1
                 then [M (Msg ''run a second replica on'' (map S (take 1 (drop 1 (group_node_ids (f_group f))))))]
                 else [])
           in Msg ''the model fits within usable memory on one node''
                ([I (usable_memory (f_exemplar f) DEFAULT_GUARDRAIL), I (f_context f), I n] @ idle @ tail))
      else if sc_kind x = EXPERT
      then Msg ''GPUDirect RDMA enabled and the group is wide''
             [F (link_gbps f), I size, I (num_experts s), I (ep c), I n]
      else if \<not> measured f
      then Msg ''no link measurement is available'' [I (tensor_exchanges_per_step s 2)]
      else if sc_kind x = PIPELINE
      then Msg ''below the threshold where tensor parallel becomes competitive''
             [F (link_gbps f), F TP_VIABLE_THRESHOLD, I n, F (pipeline_bytes_per_step s (pp c) n),
              I (pipeline_exchanges_per_step (pp c)), F (tensor_bytes_per_step s 2 n),
              I (tensor_exchanges_per_step s 2)]
      else if latency_override f \<and> link_gbps f < TP_VIABLE_THRESHOLD
      then Msg ''tensor parallel wins single-stream decode'' [I n, F (link_gbps f), F TP_VIABLE_THRESHOLD]
      else if link_gbps f < TP_VIABLE_THRESHOLD
      then Msg ''this shape was asked for rather than chosen''
             [F (link_gbps f), F TP_VIABLE_THRESHOLD, I n, F (tensor_bytes_per_step s (tp c) n),
              I (tensor_exchanges_per_step s (tp c))]
      else Msg ''at or above the threshold''
             [F (link_gbps f), F TP_VIABLE_THRESHOLD, I (tensor_exchanges_per_step s (tp c)), I n])"

definition reason :: "scored \<Rightarrow> facts \<Rightarrow> msg list" where
  "reason x f =
     (let c = sc_candidate x in
      [Msg (if cand_world c > 1 then ''across'' else ''on'') (M (label c) # map S (nodes_for x f)),
       justification x f] @
      (if f_pooled f then [] else exclusion_note (f_group f) (f_groups f)) @
      bubble_warning x f @ capacity_warning f @ pooling_warning f)"

section \<open>Rejections\<close>

definition planner_ep_rejection :: "facts \<Rightarrow> msg" where
  "planner_ep_rejection f =
     (let size = group_size (f_group f) in
      if \<not> measured f then Msg ''EP: no link measurement is available'' [I size]
      else if \<not> gdr f then Msg ''EP: GPUDirect RDMA is disabled'' [I size]
      else if link_gbps f < EP_VIABLE_THRESHOLD
      then Msg ''EP: measured all-reduce is below the threshold'' [I size, F (link_gbps f), F EP_VIABLE_THRESHOLD]
      else Msg ''EP: only this many nodes are available'' [I size, I MIN_NODES_FOR_CROSS_NODE_EP])"

definition structural_rejections :: "facts \<Rightarrow> msg list" where
  "structural_rejections f =
     (let s = f_shape f; size = group_size (f_group f) in
      List.map_filter (tp_rejection s) [2..size] @
      (if capacity_impossible f
       then [Msg ''single node: illegal, no node count in the search range fits''
               [I (f_context f), I (f_concurrency f)]]
       else if f_min_nodes f > 1
       then [Msg ''single node: illegal, the model needs nodes''
               [I (f_min_nodes f), I (f_context f), I (f_concurrency f)]]
       else []) @
      (if is_moe s \<and> \<not> cross_node_ep_allowed f \<and> size > 1 then [planner_ep_rejection f] else []))"

definition rejection_line :: "scored \<Rightarrow> scored \<Rightarrow> facts \<Rightarrow> msg" where
  "rejection_line x chosen f =
     (let c = sc_candidate x; n = f_concurrency f; s = f_shape f; win = M (label (sc_candidate chosen)) in
      if sc_kind chosen = SINGLE_NODE \<and> sc_kind x \<noteq> SINGLE_NODE
      then Msg ''the model already fits on one node''
             [M (label c), I (f_context f), I n,
              (if measured f then F (link_gbps f) else S ''an unmeasured link''),
              I (max (max (tensor_exchanges_per_step s (tp c)) (pipeline_exchanges_per_step (pp c)))
                     (expert_exchanges_per_step s (ep c)))]
      else if sc_kind x = TENSOR \<and> sc_kind chosen \<noteq> TENSOR
      then (let exch = tensor_exchanges_per_step s (tp c); volume = tensor_bytes_per_step s (tp c) n in
        if \<not> measured f then Msg ''no measurement to justify'' [M (label c), I exch]
        else if tp_preferred f
        then Msg ''legal, but serialised collectives leave no room'' [M (label c), F (link_gbps f), I exch, F volume, win, I n]
        else Msg ''measured all-reduce is below the threshold''
               [M (label c), F (link_gbps f), F TP_VIABLE_THRESHOLD, I ALLREDUCES_PER_LAYER, I (num_layers s),
                I exch, F volume, I n])
      else if sc_kind x = PIPELINE \<and> sc_kind chosen \<noteq> PIPELINE
      then (let bubble = pipeline_bubble_fraction (pp c) n * 100 in
        if latency_override f then Msg ''no batch to fill the pipe'' [M (label c), I n, F bubble]
        else Msg ''cheaper on the wire, but the measured link is fast enough'' [M (label c), F (link_gbps f), F bubble, I n])
      else if sc_kind x = HYBRID
      then Msg ''legal, but the tensor-parallel half still pays''
             [M (label c), I (tensor_exchanges_per_step s (tp c)), F (link_gbps f), win, I n]
      else if sc_kind x = EXPERT then Msg ''legal on this link, but ranked below'' [M (label c), win, I n]
      else if sc_kind x = SINGLE_NODE then Msg ''the model fits on one node, which is why it wins'' [M (label c)]
      else Msg ''legal, ranked below'' [M (label c), win, I n])"

section \<open>Plans\<close>

definition single_node_line :: "msg \<Rightarrow> bool" where
  "single_node_line m \<longleftrightarrow> take 20 (msg_tag m) = ''single node: illegal''"

definition render_one :: "facts \<Rightarrow> msg list \<Rightarrow> msg list \<Rightarrow> nat \<Rightarrow> scored \<Rightarrow> parallelism_plan" where
  "render_one f rejections preamble i x =
     (let pre = (if sc_kind x = SINGLE_NODE then filter (\<lambda>m. \<not> single_node_line m) preamble else preamble);
          c = sc_candidate x
      in \<lparr>kind = sc_kind x, tensor_parallel = tp c, pipeline_parallel = pp c, expert_parallel = ep c,
          data_parallel = dp c, node_ids = nodes_for x f, plan_reason = reason x f,
          measured_link_gbps = link_gbps f,
          rejected = pre @ take i rejections @ drop (i + 1) rejections\<rparr>)"

definition render :: "scored list \<Rightarrow> facts \<Rightarrow> parallelism_plan list" where
  "render xs f =
     (let rejections = map (\<lambda>x. rejection_line x (hd xs) f) xs; preamble = structural_rejections f
      in map (\<lambda>(i, x). render_one f rejections preamble i x) (List.enumerate 0 xs))"

definition resolve_facts ::
  "capacity_helper \<Rightarrow> model_shape \<Rightarrow> node_profile list \<Rightarrow> link_measurement option \<Rightarrow> string \<Rightarrow> int
    \<Rightarrow> int option \<Rightarrow> string \<Rightarrow> bool \<Rightarrow> facts result" where
  "resolve_facts fit s nodes link target concurrency ctx kv mixed =
     (let groups = homogeneous_groups nodes; pooled = (mixed \<and> nodes \<noteq> []) in
      case (if pooled then [pooled_group nodes] else groups) of
        [] \<Rightarrow> Inl IndexError
      | chosen # _ \<Rightarrow>
        (case exemplar chosen of
           None \<Rightarrow> Inl (ValueError ''min() arg is an empty sequence'')
         | Some ex \<Rightarrow>
           let asked = (if truthy ctx then the ctx else DEFAULT_PLAN_CONTEXT) in
           mapR (\<lambda>n. \<lparr>f_shape = s, f_group = chosen, f_exemplar = ex, f_groups = groups, f_link = link,
                       f_target = target, f_concurrency = max 1 concurrency, f_context = asked,
                       f_kv_dtype = kv, f_min_nodes = n, f_pooled = pooled\<rparr>)
             (fit s ex asked (max 1 concurrency) kv)))"

definition alternatives ::
  "capacity_helper \<Rightarrow> model_shape \<Rightarrow> node_profile list \<Rightarrow> link_measurement option \<Rightarrow> string \<Rightarrow> int
    \<Rightarrow> int option \<Rightarrow> string \<Rightarrow> bool \<Rightarrow> parallelism_plan list result" where
  "alternatives fit s nodes link target concurrency ctx kv mixed =
     (if nodes = [] then Inl (ValueError ''cannot plan a deployment with no nodes'')
      else bindR (resolve_facts fit s nodes link target concurrency ctx kv mixed) (\<lambda>f.
           mapR (\<lambda>xs. render xs f) (score f)))"

definition plan ::
  "capacity_helper \<Rightarrow> model_shape \<Rightarrow> node_profile list \<Rightarrow> link_measurement option \<Rightarrow> string \<Rightarrow> int
    \<Rightarrow> int option \<Rightarrow> string \<Rightarrow> bool \<Rightarrow> parallelism_plan result" where
  "plan fit s nodes link target concurrency ctx kv mixed =
     bindR (alternatives fit s nodes link target concurrency ctx kv mixed) (\<lambda>ranked.
       case ranked of [] \<Rightarrow> Inl IndexError | p # _ \<Rightarrow> Inr p)"

section \<open>The override\<close>

datatype plan_error = Raised py_error | IllegalDegrees "degree_refusal list"

fun lift_error :: "py_error + 'a \<Rightarrow> plan_error + 'a" where
  "lift_error (Inl e) = Inl (Raised e)"
| "lift_error (Inr x) = Inr x"

definition plan_for ::
  "capacity_helper \<Rightarrow> model_shape \<Rightarrow> node_profile list \<Rightarrow> link_measurement option \<Rightarrow> string \<Rightarrow> int
    \<Rightarrow> candidate \<Rightarrow> int option \<Rightarrow> string \<Rightarrow> plan_error + parallelism_plan" where
  "plan_for fit s nodes link target concurrency c ctx kv =
     (if nodes = [] then Inl (Raised (ValueError ''cannot plan a deployment with no nodes''))
      else if check_degrees s c \<noteq> [] then Inl (IllegalDegrees (check_degrees s c))
      else lift_error
        (bindR (resolve_facts fit s nodes link target concurrency ctx kv True) (\<lambda>f.
         bindR (score f) (\<lambda>xs.
           let want = (if length nodes = 1 then SINGLE_NODE else kind_of c) in
           case find (\<lambda>(i, x). sc_candidate x = c \<and> sc_kind x = want) (List.enumerate 0 xs) of
             Some (i, x) \<Rightarrow> Inr (render xs f ! i)
           | None \<Rightarrow> mapR (\<lambda>extra. last (render (xs @ [extra]) f)) (score_one f want c)))))"

section \<open>The rendering of a plan\<close>

definition degree_label :: "parallelism_plan \<Rightarrow> msg" where
  "degree_label p =
     (if kind p = SINGLE_NODE then
        (if expert_parallel p > 1 then Msg ''single node, EP within it'' [I (expert_parallel p)]
         else if tensor_parallel p > 1 then Msg ''single node, TP within it'' [I (tensor_parallel p)]
         else Msg ''single node'' [])
      else if expert_parallel p > 1 then Msg ''DP attention + EP'' [I (data_parallel p), I (expert_parallel p)]
      else let parts = (if tensor_parallel p > 1 then [M (Msg ''TP'' [I (tensor_parallel p)])] else []) @
                       (if pipeline_parallel p > 1 then [M (Msg ''PP'' [I (pipeline_parallel p)])] else [])
           in if parts \<noteq> [] then Msg ''parts'' parts else Msg ''single node'' [])"

definition link_label :: "rat \<Rightarrow> msg" where
  "link_label gbps = (if gbps \<le> 0 then Msg ''not measured'' [] else Msg ''measured all-reduce'' [F gbps])"

end
