(* ===== verification/Planner_Rank.thy ===== *)
theory Planner_Rank
  imports Planner
begin

text \<open>
  What the planner of \<open>control_plane/planner/planner.py\<close> promises about the ranked list it returns:
  it always answers, every plan in it is legal and placed, the measured link decides the order, and
  an operator's override is honoured or refused. The worked cluster at the end has four GB10 nodes.
\<close>

section \<open>Reading the ranking\<close>

lemma rendered [simp]:
  "length (render xs f) = length xs"
  "i < length xs \<Longrightarrow> render xs f ! i = render_one f (map (\<lambda>x. rejection_line x (hd xs) f) xs)
     (structural_rejections f) i (xs ! i)"
  by (simp_all add: render_def Let_def nth_enumerate_eq)

lemma render_one_fields [simp]:
  "kind (render_one f r p i x) = sc_kind x"
  "tensor_parallel (render_one f r p i x) = tp (sc_candidate x)"
  "pipeline_parallel (render_one f r p i x) = pp (sc_candidate x)"
  "expert_parallel (render_one f r p i x) = ep (sc_candidate x)"
  "data_parallel (render_one f r p i x) = dp (sc_candidate x)"
  "node_ids (render_one f r p i x) = nodes_for x f"
  by (simp_all add: render_one_def Let_def)

lemma kinds_rendered: "map kind (render xs f) = map sc_kind xs"
  by (rule nth_equalityI) simp_all

lemma render_mem: "p \<in> set (render xs f) \<longleftrightarrow> (\<exists>i < length xs. p = render xs f ! i)"
  by (auto simp: in_set_conv_nth) 

lemma alternativesE:
  assumes "alternatives fit s nodes link target c ctx kv mixed = Inr ps"
  obtains f xs where "nodes \<noteq> []" "resolve_facts fit s nodes link target c ctx kv mixed = Inr f"
    "score f = Inr xs" "ps = render xs f"
  using assms by (auto simp: alternatives_def bindR_eq_Inr mapR_eq_Inr split: if_splits)

lemma homogeneous_subset:
  assumes "g \<in> set (homogeneous_groups nodes)" "n \<in> set (group_nodes g)"
  shows "n \<in> set nodes"
proof -
  obtain k ms where k: "(k, ms) \<in> set (buckets nodes)" "group_nodes g = sort_key node_id ms"
    using assms(1) by (force simp: homogeneous_groups_def)
  then have "ms = filter (\<lambda>n. shape_key n = k) nodes"
    using buckets_ok [of nodes] by (simp add: buckets_ok_def)
  then show ?thesis using assms(2) k(2) by simp
qed

lemma resolve_factsE:
  assumes "resolve_facts fit s nodes link target c ctx kv mixed = Inr f" "nodes \<noteq> []"
  obtains g where "f_shape f = s" "f_link f = link" "f_target f = target" "f_concurrency f = max 1 c"
    "f_group f = g" "g = pooled_group nodes \<or> g \<in> set (homogeneous_groups nodes)"
    "exemplar g = Some (f_exemplar f)" "1 \<le> group_size g" "set (group_nodes g) \<subseteq> set nodes"
    "fit s (f_exemplar f) (f_context f) (f_concurrency f) kv = Inr (f_min_nodes f)"
    "f_context f = (if truthy ctx then the ctx else DEFAULT_PLAN_CONTEXT)"
proof -
  obtain g gs ex where g: "(if mixed \<and> nodes \<noteq> [] then [pooled_group nodes] else homogeneous_groups nodes) = g # gs"
    "exemplar g = Some ex"
    using assms(1) by (auto simp: resolve_facts_def Let_def split: list.splits option.splits)
  have in_g: "g = pooled_group nodes \<or> g \<in> set (homogeneous_groups nodes)"
    using g(1) by (auto split: if_splits)
  have ex: "ex \<in> set (group_nodes g)" using g(2) unfolding exemplar_def by (rule min_by_in)
  then have "1 \<le> group_size g" by (cases "group_nodes g") (simp_all add: group_size_def)
  moreover have "set (group_nodes g) \<subseteq> set nodes"
    using in_g by (auto simp: pooled_group_def homogeneous_subset)
  moreover have F: "f_shape f = s" "f_link f = link" "f_target f = target" "f_concurrency f = max 1 c"
      "f_group f = g" "f_exemplar f = ex"
      "f_context f = (if truthy ctx then the ctx else DEFAULT_PLAN_CONTEXT)"
      "fit s ex (f_context f) (f_concurrency f) kv = Inr (f_min_nodes f)"
    using assms(1) g by (auto simp: resolve_facts_def Let_def mapR_eq_Inr simp del: if_split)
  ultimately show thesis
    using g(2) F by (intro that [OF F(1-5) in_g _ _ _ _ F(7)]) simp_all
qed

text \<open>What every entry of a ranking satisfies.\<close>

definition widened :: "facts \<Rightarrow> scored \<Rightarrow> bool" where
  "widened f x \<longleftrightarrow> sc_kind x = SINGLE_NODE \<and> family x = 0 \<and>
     (\<exists>t e. sc_candidate x = cand t 1 e 1
        \<and> (if is_moe (f_shape f) then t = 1 \<and> e \<in> set (valid_ep_degrees (f_shape f) (gpu_count (f_exemplar f)))
           else e = 1 \<and> t \<in> set (valid_tp_degrees (f_shape f) (gpu_count (f_exemplar f)))))"

definition ranked :: "facts \<Rightarrow> scored \<Rightarrow> bool" where
  "ranked f x \<longleftrightarrow> sc_candidate x \<in> set (score_candidates f) \<and> sc_kind x = kind_of (sc_candidate x)
     \<and> family x = family_rank (sc_kind x) f"

lemma score_one_fields:
  "score_one f k c = Inr x \<Longrightarrow> sc_candidate x = c \<and> sc_kind x = k \<and> family x = family_rank k f
     \<and> prefer_fewer_nodes x = second_replica_possible f"
  by (auto simp: score_one_def mapR_eq_Inr)

lemma Max_degree_in:
  "Max (set (valid_tp_degrees s g)) \<in> set (valid_tp_degrees s g)"
  "Max (set (valid_ep_degrees s g)) \<in> set (valid_ep_degrees s g)"
  by (rule Max_in; simp add: valid_tp_degrees_def valid_ep_degrees_def)+

lemma scoreE:
  assumes "score f = Inr xs"
  obtains ys where "xs = widen_head f (sort_key rank_key ys)" "length ys = length (score_candidates f)"
    "\<forall>x \<in> set ys. ranked f x" "sc_candidate ` set ys = set (score_candidates f)"
proof -
  obtain ys where ys: "traverse (\<lambda>c. score_one f (kind_of c) c) (score_candidates f) = Inr ys"
    "xs = widen_head f (sort_key rank_key ys)"
    using assms by (auto simp: score_def mapR_eq_Inr)
  then have all: "list_all2 (\<lambda>c y. score_one f (kind_of c) c = Inr y) (score_candidates f) ys"
    by (simp add: traverse_eq_Inr)
  have cands: "map sc_candidate ys = score_candidates f"
    using all by (intro nth_equalityI) (auto simp: list_all2_conv_all_nth dest: score_one_fields)
  have "ranked f x" if x: "x \<in> set ys" for x
  proof -
    obtain i where i: "i < length ys" "x = ys ! i" using x by (auto simp: in_set_conv_nth)
    then have "score_one f (kind_of (score_candidates f ! i)) (score_candidates f ! i) = Inr x"
      using all by (simp add: list_all2_conv_all_nth)
    moreover have "score_candidates f ! i \<in> set (score_candidates f)"
      using i all by (simp add: list_all2_lengthD)
    ultimately show ?thesis using score_one_fields by (force simp: ranked_def)
  qed
  then show thesis
    using ys(2) cands by (intro that [of ys]) (auto simp flip: cands)
qed

lemma score_candidates_nonempty [simp]: "score_candidates f \<noteq> []"
  by (simp add: score_candidates_def Let_def)

lemma widen_head_Cons:
  "\<exists>y. widen_head f (x # rest) = y # rest \<and> (y = x \<or> sc_kind x = SINGLE_NODE \<and> family y = family x
     \<and> sc_kind y = SINGLE_NODE \<and> (family x = 0 \<longrightarrow> widened f y))"
  using Max_degree_in [of "f_shape f" "max 1 (gpu_count (f_exemplar f))"]
  by (auto simp: widen_head_def Let_def widened_def max_def split: if_splits)

lemma scoring:
  assumes "score f = Inr xs"
  shows "xs \<noteq> []" "\<forall>x \<in> set xs. ranked f x \<or> widened f x" "sorted (map family xs)"
    "\<forall>x \<in> set (tl xs). ranked f x"
    "\<forall>c \<in> set (score_candidates f). kind_of c \<noteq> SINGLE_NODE \<longrightarrow> (\<exists>x \<in> set xs. sc_candidate x = c \<and> ranked f x)"
    "\<forall>c \<in> set (score_candidates f). family (hd xs) \<le> family_rank (kind_of c) f"
proof -
  obtain ys where ys: "xs = widen_head f (sort_key rank_key ys)" "length ys = length (score_candidates f)"
    "\<forall>x \<in> set ys. ranked f x" "sc_candidate ` set ys = set (score_candidates f)"
    using assms by (rule scoreE)
  have "sort_key rank_key ys \<noteq> []"
    by (rule sort_key_nonempty) (use ys(2) in \<open>auto simp flip: length_greater_0_conv\<close>)
  then obtain x rest where xr: "sort_key rank_key ys = x # rest" by (cases "sort_key rank_key ys") auto
  have all: "set (x # rest) = set ys" unfolding xr [symmetric] by simp
  then have rk: "ranked f y" if "y \<in> set (x # rest)" for y using ys(3) that by blast
  obtain y where y: "xs = y # rest" "y = x \<or> sc_kind x = SINGLE_NODE \<and> family y = family x
     \<and> sc_kind y = SINGLE_NODE \<and> (family x = 0 \<longrightarrow> widened f y)"
    using widen_head_Cons [of f x rest] ys(1) xr by auto
  have fam: "family y = family x" "sc_kind y = sc_kind x" using y(2) by auto
  have "sc_kind x = SINGLE_NODE \<Longrightarrow> family x = 0" using rk [of x] by (simp add: ranked_def)
  then have y': "y = x \<or> widened f y" using y(2) by blast
  show "xs \<noteq> []" "\<forall>x \<in> set xs. ranked f x \<or> widened f x" "\<forall>x \<in> set (tl xs). ranked f x"
    using y(1) y' rk by auto
  have "sorted (map rank_key (x # rest))" unfolding xr [symmetric] by simp
  then have "sorted_wrt (\<lambda>a b. rank_key a \<le> rank_key b) (x # rest)" by (simp only: sorted_map)
  then have "sorted_wrt (\<lambda>a b. family a \<le> family b) (x # rest)"
    by (rule sorted_wrt_mono_rel [rotated]) (auto simp: rank_key_def Let_def less_eq_prod_def)
  then have fams: "sorted_wrt (\<lambda>a b. family a \<le> family b) (x # rest)" .
  then show "sorted (map family xs)" using y(1) fam(1) by (simp add: sorted_map)
  show "\<forall>c \<in> set (score_candidates f). kind_of c \<noteq> SINGLE_NODE \<longrightarrow>
      (\<exists>x \<in> set xs. sc_candidate x = c \<and> ranked f x)"
  proof (intro ballI impI)
    fix c assume c: "c \<in> set (score_candidates f)" "kind_of c \<noteq> SINGLE_NODE"
    have "c \<in> sc_candidate ` set (x # rest)" unfolding all ys(4) by (rule c(1))
    then obtain z where z: "z \<in> set (x # rest)" "sc_candidate z = c" by blast
    then have "sc_kind z \<noteq> SINGLE_NODE" using rk c(2) by (auto simp: ranked_def)
    then have "z \<in> set xs" using z(1) y fam by auto
    then show "\<exists>x \<in> set xs. sc_candidate x = c \<and> ranked f x" using z rk by blast
  qed
  show "\<forall>c \<in> set (score_candidates f). family (hd xs) \<le> family_rank (kind_of c) f"
  proof
    fix c assume "c \<in> set (score_candidates f)"
    then have "c \<in> sc_candidate ` set (x # rest)" unfolding all ys(4) .
    then obtain z where z: "z \<in> set (x # rest)" "sc_candidate z = c" by blast
    have "family x \<le> family z" using z(1) fams by auto
    then show "family (hd xs) \<le> family_rank (kind_of c) f"
      using rk [OF z(1)] z(2) y(1) fam(1) by (simp add: ranked_def)
  qed
qed

lemma family_of_kind: "ranked f x \<or> widened f x \<Longrightarrow> family x = family_rank (sc_kind x) f"
  by (auto simp: ranked_def widened_def)

lemma family_rank_0: "family_rank k f \<le> 0 \<longleftrightarrow> k = SINGLE_NODE"
  by (cases k) simp_all

section \<open>What the planner promises\<close>

lemma score_candidates_cases:
  assumes "1 \<le> group_size (f_group f)" "c \<in> set (score_candidates f)"
  shows "c = cand 1 1 1 1 \<or> c \<in> set (enumerate_candidates (f_shape f) (group_size (f_group f))
    (capacity_floor f) (cross_node_ep_allowed f))"
  using assms by (auto simp: score_candidates_def Let_def split: if_splits)

text \<open>The facts about one plan of a ranking, by position.\<close>

lemma plan_of_rank:
  assumes "alternatives fit s nodes link target c ctx kv mixed = Inr ps" "p \<in> set ps"
  obtains f xs x g where "resolve_facts fit s nodes link target c ctx kv mixed = Inr f" "nodes \<noteq> []"
    "score f = Inr xs" "ps = render xs f" "x \<in> set xs" "ranked f x \<or> widened f x"
    "kind p = sc_kind x" "cand (tensor_parallel p) (pipeline_parallel p) (expert_parallel p) (data_parallel p)
       = sc_candidate x" "node_ids p = nodes_for x f"
proof -
  from assms(1) obtain f xs where fx: "nodes \<noteq> []"
    "resolve_facts fit s nodes link target c ctx kv mixed = Inr f" "score f = Inr xs" "ps = render xs f"
    by (rule alternativesE)
  obtain i where i: "i < length xs" "p = render xs f ! i" using assms(2) fx(4) by (auto simp: render_mem)
  show thesis
    using scoring(2) [OF fx(3)] i nth_mem [OF i(1)] by (intro that [OF fx(2,1,3,4)]) auto
qed

text \<open>C5: every plan the planner lists can be loaded and placed. Its nodes are nodes it was
  given, one for a single-node plan and one per rank otherwise; its tensor and pipeline degrees
  divide the model and its experts split evenly; and outside a single box no refusal applies to it.\<close>

theorem plans_legal_and_placed:
  assumes "alternatives fit s nodes link target c ctx kv mixed = Inr ps" and "p \<in> set ps"
    and "0 < num_layers s" and "0 \<le> num_experts s"
  shows "set (node_ids p) \<subseteq> node_id ` set nodes
    \<and> (if kind p = SINGLE_NODE then length (node_ids p) = 1 else int (length (node_ids p)) = world_size p)
    \<and> tp_rejection s (tensor_parallel p) = None \<and> pp_rejection s (pipeline_parallel p) = None
    \<and> num_experts s mod expert_parallel p = 0
    \<and> (kind p \<noteq> SINGLE_NODE \<longrightarrow> check_degrees s (cand (tensor_parallel p) (pipeline_parallel p)
          (expert_parallel p) (data_parallel p)) = [])"
proof -
  obtain f xs x where fx: "resolve_facts fit s nodes link target c ctx kv mixed = Inr f" "nodes \<noteq> []"
    "score f = Inr xs" "ps = render xs f" "x \<in> set xs" "ranked f x \<or> widened f x"
    "kind p = sc_kind x" "cand (tensor_parallel p) (pipeline_parallel p) (expert_parallel p) (data_parallel p)
       = sc_candidate x" "node_ids p = nodes_for x f"
    using assms(1,2) by (rule plan_of_rank)
  obtain g where g: "f_shape f = s" "f_group f = g" "1 \<le> group_size g" "set (group_nodes g) \<subseteq> set nodes"
    using fx(1,2) by (rule resolve_factsE)
  have deg: "tensor_parallel p = tp (sc_candidate x)" "pipeline_parallel p = pp (sc_candidate x)"
    "expert_parallel p = ep (sc_candidate x)" "data_parallel p = dp (sc_candidate x)"
    by (simp_all flip: fx(8))
  have ids: "set (node_ids p) \<subseteq> node_id ` set nodes"
  proof -
    have "set (node_ids p) \<subseteq> node_id ` set (group_nodes g)"
      using g(2) by (auto simp: fx(9) nodes_for_def group_node_ids_def dest!: in_set_takeD)
    then show ?thesis using image_mono [OF g(4), of node_id] by blast
  qed
  have len: "int (length (group_nodes g)) = group_size g" by (simp add: group_size_def)
  from fx(6) show ?thesis
  proof
    assume r: "ranked f x"
    let ?c = "sc_candidate x"
    have "?c = cand 1 1 1 1 \<or> ?c \<in> set (enumerate_candidates s (group_size g) (capacity_floor f)
        (cross_node_ep_allowed f))"
      using score_candidates_cases [of f ?c] r g by (auto simp: ranked_def)
    then have legal: "check_degrees s ?c = [] \<and> cand_world ?c \<le> group_size g \<and> 1 \<le> cand_world ?c"
    proof
      assume e: "?c \<in> set (enumerate_candidates s (group_size g) (capacity_floor f) (cross_node_ep_allowed f))"
      show ?thesis
        using e assms(3,4) g(3)
        by (auto simp: set_enumerate_candidates [OF g(3)] refusal_free set_valid_tp_degrees
            set_valid_pp_degrees is_moe_def cand_world_def MIN_NODES_FOR_CROSS_NODE_EP_def)
    qed (use assms(3) g(3) in \<open>simp add: refusal_free cand_world_def\<close>)
    have "cand_world ?c = world_size p" by (simp add: cand_world_def world_size_def deg)
    moreover have "kind p = SINGLE_NODE \<longleftrightarrow> cand_world ?c = 1"
      using r fx(7) by (auto simp: ranked_def kind_of_def)
    ultimately show ?thesis
      using legal ids len g(2,3) fx(7,8,9)
      by (auto simp: nodes_for_def group_node_ids_def refusal_free deg)
  next
    assume w: "widened f x"
    then show ?thesis
      using ids len g assms(3) fx(7,9) deg
      by (auto simp: widened_def nodes_for_def group_node_ids_def set_valid_tp_degrees refusal_free
          valid_ep_degrees_def split: if_splits)
  qed
qed


text \<open>Expert parallelism across nodes is only ever listed for a mixture of experts, on a
  measured link with GPUDirect RDMA at or above the threshold, at four ranks or more, with as many
  attention replicas as expert shards and the experts dividing evenly.\<close>

theorem expert_needs_fast_link:
  assumes "alternatives fit s nodes link target c ctx kv mixed = Inr ps" and "p \<in> set ps"
    and "kind p = EXPERT"
  shows "is_moe s \<and> (\<exists>l. link = Some l \<and> gpudirect_rdma l \<and> EP_VIABLE_THRESHOLD \<le> all_reduce_gbps l)
    \<and> 4 \<le> expert_parallel p \<and> data_parallel p = expert_parallel p \<and> num_experts s mod expert_parallel p = 0"
proof -
  obtain f xs x where fx: "resolve_facts fit s nodes link target c ctx kv mixed = Inr f" "nodes \<noteq> []"
    "score f = Inr xs" "ps = render xs f" "x \<in> set xs" "ranked f x \<or> widened f x"
    "kind p = sc_kind x" "cand (tensor_parallel p) (pipeline_parallel p) (expert_parallel p) (data_parallel p)
       = sc_candidate x" "node_ids p = nodes_for x f"
    using assms(1,2) by (rule plan_of_rank)
  obtain g where g: "f_shape f = s" "f_link f = link" "f_group f = g" "1 \<le> group_size g"
    using fx(1,2) by (rule resolve_factsE)
  have deg: "expert_parallel p = ep (sc_candidate x)" "data_parallel p = dp (sc_candidate x)"
    by (simp_all flip: fx(8))
  have r: "sc_candidate x \<in> set (score_candidates f)" "kind_of (sc_candidate x) = EXPERT"
    using fx(6,7) assms(3) by (auto simp: widened_def ranked_def)
  then have "1 < ep (sc_candidate x)" by (auto simp: kind_of_def split: if_splits)
  moreover have "sc_candidate x \<in> set (enumerate_candidates s (group_size g) (capacity_floor f)
      (cross_node_ep_allowed f))"
    using score_candidates_cases [of f "sc_candidate x"] r g calculation by auto
  ultimately show ?thesis
    using g(1,2) by (auto simp: set_enumerate_candidates [OF g(4)] deg cross_node_ep_allowed_def
        measured_def link_gbps_def gdr_def MIN_NODES_FOR_CROSS_NODE_EP_def)
qed

text \<open>A model the capacity helper says fits on one node is planned on one node: the
  recommended plan, which is the head of the ranked list, is a single-node plan on one host.\<close>

theorem fits_on_one_stays_on_one:
  assumes "alternatives fit s nodes link target c ctx kv mixed = Inr ps"
    and "resolve_facts fit s nodes link target c ctx kv mixed = Inr f" and "f_min_nodes f = 1"
  shows "\<exists>p. plan fit s nodes link target c ctx kv mixed = Inr p \<and> p = hd ps
    \<and> kind p = SINGLE_NODE \<and> length (node_ids p) = 1"
proof -
  from assms(1) obtain f' xs where fx: "nodes \<noteq> []"
    "resolve_facts fit s nodes link target c ctx kv mixed = Inr f'" "score f' = Inr xs" "ps = render xs f'"
    by (rule alternativesE)
  have [simp]: "f' = f" using fx(2) assms(2) by simp
  obtain g where g: "f_shape f = s" "f_group f = g" "1 \<le> group_size g"
    using assms(2) fx(1) by (rule resolve_factsE)
  have "cand 1 1 1 1 \<in> set (enumerate_candidates s (group_size g) (capacity_floor f) (cross_node_ep_allowed f))"
    using g(3) assms(3) by (auto simp: set_enumerate_candidates [OF g(3)] set_valid_tp_degrees
        set_valid_pp_degrees capacity_floor_def capacity_impossible_def)
  then have "cand 1 1 1 1 \<in> set (score_candidates f)"
    using g(1,2) by (auto simp: score_candidates_def Let_def)
  then have "family (hd xs) \<le> family_rank (kind_of (cand 1 1 1 1)) f"
    using scoring(6) [OF fx(3)] by simp
  then have "family (hd xs) \<le> 0" by (simp add: kind_of_def cand_world_def)
  moreover have hd: "hd xs \<in> set xs" using scoring(1) [OF fx(3)] by simp
  ultimately have k: "sc_kind (hd xs) = SINGLE_NODE"
    using scoring(2) [OF fx(3)] family_of_kind family_rank_0 by (metis \<open>f' = f\<close>)
  obtain x rest where xs: "xs = x # rest" using scoring(1) [OF fx(3)] by (cases xs) auto
  have ps: "ps = render xs f" using fx(4) by simp
  then have hd_ps: "hd ps = render xs f ! 0" "ps \<noteq> []"
    using xs rendered(1) [of xs f] by (auto simp: hd_conv_nth simp flip: length_greater_0_conv)
  then have "kind (hd ps) = SINGLE_NODE" "node_ids (hd ps) = nodes_for x f" using k xs by simp_all
  moreover have "length (nodes_for x f) = 1"
    using k xs g(2,3) by (simp add: nodes_for_def group_node_ids_def group_size_def)
  moreover have "plan fit s nodes link target c ctx kv mixed = Inr (hd ps)"
    using assms(1) hd_ps(2) by (cases ps) (simp_all add: plan_def)
  ultimately show ?thesis by simp
qed

lemma rank_order:
  assumes "alternatives fit s nodes link target c ctx kv mixed = Inr ps"
    "resolve_facts fit s nodes link target c ctx kv mixed = Inr f"
  shows "sorted_wrt (\<lambda>p q. family_rank (kind p) f \<le> family_rank (kind q) f) ps"
proof -
  from assms(1) obtain f' xs where fx: "nodes \<noteq> []"
    "resolve_facts fit s nodes link target c ctx kv mixed = Inr f'" "score f' = Inr xs" "ps = render xs f'"
    by (rule alternativesE)
  have [simp]: "f' = f" using fx(2) assms(2) by simp
  have fam: "map family xs = map (\<lambda>x. family_rank (sc_kind x) f) xs"
    using scoring(2) [OF fx(3)] family_of_kind by auto
  have "sorted (map (\<lambda>k. family_rank k f) (map sc_kind xs))"
    using scoring(3) [OF fx(3)] unfolding fam by (simp only: map_map comp_def)
  then have "sorted (map (\<lambda>k. family_rank k f) (map kind ps))"
    using fx(4) by (simp only: kinds_rendered \<open>f' = f\<close>)
  then show ?thesis by (simp add: sorted_map)
qed

text \<open>The measured link decides between tensor and pipeline parallelism. With an all-reduce
  at or above the threshold, or a measured link and a latency target at concurrency two or less, no
  pipeline plan is ranked above a tensor plan; otherwise, and without any measurement, no tensor
  plan is ranked above a pipeline plan.\<close>

theorem link_speed_decides:
  assumes "alternatives fit s nodes link target c ctx kv mixed = Inr ps"
    and "resolve_facts fit s nodes link target c ctx kv mixed = Inr f"
  shows "if (\<exists>l. link = Some l \<and> (TP_VIABLE_THRESHOLD \<le> all_reduce_gbps l \<or> target = ''latency'' \<and> c \<le> 2))
    then sorted_wrt (\<lambda>p q. \<not> (kind p = PIPELINE \<and> kind q = TENSOR)) ps
    else sorted_wrt (\<lambda>p q. \<not> (kind p = TENSOR \<and> kind q = PIPELINE)) ps"
proof -
  have "nodes \<noteq> []" using assms(1) by (auto simp: alternatives_def)
  with assms(2) obtain g where "f_link f = link" "f_target f = target" "f_concurrency f = max 1 c"
    by (rule resolve_factsE)
  then have tp: "tp_preferred f \<longleftrightarrow> (\<exists>l. link = Some l \<and>
      (TP_VIABLE_THRESHOLD \<le> all_reduce_gbps l \<or> target = ''latency'' \<and> c \<le> 2))"
    by (auto simp: tp_preferred_def measured_def link_gbps_def latency_override_def
        LATENCY_CONCURRENCY_CEILING_def)
  show ?thesis
  proof (cases "tp_preferred f")
    case True
    have "sorted_wrt (\<lambda>p q. \<not> (kind p = PIPELINE \<and> kind q = TENSOR)) ps"
      by (rule sorted_wrt_mono_rel [OF _ rank_order [OF assms]]) (use True in auto)
    then show ?thesis unfolding tp [symmetric] using True by simp
  next
    case False
    have "sorted_wrt (\<lambda>p q. \<not> (kind p = TENSOR \<and> kind q = PIPELINE)) ps"
      by (rule sorted_wrt_mono_rel [OF _ rank_order [OF assms]]) (use False in auto)
    then show ?thesis unfolding tp [symmetric] using False by simp
  qed
qed

lemma lift_Inr: "lift_error r = Inr x \<longleftrightarrow> r = Inr x"
  by (cases r) auto

lemma last_render: "xs \<noteq> [] \<Longrightarrow> last (render xs f) = render xs f ! (length xs - 1)"
  using rendered(1) [of xs f] by (metis last_conv_nth length_0_conv)

text \<open>An operator's degrees are either refused or served as asked: whenever the override
  returns a plan, no refusal applies to those degrees, the plan has exactly those degrees, and its
  kind is that of the degrees, or single-node when one node was named.\<close>

theorem override_honoured:
  assumes "plan_for fit s nodes link target c cd ctx kv = Inr p"
  shows "check_degrees s cd = []
    \<and> cand (tensor_parallel p) (pipeline_parallel p) (expert_parallel p) (data_parallel p) = cd
    \<and> kind p = (if length nodes = 1 then SINGLE_NODE else kind_of cd)"
proof -
  let ?want = "if length nodes = 1 then SINGLE_NODE else kind_of cd"
  have legal: "check_degrees s cd = []" and "nodes \<noteq> []"
    using assms by (auto simp: plan_for_def split: if_splits)
  then obtain f xs where fx: "resolve_facts fit s nodes link target c ctx kv True = Inr f" "score f = Inr xs"
    and p: "(case find (\<lambda>(i, x). sc_candidate x = cd \<and> sc_kind x = ?want) (List.enumerate 0 xs) of
        Some (i, x) \<Rightarrow> Inr (render xs f ! i)
      | None \<Rightarrow> mapR (\<lambda>extra. last (render (xs @ [extra]) f)) (score_one f ?want cd)) = Inr p"
    using assms unfolding plan_for_def Let_def
    by (auto simp: lift_Inr bindR_eq_Inr)
  show ?thesis
  proof (cases "find (\<lambda>(i, x). sc_candidate x = cd \<and> sc_kind x = ?want) (List.enumerate 0 xs)")
    case None
    then obtain e where e: "score_one f ?want cd = Inr e" "p = last (render (xs @ [e]) f)"
      using p by (auto simp: mapR_eq_Inr)
    then have "p = render (xs @ [e]) f ! length xs" by (simp add: last_render)
    then show ?thesis using score_one_fields [OF e(1)] legal by simp
  next
    case (Some ix)
    obtain i x where ix: "ix = (i, x)" by (cases ix)
    from Some have "(i, x) \<in> set (List.enumerate 0 xs)" "sc_candidate x = cd \<and> sc_kind x = ?want"
      unfolding ix by (auto simp: find_Some_iff in_set_conv_nth)
    then have i: "i < length xs" "xs ! i = x" "sc_candidate x = cd" "sc_kind x = ?want"
      by (auto simp: in_set_enumerate_eq)
    have "p = render xs f ! i" using p Some ix by simp
    then show ?thesis using i legal by simp
  qed
qed


section \<open>A worked cluster\<close>

definition example_link :: "rat \<Rightarrow> link_measurement" where
  "example_link gbps = \<lparr>link_src = ''n1'', link_dst = ''n2'', all_reduce_gbps = gbps,
     sendrecv_gbps = gbps, latency_us = 40, gpudirect_rdma = True, measured_at = 0,
     link_method = ''nccl''\<rparr>"

definition example_nodes :: "node_profile list" where
  "example_nodes = map (\<lambda>i. example_node\<lparr>node_id := i\<rparr>) [''n1'', ''n2'', ''n3'', ''n4'']"

text \<open>The same shape in bf16, which one node cannot hold.\<close>

definition large_shape :: model_shape where
  "large_shape = example_shape\<lparr>dtype := ''bf16''\<rparr>"

definition example_plans :: "model_shape \<Rightarrow> rat \<Rightarrow> parallelism_plan list result" where
  "example_plans s gbps =
     alternatives fb_min_nodes_required s example_nodes (Some (example_link gbps)) ''throughput'' 8
       (Some 8192) ''auto'' False"


context fit_helpers begin

lemma facts_resolve:
  assumes "well_shape s" "nodes \<noteq> []"
  shows "\<exists>f. resolve_facts min_nodes s nodes link target c ctx kv mixed = Inr f"
proof -
  let ?gs = "if mixed \<and> nodes \<noteq> [] then [pooled_group nodes] else homogeneous_groups nodes"
  have "?gs \<noteq> []" using homogeneous_groups_nonempty [OF assms(2)] by simp
  then obtain g gs where g: "?gs = g # gs" by (cases ?gs) blast+
  have "g = pooled_group nodes \<or> g \<in> set (homogeneous_groups nodes)"
    using g by (auto split: if_splits)
  then have "group_nodes g \<noteq> []" using assms(2) group_nodes_nonempty by (auto simp: pooled_group_def)
  then have "exemplar g \<noteq> None" by (simp add: exemplar_def)
  then obtain ex where ex: "exemplar g = Some ex" by blast
  obtain n where "min_nodes s ex (if truthy ctx then the ctx else DEFAULT_PLAN_CONTEXT) (max 1 c) kv = Inr n"
    using answers [OF assms(1)] by metis
  then show ?thesis using g ex by (simp add: resolve_facts_def Let_def)
qed

lemma plans_listed:
  assumes "well_shape s" "nodes \<noteq> []"
  shows "\<exists>ps. alternatives min_nodes s nodes link target c ctx kv mixed = Inr ps \<and> ps \<noteq> []
    \<and> plan min_nodes s nodes link target c ctx kv mixed = Inr (hd ps)"
proof -
  obtain f where f: "resolve_facts min_nodes s nodes link target c ctx kv mixed = Inr f"
    using facts_resolve [OF assms] by blast
  have shape: "f_shape f = s" using f assms(2) by (rule resolve_factsE)
  obtain b where b: "bytes_per_param s = Inr b" using well_shapeD(8) [OF assms(1)] by blast
  have "\<exists>ys. traverse (\<lambda>c. score_one f (kind_of c) c) (score_candidates f) = Inr ys"
    by (rule traverse_returns)
      (use estimated_step_returns [OF b] in \<open>metis score_one_def mapR.simps(2) shape\<close>)
  then obtain xs where xs: "score f = Inr xs" by (auto simp: score_def)
  then have ne: "render xs f \<noteq> []"
    using scoring(1) [OF xs] rendered(1) [of xs f] by (metis length_0_conv)
  have alt: "alternatives min_nodes s nodes link target c ctx kv mixed = Inr (render xs f)"
    using f xs assms(2) by (simp add: alternatives_def)
  then show ?thesis using ne by (intro exI [of _ "render xs f"]) (cases "render xs f"; simp add: plan_def)
qed

end



lemmas example_listed = fallback_helper.plans_listed [OF example_well_shape, of example_nodes
  "Some (example_link 50)" "''throughput''" 8 "Some 8192" "''auto''" True]

lemma example_facts:
  "\<exists>f. resolve_facts fb_min_nodes_required example_shape example_nodes (Some (example_link 50)) ''throughput'' 8
       (Some 8192) ''auto'' True = Inr f \<and> f_min_nodes f = 1"
proof -
  have "(case resolve_facts fb_min_nodes_required example_shape example_nodes (Some (example_link 50))
      ''throughput'' 8 (Some 8192) ''auto'' True of Inr f \<Rightarrow> f_min_nodes f = 1 | Inl e \<Rightarrow> False)"
    by code_simp
  then show ?thesis by (auto split: sum.splits)
qed

theorem fits_on_one_stays_on_one_witness:
  "\<exists>p. plan fb_min_nodes_required example_shape example_nodes (Some (example_link 50)) ''throughput'' 8
       (Some 8192) ''auto'' True = Inr p \<and> kind p = SINGLE_NODE \<and> length (node_ids p) = 1"
proof -
  obtain ps where "alternatives fb_min_nodes_required example_shape example_nodes (Some (example_link 50))
      ''throughput'' 8 (Some 8192) ''auto'' True = Inr ps"
    using example_listed by (auto simp: example_nodes_def)
  moreover obtain f where "resolve_facts fb_min_nodes_required example_shape example_nodes
      (Some (example_link 50)) ''throughput'' 8 (Some 8192) ''auto'' True = Inr f" "f_min_nodes f = 1"
    using example_facts by blast
  ultimately show ?thesis using fits_on_one_stays_on_one by blast
qed

theorem link_speed_decides_witness:
  "\<exists>ps. alternatives fb_min_nodes_required example_shape example_nodes (Some (example_link 50)) ''throughput'' 8
       (Some 8192) ''auto'' True = Inr ps
     \<and> sorted_wrt (\<lambda>p q. \<not> (kind p = PIPELINE \<and> kind q = TENSOR)) ps"
proof -
  obtain ps where ps: "alternatives fb_min_nodes_required example_shape example_nodes (Some (example_link 50))
      ''throughput'' 8 (Some 8192) ''auto'' True = Inr ps"
    using example_listed by (auto simp: example_nodes_def)
  moreover obtain f where "resolve_facts fb_min_nodes_required example_shape example_nodes
      (Some (example_link 50)) ''throughput'' 8 (Some 8192) ''auto'' True = Inr f"
    using example_facts by blast
  ultimately show ?thesis
    using link_speed_decides [OF ps] by (auto simp: example_link_def TP_VIABLE_THRESHOLD_def)
qed

theorem plans_legal_and_placed_witness:
  "\<exists>ps. alternatives fb_min_nodes_required example_shape example_nodes (Some (example_link 50)) ''throughput'' 8
       (Some 8192) ''auto'' True = Inr ps \<and> ps \<noteq> []
     \<and> set (node_ids (hd ps)) \<subseteq> node_id ` set example_nodes
     \<and> tp_rejection example_shape (tensor_parallel (hd ps)) = None"
proof -
  obtain ps where ps: "alternatives fb_min_nodes_required example_shape example_nodes (Some (example_link 50))
      ''throughput'' 8 (Some 8192) ''auto'' True = Inr ps" "ps \<noteq> []"
    using example_listed by (auto simp: example_nodes_def)
  have "0 < num_layers example_shape" "0 \<le> num_experts example_shape" by (simp_all add: example_shape_def)
  then show ?thesis using plans_legal_and_placed [OF ps(1), of "hd ps"] ps by simp
qed

theorem expert_needs_fast_link_witness:
  "\<exists>ps p. alternatives fb_min_nodes_required example_shape example_nodes (Some (example_link 50)) ''throughput'' 8
       (Some 8192) ''auto'' True = Inr ps \<and> p \<in> set ps \<and> kind p = EXPERT \<and> 4 \<le> expert_parallel p"
proof -
  obtain ps where ps: "alternatives fb_min_nodes_required example_shape example_nodes (Some (example_link 50))
      ''throughput'' 8 (Some 8192) ''auto'' True = Inr ps"
    using example_listed by (auto simp: example_nodes_def)
  then obtain f xs where fx: "resolve_facts fb_min_nodes_required example_shape example_nodes
      (Some (example_link 50)) ''throughput'' 8 (Some 8192) ''auto'' True = Inr f" "score f = Inr xs"
      "ps = render xs f"
    by (rule alternativesE)
  have "example_nodes \<noteq> []" by (simp add: example_nodes_def)
  with fx(1) have "f_shape f = example_shape" "f_link f = Some (example_link 50)"
    by (rule resolve_factsE; simp)+
  moreover have "f_group f = pooled_group example_nodes"
    using fx(1) \<open>example_nodes \<noteq> []\<close>
    by (auto simp: resolve_facts_def Let_def mapR_eq_Inr split: option.splits)
  ultimately have "cand 1 1 4 4 \<in> set (enumerate_candidates (f_shape f) (group_size (f_group f))
      (capacity_floor f) (cross_node_ep_allowed f))"
    by (auto simp: set_enumerate_candidates set_valid_tp_degrees
        set_valid_pp_degrees cross_node_ep_allowed_def measured_def link_gbps_def gdr_def is_moe_def
        group_size_def pooled_group_def example_nodes_def example_link_def example_shape_def
        MIN_NODES_FOR_CROSS_NODE_EP_def EP_VIABLE_THRESHOLD_def)
  then have "cand 1 1 4 4 \<in> set (score_candidates f)"
    by (auto simp: score_candidates_def Let_def)
  moreover have k: "kind_of (cand 1 1 4 4) = EXPERT" by code_simp
  ultimately obtain x where x: "x \<in> set xs" "sc_candidate x = cand 1 1 4 4" "ranked f x"
    using scoring(5) [OF fx(2)] by fastforce
  then obtain i where i: "i < length xs" "xs ! i = x" by (auto simp: in_set_conv_nth)
  let ?p = "render xs f ! i"
  have "sc_kind x = EXPERT" using x(2,3) k by (simp add: ranked_def del: cand_eq)
  then have p: "?p \<in> set ps" "kind ?p = EXPERT"
    using i fx(3) by (auto simp: render_mem)
  then show ?thesis using expert_needs_fast_link [OF ps p] ps by blast
qed

theorem override_honoured_witness:
  "\<exists>p. plan_for fb_min_nodes_required example_shape [example_node] None ''latency'' 1 (cand 2 1 1 1)
         (Some 8192) ''auto'' = Inr p
     \<and> cand (tensor_parallel p) (pipeline_parallel p) (expert_parallel p) (data_parallel p) = cand 2 1 1 1
     \<and> kind p = SINGLE_NODE"
proof -
  have "returns (plan_for fb_min_nodes_required example_shape [example_node] None ''latency'' 1 (cand 2 1 1 1)
         (Some 8192) ''auto'')"
    by code_simp
  then obtain p where p: "plan_for fb_min_nodes_required example_shape [example_node] None ''latency'' 1
      (cand 2 1 1 1) (Some 8192) ''auto'' = Inr p"
    by (auto simp: returns_iff)
  then show ?thesis using override_honoured [OF p] by simp
qed

text \<open>
  The planner's own single-node plan for a mixture of experts on a box of four GPUs has four expert
  shards and one attention replica, a configuration its legality check refuses when an operator asks
  for it.
\<close>

lemma single_box_experts_refused:
  "(case alternatives fb_min_nodes_required example_shape [example_node\<lparr>gpu_count := 4\<rparr>] None ''latency'' 1
        (Some 8192) ''auto'' False of
      Inr (p # ps) \<Rightarrow> kind p = SINGLE_NODE \<and> expert_parallel p = 4 \<and> data_parallel p = 1
    | _ \<Rightarrow> False)
   \<and> map axis (check_degrees example_shape (cand 1 1 4 1)) = [''expert_parallel'']"
  by code_simp

end
