(* ===== verification/Breaker.thy ===== *)
theory Breaker
  imports Prelude
begin

text \<open>
  The gateway's circuit breaker, \<open>control_plane/gateway/breaker.py\<close>: a circuit per target, created on
  the first failure; the clock is read once per operation and is its argument. The events the
  breaker emits are a log, oldest first.
\<close>

section \<open>State\<close>

record circuit =
  failures :: int
  opened_at :: "rat option"
  probing :: bool

datatype circuit_mode = CLOSED | OPEN | HALF_OPEN

datatype breaker_event = Opened string int rat | Recovered string

record circuit_breaker =
  failure_threshold :: int
  cooldown_s :: rat
  circuits :: "(string, circuit) dict"
  br_events :: "breaker_event list"

definition new_circuit :: circuit where
  "new_circuit = \<lparr>failures = 0, opened_at = None, probing = False\<rparr>"

definition new_breaker :: "int \<Rightarrow> rat \<Rightarrow> circuit_breaker" where
  "new_breaker threshold cooldown =
     \<lparr>failure_threshold = threshold, cooldown_s = cooldown, circuits = [], br_events = []\<rparr>"

section \<open>Operations\<close>

definition record_transport_failure :: "string \<Rightarrow> rat \<Rightarrow> circuit_breaker \<Rightarrow> circuit_breaker" where
  "record_transport_failure target now b =
     (let c = dget_or (circuits b) target new_circuit;
          c = c\<lparr>failures := failures c + 1, probing := False\<rparr>
      in case opened_at c of
           Some _ \<Rightarrow> b\<lparr>circuits := dset target (c\<lparr>opened_at := Some now\<rparr>) (circuits b)\<rparr>
         | None \<Rightarrow>
           if failures c \<ge> failure_threshold b
           then b\<lparr>circuits := dset target (c\<lparr>opened_at := Some now\<rparr>) (circuits b),
                  br_events := br_events b @ [Opened target (failures c) (cooldown_s b)]\<rparr>
           else b\<lparr>circuits := dset target c (circuits b)\<rparr>)"

definition record_success :: "string \<Rightarrow> circuit_breaker \<Rightarrow> circuit_breaker" where
  "record_success target b =
     (case dget (circuits b) target of
        None \<Rightarrow> b
      | Some c \<Rightarrow>
        b\<lparr>circuits := dset target new_circuit (circuits b),
          br_events := br_events b @ (if opened_at c \<noteq> None then [Recovered target] else [])\<rparr>)"

definition circuit_state :: "circuit_breaker \<Rightarrow> rat \<Rightarrow> string \<Rightarrow> circuit_mode" where
  "circuit_state b now target =
     (case dget (circuits b) target of
        None \<Rightarrow> CLOSED
      | Some c \<Rightarrow> (case opened_at c of
            None \<Rightarrow> CLOSED
          | Some since \<Rightarrow> if now - since < cooldown_s b then OPEN else HALF_OPEN))"

definition is_open :: "circuit_breaker \<Rightarrow> rat \<Rightarrow> string \<Rightarrow> bool" where
  "is_open b now target \<longleftrightarrow> circuit_state b now target = OPEN"

text \<open>\<open>begin\<close> claims the right to send; the name is a keyword here.\<close>

definition begin_send :: "string \<Rightarrow> rat \<Rightarrow> circuit_breaker \<Rightarrow> bool \<times> circuit_breaker" where
  "begin_send target now b =
     (case dget (circuits b) target of
        None \<Rightarrow> (True, b)
      | Some c \<Rightarrow> (case opened_at c of
            None \<Rightarrow> (True, b)
          | Some since \<Rightarrow>
            if now - since < cooldown_s b then (False, b)
            else if probing c then (False, b)
            else (True, b\<lparr>circuits := dset target (c\<lparr>probing := True\<rparr>) (circuits b)\<rparr>)))"

definition abandon :: "string \<Rightarrow> circuit_breaker \<Rightarrow> circuit_breaker" where
  "abandon target b =
     (case dget (circuits b) target of
        None \<Rightarrow> b
      | Some c \<Rightarrow> b\<lparr>circuits := dset target (c\<lparr>probing := False\<rparr>) (circuits b)\<rparr>)"

definition forget :: "string \<Rightarrow> circuit_breaker \<Rightarrow> circuit_breaker" where
  "forget target b = b\<lparr>circuits := dpop target (circuits b)\<rparr>"

definition retain :: "string list \<Rightarrow> circuit_breaker \<Rightarrow> circuit_breaker" where
  "retain targets b = b\<lparr>circuits := filter (\<lambda>p. fst p \<in> set targets) (circuits b)\<rparr>"

definition opened_targets :: "circuit_breaker \<Rightarrow> rat \<Rightarrow> (string, circuit_mode) dict" where
  "opened_targets b now =
     List.map_filter (\<lambda>t. let s = circuit_state b now t in if s \<noteq> CLOSED then Some (t, s) else None)
       (dkeys (circuits b))"

section \<open>Histories\<close>

datatype breaker_op =
    Failure string
  | Success string
  | Begin string
  | Abandon string
  | Forget string
  | Retain "string list"

fun breaker_step :: "circuit_breaker \<Rightarrow> rat \<times> breaker_op \<Rightarrow> circuit_breaker" where
  "breaker_step b (now, Failure t) = record_transport_failure t now b"
| "breaker_step b (now, Success t) = record_success t b"
| "breaker_step b (now, Begin t) = snd (begin_send t now b)"
| "breaker_step b (now, Abandon t) = abandon t b"
| "breaker_step b (now, Forget t) = forget t b"
| "breaker_step b (now, Retain ts) = retain ts b"

definition breaker_run :: "circuit_breaker \<Rightarrow> (rat \<times> breaker_op) list \<Rightarrow> circuit_breaker" where
  "breaker_run b ops = foldl breaker_step b ops"

lemma settings_fixed [simp]:
  "failure_threshold (breaker_step b x) = failure_threshold b"
  "cooldown_s (breaker_step b x) = cooldown_s b"
  by (cases x, rename_tac now op, case_tac op;
      simp add: record_transport_failure_def record_success_def begin_send_def abandon_def
        forget_def retain_def Let_def split: option.split)+

section \<open>The automaton of one target\<close>

text \<open>
  What the breaker promises about a target, on its own: it counts failures up to a threshold, is
  benched from then on, and while benched may have one probe out.
\<close>

datatype phase = Counting int | Benched rat bool

definition circuit_phase :: "circuit option \<Rightarrow> phase" where
  "circuit_phase oc = (case oc of
     None \<Rightarrow> Counting 0
   | Some c \<Rightarrow> (case opened_at c of None \<Rightarrow> Counting (failures c) | Some since \<Rightarrow> Benched since (probing c)))"

definition phase_of :: "string \<Rightarrow> circuit_breaker \<Rightarrow> phase" where
  "phase_of t b = circuit_phase (dget (circuits b) t)"

fun phase_step :: "int \<Rightarrow> rat \<Rightarrow> string \<Rightarrow> phase \<Rightarrow> rat \<times> breaker_op \<Rightarrow> phase" where
  "phase_step threshold cooldown t p (now, Failure u) =
     (if u \<noteq> t then p else case p of
        Counting n \<Rightarrow> if n + 1 \<ge> threshold then Benched now False else Counting (n + 1)
      | Benched _ _ \<Rightarrow> Benched now False)"
| "phase_step threshold cooldown t p (now, Success u) = (if u \<noteq> t then p else Counting 0)"
| "phase_step threshold cooldown t p (now, Begin u) =
     (if u \<noteq> t then p else case p of
        Counting n \<Rightarrow> Counting n
      | Benched since out \<Rightarrow> Benched since (out \<or> cooldown \<le> now - since))"
| "phase_step threshold cooldown t p (now, Abandon u) =
     (if u \<noteq> t then p else case p of Counting n \<Rightarrow> Counting n | Benched since _ \<Rightarrow> Benched since False)"
| "phase_step threshold cooldown t p (now, Forget u) = (if u \<noteq> t then p else Counting 0)"
| "phase_step threshold cooldown t p (now, Retain us) = (if t \<in> set us then p else Counting 0)"

text \<open>A circuit that is not open has no probe out and is under the threshold.\<close>

definition circuit_ok :: "int \<Rightarrow> circuit \<Rightarrow> bool" where
  "circuit_ok threshold c \<longleftrightarrow> 0 \<le> failures c \<and>
     (case opened_at c of None \<Rightarrow> \<not> probing c \<and> failures c < threshold | Some _ \<Rightarrow> threshold \<le> failures c)"

definition breaker_ok :: "circuit_breaker \<Rightarrow> bool" where
  "breaker_ok b \<longleftrightarrow> 1 \<le> failure_threshold b \<and> dict_ok (circuits b) \<and>
     (\<forall>t c. dget (circuits b) t = Some c \<longrightarrow> circuit_ok (failure_threshold b) c)"

lemma new_breaker_ok [keeps]: "1 \<le> n \<Longrightarrow> breaker_ok (new_breaker n s)"
  by (simp add: breaker_ok_def new_breaker_def)

lemma breaker_circuit: "breaker_ok b \<Longrightarrow> dget (circuits b) t = Some c \<Longrightarrow> circuit_ok (failure_threshold b) c"
  by (auto simp: breaker_ok_def)

lemma put_circuit_keeps [keeps]:
  assumes "breaker_ok b" "circuit_ok (failure_threshold b) c"
  shows "breaker_ok (b\<lparr>circuits := dset t c (circuits b)\<rparr>)"
    "breaker_ok (b\<lparr>circuits := dset t c (circuits b), br_events := e\<rparr>)"
  using assms by (auto simp: breaker_ok_def)

lemma failure_keeps [keeps]: "breaker_ok b \<Longrightarrow> breaker_ok (record_transport_failure t now b)"
proof -
  assume b: "breaker_ok b"
  let ?c = "dget_or (circuits b) t new_circuit"
  have "circuit_ok (failure_threshold b) ?c"
    using b breaker_circuit [OF b, of t]
    by (cases "dget (circuits b) t") (auto simp: circuit_ok_def new_circuit_def breaker_ok_def)
  then show ?thesis
    unfolding record_transport_failure_def Let_def
    by (auto simp: circuit_ok_def split: option.split intro!: put_circuit_keeps b)
qed

lemma success_keeps [keeps]: "breaker_ok b \<Longrightarrow> breaker_ok (record_success t b)"
proof -
  assume b: "breaker_ok b"
  then have "circuit_ok (failure_threshold b) new_circuit"
    by (simp add: breaker_ok_def circuit_ok_def new_circuit_def)
  then show ?thesis
    using b by (auto simp: record_success_def split: option.split intro!: put_circuit_keeps)
qed

lemma begin_keeps [keeps]: "breaker_ok b \<Longrightarrow> breaker_ok (snd (begin_send t now b))"
  using breaker_circuit [of b t]
  by (auto simp: begin_send_def circuit_ok_def split: option.split intro!: put_circuit_keeps)

lemma abandon_keeps [keeps]: "breaker_ok b \<Longrightarrow> breaker_ok (abandon t b)"
  using breaker_circuit [of b t]
  by (auto simp: abandon_def circuit_ok_def split: option.splits intro!: put_circuit_keeps)

lemma forget_keeps [keeps]: "breaker_ok b \<Longrightarrow> breaker_ok (forget t b)"
  by (auto simp: forget_def breaker_ok_def split: if_splits)

lemma retain_keeps [keeps]: "breaker_ok b \<Longrightarrow> breaker_ok (retain ts b)"
  by (auto simp: retain_def breaker_ok_def split: if_splits)

lemma breaker_step_keeps [keeps]: "breaker_ok b \<Longrightarrow> breaker_ok (breaker_step b x)"
  by (cases x, rename_tac now op, case_tac op) (auto intro: keeps)

lemma breaker_run_keeps [keeps]: "breaker_ok b \<Longrightarrow> breaker_ok (breaker_run b ops)"
  unfolding breaker_run_def by (induction ops arbitrary: b) (auto intro: breaker_step_keeps)

lemma phase_simulates:
  "phase_of t (breaker_step b x) = phase_step (failure_threshold b) (cooldown_s b) t (phase_of t b) x"
proof -
  obtain now op where x: "x = (now, op)" by (cases x)
  show ?thesis
    unfolding x phase_of_def circuit_phase_def
    by (cases op) (auto simp: record_transport_failure_def record_success_def begin_send_def
        abandon_def forget_def retain_def Let_def dget_or_def new_circuit_def split: option.splits)
qed

text \<open>C16: the breaker is one small automaton per target. After any history, what the breaker holds
  for a target is what that target's own automaton reaches on the same history: operations on
  other targets never affect it, a threshold of consecutive failures benches it, a success or a
  rebuild without it clears it, and a failed probe starts a new cooldown. What the router reads and
  what a dispatch is told follow from that automaton's phase alone.\<close>

theorem breaker_refines_automaton:
  "phase_of t (breaker_run b ops) = foldl (phase_step (failure_threshold b) (cooldown_s b) t) (phase_of t b) ops
   \<and> circuit_state b now t = (case phase_of t b of Counting _ \<Rightarrow> CLOSED
       | Benched since _ \<Rightarrow> if now - since < cooldown_s b then OPEN else HALF_OPEN)
   \<and> (fst (begin_send t now b) = (case phase_of t b of Counting _ \<Rightarrow> True
       | Benched since out \<Rightarrow> cooldown_s b \<le> now - since \<and> \<not> out))"
proof (intro conjI)
  show "phase_of t (breaker_run b ops)
      = foldl (phase_step (failure_threshold b) (cooldown_s b) t) (phase_of t b) ops"
    unfolding breaker_run_def by (induction ops arbitrary: b) (simp_all add: phase_simulates)
qed (auto simp: phase_of_def circuit_phase_def circuit_state_def begin_send_def split: option.split)

lemma run_settings [simp]:
  "failure_threshold (breaker_run b ops) = failure_threshold b"
  "cooldown_s (breaker_run b ops) = cooldown_s b"
  unfolding breaker_run_def by (induction ops arbitrary: b) simp_all

lemma run_phase:
  "phase_of t (breaker_run b ops) = foldl (phase_step (failure_threshold b) (cooldown_s b) t) (phase_of t b) ops"
  unfolding breaker_run_def by (induction ops arbitrary: b) (simp_all add: phase_simulates)

text \<open>Operations that leave the phase of a target as it is, or only count its claims.\<close>

fun settles :: "string \<Rightarrow> breaker_op \<Rightarrow> bool" where
  "settles t (Failure u) \<longleftrightarrow> u = t"
| "settles t (Success u) \<longleftrightarrow> u = t"
| "settles t (Begin u) \<longleftrightarrow> False"
| "settles t (Abandon u) \<longleftrightarrow> u = t"
| "settles t (Forget u) \<longleftrightarrow> u = t"
| "settles t (Retain us) \<longleftrightarrow> t \<notin> set us"

lemma probe_stays_out:
  "\<not> settles t (snd x) \<Longrightarrow> phase_step n s t (Benched since True) x = Benched since True"
  by (cases x, rename_tac now op, case_tac op) auto

lemma probe_stays_out_run:
  "\<forall>x \<in> set ops. \<not> settles t (snd x) \<Longrightarrow> foldl (phase_step n s t) (Benched since True) ops = Benched since True"
  by (induction ops) (simp_all add: probe_stays_out)

text \<open>A half-open circuit admits one probe. Once a dispatch has claimed a benched target, every
  further claim on it is refused, whatever happens to other targets and however late it comes,
  until that probe is settled: by a failure or a success of the target, by being given back, or by
  the target leaving the table.\<close>

theorem one_probe_at_a_time:
  assumes "circuit_state b now t = HALF_OPEN" and "fst (begin_send t now b)"
    and "\<forall>x \<in> set ops. \<not> settles t (snd x)"
  shows "\<not> fst (begin_send t later (breaker_run (snd (begin_send t now b)) ops))"
proof -
  let ?b = "snd (begin_send t now b)"
  obtain c since where c: "dget (circuits b) t = Some c" "opened_at c = Some since" "\<not> probing c"
    "\<not> now - since < cooldown_s b"
    using assms(1,2) by (auto simp: circuit_state_def begin_send_def split: option.splits if_splits)
  then have "phase_of t ?b = Benched since True"
    by (simp add: phase_of_def circuit_phase_def begin_send_def)
  then have "phase_of t (breaker_run ?b ops) = Benched since True"
    using probe_stays_out_run [OF assms(3)] by (simp add: run_phase)
  then show ?thesis
    by (auto simp: phase_of_def circuit_phase_def begin_send_def split: option.splits)
qed

definition tripped :: circuit_breaker where
  "tripped = breaker_run (new_breaker 3 30)
     [(0, Failure ''a''), (1, Failure ''a''), (2, Failure ''b''), (2, Failure ''a'')]"

theorem one_probe_at_a_time_witness:
  "circuit_state tripped 40 ''a'' = HALF_OPEN \<and> fst (begin_send ''a'' 40 tripped)
   \<and> \<not> fst (begin_send ''a'' 50 (breaker_run (snd (begin_send ''a'' 40 tripped)) [(41, Failure ''b''), (45, Begin ''a'')]))"
proof -
  have h: "circuit_state tripped 40 ''a'' = HALF_OPEN" "fst (begin_send ''a'' 40 tripped)"
    by code_simp+
  then show ?thesis
    using one_probe_at_a_time [OF h, of "[(41, Failure ''b''), (45, Begin ''a'')]" 50] by simp
qed

lemma failures_count:
  "length ts < nat n \<Longrightarrow> foldl (phase_step n s t) (Counting 0) (map (\<lambda>u. (u, Failure t)) ts) = Counting (int (length ts))"
  by (induction ts rule: rev_induct) auto

lemma failures_bench:
  assumes "1 \<le> n" "nat n \<le> length ts"
  shows "foldl (phase_step n s t) (Counting 0) (map (\<lambda>u. (u, Failure t)) ts) = Benched (last ts) False"
  using assms(2)
proof (induction ts rule: rev_induct)
  case (snoc u ts)
  show ?case
  proof (cases "nat n \<le> length ts")
    case True
    then show ?thesis using snoc.IH by simp
  next
    case False
    then have "foldl (phase_step n s t) (Counting 0) (map (\<lambda>u. (u, Failure t)) ts) = Counting (int (length ts))"
      by (intro failures_count) simp
    moreover have "n = int (length ts) + 1" using False snoc.prems by simp
    ultimately show ?thesis by simp
  qed
qed (use assms(1) in simp)

text \<open>A target is benched by exactly the configured number of consecutive transport failures.
  Starting from a cleared circuit, fewer failures leave it closed and claimable; from the threshold
  on it is open for the whole cooldown after the last failure, in which no dispatch may claim it,
  and half-open afterwards.\<close>

theorem benched_at_threshold:
  assumes "phase_of t b = Counting 0" and "1 \<le> failure_threshold b" and "ts \<noteq> []"
  shows "let b' = breaker_run b (map (\<lambda>u. (u, Failure t)) ts) in
    if int (length ts) < failure_threshold b
    then circuit_state b' now t = CLOSED \<and> fst (begin_send t now b')
    else (circuit_state b' now t = OPEN \<longleftrightarrow> now < last ts + cooldown_s b)
       \<and> (circuit_state b' now t = HALF_OPEN \<longleftrightarrow> last ts + cooldown_s b \<le> now)
       \<and> (now < last ts + cooldown_s b \<longrightarrow> \<not> fst (begin_send t now b'))"
proof -
  let ?b = "breaker_run b (map (\<lambda>u. (u, Failure t)) ts)"
  have phase: "phase_of t ?b = (if int (length ts) < failure_threshold b then Counting (int (length ts))
      else Benched (last ts) False)"
    using failures_count [of ts "failure_threshold b"] failures_bench [OF assms(2)] assms(1)
    by (simp add: run_phase)
  have state: "circuit_state ?b now t = (case phase_of t ?b of Counting _ \<Rightarrow> CLOSED
       | Benched since _ \<Rightarrow> if now - since < cooldown_s b then OPEN else HALF_OPEN)"
    and claim: "fst (begin_send t now ?b) = (case phase_of t ?b of Counting _ \<Rightarrow> True
       | Benched since out \<Rightarrow> cooldown_s b \<le> now - since \<and> \<not> out)"
    by (auto simp: phase_of_def circuit_phase_def circuit_state_def begin_send_def split: option.split)
  show ?thesis unfolding Let_def state claim phase by auto
qed

theorem benched_at_threshold_witness:
  "circuit_state (breaker_run (new_breaker 3 30) (map (\<lambda>u. (u, Failure ''a'')) [0, 1, 2])) 31 ''a'' = OPEN
   \<and> circuit_state (breaker_run (new_breaker 3 30) (map (\<lambda>u. (u, Failure ''a'')) [0, 1, 2])) 32 ''a'' = HALF_OPEN"
proof -
  have h: "phase_of ''a'' (new_breaker 3 30) = Counting 0" "1 \<le> failure_threshold (new_breaker 3 30)"
    "cooldown_s (new_breaker 3 30) = 30" "failure_threshold (new_breaker 3 30) = 3"
    by (simp_all add: phase_of_def circuit_phase_def new_breaker_def)
  show ?thesis
    using benched_at_threshold [OF h(1,2), of "[0, 1, 2]" 31] benched_at_threshold [OF h(1,2), of "[0, 1, 2]" 32] h(3,4)
    by (simp add: Let_def)
qed

end
