(* ===== verification/Gateway_Settings.thy ===== *)
theory Gateway_Settings
  imports Prelude
begin

text \<open>
  The gateway's tunables from the routing section to the parking section of
  \<open>control_plane/gateway/settings.py\<close>, with their defaults.
\<close>

record gateway_settings =
  weight_refresh_interval_s :: rat
  index_ttl_s :: rat
  measured_strength_min_requests :: int
  weak_target_floor :: rat
  auto_weighted_spread :: rat
  remote_default_strength :: rat
  sticky_ttl_s :: int
  electricity_rate_usd_per_kwh :: rat
  local_only :: bool
  daily_spend_cap_usd :: "rat option"
  auto_restart_crashed_deployments :: bool
  admission_reconcile_interval_s :: rat
  critical_memory_pct :: rat
  kv_budget_fraction :: rat
  assumed_max_tokens :: int
  chars_per_token :: rat
  tokens_per_message_overhead :: int
  retry_after_default_s :: int
  default_kv_dtype :: string
  failover_max_attempts :: int
  failover_deadline_s :: rat
  hedge_after_s :: "rat option"
  breaker_failure_threshold :: int
  breaker_cooldown_s :: rat
  retry_budget_ratio :: rat
  retry_budget_window_s :: rat
  retry_budget_floor :: int
  upstream_header_hold_s :: rat
  max_audio_upload_bytes :: int
  max_json_body_bytes :: int
  park_grace_s :: rat
  park_eligible_memory_s :: rat
  park_poll_interval_s :: rat
  park_max_waiters :: int
  park_max_per_model :: int
  park_max_body_bytes :: int

definition default_settings :: gateway_settings where
  "default_settings =
     \<lparr>weight_refresh_interval_s = 60, index_ttl_s = 1, measured_strength_min_requests = 100,
      weak_target_floor = 0.15, auto_weighted_spread = 0.25, remote_default_strength = 1,
      sticky_ttl_s = 0, electricity_rate_usd_per_kwh = 0,
      local_only = False, daily_spend_cap_usd = None, auto_restart_crashed_deployments = True,
      admission_reconcile_interval_s = 0.5, critical_memory_pct = 0.95,
      kv_budget_fraction = 1, assumed_max_tokens = 512, chars_per_token = 4,
      tokens_per_message_overhead = 4, retry_after_default_s = 2, default_kv_dtype = ''fp16'',
      failover_max_attempts = 2, failover_deadline_s = 30, hedge_after_s = None,
      breaker_failure_threshold = 3,
      breaker_cooldown_s = 30, retry_budget_ratio = 0.1, retry_budget_window_s = 10,
      retry_budget_floor = 3, upstream_header_hold_s = 10,
      max_audio_upload_bytes = 25 * 1024 * 1024, max_json_body_bytes = 25 * 1024 * 1024,
      park_grace_s = 10, park_eligible_memory_s = 60,
      park_poll_interval_s = 0.25, park_max_waiters = 256, park_max_per_model = 64,
      park_max_body_bytes = 1024 * 1024\<rparr>"

end
