(* ===== verification/Retry_Budget.thy ===== *)
theory Retry_Budget
  imports Gateway_Settings
begin

text \<open>
  The cap on retries, \<open>control_plane/gateway/budget.py\<close>: two queues of time stamps trimmed to a
  trailing window, and the decision whether one more retry may be sent. The clock is an argument;
  the one effect besides the queues is the event a refusal emits, which is its snapshot.
\<close>

section \<open>State and operations\<close>

record budget_snapshot =
  snap_requests :: int
  snap_retries :: int
  snap_allowed :: int
  snap_refused :: int

record retry_budget =
  ratio :: rat
  window_s :: rat
  budget_floor :: int
  requests :: "rat list"
  retries :: "rat list"
  refused :: int
  refusal_events :: "budget_snapshot list"

definition new_retry_budget :: "rat \<Rightarrow> rat \<Rightarrow> int \<Rightarrow> retry_budget" where
  "new_retry_budget r w f = \<lparr>ratio = r, window_s = w, budget_floor = f, requests = [], retries = [],
     refused = 0, refusal_events = []\<rparr>"

definition trim :: "rat \<Rightarrow> retry_budget \<Rightarrow> retry_budget" where
  "trim now b = (let cutoff = now - window_s b in
     b\<lparr>requests := dropWhile (\<lambda>s. s < cutoff) (requests b),
       retries := dropWhile (\<lambda>s. s < cutoff) (retries b)\<rparr>)"

definition note_request :: "rat \<Rightarrow> retry_budget \<Rightarrow> retry_budget" where
  "note_request now b = (let b = trim now b in b\<lparr>requests := requests b @ [now]\<rparr>)"

definition allowed :: "retry_budget \<Rightarrow> int" where
  "allowed b = max (budget_floor b) (py_int (of_int (int (length (requests b))) * ratio b))"

definition retry_snapshot :: "rat \<Rightarrow> retry_budget \<Rightarrow> budget_snapshot \<times> retry_budget" where
  "retry_snapshot now b = (let b = trim now b in
     (\<lparr>snap_requests = int (length (requests b)), snap_retries = int (length (retries b)),
       snap_allowed = allowed b, snap_refused = refused b\<rparr>, b))"

definition take_retry :: "rat \<Rightarrow> retry_budget \<Rightarrow> bool \<times> retry_budget" where
  "take_retry now b =
     (let b = trim now b in
      if int (length (retries b)) \<ge> allowed b then
        (let b = b\<lparr>refused := refused b + 1\<rparr>; (snap, b) = retry_snapshot now b
         in (False, b\<lparr>refusal_events := refusal_events b @ [snap]\<rparr>))
      else (True, b\<lparr>retries := retries b @ [now]\<rparr>))"

section \<open>Histories\<close>

datatype budget_op = Note | Take

fun budget_step :: "retry_budget \<Rightarrow> rat \<times> budget_op \<Rightarrow> retry_budget" where
  "budget_step b (now, Note) = note_request now b"
| "budget_step b (now, Take) = snd (take_retry now b)"

text \<open>The requests noted and the retries granted in a history, with their times.\<close>

definition noted :: "(rat \<times> budget_op) list \<Rightarrow> rat list" where
  "noted ops = map fst (filter (\<lambda>x. snd x = Note) ops)"

fun granted :: "retry_budget \<Rightarrow> (rat \<times> budget_op) list \<Rightarrow> rat list" where
  "granted b [] = []"
| "granted b ((now, Note) # ops) = granted (budget_step b (now, Note)) ops"
| "granted b ((now, Take) # ops) =
     (if fst (take_retry now b) then [now] else []) @ granted (budget_step b (now, Take)) ops"

definition in_window :: "rat \<Rightarrow> rat \<Rightarrow> rat list \<Rightarrow> int" where
  "in_window w now stamps = int (length (filter (\<lambda>s. now - w \<le> s) stamps))"

section \<open>The queues are the window\<close>

lemma granted_snoc:
  "granted b (ops @ [(now, op)]) = granted b ops @
     (if op = Take \<and> fst (take_retry now (foldl budget_step b ops)) then [now] else [])"
  by (induction b ops rule: granted.induct) (cases op; simp)+

lemma dropWhile_filter:
  "sorted xs \<Longrightarrow> dropWhile (\<lambda>s. s < c) xs = filter (\<lambda>s. c \<le> s) (xs :: rat list)"
proof (induction xs)
  case (Cons x xs)
  show ?case
  proof (cases "x < c")
    case False
    then have "\<forall>y \<in> set (x # xs). c \<le> y" using Cons.prems by auto
    then show ?thesis using False by simp
  qed (use Cons in auto)
qed simp

lemma step_settings [simp]:
  "ratio (budget_step b x) = ratio b" "window_s (budget_step b x) = window_s b"
  "budget_floor (budget_step b x) = budget_floor b"
  by (cases x, rename_tac now op, case_tac op;
      simp add: note_request_def take_retry_def retry_snapshot_def trim_def Let_def)+

lemma run_budget_settings [simp]:
  "ratio (foldl budget_step b ops) = ratio b" "window_s (foldl budget_step b ops) = window_s b"
  "budget_floor (foldl budget_step b ops) = budget_floor b"
  by (induction ops arbitrary: b) simp_all

lemma trim_again: "trim now ((trim now b)\<lparr>refused := n\<rparr>) = (trim now b)\<lparr>refused := n\<rparr>"
  by (simp add: trim_def Let_def dropWhile_idem)

lemma take_retry_fields:
  "fst (take_retry now b) \<longleftrightarrow> int (length (retries (trim now b))) < allowed (trim now b)"
  "requests (snd (take_retry now b)) = requests (trim now b)"
  "retries (snd (take_retry now b)) = retries (trim now b) @ (if fst (take_retry now b) then [now] else [])"
proof -
  define c where "c = trim now b"
  have again: "retry_snapshot now (c\<lparr>refused := n\<rparr>) = (fst (retry_snapshot now (c\<lparr>refused := n\<rparr>)), c\<lparr>refused := n\<rparr>)" for n
    using trim_again [of now n b] by (simp add: c_def retry_snapshot_def Let_def)
  have "take_retry now b = (if int (length (retries c)) \<ge> allowed c
      then (False, c\<lparr>refused := refused c + 1,
              refusal_events := refusal_events c @ [fst (retry_snapshot now (c\<lparr>refused := refused c + 1\<rparr>))]\<rparr>)
      else (True, c\<lparr>retries := retries c @ [now]\<rparr>))"
    unfolding take_retry_def Let_def c_def [symmetric] by (subst again) simp
  then show "fst (take_retry now b) \<longleftrightarrow> int (length (retries (trim now b))) < allowed (trim now b)"
    "requests (snd (take_retry now b)) = requests (trim now b)"
    "retries (snd (take_retry now b)) = retries (trim now b) @ (if fst (take_retry now b) then [now] else [])"
    unfolding c_def [symmetric] by simp_all
qed

definition tracks :: "rat \<Rightarrow> rat list \<Rightarrow> rat list \<Rightarrow> retry_budget \<Rightarrow> bool" where
  "tracks t ns gs b \<longleftrightarrow> sorted ns \<and> sorted gs \<and> (\<forall>s \<in> set ns \<union> set gs. s \<le> t)
     \<and> (\<exists>c \<le> t - window_s b. requests b = filter (\<lambda>s. c \<le> s) ns \<and> retries b = filter (\<lambda>s. c \<le> s) gs)"

lemma tracksI:
  "sorted ns \<Longrightarrow> sorted gs \<Longrightarrow> \<forall>s \<in> set ns \<union> set gs. s \<le> t \<Longrightarrow> c \<le> t - window_s b \<Longrightarrow>
     requests b = filter (\<lambda>s. c \<le> s) ns \<Longrightarrow> retries b = filter (\<lambda>s. c \<le> s) gs \<Longrightarrow> tracks t ns gs b"
  by (auto simp: tracks_def)

lemma tracks_trim:
  assumes "tracks t ns gs b" "t \<le> now"
  shows "requests (trim now b) = filter (\<lambda>s. now - window_s b \<le> s) ns"
    "retries (trim now b) = filter (\<lambda>s. now - window_s b \<le> s) gs"
proof -
  obtain c where c: "c \<le> t - window_s b" "requests b = filter (\<lambda>s. c \<le> s) ns"
    "retries b = filter (\<lambda>s. c \<le> s) gs" and s: "sorted ns" "sorted gs"
    using assms(1) by (auto simp: tracks_def)
  have "c \<le> now - window_s b" using c(1) assms(2) by simp
  then have "filter (\<lambda>s. now - window_s b \<le> s) (filter (\<lambda>s. c \<le> s) xs)
      = filter (\<lambda>s. now - window_s b \<le> s) xs" for xs :: "rat list"
    by (induction xs) auto
  then show "requests (trim now b) = filter (\<lambda>s. now - window_s b \<le> s) ns"
    "retries (trim now b) = filter (\<lambda>s. now - window_s b \<le> s) gs"
    using c(2,3) s dropWhile_filter [OF sorted_wrt_filter [OF s(1)]] dropWhile_filter [OF sorted_wrt_filter [OF s(2)]]
    by (simp_all add: trim_def Let_def)
qed

lemma tracks_run:
  assumes "0 \<le> window_s b" "requests b = []" "retries b = []" "sorted (map fst ops)"
    "\<forall>x \<in> set ops. fst x \<le> t"
  shows "tracks t (noted ops) (granted b ops) (foldl budget_step b ops)"
  using assms(4,5)
proof (induction ops arbitrary: t rule: rev_induct)
  case Nil
  then show ?case using assms(2,3) by (auto simp: tracks_def noted_def intro!: exI [of _ "t - window_s b"])
next
  case (snoc x ops)
  obtain now op where x: "x = (now, op)" by (cases x)
  let ?b = "foldl budget_step b ops"
  have le: "\<forall>y \<in> set ops. fst y \<le> now" "now \<le> t" and so: "sorted (map fst ops)"
    using snoc.prems by (auto simp: x sorted_append)
  have IH: "tracks now (noted ops) (granted b ops) ?b" using snoc.IH [OF so le(1)] .
  note tr = tracks_trim [OF IH order_refl]
  have w: "window_s ?b = window_s b" by simp
  have mem: "\<forall>s \<in> set (noted ops) \<union> set (granted b ops). s \<le> now" "sorted (noted ops)" "sorted (granted b ops)"
    using IH by (auto simp: tracks_def)
  have cut: "now - window_s b \<le> t - window_s b" using le(2) by simp
  show ?case
  proof (cases op)
    case Note
    have "noted (ops @ [x]) = noted ops @ [now]" "granted b (ops @ [x]) = granted b ops"
      by (simp_all add: noted_def x Note granted_snoc)
    moreover have "requests (foldl budget_step b (ops @ [x])) = filter (\<lambda>s. now - window_s b \<le> s) (noted ops @ [now])"
      "retries (foldl budget_step b (ops @ [x])) = filter (\<lambda>s. now - window_s b \<le> s) (granted b ops)"
      using tr assms(1) by (simp_all add: x Note note_request_def Let_def w)
    moreover have "\<forall>s \<in> set (noted ops @ [now]) \<union> set (granted b ops). s \<le> t" "sorted (noted ops @ [now])"
      using mem(2,3) le(2) mem(1) order_trans [OF _ le(2)] by (auto simp: sorted_append)
    ultimately show ?thesis
      using mem(3) cut by (intro tracksI [of _ _ _ "now - window_s b"]) simp_all
  next
    case Take
    let ?g = "if fst (take_retry now ?b) then [now] else []"
    have "noted (ops @ [x]) = noted ops" "granted b (ops @ [x]) = granted b ops @ ?g"
      by (simp_all add: noted_def x Take granted_snoc)
    moreover have "requests (foldl budget_step b (ops @ [x])) = filter (\<lambda>s. now - window_s b \<le> s) (noted ops)"
      "retries (foldl budget_step b (ops @ [x])) = filter (\<lambda>s. now - window_s b \<le> s) (granted b ops @ ?g)"
      using tr assms(1) by (simp_all add: x Take take_retry_fields w)
    moreover have "\<forall>s \<in> set (noted ops) \<union> set (granted b ops @ ?g). s \<le> t" "sorted (granted b ops @ ?g)"
      using mem(2,3) le(2) mem(1) order_trans [OF _ le(2)] by (auto simp: sorted_append)
    ultimately show ?thesis
      using mem(2) cut by (intro tracksI [of _ _ _ "now - window_s b"]) simp_all
  qed
qed

section \<open>What the budget promises\<close>

text \<open>A retry is granted exactly when the trailing window has room for it. After any history with
  a clock that does not run backwards, one more retry is granted if and only if the retries granted
  in the last window are fewer than the larger of the floor and the given fraction of the requests
  noted in that window; old stamps never count and none in the window is lost.\<close>

theorem retry_granted_iff_window_has_room:
  fixes r w :: rat and f :: int
  assumes "0 \<le> w" and "sorted (map fst ops)" and "\<forall>x \<in> set ops. fst x \<le> now"
  defines "b \<equiv> new_retry_budget r w f"
  shows "fst (take_retry now (foldl budget_step b ops)) \<longleftrightarrow>
    in_window w now (granted b ops) < max f (py_int (of_int (in_window w now (noted ops)) * r))"
proof -
  have "tracks now (noted ops) (granted b ops) (foldl budget_step b ops)"
    by (rule tracks_run [OF _ _ _ assms(2,3)]) (simp_all add: b_def new_retry_budget_def assms(1))
  note tr = tracks_trim [OF this order_refl]
  have b: "window_s b = w" "ratio b = r" "budget_floor b = f"
    by (simp_all add: b_def new_retry_budget_def)
  show ?thesis
    unfolding take_retry_fields(1) allowed_def in_window_def tr
    by (simp add: b tr trim_def Let_def)
qed

definition example_history :: "(rat \<times> budget_op) list" where
  "example_history = [(0, Note), (1, Take), (1, Take), (2, Take)]"

theorem retry_granted_iff_window_has_room_witness:
  "\<not> fst (take_retry 3 (foldl budget_step (new_retry_budget 0.1 10 3) example_history))
   \<and> fst (take_retry 12 (foldl budget_step (new_retry_budget 0.1 10 3) example_history))"
proof -
  have h: "(0::rat) \<le> 10" "sorted (map fst example_history)" "\<forall>x \<in> set example_history. fst x \<le> 3"
    "\<forall>x \<in> set example_history. fst x \<le> 12"
    by (simp_all add: example_history_def)
  have g: "granted (new_retry_budget 0.1 10 3) example_history = [1, 1, 2]" "noted example_history = [0]"
    by code_simp+
  show ?thesis
    using retry_granted_iff_window_has_room [OF h(1-3), of "0.1" 3]
      retry_granted_iff_window_has_room [OF h(1,2,4), of "0.1" 3]
    by (simp add: g in_window_def py_int_def)
qed

end
