(* ===== verification/Parking.thy ===== *)
theory Parking
  imports Gateway_Settings
begin

text \<open>
  The waiting room for requests whose model has no live target, \<open>control_plane/gateway/parking.py\<close>.
  The gateway runs on one event loop, so what happens between two awaits is one step: a request
  joins (the caller's \<open>accepts\<close> and the enqueueing run without an await between them), a waiter
  takes a turn of its loop, and a waiter that has an outcome leaves. Tickets are numbered in order
  of arrival; the number stands for the ticket's identity.
\<close>

section \<open>State and operations\<close>

declare map_of_eq_Some_iff [simp del]

type_synonym ticket = nat

record parking_lot =
  queues :: "(string, ticket list) dict"
  parked_total :: int
  lot_closed :: bool
  next_ticket :: nat

definition new_lot :: parking_lot where
  "new_lot = \<lparr>queues = [], parked_total = 0, lot_closed = False, next_ticket = 0\<rparr>"

definition parked :: "parking_lot \<Rightarrow> string \<Rightarrow> int" where
  "parked lot name = int (length (dget_or (queues lot) name []))"

definition close_lot :: "parking_lot \<Rightarrow> parking_lot" where
  "close_lot lot = lot\<lparr>lot_closed := True\<rparr>"

definition accepts :: "gateway_settings \<Rightarrow> parking_lot \<Rightarrow> string \<Rightarrow> int \<Rightarrow> bool" where
  "accepts s lot name body_bytes =
     (if lot_closed lot \<or> park_grace_s s \<le> 0 then False
      else if body_bytes > park_max_body_bytes s then False
      else if parked_total lot \<ge> park_max_waiters s then False
      else parked lot name < park_max_per_model s)"

text \<open>\<open>park\<close> up to its loop: the ticket and the deadline it waits until.\<close>

definition join :: "gateway_settings \<Rightarrow> string \<Rightarrow> rat \<Rightarrow> parking_lot \<Rightarrow> (ticket \<times> rat) \<times> parking_lot" where
  "join s name now lot =
     (let t = next_ticket lot in
      ((t, now + park_grace_s s),
       lot\<lparr>queues := dset name (dget_or (queues lot) name [] @ [t]) (queues lot),
           parked_total := parked_total lot + 1, next_ticket := t + 1\<rparr>))"

text \<open>
  One turn of the loop. \<open>select\<close> is consulted only at the head of the line; \<open>hung_up\<close> is what the
  disconnect probe answers. \<open>None\<close> is another wait, of at most the poll interval.
\<close>

datatype 'r outcome = Closed_lot | Recovered_by 'r | Disconnected | Timed_out

definition at_head :: "parking_lot \<Rightarrow> string \<Rightarrow> ticket \<Rightarrow> bool" where
  "at_head lot name t = (case dget_or (queues lot) name [] of [] \<Rightarrow> False | u # _ \<Rightarrow> u = t)"

definition turn ::
  "parking_lot \<Rightarrow> string \<Rightarrow> ticket \<Rightarrow> rat \<Rightarrow> rat \<Rightarrow> 'r option \<Rightarrow> bool \<Rightarrow> 'r outcome option" where
  "turn lot name t deadline now select hung_up =
     (if lot_closed lot then Some Closed_lot
      else case (if at_head lot name t then select else None) of
        Some r \<Rightarrow> Some (Recovered_by r)
      | None \<Rightarrow>
        if hung_up then Some Disconnected
        else if deadline - now \<le> 0 then Some Timed_out
        else None)"

definition wait_for :: "gateway_settings \<Rightarrow> rat \<Rightarrow> rat \<Rightarrow> rat" where
  "wait_for s deadline now = min (park_poll_interval_s s) (deadline - now)"

text \<open>The \<open>finally\<close> block: out of the queue, and the queue goes when it is empty.\<close>

definition leave :: "string \<Rightarrow> ticket \<Rightarrow> parking_lot \<Rightarrow> parking_lot" where
  "leave name t lot =
     (let q = remove1 t (dget_or (queues lot) name []) in
      lot\<lparr>queues := (if q = [] then dpop name (queues lot) else dset name q (queues lot)),
          parked_total := parked_total lot - 1\<rparr>)"

section \<open>The steps of the lot\<close>

inductive lot_step :: "gateway_settings \<Rightarrow> parking_lot \<Rightarrow> parking_lot \<Rightarrow> bool" for s where
  arrive: "accepts s lot name body \<Longrightarrow> lot_step s lot (snd (join s name now lot))"
| depart: "t \<in> set (dget_or (queues lot) name []) \<Longrightarrow>
           turn lot name t deadline now (select :: nat option) hung_up = Some out \<Longrightarrow>
           lot_step s lot (leave name t lot)"
| shut: "lot_step s lot (close_lot lot)"

inductive_cases lot_stepE: "lot_step s lot lot'"

definition queues_total :: "parking_lot \<Rightarrow> int" where
  "queues_total lot = sum_list (map (\<lambda>(name, q). int (length q)) (queues lot))"

definition lot_ok :: "gateway_settings \<Rightarrow> parking_lot \<Rightarrow> bool" where
  "lot_ok s lot \<longleftrightarrow> dict_ok (queues lot) \<and> parked_total lot = queues_total lot
     \<and> 0 \<le> parked_total lot \<and> parked_total lot \<le> max 0 (park_max_waiters s)
     \<and> (\<forall>name q. dget (queues lot) name = Some q \<longrightarrow> q \<noteq> [] \<and> sorted_wrt (<) q
          \<and> (\<forall>t \<in> set q. t < next_ticket lot) \<and> int (length q) \<le> park_max_per_model s)"

lemma lot_queue:
  assumes "lot_ok s lot"
  shows "sorted_wrt (<) (dget_or (queues lot) name [])"
    "\<forall>t \<in> set (dget_or (queues lot) name []). t < next_ticket lot"
  using assms by (cases "dget (queues lot) name"; auto simp: lot_ok_def)+

lemma sum_dset:
  "dict_ok d \<Longrightarrow> sum_list (map (\<lambda>(n, q). int (length q)) (dset k q d))
     = sum_list (map (\<lambda>(n, q). int (length q)) d) - int (length (dget_or d k [])) + int (length q)"
proof (induction d)
  case (Cons p d)
  have "k \<notin> fst ` set d \<Longrightarrow> dget d k = None" by (simp add: map_of_eq_None_iff)
  then show ?case using Cons by (cases p) (auto simp: dget_or_def split: option.splits)
qed (simp add: dget_or_def)

lemma sum_dpop:
  "dict_ok d \<Longrightarrow> sum_list (map (\<lambda>(n, q). int (length q)) (dpop k d))
     = sum_list (map (\<lambda>(n, q). int (length q)) d) - int (length (dget_or d k []))"
proof (induction d)
  case (Cons p d)
  have "k \<notin> fst ` set d \<Longrightarrow> dget d k = None \<and> dpop k d = d"
    by (simp add: map_of_eq_None_iff AList.delete_id)
  then show ?case using Cons by (cases p) (auto simp: dget_or_def split: option.splits)
qed (simp add: dget_or_def)

lemma queue_le_sum:
  "dget d k = Some q \<Longrightarrow> int (length q) \<le> sum_list (map (\<lambda>(n, q). int (length q)) d)"
proof (induction d)
  case (Cons p d)
  moreover have "0 \<le> sum_list (map (\<lambda>(n, q). int (length q)) d)"
    by (rule sum_list_nonneg) auto
  ultimately show ?case by (cases p) (auto split: if_splits)
qed simp

lemma new_lot_ok [keeps]: "lot_ok s new_lot"
  by (simp add: lot_ok_def new_lot_def queues_total_def)

lemma join_keeps [keeps]:
  assumes "lot_ok s lot" "accepts s lot name body"
  shows "lot_ok s (snd (join s name now lot))"
proof -
  let ?q = "dget_or (queues lot) name []"
  have room: "parked_total lot < park_max_waiters s" "int (length ?q) < park_max_per_model s"
    using assms(2) by (auto simp: accepts_def parked_def split: if_splits)
  have "sorted_wrt (<) (?q @ [next_ticket lot])" "\<forall>t \<in> set (?q @ [next_ticket lot]). t < next_ticket lot + 1"
    using lot_queue [OF assms(1), of name] by (auto simp: sorted_wrt_append)
  moreover have "queues_total (snd (join s name now lot)) = queues_total lot + 1"
    using assms(1) by (simp add: queues_total_def join_def Let_def sum_dset lot_ok_def)
  moreover have "\<forall>n q. dget (queues lot) n = Some q \<longrightarrow> (\<forall>t \<in> set q. t < Suc (next_ticket lot))"
    using assms(1) unfolding lot_ok_def by (meson less_SucI)
  ultimately show ?thesis
    using assms(1) room unfolding lot_ok_def
    by (auto simp: join_def Let_def split: if_splits)
qed

lemma leave_keeps [keeps]:
  assumes "lot_ok s lot" "t \<in> set (dget_or (queues lot) name [])"
  shows "lot_ok s (leave name t lot)"
proof -
  let ?q = "dget_or (queues lot) name []" and ?r = "remove1 t (dget_or (queues lot) name [])"
  obtain q where q: "dget (queues lot) name = Some q" "?q = q"
    using assms(2) by (cases "dget (queues lot) name") auto
  have ok: "dict_ok (queues lot)" using assms(1) by (simp add: lot_ok_def)
  have len: "int (length ?r) = int (length ?q) - 1"
    using assms(2) length_pos_if_in_set [OF assms(2)]
    by (simp only: length_remove1 if_True)
  have "int (length ?q) \<le> park_max_per_model s" using q assms(1) by (auto simp: lot_ok_def)
  then have r: "sorted_wrt (<) ?r" "\<forall>t \<in> set ?r. t < next_ticket lot" "int (length ?r) \<le> park_max_per_model s"
    using lot_queue [OF assms(1), of name] q(2) len
    by (auto simp: lot_ok_def strict_sorted_iff sorted_remove1 dest: notin_set_remove1)
  have "queues_total (leave name t lot) = queues_total lot - 1"
    using ok len by (auto simp: queues_total_def leave_def Let_def sum_dset sum_dpop)
  moreover have "1 \<le> queues_total lot"
  proof -
    have "int (length ?q) \<le> queues_total lot"
      unfolding queues_total_def q(2) by (rule queue_le_sum [OF q(1)])
    then show ?thesis using assms(2) length_pos_if_in_set [OF assms(2)] by linarith
  qed
  ultimately show ?thesis
    using assms(1) r unfolding lot_ok_def
    by (auto simp: leave_def Let_def split: if_splits)
qed

lemma close_keeps [keeps]: "lot_ok s lot \<Longrightarrow> lot_ok s (close_lot lot)"
  by (simp add: lot_ok_def close_lot_def queues_total_def)

lemma lot_step_keeps: "lot_step s lot lot' \<Longrightarrow> lot_ok s lot \<Longrightarrow> lot_ok s lot'"
  by (erule lot_stepE) (auto intro: keeps)

lemma lot_run_keeps: "(lot_step s)\<^sup>*\<^sup>* lot lot' \<Longrightarrow> lot_ok s lot \<Longrightarrow> lot_ok s lot'"
  by (induction rule: rtranclp_induct) (auto intro: lot_step_keeps)

section \<open>What the lot promises\<close>

text \<open>The lot is bounded and counts right. In every state the lot can reach, the number of waiters
  it reports is the sum of its queues, it never exceeds the global bound, no model's queue exceeds
  the per-model bound, and no empty queue is kept.\<close>

theorem lot_is_bounded:
  assumes "(lot_step s)\<^sup>*\<^sup>* new_lot lot" and "0 \<le> park_max_waiters s" and "0 \<le> park_max_per_model s"
  shows "parked_total lot = queues_total lot \<and> parked_total lot \<le> park_max_waiters s
    \<and> parked lot name \<le> park_max_per_model s \<and> dget (queues lot) name \<noteq> Some []"
proof -
  have ok: "lot_ok s lot" by (rule lot_run_keeps [OF assms(1) new_lot_ok])
  then show ?thesis
    using assms(2,3) by (cases "dget (queues lot) name") (auto simp: lot_ok_def parked_def)
qed

theorem lot_is_bounded_witness:
  "parked_total (snd (join default_settings ''m'' 0 new_lot)) = 1
   \<and> parked (snd (join default_settings ''m'' 0 new_lot)) ''m'' \<le> park_max_per_model default_settings"
proof -
  have "accepts default_settings new_lot ''m'' 100" by code_simp
  then have "(lot_step default_settings)\<^sup>*\<^sup>* new_lot (snd (join default_settings ''m'' 0 new_lot))"
    by (intro r_into_rtranclp arrive)
  from lot_is_bounded [OF this] show ?thesis
    by (simp add: default_settings_def join_def new_lot_def)
qed

text \<open>A recovering node goes to the request that has waited longest. In every reachable state, a
  waiter whose turn ends in recovery came before every other waiter for the same model, and the
  lot was not closed; at or past its deadline every turn ends with some outcome, and the wait
  between turns never overruns the deadline.\<close>

theorem longest_wait_served_first:
  assumes "(lot_step s)\<^sup>*\<^sup>* new_lot lot"
  shows "(turn lot name t deadline now select hung_up = Some (Recovered_by r) \<longrightarrow>
      t \<in> set (dget_or (queues lot) name []) \<and> select = Some r \<and> \<not> lot_closed lot
      \<and> (\<forall>u \<in> set (dget_or (queues lot) name []). t \<le> u))
    \<and> (deadline \<le> now \<longrightarrow> turn lot name t deadline now select hung_up \<noteq> None)
    \<and> now + wait_for s deadline now \<le> deadline"
proof -
  have ok: "lot_ok s lot" by (rule lot_run_keeps [OF assms new_lot_ok])
  show ?thesis
    using lot_queue(1) [OF ok, of name]
    by (auto simp: turn_def at_head_def wait_for_def less_imp_le split: if_splits list.splits option.splits)
qed

theorem longest_wait_served_first_witness:
  "turn (snd (join default_settings ''m'' 0 new_lot)) ''m'' 0 10 5 (Some ''node'') False = Some (Recovered_by ''node'')
   \<and> 0 \<in> set (dget_or (queues (snd (join default_settings ''m'' 0 new_lot))) ''m'' [])"
proof -
  have "accepts default_settings new_lot ''m'' 100" by code_simp
  then have run: "(lot_step default_settings)\<^sup>*\<^sup>* new_lot (snd (join default_settings ''m'' 0 new_lot))"
    by (intro r_into_rtranclp arrive)
  have t: "turn (snd (join default_settings ''m'' 0 new_lot)) ''m'' 0 10 5 (Some ''node'') False = Some (Recovered_by ''node'')"
    by code_simp
  show ?thesis using longest_wait_served_first [OF run, of "''m''" 0 10 5 "Some ''node''" False "''node''"] t by blast
qed

end
