(* ===== verification/Json.thy ===== *)
theory Json
  imports Prelude
begin

text \<open>
  JSON values as Python reads them, and the conversions the codecs of the control plane apply to
  them. A file written with \<open>json.dump\<close> and read with \<open>json.loads\<close> is its value. What Python prints
  for a value that is not text, and the number it reads out of text, are the parameters of
  \<open>py_text\<close>; nothing proved depends on them.
\<close>

datatype json =
    JNull | JBool bool | JInt int | JNum rat | JStr string
  | JList "json list" | JObj "(string \<times> json) list"

type_synonym json_object = "(string \<times> json) list"

record py_text =
  show_value :: "json \<Rightarrow> string"
  read_float :: "string \<Rightarrow> rat option"
  read_int :: "string \<Rightarrow> int option"

text \<open>The instance the concrete examples use: prints nothing, reads no number out of text.\<close>

definition plain_text :: py_text where
  "plain_text = \<lparr>show_value = \<lambda>j. [], read_float = \<lambda>s. None, read_int = \<lambda>s. None\<rparr>"

section \<open>Conversions\<close>

text \<open>\<open>str()\<close>, \<open>float()\<close>, \<open>int()\<close> and \<open>bool()\<close> of a JSON value.\<close>

fun str_of :: "py_text \<Rightarrow> json \<Rightarrow> string" where
  "str_of py (JStr s) = s"
| "str_of py j = show_value py j"

fun float_of :: "py_text \<Rightarrow> json \<Rightarrow> rat result" where
  "float_of py (JNum x) = Inr x"
| "float_of py (JInt n) = Inr (of_int n)"
| "float_of py (JBool b) = Inr (if b then 1 else 0)"
| "float_of py (JStr s) =
     (case read_float py s of Some x \<Rightarrow> Inr x | None \<Rightarrow> Inl (ValueError ''could not convert string to float''))"
| "float_of py j = Inl (TypeError ''float() argument'')"

fun int_of :: "py_text \<Rightarrow> json \<Rightarrow> int result" where
  "int_of py (JNum x) = Inr (py_int x)"
| "int_of py (JInt n) = Inr n"
| "int_of py (JBool b) = Inr (if b then 1 else 0)"
| "int_of py (JStr s) =
     (case read_int py s of Some n \<Rightarrow> Inr n | None \<Rightarrow> Inl (ValueError ''invalid literal for int()''))"
| "int_of py j = Inl (TypeError ''int() argument'')"

fun truth_of :: "json \<Rightarrow> bool" where
  "truth_of JNull = False"
| "truth_of (JBool b) = b"
| "truth_of (JInt n) = (n \<noteq> 0)"
| "truth_of (JNum x) = (x \<noteq> 0)"
| "truth_of (JStr s) = (s \<noteq> [])"
| "truth_of (JList xs) = (xs \<noteq> [])"
| "truth_of (JObj kvs) = (kvs \<noteq> [])"

text \<open>\<open>d[k]\<close>, and \<open>d.get(k)\<close> whose result is compared with \<open>None\<close>.\<close>

definition item :: "json_object \<Rightarrow> string \<Rightarrow> json result" where
  "item d k = (case dget d k of Some v \<Rightarrow> Inr v | None \<Rightarrow> Inl (KeyError k))"

fun some_unless_null :: "json option \<Rightarrow> json option" where
  "some_unless_null (Some JNull) = None"
| "some_unless_null x = x"

lemma item_Inr [simp]: "dget d k = Some v \<Longrightarrow> item d k = Inr v"
  by (simp add: item_def)

section \<open>Encoders\<close>

definition jopt :: "('a \<Rightarrow> json) \<Rightarrow> 'a option \<Rightarrow> json" where
  "jopt f x = (case x of None \<Rightarrow> JNull | Some v \<Rightarrow> f v)"

lemma jopt_simps [simp]: "jopt f None = JNull" "jopt f (Some v) = f v"
  by (simp_all add: jopt_def)

section \<open>A JSON file\<close>

text \<open>What a path holds: nothing, bytes that cannot be read or parsed, or a value.\<close>

datatype json_file = Absent | Unreadable | Holds json

end
