(* ===== verification/Admission.thy ===== *)
theory Admission
  imports Contracts Gateway_Settings Json
begin

text \<open>
  Admission control, \<open>control_plane/gateway/admission.py\<close>: the reasons a target is not admitting and
  their reconciliation with live telemetry, the token estimate of a request body, the price of a
  request in KV cache, and the ledger of what in-flight requests have committed.

  Two things the source does not define are parameters: \<open>py_str\<close>, Python's \<open>str()\<close> of a JSON value,
  and the optional \<open>kv_bytes_per_token\<close> of the fit port, whose exceptions fall through to the
  fallback. A port that raises is \<open>None\<close>.
\<close>

declare map_of_eq_Some_iff [simp del]

section \<open>State\<close>

datatype admission_event = Blocked string "string list" | Cleared string

record admission_controller =
  adm_blocks :: "(string, string list) dict"
  adm_committed :: "(string, int) dict"
  adm_events :: "admission_event list"

definition new_admission :: admission_controller where
  "new_admission = \<lparr>adm_blocks = [], adm_committed = [], adm_events = []\<rparr>"

definition BLOCK_MEMORY_CRITICAL :: string where "BLOCK_MEMORY_CRITICAL = ''memory_critical''"
definition BLOCK_DRAINING :: string where "BLOCK_DRAINING = ''draining''"
definition BLOCK_RATE_LIMITED :: string where "BLOCK_RATE_LIMITED = ''rate_limited''"

record admission_decision =
  dec_ok :: bool
  status :: int
  code :: string
  dec_message :: "msg option"
  retry_after :: "int option"
  kv_bytes :: int
  prompt_tokens :: int
  requested_tokens :: int

section \<open>Blocking\<close>

definition blocks :: "admission_controller \<Rightarrow> string \<Rightarrow> string list" where
  "blocks a target = dget_or (adm_blocks a) target []"

definition is_blocked :: "admission_controller \<Rightarrow> string \<Rightarrow> bool" where
  "is_blocked a target \<longleftrightarrow> blocks a target \<noteq> []"

definition block :: "string \<Rightarrow> string \<Rightarrow> admission_controller \<Rightarrow> admission_controller" where
  "block target why a =
     (let reasons = blocks a target in
      if why \<in> set reasons then a
      else a\<lparr>adm_blocks := dset target (reasons @ [why]) (adm_blocks a),
             adm_events := adm_events a @ [Blocked target (sort (reasons @ [why]))]\<rparr>)"

definition unblock :: "string \<Rightarrow> string \<Rightarrow> admission_controller \<Rightarrow> admission_controller" where
  "unblock target why a =
     (let reasons = blocks a target; rest = filter (\<lambda>r. r \<noteq> why) reasons in
      if reasons = [] then a
      else if rest = []
      then a\<lparr>adm_blocks := dpop target (adm_blocks a), adm_events := adm_events a @ [Cleared target]\<rparr>
      else a\<lparr>adm_blocks := dset target rest (adm_blocks a)\<rparr>)"

definition set_memory_critical :: "string \<Rightarrow> bool \<Rightarrow> admission_controller \<Rightarrow> admission_controller" where
  "set_memory_critical d critical a =
     (if critical then block d BLOCK_MEMORY_CRITICAL a else unblock d BLOCK_MEMORY_CRITICAL a)"

definition set_draining :: "string \<Rightarrow> bool \<Rightarrow> admission_controller \<Rightarrow> admission_controller" where
  "set_draining d draining a =
     (if draining then block d BLOCK_DRAINING a else unblock d BLOCK_DRAINING a)"

definition nodes_by_id :: "node_state list \<Rightarrow> (string, node_state) dict" where
  "nodes_by_id ns = fold (\<lambda>n d. dset (node_id (profile n)) n d) ns []"

definition node_critical :: "gateway_settings \<Rightarrow> node_state \<Rightarrow> bool" where
  "node_critical s n \<longleftrightarrow>
     (let limit = addressable_memory (profile n) in
      limit > 0 \<and> of_int (memory_used n) / of_int limit \<ge> critical_memory_pct s)"

definition plan_nodes :: "deployment \<Rightarrow> string list" where
  "plan_nodes d = (case dep_plan d of None \<Rightarrow> [] | Some p \<Rightarrow> node_ids p)"

definition pressured :: "gateway_settings \<Rightarrow> (string, node_state) dict \<Rightarrow> deployment \<Rightarrow> bool" where
  "pressured s nodes d \<longleftrightarrow>
     list_ex (\<lambda>i. case dget nodes i of None \<Rightarrow> False | Some n \<Rightarrow> node_critical s n) (plan_nodes d)"

definition unhealthy :: "(string, node_state) dict \<Rightarrow> deployment \<Rightarrow> bool" where
  "unhealthy nodes d \<longleftrightarrow>
     list_ex (\<lambda>i. case dget nodes i of None \<Rightarrow> False | Some n \<Rightarrow> \<not> ns_healthy n) (plan_nodes d)"

definition reconcile_one ::
  "gateway_settings \<Rightarrow> (string, node_state) dict \<Rightarrow> deployment \<Rightarrow> admission_controller \<Rightarrow> admission_controller" where
  "reconcile_one s nodes d a =
     (let i = deployment_id d;
          a = (if pressured s nodes d then block i BLOCK_MEMORY_CRITICAL a
               else unblock i BLOCK_MEMORY_CRITICAL a)
      in if dep_state d \<in> {STOPPING, STOPPED} then block i BLOCK_DRAINING a
         else if unhealthy nodes d \<and> dep_state d = FAILED then block i BLOCK_DRAINING a
         else unblock i BLOCK_DRAINING a)"

definition reconcile ::
  "gateway_settings \<Rightarrow> node_state list option \<Rightarrow> deployment list option \<Rightarrow> admission_controller
    \<Rightarrow> admission_controller" where
  "reconcile s nodes deployments a =
     (case nodes of None \<Rightarrow> a
      | Some ns \<Rightarrow> (case deployments of None \<Rightarrow> a
        | Some ds \<Rightarrow> fold (reconcile_one s (nodes_by_id ns)) ds a))"

section \<open>What a request costs\<close>

definition ADM_KV_ELEMENT_BYTES :: "(string, rat) dict" where
  "ADM_KV_ELEMENT_BYTES = [(''fp32'', 4), (''float32'', 4), (''bf16'', 2), (''bfloat16'', 2), (''fp16'', 2),
     (''float16'', 2), (''fp8'', 1), (''float8'', 1), (''fp8_e5m2'', 1), (''fp8_e4m3'', 1), (''int8'', 1)]"

definition kv_bytes_per_token_fallback :: "model_shape \<Rightarrow> string \<Rightarrow> rat result" where
  "kv_bytes_per_token_fallback s d =
     (let elem = dget_or ADM_KV_ELEMENT_BYTES (str_lower d) 2 in
      if truthy (mla_latent_dim s)
      then Inr (of_int (num_layers s * (the (mla_latent_dim s) + effective_mla_rope_dim s)) * elem)
      else mapR (\<lambda>h. 2 * of_int (num_layers s) * of_int (num_kv_heads s) * of_int h * elem)
             (effective_head_dim s))"

type_synonym kv_estimator = "(model_shape \<Rightarrow> string \<Rightarrow> rat result) option"

definition adm_kv_bytes_per_token :: "kv_estimator \<Rightarrow> model_shape \<Rightarrow> string \<Rightarrow> rat result" where
  "adm_kv_bytes_per_token fit s d =
     (case fit of None \<Rightarrow> kv_bytes_per_token_fallback s d
      | Some f \<Rightarrow> (case f s d of Inr x \<Rightarrow> Inr x | Inl _ \<Rightarrow> kv_bytes_per_token_fallback s d))"

definition str_length :: "json \<Rightarrow> int" where
  "str_length j = (case j of JStr t \<Rightarrow> int (length t) | _ \<Rightarrow> 0)"

definition part_chars :: "json \<Rightarrow> int" where
  "part_chars part = (case part of
     JObj obj \<Rightarrow> (case dget obj ''text'' of Some t \<Rightarrow> str_length t | None \<Rightarrow> 0) | _ \<Rightarrow> 0)"

definition content_chars :: "(json \<Rightarrow> string) \<Rightarrow> json option \<Rightarrow> int" where
  "content_chars py_str content = (case content of
     None \<Rightarrow> 0
   | Some JNull \<Rightarrow> 0
   | Some (JStr t) \<Rightarrow> int (length t)
   | Some (JList parts) \<Rightarrow> sum_list (map part_chars parts)
   | Some j \<Rightarrow> int (length (py_str j)))"

definition message_content :: "json \<Rightarrow> json option" where
  "message_content m = (case m of JObj obj \<Rightarrow> dget obj ''content'' | _ \<Rightarrow> None)"

definition text_or_list_chars :: "json option \<Rightarrow> int" where
  "text_or_list_chars v = (case v of
     Some (JStr t) \<Rightarrow> int (length t)
   | Some (JList items) \<Rightarrow> sum_list (map str_length items)
   | _ \<Rightarrow> 0)"

definition estimate_prompt_tokens :: "gateway_settings \<Rightarrow> (json \<Rightarrow> string) \<Rightarrow> json_object \<Rightarrow> int" where
  "estimate_prompt_tokens s py_str body =
     (let cpt = max 1 (chars_per_token s);
          messages = (case dget body ''messages'' of Some (JList ms) \<Rightarrow> ms | _ \<Rightarrow> []);
          overhead = tokens_per_message_overhead s * int (length messages);
          chars = sum_list (map (content_chars py_str \<circ> message_content) messages)
                + text_or_list_chars (dget body ''prompt'') + text_or_list_chars (dget body ''input'')
      in py_int (of_int chars / cpt) + overhead)"

text \<open>A JSON \<open>true\<close> is an integer to \<open>isinstance\<close>, and is 1.\<close>

definition positive_int :: "json option \<Rightarrow> int option" where
  "positive_int v = (case v of
     Some (JInt n) \<Rightarrow> if n > 0 then Some n else None
   | Some (JBool b) \<Rightarrow> if b then Some 1 else None
   | _ \<Rightarrow> None)"

definition explicit_max_tokens :: "json_object \<Rightarrow> int option" where
  "explicit_max_tokens body =
     (case positive_int (dget body ''max_tokens'') of
        Some n \<Rightarrow> Some n | None \<Rightarrow> positive_int (dget body ''max_completion_tokens''))"

definition kv_budget :: "gateway_settings \<Rightarrow> deployment \<Rightarrow> int" where
  "kv_budget s d =
     (let kv = (case dep_fit d of None \<Rightarrow> 0 | Some r \<Rightarrow> mb_kv_cache (fr_breakdown r))
      in py_int (of_int kv * kv_budget_fraction s))"

definition adm_kv_divisor :: "deployment \<Rightarrow> int" where
  "adm_kv_divisor d =
     (case dep_plan d of None \<Rightarrow> 1 | Some p \<Rightarrow> max 1 (tensor_parallel p * pipeline_parallel p))"

definition committed :: "admission_controller \<Rightarrow> string \<Rightarrow> int" where
  "committed a i = dget_or (adm_committed a) i 0"

section \<open>The gate\<close>

definition admission_check ::
  "gateway_settings \<Rightarrow> kv_estimator \<Rightarrow> (json \<Rightarrow> string) \<Rightarrow> admission_controller \<Rightarrow> deployment
    \<Rightarrow> json_object \<Rightarrow> admission_decision result" where
  "admission_check s fit py_str a d body =
     (let prompt = estimate_prompt_tokens s py_str body;
          explicit = explicit_max_tokens body;
          limit = dep_context_length d;
          hard = prompt + (case explicit of None \<Rightarrow> 0 | Some n \<Rightarrow> n)
      in
      if limit \<noteq> 0 \<and> hard > limit then
        Inr \<lparr>dec_ok = False, status = 400, code = ''context_length_exceeded'',
             dec_message = Some (Msg ''Request needs more tokens than the context length''
               [I hard, I prompt, I (case explicit of None \<Rightarrow> 0 | Some n \<Rightarrow> n), S (served_name d), I limit]),
             retry_after = None, kv_bytes = 0, prompt_tokens = prompt, requested_tokens = hard\<rparr>
      else
        let requested = prompt + (case explicit of None \<Rightarrow> assumed_max_tokens s | Some n \<Rightarrow> n) in
        bindR (adm_kv_bytes_per_token fit (dep_shape d) (default_kv_dtype s)) (\<lambda>per_token.
          let cost = py_int (per_token * of_int requested / of_int (adm_kv_divisor d));
              budget = kv_budget s d; used = committed a (deployment_id d)
          in if budget > 0 \<and> used + cost > budget then
               Inr \<lparr>dec_ok = False, status = 429, code = ''kv_cache_exhausted'',
                    dec_message = Some (Msg ''Retry when in-flight requests complete''
                      [S (served_name d), I (max 0 (budget - used)), I cost]),
                    retry_after = Some (retry_after_default_s s), kv_bytes = cost,
                    prompt_tokens = prompt, requested_tokens = requested\<rparr>
             else
               Inr \<lparr>dec_ok = True, status = 200, code = [], dec_message = None, retry_after = None,
                    kv_bytes = cost, prompt_tokens = prompt, requested_tokens = requested\<rparr>))"

definition commit_kv :: "string \<Rightarrow> int \<Rightarrow> admission_controller \<Rightarrow> admission_controller" where
  "commit_kv i n a = a\<lparr>adm_committed := dset i (committed a i + n) (adm_committed a)\<rparr>"

definition release_kv :: "string \<Rightarrow> int \<Rightarrow> admission_controller \<Rightarrow> admission_controller" where
  "release_kv i n a =
     (let remaining = committed a i - n in
      if remaining > 0 then a\<lparr>adm_committed := dset i remaining (adm_committed a)\<rparr>
      else a\<lparr>adm_committed := dpop i (adm_committed a)\<rparr>)"

end
