(* ===== verification/Admission_Ledger.thy ===== *)
theory Admission_Ledger
  imports Admission Fit_Check
begin

text \<open>
  What admission control of \<open>control_plane/gateway/admission.py\<close> promises: the ledger of committed KV
  cache is exact and within the budget the fit gate granted, reconciliation decides the two block
  reasons it owns and nothing else, and where its price of a request and the gate's size of the
  cache disagree.
\<close>

section \<open>Reasons\<close>

lemma blocks_block: "blocks (block t why a) u =
    (if u = t \<and> why \<notin> set (blocks a t) then blocks a t @ [why] else blocks a u)"
  by (simp add: block_def blocks_def dget_or_def Let_def)

lemma blocks_unblock: "blocks (unblock t why a) u =
    (if u = t then filter (\<lambda>r. r \<noteq> why) (blocks a t) else blocks a u)"
  by (auto simp: unblock_def blocks_def dget_or_def Let_def split: option.splits)

lemma set_blocks [simp]:
  "set (blocks (block t why a) u) = set (blocks a u) \<union> (if u = t then {why} else {})"
  "set (blocks (unblock t why a) u) = set (blocks a u) - (if u = t then {why} else {})"
  by (auto simp: blocks_block blocks_unblock)

lemma reasons_differ [simp]: "BLOCK_MEMORY_CRITICAL \<noteq> BLOCK_DRAINING" "BLOCK_DRAINING \<noteq> BLOCK_MEMORY_CRITICAL"
  by (simp_all add: BLOCK_MEMORY_CRITICAL_def BLOCK_DRAINING_def)

definition drains :: "(string, node_state) dict \<Rightarrow> deployment \<Rightarrow> bool" where
  "drains nodes d \<longleftrightarrow> dep_state d \<in> {STOPPING, STOPPED} \<or> unhealthy nodes d \<and> dep_state d = FAILED"

definition decided :: "gateway_settings \<Rightarrow> (string, node_state) dict \<Rightarrow> deployment \<Rightarrow> string set \<Rightarrow> string set" where
  "decided s nodes d reasons = (reasons - {BLOCK_MEMORY_CRITICAL, BLOCK_DRAINING})
     \<union> (if pressured s nodes d then {BLOCK_MEMORY_CRITICAL} else {})
     \<union> (if drains nodes d then {BLOCK_DRAINING} else {})"

lemma blocks_reconcile_one:
  "set (blocks (reconcile_one s nodes d a) u) =
     (if u = deployment_id d then decided s nodes d (set (blocks a u)) else set (blocks a u))"
  by (auto simp: reconcile_one_def decided_def drains_def Let_def)

lemma blocks_reconcile_other:
  "u \<notin> deployment_id ` set ds \<Longrightarrow> set (blocks (fold (reconcile_one s nodes) ds a) u) = set (blocks a u)"
  by (induction ds arbitrary: a) (simp_all add: blocks_reconcile_one)

lemma blocks_reconcile_listed:
  assumes "distinct (map deployment_id ds)" "d \<in> set ds"
  shows "set (blocks (fold (reconcile_one s nodes) ds a) (deployment_id d))
    = decided s nodes d (set (blocks a (deployment_id d)))"
  using assms
proof (induction ds arbitrary: a)
  case (Cons e ds)
  show ?case
  proof (cases "d = e")
    case True
    then have "deployment_id d \<notin> deployment_id ` set ds" using Cons.prems(1) by auto
    then show ?thesis using True by (simp add: blocks_reconcile_other blocks_reconcile_one)
  next
    case False
    then have d: "d \<in> set ds" using Cons.prems(2) by simp
    then have "deployment_id d \<noteq> deployment_id e"
      using Cons.prems(1) by (auto simp: image_iff)
    then show ?thesis
      using Cons.IH [of "reconcile_one s nodes e a"] d Cons.prems(1) by (simp add: blocks_reconcile_one)
  qed
qed simp

text \<open>Reconciliation owns two reasons and decides them from telemetry alone. After a pass, a
  listed deployment is blocked for memory exactly when a node of its plan is at the critical
  fraction, and for draining exactly when it is stopping, stopped, or failed on an unhealthy node,
  whatever was set before; every other reason, and every target not listed, is left as it was.\<close>

theorem reconcile_decides:
  fixes s :: gateway_settings and ns :: "node_state list" and a :: admission_controller
  assumes "distinct (map deployment_id ds)" and "d \<in> set ds"
  defines "a' \<equiv> reconcile s (Some ns) (Some ds) a"
  shows "(BLOCK_MEMORY_CRITICAL \<in> set (blocks a' (deployment_id d)) \<longleftrightarrow> pressured s (nodes_by_id ns) d)
    \<and> (BLOCK_DRAINING \<in> set (blocks a' (deployment_id d)) \<longleftrightarrow> drains (nodes_by_id ns) d)
    \<and> (\<forall>why. why \<notin> {BLOCK_MEMORY_CRITICAL, BLOCK_DRAINING} \<longrightarrow>
         (why \<in> set (blocks a' (deployment_id d)) \<longleftrightarrow> why \<in> set (blocks a (deployment_id d))))
    \<and> (\<forall>u. u \<notin> deployment_id ` set ds \<longrightarrow> set (blocks a' u) = set (blocks a u))"
  using blocks_reconcile_listed [OF assms(1,2)] blocks_reconcile_other
  by (simp add: a'_def reconcile_def decided_def)

section \<open>The ledger\<close>

lemma committed_commit: "committed (commit_kv i n a) j = (if j = i then committed a i + n else committed a j)"
  by (simp add: committed_def commit_kv_def dget_or_def)

lemma committed_release: "committed (release_kv i n a) j = (if j = i then max 0 (committed a i - n) else committed a j)"
  by (auto simp: committed_def release_kv_def dget_or_def Let_def)

lemma chars_nonneg: "0 \<le> content_chars f c" "0 \<le> text_or_list_chars v"
proof -
  have 1: "0 \<le> str_length j" for j by (cases j) (simp_all add: str_length_def)
  then have 2: "0 \<le> part_chars j" for j by (auto simp: part_chars_def split: json.splits option.splits)
  show "0 \<le> content_chars f c"
    using 2 by (auto simp: content_chars_def intro!: sum_list_nonneg split: json.splits option.splits)
  show "0 \<le> text_or_list_chars v"
    using 1 by (auto simp: text_or_list_chars_def intro!: sum_list_nonneg split: json.splits option.splits)
qed

lemma prompt_tokens_nonneg:
  assumes "0 \<le> tokens_per_message_overhead s"
  shows "0 \<le> estimate_prompt_tokens s f body"
proof -
  have "0 \<le> sum_list (map (content_chars f \<circ> message_content) ms)" for ms
    by (rule sum_list_nonneg) (auto simp: chars_nonneg)
  then have "0 \<le> (of_int (sum_list (map (content_chars f \<circ> message_content) ms)
      + text_or_list_chars x + text_or_list_chars y) / max 1 (chars_per_token s) :: rat)" for ms x y
    using chars_nonneg(2) by (intro divide_nonneg_nonneg of_int_nonneg add_nonneg_nonneg) auto
  then show ?thesis
    using assms unfolding estimate_prompt_tokens_def Let_def
    by (intro add_nonneg_nonneg py_int_nonneg mult_nonneg_nonneg) auto
qed

lemma explicit_positive: "explicit_max_tokens body = Some n \<Longrightarrow> 0 < n"
  by (auto simp: explicit_max_tokens_def positive_int_def split: option.splits json.splits if_splits)

definition prices_ok :: "gateway_settings \<Rightarrow> kv_estimator \<Rightarrow> deployment \<Rightarrow> bool" where
  "prices_ok s fit d \<longleftrightarrow> 0 \<le> tokens_per_message_overhead s \<and> 0 \<le> assumed_max_tokens s
     \<and> (\<forall>x. adm_kv_bytes_per_token fit (dep_shape d) (default_kv_dtype s) = Inr x \<longrightarrow> 0 \<le> x)"

lemma check_ok:
  assumes "admission_check s fit f a d body = Inr dec" "dec_ok dec" "prices_ok s fit d"
  shows "0 \<le> kv_bytes dec"
    "kv_budget s d > 0 \<Longrightarrow> committed a (deployment_id d) + kv_bytes dec \<le> kv_budget s d"
    "dep_context_length d \<noteq> 0 \<Longrightarrow> estimate_prompt_tokens s f body
       + (case explicit_max_tokens body of None \<Rightarrow> 0 | Some n \<Rightarrow> n) \<le> dep_context_length d"
proof -
  let ?p = "estimate_prompt_tokens s f body"
  let ?r = "?p + (case explicit_max_tokens body of None \<Rightarrow> assumed_max_tokens s | Some n \<Rightarrow> n)"
  obtain x where x: "adm_kv_bytes_per_token fit (dep_shape d) (default_kv_dtype s) = Inr x"
    and kv: "kv_bytes dec = py_int (x * of_int ?r / of_int (adm_kv_divisor d))"
    and fits: "kv_budget s d > 0 \<longrightarrow> committed a (deployment_id d) + kv_bytes dec \<le> kv_budget s d"
    and ctx: "dep_context_length d \<noteq> 0 \<longrightarrow> ?p
       + (case explicit_max_tokens body of None \<Rightarrow> 0 | Some n \<Rightarrow> n) \<le> dep_context_length d"
    using assms(1,2) by (auto simp: admission_check_def Let_def bindR_eq_Inr split: if_splits)
  have "0 \<le> ?r"
    using prompt_tokens_nonneg [of s f body] assms(3) explicit_positive [of body]
    by (auto simp: prices_ok_def split: option.splits intro: add_nonneg_nonneg less_imp_le)
  moreover have "0 \<le> x" using assms(3) x by (simp add: prices_ok_def)
  moreover have "0 \<le> adm_kv_divisor d" by (auto simp: adm_kv_divisor_def split: option.splits)
  ultimately have "0 \<le> x * of_int ?r / of_int (adm_kv_divisor d)"
    by (intro divide_nonneg_nonneg mult_nonneg_nonneg of_int_nonneg)
  then show "0 \<le> kv_bytes dec" unfolding kv by (rule py_int_nonneg)
  show "kv_budget s d > 0 \<Longrightarrow> committed a (deployment_id d) + kv_bytes dec \<le> kv_budget s d"
    using fits by blast
  show "dep_context_length d \<noteq> 0 \<Longrightarrow> ?p
       + (case explicit_max_tokens body of None \<Rightarrow> 0 | Some n \<Rightarrow> n) \<le> dep_context_length d"
    using ctx by blast
qed

text \<open>
  The life of one deployment's ledger beside the requests in flight on it: the gateway commits what
  an accepted check charged, and releases exactly that when the request finishes.
\<close>

inductive ledger_step ::
  "gateway_settings \<Rightarrow> kv_estimator \<Rightarrow> (json \<Rightarrow> string) \<Rightarrow> deployment
    \<Rightarrow> admission_controller \<times> int list \<Rightarrow> admission_controller \<times> int list \<Rightarrow> bool" for s fit f d where
  admit: "admission_check s fit f a d body = Inr dec \<Longrightarrow> dec_ok dec \<Longrightarrow>
    ledger_step s fit f d (a, out) (commit_kv (deployment_id d) (kv_bytes dec) a, kv_bytes dec # out)"
| finish: "k \<in> set out \<Longrightarrow>
    ledger_step s fit f d (a, out) (release_kv (deployment_id d) k a, remove1 k out)"
| commit_elsewhere: "i \<noteq> deployment_id d \<Longrightarrow> ledger_step s fit f d (a, out) (commit_kv i n a, out)"
| release_elsewhere: "i \<noteq> deployment_id d \<Longrightarrow> ledger_step s fit f d (a, out) (release_kv i n a, out)"

inductive_cases ledger_stepE: "ledger_step s fit f d x y"

definition ledger_ok :: "gateway_settings \<Rightarrow> deployment \<Rightarrow> admission_controller \<times> int list \<Rightarrow> bool" where
  "ledger_ok s d x \<longleftrightarrow> (case x of (a, out) \<Rightarrow>
     committed a (deployment_id d) = sum_list out \<and> (\<forall>k \<in> set out. 0 \<le> k)
     \<and> (kv_budget s d > 0 \<longrightarrow> sum_list out \<le> kv_budget s d))"

lemma sum_remove1: "k \<in> set xs \<Longrightarrow> sum_list (remove1 k xs) = sum_list xs - (k :: int)"
  by (induction xs) auto

lemma ledger_step_keeps:
  assumes "ledger_step s fit f d x y" "ledger_ok s d x" "prices_ok s fit d"
  shows "ledger_ok s d y"
  using assms(1)
proof (cases rule: ledger_step.cases)
  case (admit a body dec out)
  then show ?thesis
    using assms(2) check_ok(1,2) [OF admit(3,4) assms(3)] by (auto simp: ledger_ok_def committed_commit)
next
  case (finish k out a)
  have "0 \<le> sum_list (remove1 k out)"
    by (rule sum_list_nonneg) (use assms(2) finish in \<open>auto simp: ledger_ok_def dest: notin_set_remove1\<close>)
  then show ?thesis
    using assms(2) finish sum_remove1 [OF finish(3)]
    by (auto simp: ledger_ok_def committed_release dest: notin_set_remove1)
qed (use assms(2) in \<open>auto simp: ledger_ok_def committed_commit committed_release\<close>)

text \<open>C10: the ledger is exact and never over the budget. In every state reachable from an empty
  ledger by admitting checked requests and finishing them in any order, with other deployments
  committing and releasing meanwhile, what is committed is the sum of what is in flight, and where
  the fit gate granted a budget that sum is within it; so a ledger with nothing in flight is at
  zero again.\<close>

theorem admitted_load_within_budget:
  assumes "(ledger_step s fit f d)\<^sup>*\<^sup>* (new_admission, []) (a, out)" and "prices_ok s fit d"
  shows "committed a (deployment_id d) = sum_list out
    \<and> (0 < kv_budget s d \<longrightarrow> committed a (deployment_id d) \<le> kv_budget s d)
    \<and> (out = [] \<longrightarrow> committed a (deployment_id d) = 0)"
proof -
  have "ledger_ok s d (a, out)"
    using assms(1)
  proof (induction rule: rtranclp_induct)
    case base
    show ?case by (simp add: ledger_ok_def committed_def new_admission_def less_imp_le)
  qed (use assms(2) ledger_step_keeps in blast)
  then show ?thesis by (simp add: ledger_ok_def)
qed

section \<open>A deployment sized by the gate\<close>

definition bare_deployment :: deployment where
  "bare_deployment = \<lparr>deployment_id = ''d1'', served_name = ''m'', dep_shape = example_shape,
     dep_plan = Some (synthetic_plan 1 1), dep_fit = None, runtime = ''vllm'', dep_state = READY,
     backend_url = Some ''http://n1'', dep_context_length = 8192, dep_max_concurrent_seqs = 1,
     started_at = None, dep_last_error = None, dep_modality = TEXT, extra_args = [], custom_command = []\<rparr>"

definition sized_deployment :: "fit_result \<Rightarrow> deployment" where
  "sized_deployment r = bare_deployment\<lparr>dep_fit := Some r\<rparr>"

definition sized_request :: fit_request where
  "sized_request = example_request\<lparr>max_concurrent_seqs := 1, kv_dtype := ''fp16''\<rparr>"

definition ask :: "int \<Rightarrow> json_object" where
  "ask n = [(''prompt'', JStr ''hello''), (''max_tokens'', JInt n)]"

lemma sized_prices: "prices_ok default_settings None (sized_deployment r)"
proof -
  have "adm_kv_bytes_per_token None example_shape ''fp16'' = Inr 73728" by code_simp
  then show ?thesis by (simp add: prices_ok_def default_settings_def sized_deployment_def bare_deployment_def)
qed

theorem reconcile_decides_witness:
  "BLOCK_MEMORY_CRITICAL \<notin> set (blocks (reconcile default_settings (Some []) (Some [bare_deployment])
       (set_memory_critical ''d1'' True new_admission)) ''d1'')"
  using reconcile_decides [of "[bare_deployment]" bare_deployment default_settings "[]"
      "set_memory_critical ''d1'' True new_admission"]
  by (simp add: bare_deployment_def pressured_def nodes_by_id_def plan_nodes_def synthetic_plan_def)

text \<open>
  The gate sizes the cache of a windowed model for its window; admission charges every token at the
  full rate. A request within the context the gate accepted is refused while nothing is in flight.
\<close>

lemma windowed_request_refused_idle:
  "(case fit_check example_calculator sized_request [example_node] None of
      Inr r \<Rightarrow> fit_ok r \<and> (case admission_check default_settings None (\<lambda>_. []) new_admission
                 (sized_deployment r) (ask 4500) of
          Inr dec \<Rightarrow> \<not> dec_ok dec \<and> status dec = 429 | Inl e \<Rightarrow> False)
    | Inl e \<Rightarrow> False)"
  by code_simp

theorem admitted_load_within_budget_witness:
  "\<exists>r dec. fit_check example_calculator sized_request [example_node] None = Inr r
    \<and> admission_check default_settings None (\<lambda>_. []) new_admission (sized_deployment r) (ask 1000) = Inr dec
    \<and> 0 < kv_bytes dec
    \<and> committed (commit_kv ''d1'' (kv_bytes dec) new_admission) ''d1'' = kv_bytes dec
    \<and> committed (commit_kv ''d1'' (kv_bytes dec) new_admission) ''d1'' \<le> kv_budget default_settings (sized_deployment r)"
proof -
  have "(case fit_check example_calculator sized_request [example_node] None of
      Inr r \<Rightarrow> (case admission_check default_settings None (\<lambda>_. []) new_admission (sized_deployment r) (ask 1000) of
          Inr dec \<Rightarrow> dec_ok dec \<and> 0 < kv_bytes dec \<and> 0 < kv_budget default_settings (sized_deployment r)
        | Inl e \<Rightarrow> False) | Inl e \<Rightarrow> False)"
    by code_simp
  then obtain r dec where r: "fit_check example_calculator sized_request [example_node] None = Inr r"
    "admission_check default_settings None (\<lambda>_. []) new_admission (sized_deployment r) (ask 1000) = Inr dec"
    "dec_ok dec" "0 < kv_bytes dec" "0 < kv_budget default_settings (sized_deployment r)"
    by (auto split: sum.splits)
  have "(ledger_step default_settings None (\<lambda>_. []) (sized_deployment r))\<^sup>*\<^sup>* (new_admission, [])
      (commit_kv (deployment_id (sized_deployment r)) (kv_bytes dec) new_admission, [kv_bytes dec])"
    by (rule r_into_rtranclp) (rule admit [OF r(2,3)])
  from admitted_load_within_budget [OF this sized_prices] show ?thesis
    using r by (simp add: sized_deployment_def bare_deployment_def)
qed

text \<open>
  For a model with a latent cache, the gate holds the whole cache on every tensor rank and
  admission divides it among them.
\<close>

lemma latent_cache_divided:
  "let s = example_shape\<lparr>mla_latent_dim := Some 512\<rparr>; p = synthetic_plan 4 1 in
     kv_divisor s p = Inr 1 \<and> adm_kv_divisor ((sized_deployment r)\<lparr>dep_shape := s, dep_plan := Some p\<rparr>) = 4"
proof -
  have "kv_divisor (example_shape\<lparr>mla_latent_dim := Some 512\<rparr>) (synthetic_plan 4 1) = Inr 1" by code_simp
  then show ?thesis by (simp add: adm_kv_divisor_def synthetic_plan_def)
qed

end
