(* ===== verification/Policies.thy ===== *)
theory Policies
  imports Contracts Gateway_Settings "HOL-Library.Word"
begin

text \<open>
  The seven routing policies, \<open>control_plane/gateway/policies.py\<close>. A selector reads the targets
  of one model and its mutable selection state and returns its choice with the new state. The
  SHA-256 digest that cache affinity hashes a prefix with is a parameter.
\<close>

section \<open>State\<close>

record route_context =
  ctx_served_name :: string
  prefix_key :: "string option"
  ctx_now :: rat

record policy_state =
  rr_cursor :: int
  swrr_credits :: "(string, rat) dict"
  sticky :: "(string, string \<times> rat) dict"
  ps_capacity :: "(string, int) dict"
  ps_remote_priority :: "(string, int) dict"

definition new_policy_state :: policy_state where
  "new_policy_state = \<lparr>rr_cursor = 0, swrr_credits = [], sticky = [], ps_capacity = [], ps_remote_priority = []\<rparr>"

type_synonym selector_fun =
  "route_target list \<Rightarrow> policy_state \<Rightarrow> route_context \<Rightarrow> gateway_settings \<Rightarrow> route_target option \<times> policy_state"

section \<open>Shared parts\<close>

definition eligible :: "route_target list \<Rightarrow> route_target list" where
  "eligible targets = filter (\<lambda>t. healthy t \<and> admitting t) targets"

definition least_outstanding :: "route_target list \<Rightarrow> route_target option" where
  "least_outstanding targets = min_by (\<lambda>t. (outstanding t, target_id t)) targets"

definition stable_order :: "route_target list \<Rightarrow> route_target list" where
  "stable_order targets =
     sort_key (\<lambda>t. (if target_kind t = LOCAL then 0 else 1 :: int, target_id t)) targets"

definition is_saturated :: "route_target \<Rightarrow> policy_state \<Rightarrow> bool" where
  "is_saturated t st =
     (case dget (ps_capacity st) (target_id t) of
        None \<Rightarrow> False
      | Some cap \<Rightarrow> if cap \<le> 0 then False else outstanding t \<ge> cap)"

section \<open>Hedging\<close>

definition may_hedge :: "routing_config \<Rightarrow> route_target \<Rightarrow> route_target \<Rightarrow> gateway_settings \<Rightarrow> bool" where
  "may_hedge config leader candidate s =
     (if policy config = LOCAL_FIRST then False
      else if target_id candidate = target_id leader then False
      else strength candidate \<ge> strength leader * weak_target_floor s)"

definition hedge_candidate ::
  "routing_config \<Rightarrow> route_target \<Rightarrow> gateway_settings \<Rightarrow> string list \<Rightarrow> route_target option" where
  "hedge_candidate config leader s exclude =
     (let pool = filter (\<lambda>t. target_id t \<noteq> target_id leader \<and> target_id t \<notin> set exclude)
                   (eligible (rc_targets config))
      in case max_by (\<lambda>t. (strength t, target_id t)) pool of
           None \<Rightarrow> None
         | Some best \<Rightarrow> if may_hedge config leader best s then Some best else None)"

text \<open>The first eight bytes of the digest, read big end first.\<close>

definition prefix_hash :: "(string \<Rightarrow> 8 word list) \<Rightarrow> string \<Rightarrow> int" where
  "prefix_hash digest key = foldl (\<lambda>a b. 256 * a + uint b) 0 (take 8 (digest key))"

section \<open>The policies\<close>

definition select_least_outstanding :: selector_fun where
  "select_least_outstanding targets st ctx s = (least_outstanding (eligible targets), st)"

definition select_round_robin :: selector_fun where
  "select_round_robin targets st ctx s =
     (let pool = stable_order (eligible targets); n = int (length pool) in
      if pool = [] then (None, st)
      else (Some (pool ! nat (rr_cursor st mod n)), st\<lparr>rr_cursor := (rr_cursor st + 1) mod n\<rparr>))"

text \<open>The loop of the smooth weighted round robin: every target earns its weight, the richest leads.\<close>

fun swrr_loop ::
  "route_target list \<Rightarrow> (route_target \<times> rat) option \<Rightarrow> (string, rat) dict
    \<Rightarrow> (route_target \<times> rat) option \<times> (string, rat) dict" where
  "swrr_loop [] best credits = (best, credits)"
| "swrr_loop (t # ts) best credits =
     (let credit = dget_or credits (target_id t) 0 + weight t;
          credits = dset (target_id t) credit credits
      in case best of
           None \<Rightarrow> swrr_loop ts (Some (t, credit)) credits
         | Some (b, best_credit) \<Rightarrow>
             if credit > best_credit \<or> credit = best_credit \<and> target_id t < target_id b
             then swrr_loop ts (Some (t, credit)) credits
             else swrr_loop ts best credits)"

definition select_weighted_capacity :: selector_fun where
  "select_weighted_capacity targets st ctx s =
     (let pool = eligible targets in
      if pool = [] then (None, st)
      else let weighted = filter (\<lambda>t. weight t > 0) pool in
        if weighted = [] then (least_outstanding pool, st)
        else let tw = sum_list (map weight weighted) in
          (case swrr_loop weighted None (swrr_credits st) of
             (None, credits) \<Rightarrow> (None, st\<lparr>swrr_credits := credits\<rparr>)
           | (Some (best, best_credit), credits) \<Rightarrow>
               (Some best, st\<lparr>swrr_credits := dset (target_id best) (best_credit - tw) credits\<rparr>)))"

text \<open>The target a live sticky entry pins this prefix to, if it can still be used.\<close>

definition pinned_target :: "route_target list \<Rightarrow> policy_state \<Rightarrow> rat \<Rightarrow> string \<Rightarrow> route_target option" where
  "pinned_target locals st now key =
     (case dget (sticky st) key of
        None \<Rightarrow> None
      | Some (tid, until) \<Rightarrow>
          if until > now
          then case find (\<lambda>t. target_id t = tid) locals of
                 None \<Rightarrow> None
               | Some t \<Rightarrow> if healthy t \<and> admitting t then Some t else None
          else None)"

definition select_cache_affinity :: "(string \<Rightarrow> 8 word list) \<Rightarrow> selector_fun" where
  "select_cache_affinity digest targets st ctx s =
     (let locals = stable_order (filter (\<lambda>t. target_kind t = LOCAL) targets);
          fallback = least_outstanding (eligible targets);
          ttl = sticky_ttl_s s
      in case prefix_key ctx of
           None \<Rightarrow> (fallback, st)
         | Some key \<Rightarrow>
             if locals = [] \<or> key = [] then (fallback, st)
             else case (if ttl > 0 then pinned_target locals st (ctx_now ctx) key else None) of
               Some t \<Rightarrow> (Some t, st)
             | None \<Rightarrow>
                 let chosen = locals ! nat (prefix_hash digest key mod int (length locals)) in
                 if \<not> (healthy chosen \<and> admitting chosen) then (fallback, st)
                 else (Some chosen,
                       if ttl > 0
                       then st\<lparr>sticky := dset key (target_id chosen, ctx_now ctx + of_int ttl) (sticky st)\<rparr>
                       else st))"

definition select_failover :: selector_fun where
  "select_failover targets st ctx s = (find (\<lambda>t. healthy t \<and> admitting t) (stable_order targets), st)"

definition select_local_first :: selector_fun where
  "select_local_first targets st ctx s =
     (let pool = eligible targets;
          local_pool = filter (\<lambda>t. target_kind t = LOCAL) pool;
          remote_pool = filter (\<lambda>t. target_kind t = REMOTE) pool;
          unsaturated = filter (\<lambda>t. \<not> is_saturated t st) local_pool
      in if unsaturated \<noteq> [] then (least_outstanding unsaturated, st)
         else if remote_pool \<noteq> []
         then (min_by (\<lambda>t. (dget_or (ps_remote_priority st) (target_id t) 0, outstanding t, target_id t))
                 remote_pool, st)
         else (least_outstanding local_pool, st))"

definition priced :: "route_target list \<Rightarrow> route_target list" where
  "priced targets = filter (\<lambda>t. cost_per_mtok t \<noteq> None) (eligible targets)"

definition select_cost_aware :: selector_fun where
  "select_cost_aware targets st ctx s =
     (min_by (\<lambda>t. (the (cost_per_mtok t), outstanding t, target_id t)) (priced targets), st)"

definition SELECTORS :: "(string \<Rightarrow> 8 word list) \<Rightarrow> (routing_policy, selector_fun) dict" where
  "SELECTORS digest =
     [(LEAST_OUTSTANDING, select_least_outstanding),
      (ROUND_ROBIN, select_round_robin),
      (WEIGHTED_CAPACITY, select_weighted_capacity),
      (CACHE_AFFINITY, select_cache_affinity digest),
      (FAILOVER, select_failover),
      (LOCAL_FIRST, select_local_first),
      (COST_AWARE, select_cost_aware)]"

definition policy_select ::
  "(string \<Rightarrow> 8 word list) \<Rightarrow> routing_config \<Rightarrow> policy_state \<Rightarrow> route_context \<Rightarrow> gateway_settings
    \<Rightarrow> route_target option \<times> policy_state" where
  "policy_select digest config st ctx s =
     dget_or (SELECTORS digest) (policy config) select_least_outstanding (rc_targets config) st ctx s"

section \<open>The contract of a selector\<close>

text \<open>
  What the router relies on: a selector answers from its usable targets, never with anything else,
  and always when there is one. Usable is never wider than eligible.
\<close>

locale selector =
  fixes sel :: "route_target list \<Rightarrow> policy_state \<Rightarrow> route_context \<Rightarrow> gateway_settings
      \<Rightarrow> route_target option \<times> policy_state"
    and usable :: "route_target list \<Rightarrow> route_target list"
  assumes picks_usable: "fst (sel ts st ctx s) = Some t \<Longrightarrow> t \<in> set (usable ts)"
    and answers: "usable ts \<noteq> [] \<Longrightarrow> fst (sel ts st ctx s) \<noteq> None"
    and usable_eligible: "set (usable ts) \<subseteq> set (eligible ts)"
begin

lemma picks_eligible: "fst (sel ts st ctx s) = Some t \<Longrightarrow> t \<in> set ts \<and> healthy t \<and> admitting t"
  using picks_usable usable_eligible by (force simp: eligible_def)

lemma none_iff: "fst (sel ts st ctx s) = None \<longleftrightarrow> usable ts = []"
proof -
  have "usable ts \<noteq> []" if "fst (sel ts st ctx s) = Some t" for t
    using picks_usable [OF that] by auto
  then show ?thesis
    using answers [of ts st ctx s] by (cases "fst (sel ts st ctx s)") auto
qed

text \<open>Skipping the targets already tried never returns one of them.\<close>

lemma excluded_not_picked:
  "fst (sel (filter (\<lambda>t. target_id t \<notin> ex) ts) st ctx s) = Some t \<Longrightarrow> target_id t \<notin> ex"
  by (auto dest: picks_eligible)

end

lemma least_outstanding_in: "least_outstanding ts = Some t \<Longrightarrow> t \<in> set ts"
  by (auto simp: least_outstanding_def dest: min_by_in)

lemma least_outstanding_None [simp]: "least_outstanding ts = None \<longleftrightarrow> ts = []"
  by (simp add: least_outstanding_def)

lemma set_stable_order [simp]: "set (stable_order ts) = set ts"
  by (simp add: stable_order_def)

lemma length_stable_order [simp]: "length (stable_order ts) = length ts"
  by (simp add: stable_order_def)

lemma stable_order_Nil [simp]: "stable_order ts = [] \<longleftrightarrow> ts = []"
  using length_stable_order [of ts] by (metis length_0_conv)

interpretation least: selector select_least_outstanding eligible
  by unfold_locales (auto simp: select_least_outstanding_def dest: least_outstanding_in)

interpretation rotating: selector select_round_robin eligible
proof unfold_locales
  fix ts st ctx s t
  assume *: "fst (select_round_robin ts st ctx s) = Some t"
  define pool where "pool = stable_order (eligible ts)"
  have "pool \<noteq> []" "t = pool ! nat (rr_cursor st mod int (length pool))"
    using * unfolding select_round_robin_def pool_def [symmetric] Let_def
    by (simp_all split: if_splits)
  then have "nat (rr_cursor st mod int (length pool)) < length pool"
    by (simp add: nat_less_iff)
  then have "t \<in> set pool"
    using \<open>t = _\<close> by simp
  then show "t \<in> set (eligible ts)" by (simp add: pool_def)
qed (auto simp: select_round_robin_def Let_def)

lemma swrr_loop_keeps_best: "fst (swrr_loop ts (Some b) credits) \<noteq> None"
  by (induction ts "Some b" credits arbitrary: b rule: swrr_loop.induct)
    (auto simp: Let_def split: prod.splits)

lemma swrr_loop_None: "fst (swrr_loop ts None credits) = None \<longleftrightarrow> ts = []"
  using swrr_loop_keeps_best by (cases ts) (auto simp: Let_def)

lemma swrr_loop_in:
  "fst (swrr_loop ts best credits) = Some (t, c) \<Longrightarrow> t \<in> set ts \<or> best = Some (t, c)"
proof (induction ts arbitrary: best credits)
  case (Cons u ts)
  show ?case
    using Cons.prems Cons.IH [of "Some (u, dget_or credits (target_id u) 0 + weight u)"]
      Cons.IH [of best]
    by (cases best) (force simp: Let_def split: if_splits)+
qed simp

interpretation weighted: selector select_weighted_capacity eligible
proof unfold_locales
  fix ts st ctx s t
  assume *: "fst (select_weighted_capacity ts st ctx s) = Some t"
  define heavy where "heavy = filter (\<lambda>t. weight t > 0) (eligible ts)"
  obtain best credits where loop: "swrr_loop heavy None (swrr_credits st) = (best, credits)"
    by fastforce
  have "set heavy \<subseteq> set (eligible ts)"
    by (auto simp: heavy_def)
  with * swrr_loop_in [of heavy None "swrr_credits st"] loop show "t \<in> set (eligible ts)"
    unfolding select_weighted_capacity_def heavy_def [symmetric] Let_def
    by (auto dest: least_outstanding_in split: if_splits option.splits)
next
  fix ts st ctx s
  assume "eligible ts \<noteq> []"
  then show "fst (select_weighted_capacity ts st ctx s) \<noteq> None"
    using swrr_loop_None [of "filter (\<lambda>t. weight t > 0) (eligible ts)" "swrr_credits st"]
    by (auto simp: select_weighted_capacity_def Let_def simp del: not_None_eq
        split: option.splits prod.splits)
qed simp

lemma find_in: "find P xs = Some x \<Longrightarrow> x \<in> set xs \<and> P x"
  by (auto simp: find_Some_iff)

lemma pinned_target_SomeD:
  "pinned_target ls st now key = Some t \<Longrightarrow> t \<in> set ls \<and> healthy t \<and> admitting t"
  by (auto simp: pinned_target_def dest!: find_in split: option.splits if_splits)

lemma hashed_index:
  "ts \<noteq> [] \<Longrightarrow> ts ! nat (h mod int (length ts)) \<in> set ts"
  by (intro nth_mem) (simp add: nat_less_iff)

interpretation affine: selector "select_cache_affinity digest" eligible for digest
proof unfold_locales
  fix ts st ctx s t
  assume *: "fst (select_cache_affinity digest ts st ctx s) = Some t"
  define ls where "ls = stable_order (filter (\<lambda>t. target_kind t = LOCAL) ts)"
  have "set ls \<subseteq> set ts" by (auto simp: ls_def)
  moreover have "ls \<noteq> [] \<Longrightarrow> ls ! nat (h mod int (length ls)) \<in> set ls" for h
    by (rule hashed_index)
  ultimately show "t \<in> set (eligible ts)"
    using * unfolding select_cache_affinity_def ls_def [symmetric] Let_def
    by (auto simp: eligible_def dest!: least_outstanding_in pinned_target_SomeD
        split: option.splits if_splits)
next
  fix ts st ctx s
  assume "eligible ts \<noteq> []"
  then show "fst (select_cache_affinity digest ts st ctx s) \<noteq> None"
    by (simp add: select_cache_affinity_def Let_def del: not_None_eq split: option.split)
qed simp

interpretation primary: selector select_failover eligible
  by unfold_locales
    (auto simp: select_failover_def eligible_def find_None_iff filter_empty_conv
      simp del: not_None_eq dest!: find_in)

interpretation local_first: selector select_local_first eligible
proof unfold_locales
  fix ts st ctx s t
  assume "fst (select_local_first ts st ctx s) = Some t"
  then show "t \<in> set (eligible ts)"
    by (auto simp: select_local_first_def Let_def dest!: least_outstanding_in min_by_in
        split: if_splits)
next
  fix ts st ctx s
  assume "eligible ts \<noteq> []"
  then obtain t where t: "t \<in> set (eligible ts)" by (cases "eligible ts") auto
  then show "fst (select_local_first ts st ctx s) \<noteq> None"
    by (cases "target_kind t")
      (auto simp: select_local_first_def Let_def filter_empty_conv simp del: not_None_eq)
qed simp

interpretation cheapest: selector select_cost_aware priced
  by unfold_locales
    (auto simp: select_cost_aware_def priced_def dest: min_by_in)

definition usable_for :: "routing_policy \<Rightarrow> route_target list \<Rightarrow> route_target list" where
  "usable_for p = (if p = COST_AWARE then priced else eligible)"

interpretation chosen: selector "dget_or (SELECTORS digest) p select_least_outstanding" "usable_for p"
  for digest p
  by (cases p) (simp_all add: SELECTORS_def dget_or_def usable_for_def least.selector_axioms
      rotating.selector_axioms weighted.selector_axioms affine.selector_axioms
      primary.selector_axioms local_first.selector_axioms cheapest.selector_axioms)

definition servable :: "routing_policy \<Rightarrow> route_target \<Rightarrow> bool" where
  "servable p t \<longleftrightarrow> healthy t \<and> admitting t \<and> (p = COST_AWARE \<longrightarrow> cost_per_mtok t \<noteq> None)"

lemma set_usable_for: "set (usable_for p ts) = {t \<in> set ts. servable p t}"
  by (auto simp: usable_for_def servable_def priced_def eligible_def)

lemma chosen_servable:
  "case fst (policy_select digest config st ctx s) of
     Some t \<Rightarrow> t \<in> set (rc_targets config) \<and> servable (policy config) t
   | None \<Rightarrow> \<not> (\<exists>t \<in> set (rc_targets config). servable (policy config) t)"
proof (cases "fst (policy_select digest config st ctx s)")
  case None
  then have "usable_for (policy config) (rc_targets config) = []"
    using chosen.none_iff by (simp add: policy_select_def)
  with None show ?thesis
    using set_usable_for [of "policy config" "rc_targets config"] by auto
next
  case (Some t)
  then have "t \<in> set (usable_for (policy config) (rc_targets config))"
    using chosen.picks_usable by (simp add: policy_select_def)
  with Some show ?thesis by (simp add: set_usable_for)
qed

text \<open>No policy sends a request where it must not go, and none refuses one that could be
  served. Under every policy, whatever its state, the chosen target is one of the model's targets,
  healthy and admitting (and of known cost under the cost policy), and nothing is chosen only when
  there is no such target.\<close>

theorem selection_is_usable:
  "case fst (policy_select digest config st ctx s) of
     Some t \<Rightarrow> t \<in> set (rc_targets config) \<and> servable (policy config) t
   | None \<Rightarrow> \<not> (\<exists>t \<in> set (rc_targets config). servable (policy config) t)"
  by (rule chosen_servable)

end
