(* ===== verification/Policies_Fair.thy ===== *)
theory Policies_Fair
  imports Policies "HOL-Library.Multiset"
begin

text \<open>
  What the policies of \<open>control_plane/gateway/policies.py\<close> do over a run of requests: the smooth
  weighted round robin keeps every target's share of the traffic close to its weight, the round
  robin visits every target in turn, and the remaining policies choose by the order they document.
\<close>

section \<open>Serving a run of requests\<close>

text \<open>The targets keep their flags and weights during the run; the selection state is threaded.\<close>

fun serve ::
  "selector_fun \<Rightarrow> route_target list \<Rightarrow> gateway_settings \<Rightarrow> route_context list \<Rightarrow> policy_state
    \<Rightarrow> route_target option list \<times> policy_state" where
  "serve sel ts s [] st = ([], st)"
| "serve sel ts s (c # cs) st =
     (let (r, st) = sel ts st c s; (rs, st) = serve sel ts s cs st in (r # rs, st))"

lemma length_serve [simp]: "length (fst (serve sel ts s cs st)) = length cs"
proof (induction cs arbitrary: st)
  case (Cons c cs)
  then show ?case using Cons.IH [of "snd (sel ts st c s)"]
    by (simp add: Let_def split_beta)
qed simp

section \<open>Smooth weighted round robin\<close>

definition heavy :: "route_target list \<Rightarrow> route_target list" where
  "heavy ts = filter (\<lambda>t. weight t > 0) (eligible ts)"

lemma sum_weights_pos: "xs \<noteq> [] \<Longrightarrow> \<forall>t \<in> set xs. 0 < weight t \<Longrightarrow> 0 < sum_list (map weight xs)"
  by (induction xs rule: induct_list012) (auto intro: add_pos_pos)

lemma total_weight_pos: "heavy ts \<noteq> [] \<Longrightarrow> 0 < sum_list (map weight (heavy ts))"
  by (rule sum_weights_pos) (simp_all add: heavy_def)

abbreviation credit :: "policy_state \<Rightarrow> route_target \<Rightarrow> rat" where
  "credit st t \<equiv> dget_or (swrr_credits st) (target_id t) 0"

lemma dget_or_dset: "dget_or (dset k v d) k' w = (if k' = k then v else dget_or d k' w)"
  by (simp add: dget_or_def)

text \<open>The loop pays every target its weight and ends with the richest one.\<close>

lemma swrr_loop_credits:
  assumes "swrr_loop ts best credits = (best', credits')" and "distinct (map target_id ts)"
  shows "dget_or credits' k 0 = dget_or credits k 0 + (\<Sum>t\<leftarrow>ts. if target_id t = k then weight t else 0)"
  using assms
proof (induction ts best credits rule: swrr_loop.induct)
  case (2 t ts best credits)
  then show ?case
    by (cases best) (auto simp: Let_def dget_or_dset split: if_splits prod.splits)
qed auto

lemma swrr_loop_best:
  assumes "swrr_loop ts best credits = (Some (b, c), credits')" and "distinct (map target_id ts)"
  shows "(b \<in> set ts \<and> c = dget_or credits (target_id b) 0 + weight b \<or> best = Some (b, c))
    \<and> (\<forall>t \<in> set ts. dget_or credits (target_id t) 0 + weight t \<le> c)
    \<and> (\<forall>b' c'. best = Some (b', c') \<longrightarrow> c' \<le> c)"
  using assms
proof (induction ts arbitrary: best credits)
  case (Cons t ts)
  define cr where "cr = dget_or credits (target_id t) 0 + weight t"
  define d where "d = dset (target_id t) cr credits"
  have same: "dget_or d (target_id u) 0 = dget_or credits (target_id u) 0" if "u \<in> set ts" for u
    using that Cons.prems(2) by (metis d_def dget_or_dset distinct.simps(2) image_eqI list.simps(9) set_map)
  obtain best1 where step: "swrr_loop ts best1 d = (Some (b, c), credits')"
    and best1: "best1 = Some (t, cr) \<and> (\<forall>b' c'. best = Some (b', c') \<longrightarrow> c' \<le> cr)
      \<or> best1 = best \<and> (\<exists>b' c'. best = Some (b', c') \<and> cr \<le> c')"
    using Cons.prems(1) unfolding swrr_loop.simps Let_def cr_def [symmetric] d_def [symmetric]
    by (auto split: option.splits if_splits prod.splits)
  have dist: "distinct (map target_id ts)" using Cons.prems(2) by simp
  show ?case
    using Cons.IH [OF step dist] best1 same by (auto simp: cr_def)
qed auto

lemma sum_list_at_id:
  assumes "distinct (map target_id ts)" and "t \<in> set ts"
  shows "(\<Sum>u\<leftarrow>ts. if target_id u = target_id t then f u else (0::rat)) = f t"
  using assms
proof (induction ts)
  case (Cons u ts)
  have "(\<Sum>v\<leftarrow>ts. if target_id v = target_id u then f v else 0) = (\<Sum>v\<leftarrow>ts. 0)"
    using Cons.prems(1) by (intro arg_cong [of _ _ sum_list] map_cong refl) (force simp: image_iff)
  with Cons show ?case by auto
qed simp

text \<open>One choice: the richest target after everybody was paid, and it alone pays the total.\<close>

lemma weighted_step:
  assumes "distinct (map target_id ts)" and "heavy ts \<noteq> []"
    and "select_weighted_capacity ts st c s = (r, st')"
  shows "\<exists>b \<in> set (heavy ts). r = Some b
    \<and> (\<forall>t \<in> set (heavy ts). credit st t + weight t \<le> credit st b + weight b)
    \<and> (\<forall>t \<in> set (heavy ts). credit st' t = credit st t + weight t
         - (if t = b then sum_list (map weight (heavy ts)) else 0))"
proof -
  define tw where "tw = sum_list (map weight (heavy ts))"
  have dist: "distinct (map target_id (heavy ts))"
    using assms(1) by (simp add: heavy_def eligible_def distinct_map_filter)
  obtain best credits where loop: "swrr_loop (heavy ts) None (swrr_credits st) = (best, credits)"
    by fastforce
  then obtain b cb where best: "best = Some (b, cb)"
    using swrr_loop_None [of "heavy ts" "swrr_credits st"] assms(2) by (cases best) auto
  have b: "b \<in> set (heavy ts)" "cb = credit st b + weight b"
    "\<forall>t \<in> set (heavy ts). credit st t + weight t \<le> cb"
    using swrr_loop_best [OF loop [unfolded best] dist] by auto
  have paid: "dget_or credits (target_id t) 0 = credit st t + weight t" if "t \<in> set (heavy ts)" for t
    using swrr_loop_credits [OF loop dist] sum_list_at_id [OF dist that] by simp
  have "eligible ts \<noteq> []" using assms(2) by (auto simp: heavy_def)
  then have r: "r = Some b" "st' = st\<lparr>swrr_credits := dset (target_id b) (cb - tw) credits\<rparr>"
    using assms(3) loop assms(2)
    unfolding select_weighted_capacity_def heavy_def [symmetric] Let_def tw_def best by auto
  have id_eq: "target_id t = target_id b \<longleftrightarrow> t = b" if "t \<in> set (heavy ts)" for t
    using dist that b(1) by (auto simp: distinct_map inj_on_def)
  show ?thesis
    using b r paid id_eq by (intro bexI [of _ b]) (auto simp: dget_or_dset tw_def)
qed

text \<open>The ledger of credits is balanced, and nobody is in debt by a full round.\<close>

definition balanced :: "route_target list \<Rightarrow> policy_state \<Rightarrow> bool" where
  "balanced ts st \<longleftrightarrow> (\<Sum>t \<in> set (heavy ts). credit st t) = 0
     \<and> (\<forall>t \<in> set (heavy ts). - sum_list (map weight (heavy ts)) < credit st t)"

lemma weighted_step_balanced:
  assumes "distinct (map target_id ts)" and "heavy ts \<noteq> []" and "balanced ts st"
    and "select_weighted_capacity ts st c s = (r, st')"
  shows "balanced ts st'"
proof -
  let ?H = "set (heavy ts)" and ?W = "sum_list (map weight (heavy ts))"
  obtain b where b: "b \<in> ?H" "\<And>t. t \<in> ?H \<Longrightarrow> credit st t + weight t \<le> credit st b + weight b"
    "\<And>t. t \<in> ?H \<Longrightarrow> credit st' t = credit st t + weight t - (if t = b then ?W else 0)"
    using weighted_step [OF assms(1,2,4)] by auto
  have "distinct (heavy ts)"
    using assms(1) by (auto simp: heavy_def eligible_def distinct_map)
  then have W: "?W = (\<Sum>t \<in> ?H. weight t)"
    by (simp add: sum_list_distinct_conv_sum_set)
  have paid: "(\<Sum>t \<in> ?H. credit st t + weight t) = ?W"
    using assms(3) W by (simp add: sum.distrib balanced_def)
  have pos: "0 < weight t" if "t \<in> ?H" for t using that by (simp add: heavy_def)
  have "0 < ?W" using assms(2) by (rule total_weight_pos)
  have "0 < credit st b + weight b"
  proof (rule ccontr)
    assume "\<not> ?thesis"
    then have "credit st t + weight t \<le> 0" if "t \<in> ?H" for t using b(2) [OF that] by linarith
    then have "(\<Sum>t \<in> ?H. credit st t + weight t) \<le> 0" by (rule sum_nonpos)
    with paid \<open>0 < ?W\<close> show False by linarith
  qed
  moreover have "(\<Sum>t \<in> ?H. credit st' t) = (\<Sum>t \<in> ?H. credit st t + weight t) - ?W"
    using b(1) by (simp add: b(3) sum_subtractf)
  moreover have "- ?W < credit st t + weight t" if "t \<in> ?H" for t
    using assms(3) that pos [OF that] by (fastforce simp: balanced_def)
  ultimately show ?thesis
    using paid b(3) by (auto simp: balanced_def)
qed

lemma weighted_run:
  assumes "distinct (map target_id ts)" and "heavy ts \<noteq> []" and "balanced ts st"
    and "serve select_weighted_capacity ts s cs st = (rs, st')"
  shows "balanced ts st' \<and> set rs \<subseteq> Some ` set (heavy ts)
    \<and> (\<forall>t \<in> set (heavy ts). credit st' t = credit st t + of_nat (length cs) * weight t
         - sum_list (map weight (heavy ts)) * of_nat (count_list rs (Some t)))"
  using assms(3,4)
proof (induction cs arbitrary: st rs)
  case (Cons c cs)
  obtain r st1 where step: "select_weighted_capacity ts st c s = (r, st1)" by fastforce
  obtain rs1 where rest: "serve select_weighted_capacity ts s cs st1 = (rs1, st')" "rs = r # rs1"
    using Cons.prems(2) step by (auto simp: Let_def split: prod.splits)
  note ih = Cons.IH [OF weighted_step_balanced [OF assms(1,2) Cons.prems(1) step] rest(1)]
  obtain b where "b \<in> set (heavy ts)" "r = Some b"
    "\<forall>t \<in> set (heavy ts). credit st1 t = credit st t + weight t
         - (if t = b then sum_list (map weight (heavy ts)) else 0)"
    using weighted_step [OF assms(1,2) step] by blast
  with ih rest(2) show ?case by (auto simp: algebra_simps)
qed auto

lemma sum_except:
  assumes "finite A" and "t \<in> A"
  shows "(\<Sum>u \<in> A. f u :: rat) = f t + (\<Sum>u \<in> A - {t}. f u)"
  using assms by (simp add: sum.remove)

lemma balanced_upper:
  assumes "distinct (heavy ts)" and "balanced ts st" and "t \<in> set (heavy ts)"
  shows "credit st t \<le> (of_nat (length (heavy ts)) - 1) * sum_list (map weight (heavy ts))"
proof -
  let ?H = "set (heavy ts)" and ?W = "sum_list (map weight (heavy ts))"
  have "card ?H = length (heavy ts)" using assms(1) by (rule distinct_card)
  then have card: "of_nat (card (?H - {t})) = (of_nat (length (heavy ts)) - 1 :: rat)"
    using assms(3) by (cases "heavy ts") (auto simp: card_Diff_singleton)
  have "(\<Sum>u \<in> ?H - {t}. - ?W) \<le> (\<Sum>u \<in> ?H - {t}. credit st u)"
    using assms(2) by (intro sum_mono) (auto simp: balanced_def less_imp_le)
  moreover have "credit st t = - (\<Sum>u \<in> ?H - {t}. credit st u)"
    using assms(2,3) sum_except [of ?H t "credit st"] by (simp add: balanced_def)
  ultimately show ?thesis using card by simp
qed

text \<open>The capacity policy splits traffic by weight. Over any run of n requests from a fresh
  state, with the targets' flags and weights steady, a target of positive weight is chosen less
  than one request more than its share n * weight / total, and at most k - 1 requests short of it
  for k weighted targets; targets of weight zero get nothing while a weighted one can serve.\<close>

theorem traffic_follows_weights:
  fixes ts :: "route_target list" and s :: gateway_settings and cs :: "route_context list"
  assumes "distinct (map target_id ts)" and "t \<in> set (heavy ts)" and "swrr_credits st = []"
  defines "rs \<equiv> fst (serve select_weighted_capacity ts s cs st)"
  defines "share \<equiv> of_nat (length cs) * weight t / sum_list (map weight (heavy ts))"
  shows "of_nat (count_list rs (Some t)) < share + 1
    \<and> share - (of_nat (length (heavy ts)) - 1) \<le> of_nat (count_list rs (Some t))
    \<and> set rs \<subseteq> Some ` set (heavy ts)"
proof -
  let ?W = "sum_list (map weight (heavy ts))" and ?n = "of_nat (count_list rs (Some t)) :: rat"
  have ne: "heavy ts \<noteq> []" using assms(2) by auto
  have W: "0 < ?W" using ne by (rule total_weight_pos)
  have "balanced ts st"
    using assms(3) W by (simp add: balanced_def dget_or_def)
  then have run: "balanced ts st'" "set rs \<subseteq> Some ` set (heavy ts)"
    "credit st' t = of_nat (length cs) * weight t - ?W * ?n"
    if "st' = snd (serve select_weighted_capacity ts s cs st)" for st'
    using weighted_run [OF assms(1) ne, of st s cs rs st'] that assms(2,3)
    by (auto simp: rs_def dget_or_def)
  have "distinct (heavy ts)"
    using assms(1) by (auto simp: heavy_def eligible_def distinct_map)
  note up = balanced_upper [OF this run(1) [OF refl] assms(2)]
  have "- ?W < of_nat (length cs) * weight t - ?W * ?n"
    "of_nat (length cs) * weight t - ?W * ?n \<le> (of_nat (length (heavy ts)) - 1) * ?W"
    using run(1,3) [OF refl] up assms(2) by (auto simp: balanced_def)
  then have "?n * ?W < of_nat (length cs) * weight t + ?W"
    "of_nat (length cs) * weight t - (of_nat (length (heavy ts)) - 1) * ?W \<le> ?n * ?W"
    by (simp_all add: algebra_simps)
  then show ?thesis
    using W run(2) [OF refl] by (simp add: share_def field_simps)
qed

text \<open>Two replicas, one twice as strong, and six requests: four and two.\<close>

definition example_context :: route_context where
  "example_context = \<lparr>ctx_served_name = ''m'', prefix_key = None, ctx_now = 0\<rparr>"

theorem traffic_follows_weights_witness:
  "of_nat (count_list (fst (serve select_weighted_capacity [replica ''a'' (2/3), replica ''b'' (1/3)]
      default_settings (replicate 6 example_context) new_policy_state)) (Some (replica ''a'' (2/3)))) < (5 :: rat)
   \<and> (3 :: rat) \<le> of_nat (count_list (fst (serve select_weighted_capacity [replica ''a'' (2/3), replica ''b'' (1/3)]
      default_settings (replicate 6 example_context) new_policy_state)) (Some (replica ''a'' (2/3))))"
proof -
  have heavy: "heavy [replica ''a'' (2/3), replica ''b'' (1/3)] = [replica ''a'' (2/3), replica ''b'' (1/3)]"
    by (simp add: heavy_def eligible_def replica_def)
  have "distinct (map target_id [replica ''a'' (2/3), replica ''b'' (1/3)])"
    "replica ''a'' (2/3) \<in> set (heavy [replica ''a'' (2/3), replica ''b'' (1/3)])"
    "swrr_credits new_policy_state = []"
    by (simp_all add: heavy) (simp_all add: replica_def new_policy_state_def)
  from traffic_follows_weights [OF this, of default_settings "replicate 6 example_context"]
  show ?thesis unfolding heavy by (simp add: replica_def)
qed

section \<open>Round robin\<close>

lemma mset_rotate: "mset (rotate k xs) = mset xs"
  by (metis append_take_drop_id mset_append rotate_drop_take union_commute)

lemma round_robin_run:
  assumes "pool = stable_order (eligible ts)" and "pool \<noteq> []"
  shows "fst (serve select_round_robin ts s cs st)
    = map (\<lambda>i. Some (pool ! nat ((rr_cursor st + int i) mod int (length pool)))) [0..<length cs]"
proof (induction cs arbitrary: st)
  case (Cons c cs)
  have step: "select_round_robin ts st c s = (Some (pool ! nat (rr_cursor st mod int (length pool))),
      st\<lparr>rr_cursor := (rr_cursor st + 1) mod int (length pool)\<rparr>)"
    using assms by (simp add: select_round_robin_def Let_def)
  have "fst (serve select_round_robin ts s (c # cs) st)
      = Some (pool ! nat (rr_cursor st mod int (length pool)))
        # fst (serve select_round_robin ts s cs (st\<lparr>rr_cursor := (rr_cursor st + 1) mod int (length pool)\<rparr>))"
    by (simp add: step split_beta)
  also have "\<dots> = map (\<lambda>i. Some (pool ! nat ((rr_cursor st + int i) mod int (length pool)))) (0 # map Suc [0..<length cs])"
    unfolding Cons.IH by (simp add: mod_simps algebra_simps comp_def)
  also have "0 # map Suc [0..<length cs] = [0..<length (c # cs)]"
    by (subst upt_conv_Cons) (simp_all add: map_Suc_upt del: upt_Suc)
  finally show ?case .
qed simp

text \<open>The round robin is fair in every window: while the eligible targets stay the same, any
  run of as many requests as there are eligible targets, from whatever cursor, chooses each of them
  exactly once.\<close>

theorem rotation_visits_everyone:
  assumes "length cs = length (eligible ts)"
  shows "mset (fst (serve select_round_robin ts s cs st)) = mset (map Some (eligible ts))"
proof (cases "eligible ts = []")
  case False
  define pool where "pool = stable_order (eligible ts)"
  have pool: "pool \<noteq> []" "length pool = length (eligible ts)"
    using False by (simp_all add: pool_def)
  have same: "mset pool = mset (eligible ts)"
    by (simp add: pool_def stable_order_def)
  define k where "k = nat (rr_cursor st mod int (length pool))"
  have "nat ((rr_cursor st + int i) mod int (length pool)) = (k + i) mod length pool" for i
  proof -
    have "int k = rr_cursor st mod int (length pool)" using pool(1) by (simp add: k_def)
    then have "(rr_cursor st + int i) mod int (length pool) = int ((k + i) mod length pool)"
      by (simp add: zmod_int mod_simps)
    then show ?thesis by simp
  qed
  then have "fst (serve select_round_robin ts s cs st) = map Some (rotate k pool)"
    unfolding round_robin_run [OF pool_def pool(1)] assms
    by (intro nth_equalityI) (simp_all add: nth_rotate pool(2))
  then show ?thesis
    using same by (metis mset_map mset_rotate)
qed (use assms in simp)

theorem rotation_visits_everyone_witness:
  "mset (fst (serve select_round_robin [replica ''a'' 1, replica ''b'' 1] default_settings
      [example_context, example_context] new_policy_state))
    = mset [Some (replica ''a'' 1), Some (replica ''b'' 1)]"
proof -
  have e: "eligible [replica ''a'' 1, replica ''b'' 1] = [replica ''a'' 1, replica ''b'' 1]"
    by (simp add: eligible_def replica_def)
  have "length [example_context, example_context] = length (eligible [replica ''a'' 1, replica ''b'' 1])"
    unfolding e by simp
  from rotation_visits_everyone [OF this, where s = default_settings and st = new_policy_state]
  show ?thesis unfolding e by simp
qed

section \<open>Local first\<close>

text \<open>The paid provider is the overflow valve. Under the local-first policy a remote target is
  chosen exactly when one can serve and every local target is unusable or saturated, and then one of
  the best provider priority; a saturated local target is chosen only when nothing else can serve.\<close>

theorem remote_only_on_overflow:
  assumes "fst (select_local_first ts st ctx s) = Some t"
  shows "(target_kind t = REMOTE \<longleftrightarrow> (\<exists>u \<in> set (eligible ts). target_kind u = REMOTE)
        \<and> (\<forall>u \<in> set (eligible ts). target_kind u = LOCAL \<longrightarrow> is_saturated u st))
    \<and> (target_kind t = REMOTE \<longrightarrow> (\<forall>u \<in> set (eligible ts). target_kind u = REMOTE \<longrightarrow>
        dget_or (ps_remote_priority st) (target_id t) 0 \<le> dget_or (ps_remote_priority st) (target_id u) 0))
    \<and> (target_kind t = LOCAL \<and> is_saturated t st \<longrightarrow>
        (\<forall>u \<in> set (eligible ts). target_kind u = LOCAL \<and> is_saturated u st))"
proof -
  let ?L = "filter (\<lambda>t. target_kind t = LOCAL) (eligible ts)"
  let ?R = "filter (\<lambda>t. target_kind t = REMOTE) (eligible ts)"
  let ?U = "filter (\<lambda>t. \<not> is_saturated t st) ?L"
  have first: "u \<in> set ?R \<Longrightarrow> dget_or (ps_remote_priority st) (target_id t) 0
      \<le> dget_or (ps_remote_priority st) (target_id u) 0"
    if "min_by (\<lambda>t. (dget_or (ps_remote_priority st) (target_id t) 0, outstanding t, target_id t)) ?R = Some t"
    for u
    using min_by_le [OF that, of u] by (auto simp: less_eq_prod_def)
  consider (spare) "?U \<noteq> []" "t \<in> set ?U"
    | (spill) "?U = []" "t \<in> set ?R"
      "\<forall>u \<in> set ?R. dget_or (ps_remote_priority st) (target_id t) 0 \<le> dget_or (ps_remote_priority st) (target_id u) 0"
    | (stuck) "?U = []" "?R = []" "t \<in> set ?L"
    using assms least_outstanding_in [of ?U t] least_outstanding_in [of ?L t]
      min_by_in [of _ ?R t] first
    unfolding select_local_first_def Let_def by (auto split: if_splits simp del: set_filter)
  then show ?thesis
  proof cases
    case spare
    then show ?thesis by auto
  next
    case spill
    then show ?thesis by (auto simp: filter_empty_conv)
  next
    case stuck
    have "target_kind u = LOCAL" if "u \<in> set (eligible ts)" for u
      using stuck(2) that by (cases "target_kind u") (auto simp: filter_empty_conv)
    with stuck show ?thesis by (auto simp: filter_empty_conv)
  qed
qed

text \<open>A saturated replica and one paid target.\<close>

definition cloud :: route_target where
  "cloud = \<lparr>target_id = ''p:m'', target_kind = REMOTE, target_url = ''https://api'', weight = 0,
     outstanding = 0, healthy = True, admitting = True, strength = 1, cost_per_mtok = Some 3\<rparr>"

definition busy :: route_target where
  "busy = (replica ''a'' 1)\<lparr>outstanding := 4\<rparr>"

theorem remote_only_on_overflow_witness:
  "fst (select_local_first [busy, cloud] (new_policy_state\<lparr>ps_capacity := [(''a'', 4)]\<rparr>) example_context
      default_settings) = Some cloud
   \<and> is_saturated busy (new_policy_state\<lparr>ps_capacity := [(''a'', 4)]\<rparr>)"
proof -
  let ?st = "new_policy_state\<lparr>ps_capacity := [(''a'', 4)]\<rparr>"
  have pick: "fst (select_local_first [busy, cloud] ?st example_context default_settings) = Some cloud"
    by code_simp
  have "busy \<in> set (eligible [busy, cloud])" "target_kind busy = LOCAL" "target_kind cloud = REMOTE"
    by (simp_all add: eligible_def busy_def replica_def cloud_def)
  with remote_only_on_overflow [OF pick] pick show ?thesis by blast
qed

section \<open>Cache affinity\<close>

definition local_targets :: "route_target list \<Rightarrow> route_target list" where
  "local_targets ts = filter (\<lambda>t. target_kind t = LOCAL) ts"

lemma stable_order_local_ids:
  "map target_id (stable_order (local_targets ts)) = sort (map target_id (local_targets ts))"
proof (rule properties_for_sort [symmetric])
  have "sorted (map (\<lambda>t. (if target_kind t = LOCAL then 0 else 1 :: int, target_id t)) (stable_order (local_targets ts)))"
    by (simp add: stable_order_def)
  moreover have "map (\<lambda>t. (if target_kind t = LOCAL then 0 else 1 :: int, target_id t)) (stable_order (local_targets ts))
      = map (\<lambda>i. (0, i)) (map target_id (stable_order (local_targets ts)))"
    by (auto simp: local_targets_def)
  ultimately show "sorted (map target_id (stable_order (local_targets ts)))"
    by (simp add: sorted_map sorted_wrt_map less_eq_prod_def)
qed (simp add: stable_order_def mset_map)

definition home :: "(string \<Rightarrow> 8 word list) \<Rightarrow> string \<Rightarrow> route_target list \<Rightarrow> route_target" where
  "home digest key ts =
     stable_order (local_targets ts) ! nat (prefix_hash digest key mod int (length (local_targets ts)))"

lemma home_chosen:
  assumes "sticky_ttl_s s \<le> 0" and "prefix_key ctx = Some key" and "key \<noteq> []"
    and "local_targets ts \<noteq> []" and "healthy (home digest key ts)" and "admitting (home digest key ts)"
  shows "fst (select_cache_affinity digest ts st ctx s) = Some (home digest key ts)
    \<and> home digest key ts \<in> set (local_targets ts)"
proof -
  have "nat (prefix_hash digest key mod int (length (local_targets ts))) < length (stable_order (local_targets ts))"
    using assms(4) by (simp add: nat_less_iff)
  then have "home digest key ts \<in> set (stable_order (local_targets ts))"
    unfolding home_def by (rule nth_mem)
  with assms show ?thesis
    unfolding select_cache_affinity_def local_targets_def [symmetric] Let_def by (simp add: home_def)
qed

text \<open>A prefix keeps its home. With stickiness off, the target a prefix is sent to depends only
  on which local targets exist and on the prefix: whatever the loads, flags of others, order, remote
  targets, selection state and time, two requests with the same prefix go to the same local target
  as long as the target it hashes to can serve both.\<close>

theorem same_prefix_same_home:
  assumes "sticky_ttl_s s \<le> 0" and "prefix_key ctx = Some key" and "prefix_key ctx' = Some key"
    and "key \<noteq> []" and "local_targets ts \<noteq> []"
    and "mset (map target_id (local_targets ts)) = mset (map target_id (local_targets ts'))"
    and "healthy (home digest key ts)" and "admitting (home digest key ts)"
    and "healthy (home digest key ts')" and "admitting (home digest key ts')"
  shows "\<exists>t t'. fst (select_cache_affinity digest ts st ctx s) = Some t
    \<and> fst (select_cache_affinity digest ts' st' ctx' s) = Some t'
    \<and> target_id t' = target_id t \<and> target_kind t' = LOCAL \<and> target_kind t = LOCAL"
proof -
  let ?L = "stable_order (local_targets ts)" and ?L' = "stable_order (local_targets ts')"
  have len: "length (local_targets ts') = length (local_targets ts)"
    using assms(6) by (metis length_map size_mset)
  have ids: "map target_id ?L = map target_id ?L'"
    unfolding stable_order_local_ids using assms(6) by (metis properties_for_sort sorted_sort mset_sort)
  have ne: "local_targets ts' \<noteq> []" using len assms(5) by auto
  have "nat (prefix_hash digest key mod int (length (local_targets ts))) < length ?L"
    using assms(5) by (simp add: nat_less_iff)
  then have "target_id (home digest key ts') = target_id (home digest key ts)"
    unfolding home_def len using ids len by (metis length_stable_order nth_map)
  then show ?thesis
    using home_chosen [OF assms(1,2,4,5,7,8), of st] home_chosen [OF assms(1,3,4) ne assms(9,10), of st']
    by (auto simp: local_targets_def)
qed

text \<open>A digest that reads off the first character; the other replica has gone busy in between.\<close>

theorem same_prefix_same_home_witness:
  "\<exists>t t'. fst (select_cache_affinity (\<lambda>k. [of_char (hd k)]) [replica ''a'' 1, replica ''b'' 1] new_policy_state
        (example_context\<lparr>prefix_key := Some ''hello''\<rparr>) default_settings) = Some t
    \<and> fst (select_cache_affinity (\<lambda>k. [of_char (hd k)]) [replica ''b'' 1, busy] new_policy_state
        (example_context\<lparr>prefix_key := Some ''hello'', ctx_now := 9\<rparr>) default_settings) = Some t'
    \<and> target_id t' = target_id t \<and> target_kind t' = LOCAL \<and> target_kind t = LOCAL"
proof (rule same_prefix_same_home [of default_settings _ "''hello''"])
  show "mset (map target_id (local_targets [replica ''a'' 1, replica ''b'' 1]))
      = mset (map target_id (local_targets [replica ''b'' 1, busy]))"
    by (simp add: local_targets_def replica_def busy_def)
qed code_simp+

section \<open>Hedging\<close>

text \<open>A hedge goes to the strongest alternative or nowhere. A candidate is an eligible target
  other than the leader and those excluded, at least as strong as every such target and strong
  enough to be worth it; and there is none exactly under the local-first policy or when no
  alternative is strong enough.\<close>

theorem hedge_is_strongest_or_none:
  "case hedge_candidate config leader s ex of
     Some t \<Rightarrow> policy config \<noteq> LOCAL_FIRST \<and> t \<in> set (eligible (rc_targets config))
       \<and> target_id t \<noteq> target_id leader \<and> target_id t \<notin> set ex
       \<and> strength leader * weak_target_floor s \<le> strength t
       \<and> (\<forall>u \<in> set (eligible (rc_targets config)).
            target_id u \<noteq> target_id leader \<and> target_id u \<notin> set ex \<longrightarrow> strength u \<le> strength t)
   | None \<Rightarrow> policy config = LOCAL_FIRST
       \<or> (\<forall>u \<in> set (eligible (rc_targets config)).
            target_id u \<noteq> target_id leader \<and> target_id u \<notin> set ex \<longrightarrow>
            strength u < strength leader * weak_target_floor s)"
proof -
  let ?pool = "filter (\<lambda>t. target_id t \<noteq> target_id leader \<and> target_id t \<notin> set ex)
    (eligible (rc_targets config))"
  show ?thesis
  proof (cases "max_by (\<lambda>t. (strength t, target_id t)) ?pool")
    case None
    then show ?thesis by (auto simp: hedge_candidate_def filter_empty_conv)
  next
    case (Some best)
    have "best \<in> set ?pool" using Some by (rule max_by_in)
    moreover have "strength u \<le> strength best" if "u \<in> set ?pool" for u
      using max_by_ge [OF Some that] by (auto simp: less_eq_prod_def)
    ultimately show ?thesis
      using Some by (fastforce simp: hedge_candidate_def may_hedge_def)
  qed
qed

theorem hedge_is_strongest_or_none_witness:
  "hedge_candidate \<lparr>rc_served_name = ''m'', policy = LEAST_OUTSTANDING,
       rc_targets = [replica ''a'' 1, replica ''b'' (1/2)], rc_sticky_ttl_s = 0\<rparr>
     (replica ''a'' 1) default_settings [] = Some (replica ''b'' (1/2))
   \<and> strength (replica ''a'' 1) * weak_target_floor default_settings \<le> strength (replica ''b'' (1/2))"
proof -
  let ?c = "\<lparr>rc_served_name = ''m'', policy = LEAST_OUTSTANDING,
    rc_targets = [replica ''a'' 1, replica ''b'' (1/2)], rc_sticky_ttl_s = 0\<rparr>"
  have pick: "hedge_candidate ?c (replica ''a'' 1) default_settings [] = Some (replica ''b'' (1/2))"
    by code_simp
  show ?thesis
    using hedge_is_strongest_or_none [where config = ?c and leader = "replica ''a'' 1" and s = default_settings and ex = "[]"] pick by simp
qed

end
