(* ===== verification/Routing_Stats.thy ===== *)
theory Routing_Stats
  imports Prelude
begin

text \<open>
  The gateway's live per-target counters, \<open>control_plane/gateway/stats.py\<close>. The clock is an
  argument of the operations that read it; the short throughput window keeps at most 512 samples.
\<close>

section \<open>One target\<close>

definition EWMA_ALPHA :: rat where
  "EWMA_ALPHA = 0.2"

definition ewma :: "rat option \<Rightarrow> rat \<Rightarrow> rat" where
  "ewma prev sample =
     (case prev of None \<Rightarrow> sample | Some p \<Rightarrow> (1 - EWMA_ALPHA) * p + EWMA_ALPHA * sample)"

record target_stats =
  ts_target_id :: string
  ts_outstanding :: int
  completed :: int
  failed :: int
  total_tokens :: int
  decode_tps :: "rat option"
  ttft_ms :: "rat option"
  mean_duration_s :: "rat option"
  last_completed_at :: "rat option"
  recent :: "(rat \<times> int) list"

definition new_stats :: "string \<Rightarrow> target_stats" where
  "new_stats tid = \<lparr>ts_target_id = tid, ts_outstanding = 0, completed = 0, failed = 0, total_tokens = 0,
     decode_tps = None, ttft_ms = None, mean_duration_s = None, last_completed_at = None, recent = []\<rparr>"

text \<open>Appending to a \<open>deque(maxlen=512)\<close> drops from the left.\<close>

definition append_bounded :: "nat \<Rightarrow> 'a \<Rightarrow> 'a list \<Rightarrow> 'a list" where
  "append_bounded maxlen x xs = drop (Suc (length xs) - maxlen) (xs @ [x])"

definition begin_request :: "target_stats \<Rightarrow> target_stats" where
  "begin_request st = st\<lparr>ts_outstanding := ts_outstanding st + 1\<rparr>"

definition complete_request ::
  "int \<Rightarrow> rat \<Rightarrow> rat option \<Rightarrow> rat option \<Rightarrow> rat \<Rightarrow> target_stats \<Rightarrow> target_stats" where
  "complete_request tokens duration_s decode_s ttft_s now st =
     (let st = st\<lparr>ts_outstanding := max 0 (ts_outstanding st - 1), completed := completed st + 1,
            total_tokens := total_tokens st + tokens, last_completed_at := Some now,
            mean_duration_s := Some (ewma (mean_duration_s st) duration_s)\<rparr>;
          st = (case ttft_s of None \<Rightarrow> st
                | Some t \<Rightarrow> st\<lparr>ttft_ms := Some (ewma (ttft_ms st) (t * 1000))\<rparr>);
          window = (case decode_s of Some d \<Rightarrow> if d > 0 then d else duration_s | None \<Rightarrow> duration_s);
          st = (if tokens > 0 \<and> window > 0
                then st\<lparr>decode_tps := Some (ewma (decode_tps st) (of_int tokens / window))\<rparr> else st)
      in if tokens > 0 then st\<lparr>recent := append_bounded 512 (now, tokens) (recent st)\<rparr> else st)"

definition fail_request :: "target_stats \<Rightarrow> target_stats" where
  "fail_request st = st\<lparr>ts_outstanding := max 0 (ts_outstanding st - 1), failed := failed st + 1\<rparr>"

definition tokens_per_sec :: "rat \<Rightarrow> rat \<Rightarrow> target_stats \<Rightarrow> rat" where
  "tokens_per_sec window_s now st =
     (let tot = sum_list (map snd (filter (\<lambda>p. fst p \<ge> now - window_s) (recent st)))
      in if window_s > 0 then of_int tot / window_s else 0)"

text \<open>\<open>round()\<close> goes to the nearest integer and to the even one from half way.\<close>

definition py_round :: "rat \<Rightarrow> int" where
  "py_round x =
     (let f = \<lfloor>x\<rfloor>; d = x - of_int f
      in if d < 1/2 then f else if d > 1/2 then f + 1 else if even f then f else f + 1)"

definition retry_after_s :: "int \<Rightarrow> target_stats \<Rightarrow> int" where
  "retry_after_s fallback st =
     (case mean_duration_s st of
        None \<Rightarrow> fallback
      | Some d \<Rightarrow> if d \<le> 0 then fallback else max 1 (py_round d))"

section \<open>The registry\<close>

type_synonym stats_registry = "(string, target_stats) dict"

definition stats_get :: "string \<Rightarrow> stats_registry \<Rightarrow> target_stats \<times> stats_registry" where
  "stats_get tid reg =
     (case dget reg tid of
        Some st \<Rightarrow> (st, reg)
      | None \<Rightarrow> (new_stats tid, dset tid (new_stats tid) reg))"

definition stats_peek :: "string \<Rightarrow> stats_registry \<Rightarrow> target_stats option" where
  "stats_peek tid reg = dget reg tid"

definition stats_outstanding :: "stats_registry \<Rightarrow> string \<Rightarrow> int" where
  "stats_outstanding reg tid = (case dget reg tid of Some st \<Rightarrow> ts_outstanding st | None \<Rightarrow> 0)"

definition total_tokens_per_sec :: "rat \<Rightarrow> rat \<Rightarrow> stats_registry \<Rightarrow> rat" where
  "total_tokens_per_sec window_s now reg = sum_list (map (tokens_per_sec window_s now) (dvalues reg))"

section \<open>Histories\<close>

datatype stats_op = BeginRequest | CompleteRequest int rat "rat option" "rat option" rat | FailRequest

fun stats_step :: "target_stats \<Rightarrow> stats_op \<Rightarrow> target_stats" where
  "stats_step st BeginRequest = begin_request st"
| "stats_step st (CompleteRequest n d dec ttft now) = complete_request n d dec ttft now st"
| "stats_step st FailRequest = fail_request st"

text \<open>What the counters should read: requests started and not finished, and those finished.\<close>

fun in_flight :: "stats_op list \<Rightarrow> int" where
  "in_flight [] = 0"
| "in_flight (BeginRequest # ops) = in_flight ops + 1"
| "in_flight (_ # ops) = in_flight ops - 1"

text \<open>In every prefix of a history no request finishes before it started.\<close>

definition well_paired :: "stats_op list \<Rightarrow> bool" where
  "well_paired ops \<longleftrightarrow> (\<forall>n \<le> length ops. 0 \<le> in_flight (take n ops))"

lemma in_flight_append [simp]: "in_flight (xs @ ys) = in_flight xs + in_flight ys"
  by (induction xs rule: in_flight.induct) auto

lemma well_paired_snoc: "well_paired (ops @ [x]) \<Longrightarrow> well_paired ops \<and> 0 \<le> in_flight (ops @ [x])"
proof -
  assume wp: "well_paired (ops @ [x])"
  have "0 \<le> in_flight (take n ops)" if "n \<le> length ops" for n
    using wp that unfolding well_paired_def by (metis le_SucI length_append_singleton take_append diff_is_0_eq' take0 append_Nil2)
  moreover have "0 \<le> in_flight (ops @ [x])"
    using wp unfolding well_paired_def by (metis order_refl take_all)
  ultimately show ?thesis by (simp add: well_paired_def)
qed

lemma step_outstanding:
  "ts_outstanding (stats_step st x) = max 0 (ts_outstanding st + in_flight [x]) \<or> x = BeginRequest"
  by (cases x) (auto simp: complete_request_def fail_request_def Let_def split: option.splits)

lemma outstanding_is_in_flight:
  "well_paired ops \<Longrightarrow> ts_outstanding (foldl stats_step (new_stats tid) ops) = in_flight ops"
proof (induction ops rule: rev_induct)
  case (snoc x ops)
  then show ?case
    using well_paired_snoc [OF snoc.prems] step_outstanding [of "foldl stats_step (new_stats tid) ops" x]
    by (cases x) (auto simp: begin_request_def)
qed (simp add: new_stats_def)

lemma outstanding_nonneg: "0 \<le> ts_outstanding (foldl stats_step (new_stats tid) ops)"
proof (induction ops rule: rev_induct)
  case (snoc x ops)
  then show ?case
    using step_outstanding [of "foldl stats_step (new_stats tid) ops" x]
    by (auto simp: begin_request_def)
qed (simp add: new_stats_def)

text \<open>An average stays between the extremes of what was averaged.\<close>

lemma ewma_between:
  assumes "case prev of None \<Rightarrow> True | Some p \<Rightarrow> lo \<le> p \<and> p \<le> hi" and "lo \<le> x" and "x \<le> hi"
  shows "lo \<le> ewma prev x \<and> ewma prev x \<le> hi"
  using assms by (cases prev) (auto simp: ewma_def EWMA_ALPHA_def field_simps)

lemma retry_after_positive: "1 \<le> fallback \<Longrightarrow> 1 \<le> retry_after_s fallback st"
  by (simp add: retry_after_s_def split: option.split)

lemma recent_bounded:
  "length (recent st) \<le> 512 \<Longrightarrow> length (recent (stats_step st x)) \<le> 512"
  by (cases x) (auto simp: begin_request_def complete_request_def fail_request_def append_bounded_def
      Let_def split: option.splits)

end
