(* ===== verification/Strength.thy ===== *)
theory Strength
  imports Contracts Gateway_Settings Routing_Stats
begin

text \<open>
  Target strength and traffic weights, \<open>control_plane/gateway/strength.py\<close>: the ladder of sources a
  score comes from, the scale the topology view draws, and the shares the capacity policy serves.
\<close>

datatype strength_source = SOURCE_MEASURED | SOURCE_PREDICTED | SOURCE_BANDWIDTH | SOURCE_DEFAULT

record strength_score =
  raw :: rat
  source :: strength_source

text \<open>The measured rate, once enough requests have completed.\<close>

definition measured_rate :: "gateway_settings \<Rightarrow> target_stats option \<Rightarrow> rat option" where
  "measured_rate s st =
     (case st of
        None \<Rightarrow> None
      | Some st \<Rightarrow>
        if completed st \<ge> measured_strength_min_requests s
        then (case decode_tps st of Some r \<Rightarrow> if r > 0 then Some r else None | None \<Rightarrow> None)
        else None)"

definition plan_node_ids :: "deployment \<Rightarrow> string list" where
  "plan_node_ids d = (case dep_plan d of None \<Rightarrow> [] | Some p \<Rightarrow> node_ids p)"

definition plan_bandwidth :: "(string, node_profile) dict \<Rightarrow> string list \<Rightarrow> rat" where
  "plan_bandwidth profiles ids =
     sum_list (map (\<lambda>n. case dget profiles n of
         None \<Rightarrow> 0
       | Some p \<Rightarrow> memory_bandwidth_gbps p * of_int (max 1 (gpu_count p))) ids)"

definition local_strength ::
  "deployment \<Rightarrow> stats_registry \<Rightarrow> (string, node_profile) dict \<Rightarrow> gateway_settings \<Rightarrow> strength_score" where
  "local_strength d stats profiles s =
     (case measured_rate s (stats_peek (deployment_id d) stats) of
        Some r \<Rightarrow> \<lparr>raw = r, source = SOURCE_MEASURED\<rparr>
      | None \<Rightarrow>
        (case (case dep_fit d of None \<Rightarrow> None | Some f \<Rightarrow> predicted_decode_tps f) of
           Some p \<Rightarrow>
             if p > 0 then \<lparr>raw = p, source = SOURCE_PREDICTED\<rparr>
             else let b = plan_bandwidth profiles (plan_node_ids d) in
               if b > 0 then \<lparr>raw = b, source = SOURCE_BANDWIDTH\<rparr> else \<lparr>raw = 1, source = SOURCE_DEFAULT\<rparr>
         | None \<Rightarrow>
             let b = plan_bandwidth profiles (plan_node_ids d) in
               if b > 0 then \<lparr>raw = b, source = SOURCE_BANDWIDTH\<rparr> else \<lparr>raw = 1, source = SOURCE_DEFAULT\<rparr>))"

definition remote_strength :: "string \<Rightarrow> stats_registry \<Rightarrow> gateway_settings \<Rightarrow> strength_score" where
  "remote_strength tid stats s =
     (case measured_rate s (stats_peek tid stats) of
        Some r \<Rightarrow> \<lparr>raw = r, source = SOURCE_MEASURED\<rparr>
      | None \<Rightarrow> \<lparr>raw = remote_default_strength s, source = SOURCE_DEFAULT\<rparr>)"

definition normalize_strength :: "(string, rat) dict \<Rightarrow> (string, rat) dict" where
  "normalize_strength scores =
     (if scores = [] then []
      else let top = Max (set (dvalues scores)) in
        if top \<le> 0 then map (\<lambda>p. (fst p, 0)) scores else map (\<lambda>p. (fst p, snd p / top)) scores)"

definition local_values :: "(string, target_kind) dict \<Rightarrow> (string, rat) dict \<Rightarrow> rat list" where
  "local_values kinds scores = map snd (filter (\<lambda>p. dget kinds (fst p) = Some LOCAL) scores)"

definition strongest_local :: "(string, target_kind) dict \<Rightarrow> (string, rat) dict \<Rightarrow> rat" where
  "strongest_local kinds scores =
     (let ls = local_values kinds scores in if ls \<noteq> [] then Max (set ls) else 0)"

text \<open>A local target below the floor of the strongest one is held back; what the others are worth.\<close>

definition held_back :: "(string, target_kind) dict \<Rightarrow> gateway_settings \<Rightarrow> rat \<Rightarrow> string \<times> rat \<Rightarrow> bool" where
  "held_back kinds s strongest p \<longleftrightarrow>
     dget kinds (fst p) = Some LOCAL \<and> strongest > 0 \<and> snd p < strongest * weak_target_floor s"

definition floored :: "(string, target_kind) dict \<Rightarrow> gateway_settings \<Rightarrow> rat \<Rightarrow> string \<times> rat \<Rightarrow> rat" where
  "floored kinds s strongest p =
     (if held_back kinds s strongest p then 0 else max 0 (snd p))"

definition compute_weights ::
  "(string, rat) dict \<Rightarrow> (string, target_kind) dict \<Rightarrow> gateway_settings \<Rightarrow> (string, rat) dict" where
  "compute_weights scores kinds s =
     (if scores = [] then []
      else let worth = floored kinds s (strongest_local kinds scores);
               tot = sum_list (map worth scores)
        in if tot \<le> 0 then map (\<lambda>p. (fst p, 1 / of_nat (length scores))) scores
           else map (\<lambda>p. (fst p, worth p / tot)) scores)"

definition strength_spread :: "(string, rat) dict \<Rightarrow> (string, target_kind) dict \<Rightarrow> rat" where
  "strength_spread scores kinds =
     (let ls = filter (\<lambda>v. v > 0) (local_values kinds scores) in
      if length ls < 2 then 0
      else let top = Max (set ls); bottom = Min (set ls) in
        if top \<le> 0 then 0 else (top - bottom) / top)"

section \<open>What the numbers mean\<close>

lemma normalize_strength_unit:
  assumes "\<forall>v \<in> set (dvalues scores). 0 \<le> v" and "p \<in> set (normalize_strength scores)"
  shows "0 \<le> snd p \<and> snd p \<le> 1"
proof -
  define top where "top = Max (set (dvalues scores))"
  have ne: "scores \<noteq> []" using assms(2) by (auto simp: normalize_strength_def)
  have scaled: "normalize_strength scores = (if top \<le> 0 then map (\<lambda>p. (fst p, 0)) scores
      else map (\<lambda>p. (fst p, snd p / top)) scores)"
    unfolding normalize_strength_def top_def Let_def using ne by simp
  consider "top \<le> 0" "snd p = 0" | q where "0 < top" "q \<in> set scores" "snd p = snd q / top"
    using assms(2) unfolding scaled by (auto simp: not_le split: if_splits)
  then show ?thesis
  proof cases
    case 2
    have "snd q \<le> top" using 2(2) unfolding top_def by (intro Max_ge) auto
    moreover have "0 \<le> snd q" using assms(1) 2(2) by auto
    ultimately show ?thesis using 2(1,3) by (simp add: divide_le_eq)
  qed simp
qed

lemma spread_unit: "0 \<le> strength_spread scores kinds \<and> strength_spread scores kinds < 1"
proof -
  define ls where "ls = filter (\<lambda>v. v > 0) (local_values kinds scores)"
  have pos: "\<forall>v \<in> set ls. 0 < v" by (simp add: ls_def)
  show ?thesis
  proof (cases "length ls < 2")
    case False
    then have ne: "set ls \<noteq> {}" by auto
    have "Min (set ls) \<in> set ls" using ne by (intro Min_in) auto
    then have "Min (set ls) \<le> Max (set ls)" "0 < Min (set ls)"
      using pos by (auto intro: Max_ge)
    then show ?thesis
      using False by (simp add: strength_spread_def ls_def [symmetric] Let_def divide_less_eq)
  qed (simp add: strength_spread_def ls_def [symmetric])
qed

lemma strongest_local_ge:
  "p \<in> set scores \<Longrightarrow> dget kinds (fst p) = Some LOCAL \<Longrightarrow> snd p \<le> strongest_local kinds scores"
  by (auto simp: strongest_local_def local_values_def Let_def filter_empty_conv intro!: Max_ge)

lemma floored_nonneg: "0 \<le> floored kinds s m p"
  by (simp add: floored_def)

lemma sum_divided: "sum_list (map (\<lambda>p. f p / (c :: rat)) xs) = sum_list (map f xs) / c"
  by (induction xs) (simp_all add: add_divide_distrib)

lemma some_worth:
  assumes "0 < strongest_local kinds scores" and "weak_target_floor s \<le> 1"
  shows "0 < sum_list (map (floored kinds s (strongest_local kinds scores)) scores)"
proof -
  let ?m = "strongest_local kinds scores"
  have ne: "local_values kinds scores \<noteq> []"
    using assms(1) by (auto simp: strongest_local_def)
  then have "?m \<in> set (local_values kinds scores)"
    by (simp add: strongest_local_def Let_def)
  then obtain p where p: "p \<in> set scores" "snd p = ?m" by (auto simp: local_values_def)
  have "?m * weak_target_floor s \<le> ?m" using assms by (simp add: mult_left_le)
  then have "0 < floored kinds s ?m p"
    using p assms(1) by (simp add: floored_def held_back_def)
  moreover have "floored kinds s ?m p \<le> sum_list (map (floored kinds s ?m) scores)"
    using p(1) by (intro member_le_sum_list) (auto simp: floored_nonneg)
  ultimately show ?thesis by linarith
qed

lemma dget_map_value: "dget (map (\<lambda>p. (fst p, f p)) d) k = map_option (\<lambda>v. f (k, v)) (dget d k)"
  by (induction d) auto

lemma weight_of:
  "dget (compute_weights scores kinds s) k = (let worth = floored kinds s (strongest_local kinds scores);
      tot = sum_list (map worth scores) in
    map_option (\<lambda>v. if tot \<le> 0 then 1 / of_nat (length scores) else worth (k, v) / tot) (dget scores k))"
  by (simp add: compute_weights_def Let_def dget_map_value)

lemma sum_weights:
  assumes "scores \<noteq> []"
  shows "sum_list (dvalues (compute_weights scores kinds s)) = 1"
  using assms
  by (simp add: compute_weights_def Let_def comp_def sum_divided sum_list_triv field_simps)

text \<open>Weights are traffic shares. Whatever the scores, the weights name the same targets, none
  is negative and together they are exactly one. A local target below the floor of the strongest
  local one gets nothing (for a floor of at most one), and two targets that are not held back
  share in the ratio of their scores.\<close>

theorem weights_are_shares:
  fixes kinds :: "(string, target_kind) dict" and s :: gateway_settings
  assumes "dict_ok scores" and "p \<in> set scores" and "q \<in> set scores"
  defines "w \<equiv> compute_weights scores kinds s"
  defines "held \<equiv> held_back kinds s (strongest_local kinds scores)"
  shows "dkeys w = dkeys scores \<and> sum_list (dvalues w) = 1
    \<and> (\<exists>a b. dget w (fst p) = Some a \<and> dget w (fst q) = Some b \<and> 0 \<le> a
        \<and> (held p \<and> weak_target_floor s \<le> 1 \<longrightarrow> a = 0)
        \<and> (\<not> held p \<and> \<not> held q \<and> 0 < snd p \<and> 0 \<le> snd q \<longrightarrow> a * snd q = b * snd p))"
proof -
  let ?worth = "floored kinds s (strongest_local kinds scores)"
  define tot where "tot = sum_list (map ?worth scores)"
  have ne: "scores \<noteq> []" using assms(2) by auto
  have look: "dget scores (fst p) = Some (snd p)" "dget scores (fst q) = Some (snd q)"
    using assms(1-3) by simp_all
  have keys: "dkeys w = dkeys scores"
    by (simp add: w_def compute_weights_def Let_def)
  have none: "held p \<Longrightarrow> weak_target_floor s \<le> 1 \<Longrightarrow> 0 < tot \<and> ?worth p = 0"
    using some_worth [of kinds scores s] by (simp add: held_def held_back_def floored_def tot_def)
  have worth_le: "?worth p \<le> tot" unfolding tot_def
    using assms(2) by (intro member_le_sum_list) (auto simp: floored_nonneg)
  have mine: "\<not> held p \<Longrightarrow> 0 < snd p \<Longrightarrow> ?worth p = snd p \<and> 0 < tot"
    using worth_le by (simp add: floored_def held_def)
  have yours: "\<not> held q \<Longrightarrow> 0 \<le> snd q \<Longrightarrow> ?worth q = snd q"
    by (simp add: floored_def held_def)
  let ?share = "\<lambda>r. if tot \<le> 0 then 1 / of_nat (length scores) else ?worth r / tot"
  have "dget w (fst p) = Some (?share p)" "dget w (fst q) = Some (?share q)"
    using look by (simp_all add: w_def weight_of Let_def tot_def)
  moreover have "0 \<le> ?share p" by (simp add: floored_nonneg)
  ultimately show ?thesis
    using keys sum_weights [OF ne, of kinds s] none mine yours
    by (auto simp: w_def simp flip: w_def intro!: exI [of _ "?share p"] exI [of _ "?share q"])
qed

text \<open>A strong and a weak replica beside an unmeasured provider.\<close>

theorem weights_are_shares_witness:
  "sum_list (dvalues (compute_weights [(''a'', 100), (''b'', 10), (''p:m'', 50)]
      [(''a'', LOCAL), (''b'', LOCAL), (''p:m'', REMOTE)] default_settings)) = 1
   \<and> dget (compute_weights [(''a'', 100), (''b'', 10), (''p:m'', 50)]
      [(''a'', LOCAL), (''b'', LOCAL), (''p:m'', REMOTE)] default_settings) ''b'' = Some 0"
proof -
  let ?d = "[(''a'', 100), (''b'', 10), (''p:m'', 50)] :: (string, rat) dict"
  let ?k = "[(''a'', LOCAL), (''b'', LOCAL), (''p:m'', REMOTE)]"
  have "dict_ok ?d" "(''b'', 10) \<in> set ?d" "(''a'', 100) \<in> set ?d" by simp_all
  note shares = weights_are_shares [OF this, of ?k default_settings]
  have "held_back ?k default_settings (strongest_local ?k ?d) (''b'', 10)"
    "weak_target_floor default_settings \<le> 1"
    by code_simp+
  with shares show ?thesis by auto
qed

end
