(* ===== verification/Targets.thy ===== *)
theory Targets
  imports Strength
begin

text \<open>
  The routable view of the cluster, \<open>control_plane/gateway/targets.py\<close>: deployments and provider
  models merged into one target list per served name, and the scores that fill in strength, weight
  and the reason a target is held back. \<open>is_blocked\<close> is the callback the code passes in.
\<close>

section \<open>Costs\<close>

definition ROUTABLE_STATES :: "deployment_state list" where
  "ROUTABLE_STATES = gw_SERVING"

definition local_cost_per_mtok :: "rat \<Rightarrow> rat option \<Rightarrow> rat \<Rightarrow> rat option" where
  "local_cost_per_mtok watts tps rate =
     (if rate \<le> 0 then Some 0
      else case tps of
        None \<Rightarrow> None
      | Some r \<Rightarrow> if watts = 0 \<or> r \<le> 0 then None
          else Some (watts / 1000 * rate / (r * 3600) * 1000000))"

definition remote_cost_per_mtok :: "provider_model \<Rightarrow> rat option" where
  "remote_cost_per_mtok m =
     (case output_cost_per_mtok m of Some c \<Rightarrow> Some c | None \<Rightarrow> input_cost_per_mtok m)"

section \<open>The index\<close>

record target_index =
  ix_targets :: "(string, route_target list) dict"
  ix_deployments :: "(string, deployment) dict"
  ix_remotes :: "(string, provider \<times> provider_model) dict"
  raw_strength :: "(string, strength_score) dict"
  ix_capacity :: "(string, int) dict"
  ix_remote_priority :: "(string, int) dict"
  ix_context_length :: "(string, int) dict"
  ix_modality :: "(string, modality) dict"
  pending :: "(string, deployment list) dict"
  zero_weight_reason :: "(string, msg option) dict"

definition empty_index :: target_index where
  "empty_index = \<lparr>ix_targets = [], ix_deployments = [], ix_remotes = [], raw_strength = [], ix_capacity = [],
     ix_remote_priority = [], ix_context_length = [], ix_modality = [], pending = [], zero_weight_reason = []\<rparr>"

text \<open>A dictionary comprehension, and \<open>d.setdefault(k, []).append(x)\<close>.\<close>

definition dict_of :: "('a \<Rightarrow> 'k) \<Rightarrow> ('a \<Rightarrow> 'v) \<Rightarrow> 'a list \<Rightarrow> ('k, 'v) dict" where
  "dict_of k v xs = foldl (\<lambda>d x. dset (k x) (v x) d) [] xs"

definition dappend :: "'k \<Rightarrow> 'v \<Rightarrow> ('k, 'v list) dict \<Rightarrow> ('k, 'v list) dict" where
  "dappend k x d = dset k (dget_or d k [] @ [x]) d"

definition all_targets :: "target_index \<Rightarrow> route_target list" where
  "all_targets ix = concat (dvalues (ix_targets ix))"

definition served_names :: "target_index \<Rightarrow> string list" where
  "served_names ix = sort (remdups (dkeys (ix_targets ix) @ dkeys (pending ix)))"

definition kinds :: "target_index \<Rightarrow> (string, target_kind) dict" where
  "kinds ix = dict_of target_id target_kind (all_targets ix)"

definition node_ids_for :: "target_index \<Rightarrow> string \<Rightarrow> string list" where
  "node_ids_for ix tid =
     (case dget (ix_deployments ix) tid of None \<Rightarrow> [] | Some d \<Rightarrow> plan_node_ids d)"

definition local_target ::
  "(string, rat) dict \<Rightarrow> stats_registry \<Rightarrow> gateway_settings \<Rightarrow> (string \<Rightarrow> bool) \<Rightarrow> deployment \<Rightarrow> route_target" where
  "local_target draw stats s is_blocked d =
     (let tid = deployment_id d;
          node_power = sum_list (map (\<lambda>n. dget_or draw n 0) (plan_node_ids d));
          cost = local_cost_per_mtok node_power
            (case stats_peek tid stats of Some st \<Rightarrow> decode_tps st | None \<Rightarrow> None)
            (electricity_rate_usd_per_kwh s)
      in \<lparr>target_id = tid, target_kind = LOCAL, target_url = (case backend_url d of Some u \<Rightarrow> u | None \<Rightarrow> []),
          weight = 0, outstanding = stats_outstanding stats tid, healthy = dep_state d \<in> set ROUTABLE_STATES,
          admitting = \<not> is_blocked tid, strength = 0, cost_per_mtok = cost\<rparr>)"

definition add_deployment ::
  "(string, node_profile) dict \<Rightarrow> (string, rat) dict \<Rightarrow> stats_registry \<Rightarrow> gateway_settings
    \<Rightarrow> (string \<Rightarrow> bool) \<Rightarrow> target_index \<Rightarrow> deployment \<Rightarrow> target_index" where
  "add_deployment profiles draw stats s is_blocked ix d =
     (if dep_state d \<notin> set ROUTABLE_STATES \<or> backend_url d = None \<or> backend_url d = Some [] then
        if dep_state d \<notin> set gw_TERMINAL then ix\<lparr>pending := dappend (served_name d) d (pending ix)\<rparr> else ix
      else
        let tid = deployment_id d
        in ix\<lparr>ix_deployments := dset tid d (ix_deployments ix),
              raw_strength := dset tid (local_strength d stats profiles s) (raw_strength ix),
              ix_capacity := dset tid (dep_max_concurrent_seqs d) (ix_capacity ix),
              zero_weight_reason := dset tid None (zero_weight_reason ix),
              ix_context_length := dsetdefault (served_name d) (dep_context_length d) (ix_context_length ix),
              ix_modality := dsetdefault (served_name d) (dep_modality d) (ix_modality ix),
              ix_targets := dappend (served_name d) (local_target draw stats s is_blocked d) (ix_targets ix)\<rparr>)"

definition remote_id :: "provider \<Rightarrow> provider_model \<Rightarrow> string" where
  "remote_id p m = provider_id p @ '':'' @ upstream_id m"

definition remote_target ::
  "stats_registry \<Rightarrow> (string \<Rightarrow> bool) \<Rightarrow> provider \<Rightarrow> provider_model \<Rightarrow> route_target" where
  "remote_target stats is_blocked p m =
     (let tid = remote_id p m
      in \<lparr>target_id = tid, target_kind = REMOTE, target_url = base_url p, weight = 0,
          outstanding = stats_outstanding stats tid, healthy = prov_healthy p,
          admitting = prov_healthy p \<and> \<not> is_blocked tid, strength = 0,
          cost_per_mtok = remote_cost_per_mtok m\<rparr>)"

definition add_remote ::
  "stats_registry \<Rightarrow> gateway_settings \<Rightarrow> (string \<Rightarrow> bool) \<Rightarrow> provider \<Rightarrow> target_index \<Rightarrow> provider_model
    \<Rightarrow> target_index" where
  "add_remote stats s is_blocked p ix m =
     (let tid = remote_id p m
      in ix\<lparr>ix_remotes := dset tid (p, m) (ix_remotes ix),
            raw_strength := dset tid (remote_strength tid stats s) (raw_strength ix),
            ix_remote_priority := dset tid (priority p) (ix_remote_priority ix),
            zero_weight_reason := dset tid None (zero_weight_reason ix),
            ix_context_length := dsetdefault (pm_served_name m) (pm_context_length m) (ix_context_length ix),
            ix_modality := dsetdefault (pm_served_name m) (pm_modality m) (ix_modality ix),
            ix_targets := dappend (pm_served_name m) (remote_target stats is_blocked p m) (ix_targets ix)\<rparr>)"

definition add_provider ::
  "stats_registry \<Rightarrow> gateway_settings \<Rightarrow> (string \<Rightarrow> bool) \<Rightarrow> target_index \<Rightarrow> provider \<Rightarrow> target_index" where
  "add_provider stats s is_blocked ix p =
     (if \<not> enabled p then ix else foldl (add_remote stats s is_blocked p) ix (models p))"

definition build_index ::
  "deployment list \<Rightarrow> provider list \<Rightarrow> node_state list \<Rightarrow> stats_registry \<Rightarrow> gateway_settings
    \<Rightarrow> (string \<Rightarrow> bool) \<Rightarrow> target_index" where
  "build_index deployments providers nodes stats s is_blocked =
     (let profiles = dict_of (\<lambda>n. node_id (profile n)) profile nodes;
          draw = dict_of (\<lambda>n. node_id (profile n)) power_watts nodes;
          ix = foldl (add_deployment profiles draw stats s is_blocked) empty_index deployments
      in foldl (add_provider stats s is_blocked) ix providers)"

section \<open>Scores\<close>

text \<open>Scores of one served name; an unmeasured remote counts as the average local target.\<close>

definition group_scores :: "(string, strength_score) dict \<Rightarrow> route_target list \<Rightarrow> (string, rat) dict" where
  "group_scores scores targets =
     (let group_raw = dict_of target_id
            (\<lambda>t. case dget scores (target_id t) of Some sc \<Rightarrow> raw sc | None \<Rightarrow> 0) targets;
          group_kinds = dict_of target_id target_kind targets;
          locals = map snd (filter (\<lambda>p. dget group_kinds (fst p) = Some LOCAL \<and> snd p > 0) group_raw)
      in if locals = [] then group_raw
         else let neutral = sum_list locals / of_nat (length locals) in
           foldl (\<lambda>d t. if target_kind t = REMOTE
                \<and> (case dget scores (target_id t) of Some sc \<Rightarrow> source sc = SOURCE_DEFAULT | None \<Rightarrow> False)
              then dset (target_id t) neutral d else d) group_raw targets)"

definition floor_reason :: "gateway_settings \<Rightarrow> msg" where
  "floor_reason s = Msg ''strength is below the floor of the strongest local replica; held as failover only''
     [F (weak_target_floor s)]"

definition score_group ::
  "gateway_settings \<Rightarrow> (string, strength_score) dict \<Rightarrow> (string, rat) dict \<Rightarrow> route_target list
    \<Rightarrow> route_target list \<times> (string \<times> msg option) list" where
  "score_group s scores strengths targets =
     (let group_raw = group_scores scores targets;
          group_kinds = dict_of target_id target_kind targets;
          weights = compute_weights group_raw group_kinds s;
          strongest = strongest_local group_kinds group_raw
      in (map (\<lambda>t. t\<lparr>strength := dget_or strengths (target_id t) 0, weight := dget_or weights (target_id t) 0\<rparr>)
            targets,
          map (\<lambda>t. (target_id t,
              if target_kind t = LOCAL \<and> strongest > 0
                 \<and> dget_or group_raw (target_id t) 0 < strongest * weak_target_floor s
              then Some (floor_reason s) else None)) targets))"

definition apply_scores :: "target_index \<Rightarrow> gateway_settings \<Rightarrow> target_index" where
  "apply_scores ix s =
     (let strengths = normalize_strength (map (\<lambda>p. (fst p, raw (snd p))) (raw_strength ix));
          scored = map (\<lambda>p. (fst p, score_group s (raw_strength ix) strengths (snd p))) (ix_targets ix)
      in ix\<lparr>ix_targets := map (\<lambda>p. (fst p, fst (snd p))) scored,
            zero_weight_reason := foldl (\<lambda>d r. dset (fst r) (snd r) d) (zero_weight_reason ix)
              (concat (map (\<lambda>p. snd (snd p)) scored))\<rparr>)"

section \<open>Dictionaries built from lists\<close>

lemma dset_new: "k \<notin> set (dkeys d) \<Longrightarrow> dset k v d = d @ [(k, v)]"
  by (induction d) auto

lemma dkeys_dset_old: "k \<in> set (dkeys d) \<Longrightarrow> dkeys (dset k v d) = dkeys d"
  by (induction d) auto

lemma dict_of_map: "distinct (map k xs) \<Longrightarrow> dict_of k v xs = map (\<lambda>x. (k x, v x)) xs"
proof (induction xs rule: rev_induct)
  case (snoc x xs)
  then have "k x \<notin> set (dkeys (map (\<lambda>x. (k x, v x)) xs))" by auto
  with snoc show ?case by (simp add: dict_of_def dset_new comp_def)
qed (simp add: dict_of_def)

lemma dget_dict_of:
  assumes "distinct (map k xs)" and "x \<in> set xs"
  shows "dget (dict_of k v xs) (k x) = Some (v x)"
proof -
  have "dict_ok (map (\<lambda>x. (k x, v x)) xs)" using assms(1) by (simp add: comp_def)
  then show ?thesis unfolding dict_of_map [OF assms(1)] using assms(2) by simp
qed

lemma dkeys_foldl_dset:
  assumes "\<And>t. t \<in> set ts \<Longrightarrow> k t \<in> set (dkeys d)"
  shows "dkeys (foldl (\<lambda>d t. if P t then dset (k t) v d else d) d ts) = dkeys d"
  using assms
proof (induction ts arbitrary: d)
  case (Cons t ts)
  have "dkeys (if P t then dset (k t) v d else d) = dkeys d"
    using Cons.prems [of t] by (simp add: dkeys_dset_old)
  then show ?case
    using Cons.IH [of "if P t then dset (k t) v d else d"] Cons.prems by simp
qed simp

lemma dkeys_group_scores:
  "distinct (map target_id ts) \<Longrightarrow> dkeys (group_scores scores ts) = map target_id ts"
  by (simp add: group_scores_def Let_def dict_of_map dkeys_foldl_dset comp_def)

section \<open>What scoring does to a model's targets\<close>

lemma score_group_targets:
  "fst (score_group s scores strengths ts) = map (\<lambda>t. t\<lparr>strength := dget_or strengths (target_id t) 0,
     weight := dget_or (compute_weights (group_scores scores ts) (dict_of target_id target_kind ts) s) (target_id t) 0\<rparr>) ts"
  by (simp add: score_group_def Let_def)

lemma listed_values:
  "dict_ok d \<Longrightarrow> dkeys d = map k ts \<Longrightarrow> map (\<lambda>t. dget_or d (k t) v) ts = dvalues d"
proof (induction ts arbitrary: d)
  case (Cons t ts)
  obtain w e where d: "d = (k t, w) # e" "dkeys e = map k ts"
    using Cons.prems(2) by (cases d) auto
  have "map (\<lambda>u. dget_or d (k u) v) ts = map (\<lambda>u. dget_or e (k u) v) ts"
    using Cons.prems d by (auto simp: dget_or_def image_iff)
  also have "\<dots> = dvalues e"
    using Cons.IH [of e] Cons.prems(1) d by simp
  finally have rest: "map (\<lambda>u. dget_or d (k u) v) ts = dvalues e" .
  have "dget_or d (k t) v = w" by (simp add: d(1) dget_or_def)
  then show ?case unfolding list.map rest by (simp add: d(1))
qed simp

text \<open>Scoring a model's targets keeps them and splits its traffic. The same targets come
  back in order with only strength and weight filled in, their weights are non-negative and sum to
  one, and a target carries a floor reason exactly when it is a local one held back, in which case
  its weight is zero: the reason shown and the share served never disagree.\<close>

theorem scored_targets_share_traffic:
  assumes "score_group s scores strengths ts = (ts', reasons)" and "distinct (map target_id ts)"
    and "ts \<noteq> []" and "weak_target_floor s \<le> 1"
  shows "map (\<lambda>t. t\<lparr>strength := 0, weight := 0\<rparr>) ts' = map (\<lambda>t. t\<lparr>strength := 0, weight := 0\<rparr>) ts
    \<and> (\<forall>t \<in> set ts'. 0 \<le> weight t) \<and> sum_list (map weight ts') = 1
    \<and> map fst reasons = map target_id ts'
    \<and> (\<forall>t \<in> set ts'. dget reasons (target_id t) \<noteq> Some None \<longrightarrow> target_kind t = LOCAL \<and> weight t = 0)"
proof -
  define g where "g = group_scores scores ts"
  define kd where "kd = dict_of target_id target_kind ts"
  define w where "w = compute_weights g kd s"
  have keys: "dkeys g = map target_id ts" using assms(2) by (simp add: g_def dkeys_group_scores)
  have ok: "dict_ok g" using keys assms(2) by simp
  have ne: "g \<noteq> []" using keys assms(3) by auto
  have wkeys: "dkeys w = map target_id ts"
    by (simp add: w_def compute_weights_def Let_def keys flip: keys)
  have wok: "dict_ok w" using wkeys assms(2) by simp
  have ts': "ts' = map (\<lambda>t. t\<lparr>strength := dget_or strengths (target_id t) 0, weight := dget_or w (target_id t) 0\<rparr>) ts"
    using score_group_targets [of s scores strengths ts] assms(1) by (simp add: g_def kd_def w_def)
  have reasons: "reasons = map (\<lambda>t. (target_id t, if target_kind t = LOCAL \<and> strongest_local kd g > 0
      \<and> dget_or g (target_id t) 0 < strongest_local kd g * weak_target_floor s
      then Some (floor_reason s) else None)) ts"
    using assms(1) by (simp add: score_group_def Let_def g_def kd_def)
  have nonneg: "0 \<le> dget_or w k 0" for k
    by (simp add: w_def weight_of Let_def dget_or_def floored_nonneg split: option.split)
  have "sum_list (map weight ts') = sum_list (map (\<lambda>t. dget_or w (target_id t) 0) ts)"
    by (simp add: ts' comp_def)
  also have "\<dots> = sum_list (dvalues w)"
    by (simp only: listed_values [OF wok wkeys])
  also have "\<dots> = 1" unfolding w_def by (rule sum_weights [OF ne])
  finally have one: "sum_list (map weight ts') = 1" .
  have "target_kind t = LOCAL \<and> dget_or w (target_id t) 0 = 0"
    if t: "t \<in> set ts" and why: "dget reasons (target_id t) \<noteq> Some None" for t
  proof -
    have "dict_ok reasons" using assms(2) by (simp add: reasons comp_def)
    then have "dget reasons (target_id t) = Some (if target_kind t = LOCAL \<and> strongest_local kd g > 0
      \<and> dget_or g (target_id t) 0 < strongest_local kd g * weak_target_floor s
      then Some (floor_reason s) else None)"
      by (rule map_of_is_SomeI) (use t in \<open>auto simp: reasons\<close>)
    then have low: "target_kind t = LOCAL" "0 < strongest_local kd g"
      "dget_or g (target_id t) 0 < strongest_local kd g * weak_target_floor s"
      using why by (auto split: if_splits)
    obtain v where v: "dget g (target_id t) = Some v"
      using t keys by (metis domD domIff image_eqI list.set_map map_of_eq_None_iff)
    have "held_back kd s (strongest_local kd g) (target_id t, v)"
      using low v dget_dict_of [OF assms(2) t, of target_kind]
      by (simp add: held_back_def kd_def)
    then have "floored kd s (strongest_local kd g) (target_id t, v) = 0"
      by (simp add: floored_def)
    then show ?thesis
      using low v some_worth [OF low(2) assms(4)] by (simp add: w_def weight_of Let_def dget_or_def)
  qed
  then show ?thesis
    using one nonneg by (auto simp: ts' reasons)
qed

theorem scored_targets_share_traffic_witness:
  "\<exists>ts' reasons. score_group default_settings
      [(''a'', \<lparr>raw = 100, source = SOURCE_MEASURED\<rparr>), (''b'', \<lparr>raw = 10, source = SOURCE_MEASURED\<rparr>)]
      [(''a'', 1), (''b'', 0.1)] [replica ''a'' 0, replica ''b'' 0] = (ts', reasons)
    \<and> sum_list (map weight ts') = 1
    \<and> map target_id ts' = [''a'', ''b''] \<and> map fst reasons = [''a'', ''b'']"
proof -
  let ?sc = "[(''a'', \<lparr>raw = 100, source = SOURCE_MEASURED\<rparr>), (''b'', \<lparr>raw = 10, source = SOURCE_MEASURED\<rparr>)]"
  let ?st = "[(''a'', 1), (''b'', 0.1)] :: (string, rat) dict"
  let ?ts = "[replica ''a'' 0, replica ''b'' 0]"
  obtain ts' reasons where scored: "score_group default_settings ?sc ?st ?ts = (ts', reasons)"
    by fastforce
  then have "map target_id ts' = [''a'', ''b'']"
    using score_group_targets [of default_settings ?sc ?st ?ts] by (simp add: replica_def)
  moreover have "distinct (map target_id ?ts)" "?ts \<noteq> []" "weak_target_floor default_settings \<le> 1"
    by code_simp+
  ultimately show ?thesis
    using scored_targets_share_traffic [OF scored] scored by auto
qed

section \<open>Every routable target can be traced to what serves it\<close>

definition traced :: "target_index \<Rightarrow> route_target \<Rightarrow> bool" where
  "traced ix t \<longleftrightarrow> (case target_kind t of
       LOCAL \<Rightarrow> (\<exists>d. dget (ix_deployments ix) (target_id t) = Some d \<and> dep_state d \<in> set ROUTABLE_STATES)
     | REMOTE \<Rightarrow> dget (ix_remotes ix) (target_id t) \<noteq> None)"

definition index_ok :: "target_index \<Rightarrow> bool" where
  "index_ok ix \<longleftrightarrow> (\<forall>p \<in> set (ix_targets ix). snd p \<noteq> [] \<and> (\<forall>t \<in> set (snd p). traced ix t))"

lemma set_dset: "set (dset k v d) \<subseteq> insert (k, v) (set d)"
  by (induction d) auto

lemma index_okI:
  assumes "index_ok ix" and "\<And>t. traced ix t \<Longrightarrow> traced ix' t" and "traced ix' t"
    and "ix_targets ix' = dappend name t (ix_targets ix)"
  shows "index_ok ix'"
proof -
  have old: "\<forall>u \<in> set (dget_or (ix_targets ix) name []). traced ix u"
    using assms(1) by (cases "dget (ix_targets ix) name") (auto simp: index_ok_def dest: map_of_SomeD)
  have "set (ix_targets ix') \<subseteq> insert (name, dget_or (ix_targets ix) name [] @ [t]) (set (ix_targets ix))"
    unfolding assms(4) dappend_def by (rule set_dset)
  then show ?thesis
    using assms(1-3) old unfolding index_ok_def by fastforce
qed

lemma empty_index_ok [keeps]: "index_ok empty_index"
  by (simp add: index_ok_def empty_index_def)

lemma add_deployment_ok [keeps]:
  assumes "index_ok ix"
  shows "index_ok (add_deployment profiles draw stats s is_blocked ix d)"
proof (cases "dep_state d \<notin> set ROUTABLE_STATES \<or> backend_url d = None \<or> backend_url d = Some []")
  case True
  then show ?thesis
    using assms by (auto simp: add_deployment_def index_ok_def traced_def split: target_kind.splits)
next
  case False
  then have eq: "ix_targets (add_deployment profiles draw stats s is_blocked ix d)
      = dappend (served_name d) (local_target draw stats s is_blocked d) (ix_targets ix)"
    "ix_deployments (add_deployment profiles draw stats s is_blocked ix d) = dset (deployment_id d) d (ix_deployments ix)"
    "ix_remotes (add_deployment profiles draw stats s is_blocked ix d) = ix_remotes ix"
    by (auto simp: add_deployment_def Let_def)
  show ?thesis
    by (rule index_okI [OF assms _ _ eq(1)])
      (use False in \<open>auto simp: traced_def eq(2,3) local_target_def Let_def split: target_kind.splits\<close>)
qed

lemma add_remote_ok [keeps]:
  assumes "index_ok ix"
  shows "index_ok (add_remote stats s is_blocked p ix m)"
proof -
  have eq: "ix_targets (add_remote stats s is_blocked p ix m)
      = dappend (pm_served_name m) (remote_target stats is_blocked p m) (ix_targets ix)"
    "ix_deployments (add_remote stats s is_blocked p ix m) = ix_deployments ix"
    "ix_remotes (add_remote stats s is_blocked p ix m) = dset (remote_id p m) (p, m) (ix_remotes ix)"
    by (simp_all add: add_remote_def Let_def)
  show ?thesis
    by (rule index_okI [OF assms _ _ eq(1)])
      (auto simp: traced_def eq(2,3) remote_target_def Let_def split: target_kind.splits)
qed

lemma foldl_keeps: "P a \<Longrightarrow> (\<And>a x. P a \<Longrightarrow> P (f a x)) \<Longrightarrow> P (foldl f a xs)"
  by (induction xs arbitrary: a) auto

lemma add_provider_ok [keeps]: "index_ok ix \<Longrightarrow> index_ok (add_provider stats s is_blocked ix p)"
  by (simp add: add_provider_def add_remote_ok foldl_keeps [where P = index_ok])

lemma build_index_ok [keeps]: "index_ok (build_index ds ps ns stats s is_blocked)"
  by (simp add: build_index_def Let_def empty_index_ok add_deployment_ok add_provider_ok
      foldl_keeps [where P = index_ok])

lemma apply_scores_ok [keeps]: "index_ok ix \<Longrightarrow> index_ok (apply_scores ix s)"
  by (auto simp: index_ok_def apply_scores_def Let_def score_group_targets traced_def
      split: target_kind.splits)

end
