(* ===== verification/Router.thy ===== *)
theory Router
  imports Targets Policies Admission Breaker
begin

text \<open>
  The router, \<open>control_plane/gateway/router.py\<close>: the cached target index and its scores, the live
  refresh before every selection, policy resolution, parking eligibility, and selection. What the
  router reads from the other components is an environment: the answers of its three ports (which
  may raise), the statistics and admission state, the settings, the two clock readings, and the
  current state of a deployment object the index holds a reference to.
\<close>

section \<open>State\<close>

record environment =
  env_deployments :: "deployment list result"
  env_providers :: "provider list result"
  env_provider_call :: string
  env_nodes :: "node_state list result"
  env_stats :: stats_registry
  env_admission :: admission_controller
  env_settings :: gateway_settings
  env_now :: rat
  env_clock :: rat
  env_dep_state :: "deployment \<Rightarrow> deployment_state"

record router =
  rt_index :: target_index
  index_at :: rat
  scored_at :: rat
  rt_scores :: "(string, rat \<times> rat \<times> msg option) dict"
  rt_overrides :: "(string, routing_policy) dict"
  rt_state :: "(string, policy_state) dict"
  auto_reasons :: "(string, msg) dict"
  rt_flow :: "(string, string) dict"
  last_eligible :: "(string, rat) dict"
  rt_breaker :: "circuit_breaker option"
  source_failures :: "(string \<times> py_error) list"

definition new_router :: "circuit_breaker option \<Rightarrow> router" where
  "new_router b = \<lparr>rt_index = empty_index, index_at = 0, scored_at = 0, rt_scores = [], rt_overrides = [],
     rt_state = [], auto_reasons = [], rt_flow = [], last_eligible = [], rt_breaker = b, source_failures = []\<rparr>"

record selection =
  sel_config :: routing_config
  sel_target :: route_target
  sel_deployment :: "deployment option"
  sel_provider :: "provider option"
  sel_model :: "provider_model option"

section \<open>The index\<close>

text \<open>A port that raises degrades to a default and is recorded.\<close>

fun safe :: "string \<Rightarrow> 'a result \<Rightarrow> 'a \<Rightarrow> router \<Rightarrow> 'a \<times> router" where
  "safe name (Inr x) fallback r = (x, r)"
| "safe name (Inl e) fallback r = (fallback, r\<lparr>source_failures := source_failures r @ [(name, e)]\<rparr>)"

definition recorded_scores :: "target_index \<Rightarrow> (string, rat \<times> rat \<times> msg option) dict" where
  "recorded_scores ix = dict_of target_id
     (\<lambda>t. (strength t, weight t, dget_or (zero_weight_reason ix) (target_id t) None)) (all_targets ix)"

definition carried_score :: "(string, rat \<times> rat \<times> msg option) dict \<Rightarrow> string \<Rightarrow> rat \<times> rat \<times> msg option" where
  "carried_score scores tid = dget_or scores tid (0, 0, None)"

text \<open>Between refreshes the last scores are carried over to the new target objects.\<close>

definition carry_scores :: "(string, rat \<times> rat \<times> msg option) dict \<Rightarrow> target_index \<Rightarrow> target_index" where
  "carry_scores scores ix =
     ix\<lparr>ix_targets := map (\<lambda>p. (fst p, map (\<lambda>t. t\<lparr>strength := fst (carried_score scores (target_id t)),
            weight := fst (snd (carried_score scores (target_id t)))\<rparr>) (snd p))) (ix_targets ix),
        zero_weight_reason := foldl (\<lambda>d t. dset (target_id t) (snd (snd (carried_score scores (target_id t)))) d)
            (zero_weight_reason ix) (all_targets ix)\<rparr>"

definition attach :: "target_index \<Rightarrow> policy_state \<Rightarrow> policy_state" where
  "attach ix st = st\<lparr>ps_capacity := ix_capacity ix, ps_remote_priority := ix_remote_priority ix\<rparr>"

definition rebuild :: "environment \<Rightarrow> bool \<Rightarrow> router \<Rightarrow> router" where
  "rebuild env force_scores r =
     (let now = env_now env; s = env_settings env;
          (deployments, r) = safe ''list'' (env_deployments env) [] r;
          (providers, r) = safe (env_provider_call env) (env_providers env) [] r;
          (nodes, r) = safe ''list_nodes'' (env_nodes env) [] r;
          ix = build_index deployments providers nodes (env_stats env) s (is_blocked (env_admission env));
          due = force_scores \<or> now - scored_at r \<ge> weight_refresh_interval_s s;
          known = dkeys (raw_strength ix);
          scored = apply_scores ix s;
          (ix, r) = (if due \<or> \<not> set known \<subseteq> set (dkeys (rt_scores r))
                     then (scored, r\<lparr>rt_scores := recorded_scores scored, scored_at := now\<rparr>)
                     else (carry_scores (rt_scores r) ix, r))
      in r\<lparr>rt_index := ix, index_at := now,
           rt_breaker := map_option (retain (map target_id (all_targets ix))) (rt_breaker r),
           rt_state := foldl (\<lambda>d name. dset name (attach ix (dget_or d name new_policy_state)) d)
             (rt_state r) (dkeys (ix_targets ix))\<rparr>)"

definition fresh_index :: "environment \<Rightarrow> router \<Rightarrow> router" where
  "fresh_index env r =
     (if env_now env - index_at r \<ge> index_ttl_s (env_settings env) then rebuild env False r else r)"

section \<open>Live refresh\<close>

definition upstream_healthy :: "environment \<Rightarrow> target_index \<Rightarrow> route_target \<Rightarrow> bool" where
  "upstream_healthy env ix t =
     (case target_kind t of
        LOCAL \<Rightarrow> (case dget (ix_deployments ix) (target_id t) of
            None \<Rightarrow> False | Some d \<Rightarrow> env_dep_state env d \<in> set ROUTABLE_STATES)
      | REMOTE \<Rightarrow> (case dget (ix_remotes ix) (target_id t) of
            None \<Rightarrow> False | Some (p, m) \<Rightarrow> prov_healthy p))"

definition refresh_target :: "environment \<Rightarrow> router \<Rightarrow> route_target \<Rightarrow> route_target" where
  "refresh_target env r t =
     (let up = upstream_healthy env (rt_index r) t;
          benched = (case rt_breaker r of None \<Rightarrow> False | Some b \<Rightarrow> is_open b (env_now env) (target_id t));
          ok = up \<and> \<not> benched
      in t\<lparr>outstanding := stats_outstanding (env_stats env) (target_id t), healthy := ok,
           admitting := ok \<and> \<not> is_blocked (env_admission env) (target_id t)\<rparr>)"

definition refresh_live :: "environment \<Rightarrow> router \<Rightarrow> route_target list \<Rightarrow> route_target list" where
  "refresh_live env r targets = map (refresh_target env r) targets"

section \<open>Policy\<close>

definition auto_policy_explained :: "gateway_settings \<Rightarrow> target_index \<Rightarrow> route_target list \<Rightarrow> routing_policy \<times> msg" where
  "auto_policy_explained s ix targets =
     (let has_local = (\<exists>t \<in> set targets. target_kind t = LOCAL);
          has_remote = (\<exists>t \<in> set targets. target_kind t = REMOTE)
      in if has_local \<and> has_remote
         then (LOCAL_FIRST, Msg ''served both locally and remotely; the remote provider is the overflow valve'' [])
         else
           let scored = filter (\<lambda>t. dget (raw_strength ix) (target_id t) \<noteq> None) targets;
               scores = dict_of target_id (\<lambda>t. raw (the (dget (raw_strength ix) (target_id t)))) scored;
               spread = strength_spread scores (dict_of target_id target_kind targets)
           in if spread > auto_weighted_spread s
              then (WEIGHTED_CAPACITY, Msg ''local replicas differ in measured capability'' [F spread, F (auto_weighted_spread s)])
              else (LEAST_OUTSTANDING, Msg ''targets are close enough in capability'' []))"

definition auto_policy :: "gateway_settings \<Rightarrow> target_index \<Rightarrow> route_target list \<Rightarrow> routing_policy" where
  "auto_policy s ix targets = fst (auto_policy_explained s ix targets)"

definition policy_for ::
  "gateway_settings \<Rightarrow> string \<Rightarrow> route_target list \<Rightarrow> router \<Rightarrow> routing_policy \<times> router" where
  "policy_for s name targets r =
     (case dget (rt_overrides r) name of
        Some p \<Rightarrow> (p, r\<lparr>auto_reasons := dpop name (auto_reasons r)\<rparr>)
      | None \<Rightarrow> (let (p, why) = auto_policy_explained s (rt_index r) targets
                in (p, r\<lparr>auto_reasons := dset name why (auto_reasons r)\<rparr>)))"

definition auto_selected :: "router \<Rightarrow> string \<Rightarrow> bool" where
  "auto_selected r name \<longleftrightarrow> dget (rt_overrides r) name = None"

definition auto_reason :: "router \<Rightarrow> string \<Rightarrow> msg option" where
  "auto_reason r name = (if dget (rt_overrides r) name \<noteq> None then None else dget (auto_reasons r) name)"

definition flow_of :: "router \<Rightarrow> string \<Rightarrow> routing_policy \<Rightarrow> string option" where
  "flow_of r name p = (if p \<noteq> LOCAL_FIRST then None else dget (rt_flow r) name)"

definition clear_policy :: "string \<Rightarrow> router \<Rightarrow> router" where
  "clear_policy name r = r\<lparr>rt_overrides := dpop name (rt_overrides r)\<rparr>"

section \<open>Reads\<close>

definition config_for :: "environment \<Rightarrow> string \<Rightarrow> router \<Rightarrow> routing_config option \<times> router" where
  "config_for env name r =
     (let r = fresh_index env r in
      case dget (ix_targets (rt_index r)) name of
        None \<Rightarrow> (None, r)
      | Some stale \<Rightarrow>
        let targets = refresh_live env r stale;
            r = r\<lparr>rt_index := (rt_index r)\<lparr>ix_targets := dset name targets (ix_targets (rt_index r))\<rparr>\<rparr>;
            r = (if \<exists>t \<in> set targets. healthy t \<and> admitting t
                 then r\<lparr>last_eligible := dset name (env_clock env) (last_eligible r)\<rparr> else r);
            (p, r) = policy_for (env_settings env) name targets r
        in (Some \<lparr>rc_served_name = name, policy = p, rc_targets = targets,
                  rc_sticky_ttl_s = sticky_ttl_s (env_settings env)\<rparr>, r))"

fun configs_of :: "environment \<Rightarrow> string list \<Rightarrow> router \<Rightarrow> routing_config list \<times> router" where
  "configs_of env [] r = ([], r)"
| "configs_of env (name # names) r =
     (let (c, r) = config_for env name r; (cs, r) = configs_of env names r
      in (case c of Some c \<Rightarrow> c # cs | None \<Rightarrow> cs, r))"

definition configs :: "environment \<Rightarrow> router \<Rightarrow> routing_config list \<times> router" where
  "configs env r =
     (let r = fresh_index env r in configs_of env (sort (dkeys (ix_targets (rt_index r)))) r)"

definition set_policy ::
  "environment \<Rightarrow> string \<Rightarrow> routing_policy \<Rightarrow> router \<Rightarrow> routing_config result \<times> router" where
  "set_policy env name p r =
     (let r = r\<lparr>rt_overrides := dset name p (rt_overrides r),
                rt_state := dset name (attach (rt_index r) new_policy_state) (rt_state r)\<rparr>;
          (c, r) = config_for env name r
      in (case c of None \<Rightarrow> Inl (KeyError name) | Some c \<Rightarrow> Inr c, r))"

section \<open>Parking\<close>

definition recently_eligible :: "environment \<Rightarrow> router \<Rightarrow> string \<Rightarrow> bool" where
  "recently_eligible env r name =
     (case dget (last_eligible r) name of
        None \<Rightarrow> False
      | Some seen \<Rightarrow> env_clock env - seen \<le> park_eligible_memory_s (env_settings env))"

definition parkable :: "environment \<Rightarrow> string \<Rightarrow> router \<Rightarrow> bool \<times> router" where
  "parkable env name r =
     (let r = fresh_index env r; targets = dget_or (ix_targets (rt_index r)) name [] in
      (if \<exists>t \<in> set targets. is_blocked (env_admission env) (target_id t) then False
       else recently_eligible env r name, r))"

section \<open>Selection\<close>

definition record_flow :: "routing_policy \<Rightarrow> string \<Rightarrow> route_target \<Rightarrow> router \<Rightarrow> router" where
  "record_flow p name t r =
     (if p = LOCAL_FIRST
      then r\<lparr>rt_flow := dset name (if target_kind t = REMOTE then ''spilled'' else ''local'') (rt_flow r)\<rparr>
      else r)"

definition selection_of :: "routing_config \<Rightarrow> route_target \<Rightarrow> target_index \<Rightarrow> selection" where
  "selection_of config t ix =
     (let remote = dget (ix_remotes ix) (target_id t)
      in \<lparr>sel_config = config, sel_target = t, sel_deployment = dget (ix_deployments ix) (target_id t),
          sel_provider = map_option fst remote, sel_model = map_option snd remote\<rparr>)"

definition select_target ::
  "environment \<Rightarrow> (string \<Rightarrow> 8 word list) \<Rightarrow> string \<Rightarrow> string option \<Rightarrow> string list \<Rightarrow> router
    \<Rightarrow> selection option \<times> router" where
  "select_target env digest name key exclude r =
     (case config_for env name r of
        (None, r) \<Rightarrow> (None, r)
      | (Some config, r) \<Rightarrow>
        let config = (if exclude \<noteq> []
              then config\<lparr>rc_targets := filter (\<lambda>t. target_id t \<notin> set exclude) (rc_targets config)\<rparr>
              else config) in
        if exclude \<noteq> [] \<and> rc_targets config = [] then (None, r)
        else
          let st = attach (rt_index r) (dget_or (rt_state r) name new_policy_state);
              ctx = \<lparr>ctx_served_name = name, prefix_key = key, ctx_now = env_now env\<rparr>;
              (target, st) = policy_select digest config st ctx (env_settings env);
              r = r\<lparr>rt_state := dset name st (rt_state r)\<rparr>
          in case target of
            None \<Rightarrow> (None, r)
          | Some t \<Rightarrow>
            let r = record_flow (policy config) name t r
            in (Some (selection_of config t (rt_index r)), r))"

section \<open>What a read leaves behind\<close>

lemma safe_index [simp]: "rt_index (snd (safe name x fb r)) = rt_index r"
  by (cases x) auto

lemma policy_for_fields:
  assumes "policy_for s name ts r = (p, r')"
  shows "rt_index r' = rt_index r" "rt_breaker r' = rt_breaker r" "rt_state r' = rt_state r"
    "last_eligible r' = last_eligible r"
    "p = (case dget (rt_overrides r) name of Some p \<Rightarrow> p | None \<Rightarrow> auto_policy s (rt_index r) ts)"
  using assms by (auto simp: policy_for_def auto_policy_def split: option.splits prod.splits)

lemma config_forE:
  assumes "config_for env name r = (Some config, r')"
  obtains stale where
    "dget (ix_targets (rt_index (fresh_index env r))) name = Some stale"
    "rc_targets config = refresh_live env (fresh_index env r) stale"
    "rt_index r' = (rt_index (fresh_index env r))
       \<lparr>ix_targets := dset name (rc_targets config) (ix_targets (rt_index (fresh_index env r)))\<rparr>"
    "rt_breaker r' = rt_breaker (fresh_index env r)" "rt_state r' = rt_state (fresh_index env r)"
    "last_eligible r' = (if \<exists>t \<in> set (rc_targets config). healthy t \<and> admitting t
       then dset name (env_clock env) (last_eligible (fresh_index env r)) else last_eligible (fresh_index env r))"
    "rc_served_name config = name" "rc_sticky_ttl_s config = sticky_ttl_s (env_settings env)"
    "policy config = (case dget (rt_overrides (fresh_index env r)) name of Some p \<Rightarrow> p
       | None \<Rightarrow> auto_policy (env_settings env) (rt_index r') (rc_targets config))"
proof (cases "dget (ix_targets (rt_index (fresh_index env r))) name")
  case None
  then show ?thesis using assms by (simp add: config_for_def)
next
  case (Some stale)
  define f where "f = fresh_index env r"
  define ts where "ts = refresh_live env f stale"
  define r1 where "r1 = f\<lparr>rt_index := (rt_index f)\<lparr>ix_targets := dset name ts (ix_targets (rt_index f))\<rparr>\<rparr>"
  define r2 where "r2 = (if \<exists>t \<in> set ts. healthy t \<and> admitting t
    then r1\<lparr>last_eligible := dset name (env_clock env) (last_eligible r1)\<rparr> else r1)"
  obtain p r3 where pf: "policy_for (env_settings env) name ts r2 = (p, r3)" by fastforce
  have "config_for env name r = (let (p, r) = policy_for (env_settings env) name ts r2 in
      (Some \<lparr>rc_served_name = name, policy = p, rc_targets = ts,
         rc_sticky_ttl_s = sticky_ttl_s (env_settings env)\<rparr>, r))"
    unfolding r2_def r1_def ts_def f_def config_for_def Let_def using Some by simp
  with assms pf have config: "r' = r3" "policy config = p" "rc_targets config = ts"
    "rc_served_name config = name" "rc_sticky_ttl_s config = sticky_ttl_s (env_settings env)"
    by auto
  note fields = policy_for_fields [OF pf]
  have r2: "rt_overrides r2 = rt_overrides f" "rt_index r2 = rt_index r1" "rt_breaker r2 = rt_breaker f"
    "rt_state r2 = rt_state f" "last_eligible r2 = (if \<exists>t \<in> set ts. healthy t \<and> admitting t
       then dset name (env_clock env) (last_eligible f) else last_eligible f)"
    unfolding r1_def r2_def by (cases "\<exists>t \<in> set ts. healthy t \<and> admitting t"; simp only: if_True if_False; simp)+
  have last: "last_eligible r' = (if \<exists>t \<in> set (rc_targets config). healthy t \<and> admitting t
       then dset name (env_clock env) (last_eligible f) else last_eligible f)"
    unfolding config(1,3) fields(4) r2(5) by (rule refl)
  have pol: "policy config = (case dget (rt_overrides f) name of Some p \<Rightarrow> p
      | None \<Rightarrow> auto_policy (env_settings env) (rt_index r') (rc_targets config))"
    unfolding config(1-3) fields(1) fields(5) r2(1) by (rule refl)
  show ?thesis
    by (rule that [OF Some, folded f_def, OF _ _ _ _ last _ _ pol])
      (use fields(1-3) config in \<open>simp_all add: r2(2-4) r1_def ts_def\<close>)
qed

lemma config_for_None:
  "config_for env name r = (None, r') \<Longrightarrow> r' = fresh_index env r \<and> dget (ix_targets (rt_index r')) name = None"
  by (auto simp: config_for_def Let_def split: option.splits prod.splits)

lemma refresh_target_id [simp]:
  "target_id (refresh_target env r t) = target_id t" "target_kind (refresh_target env r t) = target_kind t"
  by (simp_all add: refresh_target_def Let_def)

text \<open>What it takes for a target to be sent to at this moment.\<close>

definition live :: "environment \<Rightarrow> router \<Rightarrow> route_target \<Rightarrow> bool" where
  "live env r t \<longleftrightarrow> upstream_healthy env (rt_index r) t
     \<and> \<not> (case rt_breaker r of None \<Rightarrow> False | Some b \<Rightarrow> is_open b (env_now env) (target_id t))
     \<and> \<not> is_blocked (env_admission env) (target_id t)"

lemma refreshed_flags:
  "healthy (refresh_target env r t) \<and> admitting (refresh_target env r t) \<longleftrightarrow> live env r t"
  by (auto simp: refresh_target_def Let_def live_def)

lemma live_refresh: "live env r (refresh_target env r' t) = live env r t"
  by (cases "target_kind t") (simp_all add: live_def upstream_healthy_def cong: option.case_cong)

lemma live_same:
  "rt_breaker r' = rt_breaker r \<Longrightarrow> ix_deployments (rt_index r') = ix_deployments (rt_index r) \<Longrightarrow>
   ix_remotes (rt_index r') = ix_remotes (rt_index r) \<Longrightarrow> live env r' t = live env r t"
  by (cases "target_kind t") (simp_all add: live_def upstream_healthy_def)

lemma select_targetE:
  assumes "select_target env digest name key ex r = (result, r')"
  obtains (unknown) "config_for env name r = (None, r')" "result = None"
  | (known) config r1 tried where "config_for env name r = (Some config, r1)"
      "tried = filter (\<lambda>t. target_id t \<notin> set ex) (rc_targets config)"
      "rt_index r' = rt_index r1" "rt_breaker r' = rt_breaker r1" "last_eligible r' = last_eligible r1"
      "case result of
         None \<Rightarrow> \<not> (\<exists>t \<in> set tried. servable (policy config) t)
       | Some sel \<Rightarrow> sel_target sel \<in> set tried \<and> servable (policy config) (sel_target sel)
           \<and> policy (sel_config sel) = policy config
           \<and> sel_deployment sel = dget (ix_deployments (rt_index r')) (target_id (sel_target sel))
           \<and> sel_provider sel = map_option fst (dget (ix_remotes (rt_index r')) (target_id (sel_target sel)))"
proof (cases "config_for env name r")
  case (Pair c r1)
  show ?thesis
  proof (cases c)
    case None
    then show ?thesis using assms Pair unknown by (simp add: select_target_def)
  next
    case (Some config)
    define tried where "tried = filter (\<lambda>t. target_id t \<notin> set ex) (rc_targets config)"
    define config' where "config' = (if ex \<noteq> [] then config\<lparr>rc_targets := tried\<rparr> else config)"
    have same: "rc_targets config' = tried" "policy config' = policy config"
      by (simp_all add: config'_def tried_def)
    define st where "st = attach (rt_index r1) (dget_or (rt_state r1) name new_policy_state)"
    define ctx where "ctx = \<lparr>ctx_served_name = name, prefix_key = key, ctx_now = env_now env\<rparr>"
    define picked where "picked = policy_select digest config' st ctx (env_settings env)"
    have usable: "case fst picked of
         Some t \<Rightarrow> t \<in> set tried \<and> servable (policy config) t
       | None \<Rightarrow> \<not> (\<exists>t \<in> set tried. servable (policy config) t)"
      using chosen_servable [where digest = digest and config = config' and st = st and ctx = ctx and s = "env_settings env"]
      unfolding picked_def same .
    have run: "(result, r') = (if ex \<noteq> [] \<and> tried = [] then (None, r1) else
        let r2 = r1\<lparr>rt_state := dset name (snd picked) (rt_state r1)\<rparr> in
         case fst picked of None \<Rightarrow> (None, r2)
         | Some t \<Rightarrow> let r3 = record_flow (policy config) name t r2
             in (Some (selection_of config' t (rt_index r3)), r3))"
      using assms Pair Some
      unfolding select_target_def picked_def ctx_def st_def config'_def tried_def
      by (auto simp: Let_def split_beta split: option.splits)
    have result: "rt_index r' = rt_index r1 \<and> rt_breaker r' = rt_breaker r1 \<and> last_eligible r' = last_eligible r1
      \<and> (case result of None \<Rightarrow> fst picked = None \<or> tried = []
          | Some sel \<Rightarrow> fst picked = Some (sel_target sel) \<and> policy (sel_config sel) = policy config
              \<and> sel_deployment sel = dget (ix_deployments (rt_index r1)) (target_id (sel_target sel))
              \<and> sel_provider sel = map_option fst (dget (ix_remotes (rt_index r1)) (target_id (sel_target sel))))"
    proof (cases "ex \<noteq> [] \<and> tried = []")
      case False
      then show ?thesis
        using run unfolding if_not_P [OF False]
        by (cases "fst picked") (simp_all add: Let_def same record_flow_def selection_of_def)
    qed (use run in simp)
    show ?thesis
    proof (rule known [of config r1 tried])
      show "case result of None \<Rightarrow> \<not> (\<exists>t \<in> set tried. servable (policy config) t)
        | Some sel \<Rightarrow> sel_target sel \<in> set tried \<and> servable (policy config) (sel_target sel)
           \<and> policy (sel_config sel) = policy config
           \<and> sel_deployment sel = dget (ix_deployments (rt_index r')) (target_id (sel_target sel))
           \<and> sel_provider sel = map_option fst (dget (ix_remotes (rt_index r')) (target_id (sel_target sel)))"
        using result usable by (cases result) auto
    qed (use result Pair Some tried_def in simp_all)
  qed
qed

section \<open>Selection is live and complete\<close>

lemma index_after_config:
  assumes "config_for env name r = (Some config, r')"
  shows "\<forall>t. live env r' t = live env (fresh_index env r) t"
    and "\<forall>t \<in> set (rc_targets config). (healthy t \<and> admitting t) = live env r' t"
    and "dget (ix_targets (rt_index r')) name = Some (rc_targets config)"
proof -
  obtain stale where c: "rc_targets config = refresh_live env (fresh_index env r) stale"
    "rt_index r' = (rt_index (fresh_index env r))
       \<lparr>ix_targets := dset name (rc_targets config) (ix_targets (rt_index (fresh_index env r)))\<rparr>"
    "rt_breaker r' = rt_breaker (fresh_index env r)"
    using config_forE [OF assms] by metis
  show same: "\<forall>t. live env r' t = live env (fresh_index env r) t"
    by (intro allI live_same) (simp_all add: c(2,3))
  show "\<forall>t \<in> set (rc_targets config). (healthy t \<and> admitting t) = live env r' t"
    using same by (auto simp: c(1) refresh_live_def refreshed_flags live_refresh)
  show "dget (ix_targets (rt_index r')) name = Some (rc_targets config)"
    by (simp add: c(2))
qed

lemma live_local:
  "live env r t \<Longrightarrow> target_kind t = LOCAL \<Longrightarrow>
   \<exists>d. dget (ix_deployments (rt_index r)) (target_id t) = Some d \<and> env_dep_state env d \<in> set ROUTABLE_STATES"
  by (auto simp: live_def upstream_healthy_def split: option.splits)

lemma live_remote:
  "live env r t \<Longrightarrow> target_kind t = REMOTE \<Longrightarrow>
   \<exists>p m. dget (ix_remotes (rt_index r)) (target_id t) = Some (p, m) \<and> prov_healthy p"
  by (auto simp: live_def upstream_healthy_def split: option.splits)

text \<open>What a request is sent to: a deployment in a serving state, or a healthy provider.\<close>

definition backed :: "environment \<Rightarrow> selection \<Rightarrow> bool" where
  "backed env sel \<longleftrightarrow> (case target_kind (sel_target sel) of
       LOCAL \<Rightarrow> (\<exists>d. sel_deployment sel = Some d \<and> env_dep_state env d \<in> set ROUTABLE_STATES)
     | REMOTE \<Rightarrow> (\<exists>p. sel_provider sel = Some p \<and> prov_healthy p))"

lemma live_backed:
  assumes "live env r (sel_target sel)"
    and "sel_deployment sel = dget (ix_deployments (rt_index r)) (target_id (sel_target sel))"
    and "sel_provider sel = map_option fst (dget (ix_remotes (rt_index r)) (target_id (sel_target sel)))"
  shows "backed env sel"
  using live_local [OF assms(1)] live_remote [OF assms(1)] assms(2,3)
  by (cases "target_kind (sel_target sel)") (auto simp: backed_def)

text \<open>A request goes to a target that is up at that moment, and is refused only when there is
  none. However old the cached index, the target a selection returns was not excluded, has a serving
  deployment or a healthy provider behind it, is not benched by the breaker and carries no admission
  block; and when a known model yields no selection, every target of it is excluded or not live now,
  or has no known price under the cost policy.\<close>

theorem selection_is_live:
  assumes "select_target env digest name key ex r = (result, r')"
  shows "case result of
     Some sel \<Rightarrow> target_id (sel_target sel) \<notin> set ex \<and> live env r' (sel_target sel) \<and> backed env sel
       \<and> sel_target sel \<in> set (dget_or (ix_targets (rt_index r')) name [])
   | None \<Rightarrow> \<forall>t \<in> set (dget_or (ix_targets (rt_index r')) name []).
       target_id t \<in> set ex \<or> \<not> live env r' t \<or> cost_per_mtok t = None"
  using assms
proof (cases rule: select_targetE)
  case unknown
  then show ?thesis using config_for_None by force
next
  case (known config r1 tried)
  note after = index_after_config [OF known(1)]
  have same: "live env r' t = live env r1 t" for t
    using known(3,4) by (intro live_same) simp_all
  have targets: "dget_or (ix_targets (rt_index r')) name [] = rc_targets config"
    using after(3) known(3) by simp
  show ?thesis
  proof (cases result)
    case None
    then show ?thesis
      using known(2,6) after(2) targets same by (auto simp: servable_def)
  next
    case (Some sel)
    then have sel: "sel_target sel \<in> set tried" "servable (policy config) (sel_target sel)"
      "sel_deployment sel = dget (ix_deployments (rt_index r')) (target_id (sel_target sel))"
      "sel_provider sel = map_option fst (dget (ix_remotes (rt_index r')) (target_id (sel_target sel)))"
      using known(6) by simp_all
    then have "live env r' (sel_target sel)"
      using after(2) same known(2) by (auto simp: servable_def)
    with sel Some targets known(2) live_backed [OF this sel(3,4)] show ?thesis by simp
  qed
qed

text \<open>A model with a failed replica and a ready one, on a router whose index is two seconds old.\<close>

definition ready_deployment :: "string \<Rightarrow> deployment" where
  "ready_deployment i = \<lparr>deployment_id = i, served_name = ''m'', dep_shape =
     \<lparr>model_id = ''m'', num_layers = 2, hidden_size = 64, num_attention_heads = 2, num_kv_heads = 2,
      vocab_size = 100, total_params = 1000, dtype = ''fp16'', head_dim = None, num_experts = 0,
      num_experts_per_token = 0, active_params = None, sliding_window = None,
      layers_with_full_attention = None, mla_latent_dim = None, mla_rope_dim = None, vision_params = 0,
      is_encoder_decoder = False\<rparr>,
     dep_plan = None, dep_fit = None, runtime = ''vllm'', dep_state = READY,
     backend_url = Some ''http://n1'', dep_context_length = 8192, dep_max_concurrent_seqs = 4,
     started_at = None, dep_last_error = None, dep_modality = TEXT, extra_args = [], custom_command = []\<rparr>"

definition example_env :: environment where
  "example_env = \<lparr>env_deployments = Inr [], env_providers = Inr [], env_provider_call = ''servable'',
     env_nodes = Inr [], env_stats = [], env_admission = new_admission, env_settings = default_settings,
     env_now = 1/2, env_clock = 1/2,
     env_dep_state = (\<lambda>d. if deployment_id d = ''a'' then FAILED else dep_state d)\<rparr>"

definition example_router :: router where
  "example_router = (new_router None)\<lparr>rt_index := empty_index
     \<lparr>ix_targets := [(''m'', [replica ''a'' 1, replica ''b'' 1])],
      ix_deployments := [(''a'', ready_deployment ''a''), (''b'', ready_deployment ''b'')]\<rparr>\<rparr>"

theorem selection_is_live_witness:
  "\<exists>sel r'. select_target example_env (\<lambda>_. []) ''m'' None [] example_router = (Some sel, r')
    \<and> live example_env r' (sel_target sel) \<and> target_id (sel_target sel) = ''b''"
proof -
  obtain result r' where run: "select_target example_env (\<lambda>_. []) ''m'' None [] example_router = (result, r')"
    by fastforce
  have "map_option (\<lambda>sel. target_id (sel_target sel))
      (fst (select_target example_env (\<lambda>_. []) ''m'' None [] example_router)) = Some ''b''"
    by code_simp
  with run obtain sel where "result = Some sel" "target_id (sel_target sel) = ''b''" by auto
  with selection_is_live [OF run] run show ?thesis by auto
qed

section \<open>Parking eligibility\<close>

text \<open>A model that was just selected stays parkable for the configured window, no longer, and never
  while one of its targets carries a block.\<close>

lemma select_marks_eligible:
  assumes "select_target env digest name key ex r = (Some sel, r')"
  shows "dget (last_eligible r') name = Some (env_clock env)"
  using assms
proof (cases rule: select_targetE)
  case (known config r1 tried)
  have "sel_target sel \<in> set (rc_targets config)" "healthy (sel_target sel)" "admitting (sel_target sel)"
    using known(2,6) by (auto simp: servable_def)
  then show ?thesis
    using known(5) by (rule_tac config_forE [OF known(1)]) auto
qed simp

lemma recently_selected_parkable:
  assumes "select_target env digest name key ex r = (Some sel, r')"
  shows "recently_eligible env' r' name
    \<longleftrightarrow> env_clock env' - env_clock env \<le> park_eligible_memory_s (env_settings env')"
  by (simp add: recently_eligible_def select_marks_eligible [OF assms])

lemma blocked_not_parked:
  assumes "parkable env name r = (True, r')" and "t \<in> set (dget_or (ix_targets (rt_index r')) name [])"
  shows "\<not> is_blocked (env_admission env) (target_id t)"
  using assms by (auto simp: parkable_def Let_def split: if_splits)

text \<open>Setting a policy for a name nobody serves is refused, and the override stays all the same.\<close>

lemma refused_policy_sticks:
  "fst (set_policy example_env ''ghost'' ROUND_ROBIN example_router) = Inl (KeyError ''ghost'')
   \<and> dget (rt_overrides (snd (set_policy example_env ''ghost'' ROUND_ROBIN example_router))) ''ghost'' = Some ROUND_ROBIN"
proof -
  have "fst (set_policy example_env ''ghost'' ROUND_ROBIN example_router) = Inl (KeyError ''ghost'')"
    by code_simp
  moreover have "dget (rt_overrides (snd (set_policy example_env ''ghost'' ROUND_ROBIN example_router))) ''ghost''
      = Some ROUND_ROBIN"
    by code_simp
  ultimately show ?thesis by simp
qed

section \<open>Rebuilding\<close>

lemma carry_scores_ok [keeps]: "index_ok ix \<Longrightarrow> index_ok (carry_scores scores ix)"
  by (auto simp: index_ok_def carry_scores_def traced_def split: target_kind.splits)

text \<open>Every rebuilt index can be traced to deployments and providers that exist, and the breaker
  keeps no circuit of a target that has left it.\<close>

lemma rebuild_ok: "index_ok (rt_index (rebuild env force r))"
  by (auto simp: rebuild_def Let_def split: prod.splits
      intro!: carry_scores_ok apply_scores_ok build_index_ok)

end
