(* ===== verification/Enrollment.thy ===== *)
theory Enrollment
  imports Json
begin

text \<open>
  The short-lived enrollment tokens, \<open>control_plane/registry/enrollment.py\<close>: minting, verifying,
  spending and revoking, and the file they survive a restart in. The clock is an argument; the
  random identifier and secret of a new token are those the secrets module handed out.
\<close>

section \<open>State\<close>

definition DEFAULT_TTL_S :: rat where "DEFAULT_TTL_S = 3600"
definition DEFAULT_USES :: int where "DEFAULT_USES = 1"
definition MAX_TTL_S :: rat where "MAX_TTL_S = 86400"

record enrollment_token =
  tok_secret :: string
  token_id :: string
  created_at :: rat
  expires_at :: rat
  uses_remaining :: "int option"
  auto_admit :: bool

definition is_live :: "enrollment_token \<Rightarrow> rat \<Rightarrow> bool" where
  "is_live t now =
     (if now \<ge> expires_at t then False
      else (case uses_remaining t of None \<Rightarrow> True | Some n \<Rightarrow> n > 0))"

definition public_token :: "enrollment_token \<Rightarrow> rat \<Rightarrow> json" where
  "public_token t now = JObj
     [(''token_id'', JStr (token_id t)), (''created_at'', JNum (created_at t)),
      (''expires_at'', JNum (expires_at t)), (''expires_in_s'', JNum (max 0 (expires_at t - now))),
      (''uses_remaining'', jopt JInt (uses_remaining t)), (''auto_admit'', JBool (auto_admit t))]"

record enrollment_store =
  enr_tokens :: "(string, enrollment_token) dict"
  enr_file :: json_file
  enr_writable :: bool

section \<open>Persistence\<close>

definition token_to_json :: "enrollment_token \<Rightarrow> json" where
  "token_to_json t = JObj
     [(''token'', JStr (tok_secret t)), (''token_id'', JStr (token_id t)),
      (''created_at'', JNum (created_at t)), (''expires_at'', JNum (expires_at t)),
      (''uses_remaining'', jopt JInt (uses_remaining t)), (''auto_admit'', JBool (auto_admit t))]"

definition token_of_json :: "py_text \<Rightarrow> json \<Rightarrow> enrollment_token result" where
  "token_of_json py row =
     (case row of
        JObj d \<Rightarrow>
          bindR (item d ''token'') (\<lambda>secret.
          bindR (item d ''token_id'') (\<lambda>tid.
          bindR (bindR (item d ''created_at'') (float_of py)) (\<lambda>created.
          bindR (bindR (item d ''expires_at'') (float_of py)) (\<lambda>expires.
          bindR (case some_unless_null (dget d ''uses_remaining'') of
                   None \<Rightarrow> Inr None
                 | Some _ \<Rightarrow> mapR Some (bindR (item d ''uses_remaining'') (int_of py))) (\<lambda>uses.
            Inr \<lparr>tok_secret = str_of py secret, token_id = str_of py tid, created_at = created,
                 expires_at = expires, uses_remaining = uses,
                 auto_admit = (case dget d ''auto_admit'' of Some b \<Rightarrow> truth_of b | None \<Rightarrow> True)\<rparr>)))))
      | _ \<Rightarrow> Inl (TypeError ''row is not subscriptable by a string''))"

definition save_tokens :: "enrollment_store \<Rightarrow> enrollment_store" where
  "save_tokens st =
     (if enr_writable st
      then st\<lparr>enr_file := Holds (JObj [(''tokens'', JList (map token_to_json (dvalues (enr_tokens st))))])\<rparr>
      else st)"

definition prune :: "rat \<Rightarrow> enrollment_store \<Rightarrow> bool \<times> enrollment_store" where
  "prune now st =
     (\<exists>p \<in> set (enr_tokens st). \<not> is_live (snd p) now,
      st\<lparr>enr_tokens := filter (\<lambda>p. is_live (snd p) now) (enr_tokens st)\<rparr>)"

text \<open>Malformed rows are skipped; a document that is not an object raises.\<close>

definition load_rows :: "py_text \<Rightarrow> json list \<Rightarrow> (string, enrollment_token) dict" where
  "load_rows py rows =
     foldl (\<lambda>d row. case token_of_json py row of Inr t \<Rightarrow> dset (token_id t) t d | Inl e \<Rightarrow> d) [] rows"

definition load_tokens :: "py_text \<Rightarrow> rat \<Rightarrow> json_file \<Rightarrow> bool \<Rightarrow> enrollment_store result" where
  "load_tokens py now file writable =
     (let empty = \<lparr>enr_tokens = [], enr_file = file, enr_writable = writable\<rparr> in
      case file of
        Absent \<Rightarrow> Inr empty
      | Unreadable \<Rightarrow> Inr empty
      | Holds (JObj d) \<Rightarrow>
          (case dget d ''tokens'' of
             None \<Rightarrow> Inr (snd (prune now empty))
           | Some (JList rows) \<Rightarrow> Inr (snd (prune now (empty\<lparr>enr_tokens := load_rows py rows\<rparr>)))
           | Some (JStr s) \<Rightarrow> Inr (snd (prune now empty))
           | Some (JObj kvs) \<Rightarrow> Inr (snd (prune now empty))
           | Some _ \<Rightarrow> Inl (TypeError ''object is not iterable''))
      | Holds _ \<Rightarrow> Inl (AttributeError ''get''))"

section \<open>Operations\<close>

definition mint ::
  "rat \<Rightarrow> int option \<Rightarrow> bool \<Rightarrow> string \<times> string \<Rightarrow> rat \<Rightarrow> enrollment_store
    \<Rightarrow> enrollment_token result \<times> enrollment_store" where
  "mint ttl_s uses auto fresh now st =
     (if ttl_s \<le> 0 then (Inl (ValueError ''ttl_s must be positive''), st)
      else if ttl_s > MAX_TTL_S then (Inl (ValueError ''ttl_s must be at most a day''), st)
      else if (case uses of Some n \<Rightarrow> n < 1 | None \<Rightarrow> False)
      then (Inl (ValueError ''uses must be at least 1''), st)
      else let (tid, secret) = fresh;
               token = \<lparr>tok_secret = secret, token_id = tid, created_at = now, expires_at = now + ttl_s,
                        uses_remaining = uses, auto_admit = auto\<rparr>;
               st = snd (prune now st);
               st = save_tokens (st\<lparr>enr_tokens := dset tid token (enr_tokens st)\<rparr>)
           in (Inr token, st))"

text \<open>\<open>hmac.compare_digest\<close> takes text only when it is ASCII.\<close>

definition is_ascii :: "string \<Rightarrow> bool" where
  "is_ascii s = list_all (\<lambda>c. (of_char c :: nat) < 128) s"

definition compare_digest :: "string \<Rightarrow> string \<Rightarrow> bool result" where
  "compare_digest a b =
     (if is_ascii a \<and> is_ascii b then Inr (a = b)
      else Inl (TypeError ''comparing strings with non-ASCII characters is not supported''))"

fun first_match :: "string \<Rightarrow> enrollment_token list \<Rightarrow> enrollment_token option result" where
  "first_match presented [] = Inr None"
| "first_match presented (t # ts) =
     bindR (compare_digest (tok_secret t) presented) (\<lambda>same.
       if same then Inr (Some t) else first_match presented ts)"

definition pruned :: "rat \<Rightarrow> enrollment_store \<Rightarrow> enrollment_store" where
  "pruned now st = (let (dropped, st) = prune now st in if dropped then save_tokens st else st)"

definition verify ::
  "string option \<Rightarrow> rat \<Rightarrow> enrollment_store \<Rightarrow> enrollment_token option result \<times> enrollment_store" where
  "verify presented now st =
     (case presented of
        None \<Rightarrow> (Inr None, st)
      | Some s \<Rightarrow>
        if s = [] then (Inr None, st)
        else let st = pruned now st in (first_match s (dvalues (enr_tokens st)), st))"

definition consume :: "string \<Rightarrow> enrollment_store \<Rightarrow> enrollment_store" where
  "consume tid st =
     (case dget (enr_tokens st) tid of
        None \<Rightarrow> st
      | Some t \<Rightarrow> (case uses_remaining t of
          None \<Rightarrow> st
        | Some n \<Rightarrow>
          if n - 1 \<le> 0 then save_tokens (st\<lparr>enr_tokens := dpop tid (enr_tokens st)\<rparr>)
          else save_tokens (st\<lparr>enr_tokens := dset tid (t\<lparr>uses_remaining := Some (n - 1)\<rparr>) (enr_tokens st)\<rparr>)))"

definition revoke :: "string \<Rightarrow> enrollment_store \<Rightarrow> bool \<times> enrollment_store" where
  "revoke tid st =
     (if dget (enr_tokens st) tid = None then (False, st)
      else (True, save_tokens (st\<lparr>enr_tokens := dpop tid (enr_tokens st)\<rparr>)))"

definition live_tokens :: "rat \<Rightarrow> enrollment_store \<Rightarrow> enrollment_token list \<times> enrollment_store" where
  "live_tokens now st =
     (let st = pruned now st in (sort_key created_at (dvalues (enr_tokens st)), st))"

definition public_list :: "rat \<Rightarrow> enrollment_store \<Rightarrow> json list \<times> enrollment_store" where
  "public_list now st =
     (let (ts, st) = live_tokens now st in (map (\<lambda>t. public_token t now) ts, st))"

section \<open>Histories\<close>

datatype enroll_op =
    Mint rat "int option" bool string string
  | Verify "string option"
  | Consume string
  | Revoke string
  | List_live

fun enroll_step :: "enrollment_store \<Rightarrow> rat \<times> enroll_op \<Rightarrow> enrollment_store" where
  "enroll_step st (now, Mint ttl uses auto tid secret) = snd (mint ttl uses auto (tid, secret) now st)"
| "enroll_step st (now, Verify s) = snd (verify s now st)"
| "enroll_step st (now, Consume tid) = consume tid st"
| "enroll_step st (now, Revoke tid) = snd (revoke tid st)"
| "enroll_step st (now, List_live) = snd (live_tokens now st)"

definition enroll_run :: "enrollment_store \<Rightarrow> (rat \<times> enroll_op) list \<Rightarrow> enrollment_store" where
  "enroll_run st ops = foldl enroll_step st ops"

text \<open>Tokens are stored under their own id, once, and none is kept at zero uses.\<close>

definition store_ok :: "enrollment_store \<Rightarrow> bool" where
  "store_ok st \<longleftrightarrow> dict_ok (enr_tokens st)
     \<and> (\<forall>(k, t) \<in> set (enr_tokens st). token_id t = k \<and> (\<forall>n. uses_remaining t = Some n \<longrightarrow> 0 < n))"

lemma store_okD:
  "store_ok st \<Longrightarrow> dget (enr_tokens st) k = Some t \<Longrightarrow> token_id t = k"
  "store_ok st \<Longrightarrow> dget (enr_tokens st) k = Some t \<Longrightarrow> uses_remaining t = Some n \<Longrightarrow> 0 < n"
  "store_ok st \<Longrightarrow> dict_ok (enr_tokens st)"
  by (auto simp: store_ok_def dest!: map_of_SomeD)

lemma set_dset_sub: "set (dset k v d) \<subseteq> insert (k, v) (set d)"
  by (induction d) auto

lemma set_dpop_sub: "set (dpop k d) \<subseteq> set d"
  by (induction d) auto

lemma store_ok_put:
  assumes "store_ok st" and "token_id t = k" and "\<And>n. uses_remaining t = Some n \<Longrightarrow> 0 < n"
  shows "store_ok (st\<lparr>enr_tokens := dset k t (enr_tokens st)\<rparr>)"
  using assms set_dset_sub [of k t "enr_tokens st"] by (fastforce simp: store_ok_def)

lemma store_ok_pop: "store_ok st \<Longrightarrow> store_ok (st\<lparr>enr_tokens := dpop k (enr_tokens st)\<rparr>)"
  using set_dpop_sub [of k "enr_tokens st"] by (fastforce simp: store_ok_def)

lemma save_tokens_fields [simp]:
  "enr_tokens (save_tokens st) = enr_tokens st" "enr_writable (save_tokens st) = enr_writable st"
  by (simp_all add: save_tokens_def)

lemma prune_fields [simp]:
  "enr_tokens (snd (prune now st)) = filter (\<lambda>p. is_live (snd p) now) (enr_tokens st)"
  "enr_writable (snd (prune now st)) = enr_writable st" "enr_file (snd (prune now st)) = enr_file st"
  by (simp_all add: prune_def)

lemma pruned_tokens [simp]:
  "enr_tokens (pruned now st) = filter (\<lambda>p. is_live (snd p) now) (enr_tokens st)"
  "enr_writable (pruned now st) = enr_writable st"
  by (simp_all add: pruned_def prune_def)

lemma store_ok_save [simp]: "store_ok (save_tokens st) = store_ok st"
  by (simp add: store_ok_def)

lemma store_ok_filter:
  "store_ok st \<Longrightarrow> enr_tokens st' = filter P (enr_tokens st) \<Longrightarrow> store_ok st'"
  by (auto simp: store_ok_def)

lemma enroll_step_ok [keeps]: "store_ok st \<Longrightarrow> store_ok (enroll_step st x)"
proof (induction st x rule: enroll_step.induct)
  case (1 st now ttl uses auto tid secret)
  have "store_ok (snd (prune now st))" using 1 by (rule store_ok_filter) simp
  note put = store_ok_put [OF this]
  show ?case
    using 1 put [of "\<lparr>tok_secret = secret, token_id = tid, created_at = now, expires_at = now + ttl,
        uses_remaining = uses, auto_admit = auto\<rparr>" tid]
    by (auto simp: mint_def Let_def split: option.splits)
next
  case (2 st now s)
  then show ?case
    by (auto simp: verify_def Let_def intro: store_ok_filter split: option.splits)
next
  case (3 st now tid)
  then show ?case
    by (auto simp: consume_def intro!: store_ok_put store_ok_pop dest: store_okD(1) split: option.splits)
next
  case (4 st now tid)
  then show ?case
    by (auto simp: revoke_def intro!: store_ok_pop)
next
  case (5 st now)
  then show ?case
    by (auto simp: live_tokens_def Let_def intro: store_ok_filter)
qed

lemma enroll_run_ok [keeps]: "store_ok st \<Longrightarrow> store_ok (enroll_run st ops)"
  unfolding enroll_run_def by (induction ops arbitrary: st) (auto intro: enroll_step_ok)

section \<open>Error paths that escape\<close>

text \<open>A presented token that is not ASCII is not refused, it raises, as soon as one token is live.\<close>

lemma non_ascii_token_raises:
  assumes "\<not> is_ascii s" and "p \<in> set (enr_tokens st)" and "is_live (snd p) now"
  shows "\<exists>e. fst (verify (Some s) now st) = Inl (TypeError e)"
proof -
  have "s \<noteq> []" using assms(1) by (auto simp: is_ascii_def)
  moreover have "p \<in> set (filter (\<lambda>p. is_live (snd p) now) (enr_tokens st))" using assms(2,3) by simp
  then have "snd p \<in> set (dvalues (enr_tokens (pruned now st)))" unfolding pruned_tokens set_map by (rule imageI)
  then obtain t ts where "dvalues (enr_tokens (pruned now st)) = t # ts"
    by (metis list.exhaust list.set(1) empty_iff)
  ultimately show ?thesis using assms(1) by (simp add: verify_def Let_def compare_digest_def)
qed

text \<open>A file that parses to something other than an object stops the store from being built.\<close>

lemma foreign_document_raises:
  "(\<forall>d. j \<noteq> JObj d) \<Longrightarrow> load_tokens py now (Holds j) w = Inl (AttributeError ''get'')"
  "load_tokens py now (Holds (JObj [(''tokens'', JNull)])) w = Inl (TypeError ''object is not iterable'')"
  by (cases j) (simp_all add: load_tokens_def)

section \<open>Surviving a restart\<close>

definition new_store :: enrollment_store where
  "new_store = \<lparr>enr_tokens = [], enr_file = Absent, enr_writable = True\<rparr>"

lemma new_store_ok: "store_ok new_store"
  by (simp add: new_store_def store_ok_def)

lemma token_round_trip: "token_of_json py (token_to_json t) = Inr t"
  by (cases t; cases "uses_remaining t") (auto simp: token_of_json_def token_to_json_def item_def)

lemma load_rows_saved:
  assumes "dict_ok d" and "\<forall>(k, t) \<in> set d. token_id t = k"
  shows "load_rows py (map token_to_json (dvalues d)) = d"
  using assms
proof (induction d rule: rev_induct)
  case (snoc p d)
  obtain k t where p: "p = (k, t)" by (cases p)
  have "dset k t d = d @ [(k, t)]" if "k \<notin> set (dkeys d)" for d :: "(string, enrollment_token) dict"
    using that by (induction d) auto
  then show ?case
    using snoc by (auto simp: load_rows_def p token_round_trip)
qed (simp add: load_rows_def)

text \<open>What a path reads back as is what the store holds, as long as writing works.\<close>

definition in_step :: "enrollment_store \<Rightarrow> bool" where
  "in_step st \<longleftrightarrow> enr_writable st \<and>
     (enr_file st = Holds (JObj [(''tokens'', JList (map token_to_json (dvalues (enr_tokens st))))])
      \<or> enr_file st = Absent \<and> enr_tokens st = [])"

lemma in_step_save: "enr_writable st \<Longrightarrow> in_step (save_tokens st)"
  by (simp add: in_step_def save_tokens_def)

lemma filter_unchanged: "\<not> (\<exists>x \<in> set xs. \<not> P x) \<Longrightarrow> filter P xs = xs"
  by (simp add: filter_id_conv)

lemma in_step_pruned: "in_step st \<Longrightarrow> in_step (pruned now st)"
  by (auto simp: pruned_def prune_def in_step_def save_tokens_def filter_unchanged)

lemma in_step_store_writable: "in_step st \<Longrightarrow> enr_writable st"
  by (simp add: in_step_def)

lemma enroll_step_in_step [keeps]:
  assumes "in_step st"
  shows "in_step (enroll_step st x)"
proof -
  note w = in_step_store_writable [OF assms] and p = in_step_pruned [OF assms]
  show ?thesis
    using assms w p
    by (induction st x rule: enroll_step.induct)
      (auto simp: mint_def verify_def consume_def revoke_def live_tokens_def Let_def
        intro!: in_step_save split: option.splits)
qed

lemma enroll_run_in_step [keeps]: "in_step st \<Longrightarrow> in_step (enroll_run st ops)"
  unfolding enroll_run_def by (induction ops arbitrary: st) (auto intro: enroll_step_in_step)

text \<open>Tokens survive a restart exactly. After any sequence of operations on a store that
  started without a file and can write, reading the file back at any later moment gives the tokens
  the store held, minus those that have expired by then.\<close>

theorem enrollment_survives_restart:
  assumes "st = enroll_run new_store ops"
  shows "\<exists>st'. load_tokens py now (enr_file st) True = Inr st'
    \<and> enr_tokens st' = filter (\<lambda>p. is_live (snd p) now) (enr_tokens st)"
proof -
  have "in_step new_store" by (simp add: in_step_def new_store_def)
  then have sync: "in_step st" using assms enroll_run_in_step by simp
  have ok: "store_ok st" using assms enroll_run_ok [OF new_store_ok] by simp
  have "load_rows py (map token_to_json (dvalues (enr_tokens st))) = enr_tokens st"
    using ok by (intro load_rows_saved) (auto simp: store_ok_def)
  then show ?thesis
    using sync by (auto simp: in_step_def load_tokens_def Let_def)
qed

theorem enrollment_survives_restart_witness:
  "(\<exists>st'. load_tokens plain_text 30
      (enr_file (enroll_run new_store
        [(0, Mint 20 (Some 1) True ''a'' ''s1''), (5, Mint 60 (Some 3) False ''b'' ''s2''), (6, Consume ''b'')])) True
      = Inr st'
    \<and> enr_tokens st' = filter (\<lambda>p. is_live (snd p) 30) (enr_tokens (enroll_run new_store
        [(0, Mint 20 (Some 1) True ''a'' ''s1''), (5, Mint 60 (Some 3) False ''b'' ''s2''), (6, Consume ''b'')])))
   \<and> map (\<lambda>p. (fst p, uses_remaining (snd p))) (filter (\<lambda>p. is_live (snd p) 30) (enr_tokens (enroll_run new_store
        [(0, Mint 20 (Some 1) True ''a'' ''s1''), (5, Mint 60 (Some 3) False ''b'' ''s2''), (6, Consume ''b'')])))
      = [(''b'', Some 2)]"
  by (intro conjI, rule enrollment_survives_restart [OF refl], code_simp)

section \<open>The life of one token\<close>

declare map_of_eq_Some_iff [simp del]

lemma first_match_find:
  assumes "is_ascii s" and "\<forall>t \<in> set ts. is_ascii (tok_secret t)"
  shows "first_match s ts = Inr (find (\<lambda>t. tok_secret t = s) ts)"
  using assms by (induction ts) (auto simp: compare_digest_def)

text \<open>Later operations that do not mint the same identifier or secret again.\<close>

fun apart :: "string \<Rightarrow> string \<Rightarrow> enroll_op \<Rightarrow> bool" where
  "apart tid secret (Mint _ _ _ i s) \<longleftrightarrow> i \<noteq> tid \<and> s \<noteq> secret \<and> is_ascii s"
| "apart tid secret _ \<longleftrightarrow> True"

definition spent :: "string \<Rightarrow> (rat \<times> enroll_op) list \<Rightarrow> nat" where
  "spent tid ops = length (filter (\<lambda>x. snd x = Consume tid) ops)"

definition revoked :: "string \<Rightarrow> (rat \<times> enroll_op) list \<Rightarrow> bool" where
  "revoked tid ops \<longleftrightarrow> (\<exists>x \<in> set ops. snd x = Revoke tid)"

text \<open>What the store holds for a token while it has not expired.\<close>

definition remaining :: "enrollment_token \<Rightarrow> nat \<Rightarrow> bool \<Rightarrow> enrollment_token option" where
  "remaining t k gone =
     (if gone then None
      else case uses_remaining t of
        None \<Rightarrow> Some t
      | Some u \<Rightarrow> if int k < u then Some (t\<lparr>uses_remaining := Some (u - int k)\<rparr>) else None)"

lemma dget_live:
  "dict_ok d \<Longrightarrow> dget (filter (\<lambda>p. is_live (snd p) now) d) k
    = (case dget d k of Some t \<Rightarrow> if is_live t now then Some t else None | None \<Rightarrow> None)"
proof (induction d)
  case (Cons p d)
  then have "dget d (fst p) = None" by (simp add: map_of_eq_None_notin)
  with Cons show ?case by (cases p) auto
qed simp

lemma remaining_live:
  "remaining t k gone = Some t' \<Longrightarrow> now < expires_at t \<Longrightarrow> is_live t' now"
  by (auto simp: remaining_def is_live_def split: if_splits option.splits)

lemma step_remaining:
  assumes "store_ok st" and "now < expires_at t" and "apart (token_id t) secret op"
    and "dget (enr_tokens st) (token_id t) = remaining t k gone"
  shows "dget (enr_tokens (enroll_step st (now, op))) (token_id t)
    = remaining t (k + (if op = Consume (token_id t) then 1 else 0)) (gone \<or> op = Revoke (token_id t))"
proof -
  have kept: "dget (filter (\<lambda>p. is_live (snd p) now) (enr_tokens st)) (token_id t) = remaining t k gone"
    using assms(1,2,4) remaining_live [OF _ assms(2), of k gone]
    by (simp add: dget_live store_okD(3) split: option.split)
  show ?thesis
  proof (cases op)
    case (Mint ttl uses auto i s)
    then show ?thesis using assms(3,4) kept by (auto simp: mint_def Let_def)
  next
    case (Verify s)
    then show ?thesis using assms(4) kept by (auto simp: verify_def Let_def split: option.splits)
  next
    case (Consume i)
    then show ?thesis
      using assms(4) by (auto simp: consume_def remaining_def split: option.splits if_splits)
  next
    case (Revoke i)
    then show ?thesis using assms(4) by (auto simp: revoke_def remaining_def)
  next
    case List_live
    then show ?thesis using kept by (simp add: live_tokens_def Let_def)
  qed
qed

lemma run_remaining:
  assumes "store_ok st" and "dget (enr_tokens st) (token_id t) = remaining t 0 False"
    and "\<forall>x \<in> set ops. fst x < expires_at t \<and> apart (token_id t) secret (snd x)"
  shows "dget (enr_tokens (enroll_run st ops)) (token_id t)
    = remaining t (spent (token_id t) ops) (revoked (token_id t) ops)"
  using assms(3)
proof (induction ops rule: rev_induct)
  case Nil
  then show ?case using assms(2) by (simp add: enroll_run_def spent_def revoked_def)
next
  case (snoc x ops)
  obtain now op where x: "x = (now, op)" by (cases x)
  have "store_ok (enroll_run st ops)" using assms(1) by (rule enroll_run_ok)
  moreover have "dget (enr_tokens (enroll_run st ops)) (token_id t)
      = remaining t (spent (token_id t) ops) (revoked (token_id t) ops)"
    using snoc by simp
  ultimately show ?case
    using step_remaining [of "enroll_run st ops" now t secret op] snoc.prems
    by (simp add: x enroll_run_def spent_def revoked_def disj_commute)
qed

text \<open>Only the minted token carries the secret, and all secrets are ASCII.\<close>

definition secret_of :: "string \<Rightarrow> string \<Rightarrow> enrollment_store \<Rightarrow> bool" where
  "secret_of tid secret st \<longleftrightarrow> (\<forall>(k, t) \<in> set (enr_tokens st).
     is_ascii (tok_secret t) \<and> (tok_secret t = secret \<longleftrightarrow> k = tid))"

lemma secret_of_put:
  "secret_of tid secret st \<Longrightarrow> is_ascii (tok_secret t) \<Longrightarrow> (tok_secret t = secret \<longleftrightarrow> k = tid) \<Longrightarrow>
   secret_of tid secret (st\<lparr>enr_tokens := dset k t (enr_tokens st)\<rparr>)"
  using set_dset_sub [of k t "enr_tokens st"] by (fastforce simp: secret_of_def)

lemma secret_of_sub:
  "secret_of tid secret st \<Longrightarrow> set (enr_tokens st') \<subseteq> set (enr_tokens st) \<Longrightarrow> secret_of tid secret st'"
  by (auto simp: secret_of_def)

lemma secret_of_save [simp]: "secret_of tid secret (save_tokens st) = secret_of tid secret st"
  by (simp add: secret_of_def)

lemma step_secret:
  assumes "secret_of tid secret st" and "apart tid secret op"
  shows "secret_of tid secret (enroll_step st (now, op))"
proof (cases op)
  case (Mint ttl uses auto i s)
  have "secret_of tid secret (snd (prune now st))" by (rule secret_of_sub [OF assms(1)]) auto
  note put = secret_of_put [OF this]
  show ?thesis
    using Mint assms put [of "\<lparr>tok_secret = s, token_id = i, created_at = now, expires_at = now + ttl,
        uses_remaining = uses, auto_admit = auto\<rparr>" i]
    by (auto simp: mint_def Let_def split: option.splits)
next
  case (Verify s)
  then show ?thesis
    using assms(1) by (auto simp: verify_def Let_def intro: secret_of_sub split: option.splits)
next
  case (Consume i)
  have "is_ascii (tok_secret t) \<and> (tok_secret t = secret \<longleftrightarrow> i = tid)"
    if "dget (enr_tokens st) i = Some t" for t
    using assms(1) map_of_SomeD [OF that] by (auto simp: secret_of_def)
  moreover have popped: "secret_of tid secret (st\<lparr>enr_tokens := dpop i (enr_tokens st)\<rparr>)"
    by (rule secret_of_sub [OF assms(1)]) (simp add: set_dpop_sub)
  ultimately show ?thesis
    using Consume assms(1) popped
    by (auto simp: consume_def intro!: secret_of_put split: option.splits)
next
  case (Revoke i)
  then show ?thesis
    using assms(1) by (auto simp: revoke_def intro!: secret_of_sub [OF assms(1)] dest: set_dpop_sub [THEN subsetD])
next
  case List_live
  then show ?thesis using assms(1) by (auto simp: live_tokens_def Let_def intro: secret_of_sub)
qed

lemma run_secret:
  "secret_of tid secret st \<Longrightarrow> \<forall>x \<in> set ops. apart tid secret (snd x) \<Longrightarrow> secret_of tid secret (enroll_run st ops)"
proof (induction ops rule: rev_induct)
  case (snoc x ops)
  then show ?case using step_secret [of tid secret "enroll_run st ops" "snd x" "fst x"]
    by (simp add: enroll_run_def)
qed (simp add: enroll_run_def)

lemma find_by_secret:
  "\<forall>(k, t) \<in> set d. tok_secret t = secret \<longleftrightarrow> k = tid \<Longrightarrow>
   find (\<lambda>t. tok_secret t = secret) (dvalues d) = dget d tid"
  by (induction d) auto

lemma verify_by_secret:
  assumes "store_ok st" and "secret_of tid secret st" and "is_ascii secret" and "secret \<noteq> []"
  shows "fst (verify (Some secret) now st)
    = Inr (case dget (enr_tokens st) tid of Some t \<Rightarrow> if is_live t now then Some t else None | None \<Rightarrow> None)"
proof -
  let ?d = "filter (\<lambda>p. is_live (snd p) now) (enr_tokens st)"
  have "\<forall>t \<in> set (dvalues ?d). is_ascii (tok_secret t)"
    using assms(2) by (auto simp: secret_of_def)
  moreover have "find (\<lambda>t. tok_secret t = secret) (dvalues ?d) = dget ?d tid"
    using assms(2) by (intro find_by_secret) (auto simp: secret_of_def)
  ultimately show ?thesis
    using assms by (simp add: verify_def Let_def first_match_find dget_live store_okD(3))
qed

text \<open>A token keeps the expiry it was minted with.\<close>

definition expiry_of :: "string \<Rightarrow> rat \<Rightarrow> enrollment_store \<Rightarrow> bool" where
  "expiry_of tid e st \<longleftrightarrow> (\<forall>t. dget (enr_tokens st) tid = Some t \<longrightarrow> expires_at t = e)"

lemma step_expiry:
  assumes "store_ok st" and "expiry_of tid e st" and "apart tid secret op"
  shows "expiry_of tid e (enroll_step st (now, op))"
  using assms
  by (cases op)
    (auto simp: expiry_of_def mint_def verify_def consume_def revoke_def live_tokens_def Let_def
      dget_live store_okD(3) split: option.splits if_splits)

lemma run_expiry:
  assumes "store_ok st" and "expiry_of tid e st" and "\<forall>x \<in> set ops. apart tid secret (snd x)"
  shows "expiry_of tid e (enroll_run st ops)"
  using assms(3)
proof (induction ops rule: rev_induct)
  case (snoc x ops)
  then show ?case
    using step_expiry [of "enroll_run st ops" tid e secret "snd x" "fst x"] enroll_run_ok [OF assms(1)]
    by (simp add: enroll_run_def)
qed (simp add: enroll_run_def assms(2))

definition absent_of :: "string \<Rightarrow> string \<Rightarrow> enrollment_store \<Rightarrow> bool" where
  "absent_of tid secret st \<longleftrightarrow> (\<forall>(k, t) \<in> set (enr_tokens st).
     is_ascii (tok_secret t) \<and> tok_secret t \<noteq> secret \<and> k \<noteq> tid)"

text \<open>The state right after a successful mint.\<close>

lemma minted:
  assumes "store_ok st" and "absent_of tid secret st" and "is_ascii secret"
    and "mint ttl uses auto (tid, secret) t0 st = (Inr tok, st1)"
  shows "store_ok st1 \<and> secret_of tid secret st1 \<and> expiry_of tid (t0 + ttl) st1
    \<and> dget (enr_tokens st1) tid = Some tok \<and> token_id tok = tid \<and> expires_at tok = t0 + ttl
    \<and> (\<forall>n. uses_remaining tok = Some n \<longrightarrow> 0 < n)"
proof -
  have st1: "st1 = enroll_step st (t0, Mint ttl uses auto tid secret)" by (simp add: assms(4))
  have "tok_secret t = secret \<longleftrightarrow> k = tid" "is_ascii (tok_secret t)"
    if "(k, t) \<in> set (enr_tokens st1)" for k t
    using assms(2,3,4) that set_dset_sub
    by (fastforce simp: mint_def Let_def absent_of_def split: if_splits option.splits)+
  then have "secret_of tid secret st1" by (auto simp: secret_of_def)
  then show ?thesis
    using enroll_step_ok [OF assms(1), of "(t0, Mint ttl uses auto tid secret)"] assms(4)
    by (auto simp: mint_def Let_def expiry_of_def split: if_splits option.splits)
qed

lemma run_absent:
  assumes "\<forall>x \<in> set ops. apart tid secret (snd x)"
  shows "absent_of tid secret (enroll_run new_store ops)"
proof -
  have sec: "secret_of tid secret (enroll_run new_store ops)"
    by (rule run_secret [OF _ assms]) (simp add: secret_of_def new_store_def)
  have "dget (enr_tokens (enroll_run new_store ops)) tid = None"
    using assms
  proof (induction ops rule: rev_induct)
    case (snoc x ops)
    then have "expiry_of tid 0 (enroll_run new_store ops)" by (simp add: expiry_of_def)
    obtain now op where x: "x = (now, op)" by (cases x)
    have "dict_ok (enr_tokens (enroll_run new_store ops))"
      by (rule store_okD(3)) (rule enroll_run_ok [OF new_store_ok])
    then show ?case using snoc
      by (cases op) (auto simp: x enroll_run_def mint_def verify_def consume_def revoke_def
          live_tokens_def Let_def dget_live split: option.splits)
  qed (simp add: enroll_run_def new_store_def)
  then show ?thesis
    using sec by (force simp: absent_of_def secret_of_def map_of_eq_None_notin)
qed

lemma remaining_expiry: "remaining t k gone = Some t' \<Longrightarrow> expires_at t' = expires_at t"
  by (auto simp: remaining_def split: if_splits option.splits)

text \<open>C13: the life of an enrollment token. A token minted in any reachable store is accepted at a
  later moment exactly when it has not reached its expiry, has not been revoked, and fewer admissions
  than its uses were spent on it; what is returned is that token with the uses left. Whatever else is
  minted, presented, spent, revoked or listed in between makes no difference.\<close>

theorem token_lifetime:
  assumes "\<forall>x \<in> set before_ops. apart tid secret (snd x)"
    and "mint ttl uses auto (tid, secret) t0 (enroll_run new_store before_ops) = (Inr tok, st)"
    and "\<forall>x \<in> set ops. fst x \<le> now \<and> apart tid secret (snd x)"
    and "is_ascii secret" and "secret \<noteq> []"
  shows "fst (verify (Some secret) now (enroll_run st ops))
    = Inr (if now < t0 + ttl then remaining tok (spent tid ops) (revoked tid ops) else None)"
proof -
  let ?later = "enroll_run st ops"
  note m = minted [OF enroll_run_ok [OF new_store_ok] run_absent [OF assms(1)] assms(4) assms(2)]
  have ok: "store_ok ?later" using m by (intro enroll_run_ok) simp
  have v: "fst (verify (Some secret) now ?later) = Inr (case dget (enr_tokens ?later) tid of
      Some t \<Rightarrow> if is_live t now then Some t else None | None \<Rightarrow> None)"
    using m assms by (intro verify_by_secret ok run_secret) auto
  have e: "expiry_of tid (t0 + ttl) ?later"
    using m assms(3) by (intro run_expiry [where secret = secret]) auto
  show ?thesis
  proof (cases "now < t0 + ttl")
    case True
    have "dget (enr_tokens ?later) (token_id tok)
        = remaining tok (spent (token_id tok) ops) (revoked (token_id tok) ops)"
    proof (rule run_remaining [where secret = secret])
      show "dget (enr_tokens st) (token_id tok) = remaining tok 0 False"
        using m by (cases tok) (auto simp: remaining_def split: option.splits)
    qed (use m assms(3) True in force)+
    then show ?thesis
      using m v True remaining_live [of tok _ _ _ now] by (auto split: option.splits)
  next
    case False
    then show ?thesis using v e by (auto simp: expiry_of_def is_live_def split: option.splits)
  qed
qed

theorem token_lifetime_witness:
  "(\<exists>tok st. mint 60 (Some 2) True (''t'', ''s3cret'') 5
        (enroll_run new_store [(0, Mint 20 (Some 1) True ''a'' ''s1'')]) = (Inr tok, st)
     \<and> fst (verify (Some ''s3cret'') 64 (enroll_run st [(6, Verify (Some ''s1'')), (7, Consume ''t'')]))
       = Inr (Some (tok\<lparr>uses_remaining := Some 1\<rparr>))
     \<and> fst (verify (Some ''s3cret'') 65 (enroll_run st [(6, Consume ''t'')])) = Inr None
     \<and> fst (verify (Some ''s3cret'') 9 (enroll_run st [(6, Consume ''t''), (7, Consume ''t'')])) = Inr None)"
proof -
  let ?b = "[(0, Mint 20 (Some 1) True ''a'' ''s1'')]"
  obtain tok st where m: "mint 60 (Some 2) True (''t'', ''s3cret'') 5 (enroll_run new_store ?b) = (Inr tok, st)"
    and u: "uses_remaining tok = Some 2"
    by (simp add: mint_def MAX_TTL_S_def Let_def)
  note life = token_lifetime [OF _ m, where now = 64]
    token_lifetime [OF _ m, where now = 65] token_lifetime [OF _ m, where now = 9]
  have "is_ascii ''s3cret''" "is_ascii ''s1''" by (simp_all add: is_ascii_def)
  then show ?thesis
    using m u life [where ops = "[(6, Verify (Some ''s1'')), (7, Consume ''t'')]"]
      life [where ops = "[(6, Consume ''t'')]"]
      life [where ops = "[(6, Consume ''t''), (7, Consume ''t'')]"]
    by (intro exI [of _ tok] exI [of _ st]) (auto simp: remaining_def spent_def revoked_def)
qed

end
