(* ===== verification/Host_Probe.thy ===== *)
theory Host_Probe
  imports Contracts Json
begin

text \<open>
  The hardware probe, \<open>control_plane/registry/probe.py\<close>: from what nvidia-smi, sysctl and the
  kernel answer to a node profile. What those answer is an argument; so is the number Python reads
  out of a cell (\<open>py_text\<close>).
\<close>

section \<open>Cells\<close>

definition not_a_number :: "string list" where
  "not_a_number = [[], ''n/a'', ''[n/a]'', ''[not supported]'', ''[unknown error]'', ''unknown'']"

definition num_cell :: "py_text \<Rightarrow> string \<Rightarrow> rat option" where
  "num_cell py cell =
     (let cell = str_strip cell in
      if str_lower cell \<in> set not_a_number then None else read_float py cell)"

definition MEMORY_BANDWIDTH_GBPS :: "(string, rat) dict" where
  "MEMORY_BANDWIDTH_GBPS =
     [(''h100'', 3350), (''a100'', 2039), (''4090'', 1008), (''3090'', 936), (''a6000'', 768)]"

definition bandwidth_for :: "string \<Rightarrow> rat" where
  "bandwidth_for name =
     (case find (\<lambda>(key, gbps). str_contains key (str_lower name)) MEMORY_BANDWIDTH_GBPS of
        Some (key, gbps) \<Rightarrow> gbps | None \<Rightarrow> 0)"

definition is_gb10 :: "string \<Rightarrow> bool" where
  "is_gb10 name = str_contains ''gb10'' (str_lower name)"

section \<open>The identifier a hostname seeds\<close>

definition slug_char :: "char \<Rightarrow> bool" where
  "slug_char c \<longleftrightarrow> is_alnum c \<or> c = CHR ''-''"

text \<open>\<open>re.sub("[^a-zA-Z0-9-]+", "-", s)\<close>, the flag telling whether the last character was in a run.\<close>

fun dash_runs :: "bool \<Rightarrow> string \<Rightarrow> string" where
  "dash_runs in_run [] = []"
| "dash_runs in_run (c # cs) =
     (if slug_char c then c # dash_runs False cs
      else if in_run then dash_runs True cs
      else CHR ''-'' # dash_runs True cs)"

definition strip_char :: "char \<Rightarrow> string \<Rightarrow> string" where
  "strip_char c s = rev (dropWhile (\<lambda>d. d = c) (rev (dropWhile (\<lambda>d. d = c) s)))"

definition slugify_hostname :: "string \<Rightarrow> string" where
  "slugify_hostname h =
     (let slug = strip_char (CHR ''-'') (dash_runs False (str_lower (str_strip h))) in
      if slug = [] then ''node'' else slug)"

section \<open>Profiles\<close>

definition GB10_TOTAL_MEMORY :: int where "GB10_TOTAL_MEMORY = 128 * 1024 ^ 3"
definition GB10_ADDRESSABLE :: int where "GB10_ADDRESSABLE = py_int (119.7 * 1024 ^ 3)"
definition GB10_MEM_BANDWIDTH :: rat where "GB10_MEM_BANDWIDTH = 273"
definition DISCRETE_MEMORY_RESERVE :: int where "DISCRETE_MEMORY_RESERVE = 1 * 1024 ^ 3"

definition unknown_profile :: "string \<Rightarrow> string \<Rightarrow> string \<Rightarrow> node_profile" where
  "unknown_profile nid host addr =
     \<lparr>node_id = nid, hostname = host, address = addr, device_class = UNKNOWN, gpu_name = [],
      gpu_count = 0, total_memory = 0, addressable_memory = 0, memory_bandwidth_gbps = 0,
      compute_capability = [], driver_version = []\<rparr>"

definition probe_apple ::
  "py_text \<Rightarrow> string \<Rightarrow> string \<Rightarrow> string \<Rightarrow> (string \<Rightarrow> string option) \<Rightarrow> node_profile option" where
  "probe_apple py nid host addr sysctl =
     (case sysctl ''machdep.cpu.brand_string'' of
        None \<Rightarrow> None
      | Some brand \<Rightarrow>
        if brand = [] \<or> \<not> starts_with ''Apple'' brand then None
        else let memsize = (case sysctl ''hw.memsize'' of
                   None \<Rightarrow> 0
                 | Some m \<Rightarrow> if m = [] then 0 else (case read_int py m of Some n \<Rightarrow> n | None \<Rightarrow> 0))
             in Some \<lparr>node_id = nid, hostname = host, address = addr, device_class = APPLE,
                  gpu_name = brand, gpu_count = 0, total_memory = memsize, addressable_memory = 0,
                  memory_bandwidth_gbps = 0, compute_capability = [], driver_version = []\<rparr>)"

definition probe_cpu :: "string \<Rightarrow> string \<Rightarrow> string \<Rightarrow> bool \<Rightarrow> node_profile option" where
  "probe_cpu nid host addr host_memory_reads =
     (if \<not> host_memory_reads then None
      else Some \<lparr>node_id = nid, hostname = host, address = addr, device_class = CPU,
             gpu_name = [], gpu_count = 0, total_memory = 0, addressable_memory = 0,
             memory_bandwidth_gbps = 0, compute_capability = [], driver_version = []\<rparr>)"

text \<open>What the machine answers: the two nvidia-smi queries, sysctl, the driver and PCI evidence,
  and whether host memory can be read.\<close>

record machine =
  smi :: "string list list option"
  smi_fallback :: "string list list option"
  sysctl :: "string \<Rightarrow> string option"
  nvidia_present :: bool
  host_memory_reads :: bool

definition cell :: "string list \<Rightarrow> nat \<Rightarrow> string" where
  "cell row i = (if i < length row then row ! i else [])"

text \<open>The device class, the total and addressable memory and the bandwidth of listed GPUs.\<close>

definition gpu_memory ::
  "py_text \<Rightarrow> int \<Rightarrow> string list \<Rightarrow> device_class \<times> int \<times> int \<times> rat" where
  "gpu_memory py gpus first =
     (let name = cell first 0 in
      if is_gb10 name
      then (GB10, GB10_TOTAL_MEMORY * gpus, GB10_ADDRESSABLE * gpus, GB10_MEM_BANDWIDTH)
      else case (if 1 < length first then num_cell py (first ! 1) else None) of
          None \<Rightarrow> (DISCRETE, 0, 0, bandwidth_for name)
        | Some mib \<Rightarrow>
            let per_gpu = py_int mib * 1024 ^ 2
            in (DISCRETE, per_gpu * gpus, max 0 (per_gpu - DISCRETE_MEMORY_RESERVE) * gpus,
                bandwidth_for name))"

definition probe_rows :: "py_text \<Rightarrow> string \<Rightarrow> string \<Rightarrow> string \<Rightarrow> string list list \<Rightarrow> node_profile" where
  "probe_rows py nid host addr rows =
     (let first = rows ! 0; name = cell first 0 in
      if name = [] then unknown_profile nid host addr
      else
        let gpus = int (length rows);
            (dclass, total, addressable, bandwidth) = gpu_memory py gpus first
        in \<lparr>node_id = nid, hostname = host, address = addr, device_class = dclass, gpu_name = name,
            gpu_count = gpus, total_memory = total, addressable_memory = addressable,
            memory_bandwidth_gbps = bandwidth, compute_capability = str_strip (cell first 3),
            driver_version = str_strip (cell first 2)\<rparr>)"

definition probe_local :: "py_text \<Rightarrow> string option \<Rightarrow> string \<Rightarrow> string \<Rightarrow> machine \<Rightarrow> node_profile" where
  "probe_local py given host addr m =
     (let nid = (case given of Some i \<Rightarrow> if i = [] then slugify_hostname host else i
                               | None \<Rightarrow> slugify_hostname host);
          rows = (case smi m of Some rs \<Rightarrow> Some rs | None \<Rightarrow> smi_fallback m)
      in case rows of
           Some (r # rs) \<Rightarrow> probe_rows py nid host addr (r # rs)
         | _ \<Rightarrow>
           (case probe_apple py nid host addr (sysctl m) of
              Some p \<Rightarrow> p
            | None \<Rightarrow>
              if nvidia_present m then unknown_profile nid host addr
              else (case probe_cpu nid host addr (host_memory_reads m) of
                      Some p \<Rightarrow> p
                    | None \<Rightarrow> unknown_profile nid host addr)))"

section \<open>What a probe promises\<close>

text \<open>What each way of identifying a machine reports.\<close>

lemma probe_apple_fields:
  "probe_apple py nid host addr sc = Some p \<Longrightarrow>
   device_class p = APPLE \<and> addressable_memory p = 0 \<and> gpu_count p = 0
   \<and> (total_memory p = 0 \<or> (\<exists>s. read_int py s = Some (total_memory p)))"
  by (auto simp: probe_apple_def Let_def split: option.splits if_splits)

lemma probe_cpu_fields:
  "probe_cpu nid host addr reads = Some p \<Longrightarrow>
   device_class p = CPU \<and> addressable_memory p = 0 \<and> gpu_count p = 0 \<and> total_memory p = 0"
  by (auto simp: probe_cpu_def split: if_splits)

lemma unknown_profile_fields [simp]:
  "device_class (unknown_profile nid host addr) = UNKNOWN"
  "addressable_memory (unknown_profile nid host addr) = 0" "gpu_count (unknown_profile nid host addr) = 0"
  "total_memory (unknown_profile nid host addr) = 0" "node_id (unknown_profile nid host addr) = nid"
  by (simp_all add: unknown_profile_def)

lemma gpu_memory_fields:
  "gpu_memory py gpus row = (c, t, a, b) \<Longrightarrow>
   c \<in> {GB10, DISCRETE} \<and>
   (t = GB10_TOTAL_MEMORY * gpus \<and> a = GB10_ADDRESSABLE * gpus \<or> t = 0 \<and> a = 0
    \<or> (\<exists>s x. num_cell py s = Some x \<and> t = py_int x * 1024 ^ 2 * gpus
         \<and> a = max 0 (py_int x * 1024 ^ 2 - DISCRETE_MEMORY_RESERVE) * gpus))"
  unfolding gpu_memory_def Let_def by (auto split: option.splits if_splits)

lemma probe_rows_fields:
  "probe_rows py nid host addr rows = unknown_profile nid host addr
   \<or> gpu_count (probe_rows py nid host addr rows) = int (length rows)
     \<and> (\<exists>b. gpu_memory py (int (length rows)) (rows ! 0) =
          (device_class (probe_rows py nid host addr rows), total_memory (probe_rows py nid host addr rows),
           addressable_memory (probe_rows py nid host addr rows), b))"
proof (cases "cell (rows ! 0) 0 = []")
  case False
  obtain c t a b where "gpu_memory py (int (length rows)) (rows ! 0) = (c, t, a, b)"
    by (metis prod.exhaust)
  then show ?thesis using False by (simp add: probe_rows_def Let_def)
qed (simp add: probe_rows_def Let_def)

lemma probe_local_cases [consumes 0, case_names rows apple cpu unknown]:
  obtains
    (rows) nid r rs where "probe_local py i host addr m = probe_rows py nid host addr (r # rs)"
  | (apple) nid where "probe_apple py nid host addr (sysctl m) = Some (probe_local py i host addr m)"
  | (cpu) nid where "probe_cpu nid host addr (host_memory_reads m) = Some (probe_local py i host addr m)"
  | (unknown) nid where "probe_local py i host addr m = unknown_profile nid host addr"
proof -
  define nid where "nid = (case i of Some i \<Rightarrow> if i = [] then slugify_hostname host else i
                               | None \<Rightarrow> slugify_hostname host)"
  define answer where "answer = (case smi m of Some rs \<Rightarrow> Some rs | None \<Rightarrow> smi_fallback m)"
  have *: "probe_local py i host addr m = (case answer of
           Some (r # rs) \<Rightarrow> probe_rows py nid host addr (r # rs)
         | _ \<Rightarrow>
           (case probe_apple py nid host addr (sysctl m) of
              Some p \<Rightarrow> p
            | None \<Rightarrow>
              if nvidia_present m then unknown_profile nid host addr
              else (case probe_cpu nid host addr (host_memory_reads m) of
                      Some p \<Rightarrow> p
                    | None \<Rightarrow> unknown_profile nid host addr)))"
    unfolding probe_local_def Let_def nid_def answer_def by (rule refl)
  show thesis
  proof (cases "\<exists>r rs. answer = Some (r # rs)")
    case True
    then show thesis using that(1) [of nid] * by auto
  next
    case False
    then have "probe_local py i host addr m = (case probe_apple py nid host addr (sysctl m) of
              Some p \<Rightarrow> p
            | None \<Rightarrow>
              if nvidia_present m then unknown_profile nid host addr
              else (case probe_cpu nid host addr (host_memory_reads m) of
                      Some p \<Rightarrow> p
                    | None \<Rightarrow> unknown_profile nid host addr))"
      using * by (simp split: option.splits list.splits)
    note rest = this
    show thesis
    proof (cases "probe_apple py nid host addr (sysctl m)")
      case None
      note no_apple = this
      show thesis
      proof (cases "probe_cpu nid host addr (host_memory_reads m)")
        case None
        then show thesis using rest no_apple by (intro that(4) [of nid]) simp
      next
        case (Some p)
        show thesis
        proof (cases "nvidia_present m")
          case True
          then show thesis using rest no_apple by (intro that(4) [of nid]) simp
        next
          case False
          then show thesis using rest no_apple Some by (intro that(3) [of nid]) simp
        qed
      qed
    next
      case (Some p)
      then show thesis using rest by (intro that(2) [of nid]) simp
    qed
  qed
qed

text \<open>An unidentified machine is zeroed, never partial.\<close>

lemma unknown_is_zeroed:
  assumes "device_class (probe_local py i host addr m) = UNKNOWN"
  shows "\<exists>nid. probe_local py i host addr m = unknown_profile nid host addr"
proof (cases rule: probe_local_cases [of py i host addr m])
  case (rows nid r rs)
  have "probe_rows py nid host addr (r # rs) = unknown_profile nid host addr"
    using probe_rows_fields [of py nid host addr "r # rs"]
  proof (elim disjE conjE exE)
    fix b
    assume "gpu_memory py (int (length (r # rs))) ((r # rs) ! 0) =
      (device_class (probe_rows py nid host addr (r # rs)), total_memory (probe_rows py nid host addr (r # rs)),
       addressable_memory (probe_rows py nid host addr (r # rs)), b)"
    from gpu_memory_fields [OF this] assms rows show ?thesis by simp
  qed
  then show ?thesis using rows by auto
next
  case (apple nid)
  then show ?thesis using assms probe_apple_fields [OF apple] by simp
next
  case (cpu nid)
  then show ?thesis using assms probe_cpu_fields [OF cpu] by simp
next
  case (unknown nid)
  then show ?thesis using assms by auto
qed

text \<open>Only a machine whose GPUs nvidia-smi listed has memory a plan may spend.\<close>

lemma memory_needs_gpu:
  assumes "addressable_memory (probe_local py i host addr m) \<noteq> 0"
  shows "0 < gpu_count (probe_local py i host addr m)"
proof (cases rule: probe_local_cases [of py i host addr m])
  case (rows nid r rs)
  then show ?thesis using assms probe_rows_fields [of py nid host addr "r # rs"] by auto
next
  case (apple nid)
  then show ?thesis using assms probe_apple_fields [OF apple] by simp
next
  case (cpu nid)
  then show ?thesis using assms probe_cpu_fields [OF cpu] by simp
next
  case (unknown nid)
  then show ?thesis using assms by auto
qed

lemma gpu_memory_sane:
  assumes "\<And>s x. read_float py s = Some x \<Longrightarrow> 0 \<le> x" and "0 \<le> gpus"
    and "gpu_memory py gpus row = (c, t, a, b)"
  shows "0 \<le> a \<and> a \<le> t"
proof -
  have slice: "GB10_ADDRESSABLE * gpus \<le> GB10_TOTAL_MEMORY * gpus" "0 \<le> GB10_ADDRESSABLE * gpus"
    using assms(2) by (auto simp: GB10_ADDRESSABLE_def GB10_TOTAL_MEMORY_def py_int_def intro!: mult_right_mono)
  have card: "max 0 (p * 1024 ^ 2 - DISCRETE_MEMORY_RESERVE) * gpus \<le> p * 1024 ^ 2 * gpus" if "0 \<le> p" for p :: int
    using that assms(2) by (intro mult_right_mono) (auto simp: DISCRETE_MEMORY_RESERVE_def)
  have mib: "0 \<le> py_int x" if "num_cell py s = Some x" for s x
    using that assms(1) by (intro py_int_nonneg) (auto simp: num_cell_def Let_def split: if_splits)
  from gpu_memory_fields [OF assms(3)] consider
      "t = GB10_TOTAL_MEMORY * gpus" "a = GB10_ADDRESSABLE * gpus" | "t = 0" "a = 0"
    | s x where "num_cell py s = Some x" "t = py_int x * 1024 ^ 2 * gpus"
        "a = max 0 (py_int x * 1024 ^ 2 - DISCRETE_MEMORY_RESERVE) * gpus"
    by blast
  then show ?thesis
  proof cases
    case 3
    then show ?thesis using card [OF mib] assms(2) by simp
  qed (use slice in simp_all)
qed

lemma addressable_le_total:
  assumes "\<And>s x. read_float py s = Some x \<Longrightarrow> 0 \<le> x" and "\<And>s n. read_int py s = Some n \<Longrightarrow> 0 \<le> n"
  shows "0 \<le> addressable_memory (probe_local py i host addr m)
    \<and> addressable_memory (probe_local py i host addr m) \<le> total_memory (probe_local py i host addr m)"
proof (cases rule: probe_local_cases [of py i host addr m])
  case (rows nid r rs)
  then show ?thesis
    using probe_rows_fields [of py nid host addr "r # rs"]
      gpu_memory_sane [OF assms(1), where gpus = "int (length (r # rs))" and row = "(r # rs) ! 0"] by auto
next
  case (apple nid)
  then show ?thesis using probe_apple_fields [OF apple] assms(2) by auto
next
  case (cpu nid)
  then show ?thesis using probe_cpu_fields [OF cpu] by simp
qed simp

section \<open>Slugs\<close>

definition is_slug :: "string \<Rightarrow> bool" where
  "is_slug s \<longleftrightarrow> s \<noteq> [] \<and> list_all (\<lambda>c. slug_char c \<and> lower_char c = c) s
     \<and> hd s \<noteq> CHR ''-'' \<and> last s \<noteq> CHR ''-''"

lemma lower_char_idem: "lower_char (lower_char c) = lower_char c"
proof -
  have "(of_char c :: nat) < 256" by simp
  then show ?thesis by (auto simp: lower_char_def Let_def)
qed

lemma lower_char_simps [simp]: "lower_char CHR ''-'' = CHR ''-''"
  by (simp add: lower_char_def)

lemma dash_runs_slug: "list_all slug_char s \<Longrightarrow> dash_runs b s = s"
  by (induction s arbitrary: b) auto

lemma dash_runs_chars:
  "list_all (\<lambda>c. lower_char c = c) s \<Longrightarrow> list_all (\<lambda>c. slug_char c \<and> lower_char c = c) (dash_runs b s)"
  by (induction b s rule: dash_runs.induct) (auto simp: slug_char_def)

lemma strip_char_sub: "list_all P s \<Longrightarrow> list_all P (strip_char c s)"
  unfolding strip_char_def list_all_iff by (auto dest!: set_dropWhileD)

lemma strip_char_ends:
  assumes "strip_char c s \<noteq> []"
  shows "hd (strip_char c s) \<noteq> c" "last (strip_char c s) \<noteq> c"
proof -
  let ?t = "dropWhile (\<lambda>d. d = c) s"
  have ne: "dropWhile (\<lambda>d. d = c) (rev ?t) \<noteq> []" using assms by (simp add: strip_char_def)
  have "last (strip_char c s) = hd (dropWhile (\<lambda>d. d = c) (rev ?t))"
    using ne by (simp add: strip_char_def last_rev)
  then show "last (strip_char c s) \<noteq> c" using hd_dropWhile [OF ne] by simp
  obtain pre where pre: "?t = strip_char c s @ pre"
    unfolding strip_char_def by (metis rev_append rev_rev_ident takeWhile_dropWhile_id)
  then have "?t \<noteq> []" using assms by auto
  from hd_dropWhile [OF this] show "hd (strip_char c s) \<noteq> c" using pre assms by (auto simp: hd_append)
qed

lemma strip_char_id:
  assumes "s \<noteq> []" and "hd s \<noteq> c" and "last s \<noteq> c"
  shows "strip_char c s = s"
proof -
  have "dropWhile (\<lambda>d. d = c) s = s" using assms by (cases s) auto
  moreover have "dropWhile (\<lambda>d. d = c) (rev s) = rev s"
    using assms by (cases s rule: rev_cases) auto
  ultimately show ?thesis by (simp add: strip_char_def)
qed

lemma slugify_is_slug: "is_slug (slugify_hostname h)"
proof -
  let ?s = "strip_char (CHR ''-'') (dash_runs False (str_lower (str_strip h)))"
  have "list_all (\<lambda>c. lower_char c = c) (str_lower (str_strip h))"
    by (simp add: str_lower_def list_all_iff lower_char_idem)
  then have "list_all (\<lambda>c. slug_char c \<and> lower_char c = c) ?s"
    by (intro strip_char_sub dash_runs_chars)
  moreover have "is_slug ''node''" by code_simp
  ultimately show ?thesis
    using strip_char_ends [of "CHR ''-''" "dash_runs False (str_lower (str_strip h))"]
    by (auto simp: slugify_hostname_def is_slug_def Let_def)
qed

lemma slug_not_space: "slug_char c \<Longrightarrow> \<not> is_space c"
  by (auto simp: slug_char_def is_alnum_def is_space_def Let_def)

lemma slugify_slug: "is_slug s \<Longrightarrow> slugify_hostname s = s"
proof -
  assume s: "is_slug s"
  then have space: "list_all (\<lambda>c. \<not> is_space c) s"
    by (auto simp: is_slug_def list_all_iff slug_not_space)
  have "dropWhile is_space t = t" if "list_all (\<lambda>c. \<not> is_space c) t" for t
    using that by (cases t) auto
  then have "str_strip s = s" using space by (simp add: str_strip_def)
  moreover have "str_lower s = s"
    using s by (simp add: is_slug_def str_lower_def list_all_iff map_idI)
  moreover have "dash_runs False s = s"
    using s by (intro dash_runs_slug) (auto simp: is_slug_def list_all_iff)
  ultimately show "slugify_hostname s = s"
    using s by (simp add: slugify_hostname_def is_slug_def strip_char_id Let_def)
qed

lemma slugify_idempotent: "slugify_hostname (slugify_hostname h) = slugify_hostname h"
  by (rule slugify_slug) (rule slugify_is_slug)

end
