(* ===== verification/Telemetry_Samples.thy ===== *)
theory Telemetry_Samples
  imports Host_Probe
begin

text \<open>
  Live telemetry, \<open>control_plane/registry/telemetry.py\<close>: reading one sample out of what nvidia-smi
  and \<open>/proc\<close> answer, the memory a new model could get on a node right now, and the bounded history
  kept per node. The text of a file or of a subprocess is an argument.
\<close>

section \<open>Samples\<close>

record telemetry_sample =
  smp_ts :: rat
  smp_memory_used :: int
  smp_memory_total :: int
  smp_power_watts :: rat
  smp_temperature_c :: rat
  smp_utilization_pct :: rat
  gpu_memory_used :: int
  gpu_process_count :: int
  host_memory_total :: int
  host_memory_available :: int
  swap_used :: int

definition host_memory_used :: "telemetry_sample \<Rightarrow> int" where
  "host_memory_used s =
     (if host_memory_total s = 0 then 0 else max 0 (smp_memory_used s - gpu_memory_used s))"

definition sample_dict :: "telemetry_sample \<Rightarrow> json_object" where
  "sample_dict s =
     [(''ts'', JNum (smp_ts s)), (''memory_used'', JInt (smp_memory_used s)),
      (''memory_total'', JInt (smp_memory_total s)), (''power_w'', JNum (round1 (smp_power_watts s))),
      (''temp_c'', JNum (round1 (smp_temperature_c s))), (''util_pct'', JNum (round1 (smp_utilization_pct s))),
      (''gpu_memory_used'', JInt (gpu_memory_used s)), (''gpu_process_count'', JInt (gpu_process_count s)),
      (''host_memory_total'', JInt (host_memory_total s)),
      (''host_memory_available'', JInt (host_memory_available s)), (''swap_used'', JInt (swap_used s))]"

section \<open>The host\<close>

record host_memory =
  hm_total :: int
  hm_available :: int
  hm_swap_used :: int

definition hm_used :: "host_memory \<Rightarrow> int" where
  "hm_used h = max 0 (hm_total h - hm_available h)"

text \<open>The lines of \<open>/proc/meminfo\<close>; a wanted line with no value raises.\<close>

definition meminfo_key :: "string \<Rightarrow> string" where
  "meminfo_key line = takeWhile (\<lambda>c. c \<noteq> CHR '':'') line @ '':''"

definition meminfo_wanted :: "string list" where
  "meminfo_wanted = [''MemTotal:'', ''MemAvailable:'', ''SwapTotal:'', ''SwapFree:'']"

fun meminfo_fields :: "py_text \<Rightarrow> (string, int) dict \<Rightarrow> string list \<Rightarrow> (string, int) dict result" where
  "meminfo_fields py fs [] = Inr fs"
| "meminfo_fields py fs (line # lines) =
     (let key = meminfo_key line in
      if key \<in> set meminfo_wanted then
        (case words line of
           _ # value # _ \<Rightarrow>
             (case num_cell py value of
                Some x \<Rightarrow> meminfo_fields py (dset key (py_int x * 1024) fs) lines
              | None \<Rightarrow> meminfo_fields py fs lines)
         | _ \<Rightarrow> Inl IndexError)
      else meminfo_fields py fs lines)"

text \<open>\<open>text\<close> is \<open>None\<close> when there is no \<open>/proc\<close>; then the portable facts answer, if they can.\<close>

definition read_host_memory ::
  "py_text \<Rightarrow> string list option \<Rightarrow> (int \<times> int \<times> int) option \<Rightarrow> host_memory option result" where
  "read_host_memory py text facts =
     (case text of
        None \<Rightarrow> Inr (case facts of
           None \<Rightarrow> None
         | Some (tot, available, swap) \<Rightarrow>
             Some \<lparr>hm_total = tot, hm_available = available, hm_swap_used = swap\<rparr>)
      | Some lines \<Rightarrow>
          mapR (\<lambda>fs. case (dget fs ''MemTotal:'', dget fs ''MemAvailable:'') of
              (Some tot, Some available) \<Rightarrow>
                Some \<lparr>hm_total = tot, hm_available = available,
                  hm_swap_used = max 0 (dget_or fs ''SwapTotal:'' 0 - dget_or fs ''SwapFree:'' 0)\<rparr>
            | _ \<Rightarrow> None) (meminfo_fields py [] lines))"

definition read_unified_memory :: "host_memory option \<Rightarrow> (int \<times> int) option" where
  "read_unified_memory host = map_option (\<lambda>h. (hm_used h, hm_total h)) host"

definition TEMP_MIN_C :: rat where "TEMP_MIN_C = 1"
definition TEMP_MAX_C :: rat where "TEMP_MAX_C = 150"

text \<open>The thermal zones that could be read.\<close>

definition zone_readings :: "py_text \<Rightarrow> string option list \<Rightarrow> rat list" where
  "zone_readings py zones =
     filter (\<lambda>c. TEMP_MIN_C \<le> c \<and> c \<le> TEMP_MAX_C)
       (map (\<lambda>milli. milli / 1000) (List.map_filter (num_cell py) (List.map_filter id zones)))"

definition read_host_temperature :: "py_text \<Rightarrow> string option list \<Rightarrow> rat option" where
  "read_host_temperature py zones =
     (let readings = zone_readings py zones in if readings \<noteq> [] then Some (Max (set readings)) else None)"

record cpu_times =
  cpu_busy :: int
  cpu_total :: int

definition read_cpu_times :: "py_text \<Rightarrow> string option \<Rightarrow> cpu_times option" where
  "read_cpu_times py first_line =
     (case first_line of
        None \<Rightarrow> None
      | Some line \<Rightarrow>
        let parts = words line in
        if length parts < 5 \<or> parts ! 0 \<noteq> ''cpu'' then None
        else let cells = map (read_int py) (tl parts) in
          if None \<in> set cells then None
          else let values = map the cells;
                   idle = values ! 3 + (if 4 < length values then values ! 4 else 0);
                   tot = sum_list values
               in Some \<lparr>cpu_busy = max 0 (tot - idle), cpu_total = tot\<rparr>)"

text \<open>
  The utilisation since the previous reading, and the reading to difference against next time.
  \<open>current\<close> is the reading now and \<open>later\<close> the one taken after a short wait when the first carries
  no rate; \<open>facts\<close> is what the portable facts say when there is no \<open>/proc/stat\<close>.
\<close>

definition busy_between :: "cpu_times \<Rightarrow> cpu_times \<Rightarrow> rat option" where
  "busy_between previous current =
     (let span = cpu_total current - cpu_total previous in
      if span \<le> 0 then None
      else Some (max 0 (min 100 (of_int (cpu_busy current - cpu_busy previous) / of_int span * 100))))"

definition read_cpu_utilization ::
  "cpu_times option \<Rightarrow> cpu_times option \<Rightarrow> cpu_times option \<Rightarrow> rat option \<Rightarrow> rat option \<times> cpu_times option" where
  "read_cpu_utilization prev current later facts =
     (case current of
        None \<Rightarrow> (facts, prev)
      | Some now \<Rightarrow>
        (case prev of
           Some before \<Rightarrow>
             if cpu_total now \<le> cpu_total before then
               (case later of None \<Rightarrow> (None, Some now) | Some l \<Rightarrow> (busy_between now l, Some l))
             else (busy_between before now, Some now)
         | None \<Rightarrow>
             (case later of None \<Rightarrow> (None, Some now) | Some l \<Rightarrow> (busy_between now l, Some l))))"

text \<open>\<open>x or 0.0\<close> on an optional reading.\<close>

definition or_zero :: "rat option \<Rightarrow> rat" where
  "or_zero x = (case x of None \<Rightarrow> 0 | Some v \<Rightarrow> v)"

definition read_host_sample ::
  "rat \<Rightarrow> host_memory option \<Rightarrow> rat option \<Rightarrow> rat option \<Rightarrow> telemetry_sample option" where
  "read_host_sample ts host temperature utilization =
     (if host = None \<and> temperature = None \<and> utilization = None then None
      else let get = (\<lambda>f. case host of None \<Rightarrow> 0 | Some h \<Rightarrow> f h) in
        Some \<lparr>smp_ts = ts, smp_memory_used = get hm_used, smp_memory_total = get hm_total,
          smp_power_watts = 0, smp_temperature_c = or_zero temperature,
          smp_utilization_pct = or_zero utilization, gpu_memory_used = 0, gpu_process_count = 0,
          host_memory_total = get hm_total, host_memory_available = get hm_available,
          swap_used = get hm_swap_used\<rparr>)"

section \<open>The GPUs\<close>

fun count_apps :: "py_text \<Rightarrow> string list list \<Rightarrow> int \<times> int" where
  "count_apps py [] = (0, 0)"
| "count_apps py (row # rows) =
     (let (tot, count) = count_apps py rows in
      if length row < 2 then (tot, count)
      else case num_cell py (row ! 1) of
          None \<Rightarrow> (tot, count)
        | Some mib \<Rightarrow> (py_int mib * 1024 ^ 2 + tot, 1 + count))"

definition read_compute_apps :: "py_text \<Rightarrow> string list list option \<Rightarrow> (int \<times> int) option" where
  "read_compute_apps py rows = map_option (count_apps py) rows"

text \<open>The readable values of one column, across the GPUs.\<close>

definition column :: "py_text \<Rightarrow> string list list \<Rightarrow> nat \<Rightarrow> rat list" where
  "column py rows i = List.map_filter (\<lambda>row. num_cell py (cell row i)) rows"

definition read_telemetry ::
  "py_text \<Rightarrow> node_profile \<Rightarrow> rat \<Rightarrow> string list list option \<Rightarrow> string list list option
    \<Rightarrow> host_memory option \<Rightarrow> telemetry_sample option \<Rightarrow> telemetry_sample option" where
  "read_telemetry py p ts rows apps_rows host host_sample =
     (case rows of
        Some (r # rs) \<Rightarrow>
          (let rows = r # rs;
               used_mib = column py rows 0; total_mib = column py rows 1; power = column py rows 2;
               temps = column py rows 3; utils = column py rows 4;
               used = (if used_mib \<noteq> [] then py_int (sum_list used_mib) * 1024 ^ 2 else 0);
               tot = (if total_mib \<noteq> [] then py_int (sum_list total_mib) * 1024 ^ 2 else 0);
               is_unified = (device_class p = GB10);
               (gpu_used, gpu_procs) =
                 (if is_unified \<or> used_mib = []
                  then (case read_compute_apps py apps_rows of Some a \<Rightarrow> a | None \<Rightarrow> (used, 0))
                  else (used, 0));
               (used, tot, h_total, h_available, h_swap) =
                 (if is_unified
                  then (case host of
                      Some h \<Rightarrow> (hm_used h, if tot \<noteq> 0 then tot else hm_total h,
                                 hm_total h, hm_available h, hm_swap_used h)
                    | None \<Rightarrow> (if used_mib = [] then gpu_used else used, tot, 0, 0, 0))
                  else (used, tot, 0, 0, 0))
           in Some \<lparr>smp_ts = ts, smp_memory_used = used, smp_memory_total = tot,
                smp_power_watts = sum_list power,
                smp_temperature_c = (if temps \<noteq> [] then Max (set temps) else 0),
                smp_utilization_pct =
                  (if utils \<noteq> [] then sum_list utils / of_nat (length utils) else 0),
                gpu_memory_used = gpu_used, gpu_process_count = gpu_procs,
                host_memory_total = h_total, host_memory_available = h_available,
                swap_used = h_swap\<rparr>)
      | _ \<Rightarrow> if gpu_count p = 0 then host_sample else None)"

section \<open>Memory a model could get now\<close>

definition HOST_MEMORY_RESERVE :: int where "HOST_MEMORY_RESERVE = 8 * 1024 ^ 3"

definition allocatable_bytes :: "node_profile \<Rightarrow> telemetry_sample option \<Rightarrow> rat \<Rightarrow> int \<Rightarrow> int" where
  "allocatable_bytes p sample guardrail host_reserve =
     (let roof = usable_memory p guardrail in
      case sample of
        None \<Rightarrow> roof
      | Some s \<Rightarrow>
        let gpu_headroom = max 0 (roof - smp_memory_used s) in
        if device_class p \<noteq> GB10 then gpu_headroom
        else if host_memory_available s \<le> 0 then gpu_headroom
        else let host_headroom = max 0 (host_memory_available s - host_reserve)
             in min gpu_headroom host_headroom)"

definition allocatable_bytes_or_none ::
  "node_profile \<Rightarrow> telemetry_sample option \<Rightarrow> rat \<Rightarrow> int \<Rightarrow> int option" where
  "allocatable_bytes_or_none p sample guardrail host_reserve =
     (if sample = None then None else Some (allocatable_bytes p sample guardrail host_reserve))"

lemma allocatable_nonneg: "0 \<le> allocatable_bytes p (Some s) g r"
  by (auto simp: allocatable_bytes_def Let_def)

lemma allocatable_within_limits:
  assumes "allocatable_bytes p (Some s) g r = n" and "0 < n"
  shows "n + smp_memory_used s \<le> usable_memory p g
    \<and> (device_class p = GB10 \<and> 0 < host_memory_available s \<longrightarrow> n + r \<le> host_memory_available s)"
  using assms by (auto simp: allocatable_bytes_def Let_def min_def max_def split: if_splits)

lemma allocatable_antimono:
  assumes "smp_memory_used s \<le> smp_memory_used t"
    and "device_class p = GB10 \<Longrightarrow> 0 < host_memory_available t \<and> host_memory_available t \<le> host_memory_available s"
  shows "allocatable_bytes p (Some t) g r \<le> allocatable_bytes p (Some s) g r"
  using assms by (auto simp: allocatable_bytes_def Let_def min_def max_def)

text \<open>A reading of zero available bytes lifts the limit instead of closing it.\<close>

lemma zero_available_ignored:
  "device_class p = GB10 \<Longrightarrow> host_memory_available s = 0 \<Longrightarrow>
   allocatable_bytes p (Some s) g r = max 0 (usable_memory p g - smp_memory_used s)"
  by (simp add: allocatable_bytes_def Let_def)

section \<open>History\<close>

definition TELEMETRY_RING_SAMPLES :: nat where "TELEMETRY_RING_SAMPLES = 300"

record ring_buffer =
  maxlen :: nat
  samples :: "telemetry_sample list"

definition ring_add :: "telemetry_sample \<Rightarrow> ring_buffer \<Rightarrow> ring_buffer" where
  "ring_add s r =
     (let xs = samples r @ [s] in r\<lparr>samples := drop (length xs - maxlen r) xs\<rparr>)"

definition ring_latest :: "ring_buffer \<Rightarrow> telemetry_sample option" where
  "ring_latest r = (if samples r = [] then None else Some (last (samples r)))"

definition ring_window :: "rat \<Rightarrow> rat \<Rightarrow> ring_buffer \<Rightarrow> telemetry_sample list" where
  "ring_window seconds now r = (let cutoff = now - seconds in filter (\<lambda>s. smp_ts s \<ge> cutoff) (samples r))"

record telemetry_store =
  ts_maxlen :: nat
  rings :: "(string, ring_buffer) dict"

definition ts_record :: "string \<Rightarrow> telemetry_sample \<Rightarrow> telemetry_store \<Rightarrow> telemetry_store" where
  "ts_record nid s st =
     (let ring = (case dget (rings st) nid of
                    None \<Rightarrow> \<lparr>maxlen = ts_maxlen st, samples = []\<rparr> | Some r \<Rightarrow> r)
      in st\<lparr>rings := dset nid (ring_add s ring) (rings st)\<rparr>)"

definition ts_latest :: "string \<Rightarrow> telemetry_store \<Rightarrow> telemetry_sample option" where
  "ts_latest nid st = (case dget (rings st) nid of None \<Rightarrow> None | Some r \<Rightarrow> ring_latest r)"

definition ts_history :: "string \<Rightarrow> rat \<Rightarrow> rat \<Rightarrow> telemetry_store \<Rightarrow> json_object list" where
  "ts_history nid seconds now st =
     (case dget (rings st) nid of None \<Rightarrow> [] | Some r \<Rightarrow> map sample_dict (ring_window seconds now r))"

definition ts_drop :: "string \<Rightarrow> telemetry_store \<Rightarrow> telemetry_store" where
  "ts_drop nid st = st\<lparr>rings := dpop nid (rings st)\<rparr>"

definition ts_size :: "string \<Rightarrow> telemetry_store \<Rightarrow> nat" where
  "ts_size nid st = (case dget (rings st) nid of None \<Rightarrow> 0 | Some r \<Rightarrow> length (samples r))"

datatype ts_op = Record string telemetry_sample | Drop string

fun ts_step :: "telemetry_store \<Rightarrow> ts_op \<Rightarrow> telemetry_store" where
  "ts_step st (Record nid s) = ts_record nid s st"
| "ts_step st (Drop nid) = ts_drop nid st"

definition new_telemetry :: "nat \<Rightarrow> telemetry_store" where
  "new_telemetry n = \<lparr>ts_maxlen = n, rings = []\<rparr>"

definition ts_run :: "nat \<Rightarrow> ts_op list \<Rightarrow> telemetry_store" where
  "ts_run n ops = foldl ts_step (new_telemetry n) ops"

text \<open>The unbounded history it stands for: every sample since the node was last dropped.\<close>

fun recorded :: "string \<Rightarrow> telemetry_sample list \<Rightarrow> ts_op list \<Rightarrow> telemetry_sample list" where
  "recorded nid acc [] = acc"
| "recorded nid acc (Record k s # ops) = recorded nid (if k = nid then acc @ [s] else acc) ops"
| "recorded nid acc (Drop k # ops) = recorded nid (if k = nid then [] else acc) ops"

definition last_n :: "nat \<Rightarrow> 'a list \<Rightarrow> 'a list" where
  "last_n n xs = drop (length xs - n) xs"

lemma last_n_snoc: "last_n n (last_n n xs @ [x]) = last_n n (xs @ [x])"
  by (cases "n \<le> length xs") (auto simp: last_n_def drop_append min_def Suc_diff_le)

lemma recorded_snoc:
  "recorded nid acc (ops @ [op]) =
     (case op of Record k s \<Rightarrow> if k = nid then recorded nid acc ops @ [s] else recorded nid acc ops
      | Drop k \<Rightarrow> if k = nid then [] else recorded nid acc ops)"
  by (induction nid acc ops rule: recorded.induct) (auto split: ts_op.splits)

lemma ts_run_rings:
  "ts_maxlen (ts_run n ops) = n \<and>
   (case dget (rings (ts_run n ops)) nid of
      None \<Rightarrow> recorded nid [] ops = []
    | Some r \<Rightarrow> r = \<lparr>maxlen = n, samples = last_n n (recorded nid [] ops)\<rparr>)"
proof (induction ops rule: rev_induct)
  case Nil
  then show ?case by (simp add: ts_run_def new_telemetry_def)
next
  case (snoc op ops)
  have run: "ts_run n (ops @ [x]) = ts_step (ts_run n ops) x" for x by (simp add: ts_run_def)
  have add: "ring_add s \<lparr>maxlen = n, samples = last_n n xs\<rparr> = \<lparr>maxlen = n, samples = last_n n (xs @ [s])\<rparr>" for s xs
    using last_n_snoc [of n xs s] by (simp add: ring_add_def last_n_def Let_def)
  have start: "last_n n ([] :: telemetry_sample list) = []" by (simp add: last_n_def)
  show ?case
  proof (cases op)
    case (Record k s)
    then show ?thesis
      using snoc add [of s "recorded nid [] ops"] add [of s "[]"]
      unfolding Record run by (auto simp: ts_record_def recorded_snoc start Let_def split: option.splits)
  next
    case (Drop k)
    then show ?thesis
      using snoc unfolding Drop run by (auto simp: ts_drop_def recorded_snoc split: option.splits)
  qed
qed

lemma ts_latest_run:
  "ts_latest nid (ts_run n ops) = None \<or> ts_latest nid (ts_run n ops) = Some (last (recorded nid [] ops))"
  using ts_run_rings [of n ops nid]
  by (auto simp: ts_latest_def ring_latest_def last_n_def split: option.splits)

end
