(* ===== verification/Node_Wire.thy ===== *)
theory Node_Wire
  imports Telemetry_Samples
begin

text \<open>
  What travels between nodes and what is written down about them: the wire form of a profile
  (\<open>control_plane/registry/serde.py\<close>), the readings a node row shows, which of two profiles to
  believe (\<open>registry/profiles.py\<close>) and the names operators give nodes (\<open>registry/labels.py\<close>).
\<close>

section \<open>Profiles on the wire\<close>

definition device_value :: "device_class \<Rightarrow> string" where
  "device_value d = (case d of GB10 \<Rightarrow> ''gb10'' | DISCRETE \<Rightarrow> ''discrete'' | APPLE \<Rightarrow> ''apple''
     | CPU \<Rightarrow> ''cpu'' | UNKNOWN \<Rightarrow> ''unknown'')"

definition device_of_value :: "string \<Rightarrow> device_class option" where
  "device_of_value s = find (\<lambda>d. device_value d = s) [GB10, DISCRETE, APPLE, CPU, UNKNOWN]"

definition profile_to_dict :: "node_profile \<Rightarrow> json_object" where
  "profile_to_dict p =
     [(''node_id'', JStr (node_id p)), (''hostname'', JStr (hostname p)), (''address'', JStr (address p)),
      (''device_class'', JStr (device_value (device_class p))), (''gpu_name'', JStr (gpu_name p)),
      (''gpu_count'', JInt (gpu_count p)), (''total_memory'', JInt (total_memory p)),
      (''addressable_memory'', JInt (addressable_memory p)),
      (''memory_bandwidth_gbps'', JNum (memory_bandwidth_gbps p)),
      (''compute_capability'', JStr (compute_capability p)), (''driver_version'', JStr (driver_version p))]"

definition profile_from_dict :: "py_text \<Rightarrow> json \<Rightarrow> node_profile result" where
  "profile_from_dict py data =
     (case data of
        JObj d \<Rightarrow>
          (let text = (\<lambda>k. str_of py (dget_or d k (JStr [])));
               num = (\<lambda>k. int_of py (dget_or d k (JInt 0)));
               dclass = (case device_of_value (str_lower (str_of py (dget_or d ''device_class'' (JStr ''unknown'')))) of
                           Some c \<Rightarrow> c | None \<Rightarrow> UNKNOWN)
           in bindR (item d ''node_id'') (\<lambda>nid.
              bindR (num ''gpu_count'') (\<lambda>gpus.
              bindR (num ''total_memory'') (\<lambda>mem.
              bindR (num ''addressable_memory'') (\<lambda>addressable.
              bindR (float_of py (dget_or d ''memory_bandwidth_gbps'' (JNum 0))) (\<lambda>bandwidth.
                Inr \<lparr>node_id = str_of py nid, hostname = text ''hostname'', address = text ''address'',
                     device_class = dclass, gpu_name = text ''gpu_name'', gpu_count = gpus,
                     total_memory = mem, addressable_memory = addressable,
                     memory_bandwidth_gbps = bandwidth, compute_capability = text ''compute_capability'',
                     driver_version = text ''driver_version''\<rparr>))))))
      | _ \<Rightarrow> Inl (AttributeError ''get''))"

lemma device_of_value_lower: "device_of_value (str_lower (device_value d)) = Some d"
  by (cases d) (simp_all add: device_of_value_def device_value_def str_lower_def lower_char_def)

lemma profile_round_trip: "profile_from_dict py (JObj (profile_to_dict p)) = Inr p"
  by (cases p) (simp add: profile_from_dict_def profile_to_dict_def dget_or_def device_of_value_lower)

text \<open>Keys a newer build adds are ignored.\<close>

lemma profile_ignores_unknown_keys:
  assumes "k \<notin> {''node_id'', ''hostname'', ''address'', ''device_class'', ''gpu_name'', ''gpu_count'',
      ''total_memory'', ''addressable_memory'', ''memory_bandwidth_gbps'', ''compute_capability'',
      ''driver_version''}"
  shows "profile_from_dict py (JObj (dset k v d)) = profile_from_dict py (JObj d)"
proof -
  have same: "dget (dset k v d) x = dget d x"
    if "x \<in> {''node_id'', ''hostname'', ''address'', ''device_class'', ''gpu_name'', ''gpu_count'',
      ''total_memory'', ''addressable_memory'', ''memory_bandwidth_gbps'', ''compute_capability'',
      ''driver_version''}" for x
    using assms that by (metis dget_dset)
  show ?thesis
    by (simp only: profile_from_dict_def json.case dget_or_def item_def same insert_iff simp_thms Let_def)
qed

section \<open>Readings\<close>

definition power_reading :: "node_state \<Rightarrow> rat option" where
  "power_reading st = (if gpu_count (profile st) = 0 then None else Some (power_watts st))"

definition temp_reading :: "node_state \<Rightarrow> rat option" where
  "temp_reading st =
     (if gpu_count (profile st) = 0 \<and> temperature_c st = 0 then None else Some (temperature_c st))"

definition memory_used_pct :: "node_state \<Rightarrow> rat" where
  "memory_used_pct st =
     (let denominator = (if addressable_memory (profile st) \<noteq> 0 then addressable_memory (profile st)
                         else memory_total_live st) in
      if denominator \<le> 0 then 0
      else round1 (min (100 * of_int (memory_used st) / of_int denominator) 100))"

definition state_to_dict :: "node_state \<Rightarrow> json_object" where
  "state_to_dict st =
     [(''node_id'', JStr (node_id (profile st))), (''profile'', JObj (profile_to_dict (profile st))),
      (''healthy'', JBool (ns_healthy st)), (''last_seen'', JNum (last_seen st)),
      (''sample_ts'', if sample_ts st \<noteq> 0 then JNum (sample_ts st) else JNull),
      (''memory_used'', JInt (memory_used st)), (''memory_total'', JInt (memory_total_live st)),
      (''memory_used_pct'', JNum (memory_used_pct st)), (''power_w'', jopt JNum (power_reading st)),
      (''temp_c'', jopt JNum (temp_reading st)), (''util_pct'', JNum (round1 (utilization_pct st))),
      (''is_coordinator_host'', JBool (is_local st)),
      (''build'', if build st \<noteq> [] then JStr (build st) else JNull)]"

definition telemetry_to_dict :: "string \<Rightarrow> telemetry_sample option \<Rightarrow> json_object" where
  "telemetry_to_dict nid sample =
     (case sample of
        None \<Rightarrow> [(''node_id'', JStr nid), (''ts'', JNull), (''available'', JBool False)]
      | Some s \<Rightarrow> sample_dict s @ [(''node_id'', JStr nid), (''available'', JBool True)])"

lemma round1_int_le: "x \<le> of_int n \<Longrightarrow> round1 x \<le> of_int n"
  using round_half_even_mono [of "x * 10" "of_int (n * 10)"]
  by (simp add: round1_def divide_le_eq del: round_half_even_of_int of_int_mult)
    (metis (no_types) of_int_le_iff of_int_mult of_int_numeral round_half_even_of_int)

lemma memory_used_pct_bounds:
  assumes "0 \<le> memory_used st"
  shows "0 \<le> memory_used_pct st \<and> memory_used_pct st \<le> 100"
proof -
  have "0 \<le> round1 x" if "0 \<le> x" for x
    using that round_half_even_nonneg [of "x * 10"] by (simp add: round1_def)
  then show ?thesis
    using assms round1_int_le [of _ 100] by (auto simp: memory_used_pct_def Let_def)
qed

section \<open>Which profile to believe\<close>

definition profile_supersedes :: "node_profile \<Rightarrow> node_profile option \<Rightarrow> bool" where
  "profile_supersedes fresh stored =
     (case stored of
        None \<Rightarrow> True
      | Some p \<Rightarrow> if device_class fresh \<noteq> UNKNOWN then True else device_class p = UNKNOWN)"

section \<open>Display names\<close>

definition MAX_LABEL_LEN :: nat where "MAX_LABEL_LEN = 48"

definition is_control :: "char \<Rightarrow> bool" where
  "is_control c \<longleftrightarrow> (let n = (of_char c :: nat) in n < 32 \<or> n = 127)"

definition normalize_label :: "json \<Rightarrow> string option result" where
  "normalize_label raw =
     (case raw of
        JNull \<Rightarrow> Inr None
      | JStr s \<Rightarrow>
          (let label = str_join '' '' (words s) in
           if label = [] then Inr None
           else if \<exists>c \<in> set label. is_control c
           then Inl (ValueError ''A node name cannot contain control characters.'')
           else if length label > MAX_LABEL_LEN
           then Inl (ValueError ''A node name can be at most 48 characters'')
           else Inr (Some label))
      | _ \<Rightarrow> Inl (ValueError ''A node name must be text.''))"

lemma normalize_label_fixed:
  assumes "normalize_label raw = Inr (Some label)"
  shows "normalize_label (JStr label) = Inr (Some label)"
proof -
  obtain s where s: "raw = JStr s" and label: "label = str_join '' '' (words s)"
    using assms by (cases raw) (auto simp: normalize_label_def Let_def split: if_splits)
  then have "str_join '' '' (words label) = label" by (simp add: words_join words_clean)
  then show ?thesis using assms s label by (auto simp: normalize_label_def Let_def split: if_splits)
qed

end
