(* ===== verification/Registry.thy ===== *)
theory Registry
  imports Enrollment Node_Wire
begin

text \<open>
  The cluster's picture of itself, \<open>control_plane/registry/registry.py\<close>: members a human admitted,
  candidates nobody has accepted yet, the addresses, names and health of the members, the roster
  file they survive a restart in (\<open>registry/roster.py\<close>) and the join protocol. The clock, what a
  peer answers and what the local probe finds are arguments. An operation returns its result or the
  exception it raises, and the state it leaves.

  A join waits for the peer's answer between its two halves, so it is two operations,
  \<open>join_check\<close> and \<open>join_finish\<close>; \<open>handle_join\<close> is the join nothing overlaps with.
\<close>

section \<open>State\<close>

record registry =
  rg_members :: "(string, node_state) dict"
  rg_candidates :: "(string, json_object) dict"
  rg_agent_urls :: "(string, string) dict"
  rg_labels :: "(string, string) dict"
  rg_misses :: "(string, int) dict"
  rg_telemetry :: telemetry_store
  rg_enrollment :: enrollment_store
  rg_local_profile :: "node_profile option"
  rg_local_node_id :: "string option"
  rg_file :: json_file
  rg_writable :: bool
  rg_cluster_token :: string
  rg_cluster_id :: string
  rg_agent_port :: int
  rg_host_reserve :: int

datatype reg_error =
    JoinRejected string
  | NodeNotFound string
  | ProbeFailed string
  | Raised py_error

type_synonym 'a outcome = "reg_error + 'a"

fun raised :: "'a result \<Rightarrow> 'a outcome" where
  "raised (Inl e) = Inl (Raised e)"
| "raised (Inr x) = Inr x"

definition HEARTBEAT_MISSES_UNHEALTHY :: int where "HEARTBEAT_MISSES_UNHEALTHY = 3"

text \<open>A member as it is before anything has measured it.\<close>

definition fresh_state :: "node_profile \<Rightarrow> rat \<Rightarrow> bool \<Rightarrow> node_state" where
  "fresh_state p now here =
     \<lparr>profile = p, ns_healthy = True, last_seen = now, memory_used = 0, power_watts = 0,
      temperature_c = 0, utilization_pct = 0, memory_total_live = 0, sample_ts = 0,
      is_local = here, build = []\<rparr>"

definition healthy_nodes :: "registry \<Rightarrow> node_state list" where
  "healthy_nodes r = filter ns_healthy (dvalues (rg_members r))"

definition agent_urls_of :: "bool \<Rightarrow> registry \<Rightarrow> (string, string) dict" where
  "agent_urls_of include_local r =
     filter (\<lambda>(nid, url). url \<noteq> [] \<and> (include_local \<or> Some nid \<noteq> rg_local_node_id r)) (rg_agent_urls r)"

section \<open>The roster file\<close>

definition member_entry :: "registry \<Rightarrow> string \<Rightarrow> node_state \<Rightarrow> json" where
  "member_entry r nid st = JObj
     ([(''profile'', JObj (profile_to_dict (profile st))),
       (''agent_url'', JStr (dget_or (rg_agent_urls r) nid []))]
      @ (case dget (rg_labels r) nid of
           Some l \<Rightarrow> if l \<noteq> [] then [(''label'', JStr l)] else []
         | None \<Rightarrow> []))"

definition roster_document :: "registry \<Rightarrow> json" where
  "roster_document r = JObj
     [(''members'', JObj (map (\<lambda>(nid, st). (nid, member_entry r nid st)) (rg_members r))),
      (''candidates'', JObj (map (\<lambda>(nid, c). (nid, JObj c)) (rg_candidates r)))]"

definition persist_roster :: "registry \<Rightarrow> registry" where
  "persist_roster r = (if rg_writable r then r\<lparr>rg_file := Holds (roster_document r)\<rparr> else r)"

text \<open>\<open>load_roster\<close>: absent, corrupt or foreign content is an empty roster.\<close>

definition load_roster :: "json_file \<Rightarrow> json_object \<times> json_object" where
  "load_roster file =
     (let part = (\<lambda>d k. case dget d k of Some (JObj kvs) \<Rightarrow> kvs | _ \<Rightarrow> []) in
      case file of
        Holds (JObj d) \<Rightarrow> (part d ''members'', part d ''candidates'')
      | _ \<Rightarrow> ([], []))"

text \<open>One persisted member; a profile that is not an object raises out of the constructor.\<close>

definition restore_member :: "py_text \<Rightarrow> rat \<Rightarrow> string \<times> json \<Rightarrow> registry \<Rightarrow> registry result" where
  "restore_member py now kv r =
     (case kv of
        (nid, JObj entry) \<Rightarrow>
          (case bindR (item entry ''profile'') (profile_from_dict py) of
             Inl (AttributeError e) \<Rightarrow> Inl (AttributeError e)
           | Inl e \<Rightarrow> Inr r
           | Inr p \<Rightarrow>
               (let r = r\<lparr>rg_members := dset nid (fresh_state p now False) (rg_members r),
                          rg_agent_urls := dset nid (str_of py (dget_or entry ''agent_url'' (JStr [])))
                            (rg_agent_urls r)\<rparr>
                in Inr (case normalize_label (dget_or entry ''label'' JNull) of
                     Inr (Some l) \<Rightarrow> if l \<noteq> [] then r\<lparr>rg_labels := dset nid l (rg_labels r)\<rparr> else r
                   | _ \<Rightarrow> r)))
      | _ \<Rightarrow> Inr r)"

fun restore_members :: "py_text \<Rightarrow> rat \<Rightarrow> json_object \<Rightarrow> registry \<Rightarrow> registry result" where
  "restore_members py now [] r = Inr r"
| "restore_members py now (kv # kvs) r = bindR (restore_member py now kv r) (restore_members py now kvs)"

definition restore_candidates :: "json_object \<Rightarrow> (string, json_object) dict" where
  "restore_candidates kvs = List.map_filter (\<lambda>(nid, c). case c of JObj d \<Rightarrow> Some (nid, d) | _ \<Rightarrow> None) kvs"

definition restore_roster :: "py_text \<Rightarrow> rat \<Rightarrow> registry \<Rightarrow> registry result" where
  "restore_roster py now r =
     (let (members, candidates) = load_roster (rg_file r) in
      mapR (\<lambda>r. r\<lparr>rg_candidates := restore_candidates candidates\<rparr>) (restore_members py now members r))"

section \<open>Display names\<close>

definition set_node_label :: "string \<Rightarrow> json \<Rightarrow> registry \<Rightarrow> string option outcome \<times> registry" where
  "set_node_label nid raw r =
     (if dget (rg_members r) nid = None then (Inl (NodeNotFound nid), r)
      else case normalize_label raw of
          Inl e \<Rightarrow> (Inl (Raised e), r)
        | Inr clean \<Rightarrow>
          (let previous = dget (rg_labels r) nid;
               r = r\<lparr>rg_labels := (case clean of None \<Rightarrow> dpop nid (rg_labels r)
                                   | Some l \<Rightarrow> dset nid l (rg_labels r))\<rparr>
           in (Inr clean, if clean \<noteq> previous then persist_roster r else r)))"

section \<open>Admission\<close>

text \<open>Who proposed a candidate: the sources \<open>mdns\<close>, \<open>join\<close>, \<open>manual\<close> and \<open>enroll\<close>.\<close>

definition candidate_record ::
  "node_profile \<Rightarrow> string \<Rightarrow> string \<Rightarrow> rat \<Rightarrow> registry \<Rightarrow> json_object result" where
  "candidate_record p url source now r =
     (let first_seen = (case dget (rg_candidates r) (node_id p) of
            Some c \<Rightarrow> if c \<noteq> [] then item c ''first_seen'' else Inr (JNum now)
          | None \<Rightarrow> Inr (JNum now))
      in mapR (\<lambda>seen.
        [(''node_id'', JStr (node_id p)), (''hostname'', JStr (hostname p)), (''address'', JStr (address p)),
         (''gpu_name'', JStr (gpu_name p)), (''gpu_count'', JInt (gpu_count p)),
         (''device_class'', JStr (device_value (device_class p))),
         (''addressable_memory'', JInt (addressable_memory p)), (''agent_url'', JStr url),
         (''source'', JStr source), (''first_seen'', seen), (''last_seen'', JNum now),
         (''profile'', JObj (profile_to_dict p))]) first_seen)"

definition offer_candidate ::
  "node_profile \<Rightarrow> string \<Rightarrow> string \<Rightarrow> rat \<Rightarrow> registry \<Rightarrow> json_object outcome \<times> registry" where
  "offer_candidate p url source now r =
     (if dget (rg_members r) (node_id p) \<noteq> None then (Inr (dget_or (rg_candidates r) (node_id p) []), r)
      else case candidate_record p url source now r of
          Inl e \<Rightarrow> (Inl (Raised e), r)
        | Inr c \<Rightarrow> (Inr c, persist_roster (r\<lparr>rg_candidates := dset (node_id p) c (rg_candidates r)\<rparr>)))"

text \<open>The candidate is taken out before its profile is read, so a bad record is gone when it raises.
  The address is stored as it is in the record, which holds text.\<close>

definition admit :: "py_text \<Rightarrow> string \<Rightarrow> rat \<Rightarrow> registry \<Rightarrow> node_state outcome \<times> registry" where
  "admit py nid now r =
     (case dget (rg_members r) nid of
        Some st \<Rightarrow> (Inr st, r)
      | None \<Rightarrow>
        (case dget (rg_candidates r) nid of
           None \<Rightarrow> (Inl (NodeNotFound nid), r)
         | Some c \<Rightarrow>
           (let r = r\<lparr>rg_candidates := dpop nid (rg_candidates r)\<rparr> in
            case bindR (item c ''profile'') (profile_from_dict py) of
              Inl e \<Rightarrow> (Inl (Raised e), r)
            | Inr p \<Rightarrow>
              (let st = fresh_state p now False;
                   r = r\<lparr>rg_members := dset nid st (rg_members r)\<rparr>
               in case item c ''agent_url'' of
                    Inl e \<Rightarrow> (Inl (Raised e), r)
                  | Inr url \<Rightarrow>
                    (Inr st, persist_roster (r\<lparr>rg_agent_urls := dset nid (str_of py url) (rg_agent_urls r),
                       rg_misses := dset nid 0 (rg_misses r)\<rparr>))))))"

definition remove_node :: "string \<Rightarrow> registry \<Rightarrow> unit outcome \<times> registry" where
  "remove_node nid r =
     (if dget (rg_members r) nid = None \<and> dget (rg_candidates r) nid = None then (Inl (NodeNotFound nid), r)
      else (Inr (), persist_roster (r\<lparr>rg_members := dpop nid (rg_members r),
        rg_candidates := dpop nid (rg_candidates r), rg_agent_urls := dpop nid (rg_agent_urls r),
        rg_labels := dpop nid (rg_labels r), rg_misses := dpop nid (rg_misses r),
        rg_telemetry := ts_drop nid (rg_telemetry r)\<rparr>)))"

definition dismiss_candidate :: "string \<Rightarrow> registry \<Rightarrow> registry" where
  "dismiss_candidate nid r =
     (if dget (rg_candidates r) nid = None then r
      else persist_roster (r\<lparr>rg_candidates := dpop nid (rg_candidates r)\<rparr>))"

definition url_of_address :: "py_text \<Rightarrow> string \<Rightarrow> int \<Rightarrow> string" where
  "url_of_address py addr port = ''http://'' @ addr @ '':'' @ show_value py (JInt port)"

definition enroll_local ::
  "py_text \<Rightarrow> node_profile \<Rightarrow> bool \<Rightarrow> rat \<Rightarrow> registry \<Rightarrow> node_state \<times> registry" where
  "enroll_local py p persist now r =
     (let st = fresh_state p now True;
          r = r\<lparr>rg_local_profile := Some p, rg_local_node_id := Some (node_id p),
                rg_members := dset (node_id p) st (rg_members r),
                rg_agent_urls := dset (node_id p) (url_of_address py (address p) (rg_agent_port r)) (rg_agent_urls r),
                rg_misses := dset (node_id p) 0 (rg_misses r),
                rg_candidates := dpop (node_id p) (rg_candidates r)\<rparr>
      in (st, if persist then persist_roster r else r))"

text \<open>\<open>GET /agent/profile\<close> on a peer: \<open>answer\<close> is its JSON, or \<open>None\<close> when it could not be read.\<close>

definition probe_remote :: "py_text \<Rightarrow> json option \<Rightarrow> node_profile outcome" where
  "probe_remote py answer =
     (case answer of
        None \<Rightarrow> Inl (ProbeFailed ''no answer'')
      | Some payload \<Rightarrow>
        (case profile_from_dict py payload of
           Inl (AttributeError e) \<Rightarrow> Inl (Raised (AttributeError e))
         | Inl e \<Rightarrow> Inl (ProbeFailed ''unusable profile'')
         | Inr p \<Rightarrow> Inr p))"

text \<open>\<open>registry/net.py\<close>: host, host:port or a full URL.\<close>

definition rstrip_char :: "char \<Rightarrow> string \<Rightarrow> string" where
  "rstrip_char c s = rev (dropWhile (\<lambda>d. d = c) (rev s))"

definition normalize_agent_url :: "py_text \<Rightarrow> string \<Rightarrow> int \<Rightarrow> string result" where
  "normalize_agent_url py addr default_port =
     (let addr = rstrip_char (CHR ''/'') (str_strip addr) in
      if addr = [] then Inl (ValueError ''empty address'')
      else if starts_with ''http://'' addr \<or> starts_with ''https://'' addr then Inr addr
      else if count_list addr (CHR '':'') = 1 then Inr (''http://'' @ addr)
      else Inr (url_of_address py addr default_port))"

definition add_node ::
  "py_text \<Rightarrow> string \<Rightarrow> json option \<Rightarrow> rat \<Rightarrow> registry \<Rightarrow> node_state outcome \<times> registry" where
  "add_node py addr answer now r =
     (case normalize_agent_url py addr (rg_agent_port r) of
        Inl e \<Rightarrow> (Inl (Raised e), r)
      | Inr url \<Rightarrow>
        (case probe_remote py answer of
           Inl e \<Rightarrow> (Inl e, r)
         | Inr p \<Rightarrow>
           (case candidate_record p url ''manual'' now r of
              Inl e \<Rightarrow> (Inl (Raised e), r)
            | Inr c \<Rightarrow>
              admit py (node_id p) now (r\<lparr>rg_candidates := dset (node_id p) c (rg_candidates r)\<rparr>))))"

section \<open>The join protocol\<close>

record join_reply =
  jr_node_id :: string
  jr_cluster_id :: "string option"
  jr_status :: string
  jr_cluster_token :: "string option"

definition has_token :: "string option \<Rightarrow> bool" where
  "has_token token = (case token of None \<Rightarrow> False | Some t \<Rightarrow> t \<noteq> [])"

text \<open>The half before the probe: is the credential one of the two that are accepted?\<close>

definition join_check ::
  "string option \<Rightarrow> rat \<Rightarrow> registry \<Rightarrow> enrollment_token option outcome \<times> registry" where
  "join_check token now r =
     (case token of
        None \<Rightarrow> (Inr None, r)
      | Some t \<Rightarrow>
        if t = [] then (Inr None, r)
        else case compare_digest t (rg_cluster_token r) of
            Inl e \<Rightarrow> (Inl (Raised e), r)
          | Inr True \<Rightarrow> (Inr None, r)
          | Inr False \<Rightarrow>
            (case verify (Some t) now (rg_enrollment r) of
               (found, es) \<Rightarrow>
                 (let r = r\<lparr>rg_enrollment := es\<rparr> in
                  case found of
                    Inl e \<Rightarrow> (Inl (Raised e), r)
                  | Inr None \<Rightarrow> (Inl (JoinRejected ''invalid cluster token''), r)
                  | Inr (Some e) \<Rightarrow> (Inr (Some e), r))))"

text \<open>The half after it: \<open>answer\<close> is what the peer's agent said.\<close>

definition join_known ::
  "bool \<Rightarrow> enrollment_token option \<Rightarrow> node_profile \<Rightarrow> string \<Rightarrow> rat \<Rightarrow> node_state \<Rightarrow> registry
    \<Rightarrow> join_reply outcome \<times> registry" where
  "join_known token_given enr p url now st r =
     (let reply = \<lparr>jr_node_id = node_id p, jr_cluster_id = Some (rg_cluster_id r), jr_status = ''member'',
                   jr_cluster_token = None\<rparr> in
      if \<not> token_given then (Inr reply, r)
      else
        let r = persist_roster (r\<lparr>
              rg_agent_urls := dset (node_id p) url (rg_agent_urls r),
              rg_members := dset (node_id p) (st\<lparr>profile := p, last_seen := now, ns_healthy := True\<rparr>) (rg_members r),
              rg_misses := dset (node_id p) 0 (rg_misses r)\<rparr>)
        in (Inr (if enr \<noteq> None then reply\<lparr>jr_cluster_token := Some (rg_cluster_token r)\<rparr> else reply), r))"

definition join_waiting ::
  "node_profile \<Rightarrow> string \<Rightarrow> rat \<Rightarrow> registry \<Rightarrow> join_reply outcome \<times> registry" where
  "join_waiting p url now r =
     (case candidate_record p url ''join'' now r of
        Inl e \<Rightarrow> (Inl (Raised e), r)
      | Inr c \<Rightarrow>
        (Inr \<lparr>jr_node_id = node_id p, jr_cluster_id = Some (rg_cluster_id r), jr_status = ''candidate'',
              jr_cluster_token = None\<rparr>,
         persist_roster (r\<lparr>rg_candidates := dset (node_id p) c (rg_candidates r)\<rparr>)))"

definition join_new ::
  "py_text \<Rightarrow> bool \<Rightarrow> enrollment_token option \<Rightarrow> node_profile \<Rightarrow> string \<Rightarrow> rat \<Rightarrow> registry
    \<Rightarrow> join_reply outcome \<times> registry" where
  "join_new py token_given enr p url now r =
     (if \<not> token_given then
        (case offer_candidate p url ''join'' now r of
           (Inl e, r) \<Rightarrow> (Inl e, r)
         | (Inr c, r) \<Rightarrow> (Inr \<lparr>jr_node_id = node_id p, jr_cluster_id = None, jr_status = ''candidate'',
                             jr_cluster_token = None\<rparr>, r))
      else case enr of
          Some t \<Rightarrow>
            if auto_admit t then
              (case candidate_record p url ''enroll'' now r of
                 Inl e \<Rightarrow> (Inl (Raised e), r)
               | Inr c \<Rightarrow>
                 (case admit py (node_id p) now (r\<lparr>rg_candidates := dset (node_id p) c (rg_candidates r)\<rparr>) of
                    (Inl e, r) \<Rightarrow> (Inl e, r)
                  | (Inr st, r) \<Rightarrow>
                    (Inr \<lparr>jr_node_id = node_id p, jr_cluster_id = Some (rg_cluster_id r), jr_status = ''member'',
                          jr_cluster_token = Some (rg_cluster_token r)\<rparr>,
                     r\<lparr>rg_enrollment := consume (token_id t) (rg_enrollment r)\<rparr>)))
            else join_waiting p url now r
        | None \<Rightarrow> join_waiting p url now r)"

definition join_finish ::
  "py_text \<Rightarrow> bool \<Rightarrow> enrollment_token option \<Rightarrow> node_profile \<Rightarrow> string \<Rightarrow> json option \<Rightarrow> rat \<Rightarrow> registry
    \<Rightarrow> join_reply outcome \<times> registry" where
  "join_finish py token_given enr claimed url answer now r =
     (case probe_remote py answer of
        Inl (ProbeFailed e) \<Rightarrow> (Inl (JoinRejected ''probe-back failed''), r)
      | Inl e \<Rightarrow> (Inl e, r)
      | Inr confirmed \<Rightarrow>
        if node_id confirmed \<noteq> node_id claimed
        then (Inl (JoinRejected ''node_id mismatch on probe-back''), r)
        else case dget (rg_members r) (node_id confirmed) of
            Some st \<Rightarrow> join_known token_given enr confirmed url now st r
          | None \<Rightarrow> join_new py token_given enr confirmed url now r)"

definition handle_join ::
  "py_text \<Rightarrow> string option \<Rightarrow> node_profile \<Rightarrow> string \<Rightarrow> json option \<Rightarrow> rat \<Rightarrow> registry
    \<Rightarrow> join_reply outcome \<times> registry" where
  "handle_join py token claimed url answer now r =
     (case join_check token now r of
        (Inl e, r) \<Rightarrow> (Inl e, r)
      | (Inr enr, r) \<Rightarrow> join_finish py (has_token token) enr claimed url answer now r)"

section \<open>Health\<close>

definition record_build :: "py_text \<Rightarrow> string \<Rightarrow> json \<Rightarrow> registry \<Rightarrow> registry" where
  "record_build py nid body r =
     (case (dget (rg_members r) nid, body) of
        (Some st, JObj d) \<Rightarrow>
          (let said = (case dget d ''build'' of
                 Some v \<Rightarrow> if truth_of v then str_strip (str_of py v) else [] | None \<Rightarrow> [])
           in if said = [] then r else r\<lparr>rg_members := dset nid (st\<lparr>build := said\<rparr>) (rg_members r)\<rparr>)
      | _ \<Rightarrow> r)"

definition check_health :: "py_text \<Rightarrow> string \<Rightarrow> string \<Rightarrow> json option \<Rightarrow> registry \<Rightarrow> bool \<times> registry" where
  "check_health py own_build nid answer r =
     (if Some nid = rg_local_node_id r then
        (True, case dget (rg_members r) nid of
                 None \<Rightarrow> r
               | Some st \<Rightarrow> r\<lparr>rg_members := dset nid (st\<lparr>build := own_build\<rparr>) (rg_members r)\<rparr>)
      else if dget_or (rg_agent_urls r) nid [] = [] then (False, r)
      else case answer of
          None \<Rightarrow> (False, r)
        | Some body \<Rightarrow> (True, record_build py nid body r))"

definition record_health :: "string \<Rightarrow> bool \<Rightarrow> rat \<Rightarrow> registry \<Rightarrow> registry" where
  "record_health nid ok now r =
     (case dget (rg_members r) nid of
        None \<Rightarrow> r
      | Some st \<Rightarrow>
        if ok then r\<lparr>rg_misses := dset nid 0 (rg_misses r),
                     rg_members := dset nid (st\<lparr>last_seen := now, ns_healthy := True\<rparr>) (rg_members r)\<rparr>
        else
          let misses = dget_or (rg_misses r) nid 0 + 1;
              r = r\<lparr>rg_misses := dset nid misses (rg_misses r)\<rparr>
          in if misses \<ge> HEARTBEAT_MISSES_UNHEALTHY \<and> ns_healthy st
             then r\<lparr>rg_members := dset nid (st\<lparr>ns_healthy := False\<rparr>) (rg_members r)\<rparr>
             else r)"

text \<open>Every check is made before any verdict is recorded; \<open>answers\<close> is what each peer said.\<close>

fun check_all ::
  "py_text \<Rightarrow> string \<Rightarrow> (string \<Rightarrow> json option) \<Rightarrow> string list \<Rightarrow> registry \<Rightarrow> bool list \<times> registry" where
  "check_all py own answers [] r = ([], r)"
| "check_all py own answers (nid # nids) r =
     (case check_health py own nid (answers nid) r of
        (ok, r) \<Rightarrow> (case check_all py own answers nids r of (oks, r) \<Rightarrow> (ok # oks, r)))"

definition health_round :: "py_text \<Rightarrow> string \<Rightarrow> (string \<Rightarrow> json option) \<Rightarrow> rat \<Rightarrow> registry \<Rightarrow> registry" where
  "health_round py own answers now r =
     (let nids = dkeys (rg_members r) in
      case check_all py own answers nids r of
        (oks, r) \<Rightarrow> foldl (\<lambda>r (nid, ok). record_health nid ok now r) r (zip nids oks))"

text \<open>\<open>fresh\<close> is what the local probe finds; \<open>answer\<close> what the peer's agent said.\<close>

definition refresh_profile ::
  "py_text \<Rightarrow> string \<Rightarrow> node_profile \<Rightarrow> json option \<Rightarrow> registry \<Rightarrow> bool outcome \<times> registry" where
  "refresh_profile py nid here answer r =
     (let local = (Some nid = rg_local_node_id r);
          fresh = (if local then Some (Inr here)
                   else if dget_or (rg_agent_urls r) nid [] = [] then None
                   else Some (probe_remote py answer))
      in case fresh of
           None \<Rightarrow> (Inr False, r)
         | Some (Inl (ProbeFailed e)) \<Rightarrow> (Inr False, r)
         | Some (Inl e) \<Rightarrow> (Inl e, r)
         | Some (Inr p) \<Rightarrow>
           (case dget (rg_members r) nid of
              None \<Rightarrow> (Inr False, r)
            | Some st \<Rightarrow>
              if node_id p \<noteq> nid then (Inr False, r)
              else if \<not> profile_supersedes p (Some (profile st)) \<or> p = profile st then (Inr False, r)
              else (Inr True, persist_roster (r\<lparr>
                rg_members := dset nid (st\<lparr>profile := p\<rparr>) (rg_members r),
                rg_local_profile := (if local then Some p else rg_local_profile r)\<rparr>))))"

section \<open>Telemetry\<close>

definition apply_sample :: "string \<Rightarrow> telemetry_sample \<Rightarrow> registry \<Rightarrow> registry" where
  "apply_sample nid s r =
     (case dget (rg_members r) nid of
        None \<Rightarrow> r
      | Some st \<Rightarrow> r\<lparr>rg_telemetry := ts_record nid s (rg_telemetry r),
          rg_members := dset nid (st\<lparr>memory_used := smp_memory_used s, memory_total_live := smp_memory_total s,
            power_watts := smp_power_watts s, temperature_c := smp_temperature_c s,
            utilization_pct := smp_utilization_pct s, last_seen := smp_ts s, sample_ts := smp_ts s\<rparr>)
            (rg_members r)\<rparr>)"

definition sample_of_payload :: "py_text \<Rightarrow> rat \<Rightarrow> json_object \<Rightarrow> telemetry_sample result" where
  "sample_of_payload py now d =
     (let num = (\<lambda>k. int_of py (dget_or d k (JInt 0)));
          real = (\<lambda>k. float_of py (dget_or d k (JNum 0)))
      in bindR (case dget d ''ts'' of Some v \<Rightarrow> if truth_of v then float_of py v else Inr now | None \<Rightarrow> Inr now) (\<lambda>ts.
         bindR (num ''memory_used'') (\<lambda>used. bindR (num ''memory_total'') (\<lambda>mem.
         bindR (real ''power_w'') (\<lambda>power. bindR (real ''temp_c'') (\<lambda>temp. bindR (real ''util_pct'') (\<lambda>util.
         bindR (num ''gpu_memory_used'') (\<lambda>gpu. bindR (num ''gpu_process_count'') (\<lambda>procs.
         bindR (num ''host_memory_total'') (\<lambda>htotal. bindR (num ''host_memory_available'') (\<lambda>havail.
         bindR (num ''swap_used'') (\<lambda>swap.
           Inr \<lparr>smp_ts = ts, smp_memory_used = used, smp_memory_total = mem, smp_power_watts = power,
                smp_temperature_c = temp, smp_utilization_pct = util, gpu_memory_used = gpu,
                gpu_process_count = procs, host_memory_total = htotal, host_memory_available = havail,
                swap_used = swap\<rparr>))))))))))))"

text \<open>An exception here is collected by the round and dropped; the state is as it was.\<close>

definition sample_node ::
  "py_text \<Rightarrow> string \<Rightarrow> telemetry_sample option \<Rightarrow> json option \<Rightarrow> rat \<Rightarrow> registry \<Rightarrow> registry" where
  "sample_node py nid here answer now r =
     (if dget (rg_members r) nid = None then r
      else if Some nid = rg_local_node_id r \<and> rg_local_profile r \<noteq> None
      then (case here of None \<Rightarrow> r | Some s \<Rightarrow> apply_sample nid s r)
      else if dget_or (rg_agent_urls r) nid [] = [] then r
      else case answer of
          Some (JObj d) \<Rightarrow>
            if \<not> truth_of (dget_or d ''available'' (JBool True)) then r
            else (case sample_of_payload py now d of Inl e \<Rightarrow> r | Inr s \<Rightarrow> apply_sample nid s r)
        | _ \<Rightarrow> r)"

definition available_memory :: "string \<Rightarrow> rat \<Rightarrow> registry \<Rightarrow> int" where
  "available_memory nid guardrail r =
     (case dget (rg_members r) nid of
        None \<Rightarrow> 0
      | Some st \<Rightarrow> allocatable_bytes (profile st) (ts_latest nid (rg_telemetry r)) guardrail (rg_host_reserve r))"

definition allocatable_or_none :: "string \<Rightarrow> rat \<Rightarrow> registry \<Rightarrow> int option" where
  "allocatable_or_none nid guardrail r =
     (case dget (rg_members r) nid of
        None \<Rightarrow> None
      | Some st \<Rightarrow>
        if \<not> ns_healthy st then None
        else allocatable_bytes_or_none (profile st) (ts_latest nid (rg_telemetry r)) guardrail (rg_host_reserve r))"

definition memory_report :: "string \<Rightarrow> registry \<Rightarrow> json_object option" where
  "memory_report nid r =
     (case dget (rg_members r) nid of
        None \<Rightarrow> None
      | Some st \<Rightarrow>
        (let sample = ts_latest nid (rg_telemetry r); p = profile st;
             get = (\<lambda>f. case sample of Some s \<Rightarrow> f s | None \<Rightarrow> (0::int))
         in Some
          [(''node_id'', JStr nid), (''device_class'', JStr (device_value (device_class p))),
           (''unified_memory'', JBool (unified_memory (device_class p))),
           (''addressable'', JInt (addressable_memory p)),
           (''static_ceiling'', JInt (usable_memory p DEFAULT_GUARDRAIL)),
           (''pool_used'', JInt (memory_used st)), (''gpu_used'', JInt (get gpu_memory_used)),
           (''host_used'', JInt (get host_memory_used)), (''host_available'', JInt (get host_memory_available)),
           (''host_reserve'', JInt (rg_host_reserve r)), (''swap_used'', JInt (get swap_used)),
           (''allocatable'', JInt (available_memory nid DEFAULT_GUARDRAIL r)),
           (''stale'', JBool (\<not> ns_healthy st))]))"

definition node_row :: "registry \<Rightarrow> node_state \<Rightarrow> json" where
  "node_row r st =
     (let nid = node_id (profile st); sample = ts_latest nid (rg_telemetry r);
          get = (\<lambda>f. case sample of Some s \<Rightarrow> f s | None \<Rightarrow> (0::int))
      in JObj
       [(''node_id'', JStr nid), (''power_w'', jopt JNum (power_reading st)),
        (''temp_c'', jopt JNum (temp_reading st)), (''memory_used_pct'', JNum (memory_used_pct st)),
        (''util_pct'', JNum (round1 (utilization_pct st))), (''healthy'', JBool (ns_healthy st)),
        (''last_seen'', JNum (last_seen st)),
        (''sample_ts'', if sample_ts st \<noteq> 0 then JNum (sample_ts st) else JNull),
        (''gpu_used'', JInt (get gpu_memory_used)),
        (''allocatable'', JInt (available_memory nid DEFAULT_GUARDRAIL r)),
        (''swap_used'', JInt (get swap_used))])"

definition snapshot :: "rat \<Rightarrow> registry \<Rightarrow> json" where
  "snapshot now r =
     (let up = healthy_nodes r in JObj
       [(''ts'', JNum now),
        (''cluster'', JObj
          [(''total_power_w'', JNum (round1 (sum_list (map power_watts up)))),
           (''node_count'', JInt (int (length (rg_members r)))),
           (''healthy_nodes'', JInt (int (length up))),
           (''candidates'', JInt (int (length (rg_candidates r))))]),
        (''nodes'', JList (map (node_row r) (dvalues (rg_members r))))])"

definition nodes_payload :: "bool \<Rightarrow> registry \<Rightarrow> json list" where
  "nodes_payload is_coordinator r =
     map (\<lambda>st. JObj (state_to_dict st
       @ [(''role'', JStr (if Some (node_id (profile st)) = rg_local_node_id r \<and> is_coordinator
                          then ''coordinator'' else ''worker'')),
          (''agent_url'', jopt JStr (dget (rg_agent_urls r) (node_id (profile st))))]))
       (dvalues (rg_members r))"

end
