(* ===== verification/Registry_Roster.thy ===== *)
theory Registry_Roster
  imports Registry
begin

text \<open>
  Histories of the registry: the invariant every operation keeps (\<open>registry_ok\<close>), the roster file
  staying in step with the members (\<open>in_step\<close>), and what a restart gives back.
\<close>

declare map_of_eq_Some_iff [simp del] and not_None_eq [simp del] and not_Some_eq [simp del]

section \<open>Histories\<close>

datatype reg_op =
    Label string json
  | Offer node_profile string
  | Admit string
  | Remove string
  | Dismiss string
  | Enroll_local node_profile
  | Add string "json option"
  | Join_check "string option"
  | Join_finish bool "enrollment_token option" node_profile string "json option"
  | Health string bool
  | Check string "json option"
  | Refresh string node_profile "json option"
  | Sample string telemetry_sample

fun reg_step :: "py_text \<Rightarrow> string \<Rightarrow> registry \<Rightarrow> rat \<times> reg_op \<Rightarrow> registry" where
  "reg_step py own r (now, Label nid raw) = snd (set_node_label nid raw r)"
| "reg_step py own r (now, Offer p url) = snd (offer_candidate p url ''mdns'' now r)"
| "reg_step py own r (now, Admit nid) = snd (admit py nid now r)"
| "reg_step py own r (now, Remove nid) = snd (remove_node nid r)"
| "reg_step py own r (now, Dismiss nid) = dismiss_candidate nid r"
| "reg_step py own r (now, Enroll_local p) = snd (enroll_local py p True now r)"
| "reg_step py own r (now, Add a answer) = snd (add_node py a answer now r)"
| "reg_step py own r (now, Join_check token) = snd (join_check token now r)"
| "reg_step py own r (now, Join_finish given enr p url answer) = snd (join_finish py given enr p url answer now r)"
| "reg_step py own r (now, Health nid ok) = record_health nid ok now r"
| "reg_step py own r (now, Check nid answer) = snd (check_health py own nid answer r)"
| "reg_step py own r (now, Refresh nid here answer) = snd (refresh_profile py nid here answer r)"
| "reg_step py own r (now, Sample nid s) = apply_sample nid s r"

definition reg_run :: "py_text \<Rightarrow> string \<Rightarrow> registry \<Rightarrow> (rat \<times> reg_op) list \<Rightarrow> registry" where
  "reg_run py own r ops = foldl (reg_step py own) r ops"

section \<open>The invariant\<close>

text \<open>A candidate as the registry writes it.\<close>

definition candidate_ok :: "string \<Rightarrow> json_object \<Rightarrow> bool" where
  "candidate_ok nid c \<longleftrightarrow>
     (\<exists>p url seen. node_id p = nid \<and> dget c ''profile'' = Some (JObj (profile_to_dict p))
        \<and> dget c ''agent_url'' = Some (JStr url) \<and> dget c ''first_seen'' = Some seen)"

definition registry_ok :: "registry \<Rightarrow> bool" where
  "registry_ok r \<longleftrightarrow>
     dict_ok (rg_members r) \<and> dict_ok (rg_candidates r)
     \<and> (\<forall>nid st. dget (rg_members r) nid = Some st \<longrightarrow> node_id (profile st) = nid)
     \<and> (\<forall>nid. dget (rg_members r) nid \<noteq> None \<longrightarrow> dget (rg_agent_urls r) nid \<noteq> None)
     \<and> (\<forall>nid l. dget (rg_labels r) nid = Some l \<longrightarrow>
          dget (rg_members r) nid \<noteq> None \<and> l \<noteq> [] \<and> normalize_label (JStr l) = Inr (Some l))
     \<and> (\<forall>nid c. dget (rg_candidates r) nid = Some c \<longrightarrow> candidate_ok nid c)"

lemma persist_fields [simp]:
  "rg_members (persist_roster r) = rg_members r" "rg_candidates (persist_roster r) = rg_candidates r"
  "rg_agent_urls (persist_roster r) = rg_agent_urls r" "rg_labels (persist_roster r) = rg_labels r"
  "rg_misses (persist_roster r) = rg_misses r" "rg_writable (persist_roster r) = rg_writable r"
  "rg_enrollment (persist_roster r) = rg_enrollment r" "rg_local_node_id (persist_roster r) = rg_local_node_id r"
  "rg_telemetry (persist_roster r) = rg_telemetry r" "rg_cluster_id (persist_roster r) = rg_cluster_id r"
  "rg_cluster_token (persist_roster r) = rg_cluster_token r"
  by (simp_all add: persist_roster_def)

lemma registry_ok_persist [simp]: "registry_ok (persist_roster r) = registry_ok r"
  by (simp add: registry_ok_def)

lemma fresh_state_profile [simp]: "profile (fresh_state p now h) = p"
  by (simp add: fresh_state_def)

text \<open>The three ways an operation changes the dictionaries.\<close>

lemma registry_ok_candidate:
  "registry_ok r \<Longrightarrow> candidate_ok nid c \<Longrightarrow> registry_ok (r\<lparr>rg_candidates := dset nid c (rg_candidates r)\<rparr>)"
  by (simp add: registry_ok_def)

lemma registry_ok_uncandidate:
  "registry_ok r \<Longrightarrow> registry_ok (r\<lparr>rg_candidates := dpop nid (rg_candidates r)\<rparr>)"
  by (simp add: registry_ok_def)

lemma registry_ok_member:
  assumes "registry_ok r" and "node_id (profile st) = nid" and "dget (rg_agent_urls r) nid \<noteq> None"
  shows "registry_ok (r\<lparr>rg_members := dset nid st (rg_members r)\<rparr>)"
  using assms by (auto simp: registry_ok_def)

lemma registry_ok_restate:
  assumes "registry_ok r" and "dget (rg_members r) nid \<noteq> None" and "node_id (profile st) = nid"
  shows "registry_ok (r\<lparr>rg_members := dset nid st (rg_members r)\<rparr>)"
  using assms by (intro registry_ok_member) (auto simp: registry_ok_def)

lemma registry_ok_ignores [simp]:
  "registry_ok (r\<lparr>rg_enrollment := e\<rparr>) = registry_ok r" "registry_ok (r\<lparr>rg_misses := m\<rparr>) = registry_ok r"
  "registry_ok (r\<lparr>rg_telemetry := t\<rparr>) = registry_ok r" "registry_ok (r\<lparr>rg_local_profile := lp\<rparr>) = registry_ok r"
  by (simp_all add: registry_ok_def)

lemma registry_ok_profile: "registry_ok r \<Longrightarrow> dget (rg_members r) nid = Some st \<Longrightarrow> node_id (profile st) = nid"
  by (simp add: registry_ok_def)

lemma registry_ok_cong:
  "rg_members r' = rg_members r \<Longrightarrow> rg_candidates r' = rg_candidates r \<Longrightarrow> rg_agent_urls r' = rg_agent_urls r \<Longrightarrow>
   rg_labels r' = rg_labels r \<Longrightarrow> registry_ok r \<Longrightarrow> registry_ok r'"
  by (simp add: registry_ok_def)

lemma candidate_record_ok:
  assumes "registry_ok r" and "candidate_record p url source now r = res"
  shows "\<exists>c. res = Inr c \<and> candidate_ok (node_id p) c"
proof -
  have seen: "\<exists>v. item c ''first_seen'' = Inr v" if "dget (rg_candidates r) (node_id p) = Some c" for c
    using assms(1) that by (fastforce simp: registry_ok_def candidate_ok_def item_def)
  have "\<exists>v. (case dget (rg_candidates r) (node_id p) of
      Some c \<Rightarrow> if c \<noteq> [] then item c ''first_seen'' else Inr (JNum now) | None \<Rightarrow> Inr (JNum now)) = Inr v"
    using seen by (cases "dget (rg_candidates r) (node_id p)") auto
  then obtain v where v: "(case dget (rg_candidates r) (node_id p) of
      Some c \<Rightarrow> if c \<noteq> [] then item c ''first_seen'' else Inr (JNum now) | None \<Rightarrow> Inr (JNum now)) = Inr v" ..
  show ?thesis
    unfolding assms(2) [symmetric] candidate_record_def Let_def v
    by (simp add: candidate_ok_def) blast
qed

lemma candidate_ok_read:
  assumes "candidate_ok nid c"
  obtains p url where "bindR (item c ''profile'') (profile_from_dict py) = Inr p" "node_id p = nid"
    "item c ''agent_url'' = Inr (JStr url)"
  using assms by (auto simp: candidate_ok_def profile_round_trip)

section \<open>Every operation keeps it\<close>

lemma admit_ok [keeps]: "registry_ok r \<Longrightarrow> registry_ok (snd (admit py nid now r))"
proof (cases "dget (rg_members r) nid"; cases "dget (rg_candidates r) nid")
  fix c
  assume ok: "registry_ok r" and m: "dget (rg_members r) nid = None" and c: "dget (rg_candidates r) nid = Some c"
  then have "candidate_ok nid c" by (simp add: registry_ok_def)
  then obtain p url where p: "bindR (item c ''profile'') (profile_from_dict py) = Inr p" "node_id p = nid"
    "item c ''agent_url'' = Inr (JStr url)" by (rule candidate_ok_read)
  then show ?thesis using ok m c by (auto simp: admit_def Let_def registry_ok_def)
qed (simp_all add: admit_def)

lemma offer_ok [keeps]: "registry_ok r \<Longrightarrow> registry_ok (snd (offer_candidate p url src now r))"
  using candidate_record_ok [of r p url src now]
  by (fastforce simp: offer_candidate_def intro: registry_ok_candidate)

lemma join_waiting_ok [keeps]: "registry_ok r \<Longrightarrow> registry_ok (snd (join_waiting p url now r))"
  using candidate_record_ok [of r p url "''join''" now]
  by (fastforce simp: join_waiting_def intro: registry_ok_candidate)

lemma join_known_ok [keeps]:
  "registry_ok r \<Longrightarrow> registry_ok (snd (join_known given enr p url now st r))"
  by (auto simp: join_known_def Let_def registry_ok_def)

lemma join_new_ok [keeps]: "registry_ok r \<Longrightarrow> registry_ok (snd (join_new py given enr p url now r))"
proof -
  assume ok: "registry_ok r"
  obtain c where c: "candidate_record p url ''enroll'' now r = Inr c" "candidate_ok (node_id p) c"
    using candidate_record_ok [OF ok refl] by blast
  let ?r = "r\<lparr>rg_candidates := dset (node_id p) c (rg_candidates r)\<rparr>"
  have admitted: "registry_ok (snd (admit py (node_id p) now ?r))"
    using registry_ok_candidate [OF ok c(2)] by (rule admit_ok)
  show ?thesis
  proof (cases "given \<and> (\<exists>t. enr = Some t \<and> auto_admit t)")
    case True
    then show ?thesis
      using admitted c(1) by (auto simp: join_new_def split: prod.splits sum.splits)
  next
    case False
    then show ?thesis
      using offer_ok [OF ok, of p url "''join''" now] join_waiting_ok [OF ok, of p url now]
      by (auto simp: join_new_def split: prod.splits sum.splits option.splits)
  qed
qed

lemma join_finish_ok [keeps]:
  "registry_ok r \<Longrightarrow> registry_ok (snd (join_finish py given enr p url answer now r))"
  by (auto simp: join_finish_def join_known_ok join_new_ok split: sum.splits reg_error.splits option.splits)

lemma join_check_fields:
  "rg_members (snd (join_check token now r)) = rg_members r"
  "rg_candidates (snd (join_check token now r)) = rg_candidates r"
  "rg_agent_urls (snd (join_check token now r)) = rg_agent_urls r"
  "rg_labels (snd (join_check token now r)) = rg_labels r"
  "rg_file (snd (join_check token now r)) = rg_file r"
  "rg_writable (snd (join_check token now r)) = rg_writable r"
  "rg_misses (snd (join_check token now r)) = rg_misses r"
  "rg_local_node_id (snd (join_check token now r)) = rg_local_node_id r"
  by (auto simp: join_check_def Let_def split: option.splits sum.splits bool.splits prod.splits)

lemma join_check_ok [keeps]: "registry_ok r \<Longrightarrow> registry_ok (snd (join_check token now r))"
  by (rule registry_ok_cong) (simp_all add: join_check_fields)

lemma set_label_ok [keeps]: "registry_ok r \<Longrightarrow> registry_ok (snd (set_node_label nid raw r))"
proof -
  assume ok: "registry_ok r"
  have "l \<noteq> [] \<and> normalize_label (JStr l) = Inr (Some l)" if "normalize_label raw = Inr (Some l)" for l
    using that normalize_label_fixed [OF that]
    by (cases raw) (auto simp: normalize_label_def Let_def split: if_splits)
  then show ?thesis
    using ok by (auto simp: set_node_label_def Let_def registry_ok_def split: sum.splits option.splits)
qed

lemma remove_ok [keeps]: "registry_ok r \<Longrightarrow> registry_ok (snd (remove_node nid r))"
  by (auto simp: remove_node_def registry_ok_def)

lemma dismiss_ok [keeps]: "registry_ok r \<Longrightarrow> registry_ok (dismiss_candidate nid r)"
  by (simp add: dismiss_candidate_def registry_ok_uncandidate)

lemma enroll_local_ok [keeps]: "registry_ok r \<Longrightarrow> registry_ok (snd (enroll_local py p b now r))"
  by (auto simp: enroll_local_def Let_def registry_ok_def)

lemma add_node_ok [keeps]: "registry_ok r \<Longrightarrow> registry_ok (snd (add_node py a answer now r))"
proof -
  assume ok: "registry_ok r"
  have "registry_ok (snd (admit py (node_id p) now (r\<lparr>rg_candidates := dset (node_id p) c (rg_candidates r)\<rparr>)))"
    if "candidate_record p url ''manual'' now r = Inr c" for p url c
    using candidate_record_ok [OF ok that] by (auto intro!: admit_ok registry_ok_candidate ok)
  then show ?thesis using ok by (simp add: add_node_def split: sum.splits)
qed

lemma record_health_ok [keeps]: "registry_ok r \<Longrightarrow> registry_ok (record_health nid ok now r)"
proof (cases "dget (rg_members r) nid")
  case (Some st)
  assume ok: "registry_ok r"
  have "node_id (profile st) = nid" using ok Some by (rule registry_ok_profile)
  then have "registry_ok (r\<lparr>rg_misses := m\<rparr>\<lparr>rg_members := dset nid (f st) (rg_members r)\<rparr>)"
    if "profile (f st) = profile st" for m f
    using registry_ok_restate [of "r\<lparr>rg_misses := m\<rparr>" nid "f st"] ok Some that by simp
  from this [where f = "\<lambda>s. s\<lparr>last_seen := now, ns_healthy := True\<rparr>"]
    this [where f = "\<lambda>s. s\<lparr>ns_healthy := False\<rparr>"]
  show ?thesis using ok Some by (simp add: record_health_def Let_def)
qed (simp add: record_health_def)

text \<open>What a heartbeat or a refresh can change.\<close>

lemma check_health_cases:
  "snd (check_health py own nid answer r) = r \<or>
   (\<exists>st b. dget (rg_members r) nid = Some st
      \<and> snd (check_health py own nid answer r) = r\<lparr>rg_members := dset nid (st\<lparr>build := b\<rparr>) (rg_members r)\<rparr>)"
proof -
  have "record_build py nid body r = r \<or>
   (\<exists>st b. dget (rg_members r) nid = Some st
      \<and> record_build py nid body r = r\<lparr>rg_members := dset nid (st\<lparr>build := b\<rparr>) (rg_members r)\<rparr>)" for body
    by (cases "dget (rg_members r) nid"; cases body) (auto simp: record_build_def Let_def)
  then show ?thesis by (cases "dget (rg_members r) nid") (auto simp: check_health_def split: option.split)
qed

lemma check_health_ok [keeps]: "registry_ok r \<Longrightarrow> registry_ok (snd (check_health py own nid answer r))"
  using check_health_cases [of py own nid answer r]
proof (elim disjE exE conjE)
  fix st b
  assume "registry_ok r" and st: "dget (rg_members r) nid = Some st"
    and eq: "snd (check_health py own nid answer r) = r\<lparr>rg_members := dset nid (st\<lparr>build := b\<rparr>) (rg_members r)\<rparr>"
  then show ?thesis
    unfolding eq by (intro registry_ok_restate) (simp_all add: registry_ok_profile)
qed simp

lemma refresh_cases:
  obtains "snd (refresh_profile py nid here answer r) = r"
  | st p lp where "dget (rg_members r) nid = Some st" "node_id p = nid"
      "profile_supersedes p (Some (profile st))"
      "snd (refresh_profile py nid here answer r) = persist_roster (r\<lparr>
         rg_members := dset nid (st\<lparr>profile := p\<rparr>) (rg_members r), rg_local_profile := lp\<rparr>)"
proof -
  define fresh where "fresh = (if Some nid = rg_local_node_id r then Some (Inr here)
                   else if dget_or (rg_agent_urls r) nid [] = [] then None
                   else Some (probe_remote py answer))"
  note unfold = refresh_profile_def Let_def fresh_def [symmetric]
  show thesis
  proof (cases "\<exists>p. fresh = Some (Inr p)")
    case False
    then have "snd (refresh_profile py nid here answer r) = r"
      unfolding unfold by (auto split: option.split sum.split reg_error.split)
    then show thesis by (rule that(1))
  next
    case True
    then obtain p where p: "fresh = Some (Inr p)" ..
    show thesis
    proof (cases "dget (rg_members r) nid")
      case None
      then have "snd (refresh_profile py nid here answer r) = r" unfolding unfold p by simp
      then show thesis by (rule that(1))
    next
      case (Some st)
      show thesis
      proof (cases "node_id p = nid \<and> profile_supersedes p (Some (profile st)) \<and> p \<noteq> profile st")
        case True
        then show thesis by (intro that(2) [OF Some]) (auto simp: unfold p Some)
      next
        case False
        then have "snd (refresh_profile py nid here answer r) = r" unfolding unfold p Some by auto
        then show thesis by (rule that(1))
      qed
    qed
  qed
qed

lemma refresh_ok [keeps]:
  assumes "registry_ok r"
  shows "registry_ok (snd (refresh_profile py nid here answer r))"
proof (cases rule: refresh_cases [of py nid here answer r])
  case (2 st p lp)
  then show ?thesis using registry_ok_restate [of r nid "st\<lparr>profile := p\<rparr>"] assms by simp
qed (simp add: assms)

lemma apply_sample_ok [keeps]: "registry_ok r \<Longrightarrow> registry_ok (apply_sample nid s r)"
proof (cases "dget (rg_members r) nid")
  case (Some st)
  assume ok: "registry_ok r"
  then show ?thesis
    using registry_ok_restate [of "r\<lparr>rg_telemetry := ts_record nid s (rg_telemetry r)\<rparr>" nid] Some
      registry_ok_profile [OF ok Some] by (simp add: apply_sample_def)
qed (simp add: apply_sample_def)

lemma reg_step_ok [keeps]: "registry_ok r \<Longrightarrow> registry_ok (reg_step py own r x)"
  by (induction py own r x rule: reg_step.induct) (simp_all add: keeps)

lemma reg_run_ok [keeps]: "registry_ok r \<Longrightarrow> registry_ok (reg_run py own r ops)"
  unfolding reg_run_def by (induction ops arbitrary: r) (auto intro: reg_step_ok)

section \<open>The roster file stays in step\<close>

definition members_doc :: "registry \<Rightarrow> json_object" where
  "members_doc r = map (\<lambda>(nid, st). (nid, member_entry r nid st)) (rg_members r)"

text \<open>What the file holds for the members is what the registry holds for them.\<close>

definition in_step_roster :: "registry \<Rightarrow> bool" where
  "in_step_roster r \<longleftrightarrow> rg_writable r \<and> fst (load_roster (rg_file r)) = members_doc r"

lemma load_roster_document [simp]:
  "load_roster (Holds (roster_document r))
     = (members_doc r, map (\<lambda>(nid, c). (nid, JObj c)) (rg_candidates r))"
  by (simp add: load_roster_def roster_document_def members_doc_def)

lemma members_doc_persist [simp]: "members_doc (persist_roster r) = members_doc r"
  by (simp add: members_doc_def member_entry_def)

lemma in_step_persist [intro]: "rg_writable r \<Longrightarrow> in_step_roster (persist_roster r)"
  by (simp add: in_step_roster_def) (simp add: persist_roster_def members_doc_def member_entry_def)

lemma members_doc_cong:
  assumes "map (\<lambda>(n, s). (n, profile s)) (rg_members r') = map (\<lambda>(n, s). (n, profile s)) (rg_members r)"
    and "\<And>n. dget (rg_agent_urls r') n = dget (rg_agent_urls r) n"
    and "\<And>n. dget (rg_labels r') n = dget (rg_labels r) n"
  shows "members_doc r' = members_doc r"
proof -
  have doc: "members_doc x = map (\<lambda>(n, p). (n, JObj
     ([(''profile'', JObj (profile_to_dict p)), (''agent_url'', JStr (dget_or (rg_agent_urls x) n []))]
      @ (case dget (rg_labels x) n of
           Some l \<Rightarrow> if l \<noteq> [] then [(''label'', JStr l)] else [] | None \<Rightarrow> []))))
     (map (\<lambda>(n, s). (n, profile s)) (rg_members x))" for x
    by (simp add: members_doc_def member_entry_def split_beta comp_def)
  show ?thesis unfolding doc assms(1) using assms(2,3) by (simp add: dget_or_def)
qed

lemma in_step_cong:
  assumes "in_step_roster r" and "rg_file r' = rg_file r" and "rg_writable r' = rg_writable r"
    and "map (\<lambda>(n, s). (n, profile s)) (rg_members r') = map (\<lambda>(n, s). (n, profile s)) (rg_members r)"
    and "\<And>n. dget (rg_agent_urls r') n = dget (rg_agent_urls r) n"
    and "\<And>n. dget (rg_labels r') n = dget (rg_labels r) n"
  shows "in_step_roster r'"
  using assms members_doc_cong [OF assms(4,5,6)] by (simp add: in_step_roster_def)

lemma dset_same_profile:
  "dget d nid = Some st \<Longrightarrow> profile st' = profile st \<Longrightarrow>
   map (\<lambda>(n, s). (n, profile s)) (dset nid st' d) = map (\<lambda>(n, s). (n, profile s)) d"
  by (induction d) (auto split: if_splits)

lemma in_step_restate:
  assumes "in_step_roster r" and "dget (rg_members r) nid = Some st" and "profile st' = profile st"
    and "rg_members r' = dset nid st' (rg_members r)" and "rg_file r' = rg_file r"
    and "rg_writable r' = rg_writable r" and "rg_agent_urls r' = rg_agent_urls r" and "rg_labels r' = rg_labels r"
  shows "in_step_roster r'"
  using assms by (intro in_step_cong [OF assms(1)]) (simp_all add: dset_same_profile)

lemma in_step_same:
  "in_step_roster r \<Longrightarrow> rg_file r' = rg_file r \<Longrightarrow> rg_writable r' = rg_writable r \<Longrightarrow>
   rg_members r' = rg_members r \<Longrightarrow> rg_agent_urls r' = rg_agent_urls r \<Longrightarrow> rg_labels r' = rg_labels r \<Longrightarrow>
   in_step_roster r'"
  by (rule in_step_cong) simp_all

lemma in_step_writable: "in_step_roster r \<Longrightarrow> rg_writable r"
  by (simp add: in_step_roster_def)

lemma admit_in_step:
  assumes "registry_ok r" and "in_step_roster r"
  shows "in_step_roster (snd (admit py nid now r))"
proof (cases "dget (rg_members r) nid")
  case None
  show ?thesis
  proof (cases "dget (rg_candidates r) nid")
    case (Some c)
    then have "candidate_ok nid c" using assms(1) by (simp add: registry_ok_def)
    then obtain p url where "bindR (item c ''profile'') (profile_from_dict py) = Inr p" "node_id p = nid"
      "item c ''agent_url'' = Inr (JStr url)" by (rule candidate_ok_read)
    then show ?thesis
      using None Some in_step_writable [OF assms(2)] by (auto simp: admit_def Let_def)
  qed (simp add: admit_def None assms)
qed (simp add: admit_def assms)

lemma in_step_candidates [simp]:
  "in_step_roster (r\<lparr>rg_candidates := c\<rparr>) = in_step_roster r"
  "in_step_roster (r\<lparr>rg_enrollment := e\<rparr>) = in_step_roster r"
  by (simp_all add: in_step_roster_def members_doc_def member_entry_def)

lemma offer_in_step:
  "in_step_roster r \<Longrightarrow> in_step_roster (snd (offer_candidate p url src now r))"
  using in_step_writable [of r] by (auto simp: offer_candidate_def split: sum.splits)

lemma join_new_in_step:
  assumes "registry_ok r" and "in_step_roster r"
  shows "in_step_roster (snd (join_new py given enr p url now r))"
proof -
  have "in_step_roster (snd (admit py (node_id p) now (r\<lparr>rg_candidates := dset (node_id p) c (rg_candidates r)\<rparr>)))"
    if "candidate_record p url ''enroll'' now r = Inr c" for c
    using candidate_record_ok [OF assms(1) that] assms by (auto intro!: admit_in_step registry_ok_candidate)
  moreover have "in_step_roster (snd (join_waiting p url now r))"
    using assms(2) in_step_writable [OF assms(2)] by (auto simp: join_waiting_def split: sum.splits)
  moreover note offer_in_step [OF assms(2), of p url "''join''" now]
  ultimately show ?thesis
    using assms(2) by (cases given; cases enr) (auto simp: join_new_def split: prod.splits sum.splits)
qed

lemma join_finish_in_step:
  assumes "registry_ok r" and "in_step_roster r"
  shows "in_step_roster (snd (join_finish py given enr p url answer now r))"
proof -
  have "in_step_roster (snd (join_known given enr p url now st r))" for p st
    using assms(2) in_step_writable [OF assms(2)] by (auto simp: join_known_def Let_def)
  then show ?thesis
    using assms join_new_in_step
    by (auto simp: join_finish_def split: sum.splits reg_error.splits option.splits)
qed

lemma add_node_in_step:
  assumes "registry_ok r" and "in_step_roster r"
  shows "in_step_roster (snd (add_node py a answer now r))"
proof -
  have "in_step_roster (snd (admit py (node_id p) now (r\<lparr>rg_candidates := dset (node_id p) c (rg_candidates r)\<rparr>)))"
    if "candidate_record p url ''manual'' now r = Inr c" for c p url
    using candidate_record_ok [OF assms(1) that] assms by (auto intro!: admit_in_step registry_ok_candidate)
  then show ?thesis using assms(2) by (simp add: add_node_def split: sum.splits)
qed

lemma set_label_in_step:
  assumes "in_step_roster r"
  shows "in_step_roster (snd (set_node_label nid raw r))"
proof (cases "dget (rg_members r) nid = None \<or> (\<exists>e. normalize_label raw = Inl e)")
  case False
  then obtain clean where c: "normalize_label raw = Inr clean" by (cases "normalize_label raw") auto
  let ?labels = "case clean of None \<Rightarrow> dpop nid (rg_labels r) | Some l \<Rightarrow> dset nid l (rg_labels r)"
  have "in_step_roster (r\<lparr>rg_labels := ?labels\<rparr>)" if "clean = dget (rg_labels r) nid"
    using that by (intro in_step_cong [OF assms]) (auto split: option.splits)
  then show ?thesis
    using False c in_step_writable [OF assms] by (auto simp: set_node_label_def Let_def)
qed (auto simp: set_node_label_def assms)

lemma reg_step_in_step:
  assumes "registry_ok r" and "in_step_roster r"
  shows "in_step_roster (reg_step py own r (now, op))"
proof (cases op)
  case (Label nid raw)
  then show ?thesis using assms by (simp add: set_label_in_step)
next
  case (Offer p url)
  then show ?thesis using assms by (simp add: offer_in_step)
next
  case (Admit nid)
  then show ?thesis using assms by (simp add: admit_in_step)
next
  case (Remove nid)
  then show ?thesis using assms in_step_writable [OF assms(2)] by (auto simp: remove_node_def)
next
  case (Dismiss nid)
  then show ?thesis using assms in_step_writable [OF assms(2)] by (auto simp: dismiss_candidate_def)
next
  case (Enroll_local p)
  then show ?thesis using in_step_writable [OF assms(2)] by (auto simp: enroll_local_def Let_def)
next
  case (Add a answer)
  then show ?thesis using assms by (simp add: add_node_in_step)
next
  case (Join_check token)
  then show ?thesis by simp (rule in_step_same [OF assms(2)]; simp add: join_check_fields)
next
  case (Join_finish given enr p url answer)
  then show ?thesis using assms by (simp add: join_finish_in_step)
next
  case (Health nid ok)
  have "in_step_roster (record_health nid ok now r)"
  proof (cases "dget (rg_members r) nid")
    case (Some st)
    have "in_step_roster (r\<lparr>rg_misses := m\<rparr>)" for m by (rule in_step_same [OF assms(2)]) simp_all
    moreover have "in_step_roster (r\<lparr>rg_misses := m, rg_members := dset nid (st\<lparr>ns_healthy := h\<rparr>) (rg_members r)\<rparr>)" for m h
      by (rule in_step_restate [OF assms(2) Some, of "st\<lparr>ns_healthy := h\<rparr>"]) simp_all
    moreover have "in_step_roster (r\<lparr>rg_misses := m, rg_members := dset nid (st\<lparr>last_seen := now, ns_healthy := h\<rparr>) (rg_members r)\<rparr>)" for m h
      by (rule in_step_restate [OF assms(2) Some, of "st\<lparr>last_seen := now, ns_healthy := h\<rparr>"]) simp_all
    ultimately show ?thesis using Some by (simp add: record_health_def Let_def)
  qed (simp add: record_health_def assms)
  then show ?thesis by (simp add: Health)
next
  case (Check nid answer)
  from check_health_cases [of py own nid answer r] show ?thesis
  proof (elim disjE exE conjE)
    fix st b
    assume "dget (rg_members r) nid = Some st"
      and eq: "snd (check_health py own nid answer r) = r\<lparr>rg_members := dset nid (st\<lparr>build := b\<rparr>) (rg_members r)\<rparr>"
    from in_step_restate [OF assms(2) this(1), of "st\<lparr>build := b\<rparr>"] show ?thesis by (simp add: Check eq)
  qed (simp add: Check assms)
next
  case (Refresh nid here answer)
  show ?thesis
  proof (cases rule: refresh_cases [of py nid here answer r])
    case (2 st p lp)
    then show ?thesis using in_step_writable [OF assms(2)] by (auto simp: Refresh)
  qed (simp add: Refresh assms)
next
  case (Sample nid s)
  show ?thesis
  proof (cases "dget (rg_members r) nid")
    case (Some st)
    show ?thesis
      unfolding Sample reg_step.simps apply_sample_def Some option.case
      by (rule in_step_restate [OF assms(2) Some]) simp_all
  qed (simp add: Sample apply_sample_def assms)
qed

lemma reg_run_in_step:
  "registry_ok r \<Longrightarrow> in_step_roster r \<Longrightarrow> in_step_roster (reg_run py own r ops)"
  unfolding reg_run_def
proof (induction ops arbitrary: r)
  case (Cons x ops)
  then show ?case using reg_step_ok [of r py own x] reg_step_in_step [of r py own "fst x" "snd x"] by simp
qed simp

section \<open>A restart\<close>

text \<open>A registry that has just been built over a data directory holding \<open>file\<close>, on a disk that takes writes: one that
  does not is only warned about (\<open>save_roster\<close>), and the file stays behind.\<close>

definition blank_registry ::
  "json_file \<Rightarrow> string \<Rightarrow> string \<Rightarrow> int \<Rightarrow> int \<Rightarrow> registry" where
  "blank_registry file token cid port reserve =
     \<lparr>rg_members = [], rg_candidates = [], rg_agent_urls = [], rg_labels = [], rg_misses = [],
      rg_telemetry = new_telemetry TELEMETRY_RING_SAMPLES, rg_enrollment = new_store,
      rg_local_profile = None, rg_local_node_id = None, rg_file = file, rg_writable = True,
      rg_cluster_token = token, rg_cluster_id = cid, rg_agent_port = port, rg_host_reserve = reserve\<rparr>"

lemma blank_registry_ok: "registry_ok (blank_registry file token cid port reserve)"
  by (simp add: registry_ok_def blank_registry_def)

lemma blank_in_step: "in_step_roster (blank_registry Absent token cid port reserve)"
  by (simp add: in_step_roster_def members_doc_def load_roster_def blank_registry_def)

lemma restore_member_written:
  assumes "registry_ok r" and "dget (rg_members r) nid \<noteq> None"
  shows "restore_member py now (nid, member_entry r nid st) x = Inr (x\<lparr>
     rg_members := dset nid (fresh_state (profile st) now False) (rg_members x),
     rg_agent_urls := dset nid (dget_or (rg_agent_urls r) nid []) (rg_agent_urls x),
     rg_labels := (case dget (rg_labels r) nid of Some l \<Rightarrow> dset nid l (rg_labels x) | None \<Rightarrow> rg_labels x)\<rparr>)"
proof (cases "dget (rg_labels r) nid")
  case None
  then show ?thesis
    by (simp add: restore_member_def member_entry_def profile_round_trip dget_or_def normalize_label_def Let_def)
next
  case (Some l)
  then have "l \<noteq> []" "normalize_label (JStr l) = Inr (Some l)" using assms(1) by (auto simp: registry_ok_def)
  then show ?thesis
    using Some by (simp add: restore_member_def member_entry_def profile_round_trip dget_or_def Let_def)
qed

lemma dset_appends: "k \<notin> set (dkeys d) \<Longrightarrow> dset k v d = d @ [(k, v)]"
  by (induction d) auto

lemma restore_members_written:
  assumes "registry_ok r" and "\<forall>(n, s) \<in> set ms. dget (rg_members r) n \<noteq> None"
    and "dict_ok (rg_members x @ ms)"
  shows "\<exists>y. restore_members py now (map (\<lambda>(n, s). (n, member_entry r n s)) ms) x = Inr y
    \<and> rg_members y = rg_members x @ map (\<lambda>(n, s). (n, fresh_state (profile s) now False)) ms
    \<and> (\<forall>n. dget (rg_agent_urls y) n =
         (if n \<in> set (dkeys ms) then Some (dget_or (rg_agent_urls r) n []) else dget (rg_agent_urls x) n))
    \<and> (\<forall>n. dget (rg_labels y) n =
         (if n \<in> set (dkeys ms) \<and> dget (rg_labels r) n \<noteq> None then dget (rg_labels r) n else dget (rg_labels x) n))"
  using assms(2,3)
proof (induction ms arbitrary: x)
  case (Cons m ms)
  obtain nid st where m: "m = (nid, st)" by (cases m)
  let ?x = "x\<lparr>rg_members := dset nid (fresh_state (profile st) now False) (rg_members x),
     rg_agent_urls := dset nid (dget_or (rg_agent_urls r) nid []) (rg_agent_urls x),
     rg_labels := (case dget (rg_labels r) nid of Some l \<Rightarrow> dset nid l (rg_labels x) | None \<Rightarrow> rg_labels x)\<rparr>"
  have new: "rg_members ?x = rg_members x @ [(nid, fresh_state (profile st) now False)]"
    using Cons.prems(2) by (simp add: m dset_appends)
  have "restore_member py now (nid, member_entry r nid st) x = Inr ?x"
    using Cons.prems(1) by (intro restore_member_written assms(1)) (simp add: m)
  moreover obtain y where y: "restore_members py now (map (\<lambda>(n, s). (n, member_entry r n s)) ms) ?x = Inr y"
      "rg_members y = rg_members ?x @ map (\<lambda>(n, s). (n, fresh_state (profile s) now False)) ms"
      "\<forall>n. dget (rg_agent_urls y) n =
         (if n \<in> set (dkeys ms) then Some (dget_or (rg_agent_urls r) n []) else dget (rg_agent_urls ?x) n)"
      "\<forall>n. dget (rg_labels y) n =
         (if n \<in> set (dkeys ms) \<and> dget (rg_labels r) n \<noteq> None then dget (rg_labels r) n else dget (rg_labels ?x) n)"
    using Cons.IH [of ?x] Cons.prems by (auto simp only: new) (auto simp: m)
  moreover have "dget (rg_labels ?x) n = (if n = nid \<and> dget (rg_labels r) n \<noteq> None then dget (rg_labels r) n
      else dget (rg_labels x) n)" for n
    by (auto split: option.splits)
  ultimately show ?case
    unfolding m by (intro exI [of _ y]) (auto simp: new simp del: set_map)
qed simp

text \<open>C33: the cluster survives a restart, where the disk takes writes. Whatever was admitted, added, joined, renamed, refreshed,
  dismissed or removed since a data directory was empty, a registry rebuilt from its roster file has
  the same members in the same order with the same hardware, dials the same addresses and shows the
  same names, with every member healthy and unmeasured.\<close>

theorem roster_survives_restart:
  assumes "r = reg_run py own (blank_registry Absent token cid port reserve) ops"
  shows "\<exists>r'. restore_roster py now (blank_registry (rg_file r) token cid port reserve) = Inr r'
    \<and> rg_members r' = map (\<lambda>(n, s). (n, fresh_state (profile s) now False)) (rg_members r)
    \<and> (\<forall>n. dget (rg_members r) n \<noteq> None \<longrightarrow> dget (rg_agent_urls r') n = dget (rg_agent_urls r) n)
    \<and> (\<forall>n. dget (rg_labels r') n = dget (rg_labels r) n)"
proof -
  have ok: "registry_ok r" unfolding assms by (rule reg_run_ok) (rule blank_registry_ok)
  have "in_step_roster r" unfolding assms by (rule reg_run_in_step) (rule blank_registry_ok, rule blank_in_step)
  then have doc: "fst (load_roster (rg_file r)) = map (\<lambda>(n, s). (n, member_entry r n s)) (rg_members r)"
    by (simp add: in_step_roster_def members_doc_def)
  let ?b = "blank_registry (rg_file r) token cid port reserve"
  have blank: "rg_members ?b = []" "rg_agent_urls ?b = []" "rg_labels ?b = []" "rg_file ?b = rg_file r"
    by (simp_all add: blank_registry_def)
  have mem: "\<forall>(n, s) \<in> set (rg_members r). dget (rg_members r) n \<noteq> None"
    by (auto simp: map_of_eq_None_notin rev_image_eqI)
  have dict: "dict_ok (rg_members ?b @ rg_members r)" using ok by (simp add: blank registry_ok_def)
  from restore_members_written [OF ok mem dict, of py now]
  obtain y where y: "restore_members py now (map (\<lambda>(n, s). (n, member_entry r n s)) (rg_members r)) ?b = Inr y"
      "rg_members y = map (\<lambda>(n, s). (n, fresh_state (profile s) now False)) (rg_members r)"
      "\<forall>n. dget (rg_agent_urls y) n =
         (if n \<in> set (dkeys (rg_members r)) then Some (dget_or (rg_agent_urls r) n []) else dget (rg_agent_urls ?b) n)"
      "\<forall>n. dget (rg_labels y) n =
         (if n \<in> set (dkeys (rg_members r)) \<and> dget (rg_labels r) n \<noteq> None then dget (rg_labels r) n
          else dget (rg_labels ?b) n)"
    unfolding blank(1) append_Nil by (elim exE conjE)
  define r' where "r' = y\<lparr>rg_candidates := restore_candidates (snd (load_roster (rg_file r)))\<rparr>"
  have "restore_roster py now ?b = Inr r'"
    using y(1) by (simp add: restore_roster_def blank split_beta doc r'_def)
  moreover have "dget (rg_agent_urls r') n = dget (rg_agent_urls r) n" if "dget (rg_members r) n \<noteq> None" for n
  proof -
    have "n \<in> set (dkeys (rg_members r))" "dget (rg_agent_urls r) n \<noteq> None"
      using that ok by (auto simp: map_of_eq_None_notin registry_ok_def)
    then show ?thesis using y(3) by (auto simp: r'_def)
  qed
  moreover have "dget (rg_labels r') n = dget (rg_labels r) n" for n
  proof (cases "dget (rg_labels r) n")
    case (Some l)
    then have "n \<in> set (dkeys (rg_members r))" using ok by (auto simp: registry_ok_def map_of_eq_None_notin)
    then show ?thesis using y(4) Some by (simp add: r'_def)
  qed (use y(4) in \<open>simp add: r'_def blank\<close>)
  ultimately show ?thesis using y(2) by (intro exI [of _ r']) (simp add: r'_def)
qed

text \<open>A machine without a GPU, for the concrete examples.\<close>

definition small_machine :: "string \<Rightarrow> node_profile" where
  "small_machine nid =
     \<lparr>node_id = nid, hostname = nid, address = ''10.0.0.1'', device_class = CPU, gpu_name = [],
      gpu_count = 0, total_memory = 0, addressable_memory = 0, memory_bandwidth_gbps = 0,
      compute_capability = [], driver_version = []\<rparr>"

definition small_cluster :: registry where
  "small_cluster = reg_run plain_text [] (blank_registry Absent ''tok'' ''c1'' 8081 0)
     [(0, Enroll_local (small_machine ''a'')), (1, Offer (small_machine ''b'') ''http://b''), (2, Admit ''b''),
      (3, Label ''b'' (JStr ''rack  2''))]"

theorem roster_survives_restart_witness:
  "(\<exists>r'. restore_roster plain_text 9 (blank_registry (rg_file small_cluster) ''tok'' ''c1'' 8081 0) = Inr r'
      \<and> rg_members r' = map (\<lambda>(n, s). (n, fresh_state (profile s) 9 False)) (rg_members small_cluster)
      \<and> dget (rg_agent_urls r') ''b'' = Some ''http://b''
      \<and> dget (rg_labels r') ''b'' = Some ''rack 2'')
   \<and> dkeys (rg_members small_cluster) = [''a'', ''b'']"
proof
  have facts: "dget (rg_members small_cluster) ''b'' \<noteq> None" "dget (rg_agent_urls small_cluster) ''b'' = Some ''http://b''"
      "dget (rg_labels small_cluster) ''b'' = Some ''rack 2''"
    by code_simp+
  from roster_survives_restart [OF small_cluster_def, where now = 9] facts
  show "\<exists>r'. restore_roster plain_text 9 (blank_registry (rg_file small_cluster) ''tok'' ''c1'' 8081 0) = Inr r'
      \<and> rg_members r' = map (\<lambda>(n, s). (n, fresh_state (profile s) 9 False)) (rg_members small_cluster)
      \<and> dget (rg_agent_urls r') ''b'' = Some ''http://b''
      \<and> dget (rg_labels r') ''b'' = Some ''rack 2''" by metis
  show "dkeys (rg_members small_cluster) = [''a'', ''b'']" by code_simp
qed

end
