(* ===== verification/Registry_Safety.thy ===== *)
theory Registry_Safety
  imports Registry_Roster
begin

text \<open>
  What the registry promises about who becomes a member, what a caller without a credential can
  change, when a member is marked unhealthy, and how much memory it offers to the fit gate.
\<close>

section \<open>Health\<close>

definition trailing_misses :: "bool list \<Rightarrow> nat" where
  "trailing_misses oks = length (takeWhile (\<lambda>ok. \<not> ok) (rev oks))"

lemma trailing_misses_simps [simp]:
  "trailing_misses [] = 0" "trailing_misses (oks @ [True]) = 0"
  "trailing_misses (oks @ [False]) = Suc (trailing_misses oks)"
  by (simp_all add: trailing_misses_def)

definition record_all :: "string \<Rightarrow> (rat \<times> bool) list \<Rightarrow> registry \<Rightarrow> registry" where
  "record_all nid hs r = foldl (\<lambda>r (now, ok). record_health nid ok now r) r hs"

lemma record_all_state:
  assumes "dget (rg_members r) nid = Some st" and "ns_healthy st" and "dget_or (rg_misses r) nid 0 = 0"
  shows "dget_or (rg_misses (record_all nid hs r)) nid 0 = int (trailing_misses (map snd hs))
    \<and> (\<exists>st'. dget (rg_members (record_all nid hs r)) nid = Some st'
         \<and> ns_healthy st' = (trailing_misses (map snd hs) < 3)
         \<and> st'\<lparr>ns_healthy := ns_healthy st, last_seen := last_seen st\<rparr> = st)"
proof (induction hs rule: rev_induct)
  case Nil
  then show ?case using assms by (simp add: record_all_def)
next
  case (snoc h hs)
  obtain now ok where h: "h = (now, ok)" by (cases h)
  let ?r = "record_all nid hs r"
  have step: "record_all nid (hs @ [(t, b)]) r = record_health nid b t ?r" for t b
    by (simp add: record_all_def)
  from snoc obtain s where s: "dget (rg_members ?r) nid = Some s"
      "ns_healthy s = (trailing_misses (map snd hs) < 3)"
      "s\<lparr>ns_healthy := ns_healthy st, last_seen := last_seen st\<rparr> = st"
      and n: "dget_or (rg_misses ?r) nid 0 = int (trailing_misses (map snd hs))" by blast
  have any: "s\<lparr>ns_healthy := h, last_seen := l\<rparr>\<lparr>ns_healthy := ns_healthy st, last_seen := last_seen st\<rparr> = st" for h l
    using s(3) by simp
  show ?case
  proof (cases ok)
    case True
    then show ?thesis
      using s(1) any [where h = True and l = now] by (simp add: step record_health_def h dget_or_def)
  next
    case False
    show ?thesis
    proof (cases "3 \<le> trailing_misses (map snd hs) + 1 \<and> ns_healthy s")
      case True
      then show ?thesis
        using False s(1) n any [where h = False and l = "last_seen s"]
        by (simp add: step record_health_def h dget_or_def HEARTBEAT_MISSES_UNHEALTHY_def Let_def)
    next
      case less: False
      then have "\<not> (3 \<le> int (trailing_misses (map snd hs)) + 1 \<and> ns_healthy s)" by linarith
      then show ?thesis
        using False s(1,2,3) n less
        by (auto simp: step record_health_def h dget_or_def HEARTBEAT_MISSES_UNHEALTHY_def Let_def)
    qed
  qed
qed

text \<open>A member is marked unhealthy exactly while its last three heartbeats have failed. One answer
  clears it, and whatever the verdict nothing else about the member changes: it is not forgotten and
  keeps its last readings.\<close>

theorem three_misses_unhealthy:
  assumes "dget (rg_members r) nid = Some st" and "ns_healthy st" and "dget_or (rg_misses r) nid 0 = 0"
  shows "\<exists>st'. dget (rg_members (record_all nid hs r)) nid = Some st'
    \<and> (ns_healthy st' \<longleftrightarrow> trailing_misses (map snd hs) < 3)
    \<and> st'\<lparr>ns_healthy := ns_healthy st, last_seen := last_seen st\<rparr> = st"
  using record_all_state [OF assms] by blast

section \<open>Who becomes a member\<close>

lemma offer_members [simp]:
  "rg_members (snd (offer_candidate p url src now r)) = rg_members r"
  "rg_agent_urls (snd (offer_candidate p url src now r)) = rg_agent_urls r"
  "rg_labels (snd (offer_candidate p url src now r)) = rg_labels r"
  "rg_enrollment (snd (offer_candidate p url src now r)) = rg_enrollment r"
  by (auto simp: offer_candidate_def split: sum.splits)

lemma offer_members_pair:
  "offer_candidate p url src now r = (x, r') \<Longrightarrow> rg_members r' = rg_members r"
  using offer_members(1) [of p url src now r] by simp

lemma join_waiting_members [simp]: "rg_members (snd (join_waiting p url now r)) = rg_members r"
  by (auto simp: join_waiting_def split: sum.splits)

lemma join_known_members:
  "dget (rg_members r) (node_id p) \<noteq> None \<Longrightarrow>
   dget (rg_members (snd (join_known given enr p url now st r))) n = None \<longleftrightarrow> dget (rg_members r) n = None"
  by (auto simp: join_known_def Let_def)

lemma admit_members:
  "dget (rg_members (snd (admit py nid now r))) n \<noteq> None \<Longrightarrow> dget (rg_members r) n = None \<Longrightarrow>
   n = nid \<and> dget (rg_candidates r) nid \<noteq> None"
  by (auto simp: admit_def Let_def split: option.splits sum.splits if_splits)

lemma join_new_members:
  assumes "dget (rg_members (snd (join_new py given enr p url now r))) n \<noteq> None" and "dget (rg_members r) n = None"
  shows "n = node_id p \<and> given \<and> (\<exists>t. enr = Some t \<and> auto_admit t)"
proof -
  have "n = node_id p" if "admit py (node_id p) now (r\<lparr>rg_candidates := c\<rparr>) = (x, r')"
    "dget (rg_members r') n \<noteq> None" for c x r'
    using admit_members [of py "node_id p" now "r\<lparr>rg_candidates := c\<rparr>" n] assms(2) that by simp
  moreover have "\<not> (\<not> given \<or> enr = None \<or> \<not> auto_admit (the enr))"
  proof
    assume "\<not> given \<or> enr = None \<or> \<not> auto_admit (the enr)"
    then have "rg_members (snd (join_new py given enr p url now r)) = rg_members r"
      by (cases enr; cases given)
        (auto simp: join_new_def offer_members_pair split: prod.splits sum.splits)
    then show False using assms by simp
  qed
  ultimately show ?thesis
    using assms by (auto simp: join_new_def split: prod.splits sum.splits)
qed

lemma join_finish_members:
  assumes "dget (rg_members (snd (join_finish py given enr p url answer now r))) n \<noteq> None"
    and "dget (rg_members r) n = None"
  shows "n = node_id p \<and> given \<and> (\<exists>t. enr = Some t \<and> auto_admit t)
    \<and> (\<exists>q. probe_remote py answer = Inr q \<and> node_id q = n)"
proof -
  obtain q where q: "probe_remote py answer = Inr q" "node_id q = node_id p"
      "dget (rg_members r) (node_id q) = None"
      "dget (rg_members (snd (join_new py given enr q url now r))) n \<noteq> None"
    using assms join_known_members [of r _ given enr url now _ n]
    by (auto simp: join_finish_def split: sum.splits reg_error.splits option.splits if_splits)
  show ?thesis using join_new_members [OF q(4) assms(2)] q by auto
qed

text \<open>Discovery proposes, a human accepts. A node that was not a member becomes one only by the
  admit click on its candidacy, by being the coordinator's own machine, by an operator adding its
  address and the machine there answering with that id, or by a join that holds an enrollment token
  minted to admit and whose probe-back answered with that id. Offers, tokenless joins, joins with the
  cluster token, heartbeats, refreshes and samples never add a member.\<close>

theorem membership_is_granted:
  assumes "dget (rg_members r) n = None" and "dget (rg_members (reg_step py own r (now, op))) n \<noteq> None"
  shows "(op = Admit n \<and> dget (rg_candidates r) n \<noteq> None)
    \<or> (\<exists>p. op = Enroll_local p \<and> node_id p = n)
    \<or> (\<exists>a answer q. op = Add a answer \<and> probe_remote py answer = Inr q \<and> node_id q = n)
    \<or> (\<exists>t p url answer q. op = Join_finish True (Some t) p url answer \<and> auto_admit t
         \<and> probe_remote py answer = Inr q \<and> node_id q = n)"
proof (cases op)
  case (Label nid raw)
  then show ?thesis using assms by (auto simp: set_node_label_def Let_def split: sum.splits if_splits)
next
  case (Admit nid)
  then show ?thesis using admit_members [of py nid now r n] assms by auto
next
  case (Add a answer)
  have "node_id q = n" if "dget (rg_members (snd (admit py (node_id q) now (r\<lparr>rg_candidates := c\<rparr>)))) n \<noteq> None" for q c
    using admit_members [OF that] assms(1) by simp
  then show ?thesis
    using assms by (simp add: Add add_node_def split: sum.splits) blast
next
  case (Join_check token)
  then show ?thesis using assms by (simp add: join_check_fields)
next
  case (Join_finish given enr p url answer)
  then show ?thesis using join_finish_members [of py given enr p url answer now r n] assms by auto
next
  case (Health nid ok)
  then show ?thesis using assms by (auto simp: record_health_def Let_def split: option.splits if_splits)
next
  case (Check nid answer)
  then show ?thesis using assms check_health_cases [of py own nid answer r] by (auto split: if_splits)
next
  case (Refresh nid here answer)
  show ?thesis
    by (cases rule: refresh_cases [of py nid here answer r]) (use assms Refresh in \<open>auto split: if_splits\<close>)
next
  case (Sample nid s)
  then show ?thesis using assms by (auto simp: apply_sample_def split: option.splits if_splits)
qed (use assms in \<open>auto simp: remove_node_def dismiss_candidate_def enroll_local_def Let_def split: if_splits\<close>)

section \<open>Callers without a credential\<close>

text \<open>A caller that presents no token cannot move anything. Whatever it claims to be and whatever
  answers its probe-back, the members, the addresses their traffic is sent to, their names and the
  enrollment tokens stay as they were, and the reply never carries the cluster token; the cluster id
  is only told to a node that already is a member.\<close>

theorem tokenless_join_moves_nothing:
  assumes "\<not> has_token token" and "handle_join py token claimed url answer now r = (reply, r')"
  shows "rg_members r' = rg_members r \<and> rg_agent_urls r' = rg_agent_urls r \<and> rg_labels r' = rg_labels r
    \<and> rg_enrollment r' = rg_enrollment r
    \<and> (\<forall>j. reply = Inr j \<longrightarrow> jr_cluster_token j = None
         \<and> (jr_cluster_id j \<noteq> None \<longrightarrow> dget (rg_members r) (jr_node_id j) \<noteq> None))"
proof -
  have "handle_join py token claimed url answer now r = join_finish py False None claimed url answer now r"
    using assms(1) by (auto simp: handle_join_def join_check_def has_token_def split: option.splits)
  moreover have "rg_members x = rg_members r \<and> rg_agent_urls x = rg_agent_urls r \<and> rg_labels x = rg_labels r
      \<and> rg_enrollment x = rg_enrollment r"
    if "offer_candidate p url ''join'' now r = (y, x)" for p x y
    using offer_members [of p url "''join''" now r] that by simp
  ultimately show ?thesis
    using assms(2)
    by (auto simp: join_finish_def join_known_def join_new_def Let_def
        split: sum.splits reg_error.splits option.splits if_splits prod.splits)
qed

section \<open>Enrollment admits, and costs a use\<close>

lemma first_match_secret:
  "first_match s ts = Inr (Some t) \<Longrightarrow> t \<in> set ts \<and> tok_secret t = s"
  by (induction ts) (auto simp: bindR_eq_Inr compare_digest_def split: if_splits)

lemma verify_found:
  assumes "verify (Some s) now es = (Inr (Some t), es')"
  shows "\<exists>k. (k, t) \<in> set (enr_tokens es) \<and> tok_secret t = s \<and> is_live t now \<and> es' = pruned now es"
proof (cases "s = []")
  case False
  then have "first_match s (dvalues (enr_tokens (pruned now es))) = Inr (Some t)" "es' = pruned now es"
    using assms by (auto simp: verify_def Let_def)
  from first_match_secret [OF this(1)] this(2) show ?thesis by auto
qed (use assms in \<open>simp add: verify_def\<close>)

lemma join_check_granted:
  assumes "join_check token now r = (Inr (Some e), r1)"
  shows "\<exists>s. token = Some s \<and> s \<noteq> [] \<and> verify (Some s) now (rg_enrollment r) = (Inr (Some e), rg_enrollment r1)"
  using assms
  by (auto simp: join_check_def Let_def split: option.splits sum.splits bool.splits prod.splits if_splits)

lemma admit_enrollment [simp]: "rg_enrollment (snd (admit py nid now r)) = rg_enrollment r"
  by (auto simp: admit_def Let_def split: option.splits sum.splits)

lemma admit_enrollment_pair: "admit py nid now r = (x, r') \<Longrightarrow> rg_enrollment r' = rg_enrollment r"
  using admit_enrollment [of py nid now r] by simp

lemma join_new_spends:
  assumes "registry_ok r" and "join_new py True (Some t) p url now r = (reply, r')" and "auto_admit t"
    and "dget (rg_members r) (node_id p) = None"
  shows "rg_enrollment r' = consume (token_id t) (rg_enrollment r)"
proof -
  obtain c where c: "candidate_record p url ''enroll'' now r = Inr c" "candidate_ok (node_id p) c"
    using candidate_record_ok [OF assms(1) refl] by blast
  obtain q u where "bindR (item c ''profile'') (profile_from_dict py) = Inr q" "item c ''agent_url'' = Inr (JStr u)"
    using c(2) by (rule candidate_ok_read)
  then have "\<exists>st. fst (admit py (node_id p) now (r\<lparr>rg_candidates := dset (node_id p) c (rg_candidates r)\<rparr>)) = Inr st"
    using assms(4) by (simp add: admit_def Let_def)
  then show ?thesis
    using assms(2,3) c(1) by (auto simp: join_new_def dest: admit_enrollment_pair split: prod.splits sum.splits)
qed

text \<open>C26: joining is admitting only with an enrollment token, and it costs a use. A join runs in two halves, the
  check of the token and, after the probe-back, its end; whatever else the registry did between the two, when
  the end makes the caller a member, the caller presented the secret of a token that was on file at the check,
  had not expired and was minted to admit, the machine that answered the probe-back is the one that claimed
  to join, and the end takes a use off exactly that token as the store then has it. A token without a limit
  stays as it is, and two joins that overlap can take the same last use, see below.\<close>

theorem join_admits_for_one_use:
  assumes "join_check token now r = (Inr enr, r1)" and "registry_ok r2"
    and "join_finish py (has_token token) enr claimed url answer later r2 = (reply, r')"
    and "dget (rg_members r2) n = None" and "dget (rg_members r') n \<noteq> None"
  shows "\<exists>s k t q. token = Some s \<and> (k, t) \<in> set (enr_tokens (rg_enrollment r)) \<and> tok_secret t = s
    \<and> is_live t now \<and> auto_admit t \<and> probe_remote py answer = Inr q \<and> node_id q = n \<and> node_id claimed = n
    \<and> rg_enrollment r1 = pruned now (rg_enrollment r)
    \<and> rg_enrollment r' = consume (token_id t) (rg_enrollment r2)"
proof -
  have "dget (rg_members (snd (join_finish py (has_token token) enr claimed url answer later r2))) n \<noteq> None"
    using assms(3,5) by simp
  from join_finish_members [OF this] obtain t q where t: "enr = Some t" "auto_admit t" "has_token token"
      and q: "probe_remote py answer = Inr q" "node_id q = n" "n = node_id claimed"
    using assms(4) by auto
  obtain s where s: "token = Some s" "verify (Some s) now (rg_enrollment r) = (Inr (Some t), rg_enrollment r1)"
    using join_check_granted [of token now r t r1] assms(1) t(1) by auto
  from verify_found [OF s(2)] obtain k where k: "(k, t) \<in> set (enr_tokens (rg_enrollment r))"
    "tok_secret t = s" "is_live t now" "rg_enrollment r1 = pruned now (rg_enrollment r)" by blast
  have "join_new py True (Some t) q url later r2 = (reply, r')"
    using assms(3,4) q t by (simp add: join_finish_def)
  then have "rg_enrollment r' = consume (token_id t) (rg_enrollment r2)"
    using t(2) q(2) assms(2,4) by (intro join_new_spends) auto
  then show ?thesis using s(1) k t(2) q by auto
qed

section \<open>What the fit gate is offered\<close>

text \<open>C37: a live memory figure is never a promise the node cannot keep. When the registry offers a
  positive number of bytes for a node, the node is a healthy member that has been sampled, and the bytes
  together with what the last sample says is in use stay within the guardrail's share of the addressable
  pool. On a GB10, where the last sample names a positive amount the kernel has available, the bytes
  also leave the operating system its reserve of that amount; on other machines, and where the sample names
  none, no reserve is kept.\<close>

theorem offered_memory_is_there:
  assumes "allocatable_or_none nid g r = Some n" and "0 < n"
  shows "\<exists>st s. dget (rg_members r) nid = Some st \<and> ns_healthy st \<and> ts_latest nid (rg_telemetry r) = Some s
    \<and> n + smp_memory_used s \<le> usable_memory (profile st) g
    \<and> (device_class (profile st) = GB10 \<and> 0 < host_memory_available s
         \<longrightarrow> n + rg_host_reserve r \<le> host_memory_available s)"
proof -
  obtain st where st: "dget (rg_members r) nid = Some st" "ns_healthy st"
      "allocatable_bytes_or_none (profile st) (ts_latest nid (rg_telemetry r)) g (rg_host_reserve r) = Some n"
    using assms(1) by (auto simp: allocatable_or_none_def split: option.splits if_splits)
  then obtain s where s: "ts_latest nid (rg_telemetry r) = Some s"
      "allocatable_bytes (profile st) (Some s) g (rg_host_reserve r) = n"
    by (auto simp: allocatable_bytes_or_none_def not_None_eq split: if_splits)
  show ?thesis using st s allocatable_within_limits [OF s(2) assms(2)] by blast
qed

section \<open>Hardware on file\<close>

text \<open>A refresh never replaces identified hardware by an unidentified profile.\<close>

lemma refresh_keeps_identified:
  assumes "dget (rg_members r) nid = Some st" and "device_class (profile st) \<noteq> UNKNOWN"
  shows "\<exists>st'. dget (rg_members (snd (refresh_profile py nid here answer r))) nid = Some st'
    \<and> device_class (profile st') \<noteq> UNKNOWN"
proof (cases rule: refresh_cases [of py nid here answer r])
  case (2 st' p lp)
  then show ?thesis using assms by (auto simp: profile_supersedes_def split: if_splits)
qed (use assms in simp)

section \<open>Candidates and members\<close>

text \<open>No candidate is a member, after every operation but one: adding the address of a node that
  already is a member leaves a candidate record for it behind.\<close>

definition apart_collections :: "registry \<Rightarrow> bool" where
  "apart_collections r \<longleftrightarrow> (\<forall>nid. dget (rg_candidates r) nid \<noteq> None \<longrightarrow> dget (rg_members r) nid = None)"

lemma admit_keeps_apart: "apart_collections r \<Longrightarrow> apart_collections (snd (admit py nid now r))"
  by (auto simp: admit_def apart_collections_def Let_def split: option.splits sum.splits)

lemma offer_keeps_apart: "apart_collections r \<Longrightarrow> apart_collections (snd (offer_candidate p url src now r))"
  by (auto simp: offer_candidate_def apart_collections_def split: sum.splits)

lemma enroll_local_keeps_apart: "apart_collections r \<Longrightarrow> apart_collections (snd (enroll_local py p b now r))"
  by (auto simp: enroll_local_def apart_collections_def Let_def)

lemma add_member_leaves_candidate:
  assumes "registry_ok r" and "normalize_agent_url py a (rg_agent_port r) = Inr url"
    and "probe_remote py answer = Inr p" and "dget (rg_members r) (node_id p) \<noteq> None"
  shows "dget (rg_candidates (snd (add_node py a answer now r))) (node_id p) \<noteq> None
    \<and> rg_members (snd (add_node py a answer now r)) = rg_members r
    \<and> rg_agent_urls (snd (add_node py a answer now r)) = rg_agent_urls r
    \<and> rg_file (snd (add_node py a answer now r)) = rg_file r"
proof -
  obtain c where "candidate_record p url ''manual'' now r = Inr c"
    using candidate_record_ok [OF assms(1) refl] by blast
  then show ?thesis using assms(2-4) by (auto simp: add_node_def admit_def not_None_eq split: option.splits)
qed

section \<open>Two joins at once\<close>

text \<open>A single-use token, presented twice before either probe-back has been answered, admits both
  callers: the use is spent only after the probe.\<close>

definition open_cluster :: registry where
  "open_cluster = (blank_registry Absent ''tok'' ''c1'' 8081 0)
     \<lparr>rg_enrollment := snd (mint 60 (Some 1) True (''t'', ''s3cret'') 0 new_store)\<rparr>"

definition finish_with :: "string \<Rightarrow> registry \<Rightarrow> registry" where
  "finish_with nid r = (case join_check (Some ''s3cret'') 1 open_cluster of
     (Inr enr, _) \<Rightarrow> snd (join_finish plain_text True enr (small_machine nid) ''http://x''
        (Some (JObj (profile_to_dict (small_machine nid)))) 2 r)
   | _ \<Rightarrow> r)"

lemma overlapping_joins_share_a_use:
  "dkeys (rg_members (finish_with ''b'' (finish_with ''a'' open_cluster))) = [''a'', ''b'']
   \<and> map uses_remaining (dvalues (enr_tokens (rg_enrollment open_cluster))) = [Some 1]"
  by code_simp

section \<open>The properties at concrete inputs\<close>

theorem three_misses_unhealthy_witness:
  "\<exists>st st'. dget (rg_members small_cluster) ''b'' = Some st
    \<and> dget (rg_members (record_all ''b'' [(5, False), (10, True), (15, False), (20, False), (25, False)] small_cluster)) ''b''
      = Some st' \<and> \<not> ns_healthy st' \<and> st'\<lparr>ns_healthy := ns_healthy st, last_seen := last_seen st\<rparr> = st"
proof -
  have "(case dget (rg_members small_cluster) ''b'' of Some st \<Rightarrow> ns_healthy st | None \<Rightarrow> False)" by code_simp
  then obtain st where st: "dget (rg_members small_cluster) ''b'' = Some st" "ns_healthy st"
    by (auto split: option.splits)
  have misses: "dget_or (rg_misses small_cluster) ''b'' 0 = 0" by code_simp
  have three: "\<not> trailing_misses (map snd [(5::rat, False), (10, True), (15, False), (20, False), (25, False)]) < 3"
    by (simp add: trailing_misses_def)
  show ?thesis
    using three_misses_unhealthy [OF st misses, of "[(5, False), (10, True), (15, False), (20, False), (25, False)]"]
      st(1) three by blast
qed

theorem membership_is_granted_witness:
  "dget (rg_candidates (snd (offer_candidate (small_machine ''c'') ''http://c'' ''mdns'' 4 small_cluster))) ''c'' \<noteq> None"
proof -
  let ?r = "snd (offer_candidate (small_machine ''c'') ''http://c'' ''mdns'' 4 small_cluster)"
  have "dget (rg_members ?r) ''c'' = None" "dget (rg_members (reg_step plain_text [] ?r (5, Admit ''c''))) ''c'' \<noteq> None"
    by code_simp+
  from membership_is_granted [OF this] show ?thesis by simp
qed

theorem tokenless_join_moves_nothing_witness:
  "dget (rg_agent_urls (snd (handle_join plain_text None (small_machine ''b'') ''http://evil''
     (Some (JObj (profile_to_dict (small_machine ''b'')))) 5 small_cluster))) ''b'' = Some ''http://b''"
proof -
  have "\<not> has_token None" by (simp add: has_token_def)
  from tokenless_join_moves_nothing [OF this prod.collapse [symmetric], of plain_text "small_machine ''b''" "''http://evil''"
      "Some (JObj (profile_to_dict (small_machine ''b'')))" 5 small_cluster]
  have "rg_agent_urls (snd (handle_join plain_text None (small_machine ''b'') ''http://evil''
     (Some (JObj (profile_to_dict (small_machine ''b'')))) 5 small_cluster)) = rg_agent_urls small_cluster" by blast
  moreover have "dget (rg_agent_urls small_cluster) ''b'' = Some ''http://b''" by code_simp
  ultimately show ?thesis by simp
qed

theorem join_admits_for_one_use_witness:
  "\<exists>t q. tok_secret t = ''s3cret'' \<and> is_live t 1 \<and> auto_admit t
    \<and> probe_remote plain_text (Some (JObj (profile_to_dict (small_machine ''a'')))) = Inr q \<and> node_id q = ''a''
    \<and> rg_enrollment (finish_with ''a'' open_cluster) = consume (token_id t) (rg_enrollment open_cluster)"
proof -
  have ok: "registry_ok open_cluster" by (simp add: open_cluster_def blank_registry_ok)
  obtain res r1 where c: "join_check (Some ''s3cret'') 1 open_cluster = (res, r1)" by fastforce
  have new: "dget (rg_members open_cluster) ''a'' = None" "dget (rg_members (finish_with ''a'' open_cluster)) ''a'' \<noteq> None"
      "has_token (Some ''s3cret'')"
    by code_simp+
  obtain enr where enr: "res = Inr enr" using new by (cases res) (simp_all add: finish_with_def c)
  have "finish_with ''a'' open_cluster = snd (join_finish plain_text (has_token (Some ''s3cret'')) enr (small_machine ''a'') ''http://x''
        (Some (JObj (profile_to_dict (small_machine ''a'')))) 2 open_cluster)"
    using new(3) by (simp add: finish_with_def c enr)
  then show ?thesis
    using join_admits_for_one_use [OF c [unfolded enr] ok prod.collapse [symmetric] new(1), of plain_text "small_machine ''a''" "''http://x''"
        "Some (JObj (profile_to_dict (small_machine ''a'')))" 2] new(2) by auto
qed

theorem offered_memory_is_there_witness:
  "\<exists>n. allocatable_or_none ''g'' (9 / 10) (apply_sample ''g''
      \<lparr>smp_ts = 1, smp_memory_used = 4, smp_memory_total = 0, smp_power_watts = 0, smp_temperature_c = 0,
       smp_utilization_pct = 0, gpu_memory_used = 0, gpu_process_count = 0, host_memory_total = 20,
       host_memory_available = 6, swap_used = 0\<rparr>
      (snd (enroll_local plain_text ((small_machine ''g'')\<lparr>device_class := GB10, addressable_memory := 20\<rparr>) False 0
        ((blank_registry Absent [] [] 0 0)\<lparr>rg_host_reserve := 2\<rparr>)))) = Some n \<and> n + 2 \<le> 6"
proof -
  let ?r = "apply_sample ''g''
      \<lparr>smp_ts = 1, smp_memory_used = 4, smp_memory_total = 0, smp_power_watts = 0, smp_temperature_c = 0,
       smp_utilization_pct = 0, gpu_memory_used = 0, gpu_process_count = 0, host_memory_total = 20,
       host_memory_available = 6, swap_used = 0\<rparr>
      (snd (enroll_local plain_text ((small_machine ''g'')\<lparr>device_class := GB10, addressable_memory := 20\<rparr>) False 0
        ((blank_registry Absent [] [] 0 0)\<lparr>rg_host_reserve := 2\<rparr>)))"
  have n: "allocatable_or_none ''g'' (9 / 10) ?r = Some 4" by code_simp
  from offered_memory_is_there [OF n] obtain st s where
      "dget (rg_members ?r) ''g'' = Some st" "ts_latest ''g'' (rg_telemetry ?r) = Some s"
      "device_class (profile st) = GB10 \<and> 0 < host_memory_available s \<longrightarrow> 4 + rg_host_reserve ?r \<le> host_memory_available s"
    by auto
  then show ?thesis using n by auto
qed

end
