(* ===== verification/Reach.thy ===== *)
theory Reach
  imports Registry_Roster
begin

text \<open>
  Can two nodes talk to each other: the legs of a reachability check, \<open>control_plane/registry/reach.py\<close>,
  and how the registry plans them (\<open>Registry.check_reach\<close> and \<open>_peer_leg\<close>). What a dial returns and
  how \<open>urlparse\<close> splits an address are arguments; the sentence is a \<open>msg\<close> whose tag says which it is.
\<close>

section \<open>Legs\<close>

record reach_leg =
  leg_source :: string
  leg_target :: string
  leg_url :: string
  leg_ok :: bool
  leg_ms :: "rat option"
  leg_error :: "string option"
  answered_as :: "string option"
  pair :: bool
  leg_note :: "string option"

definition COORDINATOR :: string where "COORDINATOR = ''coordinator''"

definition self_leg :: "string \<Rightarrow> string \<Rightarrow> reach_leg" where
  "self_leg nid url =
     \<lparr>leg_source = COORDINATOR, leg_target = nid, leg_url = url, leg_ok = True, leg_ms = None,
      leg_error = None, answered_as = None, pair = False,
      leg_note = Some ''this is the process answering, so nothing was dialled''\<rparr>"

definition unknown_leg :: "string \<Rightarrow> string \<Rightarrow> string \<Rightarrow> string \<Rightarrow> string \<Rightarrow> reach_leg" where
  "unknown_leg source target url why error =
     \<lparr>leg_source = source, leg_target = target, leg_url = url, leg_ok = False, leg_ms = None,
      leg_error = Some error, answered_as = None, pair = True, leg_note = Some why\<rparr>"

definition failed_leg :: "string \<Rightarrow> string \<Rightarrow> string \<Rightarrow> bool \<Rightarrow> string \<Rightarrow> reach_leg" where
  "failed_leg source target url is_pair error =
     \<lparr>leg_source = source, leg_target = target, leg_url = url, leg_ok = False, leg_ms = None,
      leg_error = Some error, answered_as = None, pair = is_pair, leg_note = None\<rparr>"

text \<open>\<open>parse\<close> gives the scheme and the host of an address.\<close>

definition validate_target :: "(string \<Rightarrow> string \<times> string option) \<Rightarrow> string \<Rightarrow> string + string" where
  "validate_target parse url =
     (let (scheme, host) = parse (str_strip url) in
      if scheme \<notin> {''http'', ''https''} then Inl ''Can only dial an http or https address''
      else if host = None \<or> host = Some [] then Inl ''No host''
      else Inr (rstrip_char (CHR ''/'') (str_strip url)))"

text \<open>\<open>reply\<close> is the error of the transport, or the elapsed time and the JSON the far side answered.\<close>

type_synonym transport = "string \<Rightarrow> string + rat \<times> json"

definition said_name :: "py_text \<Rightarrow> json \<Rightarrow> string option" where
  "said_name py payload =
     (case payload of
        JObj d \<Rightarrow> (case dget d ''node_id'' of
            Some v \<Rightarrow> if truth_of v then Some (str_of py v) else None | None \<Rightarrow> None)
      | _ \<Rightarrow> None)"

definition dial ::
  "py_text \<Rightarrow> (string \<Rightarrow> string \<times> string option) \<Rightarrow> transport \<Rightarrow> string \<Rightarrow> string \<Rightarrow> string \<Rightarrow> bool \<Rightarrow> reach_leg" where
  "dial py parse reply source target url is_pair =
     (case validate_target parse url of
        Inl e \<Rightarrow> failed_leg source target url is_pair e
      | Inr base \<Rightarrow>
        (case reply (base @ ''/agent/health'') of
           Inl e \<Rightarrow> failed_leg source target base is_pair e
         | Inr (elapsed, payload) \<Rightarrow>
             \<lparr>leg_source = source, leg_target = target, leg_url = base, leg_ok = True,
              leg_ms = Some (round1 (elapsed * 1000)), leg_error = None,
              answered_as = said_name py payload, pair = is_pair, leg_note = None\<rparr>))"

section \<open>The verdict\<close>

definition directions :: "reach_leg list \<Rightarrow> marg list" where
  "directions legs = concat (map (\<lambda>l. [S (leg_source l), S (leg_target l)]) legs)"

definition summarize :: "reach_leg list \<Rightarrow> bool \<times> msg" where
  "summarize legs =
     (let dialled = filter (\<lambda>l. leg_note l = None) legs;
          failed = filter (\<lambda>l. \<not> leg_ok l) dialled;
          between = filter pair dialled;
          unchecked = filter (\<lambda>l. leg_note l \<noteq> None \<and> \<not> leg_ok l) legs;
          tail = (if unchecked \<noteq> [] then [M (Msg ''could not be checked'' (directions unchecked))] else [])
      in if failed \<noteq> [] then
           if length failed = length dialled \<and> length dialled > 1
           then (False, Msg ''Neither direction answered.'' tail)
           else if length failed = length dialled
           then (False, Msg ''did not answer.'' (directions failed @ tail))
           else (False, Msg ''One-way'' (directions failed @ tail))
         else if between = [] then
           if unchecked \<noteq> []
           then (True, Msg ''No direction between them could be tested.''
                  (tail @ (if dialled \<noteq> [] then [M (Msg ''The coordinator reached both machines'' [])] else [])))
           else (True, Msg ''Both endpoints are this machine; there is nothing to dial.'' [])
         else case between of
             [l] \<Rightarrow> (True, Msg ''answered.'' (directions [l] @ tail))
           | _ \<Rightarrow> (True, Msg ''Reachable both ways.'' (I (int (length between)) # tail)))"

section \<open>The registry's check\<close>

text \<open>\<open>peer source\<close> is what posting to the source's agent returns: its error, or its JSON.\<close>

definition peer_leg ::
  "py_text \<Rightarrow> (string \<Rightarrow> string + json) \<Rightarrow> string \<Rightarrow> string \<Rightarrow> string \<Rightarrow> registry \<Rightarrow> reach_leg result" where
  "peer_leg py peer source target url r =
     (if dget_or (rg_agent_urls r) source [] = []
      then Inr (failed_leg source target url True ''No agent address on file, so it cannot be asked.'')
      else case peer source of
          Inl e \<Rightarrow> Inr (unknown_leg source target url ''could not be asked to dial'' e)
        | Inr (JObj d) \<Rightarrow>
            (let flag = (\<lambda>k. case dget d k of Some v \<Rightarrow> truth_of v | None \<Rightarrow> False);
                 text = (\<lambda>k. case dget d k of Some v \<Rightarrow> if truth_of v then Some (str_of py v) else None | None \<Rightarrow> None)
             in bindR (if flag ''ok'' then (case some_unless_null (dget d ''ms'') of
                         None \<Rightarrow> Inr None | Some v \<Rightarrow> mapR Some (float_of py v)) else Inr None) (\<lambda>ms.
               Inr \<lparr>leg_source = source, leg_target = target,
                 leg_url = (case text ''url'' of Some u \<Rightarrow> u | None \<Rightarrow> url), leg_ok = flag ''ok'', leg_ms = ms,
                 leg_error = text ''error'', answered_as = text ''answered_as'', pair = True, leg_note = None\<rparr>))
        | Inr _ \<Rightarrow> Inr (unknown_leg source target url ''answered with something that was not a probe result.''
                     ''unreadable probe result''))"

definition endpoint_leg ::
  "py_text \<Rightarrow> (string \<Rightarrow> string \<times> string option) \<Rightarrow> transport \<Rightarrow> string \<Rightarrow> string \<Rightarrow> registry \<Rightarrow> reach_leg" where
  "endpoint_leg py parse reply nid other r =
     (let url = dget_or (rg_agent_urls r) nid [];
          is_pair = (Some other = rg_local_node_id r)
      in if Some nid = rg_local_node_id r then self_leg nid url
         else if url = [] then failed_leg COORDINATOR nid [] is_pair ''No agent address on file''
         else dial py parse reply COORDINATOR nid url is_pair)"

definition node_to_node_leg ::
  "py_text \<Rightarrow> (string \<Rightarrow> string + json) \<Rightarrow> string \<Rightarrow> string \<Rightarrow> registry \<Rightarrow> reach_leg result" where
  "node_to_node_leg py peer source target r =
     (let url = dget_or (rg_agent_urls r) target [] in
      if url = [] then Inr (unknown_leg source target [] ''No agent address on file to hand over'' ''no address on file'')
      else peer_leg py peer source target url r)"

definition asked_pairs :: "string \<Rightarrow> string \<Rightarrow> registry \<Rightarrow> (string \<times> string) list" where
  "asked_pairs a b r = filter (\<lambda>(s, t). Some s \<noteq> rg_local_node_id r \<and> s \<noteq> t) [(a, b), (b, a)]"

definition check_reach ::
  "py_text \<Rightarrow> (string \<Rightarrow> string \<times> string option) \<Rightarrow> transport \<Rightarrow> (string \<Rightarrow> string \<Rightarrow> string + json)
    \<Rightarrow> string \<Rightarrow> string \<Rightarrow> registry \<Rightarrow> (bool \<times> msg \<times> reach_leg list) outcome" where
  "check_reach py parse reply peer a b r =
     (if dget (rg_members r) a = None then Inl (NodeNotFound a)
      else if dget (rg_members r) b = None then Inl (NodeNotFound b)
      else
        let ends = [endpoint_leg py parse reply a b r, endpoint_leg py parse reply b a r];
            asked = asked_pairs a b r
        in raised (mapR (\<lambda>far. let legs = ends @ far; (ok, sentence) = summarize legs in (ok, sentence, legs))
             (traverse (\<lambda>(s, t). node_to_node_leg py (peer s) s t r) asked)))"

section \<open>What the verdict means\<close>

lemma summarize_ok: "fst (summarize legs) \<longleftrightarrow> (\<forall>l \<in> set legs. leg_note l = None \<longrightarrow> leg_ok l)"
  by (auto simp: summarize_def Let_def filter_empty_conv split: list.splits)

text \<open>``Both ways'' is said only when at least two legs between the nodes were dialled, and all answered.\<close>

lemma both_ways_dialled:
  assumes "summarize legs = (ok, m)" and "msg_tag m = ''Reachable both ways.''"
  shows "ok \<and> 2 \<le> length (filter (\<lambda>l. pair l \<and> leg_note l = None \<and> leg_ok l) legs)"
proof -
  let ?between = "filter pair (filter (\<lambda>l. leg_note l = None) legs)"
  have ok: "\<forall>l \<in> set legs. leg_note l = None \<longrightarrow> leg_ok l" and len: "2 \<le> length ?between"
    using assms by (auto simp: summarize_def Let_def filter_empty_conv split: if_splits list.splits)
  have "?between = filter (\<lambda>l. pair l \<and> leg_note l = None \<and> leg_ok l) legs"
    using ok by (auto simp: intro!: filter_cong)
  then show ?thesis using len summarize_ok [of legs] ok assms(1) by simp
qed

lemma endpoint_pair:
  "pair (endpoint_leg py parse reply nid other r) \<Longrightarrow>
   Some other = rg_local_node_id r \<and> Some nid \<noteq> rg_local_node_id r"
  by (auto simp: endpoint_leg_def self_leg_def failed_leg_def dial_def Let_def split: if_splits sum.splits)

lemma node_to_node_direction:
  "node_to_node_leg py peer s t r = Inr l \<Longrightarrow> leg_source l = s \<and> leg_target l = t"
  by (auto simp: node_to_node_leg_def peer_leg_def unknown_leg_def failed_leg_def Let_def bindR_eq_Inr
      split: if_splits sum.splits json.splits)

lemma endpoint_target: "leg_target (endpoint_leg py parse reply nid other r) = nid"
  by (simp add: endpoint_leg_def self_leg_def failed_leg_def dial_def Let_def split: sum.split prod.split)

definition good :: "reach_leg \<Rightarrow> bool" where
  "good l \<longleftrightarrow> pair l \<and> leg_note l = None \<and> leg_ok l"

lemma good_endpoint:
  "good (endpoint_leg py parse reply nid other r) \<Longrightarrow>
   Some other = rg_local_node_id r \<and> Some nid \<noteq> rg_local_node_id r"
  unfolding good_def by (elim conjE) (rule endpoint_pair)

lemma raised_eq_Inr [simp]: "raised x = Inr y \<longleftrightarrow> x = Inr y"
  by (cases x) auto

lemma check_reach_legs:
  assumes "check_reach py parse reply peer a b r = Inr (ok, m, legs)"
  shows "\<exists>far. traverse (\<lambda>(s, t). node_to_node_leg py (peer s) s t r) (asked_pairs a b r) = Inr far
    \<and> legs = [endpoint_leg py parse reply a b r, endpoint_leg py parse reply b a r] @ far
    \<and> summarize legs = (ok, m)"
  using assms by (auto simp: check_reach_def Let_def mapR_eq_Inr case_prod_beta prod_eq_iff split: if_splits)

text \<open>``reachable both ways'' is never said of a direction nobody tested. When a check of two
  different members gives that verdict, a leg between them that was dialled and answered ends at the
  one, and another ends at the other.\<close>

theorem both_ways_means_both:
  assumes "check_reach py parse reply peer a b r = Inr (ok, m, legs)"
    and "msg_tag m = ''Reachable both ways.''" and "a \<noteq> b"
  shows "(\<exists>l \<in> set legs. good l \<and> leg_target l = a) \<and> (\<exists>l \<in> set legs. good l \<and> leg_target l = b)"
proof -
  define ea where "ea = endpoint_leg py parse reply a b r"
  define eb where "eb = endpoint_leg py parse reply b a r"
  obtain far where far: "traverse (\<lambda>(s, t). node_to_node_leg py (peer s) s t r) (asked_pairs a b r) = Inr far"
      and legs: "legs = [ea, eb] @ far" and verdict: "summarize legs = (ok, m)"
    unfolding ea_def eb_def using check_reach_legs [OF assms(1)] by blast
  have two: "2 \<le> length (filter good legs)"
    using both_ways_dialled [OF verdict assms(2)] by (simp add: good_def [abs_def])
  have ends: "leg_target ea = a" "leg_target eb = b" by (simp_all add: ea_def eb_def endpoint_target)
  have good_ends: "good ea \<Longrightarrow> Some b = rg_local_node_id r" "good eb \<Longrightarrow> Some a = rg_local_node_id r"
    unfolding ea_def eb_def by (auto dest: good_endpoint)
  consider "Some a = rg_local_node_id r" "Some b \<noteq> rg_local_node_id r"
    | "Some a \<noteq> rg_local_node_id r" "Some b = rg_local_node_id r"
    | "Some a \<noteq> rg_local_node_id r" "Some b \<noteq> rg_local_node_id r"
    using assms(3) by (metis option.inject)
  then show ?thesis
  proof cases
    case 1
    then have "asked_pairs a b r = [(b, a)]" using assms(3) by (auto simp: asked_pairs_def)
    then obtain v where "far = [v]" "leg_target v = a"
      using far node_to_node_direction by (fastforce simp: bindR_eq_Inr mapR_eq_Inr)
    then show ?thesis using two legs ends good_ends 1 by (auto split: if_splits)
  next
    case 2
    then have "asked_pairs a b r = [(a, b)]" using assms(3) by (auto simp: asked_pairs_def)
    then obtain u where "far = [u]" "leg_target u = b"
      using far node_to_node_direction by (fastforce simp: bindR_eq_Inr mapR_eq_Inr)
    then show ?thesis using two legs ends good_ends 2 by (auto split: if_splits)
  next
    case 3
    then have "asked_pairs a b r = [(a, b), (b, a)]" using assms(3) by (auto simp: asked_pairs_def)
    then obtain u v where "far = [u, v]" "leg_target u = b" "leg_target v = a"
      using far node_to_node_direction by (fastforce simp: bindR_eq_Inr mapR_eq_Inr)
    then show ?thesis using two legs ends good_ends 3 by (auto split: if_splits)
  qed
qed

theorem both_ways_means_both_witness:
  "\<exists>legs. check_reach plain_text (\<lambda>u. (''http'', Some ''h'')) (\<lambda>u. Inr (1 / 100, JObj []))
      (\<lambda>s u. Inr (JObj [(''ok'', JBool True)])) ''a'' ''b'' small_cluster
      = Inr (True, Msg ''Reachable both ways.'' [I 2], legs)
    \<and> (\<exists>l \<in> set legs. good l \<and> leg_target l = ''a'') \<and> (\<exists>l \<in> set legs. good l \<and> leg_target l = ''b'')"
proof -
  have "(case check_reach plain_text (\<lambda>u. (''http'', Some ''h'')) (\<lambda>u. Inr (1 / 100, JObj []))
      (\<lambda>s u. Inr (JObj [(''ok'', JBool True)])) ''a'' ''b'' small_cluster of
        Inr (ok, m, legs) \<Rightarrow> ok \<and> m = Msg ''Reachable both ways.'' [I 2] | Inl e \<Rightarrow> False)"
    by code_simp
  then obtain legs where c: "check_reach plain_text (\<lambda>u. (''http'', Some ''h'')) (\<lambda>u. Inr (1 / 100, JObj []))
      (\<lambda>s u. Inr (JObj [(''ok'', JBool True)])) ''a'' ''b'' small_cluster
      = Inr (True, Msg ''Reachable both ways.'' [I 2], legs)"
    by (auto split: sum.splits)
  from both_ways_means_both [OF c] show ?thesis using c by simp
qed

end
