(* ===== verification/Deploy_Codec.thy ===== *)
theory Deploy_Codec
  imports Contracts Json
begin

text \<open>
  The on-disk form of a deployment, \<open>encode\<close> and \<open>decode\<close> of \<open>control_plane/deploy/store.py\<close>.

  Prose is a \<open>msg\<close>, so what the file holds for a sentence is its tag and values. The dataclass
  constructors do not look at the types of what they are given; a field whose JSON value is not of
  the annotated type has no counterpart in a typed record and is an error here. The order of keys in
  a JSON object, which \<open>sort_keys\<close> fixes in the text of the file, is not modelled.
\<close>

section \<open>Sentences\<close>

primrec msg_json :: "msg \<Rightarrow> json" and marg_json :: "marg \<Rightarrow> json" where
  "msg_json (Msg t args) = JList (JStr t # map marg_json args)"
| "marg_json (I n) = JInt n"
| "marg_json (F x) = JNum x"
| "marg_json (S s) = JStr s"
| "marg_json (M m) = msg_json m"

lemma traverse_cong [fundef_cong]:
  "xs = ys \<Longrightarrow> (\<And>x. x \<in> set ys \<Longrightarrow> f x = g x) \<Longrightarrow> traverse f xs = traverse g ys"
  by (induction ys arbitrary: xs) auto

fun json_msg :: "json \<Rightarrow> msg result" and json_marg :: "json \<Rightarrow> marg result" where
  "json_msg (JList (JStr t # args)) = mapR (Msg t) (traverse json_marg args)"
| "json_msg _ = Inl (TypeError ''sentence'')"
| "json_marg (JInt n) = Inr (I n)"
| "json_marg (JNum x) = Inr (F x)"
| "json_marg (JStr s) = Inr (S s)"
| "json_marg (JList xs) = mapR M (json_msg (JList xs))"
| "json_marg _ = Inl (TypeError ''sentence'')"

lemma traverse_map: "(\<And>x. x \<in> set xs \<Longrightarrow> f (g x) = Inr x) \<Longrightarrow> traverse f (map g xs) = Inr xs"
  by (induction xs) simp_all

lemma msg_round_trip [simp]: "json_msg (msg_json m) = Inr m" and "json_marg (marg_json a) = Inr a"
proof (induction m and a)
  case (Msg t args)
  then show ?case by (simp add: traverse_map)
next
  case (M m)
  then show ?case by (cases m) simp
qed simp_all

section \<open>Reading a field\<close>

fun as_int :: "json \<Rightarrow> int result" where
  "as_int (JInt n) = Inr n" | "as_int _ = Inl (TypeError ''int'')"

fun as_num :: "json \<Rightarrow> rat result" where
  "as_num (JNum x) = Inr x" | "as_num (JInt n) = Inr (of_int n)" | "as_num _ = Inl (TypeError ''float'')"

fun as_str :: "json \<Rightarrow> string result" where
  "as_str (JStr s) = Inr s" | "as_str _ = Inl (TypeError ''str'')"

fun as_bool :: "json \<Rightarrow> bool result" where
  "as_bool (JBool b) = Inr b" | "as_bool _ = Inl (TypeError ''bool'')"

fun as_opt :: "(json \<Rightarrow> 'a result) \<Rightarrow> json \<Rightarrow> 'a option result" where
  "as_opt f JNull = Inr None" | "as_opt f j = mapR Some (f j)"

fun as_list :: "(json \<Rightarrow> 'a result) \<Rightarrow> json \<Rightarrow> 'a list result" where
  "as_list f (JList xs) = traverse f xs" | "as_list f _ = Inl (TypeError ''list'')"

fun as_obj :: "json \<Rightarrow> json_object result" where
  "as_obj (JObj d) = Inr d" | "as_obj _ = Inl (TypeError ''dict'')"

text \<open>\<open>Class(**d)\<close>: an unexpected keyword raises, then each field is taken or has its default.\<close>

definition only_keys :: "string list \<Rightarrow> json_object \<Rightarrow> unit result" where
  "only_keys ks d =
     (if list_all (\<lambda>k. k \<in> set ks) (dkeys d) then Inr () else Inl (TypeError ''unexpected keyword argument''))"

definition need :: "json_object \<Rightarrow> string \<Rightarrow> (json \<Rightarrow> 'a result) \<Rightarrow> 'a result" where
  "need d k f = (case dget d k of Some v \<Rightarrow> f v | None \<Rightarrow> Inl (TypeError ''missing argument''))"

definition take_or :: "json_object \<Rightarrow> string \<Rightarrow> (json \<Rightarrow> 'a result) \<Rightarrow> 'a \<Rightarrow> 'a result" where
  "take_or d k f v = (case dget d k of Some j \<Rightarrow> f j | None \<Rightarrow> Inr v)"

lemma need_simps [simp]:
  "need ((k, v) # d) k f = f v" "k \<noteq> k' \<Longrightarrow> need ((k', v) # d) k f = need d k f"
  by (simp_all add: need_def)

lemma take_or_simps [simp]:
  "take_or ((k, v) # d) k f x = f v" "k \<noteq> k' \<Longrightarrow> take_or ((k', v) # d) k f x = take_or d k f x"
  "take_or [] k f x = Inr x"
  by (simp_all add: take_or_def)

lemma as_opt_jopt:
  "(\<And>x. f (g x) = Inr x) \<Longrightarrow> (\<And>x. g x \<noteq> JNull) \<Longrightarrow> as_opt f (jopt g v) = Inr v"
proof (cases v)
  case (Some x)
  assume "\<And>x. f (g x) = Inr x" and "\<And>x. g x \<noteq> JNull"
  then show ?thesis using Some by (cases "g x") (metis as_opt.simps jopt_simps(2) mapR.simps(2))+
qed simp

lemma as_opt_jopt_simps [simp]:
  "as_opt as_int (jopt JInt v) = Inr v" "as_opt as_num (jopt JNum w) = Inr w" "as_opt as_str (jopt JStr s) = Inr s"
  by (rule as_opt_jopt; simp)+

lemma traverse_round_trips [simp]:
  "traverse as_str (map JStr ss) = Inr ss" "traverse json_msg (map msg_json ms) = Inr ms"
  by (simp_all add: traverse_map)

section \<open>Enumerations\<close>

definition kind_value :: "parallelism_kind \<Rightarrow> string" where
  "kind_value k = (case k of SINGLE_NODE \<Rightarrow> ''single_node'' | TENSOR \<Rightarrow> ''tensor'' | PIPELINE \<Rightarrow> ''pipeline''
     | EXPERT \<Rightarrow> ''expert'' | HYBRID \<Rightarrow> ''hybrid'')"

definition verdict_value :: "verdict \<Rightarrow> string" where
  "verdict_value v = (case v of FITS \<Rightarrow> ''fits'' | FITS_DEGRADED \<Rightarrow> ''fits_degraded'' | WONT_FIT \<Rightarrow> ''wont_fit'')"

definition modality_value :: "modality \<Rightarrow> string" where
  "modality_value m = (case m of TEXT \<Rightarrow> ''text'' | EMBEDDING \<Rightarrow> ''embedding'' | SPEECH \<Rightarrow> ''speech''
     | TRANSCRIPTION \<Rightarrow> ''transcription'')"

definition limiting_value :: "limiting_term \<Rightarrow> string" where
  "limiting_value t = (case t of Lim_weights \<Rightarrow> ''weights'' | Lim_kv_cache \<Rightarrow> ''kv_cache''
     | Lim_bandwidth \<Rightarrow> ''bandwidth'' | Lim_combined \<Rightarrow> ''combined'' | Lim_context \<Rightarrow> ''context''
     | Lim_none \<Rightarrow> ''none'')"

definition basis_value :: "budget_basis \<Rightarrow> string" where
  "basis_value b = (case b of Static \<Rightarrow> ''static'' | Live \<Rightarrow> ''live'')"

text \<open>\<open>Enum(value)\<close> raises on a value that names no member.\<close>

definition enum_of :: "('a \<Rightarrow> string) \<Rightarrow> 'a list \<Rightarrow> json \<Rightarrow> 'a result" where
  "enum_of val members j =
     bindR (as_str j) (\<lambda>s. case find (\<lambda>m. val m = s) members of
       Some m \<Rightarrow> Inr m | None \<Rightarrow> Inl (ValueError ''not a valid member''))"

definition all_kinds :: "parallelism_kind list" where
  "all_kinds = [SINGLE_NODE, TENSOR, PIPELINE, EXPERT, HYBRID]"
definition all_verdicts :: "verdict list" where "all_verdicts = [FITS, FITS_DEGRADED, WONT_FIT]"
definition all_modalities :: "modality list" where
  "all_modalities = [TEXT, EMBEDDING, SPEECH, TRANSCRIPTION]"
definition all_limits :: "limiting_term list" where
  "all_limits = [Lim_weights, Lim_kv_cache, Lim_bandwidth, Lim_combined, Lim_context, Lim_none]"

lemma kind_round_trip [simp]: "enum_of kind_value all_kinds (JStr (kind_value k)) = Inr k"
  by (cases k) (simp_all add: enum_of_def kind_value_def all_kinds_def)

lemma verdict_round_trip [simp]: "enum_of verdict_value all_verdicts (JStr (verdict_value v)) = Inr v"
  by (cases v) (simp_all add: enum_of_def verdict_value_def all_verdicts_def)

lemma modality_round_trip [simp]: "enum_of modality_value all_modalities (JStr (modality_value m)) = Inr m"
  by (cases m) (simp_all add: enum_of_def modality_value_def all_modalities_def)

lemma limit_round_trip [simp]: "enum_of limiting_value all_limits (JStr (limiting_value t)) = Inr t"
  by (cases t) (simp_all add: enum_of_def limiting_value_def all_limits_def)

lemma basis_round_trip [simp]: "enum_of basis_value [Static, Live] (JStr (basis_value b)) = Inr b"
  by (cases b) (simp_all add: enum_of_def basis_value_def)

lemma state_round_trip [simp]: "enum_of state_value all_states (JStr (state_value st)) = Inr st"
  by (cases st) (simp_all add: enum_of_def all_states_def)

section \<open>The records\<close>

definition shape_json :: "model_shape \<Rightarrow> json" where
  "shape_json s = JObj
     [(''model_id'', JStr (model_id s)), (''num_layers'', JInt (num_layers s)),
      (''hidden_size'', JInt (hidden_size s)), (''num_attention_heads'', JInt (num_attention_heads s)),
      (''num_kv_heads'', JInt (num_kv_heads s)), (''vocab_size'', JInt (vocab_size s)),
      (''total_params'', JInt (total_params s)), (''dtype'', JStr (dtype s)),
      (''head_dim'', jopt JInt (head_dim s)), (''num_experts'', JInt (num_experts s)),
      (''num_experts_per_token'', JInt (num_experts_per_token s)),
      (''active_params'', jopt JInt (active_params s)), (''sliding_window'', jopt JInt (sliding_window s)),
      (''layers_with_full_attention'', jopt JInt (layers_with_full_attention s)),
      (''mla_latent_dim'', jopt JInt (mla_latent_dim s)), (''mla_rope_dim'', jopt JInt (mla_rope_dim s)),
      (''vision_params'', JInt (vision_params s)), (''is_encoder_decoder'', JBool (is_encoder_decoder s))]"

definition shape_keys :: "string list" where
  "shape_keys = [''model_id'', ''num_layers'', ''hidden_size'', ''num_attention_heads'', ''num_kv_heads'',
     ''vocab_size'', ''total_params'', ''dtype'', ''head_dim'', ''num_experts'', ''num_experts_per_token'',
     ''active_params'', ''sliding_window'', ''layers_with_full_attention'', ''mla_latent_dim'',
     ''mla_rope_dim'', ''vision_params'', ''is_encoder_decoder'']"

definition shape_of_json :: "json \<Rightarrow> model_shape result" where
  "shape_of_json j =
     bindR (as_obj j) (\<lambda>d. bindR (only_keys shape_keys d) (\<lambda>_.
     bindR (need d ''model_id'' as_str) (\<lambda>mid. bindR (need d ''num_layers'' as_int) (\<lambda>layers.
     bindR (need d ''hidden_size'' as_int) (\<lambda>hidden. bindR (need d ''num_attention_heads'' as_int) (\<lambda>heads.
     bindR (need d ''num_kv_heads'' as_int) (\<lambda>kvheads. bindR (need d ''vocab_size'' as_int) (\<lambda>vocab.
     bindR (need d ''total_params'' as_int) (\<lambda>params. bindR (need d ''dtype'' as_str) (\<lambda>dt.
     bindR (take_or d ''head_dim'' (as_opt as_int) None) (\<lambda>hd.
     bindR (take_or d ''num_experts'' as_int 0) (\<lambda>experts.
     bindR (take_or d ''num_experts_per_token'' as_int 0) (\<lambda>ept.
     bindR (take_or d ''active_params'' (as_opt as_int) None) (\<lambda>active.
     bindR (take_or d ''sliding_window'' (as_opt as_int) None) (\<lambda>window.
     bindR (take_or d ''layers_with_full_attention'' (as_opt as_int) None) (\<lambda>lfull.
     bindR (take_or d ''mla_latent_dim'' (as_opt as_int) None) (\<lambda>latent.
     bindR (take_or d ''mla_rope_dim'' (as_opt as_int) None) (\<lambda>rope.
     bindR (take_or d ''vision_params'' as_int 0) (\<lambda>vision.
     bindR (take_or d ''is_encoder_decoder'' as_bool False) (\<lambda>encdec.
       Inr \<lparr>model_id = mid, num_layers = layers, hidden_size = hidden, num_attention_heads = heads,
            num_kv_heads = kvheads, vocab_size = vocab, total_params = params, dtype = dt, head_dim = hd,
            num_experts = experts, num_experts_per_token = ept, active_params = active,
            sliding_window = window, layers_with_full_attention = lfull, mla_latent_dim = latent,
            mla_rope_dim = rope, vision_params = vision, is_encoder_decoder = encdec\<rparr>))))))))))))))))))))"

definition plan_json :: "parallelism_plan \<Rightarrow> json" where
  "plan_json p = JObj
     [(''kind'', JStr (kind_value (kind p))), (''tensor_parallel'', JInt (tensor_parallel p)),
      (''pipeline_parallel'', JInt (pipeline_parallel p)), (''expert_parallel'', JInt (expert_parallel p)),
      (''data_parallel'', JInt (data_parallel p)), (''node_ids'', JList (map JStr (node_ids p))),
      (''reason'', JList (map msg_json (plan_reason p))), (''measured_link_gbps'', JNum (measured_link_gbps p)),
      (''rejected'', JList (map msg_json (rejected p)))]"

definition plan_keys :: "string list" where
  "plan_keys = [''kind'', ''tensor_parallel'', ''pipeline_parallel'', ''expert_parallel'', ''data_parallel'',
     ''node_ids'', ''reason'', ''measured_link_gbps'', ''rejected'']"

text \<open>The derived \<open>world_size\<close>, \<open>ok\<close> and \<open>total\<close> are dropped when a record carries them.\<close>

definition plan_of_json :: "json \<Rightarrow> parallelism_plan result" where
  "plan_of_json j =
     bindR (as_obj j) (\<lambda>d. let d = dpop ''world_size'' d in
     bindR (only_keys plan_keys d) (\<lambda>_.
     bindR (bindR (item d ''kind'') (enum_of kind_value all_kinds)) (\<lambda>k.
     bindR (need d ''tensor_parallel'' as_int) (\<lambda>tp. bindR (need d ''pipeline_parallel'' as_int) (\<lambda>pp.
     bindR (need d ''expert_parallel'' as_int) (\<lambda>ep. bindR (need d ''data_parallel'' as_int) (\<lambda>dp.
     bindR (need d ''node_ids'' (as_list as_str)) (\<lambda>nodes.
     bindR (need d ''reason'' (as_list json_msg)) (\<lambda>reason.
     bindR (need d ''measured_link_gbps'' as_num) (\<lambda>link.
     bindR (need d ''rejected'' (as_list json_msg)) (\<lambda>rej.
       Inr \<lparr>kind = k, tensor_parallel = tp, pipeline_parallel = pp, expert_parallel = ep, data_parallel = dp,
            node_ids = nodes, plan_reason = reason, measured_link_gbps = link, rejected = rej\<rparr>)))))))))))"

definition breakdown_json :: "memory_breakdown \<Rightarrow> json" where
  "breakdown_json b = JObj
     [(''weights'', JInt (mb_weights b)), (''kv_cache'', JInt (mb_kv_cache b)),
      (''activations'', JInt (mb_activations b)), (''comm_buffers'', JInt (mb_comm_buffers b)),
      (''replicated'', JInt (mb_replicated b)), (''framework_overhead'', JInt (mb_framework_overhead b))]"

definition breakdown_of_json :: "json \<Rightarrow> memory_breakdown result" where
  "breakdown_of_json j =
     bindR (as_obj j) (\<lambda>d. let d = dpop ''total'' d in
     bindR (only_keys [''weights'', ''kv_cache'', ''activations'', ''comm_buffers'', ''replicated'',
       ''framework_overhead''] d) (\<lambda>_.
     bindR (need d ''weights'' as_int) (\<lambda>w. bindR (need d ''kv_cache'' as_int) (\<lambda>kv.
     bindR (need d ''activations'' as_int) (\<lambda>act. bindR (need d ''comm_buffers'' as_int) (\<lambda>comm.
     bindR (need d ''replicated'' as_int) (\<lambda>repl. bindR (need d ''framework_overhead'' as_int) (\<lambda>fw.
       Inr \<lparr>mb_weights = w, mb_kv_cache = kv, mb_activations = act, mb_comm_buffers = comm,
            mb_replicated = repl, mb_framework_overhead = fw\<rparr>))))))))"

definition fit_json :: "fit_result \<Rightarrow> json" where
  "fit_json f = JObj
     [(''verdict'', JStr (verdict_value (fr_verdict f))), (''breakdown'', breakdown_json (fr_breakdown f)),
      (''usable_per_node'', JInt (usable_per_node f)), (''headroom'', JInt (headroom f)),
      (''reason'', msg_json (fr_reason f)), (''limiting_term'', JStr (limiting_value (limiting_term f))),
      (''max_context_that_fits'', jopt JInt (max_context_that_fits f)),
      (''predicted_decode_tps'', jopt JNum (predicted_decode_tps f)),
      (''warnings'', JList (map msg_json (fr_warnings f))),
      (''budget_basis'', JStr (basis_value (fr_budget_basis f)))]"

definition fit_of_json :: "json \<Rightarrow> fit_result result" where
  "fit_of_json j =
     bindR (as_obj j) (\<lambda>d. let d = dpop ''ok'' d in
     bindR (only_keys [''verdict'', ''breakdown'', ''usable_per_node'', ''headroom'', ''reason'',
       ''limiting_term'', ''max_context_that_fits'', ''predicted_decode_tps'', ''warnings'', ''budget_basis''] d) (\<lambda>_.
     bindR (bindR (item d ''breakdown'') breakdown_of_json) (\<lambda>b.
     bindR (bindR (item d ''verdict'') (enum_of verdict_value all_verdicts)) (\<lambda>v.
     bindR (need d ''usable_per_node'' as_int) (\<lambda>usable. bindR (need d ''headroom'' as_int) (\<lambda>room.
     bindR (need d ''reason'' json_msg) (\<lambda>reason.
     bindR (need d ''limiting_term'' (enum_of limiting_value all_limits)) (\<lambda>lim.
     bindR (need d ''max_context_that_fits'' (as_opt as_int)) (\<lambda>ctx.
     bindR (need d ''predicted_decode_tps'' (as_opt as_num)) (\<lambda>tps.
     bindR (take_or d ''warnings'' (as_list json_msg) []) (\<lambda>warns.
     bindR (take_or d ''budget_basis'' (enum_of basis_value [Static, Live]) Static) (\<lambda>basis.
       Inr \<lparr>fr_verdict = v, fr_breakdown = b, usable_per_node = usable, headroom = room, fr_reason = reason,
            limiting_term = lim, max_context_that_fits = ctx, predicted_decode_tps = tps,
            fr_warnings = warns, fr_budget_basis = basis\<rparr>))))))))))))"

text \<open>A stub deployment without a plan or a verdict cannot be written: \<open>asdict(None)\<close> raises.\<close>

definition encode :: "deployment \<Rightarrow> json result" where
  "encode d =
     (case (dep_plan d, dep_fit d) of
        (Some p, Some f) \<Rightarrow> Inr (JObj
          [(''deployment_id'', JStr (deployment_id d)), (''served_name'', JStr (served_name d)),
           (''shape'', shape_json (dep_shape d)), (''plan'', plan_json p), (''fit'', fit_json f),
           (''runtime'', JStr (runtime d)), (''state'', JStr (state_value (dep_state d))),
           (''backend_url'', jopt JStr (backend_url d)), (''context_length'', JInt (dep_context_length d)),
           (''max_concurrent_seqs'', JInt (dep_max_concurrent_seqs d)),
           (''started_at'', jopt JNum (started_at d)), (''last_error'', jopt JStr (dep_last_error d)),
           (''modality'', JStr (modality_value (dep_modality d))),
           (''extra_args'', JList (map JStr (extra_args d))),
           (''custom_command'', JList (map JStr (custom_command d)))])
      | _ \<Rightarrow> Inl (TypeError ''asdict() should be called on dataclass instances''))"

definition field :: "json_object \<Rightarrow> string \<Rightarrow> (json \<Rightarrow> 'a result) \<Rightarrow> 'a result" where
  "field d k f = bindR (item d k) f"

lemma field_simps [simp]:
  "field ((k, v) # d) k f = f v" "k \<noteq> k' \<Longrightarrow> field ((k', v) # d) k f = field d k f"
  by (simp_all add: field_def item_def)

definition decode :: "json \<Rightarrow> deployment result" where
  "decode j =
     bindR (as_obj j) (\<lambda>d.
     bindR (field d ''plan'' plan_of_json) (\<lambda>p. bindR (field d ''fit'' fit_of_json) (\<lambda>f.
     bindR (field d ''deployment_id'' as_str) (\<lambda>did. bindR (field d ''served_name'' as_str) (\<lambda>name.
     bindR (field d ''shape'' shape_of_json) (\<lambda>s. bindR (field d ''runtime'' as_str) (\<lambda>rt.
     bindR (field d ''state'' (enum_of state_value all_states)) (\<lambda>st.
     bindR (field d ''backend_url'' (as_opt as_str)) (\<lambda>url.
     bindR (field d ''context_length'' as_int) (\<lambda>ctx. bindR (field d ''max_concurrent_seqs'' as_int) (\<lambda>seqs.
     bindR (field d ''started_at'' (as_opt as_num)) (\<lambda>started.
     bindR (field d ''last_error'' (as_opt as_str)) (\<lambda>err.
     bindR (take_or d ''modality'' (enum_of modality_value all_modalities) TEXT) (\<lambda>modality.
     bindR (take_or d ''extra_args'' (as_list as_str) []) (\<lambda>extra.
     bindR (take_or d ''custom_command'' (as_list as_str) []) (\<lambda>custom.
       Inr \<lparr>deployment_id = did, served_name = name, dep_shape = s, dep_plan = Some p, dep_fit = Some f,
            runtime = rt, dep_state = st, backend_url = url, dep_context_length = ctx,
            dep_max_concurrent_seqs = seqs, started_at = started, dep_last_error = err,
            dep_modality = modality, extra_args = extra, custom_command = custom\<rparr>))))))))))))))))"

section \<open>Round trips\<close>

lemma shape_round_trip [simp]: "shape_of_json (shape_json s) = Inr s"
  by (simp add: shape_of_json_def shape_json_def only_keys_def shape_keys_def)

lemma plan_round_trip [simp]: "plan_of_json (plan_json p) = Inr p"
  by (simp add: plan_of_json_def plan_json_def only_keys_def plan_keys_def item_def Let_def)

lemma breakdown_round_trip [simp]: "breakdown_of_json (breakdown_json b) = Inr b"
  by (simp add: breakdown_of_json_def breakdown_json_def only_keys_def Let_def)

lemma fit_round_trip [simp]: "fit_of_json (fit_json f) = Inr f"
  by (simp add: fit_of_json_def fit_json_def only_keys_def item_def Let_def)

lemma deployment_round_trip: "encode d = Inr j \<Longrightarrow> decode j = Inr d"
  by (auto simp: encode_def decode_def split: option.splits)

text \<open>A record written before the modality and the caller's arguments existed.\<close>

definition drop_keys :: "string list \<Rightarrow> json \<Rightarrow> json" where
  "drop_keys ks j = (case j of JObj d \<Rightarrow> JObj (filter (\<lambda>p. fst p \<notin> set ks) d) | _ \<Rightarrow> j)"

lemma old_schema_loads:
  "encode d = Inr j \<Longrightarrow> decode (drop_keys [''modality'', ''extra_args'', ''custom_command''] j)
     = Inr (d\<lparr>dep_modality := TEXT, extra_args := [], custom_command := []\<rparr>)"
  by (auto simp: encode_def decode_def drop_keys_def split: option.splits)

end
