(* ===== verification/Deploy_Store.thy ===== *)
theory Deploy_Store
  imports Deploy_Codec
begin

text \<open>
  Deployment records on disk, \<open>DeploymentStore\<close> of \<open>control_plane/deploy/store.py\<close>: the directory is
  a dictionary from file name to modification time and content. A write replaces a file in one step
  or raises and leaves it; \<open>save_killed\<close> is a process that dies between writing the temporary file
  and renaming it. Identifiers in a record are text.
\<close>

section \<open>File names\<close>

text \<open>\<open>str.isalnum\<close> among the first 256 code points.\<close>

definition py_isalnum :: "char \<Rightarrow> bool" where
  "py_isalnum c \<longleftrightarrow> is_alnum c \<or>
     (let n = (of_char c :: nat) in n \<in> {170, 178, 179, 181, 185, 186, 188, 189, 190}
        \<or> 192 \<le> n \<and> n \<noteq> 215 \<and> n \<noteq> 247)"

definition record_path :: "string \<Rightarrow> string result" where
  "record_path did =
     (let safe = filter (\<lambda>c. py_isalnum c \<or> c = CHR ''-'' \<or> c = CHR ''_'') did in
      if safe = [] then Inl (ValueError ''unusable deployment_id'') else Inr (safe @ ''.json''))"

section \<open>Writing\<close>

type_synonym store = "(string, rat \<times> json_file) dict"

definition SCHEMA_VERSION :: int where "SCHEMA_VERSION = 2"

definition payload_of :: "json \<Rightarrow> json_object \<Rightarrow> json" where
  "payload_of j handle =
     JObj [(''schema'', JInt SCHEMA_VERSION), (''deployment'', j), (''handle'', JObj handle)]"

text \<open>\<open>disk\<close> says whether the write succeeds.\<close>

definition save_record ::
  "rat \<Rightarrow> bool \<Rightarrow> deployment \<Rightarrow> json_object \<Rightarrow> store \<Rightarrow> string option result \<times> store" where
  "save_record now disk d handle st =
     (if dep_state d \<notin> set PERSISTED then (Inr None, st)
      else case record_path (deployment_id d) of
          Inl e \<Rightarrow> (Inl e, st)
        | Inr path \<Rightarrow>
          (case encode d of
             Inl e \<Rightarrow> (Inl e, st)
           | Inr j \<Rightarrow>
             if \<not> disk then (Inl (OSError ''write''), st)
             else (Inr (Some path), dset path (now, Holds (payload_of j handle)) st)))"

definition save_killed :: "string \<Rightarrow> rat \<Rightarrow> json \<Rightarrow> json_object \<Rightarrow> store \<Rightarrow> store" where
  "save_killed tmp now j handle st = dset tmp (now, Holds (payload_of j handle)) st"

definition delete_record :: "string \<Rightarrow> store \<Rightarrow> unit result \<times> store" where
  "delete_record did st =
     (case record_path did of Inl e \<Rightarrow> (Inl e, st) | Inr path \<Rightarrow> (Inr (), dpop path st))"

section \<open>Reading\<close>

definition read_record :: "json_file \<Rightarrow> (deployment \<times> json_object) option" where
  "read_record f =
     (case f of
        Holds (JObj p) \<Rightarrow>
          (case bindR (item p ''deployment'') decode of
             Inr d \<Rightarrow> (case dget p ''handle'' of
                 None \<Rightarrow> Some (d, [])
               | Some (JObj h) \<Rightarrow> Some (d, h)
               | Some j \<Rightarrow> if truth_of j then None else Some (d, []))
           | Inl e \<Rightarrow> None)
      | _ \<Rightarrow> None)"

definition record_at :: "store \<Rightarrow> string \<Rightarrow> (deployment \<times> json_object) option" where
  "record_at st n = (case dget st n of Some (t, f) \<Rightarrow> read_record f | None \<Rightarrow> None)"

definition load_all :: "store \<Rightarrow> (deployment \<times> json_object) list" where
  "load_all st = List.map_filter (record_at st) (sort (dkeys st))"

section \<open>Sweeping\<close>

definition TERMINAL_RETENTION_S :: rat where "TERMINAL_RETENTION_S = 6 * 3600"
definition TERMINAL_RECORDS_KEPT :: nat where "TERMINAL_RECORDS_KEPT = 200"

text \<open>The state and the identifier of a record that can be evaluated.\<close>

definition gc_row :: "json_file \<Rightarrow> (deployment_state \<times> string) option" where
  "gc_row f =
     (case f of
        Holds (JObj p) \<Rightarrow>
          (case dget p ''deployment'' of
             Some (JObj d) \<Rightarrow>
               (case (bindR (item d ''state'') (enum_of state_value all_states), dget d ''deployment_id'') of
                  (Inr s, Some (JStr i)) \<Rightarrow> Some (s, i)
                | _ \<Rightarrow> None)
           | _ \<Rightarrow> None)
      | _ \<Rightarrow> None)"

definition terminal_id :: "json_file \<Rightarrow> string option" where
  "terminal_id f = (case gc_row f of Some (s, i) \<Rightarrow> if s \<in> set TERMINAL then Some i else None | None \<Rightarrow> None)"

fun delete_ids :: "string list \<Rightarrow> store \<Rightarrow> unit result \<times> store" where
  "delete_ids [] st = (Inr (), st)"
| "delete_ids (i # is) st =
     (case delete_record i st of (Inl e, st) \<Rightarrow> (Inl e, st) | (Inr _, st) \<Rightarrow> delete_ids is st)"

definition terminal_rows :: "store \<Rightarrow> (rat \<times> string) list" where
  "terminal_rows st = List.map_filter (\<lambda>(n, t, f). map_option (\<lambda>i. (t, i)) (terminal_id f)) st"

definition purge_surplus :: "nat \<Rightarrow> store \<Rightarrow> nat result \<times> store" where
  "purge_surplus keep st =
     (if length st \<le> keep then (Inr 0, st)
      else let terminal = terminal_rows st in
        if length terminal \<le> keep then (Inr 0, st)
        else (case delete_ids (map snd (drop keep (rev (sort terminal)))) st of
                (Inl e, st) \<Rightarrow> (Inl e, st)
              | (Inr _, st) \<Rightarrow> (Inr (length terminal - keep), st)))"

text \<open>A file that an earlier deletion of the sweep took away is skipped.\<close>

fun sweep :: "rat \<Rightarrow> string list \<Rightarrow> nat \<Rightarrow> store \<Rightarrow> nat result \<times> store" where
  "sweep cutoff [] removed st = (Inr removed, st)"
| "sweep cutoff (n # ns) removed st =
     (case dget st n of
        None \<Rightarrow> sweep cutoff ns removed st
      | Some (t, f) \<Rightarrow>
        if t > cutoff then sweep cutoff ns removed st
        else (case terminal_id f of
                None \<Rightarrow> sweep cutoff ns removed st
              | Some i \<Rightarrow>
                (case delete_record i st of
                   (Inl e, st) \<Rightarrow> (Inl e, st)
                 | (Inr _, st) \<Rightarrow> sweep cutoff ns (Suc removed) st)))"

definition purge_expired :: "rat \<Rightarrow> rat \<Rightarrow> store \<Rightarrow> nat result \<times> store" where
  "purge_expired retention now st =
     (case sweep (now - retention) (sort (dkeys st)) 0 st of
        (Inl e, st) \<Rightarrow> (Inl e, st)
      | (Inr removed, st) \<Rightarrow>
        (case purge_surplus TERMINAL_RECORDS_KEPT st of
           (Inl e, st) \<Rightarrow> (Inl e, st)
         | (Inr n, st) \<Rightarrow> (Inr (removed + n), st)))"

section \<open>The store is a dictionary of deployments\<close>

datatype store_op = Save bool deployment json_object | Delete string

fun store_step :: "store \<Rightarrow> rat \<times> store_op \<Rightarrow> store" where
  "store_step st (now, Save disk d h) = snd (save_record now disk d h st)"
| "store_step st (now, Delete i) = snd (delete_record i st)"

definition store_run :: "(rat \<times> store_op) list \<Rightarrow> store" where
  "store_run ops = foldl store_step [] ops"

text \<open>What the store stands for: the last record saved under each file name and not deleted since.\<close>

fun kept_step :: "(string, deployment \<times> json_object) dict \<Rightarrow> store_op \<Rightarrow> (string, deployment \<times> json_object) dict" where
  "kept_step m (Save disk d h) =
     (case record_path (deployment_id d) of
        Inr path \<Rightarrow>
          if dep_state d \<in> set PERSISTED \<and> dep_plan d \<noteq> None \<and> dep_fit d \<noteq> None \<and> disk
          then dset path (d, h) m else m
      | Inl e \<Rightarrow> m)"
| "kept_step m (Delete i) = (case record_path i of Inr path \<Rightarrow> dpop path m | Inl e \<Rightarrow> m)"

definition kept :: "(rat \<times> store_op) list \<Rightarrow> (string, deployment \<times> json_object) dict" where
  "kept ops = foldl kept_step [] (map snd ops)"

definition stands_for :: "store \<Rightarrow> (string, deployment \<times> json_object) dict \<Rightarrow> bool" where
  "stands_for st m \<longleftrightarrow> dkeys st = dkeys m \<and> (\<forall>n. record_at st n = dget m n)"

lemma record_at_updates [simp]:
  "record_at (dset p (t, f) st) n = (if n = p then read_record f else record_at st n)"
  "record_at (dpop p st) n = (if n = p then None else record_at st n)"
  "record_at [] n = None"
  by (simp_all add: record_at_def)

lemma encode_Inr_iff: "(\<exists>j. encode d = Inr j) \<longleftrightarrow> dep_plan d \<noteq> None \<and> dep_fit d \<noteq> None"
  by (cases "dep_plan d"; cases "dep_fit d") (simp_all add: encode_def)

lemma read_payload: "encode d = Inr j \<Longrightarrow> read_record (Holds (payload_of j h)) = Some (d, h)"
  by (simp add: read_record_def payload_of_def deployment_round_trip)

lemma dkeys_dset: "dkeys a = dkeys b \<Longrightarrow> dkeys (dset k v a) = dkeys (dset k w b)"
proof (induction a arbitrary: b)
  case (Cons x a)
  then show ?case by (cases b; cases x) auto
qed auto

lemma dkeys_dpop: "dkeys a = dkeys b \<Longrightarrow> dkeys (dpop k a) = dkeys (dpop k b)"
proof (induction a arbitrary: b)
  case (Cons x a)
  then show ?case by (cases b; cases x) auto
qed auto

lemma stands_for_step:
  assumes "stands_for st m"
  shows "stands_for (store_step st (now, op)) (kept_step m op)"
proof (cases op)
  case (Save disk d h)
  show ?thesis
  proof (cases "record_path (deployment_id d)")
    case (Inl e)
    then show ?thesis using assms by (simp add: Save save_record_def)
  next
    case (Inr path)
    show ?thesis
    proof (cases "dep_state d \<in> set PERSISTED \<and> dep_plan d \<noteq> None \<and> dep_fit d \<noteq> None \<and> disk")
      case True
      then obtain j where j: "encode d = Inr j" using encode_Inr_iff [of d] by blast
      have "dkeys (dset path (now, Holds (payload_of j h)) st) = dkeys (dset path (d, h) m)"
        using assms by (intro dkeys_dset) (simp add: stands_for_def)
      then show ?thesis
        using assms True Inr j by (simp add: Save save_record_def stands_for_def read_payload)
    next
      case False
      then have "snd (save_record now disk d h st) = st"
        using encode_Inr_iff [of d] Inr by (cases "encode d") (auto simp: save_record_def)
      then show ?thesis using assms False Inr by (auto simp: Save)
    qed
  qed
next
  case (Delete i)
  have "dkeys (dpop p st) = dkeys (dpop p m)" for p
    using assms by (intro dkeys_dpop) (simp add: stands_for_def)
  then show ?thesis
    using assms by (simp add: Delete delete_record_def stands_for_def split: sum.split)
qed

lemma stands_for_run: "stands_for (store_run ops) (kept ops)"
proof (induction ops rule: rev_induct)
  case (snoc x ops)
  then show ?case
    using stands_for_step [of "store_run ops" "kept ops" "fst x" "snd x"]
    by (simp add: store_run_def kept_def)
qed (simp add: store_run_def kept_def stands_for_def)

text \<open>C39: what was saved is what is loaded. After any saves and deletions, failed writes and states that
  are not persisted included, loading gives exactly the last deployment saved under each file name and
  not deleted since, whole, with its handle, in the order of the names.\<close>

theorem load_gives_what_was_saved:
  "load_all (store_run ops) = map (\<lambda>n. the (dget (kept ops) n)) (sort (dkeys (kept ops)))"
proof -
  let ?st = "store_run ops" and ?m = "kept ops"
  have keys: "dkeys ?st = dkeys ?m" using stands_for_run [of ops] by (simp add: stands_for_def)
  have look: "record_at ?st n = Some (the (dget ?m n))" if "n \<in> set (dkeys ?m)" for n
  proof -
    have "dget ?m n \<noteq> None" using that by (metis map_of_eq_None_notin)
    then show ?thesis using stands_for_run [of ops] by (auto simp: stands_for_def)
  qed
  have all: "List.map_filter g xs = map (\<lambda>n. the (dget ?m n)) xs"
    if "\<And>n. n \<in> set xs \<Longrightarrow> g n = Some (the (dget ?m n))" for g and xs :: "string list"
    using that by (induction xs) (simp_all add: List.map_filter_simps)
  show ?thesis unfolding load_all_def keys by (rule all) (simp only: set_sort look)
qed

section \<open>Sweeping keeps what is live and what is newest\<close>

text \<open>Every record that can be swept lies under its own name, as \<open>save\<close> puts it.\<close>

definition paths_ok :: "store \<Rightarrow> bool" where
  "paths_ok st \<longleftrightarrow> dict_ok st \<and> (\<forall>(n, t, f) \<in> set st. \<forall>i. terminal_id f = Some i \<longrightarrow> record_path i = Inr n)"

lemma dpop_filter: "dpop k d = filter (\<lambda>p. fst p \<noteq> k) d"
  by (induction d) auto

lemma delete_ids_filter:
  assumes "\<And>i. i \<in> set is \<Longrightarrow> \<exists>n. record_path i = Inr n"
  shows "delete_ids is st = (Inr (), filter (\<lambda>p. Inr (fst p) \<notin> record_path ` set is) st)"
  using assms
proof (induction "is" arbitrary: st)
  case (Cons i "is")
  obtain n where n: "record_path i = Inr n" using Cons.prems [of i] by auto
  have "delete_ids (i # is) st = delete_ids is (dpop n st)" by (simp add: delete_record_def n)
  also have "\<dots> = (Inr (), filter (\<lambda>p. Inr (fst p) \<notin> record_path ` set is) (dpop n st))"
    by (rule Cons.IH) (rule Cons.prems, simp)
  finally show ?case by (auto simp: dpop_filter n intro!: filter_cong)
qed simp

lemma terminal_rows_Cons:
  "terminal_rows ((n, t, f) # st) = (case terminal_id f of Some i \<Rightarrow> (t, i) # terminal_rows st | None \<Rightarrow> terminal_rows st)"
  by (simp add: terminal_rows_def List.map_filter_simps split: option.split)

lemma terminal_rows_Nil [simp]: "terminal_rows [] = []"
  by (simp add: terminal_rows_def List.map_filter_simps)

lemma terminal_rows_iff: "(t, i) \<in> set (terminal_rows st) \<longleftrightarrow> (\<exists>n f. (n, t, f) \<in> set st \<and> terminal_id f = Some i)"
  by (induction st) (fastforce simp: terminal_rows_Cons split: option.splits)+

lemma terminal_rows_length: "length (terminal_rows st) \<le> length st"
  by (induction st) (auto simp: terminal_rows_Cons split: option.splits)

lemma terminal_rows_filter:
  "terminal_rows (filter (\<lambda>(n, t, f). \<forall>i. terminal_id f = Some i \<longrightarrow> (t, i) \<in> A) st)
    = filter (\<lambda>r. r \<in> A) (terminal_rows st)"
proof (induction st)
  case (Cons x st)
  obtain n t f where x: "x = (n, t, f)" by (cases x)
  show ?case by (cases "terminal_id f") (use Cons.IH in \<open>simp_all add: x terminal_rows_Cons\<close>)
qed simp

lemma terminal_rows_distinct:
  assumes "paths_ok st"
  shows "distinct (map snd (terminal_rows st))"
  using assms
proof (induction st)
  case (Cons x st)
  obtain n t f where x: "x = (n, t, f)" by (cases x)
  have ok: "paths_ok st" using Cons.prems by (auto simp: paths_ok_def)
  have "i \<notin> set (map snd (terminal_rows st))" if i: "terminal_id f = Some i" for i
  proof
    assume "i \<in> set (map snd (terminal_rows st))"
    then obtain u m g where m: "(m, u, g) \<in> set st" "terminal_id g = Some i"
      by (auto simp: terminal_rows_iff)
    have "record_path i = Inr n" "record_path i = Inr m"
      using Cons.prems i m by (auto simp: paths_ok_def x)
    then have "(n, u, g) \<in> set st" using m by simp
    then show False using Cons.prems by (force simp: paths_ok_def x)
  qed
  then show ?case using Cons.IH [OF ok] by (simp add: x terminal_rows_Cons split: option.split)
qed simp

text \<open>The rows that stay: the newest \<open>keep\<close>.\<close>

definition newest :: "nat \<Rightarrow> store \<Rightarrow> (rat \<times> string) list" where
  "newest keep st = take keep (rev (sort (terminal_rows st)))"

lemma purge_surplus_filter:
  assumes "paths_ok st" and "purge_surplus keep st = (res, st')"
  shows "res = Inr (length (terminal_rows st) - keep)
    \<and> st' = filter (\<lambda>(n, t, f). \<forall>i. terminal_id f = Some i \<longrightarrow> (t, i) \<in> set (newest keep st)) st"
proof (cases "length (terminal_rows st) \<le> keep")
  case True
  then have "st' = st" "res = Inr 0" using assms(2) by (auto simp: purge_surplus_def Let_def split: if_splits)
  moreover have "filter (\<lambda>(n, t, f). \<forall>i. terminal_id f = Some i \<longrightarrow> (t, i) \<in> set (newest keep st)) st = st"
    using True by (auto simp: filter_id_conv newest_def terminal_rows_iff)
  ultimately show ?thesis using True by simp
next
  case False
  let ?rows = "rev (sort (terminal_rows st))" and ?gone = "map snd (drop keep (rev (sort (terminal_rows st))))"
  have dist: "distinct (map snd ?rows)"
    using terminal_rows_distinct [OF assms(1)]
    by (simp add: distinct_map)
  have path: "\<exists>n. record_path i = Inr n" if "i \<in> set ?gone" for i
    using that assms(1) by (fastforce simp: paths_ok_def terminal_rows_iff dest!: in_set_dropD)
  have gone: "i \<in> set ?gone \<longleftrightarrow> (t, i) \<notin> set (newest keep st)" if "(n, t, f) \<in> set st" "terminal_id f = Some i" for n t f i
  proof -
    have row: "(t, i) \<in> set ?rows" using that by (auto simp: terminal_rows_iff)
    have split: "?rows = newest keep st @ drop keep ?rows" by (simp add: newest_def)
    have "distinct (map snd (newest keep st) @ ?gone)"
      using dist split by (metis map_append)
    then have "\<not> (i \<in> snd ` set (newest keep st) \<and> i \<in> set ?gone)" by auto
    moreover have "(t, i) \<in> set (newest keep st) \<or> (t, i) \<in> set (drop keep ?rows)"
      using row split by (metis Un_iff set_append)
    ultimately show ?thesis by (auto intro: rev_image_eqI)
  qed
  have same: "Inr n \<in> record_path ` set ?gone \<longleftrightarrow> \<not> (\<forall>i. terminal_id f = Some i \<longrightarrow> (t, i) \<in> set (newest keep st))"
    if mem: "(n, t, f) \<in> set st" for n t f
  proof
    assume "Inr n \<in> record_path ` set ?gone"
    then obtain i where i: "i \<in> set ?gone" "record_path i = Inr n" by force
    from i(1) obtain u where "(u, i) \<in> set (terminal_rows st)" by (auto dest!: in_set_dropD)
    then obtain m g where m: "(m, u, g) \<in> set st" "terminal_id g = Some i" by (auto simp: terminal_rows_iff)
    then have "m = n" using assms(1) i(2) by (force simp: paths_ok_def)
    then have "(u, g) = (t, f)" using m(1) mem assms(1) by (metis eq_key_imp_eq_value paths_ok_def)
    then show "\<not> (\<forall>i. terminal_id f = Some i \<longrightarrow> (t, i) \<in> set (newest keep st))"
      using gone [OF m] i(1) m(2) by auto
  next
    assume "\<not> (\<forall>i. terminal_id f = Some i \<longrightarrow> (t, i) \<in> set (newest keep st))"
    then obtain i where i: "terminal_id f = Some i" "(t, i) \<notin> set (newest keep st)" by blast
    then have "i \<in> set ?gone" "record_path i = Inr n"
      using gone [OF mem] assms(1) mem by (auto simp: paths_ok_def)
    then show "Inr n \<in> record_path ` set ?gone" by (metis image_eqI)
  qed
  have "\<not> length st \<le> keep" using False terminal_rows_length [of st] by simp
  then have "purge_surplus keep st = (Inr (length (terminal_rows st) - keep),
      filter (\<lambda>p. Inr (fst p) \<notin> record_path ` set ?gone) st)"
    using False delete_ids_filter [of ?gone st, OF path] by (simp add: purge_surplus_def Let_def del: set_map)
  moreover have "filter (\<lambda>p. Inr (fst p) \<notin> record_path ` set ?gone) st
    = filter (\<lambda>(n, t, f). \<forall>i. terminal_id f = Some i \<longrightarrow> (t, i) \<in> set (newest keep st)) st"
  proof (rule filter_cong [OF refl])
    fix p
    assume p: "p \<in> set st"
    obtain n t f where "p = (n, t, f)" by (cases p)
    then show "(Inr (fst p) \<notin> record_path ` set ?gone)
        = (case p of (n, t, f) \<Rightarrow> \<forall>i. terminal_id f = Some i \<longrightarrow> (t, i) \<in> set (newest keep st))"
      using same [of n t f] p by (simp only: prod.case fst_conv not_not)
  qed
  ultimately show ?thesis using assms(2) by simp
qed

text \<open>A retry storm cannot fill the disk, and sweeping never touches a live deployment. Whatever the
  ages, after the surplus sweep every record that is not terminal is still there, at most the bound of
  terminal ones are and exactly the bound when there were as many, and none of those removed settled
  later than one that was kept.\<close>

theorem sweep_keeps_live_and_newest:
  assumes "paths_ok st" and "purge_surplus keep st = (res, st')"
  shows "filter (\<lambda>(n, t, f). terminal_id f = None) st' = filter (\<lambda>(n, t, f). terminal_id f = None) st
    \<and> length (terminal_rows st') = min keep (length (terminal_rows st))
    \<and> (\<forall>a \<in> set (terminal_rows st'). \<forall>b \<in> set (terminal_rows st) - set (terminal_rows st'). fst b \<le> fst a)"
proof -
  let ?rows = "rev (sort (terminal_rows st))"
  have st': "st' = filter (\<lambda>(n, t, f). \<forall>i. terminal_id f = Some i \<longrightarrow> (t, i) \<in> set (newest keep st)) st"
    using purge_surplus_filter [OF assms] by blast
  then have rows: "terminal_rows st' = filter (\<lambda>r. r \<in> set (newest keep st)) (terminal_rows st)"
    by (simp add: terminal_rows_filter)
  have dist: "distinct (terminal_rows st)"
    using terminal_rows_distinct [OF assms(1)] by (simp add: distinct_map)
  have sub: "set (newest keep st) \<subseteq> set (terminal_rows st)"
    unfolding newest_def by (auto dest: in_set_takeD)
  have "distinct (newest keep st)" using dist by (simp add: newest_def)
  then have "length (newest keep st) = card (set (newest keep st))" by (simp add: distinct_card)
  also have "set (newest keep st) = set (terminal_rows st')" using rows sub by auto
  also have "card \<dots> = length (terminal_rows st')" by (rule distinct_card) (simp add: rows dist)
  finally have len: "length (terminal_rows st') = min keep (length (terminal_rows st))"
    by (simp add: newest_def)
  have order: "fst b \<le> fst a" if "a \<in> set (newest keep st)" "b \<in> set (terminal_rows st) - set (newest keep st)" for a b
  proof -
    have split: "?rows = newest keep st @ drop keep ?rows" by (simp add: newest_def)
    have "b \<in> set ?rows" using that(2) by simp
    then have "b \<in> set (drop keep ?rows)" using split that(2) by (metis Diff_iff Un_iff set_append)
    moreover have "sorted_wrt (\<ge>) ?rows" by (simp add: sorted_wrt_rev)
    then have "sorted_wrt (\<ge>) (newest keep st @ drop keep ?rows)" using split by simp
    ultimately have "b \<le> a" using that(1) by (auto simp: sorted_wrt_append)
    then show ?thesis by (cases a; cases b) (auto simp: less_eq_prod_simp)
  qed
  have live: "filter (\<lambda>(n, t, f). terminal_id f = None) st' = filter (\<lambda>(n, t, f). terminal_id f = None) st"
    unfolding st' by (auto intro!: filter_cong)
  show ?thesis using live len order rows sub by auto
qed

text \<open>A record half way through being replaced is read as a record of its own: the temporary file
  matches the pattern, and deleting the deployment does not take it away.\<close>

lemma orphan_is_loaded:
  assumes "encode d = Inr j" and "record_path (deployment_id d) \<noteq> Inr tmp"
  shows "(d, h) \<in> set (load_all (snd (delete_record (deployment_id d) (save_killed tmp now j h st))))"
proof -
  let ?st = "snd (delete_record (deployment_id d) (save_killed tmp now j h st))"
  have at: "record_at ?st tmp = Some (d, h)"
    using assms by (auto simp: delete_record_def save_killed_def read_payload split: sum.split)
  then have "dget ?st tmp \<noteq> None" unfolding record_at_def by (cases "dget ?st tmp") simp_all
  then have "tmp \<in> set (dkeys ?st)" by (metis map_of_eq_None_notin)
  then have "tmp \<in> set (filter (\<lambda>n. record_at ?st n \<noteq> None) (sort (dkeys ?st)))" using at by simp
  then have "the (record_at ?st tmp) \<in> set (load_all ?st)"
    unfolding load_all_def List.map_filter_def comp_def set_map by (rule imageI)
  then show ?thesis using at by simp
qed

section \<open>Examples\<close>

definition small_shape :: model_shape where
  "small_shape = \<lparr>model_id = ''m'', num_layers = 2, hidden_size = 8, num_attention_heads = 2, num_kv_heads = 1,
     vocab_size = 16, total_params = 100, dtype = ''bf16'', head_dim = None, num_experts = 0,
     num_experts_per_token = 0, active_params = None, sliding_window = None,
     layers_with_full_attention = None, mla_latent_dim = None, mla_rope_dim = None, vision_params = 0,
     is_encoder_decoder = False\<rparr>"

definition small_plan :: parallelism_plan where
  "small_plan = \<lparr>kind = SINGLE_NODE, tensor_parallel = 1, pipeline_parallel = 1, expert_parallel = 1,
     data_parallel = 1, node_ids = [''a''], plan_reason = [], measured_link_gbps = 0, rejected = []\<rparr>"

definition small_fit :: fit_result where
  "small_fit = \<lparr>fr_verdict = FITS,
     fr_breakdown = \<lparr>mb_weights = 1, mb_kv_cache = 1, mb_activations = 1, mb_comm_buffers = 0,
       mb_replicated = 0, mb_framework_overhead = 1\<rparr>,
     usable_per_node = 10, headroom = 6, fr_reason = Msg ''fits'' [], limiting_term = Lim_none,
     max_context_that_fits = Some 512, predicted_decode_tps = None, fr_warnings = [], fr_budget_basis = Static\<rparr>"

definition small_deployment :: "string \<Rightarrow> deployment_state \<Rightarrow> deployment" where
  "small_deployment i s =
     \<lparr>deployment_id = i, served_name = ''m'', dep_shape = small_shape, dep_plan = Some small_plan,
      dep_fit = Some small_fit, runtime = ''vllm'', dep_state = s, backend_url = None,
      dep_context_length = 512, dep_max_concurrent_seqs = 1, started_at = None, dep_last_error = None,
      dep_modality = TEXT, extra_args = [], custom_command = []\<rparr>"

definition small_store :: store where
  "small_store = store_run
     [(1, Save True (small_deployment ''d1'' FAILED) []), (2, Save True (small_deployment ''d2'' READY) []),
      (3, Save True (small_deployment ''d3'' STOPPED) []), (4, Save True (small_deployment ''d4'' FAILED) [])]"

theorem sweep_keeps_live_and_newest_witness:
  "\<exists>st'. snd (purge_surplus 1 small_store) = st' \<and> length (terminal_rows st') = 1
    \<and> map fst (filter (\<lambda>(n, t, f). terminal_id f = None) st') = [''d2.json'']"
proof -
  have keys: "map (\<lambda>(n, t, f). (n, terminal_id f)) small_store
      = [(''d1.json'', Some ''d1''), (''d2.json'', None), (''d3.json'', Some ''d3''), (''d4.json'', Some ''d4'')]"
    by code_simp
  have "list_all (\<lambda>(n, i). \<forall>j. i = Some j \<longrightarrow> record_path j = Inr n)
      [(''d1.json'', Some ''d1''), (''d2.json'', None), (''d3.json'', Some ''d3''), (''d4.json'', Some ''d4'')]"
    by (simp add: record_path_def py_isalnum_def is_alnum_def Let_def)
  then have "list_all (\<lambda>(n, i). \<forall>j. i = Some j \<longrightarrow> record_path j = Inr n) (map (\<lambda>(n, t, f). (n, terminal_id f)) small_store)"
    unfolding keys .
  moreover have "dict_ok small_store" by code_simp
  ultimately have ok: "paths_ok small_store" by (auto simp: paths_ok_def list_all_iff)
  have live: "map fst (filter (\<lambda>(n, t, f). terminal_id f = None) small_store) = [''d2.json'']" by code_simp
  have "length (terminal_rows small_store) = 3" by code_simp
  then show ?thesis
    using sweep_keeps_live_and_newest [OF ok prod.collapse [symmetric], of 1] live by simp
qed

end
