(* ===== verification/Launch_Progress.thy ===== *)
theory Launch_Progress
  imports Deploy_Store
begin

text \<open>
  What a launch is doing, read off the launcher's own words: \<open>control_plane/deploy/progress.py\<close>.
  The regular expressions are written out as small readers of a text; a reader consumes a prefix and
  returns what is left, and \<open>search\<close> tries it at every position from the left.
\<close>

section \<open>Readers\<close>

type_synonym 'a reader = "string \<Rightarrow> ('a \<times> string) option"

fun lit :: "string \<Rightarrow> unit reader" where
  "lit [] s = Some ((), s)"
| "lit (c # cs) [] = None"
| "lit (c # cs) (d # ds) = (if c = d then lit cs ds else None)"

definition andThen :: "'a reader \<Rightarrow> ('a \<Rightarrow> 'b reader) \<Rightarrow> 'b reader" where
  "andThen p f s = (case p s of None \<Rightarrow> None | Some (x, t) \<Rightarrow> f x t)"

definition give :: "'a \<Rightarrow> 'a reader" where
  "give x s = Some (x, s)"

definition is_digit :: "char \<Rightarrow> bool" where
  "is_digit c \<longleftrightarrow> (let n = (of_char c :: nat) in 48 \<le> n \<and> n \<le> 57)"

definition digits_value :: "string \<Rightarrow> int" where
  "digits_value ds = foldl (\<lambda>n c. 10 * n + (int (of_char c) - 48)) 0 ds"

text \<open>\<open>\d+\<close> with its value, \<open>\s*\<close>, and \<open>\w+\<close>.\<close>

definition number :: "int reader" where
  "number s = (let ds = takeWhile is_digit s in
     if ds = [] then None else Some (digits_value ds, dropWhile is_digit s))"

definition blanks :: "unit reader" where
  "blanks s = Some ((), dropWhile is_space s)"

definition word :: "unit reader" where
  "word s = (let w = (\<lambda>c. py_isalnum c \<or> c = CHR ''_'') in
     if takeWhile w s = [] then None else Some ((), dropWhile w s))"

text \<open>\<open>p?\<close>.\<close>

definition maybe :: "'a reader \<Rightarrow> 'a option reader" where
  "maybe p s = (case p s of None \<Rightarrow> Some (None, s) | Some (x, t) \<Rightarrow> Some (Some x, t))"

fun search :: "'a reader \<Rightarrow> string \<Rightarrow> 'a option" where
  "search p [] = map_option fst (p [])"
| "search p (c # cs) = (case p (c # cs) of Some (x, t) \<Rightarrow> Some x | None \<Rightarrow> search p cs)"

text \<open>\<open>lit.*?p\<close>.\<close>

definition then_somewhere :: "unit reader \<Rightarrow> 'a reader \<Rightarrow> 'a reader" where
  "then_somewhere p q = andThen p (\<lambda>_ s. map_option (\<lambda>x. (x, s)) (search q s))"

definition SHARDS_RE :: "(int \<times> int) reader" where
  "SHARDS_RE = then_somewhere (lit ''checkpoint shards'')
     (andThen number (\<lambda>d. andThen blanks (\<lambda>_. andThen (lit ''/'') (\<lambda>_. andThen blanks (\<lambda>_.
      andThen number (\<lambda>n. give (d, n)))))))"

definition FETCHING_RE :: "int reader" where
  "FETCHING_RE =
     andThen (lit ''Fetching '') (\<lambda>_. andThen number (\<lambda>_. andThen (lit '' files:'') (\<lambda>_.
     andThen blanks (\<lambda>_. andThen number (\<lambda>n. andThen (lit ''%'') (\<lambda>_. give n))))))"

definition colon_number :: "int reader" where
  "colon_number = andThen (lit '':'') (\<lambda>_. number)"

definition closer :: "unit reader" where
  "closer s = (case s of c # cs \<Rightarrow> if c = CHR '','' \<or> c = CHR '']'' then Some ((), cs) else None | [] \<Rightarrow> None)"

definition ETA_RE :: "(int \<times> int \<times> int option) reader" where
  "ETA_RE =
     andThen (lit ''['') (\<lambda>_. andThen number (\<lambda>_. andThen colon_number (\<lambda>_. andThen (maybe colon_number) (\<lambda>_.
     andThen (lit ''<'') (\<lambda>_. andThen number (\<lambda>a. andThen colon_number (\<lambda>b. andThen (maybe colon_number) (\<lambda>c.
     andThen closer (\<lambda>_. give (a, b, c))))))))))"

section \<open>Phases and readings\<close>

definition PHASES :: "string list" where
  "PHASES = [''preparing'', ''downloading'', ''loading'', ''starting'', ''serving'']"

fun index_of :: "'a \<Rightarrow> 'a list \<Rightarrow> int option" where
  "index_of x [] = None"
| "index_of x (y # ys) = (if x = y then Some 0 else map_option (\<lambda>n. n + 1) (index_of x ys))"

definition rank :: "string \<Rightarrow> int" where
  "rank phase = (case index_of phase PHASES of Some n \<Rightarrow> n | None \<Rightarrow> -1)"

record launch_progress =
  lp_phase :: string
  lp_status :: string
  lp_fraction :: "rat option"
  lp_eta_s :: "rat option"
  lp_fatal :: bool
  lp_source :: string

datatype marker = Literal string | Fetching | Step_preparing | Launching_runtime

definition SPARKRUN_MARKERS :: "(marker \<times> string) list" where
  "SPARKRUN_MARKERS =
     [(Literal ''Downloading model'', ''downloading''), (Literal ''Downloading GGUF model'', ''downloading''),
      (Literal ''Ensuring model'', ''downloading''), (Literal ''Distributing model'', ''downloading''),
      (Fetching, ''downloading''), (Literal ''Ensuring container image'', ''preparing''),
      (Literal ''Pulling image'', ''preparing''), (Literal ''Distributing image'', ''preparing''),
      (Literal ''Building image'', ''preparing''), (Literal ''Distributing resources'', ''preparing''),
      (Literal ''Distributing tuning configs'', ''preparing''),
      (Literal ''Syncing tuning configs'', ''preparing''), (Step_preparing, ''preparing''),
      (Literal ''Launching container'', ''loading''), (Launching_runtime, ''loading''),
      (Literal ''Detecting InfiniBand'', ''loading''), (Literal ''Executing serve command'', ''loading''),
      (Literal ''Launching Ray'', ''loading''), (Literal ''Starting head node serve'', ''loading''),
      (Literal ''Starting worker nodes'', ''loading'')]"

definition RUNTIME_MARKERS :: "(marker \<times> string) list" where
  "RUNTIME_MARKERS =
     [(Literal ''Loading safetensors checkpoint shards'', ''loading''),
      (Literal ''Loading pt checkpoint shards'', ''loading''), (Literal ''Starting to load model'', ''loading''),
      (Literal ''Loading weights took'', ''starting''),
      (Literal ''Compiling a graph for compile range'', ''starting''), (Literal ''torch.compile'', ''starting''),
      (Literal ''Capturing CUDA graphs'', ''starting''), (Literal ''Capturing cudagraphs'', ''starting''),
      (Literal ''Available KV cache memory'', ''starting''), (Literal ''init engine'', ''starting''),
      (Literal ''Application startup complete'', ''starting''), (Literal ''Uvicorn running on'', ''starting'')]"

definition RUNTIME_FATAL :: "string list" where
  "RUNTIME_FATAL =
     [''EngineCore failed to start.'', ''EngineCore encountered a fatal error.'',
      ''Engine core initialization failed.'', ''File '' @ [CHR 0x22] @ ''/usr/local/bin/vllm'' @ [CHR 0x22],
      ''fatal: the speech server failed to start.'']"

section \<open>Reading a log\<close>

definition log_lines :: "string \<Rightarrow> string list" where
  "log_lines text =
     filter (\<lambda>l. l \<noteq> []) (map str_strip (split_on (CHR 0x0A)
       (map (\<lambda>c. if c = CHR 0x0D then CHR 0x0A else c) text)))"

definition line_fraction :: "string \<Rightarrow> rat option" where
  "line_fraction line =
     (case search SHARDS_RE line of
        Some (done, n) \<Rightarrow> if n > 0 then Some (max 0 (min 1 (of_int done / of_int n))) else None
      | None \<Rightarrow> (case search FETCHING_RE line of
          Some pct \<Rightarrow> Some (max 0 (min 1 (of_int pct / 100)))
        | None \<Rightarrow> None))"

definition line_eta :: "string \<Rightarrow> rat option" where
  "line_eta line =
     (case search ETA_RE line of
        None \<Rightarrow> None
      | Some (a, b, Some c) \<Rightarrow> Some (of_int (a * 3600 + b * 60 + c))
      | Some (a, b, None) \<Rightarrow> Some (of_int (a * 60 + b)))"

fun marker_matches :: "marker \<Rightarrow> string \<Rightarrow> bool" where
  "marker_matches (Literal m) line = str_contains m line"
| "marker_matches Fetching line = (search FETCHING_RE line \<noteq> None)"
| "marker_matches Step_preparing line =
     (andThen (lit ''['') (\<lambda>_. andThen number (\<lambda>_. andThen (lit ''/'') (\<lambda>_. andThen number (\<lambda>_.
      lit ''] Preparing'')))) line \<noteq> None)"
| "marker_matches Launching_runtime line =
     (search (andThen (lit ''Launching '') (\<lambda>_. andThen word (\<lambda>_. lit '' runtime''))) line \<noteq> None)"

definition line_phase :: "(marker \<times> string) list \<Rightarrow> string \<Rightarrow> string option" where
  "line_phase markers line = map_option snd (find (\<lambda>(m, phase). marker_matches m line) markers)"

definition reading_of :: "string \<Rightarrow> string \<Rightarrow> string \<Rightarrow> launch_progress" where
  "reading_of phase line source =
     \<lparr>lp_phase = phase, lp_status = line, lp_fraction = line_fraction line, lp_eta_s = line_eta line,
      lp_fatal = False, lp_source = source\<rparr>"

lemma reading_of_fields [simp]:
  "lp_phase (reading_of phase line source) = phase" "lp_status (reading_of phase line source) = line"
  "lp_fraction (reading_of phase line source) = line_fraction line" "\<not> lp_fatal (reading_of phase line source)"
  by (simp_all add: reading_of_def)

fun classify_lines :: "(marker \<times> string) list \<Rightarrow> string \<Rightarrow> string list \<Rightarrow> launch_progress option" where
  "classify_lines markers source [] = None"
| "classify_lines markers source (l # ls) =
     (case line_phase markers l of
        Some phase \<Rightarrow> Some (reading_of phase l source)
      | None \<Rightarrow> classify_lines markers source ls)"

definition classify :: "(marker \<times> string) list \<Rightarrow> string \<Rightarrow> string \<Rightarrow> launch_progress option" where
  "classify markers source text = classify_lines markers source (rev (log_lines text))"

definition from_launcher :: "string \<Rightarrow> launch_progress option" where
  "from_launcher text = classify SPARKRUN_MARKERS ''sparkrun'' text"

definition line_is_fatal :: "string \<Rightarrow> bool" where
  "line_is_fatal line \<longleftrightarrow> (\<exists>m \<in> set RUNTIME_FATAL. str_contains m line)"

definition from_runtime_log :: "string \<Rightarrow> launch_progress option" where
  "from_runtime_log text =
     (case find line_is_fatal (log_lines text) of
        Some line \<Rightarrow> Some \<lparr>lp_phase = ''starting'', lp_status = line, lp_fraction = None, lp_eta_s = None,
                           lp_fatal = True, lp_source = ''runtime''\<rparr>
      | None \<Rightarrow> classify RUNTIME_MARKERS ''runtime'' text)"

definition advance :: "launch_progress option \<Rightarrow> launch_progress option \<Rightarrow> launch_progress option" where
  "advance current reading =
     (case reading of
        None \<Rightarrow> current
      | Some r \<Rightarrow>
        (case current of
           None \<Rightarrow> Some r
         | Some c \<Rightarrow> if lp_fatal r then Some r else if rank (lp_phase r) < rank (lp_phase c) then Some c else Some r))"

section \<open>Nothing is invented\<close>

lemma line_fraction_bounds: "line_fraction l = Some x \<Longrightarrow> 0 \<le> x \<and> x \<le> 1"
  by (auto simp: line_fraction_def split: option.splits if_splits)

lemma classify_lines_spec:
  "classify_lines markers source ls = Some p \<Longrightarrow>
   \<exists>before l after phase. ls = before @ l # after \<and> line_phase markers l = Some phase
     \<and> p = reading_of phase l source \<and> (\<forall>k \<in> set before. line_phase markers k = None)"
proof (induction ls)
  case (Cons l ls)
  show ?case
  proof (cases "line_phase markers l")
    case None
    then obtain before m after phase where "ls = before @ m # after" "line_phase markers m = Some phase"
        "p = reading_of phase m source" "\<forall>k \<in> set before. line_phase markers k = None"
      using Cons by auto
    then show ?thesis using None by (intro exI [of _ "l # before"]) auto
  next
    case (Some phase)
    then show ?thesis
      using Cons.prems by (intro exI [of _ "[]"] exI [of _ l] exI [of _ ls] exI [of _ phase]) auto
  qed
qed simp

lemma classify_spec:
  assumes "classify markers source text = Some p"
  shows "\<exists>earlier later phase. log_lines text = earlier @ lp_status p # later
    \<and> line_phase markers (lp_status p) = Some phase \<and> p = reading_of phase (lp_status p) source
    \<and> (\<forall>k \<in> set later. line_phase markers k = None)"
proof -
  obtain before l after phase where "rev (log_lines text) = before @ l # after"
      and l: "line_phase markers l = Some phase" "p = reading_of phase l source"
        "\<forall>k \<in> set before. line_phase markers k = None"
    using classify_lines_spec assms unfolding classify_def by blast
  then have "log_lines text = rev after @ l # rev before"
    by (metis append.assoc append_Cons append_Nil rev.simps(2) rev_append rev_rev_ident)
  then show ?thesis using l by (intro exI [of _ "rev after"] exI [of _ "rev before"] exI [of _ phase]) (simp add: reading_of_def)
qed

lemma line_phase_in: "line_phase markers l = Some phase \<Longrightarrow> phase \<in> set (map snd markers)"
  by (induction markers) (auto simp: line_phase_def split: if_splits)

text \<open>Every sentence shown for a launch was printed. A reading of the launcher's output quotes the
  newest line that carries a marker, whole; its phase is one of the launch phases and never
  ``serving'', its fraction, when there is one, lies between nothing and all, and it is not a death.\<close>

theorem launch_reading_is_quoted:
  assumes "from_launcher text = Some p"
  shows "(\<exists>earlier later. log_lines text = earlier @ lp_status p # later
      \<and> line_phase SPARKRUN_MARKERS (lp_status p) = Some (lp_phase p)
      \<and> (\<forall>k \<in> set later. line_phase SPARKRUN_MARKERS k = None))
    \<and> 0 \<le> rank (lp_phase p) \<and> rank (lp_phase p) < 4 \<and> \<not> lp_fatal p
    \<and> (\<forall>x. lp_fraction p = Some x \<longrightarrow> 0 \<le> x \<and> x \<le> 1)"
proof -
  obtain earlier later phase where l: "log_lines text = earlier @ lp_status p # later"
      "line_phase SPARKRUN_MARKERS (lp_status p) = Some phase"
      "p = reading_of phase (lp_status p) ''sparkrun''"
      "\<forall>k \<in> set later. line_phase SPARKRUN_MARKERS k = None"
    using classify_spec assms unfolding from_launcher_def by blast
  have "phase \<in> {''preparing'', ''downloading'', ''loading''}"
    using line_phase_in [OF l(2)] by (auto simp: SPARKRUN_MARKERS_def)
  then have "0 \<le> rank phase \<and> rank phase < 4" by (auto simp: rank_def PHASES_def)
  moreover have "lp_phase p = phase" "lp_fraction p = line_fraction (lp_status p)" "\<not> lp_fatal p"
    using arg_cong [OF l(3), of lp_phase] arg_cong [OF l(3), of lp_fraction] arg_cong [OF l(3), of lp_fatal] by simp_all
  ultimately show ?thesis using l line_fraction_bounds by auto
qed

section \<open>A death wins, and the ladder is climbed upwards\<close>

lemma from_runtime_log_fatal:
  "(\<exists>p. from_runtime_log text = Some p \<and> lp_fatal p) \<longleftrightarrow> (\<exists>l \<in> set (log_lines text). line_is_fatal l)"
proof -
  have "\<not> lp_fatal p" if "classify markers src text = Some p" for markers src p
  proof -
    from classify_spec [OF that] obtain phase where "p = reading_of phase (lp_status p) src" by blast
    from arg_cong [OF this, of lp_fatal] show ?thesis by simp
  qed
  then show ?thesis
    by (auto simp: from_runtime_log_def find_None_iff find_Some_iff split: option.splits)
qed

definition climb :: "launch_progress option list \<Rightarrow> launch_progress option" where
  "climb rs = foldl advance None rs"

definition best :: "launch_progress option list \<Rightarrow> int" where
  "best rs = Max (insert (-1) (rank ` lp_phase ` {r. Some r \<in> set rs}))"

lemma rank_ge: "-1 \<le> rank phase"
proof -
  have "0 \<le> n" if "index_of x xs = Some n" for x :: string and xs n
    using that by (induction xs arbitrary: n) (auto split: if_splits)
  then show ?thesis by (fastforce simp: rank_def split: option.split)
qed

lemma finite_readings: "finite {r. Some r \<in> set rs}"
  by (rule finite_subset [of _ "the ` set rs"]) (auto intro: rev_image_eqI)

lemma best_snoc:
  "best (rs @ [x]) = (case x of None \<Rightarrow> best rs | Some r \<Rightarrow> max (rank (lp_phase r)) (best rs))"
proof (cases x)
  case None
  then show ?thesis by (simp add: best_def)
next
  case (Some r)
  have "{s. Some s \<in> set (rs @ [x])} = insert r {s. Some s \<in> set rs}" using Some by auto
  then have "best (rs @ [x]) = Max (insert (rank (lp_phase r)) (insert (-1) (rank ` lp_phase ` {r. Some r \<in> set rs})))"
    by (simp add: best_def insert_commute)
  also have "\<dots> = max (rank (lp_phase r)) (best rs)"
    unfolding best_def by (intro Max_insert) (simp_all add: finite_readings)
  finally show ?thesis by (simp add: Some)
qed

lemma climb_best:
  assumes "\<forall>r. Some r \<in> set rs \<longrightarrow> \<not> lp_fatal r"
  shows "(case climb rs of None \<Rightarrow> (\<forall>r. Some r \<notin> set rs) | Some p \<Rightarrow> Some p \<in> set rs \<and> rank (lp_phase p) = best rs)"
  using assms
proof (induction rs rule: rev_induct)
  case Nil
  then show ?case by (simp add: climb_def)
next
  case (snoc x rs)
  have step: "climb (rs @ [y]) = advance (climb rs) y" for y by (simp add: climb_def)
  show ?case
  proof (cases x)
    case None
    have "climb (rs @ [x]) = climb rs" unfolding None step by (simp add: advance_def)
    moreover have "best (rs @ [x]) = best rs" unfolding None best_snoc by simp
    ultimately show ?thesis using snoc None by (cases "climb rs") simp_all
  next
    case (Some r)
    have "Some r \<in> set (rs @ [x])" unfolding Some by simp
    with snoc.prems have nf: "\<not> lp_fatal r" by blast
    have "\<forall>r. Some r \<in> set rs \<longrightarrow> \<not> lp_fatal r" using snoc.prems by simp
    note IH = snoc.IH [OF this]
    show ?thesis
    proof (cases "climb rs")
      case None
      then have none: "{s. Some s \<in> set rs} = {}" using IH by simp
      have "best rs = -1" unfolding best_def none by simp
      moreover have "climb (rs @ [x]) = Some r" unfolding step None Some by (simp add: advance_def)
      ultimately show ?thesis using rank_ge [of "lp_phase r"] unfolding Some best_snoc by simp
    next
      case (Some c)
      have c: "rank (lp_phase c) = best rs" "Some c \<in> set rs" using IH Some by simp_all
      have "climb (rs @ [x]) = (if rank (lp_phase r) < rank (lp_phase c) then Some c else Some r)"
        unfolding step \<open>x = Some r\<close> Some by (simp add: advance_def nf)
      then show ?thesis using c unfolding \<open>x = Some r\<close> best_snoc by simp
    qed
  qed
qed

text \<open>The stepper never un-ticks a step. Whatever order the log windows come back in, as long as
  none reports a death the phase shown is the furthest one any reading so far has named, and what is
  shown is one of those readings, the latest of that phase; nothing is shown until there is a reading.\<close>

theorem phase_never_goes_back:
  assumes "\<forall>r. Some r \<in> set rs \<longrightarrow> \<not> lp_fatal r" and "climb rs = Some p"
  shows "Some p \<in> set rs \<and> (\<forall>r. Some r \<in> set rs \<longrightarrow> rank (lp_phase r) \<le> rank (lp_phase p))"
proof -
  have "Some p \<in> set rs" "rank (lp_phase p) = best rs" using climb_best [OF assms(1)] assms(2) by auto
  moreover have "rank (lp_phase r) \<le> best rs" if "Some r \<in> set rs" for r
    unfolding best_def using that by (intro Max_ge) (auto simp: finite_readings)
  ultimately show ?thesis by auto
qed

text \<open>A death is shown at once, whatever was shown before it.\<close>

lemma death_is_shown: "lp_fatal r \<Longrightarrow> climb (rs @ [Some r]) = Some r"
  by (simp add: climb_def advance_def split: option.split)

theorem launch_reading_is_quoted_witness:
  "\<exists>p. from_launcher (''Fetching 16 files:  19%| | 3/16 [00:45<03:15, 15.0s/it]'' @ [CHR 0x0A] @ ''noise'') = Some p
    \<and> lp_phase p = ''downloading'' \<and> lp_fraction p = Some (19 / 100) \<and> lp_eta_s p = Some 195 \<and> \<not> lp_fatal p"
proof -
  let ?t = "''Fetching 16 files:  19%| | 3/16 [00:45<03:15, 15.0s/it]'' @ [CHR 0x0A] @ ''noise''"
  have "(case from_launcher ?t of Some p \<Rightarrow> lp_phase p = ''downloading'' \<and> lp_fraction p = Some (19 / 100)
      \<and> lp_eta_s p = Some 195 | None \<Rightarrow> False)"
    by code_simp
  then obtain p where p: "from_launcher ?t = Some p" "lp_phase p = ''downloading''"
      "lp_fraction p = Some (19 / 100)" "lp_eta_s p = Some 195"
    by (auto split: option.splits)
  then show ?thesis using launch_reading_is_quoted [OF p(1)] by auto
qed

theorem phase_never_goes_back_witness:
  "\<exists>p. climb [Some (reading_of ''loading'' ''5/11'' ''runtime''), None, Some (reading_of ''preparing'' ''x'' ''sparkrun'')]
    = Some p \<and> rank ''preparing'' \<le> rank (lp_phase p)"
proof -
  let ?rs = "[Some (reading_of ''loading'' ''5/11'' ''runtime''), None, Some (reading_of ''preparing'' ''x'' ''sparkrun'')]"
  have "\<forall>r. Some r \<in> set ?rs \<longrightarrow> \<not> lp_fatal r" by (auto simp: reading_of_def)
  moreover have "climb ?rs \<noteq> None" by (simp add: climb_def advance_def)
  then obtain p where p: "climb ?rs = Some p" by blast
  ultimately have "\<forall>r. Some r \<in> set ?rs \<longrightarrow> rank (lp_phase r) \<le> rank (lp_phase p)"
    using phase_never_goes_back by blast
  then have "rank (lp_phase (reading_of ''preparing'' ''x'' ''sparkrun'')) \<le> rank (lp_phase p)" by simp
  then show ?thesis using p by (simp add: reading_of_def)
qed

end
