(* ===== verification/Deploy_Recipes.thy ===== *)
theory Deploy_Recipes
  imports Launch_Progress Host_Probe
begin

text \<open>
  What a launch runs: the table of \<open>control_plane/deploy/flags.py\<close>, the recipe of
  \<open>control_plane/deploy/recipes.py\<close>, the command line of \<open>control_plane/deploy/sparkrun.py\<close> and the
  process match of \<open>control_plane/procmatch.py\<close>. The digest of a recipe and the environment's choice of
  container image are arguments.
\<close>

section \<open>Text\<close>

text \<open>\<open>str\<close> of an integer and \<open>'%.2f'\<close> of a number, which is exact here.\<close>

definition digit_char :: "nat \<Rightarrow> char" where
  "digit_char n = char_of (48 + n)"

fun show_nat :: "nat \<Rightarrow> string" where
  "show_nat n = (if n < 10 then [digit_char n] else show_nat (n div 10) @ [digit_char (n mod 10)])"

declare show_nat.simps [simp del]

definition show_int :: "int \<Rightarrow> string" where
  "show_int n = (if n < 0 then CHR ''-'' # show_nat (nat (- n)) else show_nat (nat n))"

definition fmt2 :: "rat \<Rightarrow> string" where
  "fmt2 x = (let n = round_half_even (x * 100); m = nat (abs n)
             in (if x < 0 then ''-'' else []) @ show_nat (m div 100) @ ''.''
                @ [digit_char (m mod 100 div 10), digit_char (m mod 10)])"

text \<open>\<open>str.splitlines\<close>: a line ends at any of these characters, or at a carriage return with its
  newline, and a last empty line is not a line.\<close>

definition line_break :: "char \<Rightarrow> bool" where
  "line_break c \<longleftrightarrow> (let n = (of_char c :: nat) in 10 \<le> n \<and> n \<le> 13 \<or> 28 \<le> n \<and> n \<le> 30 \<or> n = 133)"

fun splitlines_from :: "bool \<Rightarrow> string \<Rightarrow> string \<Rightarrow> string list" where
  "splitlines_from cr line [] = (if line = [] then [] else [rev line])"
| "splitlines_from cr line (c # cs) =
     (if cr \<and> c = CHR 0x0A then splitlines_from False [] cs
      else if line_break c then rev line # splitlines_from (c = CHR 0x0D) [] cs
      else splitlines_from False (c # line) cs)"

definition splitlines :: "string \<Rightarrow> string list" where
  "splitlines s = splitlines_from False [] s"

text \<open>\<open>'%.0f'\<close>.\<close>

definition fmt0 :: "rat \<Rightarrow> string" where
  "fmt0 x = show_int (round_half_even x)"

section \<open>The knobs and the runtimes\<close>

datatype style = Cli | Override

record knob =
  kn_name :: string
  kn_style :: style
  kn_recipe_key :: string
  kn_cli_flag :: "string option"

definition a_knob :: "string \<Rightarrow> style \<Rightarrow> string \<Rightarrow> string option \<Rightarrow> knob" where
  "a_knob name style key flag =
     \<lparr>kn_name = name, kn_style = style, kn_recipe_key = key, kn_cli_flag = flag\<rparr>"

definition KNOBS :: "knob list" where
  "KNOBS =
    [a_knob ''hosts'' Cli ''hosts'' (Some ''--hosts''),
     a_knob ''tensor_parallel'' Cli ''tensor_parallel'' (Some ''--tp''),
     a_knob ''pipeline_parallel'' Cli ''pipeline_parallel'' (Some ''--pp''),
     a_knob ''context_length'' Cli ''max_model_len'' (Some ''--max-model-len''),
     a_knob ''served_name'' Cli ''served_model_name'' (Some ''--served-model-name''),
     a_knob ''port'' Cli ''port'' (Some ''--port''),
     a_knob ''gpu_memory_utilization'' Cli ''gpu_memory_utilization'' (Some ''--gpu-mem''),
     a_knob ''max_concurrent_seqs'' Override ''max_num_seqs'' None,
     a_knob ''expert_parallel'' Override ''expert_parallel'' None,
     a_knob ''data_parallel'' Override ''data_parallel'' None]"

text \<open>The value is already rendered; \<open>None\<close> emits nothing.\<close>

definition emit :: "knob \<Rightarrow> string option \<Rightarrow> string option \<Rightarrow> string list" where
  "emit k rendered key =
     (case rendered of
        None \<Rightarrow> []
      | Some v \<Rightarrow>
        (case kn_style k of
           Cli \<Rightarrow> [the (kn_cli_flag k), v]
         | Override \<Rightarrow> [''-o'', (case key of Some s \<Rightarrow> if s \<noteq> [] then s else kn_recipe_key k
                                       | None \<Rightarrow> kn_recipe_key k) @ ''='' @ v]))"

record runtime_spec =
  rs_name :: string
  sparkrun_runtime :: string
  default_image_env :: string
  default_image :: string
  max_seqs_key :: string
  command_template :: string
  expert_parallel_arg :: "string option"
  health_path :: string
  custom_command_prefix :: string
  cache_env :: "(string \<times> string) list"
  shards :: bool
  kv_cache_bytes_arg :: "string option"

text \<open>A backslash, a newline and four blanks continue a command.\<close>

definition cont :: string where
  "cont = CHR '' '' # CHR 0x5C # CHR 0x0A # ''    ''"

definition VLLM_COMMAND :: string where
  "VLLM_COMMAND = str_join cont
    [''vllm serve'', ''{model}'', ''--served-model-name {served_model_name}'', ''--host {host}'', ''--port {port}'',
     ''--tensor-parallel-size {tensor_parallel}'', ''--pipeline-parallel-size {pipeline_parallel}'',
     ''--max-model-len {max_model_len}'', ''--max-num-seqs {max_num_seqs}'',
     ''--gpu-memory-utilization {gpu_memory_utilization}'', ''--trust-remote-code'']"

definition TTS_COMMAND :: string where
  "TTS_COMMAND = str_join cont
    [''python3 -m control_plane.runtimes.tts'', ''--model {model}'', ''--served-model-name {served_model_name}'',
     ''--host {host}'', ''--port {port}'', ''--tensor-parallel-size {tensor_parallel}'',
     ''--pipeline-parallel-size {pipeline_parallel}'', ''--max-model-len {max_model_len}'',
     ''--max-num-seqs {max_num_seqs}'', ''--gpu-memory-utilization {gpu_memory_utilization}'',
     ''--trust-remote-code'']"

definition SGLANG_COMMAND :: string where
  "SGLANG_COMMAND = str_join cont
    [''python3 -m sglang.launch_server'', ''--model-path {model}'', ''--served-model-name {served_model_name}'',
     ''--host {host}'', ''--port {port}'', ''--tp-size {tensor_parallel}'', ''--pp-size {pipeline_parallel}'',
     ''--context-length {max_model_len}'', ''--max-running-requests {max_running_requests}'',
     ''--mem-fraction-static {gpu_memory_utilization}'', ''--trust-remote-code'']"

definition VLLM_CUSTOM_PREFIX :: string where
  "VLLM_CUSTOM_PREFIX = ''vllm serve'' @ cont @ ''{model}''"

definition TTS_CUSTOM_PREFIX :: string where
  "TTS_CUSTOM_PREFIX = ''python3 -m control_plane.runtimes.tts'' @ cont @ ''--model {model}''"

definition SGLANG_CUSTOM_PREFIX :: string where
  "SGLANG_CUSTOM_PREFIX = ''python3 -m sglang.launch_server'' @ cont @ ''--model-path {model}''"

definition RUNTIME_CACHE_DIR :: string where
  "RUNTIME_CACHE_DIR = ''/cache/huggingface/derate-runtime-cache''"

definition vllm_spec :: runtime_spec where
  "vllm_spec =
     \<lparr>rs_name = ''vllm'', sparkrun_runtime = ''vllm'', default_image_env = ''DERATE_VLLM_IMAGE'',
      default_image = ''ghcr.io/pizzaman213/derate/vllm-audio:latest'', max_seqs_key = ''max_num_seqs'',
      command_template = VLLM_COMMAND, expert_parallel_arg = Some ''--enable-expert-parallel'',
      health_path = ''/health'', custom_command_prefix = VLLM_CUSTOM_PREFIX,
      cache_env = [(''VLLM_CACHE_ROOT'', RUNTIME_CACHE_DIR @ ''/vllm'')], shards = True,
      kv_cache_bytes_arg = Some ''--kv-cache-memory-bytes {kv_cache_memory_bytes}''\<rparr>"

definition sglang_spec :: runtime_spec where
  "sglang_spec =
     \<lparr>rs_name = ''sglang'', sparkrun_runtime = ''sglang'', default_image_env = ''DERATE_SGLANG_IMAGE'',
      default_image = ''scitrera/dgx-spark-sglang:0.5.9-t5'', max_seqs_key = ''max_running_requests'',
      command_template = SGLANG_COMMAND, expert_parallel_arg = Some ''--enable-ep-moe'',
      health_path = ''/health'', custom_command_prefix = SGLANG_CUSTOM_PREFIX,
      cache_env = [(''TORCHINDUCTOR_CACHE_DIR'', RUNTIME_CACHE_DIR @ ''/sglang/inductor''),
                   (''TRITON_CACHE_DIR'', RUNTIME_CACHE_DIR @ ''/sglang/triton'')],
      shards = True, kv_cache_bytes_arg = None\<rparr>"

definition tts_spec :: runtime_spec where
  "tts_spec =
     \<lparr>rs_name = ''tts'', sparkrun_runtime = ''vllm'', default_image_env = ''DERATE_TTS_IMAGE'',
      default_image = ''ghcr.io/pizzaman213/derate/tts:latest'', max_seqs_key = ''max_num_seqs'',
      command_template = TTS_COMMAND, expert_parallel_arg = None, health_path = ''/health'',
      custom_command_prefix = TTS_CUSTOM_PREFIX,
      cache_env = [(''DERATE_TTS_VOICE_DIR'', RUNTIME_CACHE_DIR @ ''/voices'')], shards = False,
      kv_cache_bytes_arg = None\<rparr>"

definition RUNTIMES :: "(string, runtime_spec) dict" where
  "RUNTIMES = [(''vllm'', vllm_spec), (''sglang'', sglang_spec), (''tts'', tts_spec)]"

definition runtime_spec_of :: "string \<Rightarrow> runtime_spec result" where
  "runtime_spec_of r =
     (case dget RUNTIMES r of Some s \<Rightarrow> Inr s | None \<Rightarrow> Inl (ValueError ''unknown runtime''))"

definition sharding_refusal :: "string \<Rightarrow> int \<Rightarrow> int \<Rightarrow> int \<Rightarrow> int \<Rightarrow> msg option result" where
  "sharding_refusal r tp pp ep dp =
     bindR (runtime_spec_of r) (\<lambda>spec.
       if shards spec then Inr None
       else let named = filter (\<lambda>(l, v). v > 1)
                  [(''tensor parallel'', tp), (''pipeline parallel'', pp), (''expert parallel'', ep), (''data parallel'', dp)]
            in if named = [] then Inr None
               else Inr (Some (Msg ''cannot shard a model'' (S (rs_name spec) # concat (map (\<lambda>(l, v). [S l, I v]) named)))))"

section \<open>What may reach the recipe and the command\<close>

definition yaml_leading_dangerous :: string where
  "yaml_leading_dangerous = ''-?:,[]{}#&*!|>'' @ [CHR 0x27, CHR 0x22] @ ''%@'' @ [CHR 0x60]"

definition is_control_char :: "char \<Rightarrow> bool" where
  "is_control_char c \<longleftrightarrow> (let n = (of_char c :: nat) in n < 32 \<or> 127 \<le> n \<and> n \<le> 159)"

definition command_first :: "char \<Rightarrow> bool" where
  "command_first c \<longleftrightarrow> is_alnum c \<or> c \<in> set ''/.~''"

definition command_rest :: "char \<Rightarrow> bool" where
  "command_rest c \<longleftrightarrow> is_alnum c \<or> c \<in> set ''._:/~-''"

definition command_safe :: "string \<Rightarrow> bool" where
  "command_safe s = (case s of [] \<Rightarrow> False | c # cs \<Rightarrow> command_first c \<and> list_all command_rest cs)"

definition check_command_safe :: "string \<Rightarrow> unit result" where
  "check_command_safe v =
     (if v \<in> {''~'', ''.'', ''..''} \<or> \<not> command_safe v
      then Inl (ValueError ''not safe to substitute into the launch command'') else Inr ())"

definition check_yaml_safe :: "string \<Rightarrow> unit result" where
  "check_yaml_safe v =
     (if v = [] then Inl (ValueError ''must not be empty'')
      else if CHR 0x0A \<in> set v \<or> CHR 0x0D \<in> set v then Inl (ValueError ''contains a newline'')
      else if list_ex is_control_char v then Inl (ValueError ''contains a control character'')
      else if is_space (hd v) \<or> hd v \<in> set yaml_leading_dangerous
      then Inl (ValueError ''starts with a character YAML would parse as syntax'')
      else Inr ())"

text \<open>An argument begins with at most two dashes.\<close>

definition arg_first :: "char \<Rightarrow> bool" where
  "arg_first c \<longleftrightarrow> is_alnum c \<or> c \<in> set ''_./~''"

definition arg_rest :: "char \<Rightarrow> bool" where
  "arg_rest c \<longleftrightarrow> is_alnum c \<or> c \<in> set ''_.:/~=,+-''"

definition extra_arg_safe :: "string \<Rightarrow> bool" where
  "extra_arg_safe s =
     (let dashes = takeWhile (\<lambda>c. c = CHR ''-'') s in
      length dashes \<le> 2 \<and>
      (case drop (length dashes) s of [] \<Rightarrow> False | c # cs \<Rightarrow> arg_first c \<and> list_all arg_rest cs))"

definition check_extra_args_safe :: "string list \<Rightarrow> unit result" where
  "check_extra_args_safe args =
     (if list_all (\<lambda>t. t \<noteq> [] \<and> extra_arg_safe t) args then Inr ()
      else Inl (ValueError ''not safe to substitute into the launch command''))"

definition check_recipe_identifiers :: "string \<Rightarrow> string \<Rightarrow> unit result" where
  "check_recipe_identifiers model name =
     bindR (check_yaml_safe model) (\<lambda>_.
     bindR (check_yaml_safe name) (\<lambda>_.
     bindR (check_command_safe model) (\<lambda>_.
       check_command_safe name)))"

section \<open>The command and the recipe\<close>

definition serve_command :: "runtime_spec \<Rightarrow> parallelism_plan \<Rightarrow> string list \<Rightarrow> int option \<Rightarrow> string" where
  "serve_command spec plan extra kv =
     command_template spec
     @ (case expert_parallel_arg spec of
          Some a \<Rightarrow> if expert_parallel plan > 1 \<and> a \<noteq> [] then cont @ a else []
        | None \<Rightarrow> [])
     @ (case (kv, kv_cache_bytes_arg spec) of
          (Some n, Some a) \<Rightarrow> if n \<noteq> 0 \<and> a \<noteq> [] then cont @ a else []
        | _ \<Rightarrow> [])
     @ (if extra \<noteq> [] then cont @ str_join '' '' extra else [])"

definition custom_serve_command :: "runtime_spec \<Rightarrow> string list \<Rightarrow> string" where
  "custom_serve_command spec custom =
     custom_command_prefix spec
     @ (if custom \<noteq> [] then cont @ str_join '' '' custom else [])
     @ cont @ ''--host {host}'' @ cont @ ''--port {port}'' @ cont @ ''--served-model-name {served_model_name}''"

definition plan_summary :: "parallelism_plan \<Rightarrow> string" where
  "plan_summary p =
     (let parts = map (\<lambda>(l, v). l @ show_int v) (filter (\<lambda>(l, v). v > 1)
        [(''TP'', tensor_parallel p), (''PP'', pipeline_parallel p),
         (''EP'', expert_parallel p), (''DP'', data_parallel p)])
      in if str_join '' '' parts \<noteq> [] then str_join '' '' parts else ''single node'')"

definition slug_name :: "string \<Rightarrow> string" where
  "slug_name text =
     (let s = take 64 (strip_char (CHR ''-'') (map (\<lambda>c. if py_isalnum c then lower_char c else CHR ''-'') text))
      in if s \<noteq> [] then s else ''model'')"

text \<open>\<open>json.dumps\<close> of text, with every character past ASCII escaped.\<close>

definition hex_digit :: "nat \<Rightarrow> char" where
  "hex_digit n = (if n < 10 then digit_char n else char_of (87 + n))"

definition json_char :: "char \<Rightarrow> string" where
  "json_char c =
     (let n = (of_char c :: nat); bs = CHR 0x5C in
      if n = 34 then [bs, c] else if n = 92 then [bs, bs]
      else if n = 8 then [bs, CHR ''b''] else if n = 9 then [bs, CHR ''t''] else if n = 10 then [bs, CHR ''n'']
      else if n = 12 then [bs, CHR ''f''] else if n = 13 then [bs, CHR ''r'']
      else if n < 32 \<or> 127 < n then bs # ''u00'' @ [hex_digit (n div 16), hex_digit (n mod 16)]
      else [c])"

definition json_quote :: "string \<Rightarrow> string" where
  "json_quote s = CHR 0x22 # concat (map json_char s) @ [CHR 0x22]"

record recipe_env =
  sha256_hex :: "string \<Rightarrow> string"
  env_var :: "string \<Rightarrow> string option"

definition container_image :: "runtime_spec \<Rightarrow> recipe_env \<Rightarrow> string" where
  "container_image spec env =
     (case env_var env (default_image_env spec) of
        Some i \<Rightarrow> if i \<noteq> [] then i else default_image spec
      | None \<Rightarrow> default_image spec)"

record recipe_request =
  rq_shape :: model_shape
  rq_plan :: parallelism_plan
  rq_runtime :: string
  rq_context_length :: int
  rq_max_seqs :: int
  rq_served_name :: string
  rq_port :: int
  rq_utilization :: rat
  rq_kv_bytes :: "int option"
  rq_extra_args :: "string list"
  rq_custom_command :: "string list"

definition recipe_defaults :: "runtime_spec \<Rightarrow> recipe_request \<Rightarrow> (string \<times> string) list" where
  "recipe_defaults spec rq =
     [(''host'', ''0.0.0.0''), (''port'', show_int (rq_port rq)), (''served_model_name'', rq_served_name rq),
      (''tensor_parallel'', show_int (tensor_parallel (rq_plan rq))),
      (''pipeline_parallel'', show_int (pipeline_parallel (rq_plan rq))),
      (''max_model_len'', show_int (rq_context_length rq)), (max_seqs_key spec, show_int (rq_max_seqs rq)),
      (''gpu_memory_utilization'', fmt2 (rq_utilization rq))]
     @ (case (rq_kv_bytes rq, kv_cache_bytes_arg spec) of
          (Some n, Some a) \<Rightarrow> if n \<noteq> 0 \<and> a \<noteq> [] then [(''kv_cache_memory_bytes'', show_int n)] else []
        | _ \<Rightarrow> [])
     @ (if expert_parallel (rq_plan rq) > 1 then [(''expert_parallel'', show_int (expert_parallel (rq_plan rq)))] else [])
     @ (if data_parallel (rq_plan rq) > 1 then [(''data_parallel'', show_int (data_parallel (rq_plan rq)))] else [])"

definition RECIPE_HEADER :: string where
  "RECIPE_HEADER = ''# Generated by derate. Do not edit; regenerated on every launch.''"

definition recipe_body :: "runtime_spec \<Rightarrow> recipe_request \<Rightarrow> string" where
  "recipe_body spec rq =
     (if rq_custom_command rq \<noteq> [] then custom_serve_command spec (rq_custom_command rq)
      else serve_command spec (rq_plan rq) (rq_extra_args rq) (rq_kv_bytes rq))"

text \<open>The lines written, each without the newline that ends it.\<close>

definition recipe_lines :: "runtime_spec \<Rightarrow> string \<Rightarrow> recipe_request \<Rightarrow> string list" where
  "recipe_lines spec img rq =
     [RECIPE_HEADER,
      ''model: '' @ model_id (rq_shape rq),
      ''runtime: '' @ sparkrun_runtime spec,
      ''min_nodes: '' @ show_int (int (length (node_ids (rq_plan rq)))),
      ''container: '' @ img,
      [],
      ''metadata:'',
      ''  description: derate '' @ rq_served_name rq @ '', '' @ kind_value (kind (rq_plan rq)),
      ''  derate_plan: '' @ plan_summary (rq_plan rq)]
     @ (if rq_custom_command rq \<noteq> [] then [''  derate_custom_command: '' @ json_quote (str_join '' '' (rq_custom_command rq))]
        else if rq_extra_args rq \<noteq> [] then [''  derate_extra_args: '' @ json_quote (str_join '' '' (rq_extra_args rq))]
        else [])
     @ [[], ''defaults:'']
     @ map (\<lambda>(k, v). ''  '' @ k @ '': '' @ v) (recipe_defaults spec rq)
     @ (if cache_env spec \<noteq> [] then [[], ''env:''] @ map (\<lambda>(k, v). ''  '' @ k @ '': '' @ v) (cache_env spec) else [])
     @ [[], ''command: |'']
     @ map (\<lambda>l. ''  '' @ l) (splitlines (recipe_body spec rq))"

record recipe_spec =
  rc_name :: string
  rc_content :: string
  rc_served_name :: string
  rc_runtime :: runtime_spec

definition synthesize :: "recipe_env \<Rightarrow> recipe_request \<Rightarrow> recipe_spec result" where
  "synthesize env rq =
     bindR (check_recipe_identifiers (model_id (rq_shape rq)) (rq_served_name rq)) (\<lambda>_.
     bindR (check_extra_args_safe (rq_extra_args rq)) (\<lambda>_.
     bindR (check_extra_args_safe (rq_custom_command rq)) (\<lambda>_.
       if rq_extra_args rq \<noteq> [] \<and> rq_custom_command rq \<noteq> []
       then Inl (ValueError ''extra_args and custom_command are mutually exclusive'')
       else bindR (runtime_spec_of (rq_runtime rq)) (\<lambda>spec.
         let img = container_image spec env in
         bindR (check_yaml_safe img) (\<lambda>_.
           let content = concat (map (\<lambda>l. l @ [CHR 0x0A]) (recipe_lines spec img rq)) in
           Inr \<lparr>rc_name = slug_name (rq_served_name rq) @ ''-'' @ rs_name spec @ ''-''
                   @ take 8 (sha256_hex env content) @ ''.yaml'',
                rc_content = content, rc_served_name = rq_served_name rq, rc_runtime = spec\<rparr>)))))"

section \<open>The command line\<close>

definition default_served_name :: "model_shape \<Rightarrow> string" where
  "default_served_name s =
     (let tail = rev (takeWhile (\<lambda>c. c \<noteq> CHR ''/'') (rev (model_id s)));
          name = takeWhile (\<lambda>c. c \<noteq> CHR '':'') tail
      in if name \<noteq> [] then name else model_id s)"

definition hosts_for :: "(string \<Rightarrow> string option) \<Rightarrow> string list \<Rightarrow> string list" where
  "hosts_for address_of = map (\<lambda>n. case address_of n of Some a \<Rightarrow> a | None \<Rightarrow> n)"

definition knob_values :: "(string \<Rightarrow> string option) \<Rightarrow> recipe_request \<Rightarrow> string option list" where
  "knob_values address_of rq =
     (let p = rq_plan rq; opt = (\<lambda>n. if n > 1 then Some (show_int n) else None) in
      [Some (str_join '','' (hosts_for address_of (node_ids p))),
       Some (show_int (tensor_parallel p)), Some (show_int (pipeline_parallel p)),
       Some (show_int (rq_context_length rq)), Some (rq_served_name rq), Some (show_int (rq_port rq)),
       Some (fmt2 (rq_utilization rq)), Some (show_int (rq_max_seqs rq)),
       opt (expert_parallel p), opt (data_parallel p)])"

definition render_command ::
  "(string \<Rightarrow> string option) \<Rightarrow> string \<Rightarrow> string \<Rightarrow> recipe_request \<Rightarrow> string list result" where
  "render_command address_of binary path rq =
     bindR (runtime_spec_of (rq_runtime rq)) (\<lambda>spec.
       Inr ([binary, ''run'', path]
         @ concat (map2 (\<lambda>k v. emit k v (if kn_name k = ''max_concurrent_seqs'' then Some (max_seqs_key spec) else None))
             KNOBS (knob_values address_of rq))
         @ [''--no-follow'']))"

section \<open>What a launch printed\<close>

definition backend_origin :: "string \<Rightarrow> string" where
  "backend_origin url =
     (if starts_with (rev ''/v1'') (rev url) then take (length url - 3) url
      else rev (dropWhile (\<lambda>c. c = CHR ''/'') (rev url)))"

definition OOM_SIGNATURES :: "string list" where
  "OOM_SIGNATURES =
    [''out of memory'', ''cuda error: out of memory'', ''torch.outofmemoryerror'',
     ''no available memory for the cache blocks'', ''cuda_error_out_of_memory'', ''killed process'', ''oom-kill'',
     ''is less than desired gpu memory utilization'']"

definition is_oom :: "string \<Rightarrow> bool" where
  "is_oom text = list_ex (\<lambda>s. str_contains s (str_lower text)) OOM_SIGNATURES"

text \<open>\<open>\s*$\<close>, \<open>\s+\<close>, and a search that starts at the beginnings of lines.\<close>

definition line_end :: "unit reader" where
  "line_end s = (let w = takeWhile is_space s; t = dropWhile is_space s in
     if t = [] \<or> CHR 0x0A \<in> set w then Some ((), t) else None)"

definition some_blanks :: "unit reader" where
  "some_blanks s = (if takeWhile is_space s = [] then None else blanks s)"

fun line_search :: "bool \<Rightarrow> 'a reader \<Rightarrow> string \<Rightarrow> 'a option" where
  "line_search starts p [] = (if starts then map_option fst (p []) else None)"
| "line_search starts p (c # cs) =
     (case (if starts then p (c # cs) else None) of
        Some (x, t) \<Rightarrow> Some x
      | None \<Rightarrow> line_search (c = CHR 0x0A) p cs)"

definition is_hex :: "char \<Rightarrow> bool" where
  "is_hex c \<longleftrightarrow> is_digit c \<or> c \<in> set ''abcdef''"

definition CLUSTER_ID_RE :: "string reader" where
  "CLUSTER_ID_RE = andThen blanks (\<lambda>_. andThen (lit ''Cluster:'') (\<lambda>_. andThen some_blanks (\<lambda>_.
     andThen (lit ''sparkrun_'') (\<lambda>_ s.
       let ds = takeWhile is_hex s in
       if length ds < 6 then None else andThen line_end (\<lambda>_. give (''sparkrun_'' @ ds)) (dropWhile is_hex s)))))"

definition labelled_host :: "string \<Rightarrow> string reader" where
  "labelled_host label = andThen blanks (\<lambda>_. andThen (lit label) (\<lambda>_. andThen some_blanks (\<lambda>_ s.
     let w = takeWhile (\<lambda>c. \<not> is_space c) s in
     if w = [] then None else andThen line_end (\<lambda>_. give w) (dropWhile (\<lambda>c. \<not> is_space c) s))))"

definition HEAD_HOST_RE :: "string reader" where
  "HEAD_HOST_RE = labelled_host ''Head:''"

definition TARGET_HOST_RE :: "string reader" where
  "TARGET_HOST_RE = labelled_host ''Target:''"

record launch_error =
  le_message :: string
  le_raw :: string
  le_oom :: bool

record launch_result =
  lres_cluster_id :: string
  lres_head_host :: string
  lres_backend_url :: string
  lres_port :: int
  lres_hosts :: "string list"

text \<open>What the process did: it outlived its timeout, or it exited having printed.\<close>

datatype process = Timed_out string | Exited int string

definition launch_outcome :: "rat \<Rightarrow> int \<Rightarrow> string list \<Rightarrow> process \<Rightarrow> launch_error + launch_result" where
  "launch_outcome timeout port hosts proc =
     (case proc of
        Timed_out raw \<Rightarrow>
          Inl \<lparr>le_message = ''sparkrun did not return within '' @ fmt0 timeout @ ''s'', le_raw = raw, le_oom = is_oom raw\<rparr>
      | Exited code raw \<Rightarrow>
        if code \<noteq> 0 then Inl \<lparr>le_message = ''sparkrun exited '' @ show_int code, le_raw = raw, le_oom = is_oom raw\<rparr>
        else (case line_search True CLUSTER_ID_RE raw of
            None \<Rightarrow> Inl \<lparr>le_message = ''sparkrun exited 0 but printed no cluster id; cannot track this workload'', le_raw = raw, le_oom = is_oom raw\<rparr>
          | Some cid \<Rightarrow>
            let found = (case line_search True HEAD_HOST_RE raw of
                           Some h \<Rightarrow> Some h | None \<Rightarrow> line_search True TARGET_HOST_RE raw);
                head_host = (case found of Some h \<Rightarrow> h | None \<Rightarrow> if hosts \<noteq> [] then hd hosts else [])
            in if head_host = []
               then Inl \<lparr>le_message = ''sparkrun printed no head host and the plan named no nodes'', le_raw = raw, le_oom = is_oom raw\<rparr>
               else Inr \<lparr>lres_cluster_id = cid, lres_head_host = head_host,
                         lres_backend_url = ''http://'' @ head_host @ '':'' @ show_int port @ ''/v1'',
                         lres_port = port, lres_hosts = hosts\<rparr>))"

text \<open>Asking whether a workload runs: the binary is missing, it did not answer in time, it printed an
  object, or it printed none. \<open>None\<close> is unknown.\<close>

datatype job_answer = Not_available | No_answer | Answered "json_object" | No_object int

fun is_running :: "job_answer \<Rightarrow> bool option" where
  "is_running Not_available = None"
| "is_running No_answer = None"
| "is_running (Answered payload) = map_option truth_of (some_unless_null (dget payload ''running''))"
| "is_running (No_object code) = Some (code = 0)"

section \<open>Matching a process to a deployment\<close>

fun port_at :: "string \<Rightarrow> bool \<Rightarrow> string \<Rightarrow> bool" where
  "port_at num after_digit [] = False"
| "port_at num after_digit (c # cs) =
     (\<not> after_digit \<and> starts_with num (c # cs)
        \<and> (case drop (length num) (c # cs) of [] \<Rightarrow> True | d # _ \<Rightarrow> \<not> is_digit d)
      \<or> port_at num (is_digit c) cs)"

definition port_in :: "string \<Rightarrow> int \<Rightarrow> bool" where
  "port_in command port \<longleftrightarrow>
     (if command = [] \<or> port = 0 then False else port_at (show_int port) False command)"

definition matches_deployment :: "string \<Rightarrow> string option \<Rightarrow> int option \<Rightarrow> bool" where
  "matches_deployment command cluster port \<longleftrightarrow>
     (if command = [] then False
      else if (case cluster of Some c \<Rightarrow> c \<noteq> [] \<and> str_contains c command | None \<Rightarrow> False) then True
      else (case port of Some p \<Rightarrow> p \<noteq> 0 \<and> port_in command p | None \<Rightarrow> False))"

end
