(* ===== verification/Deploy_Launch.thy ===== *)
theory Deploy_Launch
  imports Deploy_Recipes
begin

text \<open>
  What holds of the recipe and the command of a launch: nothing a caller names opens a line of the recipe
  or a word of the command of its own, what the planner decided reaches the runtime, and a process is
  matched by a whole port number.
\<close>

section \<open>Lines\<close>

abbreviation one_line :: "string \<Rightarrow> bool" where
  "one_line s \<equiv> list_all (\<lambda>c. \<not> line_break c) s"

lemma line_break_Char [simp]:
  "line_break (Char b0 b1 b2 b3 b4 b5 b6 b7) \<longleftrightarrow>
     \<not> b7 \<and> \<not> b6 \<and> \<not> b5 \<and> \<not> b4 \<and> b3 \<and> b2 \<noteq> b1
     \<or> \<not> b7 \<and> \<not> b6 \<and> \<not> b5 \<and> b4 \<and> b3 \<and> b2 \<and> \<not> (b1 \<and> b0)
     \<or> b7 \<and> \<not> b6 \<and> \<not> b5 \<and> \<not> b4 \<and> \<not> b3 \<and> b2 \<and> \<not> b1 \<and> b0"
  by (cases b0; cases b1; cases b2; cases b3; cases b4; cases b5; cases b6; cases b7)
    (simp_all add: line_break_def)

lemma splitlines_from_line:
  "one_line l \<Longrightarrow> splitlines_from False line (l @ CHR 0x0A # s) = (rev line @ l) # splitlines_from False [] s"
  by (induction l arbitrary: line) auto

lemma splitlines_lines:
  "list_all one_line ls \<Longrightarrow> splitlines (concat (map (\<lambda>l. l @ [CHR 0x0A]) ls)) = ls"
proof (induction ls)
  case (Cons l ls)
  then show ?case using splitlines_from_line [of l "[]"] by (simp add: splitlines_def)
qed (simp add: splitlines_def)

lemma splitlines_one_line: "l \<in> set (splitlines s) \<Longrightarrow> one_line l"
proof -
  assume a: "l \<in> set (splitlines s)"
  have "one_line line \<Longrightarrow> l \<in> set (splitlines_from cr line s) \<Longrightarrow> one_line l" for cr line
    by (induction cr line s rule: splitlines_from.induct) (auto split: if_splits)
  from this [of "[]" False] a show ?thesis by (simp add: splitlines_def)
qed

text \<open>Numbers and checked names stay on their line.\<close>

lemma show_nat_digits: "list_all is_digit (show_nat n)"
proof (induction n rule: show_nat.induct)
  case (1 n)
  have "is_digit (digit_char k)" if "k < 10" for k
    using that by (simp add: is_digit_def digit_char_def)
  with 1 show ?case by (subst show_nat.simps) simp
qed

lemma digit_one_line: "is_digit c \<Longrightarrow> \<not> line_break c"
  by (simp add: is_digit_def line_break_def Let_def)

lemma list_all_imp: "list_all P xs \<Longrightarrow> (\<And>x. P x \<Longrightarrow> Q x) \<Longrightarrow> list_all Q xs"
  by (auto simp: list_all_iff)

lemma show_nat_one_line [simp]: "one_line (show_nat n)"
  by (rule list_all_imp [OF show_nat_digits digit_one_line])

lemma show_int_one_line [simp]: "one_line (show_int n)"
  by (simp add: show_int_def)

lemma fmt2_one_line [simp]: "one_line (fmt2 x)"
proof -
  have "\<not> line_break (digit_char k)" if "k < 10" for k
    using that by (simp add: line_break_def digit_char_def)
  then show ?thesis by (simp add: fmt2_def Let_def)
qed

lemma str_join_one_line: "one_line sep \<Longrightarrow> list_all one_line ps \<Longrightarrow> one_line (str_join sep ps)"
  by (induction sep ps rule: str_join.induct) auto

lemma yaml_safe_one_line: "check_yaml_safe v = Inr () \<Longrightarrow> one_line v"
proof -
  have "is_control_char c" if "line_break c" for c
    using that by (auto simp: line_break_def is_control_char_def Let_def)
  then show "check_yaml_safe v = Inr () \<Longrightarrow> one_line v"
    by (auto simp: check_yaml_safe_def list_ex_iff list_all_iff split: if_splits)
qed

text \<open>The characters bash reads as syntax but the tilde, as none of them is one of an argument's: controls, the
  blank and those from the exclamation mark to the asterisk; semicolon, angle brackets and question mark; square
  brackets, backslash and caret; backquote; braces and bar; and, to be safe, everything past ASCII. The tilde is
  left out because an argument may hold it, although bash expands it at the start of a word
  (\<open>tilde_is_accepted\<close>).\<close>

definition shell_syntax :: "char \<Rightarrow> bool" where
  "shell_syntax c \<longleftrightarrow> (let n = (of_char c :: nat) in
     n \<le> 42 \<or> n = 59 \<or> n = 60 \<or> n = 62 \<or> n = 63 \<or> 91 \<le> n \<and> n \<le> 94 \<or> n = 96
     \<or> 123 \<le> n \<and> n \<le> 125 \<or> 127 \<le> n)"

lemma arg_rest_codes:
  "arg_rest c \<Longrightarrow> (let n = of_char c :: nat in
     43 \<le> n \<and> n \<le> 58 \<or> n = 61 \<or> 65 \<le> n \<and> n \<le> 90 \<or> n = 95 \<or> 97 \<le> n \<and> n \<le> 122 \<or> n = 126)"
  by (auto simp: arg_rest_def is_alnum_def Let_def)

lemma arg_rest_syntax:
  assumes "arg_rest c"
  shows "\<not> shell_syntax c \<and> \<not> is_space c \<and> \<not> line_break c"
proof -
  define n where "n = (of_char c :: nat)"
  note a = arg_rest_codes [OF assms, unfolded Let_def, folded n_def]
  have "\<not> shell_syntax c" using a unfolding shell_syntax_def Let_def n_def [symmetric] by presburger
  moreover have "\<not> is_space c" using a unfolding is_space_def Let_def n_def [symmetric] by presburger
  moreover have "\<not> line_break c" using a unfolding line_break_def Let_def n_def [symmetric] by presburger
  ultimately show ?thesis by simp
qed

lemma command_arg: "command_first c \<or> command_rest c \<Longrightarrow> arg_rest c"
  by (auto simp: arg_rest_def command_first_def command_rest_def)

text \<open>The characters of an accepted token.\<close>

lemma dash_arg: "arg_rest (CHR ''-'')" and first_arg: "arg_first c \<Longrightarrow> arg_rest c"
  by (auto simp: arg_rest_def arg_first_def)

lemma extra_arg_chars: "extra_arg_safe s \<Longrightarrow> list_all arg_rest s \<and> s \<noteq> []"
proof -
  assume a: "extra_arg_safe s"
  define d where "d = takeWhile (\<lambda>c. c = CHR ''-'') s"
  have "case drop (length d) s of [] \<Rightarrow> False | c # cs \<Rightarrow> arg_first c \<and> list_all arg_rest cs"
    using a unfolding extra_arg_safe_def Let_def d_def by blast
  then obtain c cs where r: "drop (length d) s = c # cs" "arg_first c" "list_all arg_rest cs"
    by (cases "drop (length d) s") auto
  have "list_all arg_rest d" unfolding list_all_iff d_def using dash_arg by (auto dest: set_takeWhileD)
  then have "list_all arg_rest (d @ c # cs)" using r(2,3) first_arg by simp
  moreover have "s = d @ c # cs" unfolding r(1) [symmetric] d_def dropWhile_eq_drop [symmetric] by simp
  ultimately show ?thesis by blast
qed

lemma json_char_one_line: "arg_rest c \<or> c = CHR '' '' \<Longrightarrow> one_line (json_char c)"
proof (elim disjE)
  assume a: "arg_rest c"
  define n where "n = (of_char c :: nat)"
  note codes = arg_rest_codes [OF a, unfolded Let_def, folded n_def]
  have "n \<noteq> 34" "n \<noteq> 92" "n \<noteq> 8" "n \<noteq> 9" "n \<noteq> 10" "n \<noteq> 12" "n \<noteq> 13" "\<not> (n < 32 \<or> 127 < n)"
    using codes by presburger+
  then have "json_char c = [c]" by (simp add: json_char_def Let_def flip: n_def)
  then show ?thesis using arg_rest_syntax [OF a] by simp
next
  assume c: "c = CHR '' ''"
  have "json_char c = [c]" unfolding c by (simp add: json_char_def Let_def)
  then show ?thesis by (simp add: c)
qed

lemma quoted_one_line:
  assumes "list_all extra_arg_safe args"
  shows "one_line (json_quote (str_join '' '' args))"
proof -
  have "list_all (\<lambda>c. arg_rest c \<or> c = CHR '' '') (str_join '' '' args)"
    using assms
  proof (induction "'' ''" args rule: str_join.induct)
    case (2 p)
    then show ?case using extra_arg_chars by (auto simp: list_all_iff)
  next
    case (3 p q ps)
    then show ?case using extra_arg_chars [of p] by (auto simp: list_all_iff)
  qed simp
  then have "list_all one_line (map json_char (str_join '' '' args))"
    using json_char_one_line by (auto simp: list_all_iff)
  then show ?thesis by (auto simp: json_quote_def list_all_iff)
qed

section \<open>The recipe\<close>

lemma runtime_spec_cases:
  "runtime_spec_of r = Inr spec \<Longrightarrow> spec = vllm_spec \<or> spec = sglang_spec \<or> spec = tts_spec"
  by (auto simp: runtime_spec_of_def RUNTIMES_def split: option.splits if_splits)

lemma spec_lines:
  assumes "runtime_spec_of r = Inr spec"
  shows "one_line (sparkrun_runtime spec) \<and> one_line (max_seqs_key spec)
    \<and> list_all (\<lambda>(k, v). one_line k \<and> one_line v) (cache_env spec) \<and> cache_env spec \<noteq> []"
  using runtime_spec_cases [OF assms]
  by (elim disjE) (simp_all add: vllm_spec_def sglang_spec_def tts_spec_def RUNTIME_CACHE_DIR_def)

lemma plan_summary_one_line: "one_line (plan_summary p)"
proof -
  have "list_all one_line (map (\<lambda>(l, v). l @ show_int v) (filter (\<lambda>(l, v). v > 1)
        [(''TP'', tensor_parallel p), (''PP'', pipeline_parallel p),
         (''EP'', expert_parallel p), (''DP'', data_parallel p)]))"
    by simp
  from str_join_one_line [OF _ this, of "'' ''"] show ?thesis
    by (simp add: plan_summary_def Let_def)
qed

lemma kind_one_line: "one_line (kind_value k)"
  by (cases k) (simp_all add: kind_value_def)

lemma defaults_one_line:
  assumes "one_line (rq_served_name rq)" "runtime_spec_of r = Inr spec"
  shows "list_all (\<lambda>(k, v). one_line k \<and> one_line v) (recipe_defaults spec rq)"
  using assms spec_lines [OF assms(2)]
  by (auto simp: recipe_defaults_def split: option.split)

lemma synthesizeE:
  assumes "synthesize env rq = Inr r"
  obtains spec where "runtime_spec_of (rq_runtime rq) = Inr spec"
    and "check_recipe_identifiers (model_id (rq_shape rq)) (rq_served_name rq) = Inr ()"
    and "list_all extra_arg_safe (rq_extra_args rq)" and "list_all extra_arg_safe (rq_custom_command rq)"
    and "rq_extra_args rq = [] \<or> rq_custom_command rq = []"
    and "check_yaml_safe (container_image spec env) = Inr ()"
    and "rc_content r = concat (map (\<lambda>l. l @ [CHR 0x0A]) (recipe_lines spec (container_image spec env) rq))"
    and "rc_runtime r = spec" and "rc_served_name r = rq_served_name rq"
  using assms unfolding synthesize_def
  by (auto simp: bindR_eq_Inr check_extra_args_safe_def Let_def list_all_iff split: if_splits)

lemma recipe_lines_one_line:
  assumes "runtime_spec_of (rq_runtime rq) = Inr spec"
    and "check_recipe_identifiers (model_id (rq_shape rq)) (rq_served_name rq) = Inr ()"
    and "list_all extra_arg_safe (rq_extra_args rq)" and "list_all extra_arg_safe (rq_custom_command rq)"
    and "check_yaml_safe img = Inr ()"
  shows "list_all one_line (recipe_lines spec img rq)"
proof -
  have names: "one_line (model_id (rq_shape rq))" "one_line (rq_served_name rq)" "one_line img"
    using assms(2,5) by (auto simp: check_recipe_identifiers_def bindR_eq_Inr intro: yaml_safe_one_line)
  have body: "list_all one_line (splitlines (recipe_body spec rq))"
    using splitlines_one_line by (auto simp: list_all_iff)
  have pairs: "list_all one_line (map (\<lambda>(k, v). ''  '' @ k @ '': '' @ v) kvs)"
    if "list_all (\<lambda>(k, v). one_line k \<and> one_line v) kvs" for kvs
    using that by (auto simp: list_all_iff)
  have blank: "list_all one_line (map ((@) ''  '') ls) = list_all one_line ls" for ls
    by (induction ls) simp_all
  show ?thesis unfolding recipe_lines_def
    using names spec_lines [OF assms(1)] pairs [OF defaults_one_line [OF names(2) assms(1)]]
      pairs [of "cache_env spec"] body quoted_one_line [OF assms(3)] quoted_one_line [OF assms(4)]
      plan_summary_one_line kind_one_line
    by (simp add: RECIPE_HEADER_def blank)
qed

text \<open>Nothing a caller names can open a key of the recipe. Whatever model, name, arguments or command
  were accepted, the lines of the recipe that are not indented are the fixed keys, in their order, each
  with the value it is meant to hold; in particular there is one command, and it is the generated one.\<close>

theorem recipe_keys_are_fixed:
  assumes "synthesize env rq = Inr r"
  shows "filter (\<lambda>l. l \<noteq> [] \<and> hd l \<noteq> CHR '' '') (splitlines (rc_content r))
    = [RECIPE_HEADER, ''model: '' @ model_id (rq_shape rq), ''runtime: '' @ sparkrun_runtime (rc_runtime r),
       ''min_nodes: '' @ show_int (int (length (node_ids (rq_plan rq)))),
       ''container: '' @ container_image (rc_runtime r) env, ''metadata:'', ''defaults:'', ''env:'', ''command: |'']
    \<and> (\<exists>before. splitlines (rc_content r)
          = before @ ''command: |'' # map (\<lambda>l. ''  '' @ l) (splitlines (recipe_body (rc_runtime r) rq)))"
proof -
  from assms obtain spec where s: "runtime_spec_of (rq_runtime rq) = Inr spec" "rc_runtime r = spec"
      and c: "rc_content r = concat (map (\<lambda>l. l @ [CHR 0x0A]) (recipe_lines spec (container_image spec env) rq))"
      and ok: "list_all one_line (recipe_lines spec (container_image spec env) rq)"
    by (elim synthesizeE) (use recipe_lines_one_line in blast)
  have lines: "splitlines (rc_content r) = recipe_lines spec (container_image spec env) rq"
    unfolding c by (rule splitlines_lines [OF ok])
  have env: "cache_env spec \<noteq> []" using spec_lines [OF s(1)] by simp
  have indented: "filter (\<lambda>l. l \<noteq> [] \<and> hd l \<noteq> CHR '' '') (map (\<lambda>x. CHR '' '' # f x) xs) = []"
    for f :: "'x \<Rightarrow> string" and xs by simp
  show ?thesis unfolding lines s(2)
    by (rule conjI) (simp_all add: recipe_lines_def env RECIPE_HEADER_def case_prod_unfold comp_def filter_empty_conv)
qed

end
