(* ===== verification/Deploy_Command.thy ===== *)
theory Deploy_Command
  imports Deploy_Launch
begin

text \<open>
  What holds of the command of a launch (\<open>control_plane/deploy/recipes.py\<close>): its words are the template's,
  the plan's and the caller's tokens, one word each; what the planner decided reaches the runtime; and a
  process is matched by a whole port number (\<open>control_plane/procmatch.py\<close>).
\<close>

section \<open>The command\<close>

lemma words_drop: "words (dropWhile is_space s @ t) = words (s @ t)"
  by (induction s) (simp_all add: words_blank)

lemma words_before_space:
  assumes "is_space c"
  shows "words (s @ c # t) = words s @ words t"
proof (induction s rule: words.induct)
  case (1 s)
  show ?case
  proof (cases "dropWhile is_space s")
    case Nil
    then have "words (s @ c # t) = words t" "words s = []"
      using words_drop [of s "c # t"] words_drop [of s "[]"] assms by (simp_all add: words_blank words.simps [of "[]"] del: dropWhile_eq_Nil_conv)
    then show ?thesis by simp
  next
    case (Cons d ds)
    let ?w = "\<lambda>c. \<not> is_space c"
    let ?a = "takeWhile ?w (d # ds)" and ?b = "dropWhile ?w (d # ds)"
    have "\<not> is_space d" using Cons by (simp add: dropWhile_eq_Cons_conv)
    then have a: "list_all ?w ?a" "?a \<noteq> []" by (auto simp: list_all_iff dest: set_takeWhileD)
    have b: "?b = [] \<or> is_space (hd ?b)" using hd_dropWhile [of ?w "d # ds"] by blast
    have "words (s @ c # t) = words ((d # ds) @ c # t)" using words_drop [of s "c # t"] Cons by simp
    also have "(d # ds) @ c # t = ?a @ (?b @ c # t)" by (metis append_assoc takeWhile_dropWhile_id)
    also have "words \<dots> = ?a # words (?b @ c # t)"
      using words_single [OF a, of "?b @ c # t"] b assms by (cases ?b) auto
    also have "\<dots> = (?a # words ?b) @ words t" using 1 [OF Cons] by simp
    also have "?a # words ?b = words (d # ds)" using words_single [OF a b] by (simp only: takeWhile_dropWhile_id)
    also have "words (d # ds) = words s" using words_drop [of s "[]"] Cons by simp
    finally show ?thesis .
  qed
qed

text \<open>The words of a command without the backslashes that continue it.\<close>

definition command_words :: "string \<Rightarrow> string list" where
  "command_words s = filter (\<lambda>w. w \<noteq> [CHR 0x5C]) (words s)"

lemma is_space_Char_blank [simp]: "is_space (CHR '' '')"
  by (simp add: is_space_def)

lemma words_cont: "words (s @ cont @ t) = words s @ [CHR 0x5C] # words t"
proof -
  have "words (s @ cont @ t) = words s @ words ([CHR 0x5C] @ CHR 0x0A # ''    '' @ t)"
    using words_before_space [of "CHR '' ''" s] by (simp add: cont_def)
  also have "words ([CHR 0x5C] @ CHR 0x0A # ''    '' @ t) = [[CHR 0x5C]] @ words (''    '' @ t)"
  proof -
    have "is_space (CHR 0x0A)" "words [CHR 0x5C] = [[CHR 0x5C]]"
      by (simp add: is_space_def, simp add: words.simps is_space_def)
    then show ?thesis using words_before_space [of "CHR 0x0A" "[CHR 0x5C]" "''    '' @ t"] by simp
  qed
  also have "words (''    '' @ t) = words t" by (simp add: words_blank)
  finally show ?thesis by simp
qed

lemma command_words_cont: "command_words (s @ cont @ t) = command_words s @ command_words t"
  by (simp add: command_words_def words_cont)

text \<open>An accepted token is one word; the characters a shell reads as syntax are none of its characters.\<close>

definition inert :: "string \<Rightarrow> bool" where
  "inert s \<longleftrightarrow> list_all (\<lambda>c. \<not> shell_syntax c) s"

lemma safe_chars:
  "arg_rest c \<Longrightarrow> \<not> shell_syntax c \<and> \<not> is_space c"
  "command_first c \<or> command_rest c \<Longrightarrow> arg_rest c"
  using arg_rest_syntax [of c] command_arg [of c] by simp_all

lemma inert_token: "extra_arg_safe t \<Longrightarrow> inert t"
  using extra_arg_chars [of t] safe_chars by (auto simp: inert_def list_all_iff)

lemma inert_name: "check_command_safe s = Inr () \<Longrightarrow> inert s"
  using safe_chars by (auto simp: check_command_safe_def command_safe_def inert_def list_all_iff
      split: if_splits list.splits)

lemma backslash: "shell_syntax (CHR 0x5C)"
  by (simp add: shell_syntax_def)

lemma command_words_tokens:
  assumes "list_all extra_arg_safe ts"
  shows "command_words (str_join '' '' ts) = ts"
proof -
  have "words (str_join '' '' ts) = ts"
    using assms extra_arg_chars safe_chars by (intro words_join) (auto simp: list_all_iff)
  moreover have "t \<noteq> [CHR 0x5C]" if "t \<in> set ts" for t
    using that assms inert_token [of t] by (auto simp: list_all_iff inert_def backslash)
  ultimately show ?thesis by (simp add: command_words_def filter_id_conv)
qed

definition generated_flags :: "runtime_spec \<Rightarrow> recipe_request \<Rightarrow> string list" where
  "generated_flags spec rq =
     (if expert_parallel (rq_plan rq) > 1 then (case expert_parallel_arg spec of Some a \<Rightarrow> [a] | None \<Rightarrow> []) else [])
     @ (case (rq_kv_bytes rq, kv_cache_bytes_arg spec) of
          (Some n, Some a) \<Rightarrow> if n \<noteq> 0 then [''--kv-cache-memory-bytes'', ''{kv_cache_memory_bytes}''] else []
        | _ \<Rightarrow> [])"

lemma flag_words:
  assumes "runtime_spec_of r = Inr spec"
  shows "expert_parallel_arg spec = Some a \<Longrightarrow> a \<noteq> [] \<and> command_words a = [a]"
    and "kv_cache_bytes_arg spec = Some b \<Longrightarrow>
      b \<noteq> [] \<and> command_words b = [''--kv-cache-memory-bytes'', ''{kv_cache_memory_bytes}'']"
proof -
  have w: "command_words ''--enable-expert-parallel'' = [''--enable-expert-parallel'']"
    "command_words ''--enable-ep-moe'' = [''--enable-ep-moe'']"
    "command_words ''--kv-cache-memory-bytes {kv_cache_memory_bytes}''
       = [''--kv-cache-memory-bytes'', ''{kv_cache_memory_bytes}'']"
    by code_simp+
  show "expert_parallel_arg spec = Some a \<Longrightarrow> a \<noteq> [] \<and> command_words a = [a]"
    "kv_cache_bytes_arg spec = Some b \<Longrightarrow>
      b \<noteq> [] \<and> command_words b = [''--kv-cache-memory-bytes'', ''{kv_cache_memory_bytes}'']"
    using runtime_spec_cases [OF assms] w
    by (auto simp: vllm_spec_def sglang_spec_def tts_spec_def)
qed

text \<open>C40: a caller's tokens stay words. The generated command of an accepted request is, word for word, the
  template's, then the flags that expert parallelism and the cache budget call for, then exactly the caller's
  tokens, one word each and in their order; the degree of data parallelism is not on it (see below). A custom
  command is the model's words, the caller's tokens, and the three flags the gateway routes by after them, with
  no flag of the plan. No token and neither name holds a character a shell reads as syntax but the tilde, which
  is accepted, and which bash expands at the start of a word.\<close>

theorem tokens_stay_words:
  assumes "synthesize env rq = Inr r"
  shows "command_words (recipe_body (rc_runtime r) rq) =
      (if rq_custom_command rq = []
       then command_words (command_template (rc_runtime r)) @ generated_flags (rc_runtime r) rq @ rq_extra_args rq
       else command_words (custom_command_prefix (rc_runtime r)) @ rq_custom_command rq
            @ [''--host'', ''{host}'', ''--port'', ''{port}'', ''--served-model-name'', ''{served_model_name}''])
    \<and> list_all inert (model_id (rq_shape rq) # rq_served_name rq # rq_extra_args rq @ rq_custom_command rq)"
proof -
  from assms obtain spec where s: "runtime_spec_of (rq_runtime rq) = Inr spec" "rc_runtime r = spec"
      and names: "check_recipe_identifiers (model_id (rq_shape rq)) (rq_served_name rq) = Inr ()"
      and args: "list_all extra_arg_safe (rq_extra_args rq)" "list_all extra_arg_safe (rq_custom_command rq)"
    by (elim synthesizeE) blast
  have "inert (model_id (rq_shape rq))" "inert (rq_served_name rq)"
    using names by (auto simp: check_recipe_identifiers_def bindR_eq_Inr intro: inert_name)
  moreover have "list_all inert (rq_extra_args rq)" "list_all inert (rq_custom_command rq)"
    using args inert_token by (auto simp: list_all_iff)
  moreover have optional: "command_words (s @ (if P then cont @ t else [])) = command_words s @ (if P then command_words t else [])"
    for P s t by (simp add: command_words_cont)
  have "command_words (serve_command spec (rq_plan rq) (rq_extra_args rq) (rq_kv_bytes rq))
      = command_words (command_template spec) @ generated_flags spec rq @ rq_extra_args rq"
    using flag_words [OF s(1)] command_words_tokens [OF args(1)]
    by (cases "expert_parallel_arg spec"; cases "kv_cache_bytes_arg spec"; cases "rq_kv_bytes rq")
      (simp_all add: serve_command_def generated_flags_def optional command_words_cont flip: append_assoc)
  moreover have "command_words (custom_serve_command spec (rq_custom_command rq))
      = command_words (custom_command_prefix spec) @ rq_custom_command rq
        @ [''--host'', ''{host}'', ''--port'', ''{port}'', ''--served-model-name'', ''{served_model_name}'']"
  proof -
    define h p n where "h = ''--host {host}''" and "p = ''--port {port}''" and "n = ''--served-model-name {served_model_name}''"
    have "command_words h = [''--host'', ''{host}'']" "command_words p = [''--port'', ''{port}'']"
      "command_words n = [''--served-model-name'', ''{served_model_name}'']"
      unfolding h_def p_def n_def by code_simp+
    moreover have "custom_serve_command spec ts = custom_command_prefix spec
        @ (if ts \<noteq> [] then cont @ str_join '' '' ts else []) @ cont @ h @ cont @ p @ cont @ n" for ts
      unfolding custom_serve_command_def h_def p_def n_def ..
    ultimately show ?thesis using command_words_tokens [OF args(2)]
      by (cases "rq_custom_command rq = []") (simp_all add: command_words_cont)
  qed
  ultimately show ?thesis by (simp add: s(2) recipe_body_def)
qed

text \<open>A bare tilde is refused as a name and accepted as a token; bash makes the home directory of it.\<close>

lemma tilde_is_accepted:
  "check_extra_args_safe [''~''] = Inr () \<and> check_extra_args_safe [''~root/x''] = Inr ()
   \<and> (case check_command_safe ''~'' of Inl e \<Rightarrow> True | Inr u \<Rightarrow> False) \<and> check_command_safe ''~/models/llama'' = Inr ()"
  by code_simp

section \<open>What the planner decided reaches the runtime\<close>

definition placeholder :: "string \<Rightarrow> string" where
  "placeholder key = ''{'' @ key @ ''}''"

text \<open>Every knob but the hosts and the expert and data degrees is named by every command template.\<close>

lemma knobs_reach_every_runtime:
  "list_all (\<lambda>(r, spec). list_all (\<lambda>k. kn_name k \<in> {''hosts'', ''expert_parallel'', ''data_parallel''}
      \<or> str_contains (placeholder (if kn_name k = ''max_concurrent_seqs'' then max_seqs_key spec else kn_recipe_key k))
          (command_template spec)) KNOBS) RUNTIMES"
  by code_simp

text \<open>The data parallel degree is put on the command line and in the recipe's defaults, and no template
  and no appended flag names it: whatever the plan asks for, the runtime is started the same.\<close>

lemma data_parallel_dropped:
  "list_all (\<lambda>(r, spec). \<not> str_contains (placeholder ''data_parallel'') (command_template spec)
      \<and> (\<forall>a. expert_parallel_arg spec = Some a \<longrightarrow> \<not> str_contains (placeholder ''data_parallel'') a)
      \<and> (\<forall>a. kv_cache_bytes_arg spec = Some a \<longrightarrow> \<not> str_contains (placeholder ''data_parallel'') a)) RUNTIMES"
  "serve_command spec (p\<lparr>data_parallel := n\<rparr>) extra kv = serve_command spec p extra kv"
proof -
  have *: "(\<forall>a. x = Some a \<longrightarrow> P a) \<longleftrightarrow> (case x of None \<Rightarrow> True | Some a \<Rightarrow> P a)" for x :: "string option" and P
    by (cases x) auto
  show "list_all (\<lambda>(r, spec). \<not> str_contains (placeholder ''data_parallel'') (command_template spec)
      \<and> (\<forall>a. expert_parallel_arg spec = Some a \<longrightarrow> \<not> str_contains (placeholder ''data_parallel'') a)
      \<and> (\<forall>a. kv_cache_bytes_arg spec = Some a \<longrightarrow> \<not> str_contains (placeholder ''data_parallel'') a)) RUNTIMES"
    unfolding * by code_simp
  show "serve_command spec (p\<lparr>data_parallel := n\<rparr>) extra kv = serve_command spec p extra kv"
    by (simp add: serve_command_def split: option.split)
qed

text \<open>A custom command for a runtime that takes its model by flag can name another model after it.\<close>

lemma custom_command_renames_model:
  "check_extra_args_safe [''--model-path'', ''other/model''] = Inr ()
   \<and> command_words (custom_serve_command sglang_spec [''--model-path'', ''other/model''])
     = [''python3'', ''-m'', ''sglang.launch_server'', ''--model-path'', ''{model}'', ''--model-path'', ''other/model'',
        ''--host'', ''{host}'', ''--port'', ''{port}'', ''--served-model-name'', ''{served_model_name}'']"
  by code_simp

section \<open>A launch that returns is addressable\<close>

lemma andThen_Some: "andThen p f s = Some y \<longleftrightarrow> (\<exists>x t. p s = Some (x, t) \<and> f x t = Some y)"
  by (auto simp: andThen_def split: option.splits)

lemma line_search_finds: "line_search starts p s = Some x \<Longrightarrow> \<exists>t u. p t = Some (x, u)"
  by (induction starts p s rule: line_search.induct) (auto split: option.splits if_splits)

lemma launch_is_addressable:
  assumes "launch_outcome timeout port hosts proc = Inr res"
  shows "(\<exists>raw. proc = Exited 0 raw)
    \<and> (\<exists>ds. lres_cluster_id res = ''sparkrun_'' @ ds \<and> 6 \<le> length ds \<and> list_all is_hex ds)
    \<and> lres_head_host res \<noteq> [] \<and> lres_port res = port \<and> lres_hosts res = hosts
    \<and> lres_backend_url res = ''http://'' @ lres_head_host res @ '':'' @ show_int port @ ''/v1''"
proof -
  obtain raw cid where p: "proc = Exited 0 raw" "line_search True CLUSTER_ID_RE raw = Some cid"
      "lres_cluster_id res = cid" "lres_head_host res \<noteq> []" "lres_port res = port" "lres_hosts res = hosts"
      "lres_backend_url res = ''http://'' @ lres_head_host res @ '':'' @ show_int port @ ''/v1''"
    using assms by (auto simp: launch_outcome_def Let_def split: process.splits if_splits option.splits)
  obtain t u where "CLUSTER_ID_RE t = Some (cid, u)" using line_search_finds [OF p(2)] by blast
  then obtain s where "cid = ''sparkrun_'' @ takeWhile is_hex s" "6 \<le> length (takeWhile is_hex s)"
    by (auto simp: CLUSTER_ID_RE_def andThen_Some give_def Let_def split: if_splits)
  moreover have "list_all is_hex (takeWhile is_hex s)" by (auto simp: list_all_iff dest: set_takeWhileD)
  ultimately show ?thesis using p by auto
qed

section \<open>A process is matched by a whole port number\<close>

lemma starts_with_iff: "starts_with p s \<longleftrightarrow> (\<exists>t. s = p @ t)"
  by (induction p s rule: starts_with.induct) auto

lemma show_nat_nonempty: "show_nat n \<noteq> []"
  by (subst show_nat.simps) simp

lemma show_int_nonempty: "show_int n \<noteq> []"
  by (simp add: show_int_def show_nat_nonempty)

definition stands_alone :: "string \<Rightarrow> bool \<Rightarrow> string \<Rightarrow> bool" where
  "stands_alone num after_digit s \<longleftrightarrow> (\<exists>a b. s = a @ num @ b
     \<and> (if a = [] then \<not> after_digit else \<not> is_digit (last a)) \<and> (b = [] \<or> \<not> is_digit (hd b)))"

lemma stands_alone_Cons:
  "num \<noteq> [] \<Longrightarrow> stands_alone num after_digit (c # cs) \<longleftrightarrow>
     \<not> after_digit \<and> (\<exists>b. c # cs = num @ b \<and> (b = [] \<or> \<not> is_digit (hd b))) \<or> stands_alone num (is_digit c) cs"
proof
  assume n: "num \<noteq> []" and "stands_alone num after_digit (c # cs)"
  then obtain a b where ab: "c # cs = a @ num @ b" "if a = [] then \<not> after_digit else \<not> is_digit (last a)"
      "b = [] \<or> \<not> is_digit (hd b)"
    by (auto simp: stands_alone_def)
  show "\<not> after_digit \<and> (\<exists>b. c # cs = num @ b \<and> (b = [] \<or> \<not> is_digit (hd b))) \<or> stands_alone num (is_digit c) cs"
  proof (cases a)
    case Nil
    then show ?thesis using ab by auto
  next
    case (Cons d a')
    then have "cs = a' @ num @ b" "if a' = [] then \<not> is_digit c else \<not> is_digit (last a')" using ab by auto
    then show ?thesis using ab(3) unfolding stands_alone_def by blast
  qed
next
  assume n: "num \<noteq> []"
    and "\<not> after_digit \<and> (\<exists>b. c # cs = num @ b \<and> (b = [] \<or> \<not> is_digit (hd b))) \<or> stands_alone num (is_digit c) cs"
  then consider (here) b where "\<not> after_digit" "c # cs = num @ b" "b = [] \<or> \<not> is_digit (hd b)"
    | (later) "stands_alone num (is_digit c) cs"
    by blast
  then show "stands_alone num after_digit (c # cs)"
  proof cases
    case here
    then show ?thesis unfolding stands_alone_def by (intro exI [of _ "[]"] exI [of _ b]) auto
  next
    case later
    then obtain a b where "cs = a @ num @ b" "if a = [] then \<not> is_digit c else \<not> is_digit (last a)"
        "b = [] \<or> \<not> is_digit (hd b)"
      by (auto simp: stands_alone_def)
    then show ?thesis unfolding stands_alone_def by (intro exI [of _ "c # a"] exI [of _ b]) auto
  qed
qed

lemma port_at_stands_alone: "num \<noteq> [] \<Longrightarrow> port_at num after_digit s \<longleftrightarrow> stands_alone num after_digit s"
proof (induction num after_digit s rule: port_at.induct)
  case (1 num after_digit)
  then show ?case by (simp add: stands_alone_def)
next
  case (2 num after_digit c cs)
  have at: "starts_with num s \<and> Q (drop (length num) s) \<longleftrightarrow> (\<exists>b. s = num @ b \<and> Q b)" for Q and s :: string
    by (auto simp: starts_with_iff)
  have "(case b of [] \<Rightarrow> True | d # _ \<Rightarrow> \<not> is_digit d) \<longleftrightarrow> b = [] \<or> \<not> is_digit (hd b)" for b
    by (cases b) auto
  then have "(starts_with num (c # cs) \<and> (case drop (length num) (c # cs) of [] \<Rightarrow> True | d # _ \<Rightarrow> \<not> is_digit d))
      \<longleftrightarrow> (\<exists>b. c # cs = num @ b \<and> (b = [] \<or> \<not> is_digit (hd b)))"
    using at [of "c # cs" "\<lambda>b. case b of [] \<Rightarrow> True | d # _ \<Rightarrow> \<not> is_digit d"] by simp
  then show ?case using 2 by (simp only: port_at.simps stands_alone_Cons [OF 2(2)]) blast
qed

text \<open>A process is attributed to a port exactly when the number stands in its command with no digit
  on either side: neither a longer number that contains it nor a shorter one counts.\<close>

theorem port_matches_whole_number:
  "port_in command port \<longleftrightarrow> port \<noteq> 0 \<and> (\<exists>a b. command = a @ show_int port @ b
     \<and> \<not> (a \<noteq> [] \<and> is_digit (last a)) \<and> \<not> (b \<noteq> [] \<and> is_digit (hd b)))"
  using port_at_stands_alone [OF show_int_nonempty, of port False command] show_int_nonempty [of port]
  by (auto simp: port_in_def stands_alone_def split: if_splits)

section \<open>Witnesses\<close>

definition small_request :: recipe_request where
  "small_request =
     \<lparr>rq_shape = small_shape, rq_plan = small_plan\<lparr>data_parallel := 2\<rparr>, rq_runtime = ''vllm'', rq_context_length = 4096,
      rq_max_seqs = 8, rq_served_name = ''m'', rq_port = 8100, rq_utilization = 1 / 4, rq_kv_bytes = Some 52428800,
      rq_extra_args = [''--quantization'', ''modelopt_fp4''], rq_custom_command = []\<rparr>"

definition no_env :: recipe_env where
  "no_env = \<lparr>sha256_hex = \<lambda>s. ''0123456789'', env_var = \<lambda>k. None\<rparr>"

lemma small_recipe: "\<exists>r. synthesize no_env small_request = Inr r \<and> rc_runtime r = vllm_spec"
proof -
  have "check_recipe_identifiers (model_id small_shape) ''m'' = Inr ()" "check_extra_args_safe [] = Inr ()"
    "check_extra_args_safe [''--quantization'', ''modelopt_fp4''] = Inr ()"
    "check_yaml_safe (default_image vllm_spec) = Inr ()"
    by code_simp+
  moreover have "runtime_spec_of ''vllm'' = Inr vllm_spec" by (simp add: runtime_spec_of_def RUNTIMES_def)
  moreover have "container_image vllm_spec no_env = default_image vllm_spec"
    by (simp add: container_image_def no_env_def)
  ultimately show ?thesis by (simp add: synthesize_def small_request_def Let_def)
qed

theorem recipe_keys_are_fixed_witness:
  "\<exists>r. synthesize no_env small_request = Inr r
    \<and> length (filter (\<lambda>l. l \<noteq> [] \<and> hd l \<noteq> CHR '' '') (splitlines (rc_content r))) = 9"
proof -
  obtain r where r: "synthesize no_env small_request = Inr r" using small_recipe by blast
  then show ?thesis using conjunct1 [OF recipe_keys_are_fixed [OF r]] by simp
qed

theorem tokens_stay_words_witness:
  "\<exists>r. synthesize no_env small_request = Inr r
    \<and> command_words (recipe_body (rc_runtime r) small_request)
      = command_words VLLM_COMMAND @ [''--kv-cache-memory-bytes'', ''{kv_cache_memory_bytes}'',
          ''--quantization'', ''modelopt_fp4'']"
proof -
  obtain r where r: "synthesize no_env small_request = Inr r" "rc_runtime r = vllm_spec" using small_recipe by blast
  have "generated_flags vllm_spec small_request = [''--kv-cache-memory-bytes'', ''{kv_cache_memory_bytes}'']"
    by (simp add: generated_flags_def small_request_def small_plan_def vllm_spec_def)
  moreover have "rq_custom_command small_request = []" "rq_extra_args small_request = [''--quantization'', ''modelopt_fp4'']"
    "command_template vllm_spec = VLLM_COMMAND"
    by (simp_all add: small_request_def vllm_spec_def)
  ultimately show ?thesis
    using r conjunct1 [OF tokens_stay_words [OF r(1)]] by (intro exI [of _ r]) simp
qed

end
