(* ===== verification/Deploy_Health.thy ===== *)
theory Deploy_Health
  imports Deploy_Recipes
begin

text \<open>
  Whether a backend answers and is ours, \<open>control_plane/deploy/health.py\<close>, and the share of a device a
  launch asks for, \<open>control_plane/deploy/utilization.py\<close>. What the ports answer is an argument, and so is
  \<open>str.casefold\<close>.
\<close>

section \<open>The names a port claims\<close>

text \<open>What a \<open>for\<close> loop over \<open>value or []\<close> sees.\<close>

fun rows_of :: "json \<Rightarrow> json list result" where
  "rows_of (JList xs) = Inr xs"
| "rows_of (JObj kvs) = Inr (map (\<lambda>p. JStr (fst p)) kvs)"
| "rows_of (JStr s) = Inr (map (\<lambda>c. JStr [c]) s)"
| "rows_of v = (if truth_of v then Inl (TypeError ''object is not iterable'') else Inr [])"

fun row_names :: "py_text \<Rightarrow> string list \<Rightarrow> json \<Rightarrow> string list" where
  "row_names py ks (JObj row) =
     map (str_of py) (filter truth_of (List.map_filter (\<lambda>k. dget row k) ks))"
| "row_names py ks v = []"

fun names_of :: "py_text \<Rightarrow> json \<Rightarrow> string list result" where
  "names_of py (JObj payload) =
     bindR (rows_of (dget_or payload ''data'' JNull)) (\<lambda>data.
     bindR (rows_of (dget_or payload ''models'' JNull)) (\<lambda>models.
       Inr (concat (map (row_names py [''id'', ''root'']) data)
            @ concat (map (row_names py [''name'', ''model'']) models))))"
| "names_of py v = Inr []"

definition last_segment :: "string \<Rightarrow> string" where
  "last_segment s = rev (takeWhile (\<lambda>c. c \<noteq> CHR ''/'') (rev s))"

definition name_tail :: "(string \<Rightarrow> string) \<Rightarrow> string \<Rightarrow> string" where
  "name_tail casefold name = casefold (str_strip (last_segment name))"

definition serves :: "(string \<Rightarrow> string) \<Rightarrow> string list \<Rightarrow> string \<Rightarrow> bool" where
  "serves casefold names expected = list_ex (\<lambda>n. name_tail casefold n = name_tail casefold expected) names"

definition MISMATCH_MARK :: string where
  "MISMATCH_MARK = ''something else is already on this port''"

definition wrong_model :: "string option \<Rightarrow> bool" where
  "wrong_model reason = (case reason of None \<Rightarrow> False | Some r \<Rightarrow> r \<noteq> [] \<and> str_contains MISMATCH_MARK r)"

section \<open>Probing\<close>

text \<open>What one request comes back with: nothing at all, or a status with the JSON of its body, if it
  holds any. A status that raises inside the client and one that does not are told apart by nobody.\<close>

datatype http_reply = Unreachable string | Status int "json option"

definition ok_status :: "int \<Rightarrow> bool" where
  "ok_status n \<longleftrightarrow> 200 \<le> n \<and> n < 300"

definition HEALTH_PATHS :: "string list" where
  "HEALTH_PATHS = [''/health'', ''/v1/models'']"

definition MODELS_PATH :: string where
  "MODELS_PATH = ''/v1/models''"

definition reply_reason :: "string \<Rightarrow> http_reply \<Rightarrow> string option" where
  "reply_reason url reply =
     (case reply of
        Unreachable why \<Rightarrow> Some (url @ '' unreachable: '' @ why)
      | Status n body \<Rightarrow> if ok_status n then None else Some (url @ '' returned HTTP '' @ show_int n))"

definition models :: "py_text \<Rightarrow> string \<Rightarrow> (string \<Rightarrow> http_reply) \<Rightarrow> string list option \<times> string option" where
  "models py origin get =
     (let url = origin @ MODELS_PATH in
      case get url of
        Unreachable why \<Rightarrow> (None, reply_reason url (get url))
      | Status n body \<Rightarrow>
        if \<not> ok_status n then (None, reply_reason url (get url))
        else (case body of
            None \<Rightarrow> (None, None)
          | Some j \<Rightarrow>
            (case names_of py j of
               Inl e \<Rightarrow> (None, None)
             | Inr names \<Rightarrow> (if names \<noteq> [] then Some names else None, None))))"

fun liveness :: "string \<Rightarrow> (string \<Rightarrow> http_reply) \<Rightarrow> string list \<Rightarrow> string option \<Rightarrow> bool \<times> string option" where
  "liveness origin get [] why = (False, why)"
| "liveness origin get (p # ps) why =
     (case reply_reason (origin @ p) (get (origin @ p)) of
        None \<Rightarrow> (True, None)
      | Some r \<Rightarrow> liveness origin get ps (Some r))"

definition mismatch_reason :: "string \<Rightarrow> string list \<Rightarrow> string \<Rightarrow> string" where
  "mismatch_reason origin names expected =
     origin @ MODELS_PATH @ '' is serving '' @ str_join '', '' (take 4 (sort (remdups names)))
     @ '', not '' @ expected @ '' -- '' @ MISMATCH_MARK
     @ ''. Stop that server, or stop this deployment: while it stands, requests for '' @ expected
     @ '' are answered by another model.''"

text \<open>The two lookups of the model list, for the names and for life, may be answered differently; so may
  every other request.\<close>

definition probe ::
  "py_text \<Rightarrow> (string \<Rightarrow> string) \<Rightarrow> (string \<Rightarrow> http_reply) \<Rightarrow> (string \<Rightarrow> http_reply) \<Rightarrow> string \<Rightarrow> string option
    \<Rightarrow> bool \<times> string option" where
  "probe py casefold get_names get url expect_model =
     (let origin = backend_origin url in
      case (case expect_model of
              None \<Rightarrow> None
            | Some expected \<Rightarrow> if expected = [] then None
                else map_option (\<lambda>names. (expected, names)) (fst (models py origin get_names))) of
        Some (expected, names) \<Rightarrow>
          if serves casefold names expected then (True, None)
          else (False, Some (mismatch_reason origin names expected))
      | None \<Rightarrow> liveness origin get HEALTH_PATHS None)"

section \<open>The share of a device\<close>

definition REQUEST_MARGIN :: rat where "REQUEST_MARGIN = 105 / 100"
definition FREE_HEADROOM :: rat where "FREE_HEADROOM = 92 / 100"
definition MIN_UTILIZATION :: rat where "MIN_UTILIZATION = 5 / 100"

definition utilization_for :: "int \<Rightarrow> int \<Rightarrow> int option \<Rightarrow> rat \<Rightarrow> rat" where
  "utilization_for needed device_total free limit =
     (if device_total \<le> 0 \<or> needed \<le> 0 then limit
      else let wanted = of_int needed * REQUEST_MARGIN / of_int device_total;
               cap = (case free of
                        Some f \<Rightarrow> if f > 0 then min limit (of_int f * FREE_HEADROOM / of_int device_total) else limit
                      | None \<Rightarrow> limit)
           in max MIN_UTILIZATION (min wanted cap))"

section \<open>A stranger is never adopted\<close>

lemma str_contains_middle: "str_contains m (a @ m @ b)"
proof (induction a)
  case Nil
  have "starts_with m (m @ b)" by (induction m) simp_all
  then show ?case by (cases "m @ b") simp_all
qed simp

lemma mismatch_is_wrong_model: "wrong_model (Some (mismatch_reason origin names expected))"
proof -
  have "str_contains MISMATCH_MARK (mismatch_reason origin names expected)"
    unfolding mismatch_reason_def
    using str_contains_middle [of MISMATCH_MARK
        "origin @ MODELS_PATH @ '' is serving '' @ str_join '', '' (take 4 (sort (remdups names))) @ '', not '' @ expected @ '' -- ''"]
    by (metis append_assoc)
  then show ?thesis by (auto simp: wrong_model_def mismatch_reason_def MODELS_PATH_def)
qed

lemma liveness_answers: "fst (liveness origin get ps why) \<longleftrightarrow> (\<exists>p \<in> set ps. reply_reason (origin @ p) (get (origin @ p)) = None)"
  by (induction ps arbitrary: why) (auto split: option.split)

text \<open>A port that names its models is healthy exactly when one of them is the model that was launched,
  and otherwise the refusal says that something else is on the port, whatever the health paths answer; a
  port that names none is judged by the health paths alone.\<close>

theorem stranger_is_not_ours:
  assumes "expected \<noteq> []"
  shows "(case fst (models py (backend_origin url) get_names) of
      Some names \<Rightarrow> fst (probe py casefold get_names get url (Some expected)) = serves casefold names expected
        \<and> (serves casefold names expected \<or> wrong_model (snd (probe py casefold get_names get url (Some expected))))
    | None \<Rightarrow> fst (probe py casefold get_names get url (Some expected))
        = (\<exists>p \<in> set HEALTH_PATHS. \<exists>n body. get (backend_origin url @ p) = Status n body \<and> ok_status n))"
proof -
  have "reply_reason u r = None \<longleftrightarrow> (\<exists>n body. r = Status n body \<and> ok_status n)" for u r
    by (auto simp: reply_reason_def split: http_reply.split)
  then show ?thesis using assms mismatch_is_wrong_model
    by (auto simp: probe_def Let_def liveness_answers split: option.split)
qed

text \<open>A launch asks for at least the least share and at most the guardrail, for no more than the plan
  needs and its margin unless that is under the least share, and, where free memory is known, for no
  more of it than the headroom allows unless that is under the least share.\<close>

theorem asked_share_bounds:
  assumes "MIN_UTILIZATION \<le> limit" and "0 < device_total" and "0 < needed"
  shows "MIN_UTILIZATION \<le> utilization_for needed device_total free limit
    \<and> utilization_for needed device_total free limit \<le> limit
    \<and> (utilization_for needed device_total free limit = MIN_UTILIZATION
       \<or> utilization_for needed device_total free limit * of_int device_total \<le> of_int needed * REQUEST_MARGIN
         \<and> (\<forall>f. free = Some f \<and> 0 < f \<longrightarrow>
              utilization_for needed device_total free limit * of_int device_total \<le> of_int f * FREE_HEADROOM))"
proof -
  let ?t = "of_int device_total :: rat"
  have t: "0 < ?t" using assms(2) by simp
  have le: "x * ?t \<le> y" if "x \<le> y / ?t" for x y using that t by (simp add: pos_le_divide_eq)
  let ?cap = "case free of Some f \<Rightarrow> if f > 0 then min limit (of_int f * FREE_HEADROOM / ?t) else limit | None \<Rightarrow> limit"
  define u where "u = utilization_for needed device_total free limit"
  have u: "u = max MIN_UTILIZATION (min (of_int needed * REQUEST_MARGIN / ?t) ?cap)"
    unfolding u_def using assms(2,3) by (simp add: utilization_for_def Let_def)
  have "?cap \<le> limit" by (simp split: option.split)
  then have "u \<le> limit" using assms(1) u by simp
  moreover have "u = MIN_UTILIZATION \<or> u \<le> of_int needed * REQUEST_MARGIN / ?t \<and> u \<le> ?cap" using u by linarith
  moreover have "?cap \<le> of_int f * FREE_HEADROOM / ?t" if "free = Some f" "0 < f" for f using that by simp
  moreover have "MIN_UTILIZATION \<le> u" using u by simp
  ultimately show ?thesis unfolding u_def [symmetric] using le order_trans by blast
qed

text \<open>A device with nothing free is asked as if nobody had measured it.\<close>

lemma full_device_uncapped: "utilization_for needed device_total (Some 0) limit = utilization_for needed device_total None limit"
  by (simp add: utilization_for_def)

theorem stranger_is_not_ours_witness:
  "\<exists>get. \<not> fst (probe plain_text id get get ''http://h:8100/v1'' (Some ''m''))
    \<and> get ''http://h:8100/health'' = Status 200 None
    \<and> wrong_model (snd (probe plain_text id get get ''http://h:8100/v1'' (Some ''m'')))"
proof -
  let ?get = "\<lambda>url. if url = ''http://h:8100/health'' then Status 200 None
     else Status 200 (Some (JObj [(''data'', JList [JObj [(''id'', JStr ''ling'')]])]))"
  have "fst (models plain_text (backend_origin ''http://h:8100/v1'') ?get) = Some [''ling'']"
    by code_simp
  moreover have "\<not> serves id [''ling''] ''m''" by code_simp
  ultimately show ?thesis
    using stranger_is_not_ours [where expected = "''m''" and py = plain_text and url = "''http://h:8100/v1''"
        and get_names = ?get and casefold = id and get = ?get]
    by (intro exI [of _ ?get]) auto
qed

theorem asked_share_bounds_witness:
  "utilization_for (2 * GIB) (120 * GIB) (Some (40 * GIB)) (9 / 10) \<le> 9 / 10
    \<and> 5 / 100 \<le> utilization_for (2 * GIB) (120 * GIB) (Some (40 * GIB)) (9 / 10)"
  using asked_share_bounds [of "9 / 10" "120 * GIB" "2 * GIB" "Some (40 * GIB)"]
  by (auto simp: MIN_UTILIZATION_def GIB_def)

end
