(* ===== verification/Deploy_Manager.thy ===== *)
theory Deploy_Manager
  imports Deploy_Health
begin

text \<open>
  The deployment manager, \<open>control_plane/deploy/manager.py\<close>: the records, the guards of a launch, its
  progress to readiness, stopping, the watch over serving deployments and what a restart makes of the
  records it finds. A step is what the code does under its lock or between two waits; what the launcher,
  the containers, the node agents and the ports answer are arguments of the step, and so are the clock and
  the identifier, which is new. The events are \<open>control_plane/deploy/events.py\<close>'s, in the order they are
  emitted.
\<close>

section \<open>State\<close>

datatype severity = Sev_ok | Sev_warning | Sev_critical

record mgr_record =
  mr_deployment :: deployment
  mr_handle :: json_object
  mr_health_failures :: int
  mr_node_severity :: "(string, severity) dict"
  mr_unhealthy_nodes :: "string list"
  mr_progress :: "launch_progress option"
  mr_log_lines :: "string list"

datatype mgr_event =
    State_changed string deployment_state deployment_state bool
  | Launch_was_refused string
  | Launch_failed string bool
  | Memory_warning string string bool
  | Memory_critical string string
  | Memory_cleared string string bool
  | Node_unhealthy string string
  | Backend_lost string int
  | Fit_miss string
  | Stop_escalated string
  | Reconciled string deployment_state bool

datatype mgr_error =
    Refused_to_launch fit_result
  | Not_installed
  | Duplicate deployment string
  | Illegal illegal_transition
  | Raises py_error

record mgr_config =
  health_fail_threshold :: int
  ready_timeout_s :: rat
  stop_confirm_timeout_s :: rat
  base_port :: int

text \<open>\<open>mg_failed_logs\<close> are the files of failed launches, with the time each was written and its text;
  \<open>mg_writable\<close> says whether the disk takes writes; \<open>mg_stops\<close> are the workloads the launcher was
  asked to stop.\<close>

record manager =
  mg_records :: "(string, mgr_record) dict"
  mg_store :: store
  mg_writable :: bool
  mg_failed_logs :: "(string, rat \<times> string) dict"
  mg_starting :: "string list"
  mg_events :: "mgr_event list"
  mg_stops :: "string list"
  mg_probe_offset :: nat

definition new_manager :: manager where
  "new_manager = \<lparr>mg_records = [], mg_store = [], mg_writable = True, mg_failed_logs = [], mg_starting = [],
     mg_events = [], mg_stops = [], mg_probe_offset = 0\<rparr>"

definition emit_event :: "mgr_event \<Rightarrow> manager \<Rightarrow> manager" where
  "emit_event e m = m\<lparr>mg_events := mg_events m @ [e]\<rparr>"

definition LOG_BUFFER_LINES :: nat where "LOG_BUFFER_LINES = 500"
definition FAILED_LOGS_KEPT :: nat where "FAILED_LOGS_KEPT = 50"
definition HEALTH_FAIL_THRESHOLD :: int where "HEALTH_FAIL_THRESHOLD = 2"
definition MEMORY_WARN_FRACTION :: rat where "MEMORY_WARN_FRACTION = 90 / 100"
definition MEMORY_CRITICAL_FRACTION :: rat where "MEMORY_CRITICAL_FRACTION = 95 / 100"

text \<open>The fields of a handle. A deployment always has its plan and its fit.\<close>

definition handle_cluster :: "json_object \<Rightarrow> string option" where
  "handle_cluster h = (case dget h ''cluster_id'' of Some (JStr c) \<Rightarrow> if c \<noteq> [] then Some c else None | _ \<Rightarrow> None)"

fun str_items :: "json list \<Rightarrow> string list" where
  "str_items [] = []"
| "str_items (JStr s # xs) = s # str_items xs"
| "str_items (x # xs) = str_items xs"

definition handle_hosts :: "json_object \<Rightarrow> string list" where
  "handle_hosts h = (case dget h ''hosts'' of Some (JList xs) \<Rightarrow> str_items xs | _ \<Rightarrow> [])"

definition handle_port :: "json_object \<Rightarrow> int option" where
  "handle_port h = (case dget h ''port'' of Some (JInt p) \<Rightarrow> Some p | _ \<Rightarrow> None)"

definition dep_nodes :: "deployment \<Rightarrow> string list" where
  "dep_nodes d = (case dep_plan d of Some p \<Rightarrow> node_ids p | None \<Rightarrow> [])"

definition rec_state :: "mgr_record \<Rightarrow> deployment_state" where
  "rec_state r = dep_state (mr_deployment r)"

definition new_record :: "deployment \<Rightarrow> json_object \<Rightarrow> mgr_record" where
  "new_record d h = \<lparr>mr_deployment = d, mr_handle = h, mr_health_failures = 0, mr_node_severity = [],
     mr_unhealthy_nodes = [], mr_progress = None, mr_log_lines = []\<rparr>"

definition put_record :: "mgr_record \<Rightarrow> manager \<Rightarrow> manager" where
  "put_record r m = m\<lparr>mg_records := dset (deployment_id (mr_deployment r)) r (mg_records m)\<rparr>"

definition severity_name :: "severity \<Rightarrow> string" where
  "severity_name s = (case s of Sev_ok \<Rightarrow> ''ok'' | Sev_warning \<Rightarrow> ''warning'' | Sev_critical \<Rightarrow> ''critical'')"

definition degraded_reasons :: "mgr_record \<Rightarrow> string list" where
  "degraded_reasons r =
     map (\<lambda>(n, s). ''node '' @ n @ '' memory '' @ severity_name s)
       (filter (\<lambda>(n, s). s \<in> {Sev_warning, Sev_critical}) (sort_key fst (mr_node_severity r)))
     @ map (\<lambda>n. ''node '' @ n @ '' unhealthy'') (sort (mr_unhealthy_nodes r))"

definition admitting :: "mgr_record \<Rightarrow> bool" where
  "admitting r \<longleftrightarrow> Sev_critical \<notin> set (map snd (mr_node_severity r))"

section \<open>Changing state\<close>

text \<open>The record is put back before it is checked: its other fields have already been written when the
  transition raises. A write that fails raises after the state has changed and before it is announced.\<close>

definition transition_to :: "rat \<Rightarrow> deployment_state \<Rightarrow> mgr_record \<Rightarrow> manager \<Rightarrow> (mgr_error + unit) \<times> manager" where
  "transition_to now target r m =
     (let d = mr_deployment r; did = deployment_id d; source = dep_state d; m = put_record r m in
      case check_transition did source target of
        Inl e \<Rightarrow> (Inl (Illegal e), m)
      | Inr _ \<Rightarrow>
        if source = target then (Inr (), m)
        else
          let r = r\<lparr>mr_deployment := d\<lparr>dep_state := target\<rparr>\<rparr>; m = put_record r m in
          case save_record now (mg_writable m) (mr_deployment r) (mr_handle r) (mg_store m) of
            (Inl e, st) \<Rightarrow> (Inl (Raises e), m\<lparr>mg_store := st\<rparr>)
          | (Inr _, st) \<Rightarrow>
            let st = (if target \<in> set TERMINAL then snd (purge_surplus TERMINAL_RECORDS_KEPT st) else st)
            in (Inr (), emit_event (State_changed did source target (admitting r \<and> target \<in> set SERVING))
                  (m\<lparr>mg_store := st\<rparr>)))"

section \<open>Launching\<close>

record launch_request =
  lr_shape :: model_shape
  lr_plan :: parallelism_plan
  lr_fit :: fit_result
  lr_runtime :: string
  lr_context :: int
  lr_max_seqs :: int
  lr_served_name :: "string option"
  lr_modality :: modality
  lr_extra_args :: "string list"
  lr_custom_command :: "string list"

definition requested_name :: "launch_request \<Rightarrow> string" where
  "requested_name q =
     (case lr_served_name q of
        Some s \<Rightarrow> if s \<noteq> [] then s else default_served_name (lr_shape q)
      | None \<Rightarrow> default_served_name (lr_shape q))"

text \<open>The live deployment in a launch's way and the rule it breaks; \<open>clash\<close> is the first that already
  answers to the name.\<close>

fun find_conflict ::
  "string \<Rightarrow> string \<Rightarrow> string list \<Rightarrow> deployment option \<Rightarrow> mgr_record list \<Rightarrow> (deployment \<times> string) option" where
  "find_conflict name model nodes clash [] = map_option (\<lambda>d. (d, ''served_name'')) clash"
| "find_conflict name model nodes clash (r # rs) =
     (let d = mr_deployment r in
      if dep_state d \<in> set TERMINAL then find_conflict name model nodes clash rs
      else
        let clash = (if served_name d = name \<and> clash = None then Some d else clash) in
        if set (dep_nodes d) \<inter> set nodes = {} then find_conflict name model nodes clash rs
        else if model_id (dep_shape d) = model then Some (d, ''model'')
        else find_conflict name model nodes clash rs)"

definition PORT_SEARCH :: nat where "PORT_SEARCH = 200"

definition live_ports :: "manager \<Rightarrow> int list" where
  "live_ports m = List.map_filter (\<lambda>r. if rec_state r \<in> set TERMINAL then None else handle_port (mr_handle r))
     (map snd (mg_records m))"

function first_free :: "int list \<Rightarrow> int \<Rightarrow> int" where
  "first_free taken port = (if port \<in> set taken then first_free taken (port + 1) else port)"
  by pat_completeness auto

termination first_free
proof (relation "measure (\<lambda>(taken, port). card {p \<in> set taken. port \<le> p})")
  fix taken :: "int list" and port
  assume "port \<in> set taken"
  then have "port \<in> {p \<in> set taken. port \<le> p}" by simp
  moreover have "{p \<in> set taken. port + 1 \<le> p} \<subseteq> {p \<in> set taken. port \<le> p}" by auto
  moreover have "port \<notin> {p \<in> set taken. port + 1 \<le> p}" by simp
  ultimately have "{p \<in> set taken. port + 1 \<le> p} \<subset> {p \<in> set taken. port \<le> p}" by blast
  then show "((taken, port + 1), taken, port) \<in> measure (\<lambda>(taken, port). card {p \<in> set taken. port \<le> p})"
    by (simp add: psubset_card_mono)
qed simp

declare first_free.simps [simp del]

primrec search_port :: "nat \<Rightarrow> (int \<Rightarrow> bool) \<Rightarrow> int list \<Rightarrow> int \<Rightarrow> int option" where
  "search_port 0 port_free taken port = None"
| "search_port (Suc k) port_free taken port =
     (if port \<notin> set taken \<and> port_free port then Some port else search_port k port_free taken (port + 1))"

definition allocate_port :: "mgr_config \<Rightarrow> (int \<Rightarrow> bool) \<Rightarrow> manager \<Rightarrow> int" where
  "allocate_port cfg port_free m =
     (let taken = live_ports m; port = first_free taken (base_port cfg) in
      case search_port PORT_SEARCH port_free taken port of Some p \<Rightarrow> p | None \<Rightarrow> port)"

definition launch_deployment ::
  "mgr_config \<Rightarrow> bool \<Rightarrow> (int \<Rightarrow> bool) \<Rightarrow> string \<Rightarrow> rat \<Rightarrow> launch_request \<Rightarrow> manager
    \<Rightarrow> (mgr_error + deployment) \<times> manager" where
  "launch_deployment cfg available port_free did now q m =
     (let name = requested_name q in
      if fr_verdict (lr_fit q) = WONT_FIT
      then (Inl (Refused_to_launch (lr_fit q)), emit_event (Launch_was_refused name) m)
      else if \<not> available then (Inl Not_installed, m)
      else
        case check_recipe_identifiers (model_id (lr_shape q)) name of Inl e \<Rightarrow> (Inl (Raises e), m) | Inr _ \<Rightarrow>
        case check_extra_args_safe (lr_extra_args q) of Inl e \<Rightarrow> (Inl (Raises e), m) | Inr _ \<Rightarrow>
        case check_extra_args_safe (lr_custom_command q) of Inl e \<Rightarrow> (Inl (Raises e), m) | Inr _ \<Rightarrow>
        if lr_extra_args q \<noteq> [] \<and> lr_custom_command q \<noteq> []
        then (Inl (Raises (ValueError ''extra_args and custom_command are mutually exclusive'')), m)
        else
          case find_conflict name (model_id (lr_shape q)) (node_ids (lr_plan q)) None (map snd (mg_records m)) of
            Some (d, clash) \<Rightarrow> (Inl (Duplicate d clash), m)
          | None \<Rightarrow>
            let d = \<lparr>deployment_id = did, served_name = name, dep_shape = lr_shape q, dep_plan = Some (lr_plan q),
                     dep_fit = Some (lr_fit q), runtime = lr_runtime q, dep_state = PLANNED, backend_url = None,
                     dep_context_length = lr_context q, dep_max_concurrent_seqs = lr_max_seqs q,
                     started_at = None, dep_last_error = None, dep_modality = lr_modality q,
                     extra_args = lr_extra_args q, custom_command = lr_custom_command q\<rparr>;
                r = new_record d [(''port'', JInt (allocate_port cfg port_free m))]
            in case transition_to now LAUNCHING r m of
                 (Inl e, m) \<Rightarrow> (Inl e, m)
               | (Inr _, m) \<Rightarrow> (Inr (d\<lparr>dep_state := LAUNCHING\<rparr>), m))"

text \<open>What the launch asks the runtime for.\<close>

definition KV_CACHE_LAUNCH_MARGIN_BYTES :: int where
  "KV_CACHE_LAUNCH_MARGIN_BYTES = 50 * 1024 ^ 2"

definition launch_kv_cache_bytes :: "deployment \<Rightarrow> int option" where
  "launch_kv_cache_bytes d =
     (case dep_fit d of
        None \<Rightarrow> None
      | Some f \<Rightarrow> let kv = mb_kv_cache (fr_breakdown f)
                  in if kv > 0 then Some (kv + KV_CACHE_LAUNCH_MARGIN_BYTES) else None)"

text \<open>A node that cannot be read, or whose live total is unknown, leaves the share to the default.\<close>

fun smallest_share :: "(string \<Rightarrow> node_state option) \<Rightarrow> int \<Rightarrow> rat option \<Rightarrow> string list \<Rightarrow> rat option" where
  "smallest_share get_node needed smallest [] = smallest"
| "smallest_share get_node needed smallest (n # ns) =
     (case get_node n of
        None \<Rightarrow> None
      | Some st \<Rightarrow>
        if memory_total_live st = 0 then None
        else let free = max 0 (memory_total_live st - memory_used st);
                 share = utilization_for needed (memory_total_live st) (Some free) DEFAULT_GUARDRAIL
             in smallest_share get_node needed
                  (Some (case smallest of None \<Rightarrow> share | Some s \<Rightarrow> min s share)) ns)"

definition launch_utilization :: "(string \<Rightarrow> node_state option) \<Rightarrow> deployment \<Rightarrow> rat option" where
  "launch_utilization get_node d =
     (case dep_fit d of
        None \<Rightarrow> None
      | Some f \<Rightarrow> if dep_nodes d = [] then None
                  else smallest_share get_node (mb_total (fr_breakdown f)) None (dep_nodes d))"

section \<open>One engine starting per node\<close>

datatype hold = Held | Gave_up | Waits

text \<open>One look at the gate; a launch that waits looks again.\<close>

definition hold_starting :: "string list \<Rightarrow> rat \<Rightarrow> rat \<Rightarrow> manager \<Rightarrow> hold \<times> manager" where
  "hold_starting nodes deadline now m =
     (if list_ex (\<lambda>n. n \<in> set (mg_starting m)) nodes
      then (if deadline - now \<le> 0 then (Gave_up, m) else (Waits, m))
      else (Held, m\<lparr>mg_starting := mg_starting m @ nodes\<rparr>))"

definition release_starting :: "string list \<Rightarrow> manager \<Rightarrow> manager" where
  "release_starting nodes m = m\<lparr>mg_starting := filter (\<lambda>n. n \<notin> set nodes) (mg_starting m)\<rparr>"

definition launch_nodes :: "deployment \<Rightarrow> string list" where
  "launch_nodes d = sort (remdups (dep_nodes d))"

section \<open>Lines and progress\<close>

definition bar_desc :: "string \<Rightarrow> string option" where
  "bar_desc line =
     (if \<not> str_contains ''%|'' line then None
      else if CHR '':'' \<in> set line then Some (takeWhile (\<lambda>c. c \<noteq> CHR '':'') line) else None)"

definition note_progress :: "launch_progress option \<Rightarrow> mgr_record \<Rightarrow> mgr_record" where
  "note_progress reading r =
     (case reading of
        None \<Rightarrow> r
      | Some p \<Rightarrow> if rec_state r \<noteq> LAUNCHING then r
                  else r\<lparr>mr_progress := advance (mr_progress r) (Some p)\<rparr>)"

definition last_lines :: "nat \<Rightarrow> 'a list \<Rightarrow> 'a list" where
  "last_lines n xs = drop (length xs - n) xs"

definition note_line :: "(string \<Rightarrow> launch_progress option) \<Rightarrow> string \<Rightarrow> mgr_record \<Rightarrow> mgr_record" where
  "note_line read line r =
     (let buffer = mr_log_lines r;
          buffer = (if bar_desc line \<noteq> None \<and> buffer \<noteq> [] \<and> bar_desc (last buffer) = bar_desc line
                    then butlast buffer @ [line]
                    else last_lines LOG_BUFFER_LINES (buffer @ [line]))
      in note_progress (read line) (r\<lparr>mr_log_lines := buffer\<rparr>))"

definition launch_progress_of :: "manager \<Rightarrow> (string \<times> launch_progress) list" where
  "launch_progress_of m = List.map_filter (\<lambda>(did, r).
     if rec_state r = LAUNCHING then map_option (\<lambda>p. (did, p)) (mr_progress r) else None) (mg_records m)"

section \<open>The logs of failed launches\<close>

definition archived_text :: "mgr_record \<Rightarrow> string" where
  "archived_text r =
     (let d = mr_deployment r in
      str_join [CHR 0x0A]
        ([''deployment: '' @ deployment_id d, ''model:      '' @ model_id (dep_shape d),
          ''served as:  '' @ served_name d, ''runtime:    '' @ runtime d,
          ''nodes:      '' @ str_join '', '' (dep_nodes d), [], ''--- why it failed ---'',
          str_strip (case dep_last_error d of Some e \<Rightarrow> e | None \<Rightarrow> []), [],
          ''--- the launch, as it was printed ---''] @ mr_log_lines r)
      @ [CHR 0x0A])"

definition newest_logs :: "(string, rat \<times> string) dict \<Rightarrow> (string, rat \<times> string) dict" where
  "newest_logs logs =
     (let kept = take FAILED_LOGS_KEPT (rev (sort_key (\<lambda>f. fst (snd f)) (rev logs)))
      in filter (\<lambda>f. f \<in> set kept) logs)"

definition archive_log :: "rat \<Rightarrow> mgr_record \<Rightarrow> manager \<Rightarrow> manager" where
  "archive_log now r m =
     (let d = mr_deployment r in
      if mr_log_lines r = [] \<and> dep_last_error d \<in> {None, Some []} \<or> \<not> mg_writable m then m
      else m\<lparr>mg_failed_logs := newest_logs (dset (deployment_id d @ ''.log'') (now, archived_text r) (mg_failed_logs m))\<rparr>)"

definition archived_log :: "string \<Rightarrow> nat \<Rightarrow> manager \<Rightarrow> string list" where
  "archived_log did limit m =
     (case dget (mg_failed_logs m) (did @ ''.log'') of
        None \<Rightarrow> []
      | Some (t, text) \<Rightarrow> last_lines limit (splitlines text))"

text \<open>\<open>read\<close> is what the launcher prints for the container, or nothing when it raises.\<close>

definition log_tail ::
  "string \<Rightarrow> nat \<Rightarrow> string option \<Rightarrow> manager \<Rightarrow> string list \<times> string \<times> string option" where
  "log_tail did limit read m =
     (let kept = archived_log did limit m in
      case dget (mg_records m) did of
        None \<Rightarrow> if kept \<noteq> [] then (kept, ''archive'', None) else ([], ''none'', None)
      | Some r \<Rightarrow>
        let lines = last_lines limit (mr_log_lines r); cluster = handle_cluster (mr_handle r) in
        if lines \<noteq> [] \<and> (rec_state r \<in> {PLANNED, LAUNCHING} \<or> rec_state r \<in> set TERMINAL)
        then (lines, ''buffer'', cluster)
        else if kept \<noteq> [] then (kept, ''archive'', cluster)
        else if cluster = None then ([], ''none'', None)
        else (case read of
                None \<Rightarrow> ([], ''none'', cluster)
              | Some text \<Rightarrow>
                (last_lines limit (filter (\<lambda>l. str_strip l \<noteq> []) (splitlines text)), ''read'', cluster)))"

section \<open>A launch that fails\<close>

text \<open>What the container's log said, when there is a container.\<close>

definition post_mortem :: "string \<Rightarrow> string \<Rightarrow> manager \<Rightarrow> manager" where
  "post_mortem did said m =
     (case dget (mg_records m) did of
        None \<Rightarrow> m
      | Some r \<Rightarrow>
        if handle_cluster (mr_handle r) = None \<or> said = [] then m
        else
          let d = mr_deployment r;
              d = d\<lparr>dep_last_error := Some ((case dep_last_error d of Some e \<Rightarrow> e | None \<Rightarrow> [])
                      @ [CHR 0x0A] @ ''--- backend log tail ---'' @ [CHR 0x0A] @ str_strip said)\<rparr>;
              m = put_record (r\<lparr>mr_deployment := d\<rparr>) m
          in if is_oom said then emit_event (Fit_miss did) m else m)"

definition failure_detail :: "launch_error \<Rightarrow> string" where
  "failure_detail err =
     (if le_raw err \<noteq> []
      then le_message err @ [CHR 0x0A] @ ''--- sparkrun output ---'' @ [CHR 0x0A] @ str_strip (le_raw err)
      else le_message err)"

text \<open>\<open>said\<close> is what a post-mortem would read, if this failure wants one.\<close>

definition after_failure :: "rat \<Rightarrow> string \<Rightarrow> launch_error \<Rightarrow> string option \<Rightarrow> manager \<Rightarrow> manager" where
  "after_failure now did err said m =
     (let m = emit_event (Launch_failed did (le_oom err)) m;
          m = (if le_oom err then emit_event (Fit_miss did) m
               else case said of Some text \<Rightarrow> post_mortem did text m | None \<Rightarrow> m)
      in case dget (mg_records m) did of Some r \<Rightarrow> archive_log now r m | None \<Rightarrow> m)"

definition fail_launch ::
  "rat \<Rightarrow> string \<Rightarrow> launch_error \<Rightarrow> string option \<Rightarrow> manager \<Rightarrow> (mgr_error + unit) \<times> manager" where
  "fail_launch now did err said m =
     (case dget (mg_records m) did of
        None \<Rightarrow> (Inr (), m)
      | Some r \<Rightarrow>
        let r = r\<lparr>mr_deployment := (mr_deployment r)\<lparr>dep_last_error := Some (failure_detail err)\<rparr>\<rparr>
        in case (if rec_state r \<in> {LAUNCHING, READY, DEGRADED} then transition_to now FAILED r m
                 else (Inr (), put_record r m)) of
             (Inl e, m) \<Rightarrow> (Inl e, m)
           | (Inr _, m) \<Rightarrow> (Inr (), after_failure now did err said m))"

text \<open>The launcher came back. The handle is saved whatever the record has become in the meantime; the path of
  the recipe and the argument vector, which it also carries and nothing reads back, are left out.\<close>

definition launched_handle :: "launch_result \<Rightarrow> json_object \<Rightarrow> json_object" where
  "launched_handle res h =
     dset ''port'' (JInt (lres_port res)) (dset ''head_host'' (JStr (lres_head_host res))
       (dset ''hosts'' (JList (map JStr (lres_hosts res))) (dset ''cluster_id'' (JStr (lres_cluster_id res)) h)))"

definition launch_returned ::
  "rat \<Rightarrow> string \<Rightarrow> launch_error + launch_result \<Rightarrow> manager \<Rightarrow> (mgr_error + unit) \<times> manager" where
  "launch_returned now did outcome m =
     (case outcome of
        Inl err \<Rightarrow> fail_launch now did err None m
      | Inr res \<Rightarrow>
        (case dget (mg_records m) did of
           None \<Rightarrow> (Inr (), m)
         | Some r \<Rightarrow>
           let d = (mr_deployment r)\<lparr>backend_url := Some (lres_backend_url res)\<rparr>;
               r = r\<lparr>mr_deployment := d, mr_handle := launched_handle res (mr_handle r)\<rparr>;
               m = put_record r m
           in case save_record now (mg_writable m) d (mr_handle r) (mg_store m) of
                (Inl e, st) \<Rightarrow> (Inl (Raises e), m\<lparr>mg_store := st\<rparr>)
              | (Inr _, st) \<Rightarrow> (Inr (), m\<lparr>mg_store := st\<rparr>)))"

section \<open>Waiting for the backend\<close>

definition READY_CHECK_JOB_EVERY :: nat where "READY_CHECK_JOB_EVERY = 5"

definition handoff :: launch_progress where
  "handoff = \<lparr>lp_phase = ''loading'', lp_status = ''the backend container is up; waiting for it to load the model'',
     lp_fraction = None, lp_eta_s = None, lp_fatal = False, lp_source = ''derate''\<rparr>"

text \<open>The locked step that makes a healthy launch ready. It does not look at the state again.\<close>

definition make_ready :: "rat \<Rightarrow> mgr_record \<Rightarrow> manager \<Rightarrow> (mgr_error + unit) \<times> manager" where
  "make_ready now r m =
     transition_to now READY
       (r\<lparr>mr_deployment := (mr_deployment r)\<lparr>started_at := Some now, dep_last_error := None\<rparr>\<rparr>) m"

definition fatal_line :: "mgr_record \<Rightarrow> string option" where
  "fatal_line r = (case mr_progress r of Some p \<Rightarrow> if lp_fatal p then Some (lp_status p) else None | None \<Rightarrow> None)"

datatype waiting = Waited | Again string

text \<open>One turn of the waiting loop, or what follows it when the time is up or the manager is closing.
  \<open>answer\<close> is the probe's, \<open>running\<close> the launcher's.\<close>

definition wait_pass ::
  "mgr_config \<Rightarrow> rat \<Rightarrow> rat \<Rightarrow> bool \<Rightarrow> nat \<Rightarrow> string \<Rightarrow> bool \<times> string option \<Rightarrow> bool option \<Rightarrow> string \<Rightarrow> string \<Rightarrow> manager
    \<Rightarrow> (mgr_error + waiting) \<times> manager" where
  "wait_pass cfg now deadline closing polls last_reason answer running said did m =
     (case dget (mg_records m) did of
        None \<Rightarrow> (Inr Waited, m)
      | Some r \<Rightarrow>
        let failed = (\<lambda>msg oom. case fail_launch now did \<lparr>le_message = msg, le_raw = [], le_oom = oom\<rparr> (Some said) m of
                       (Inl e, m) \<Rightarrow> (Inl e, m) | (Inr _, m) \<Rightarrow> (Inr Waited, m))
        in if now \<ge> deadline \<or> closing
           then (if rec_state r = LAUNCHING
                 then failed (''backend did not answer within '' @ fmt0 (ready_timeout_s cfg) @ ''s: '' @ last_reason) False
                 else (Inr Waited, m))
           else if rec_state r \<noteq> LAUNCHING then (Inr Waited, m)
           else if fst answer
           then (case make_ready now r m of (Inl e, m) \<Rightarrow> (Inl e, m) | (Inr _, m) \<Rightarrow> (Inr Waited, m))
           else
             let reason = (case snd answer of Some w \<Rightarrow> if w \<noteq> [] then w else last_reason | None \<Rightarrow> last_reason)
             in (case fatal_line r of
                   Some line \<Rightarrow> failed (''the backend died during startup: '' @ line) (is_oom line)
                 | None \<Rightarrow>
                   if handle_cluster (mr_handle r) \<noteq> None \<and> polls mod READY_CHECK_JOB_EVERY = 0 \<and> running = Some False
                   then failed (''backend exited during startup: '' @ reason) False
                   else (Inr (Again reason), m)))"

end
