(* ===== verification/Deploy_Watch.thy ===== *)
theory Deploy_Watch
  imports Deploy_Manager
begin

text \<open>
  The rest of \<open>control_plane/deploy/manager.py\<close>: stopping a deployment, the last resort of a stop, the watch
  over what serves, and the records a restarted manager finds.
\<close>

section \<open>Stopping\<close>

datatype stop_step = Nothing_to_stop | Stop_launch "string option" | Stop_serving "string option"

definition stop_begin :: "rat \<Rightarrow> string \<Rightarrow> manager \<Rightarrow> (mgr_error + stop_step) \<times> manager" where
  "stop_begin now did m =
     (case dget (mg_records m) did of
        None \<Rightarrow> (Inl (Raises (KeyError ''no such deployment'')), m)
      | Some r \<Rightarrow>
        if rec_state r \<in> set TERMINAL then (Inr Nothing_to_stop, m)
        else if rec_state r = LAUNCHING then (Inr (Stop_launch (handle_cluster (mr_handle r))), m)
        else (case transition_to now STOPPING r m of
                (Inl e, m) \<Rightarrow> (Inl e, m)
              | (Inr _, m) \<Rightarrow> (Inr (Stop_serving (handle_cluster (mr_handle r))), m)))"

text \<open>The launcher is asked only when there is a workload to name.\<close>

definition ask_stop :: "string option \<Rightarrow> manager \<Rightarrow> manager" where
  "ask_stop cluster m = (case cluster of None \<Rightarrow> m | Some c \<Rightarrow> m\<lparr>mg_stops := mg_stops m @ [c]\<rparr>)"

definition stop_launch_end :: "rat \<Rightarrow> string \<Rightarrow> manager \<Rightarrow> (mgr_error + unit) \<times> manager" where
  "stop_launch_end now did m =
     (case dget (mg_records m) did of
        None \<Rightarrow> (Inr (), m)
      | Some r \<Rightarrow>
        if rec_state r = LAUNCHING
        then transition_to now FAILED
          (r\<lparr>mr_deployment := (mr_deployment r)\<lparr>dep_last_error :=
              Some ''stop requested while the backend was still loading; the launch was torn down''\<rparr>\<rparr>) m
        else (Inr (), m))"

text \<open>The polls after the stop, each with the time at which the loop looked at the clock.\<close>

fun confirm_stop :: "rat \<Rightarrow> bool \<Rightarrow> (rat \<times> bool option) list \<Rightarrow> bool" where
  "confirm_stop deadline confirmed [] = confirmed"
| "confirm_stop deadline confirmed ((t, running) # polls) =
     (if confirmed \<or> t \<ge> deadline then confirmed
      else confirm_stop deadline (running = Some False) polls)"

text \<open>What a node agent answers: its processes, or why it did not; and to a kill.\<close>

datatype kill_reply = Kill_raised string | Kill_refused string | Was_killed "string option"

type_synonym process_row = "int \<times> string"

definition kill_targets :: "string option \<Rightarrow> int option \<Rightarrow> process_row list \<Rightarrow> process_row list" where
  "kill_targets cluster port ps = filter (\<lambda>(pid, command). matches_deployment command cluster port) ps"

definition kill_note :: "string \<Rightarrow> int \<Rightarrow> kill_reply \<Rightarrow> string" where
  "kill_note node pid reply =
     (case reply of
        Kill_raised why \<Rightarrow> node @ '': kill of pid '' @ show_int pid @ '' failed ('' @ why @ '')''
      | Kill_refused why \<Rightarrow> node @ '': pid '' @ show_int pid @ '' was refused ('' @ take 200 (str_strip why) @ '')''
      | Was_killed (Some detail) \<Rightarrow> node @ '': '' @ detail
      | Was_killed None \<Rightarrow> node @ '': pid '' @ show_int pid @ '' killed'')"

definition did_kill :: "kill_reply \<Rightarrow> bool" where
  "did_kill reply = (case reply of Was_killed d \<Rightarrow> True | _ \<Rightarrow> False)"

text \<open>One node: the notes, the processes signalled, and whether one died.\<close>

definition kill_on_node ::
  "(string \<Rightarrow> string + process_row list) \<Rightarrow> (string \<Rightarrow> int \<Rightarrow> kill_reply) \<Rightarrow> string option \<Rightarrow> int option
    \<Rightarrow> (string \<Rightarrow> string option) \<Rightarrow> string \<Rightarrow> string list \<times> (string \<times> process_row) list \<times> bool" where
  "kill_on_node processes kill cluster port urls node =
     (case urls node of
        None \<Rightarrow> ([node @ '': no agent URL''], [], False)
      | Some url \<Rightarrow>
        if url = [] then ([node @ '': no agent URL''], [], False)
        else
          let base = rev (dropWhile (\<lambda>c. c = CHR ''/'') (rev url)) in
          case processes base of
            Inl why \<Rightarrow> ([node @ '': could not read processes ('' @ why @ '')''], [], False)
          | Inr ps \<Rightarrow>
            let targets = kill_targets cluster port ps in
            if targets = [] then ([node @ '': nothing matched this deployment''], [], False)
            else (map (\<lambda>(pid, command). kill_note node pid (kill base pid)) targets,
                  map (\<lambda>t. (node, t)) targets,
                  list_ex (\<lambda>(pid, command). did_kill (kill base pid)) targets))"

text \<open>\<open>registry\<close> is the addresses of the agents and the cluster token, or nothing when it cannot be asked.\<close>

definition kill_through_agents ::
  "((string \<Rightarrow> string option) \<times> string) option \<Rightarrow> (string \<Rightarrow> string + process_row list)
    \<Rightarrow> (string \<Rightarrow> int \<Rightarrow> kill_reply) \<Rightarrow> mgr_record \<Rightarrow> bool \<times> string option \<times> (string \<times> process_row) list" where
  "kill_through_agents registry processes kill r =
     (case registry of
        None \<Rightarrow> (False, None, [])
      | Some (urls, token) \<Rightarrow>
        if dep_nodes (mr_deployment r) = [] then (False, None, [])
        else if token = []
        then (False, Some ''no cluster token is available, so the node agents could not be asked'', [])
        else
          let outs = map (kill_on_node processes kill (handle_cluster (mr_handle r)) (handle_port (mr_handle r)) urls)
                       (dep_nodes (mr_deployment r));
              notes = concat (map fst outs)
          in (list_ex (\<lambda>out. snd (snd out)) outs, if notes \<noteq> [] then Some (str_join ''; '' notes) else None,
              concat (map (\<lambda>out. fst (snd out)) outs)))"

text \<open>The answers of one stop: the launcher's, the first look, the polls, the node agents' and the look
  after them.\<close>

record stop_answers =
  sa_ok :: bool
  sa_output :: string
  sa_first :: "bool option"
  sa_polls :: "(rat \<times> bool option) list"
  sa_kill :: "bool \<times> string option"
  sa_after :: "bool option"

text \<open>Whether the stop is confirmed, and what the operator is left with.\<close>

definition stop_verdict :: "mgr_config \<Rightarrow> rat \<Rightarrow> string \<Rightarrow> string list \<Rightarrow> stop_answers \<Rightarrow> bool \<times> string option" where
  "stop_verdict cfg deadline cluster hosts a =
     (let confirmed = confirm_stop deadline (sa_ok a \<and> sa_first a = Some False) (sa_polls a);
          detail = (if confirmed then None else snd (sa_kill a));
          confirmed = (if confirmed then True else fst (sa_kill a) \<and> sa_after a \<noteq> Some True);
          budget = fmt0 (stop_confirm_timeout_s cfg)
      in if \<not> confirmed
         then (False, Some (''sparkrun stop did not confirm within '' @ budget @ ''s. Workload '' @ cluster
                 @ '' may still be running on '' @ (if str_join '', '' hosts \<noteq> [] then str_join '', '' hosts else ''its hosts'')
                 @ ''. Check with: sparkrun cluster check-job '' @ cluster @ [CHR 0x0A] @ str_strip (sa_output a)
                 @ (case detail of Some k \<Rightarrow> if k \<noteq> [] then [CHR 0x0A, CHR 0x0A] @ ''Force kill: '' @ k else [] | None \<Rightarrow> [])))
         else (True, case detail of
                 Some k \<Rightarrow> if k \<noteq> [] then Some (''sparkrun stop did not confirm within '' @ budget
                             @ ''s, so the backend was killed on its nodes. '' @ k) else None
               | None \<Rightarrow> None))"

definition stop_serving_end ::
  "mgr_config \<Rightarrow> rat \<Rightarrow> rat \<Rightarrow> string \<Rightarrow> string option \<Rightarrow> stop_answers \<Rightarrow> manager \<Rightarrow> (mgr_error + unit) \<times> manager" where
  "stop_serving_end cfg deadline now did cluster a m =
     (case dget (mg_records m) did of
        None \<Rightarrow> (Inr (), m)
      | Some r \<Rightarrow>
        let left = (case cluster of None \<Rightarrow> None
                    | Some c \<Rightarrow> snd (stop_verdict cfg deadline c (handle_hosts (mr_handle r)) a));
            m = (case left of None \<Rightarrow> m | Some e \<Rightarrow> emit_event (Stop_escalated did) m);
            r = (case left of None \<Rightarrow> r | Some e \<Rightarrow> r\<lparr>mr_deployment := (mr_deployment r)\<lparr>dep_last_error := Some e\<rparr>\<rparr>)
        in transition_to now STOPPED r m)"

section \<open>The memory watch\<close>

definition severity_of :: "rat \<Rightarrow> severity" where
  "severity_of fraction =
     (if fraction \<ge> MEMORY_CRITICAL_FRACTION then Sev_critical
      else if fraction \<ge> MEMORY_WARN_FRACTION then Sev_warning else Sev_ok)"

definition memory_fraction :: "node_state \<Rightarrow> rat" where
  "memory_fraction st =
     of_int (memory_used st) / of_int (let a = addressable_memory (profile st) in if a \<noteq> 0 then a else 1)"

definition watch_node :: "string \<Rightarrow> node_state \<Rightarrow> mgr_record \<Rightarrow> mgr_event list \<times> mgr_record" where
  "watch_node n st r =
     (let did = deployment_id (mr_deployment r); was = n \<in> set (mr_unhealthy_nodes r);
          news = (if ns_healthy st \<or> was then [] else [Node_unhealthy did n]);
          r = (if ns_healthy st then r\<lparr>mr_unhealthy_nodes := filter (\<lambda>k. k \<noteq> n) (mr_unhealthy_nodes r)\<rparr>
               else r\<lparr>mr_unhealthy_nodes := List.insert n (mr_unhealthy_nodes r)\<rparr>);
          severity = severity_of (memory_fraction st);
          previous = dget_or (mr_node_severity r) n Sev_ok;
          r = r\<lparr>mr_node_severity := dset n severity (mr_node_severity r)\<rparr>
      in (news @ (if severity = previous then []
                  else case severity of
                      Sev_critical \<Rightarrow> [Memory_critical did n]
                    | Sev_warning \<Rightarrow> [Memory_warning did n (admitting r)]
                    | Sev_ok \<Rightarrow> [Memory_cleared did n (admitting r)]),
          r))"

fun watch_nodes :: "(string, node_state) dict \<Rightarrow> string list \<Rightarrow> mgr_record \<Rightarrow> mgr_event list \<times> mgr_record" where
  "watch_nodes nodes [] r = ([], r)"
| "watch_nodes nodes (n # ns) r =
     (case dget nodes n of
        None \<Rightarrow> watch_nodes nodes ns r
      | Some st \<Rightarrow>
        (case watch_node n st r of
           (es, r) \<Rightarrow> (case watch_nodes nodes ns r of (fs, r) \<Rightarrow> (es @ fs, r))))"

definition check_memory :: "(string, node_state) dict \<Rightarrow> string \<Rightarrow> manager \<Rightarrow> manager" where
  "check_memory nodes did m =
     (case dget (mg_records m) did of
        None \<Rightarrow> m
      | Some r \<Rightarrow>
        (case watch_nodes nodes (dep_nodes (mr_deployment r)) r of
           (es, r) \<Rightarrow> (put_record r m)\<lparr>mg_events := mg_events m @ es\<rparr>))"

section \<open>The backend watch\<close>

text \<open>The state is not looked at again before the transition.\<close>

definition apply_backend_probe ::
  "mgr_config \<Rightarrow> rat \<Rightarrow> (bool \<times> string option) option \<Rightarrow> string \<Rightarrow> manager \<Rightarrow> (mgr_error + unit) \<times> manager" where
  "apply_backend_probe cfg now answer did m =
     (case dget (mg_records m) did of
        None \<Rightarrow> (Inr (), m)
      | Some r \<Rightarrow>
        (case answer of
           None \<Rightarrow> (Inr (), m)
         | Some (True, why) \<Rightarrow> (Inr (), put_record (r\<lparr>mr_health_failures := 0\<rparr>) m)
         | Some (False, why) \<Rightarrow>
           let n = mr_health_failures r + 1; r = r\<lparr>mr_health_failures := n\<rparr> in
           if n < health_fail_threshold cfg then (Inr (), put_record r m)
           else
             let detail = ''backend stopped answering: ''
                   @ (case why of Some w \<Rightarrow> if w \<noteq> [] then w else ''unknown'' | None \<Rightarrow> ''unknown'')
             in transition_to now FAILED
                  (r\<lparr>mr_deployment := (mr_deployment r)\<lparr>dep_last_error := Some detail\<rparr>\<rparr>)
                  (emit_event (Backend_lost did n) m)))"

definition settle_state :: "rat \<Rightarrow> string \<Rightarrow> manager \<Rightarrow> (mgr_error + unit) \<times> manager" where
  "settle_state now did m =
     (case dget (mg_records m) did of
        None \<Rightarrow> (Inr (), m)
      | Some r \<Rightarrow>
        if degraded_reasons r \<noteq> [] \<and> rec_state r = READY then transition_to now DEGRADED r m
        else if degraded_reasons r = [] \<and> rec_state r = DEGRADED then transition_to now READY r m
        else (Inr (), m))"

definition watched :: "manager \<Rightarrow> string list" where
  "watched m = map fst (filter (\<lambda>(did, r). rec_state r \<in> set SERVING) (mg_records m))"

definition MAX_PROBE_WORKERS :: nat where "MAX_PROBE_WORKERS = 64"

text \<open>Past the cap a window of the targets is probed and the cursor moves behind it.\<close>

definition probe_window :: "nat \<Rightarrow> nat \<Rightarrow> 'a list \<Rightarrow> 'a list \<times> nat" where
  "probe_window cap offset targets =
     (if length targets > cap
      then let n = length targets; start = offset mod n
           in (take cap (drop start targets @ take start targets), (start + cap) mod n)
      else (targets, offset))"

definition probe_targets :: "manager \<Rightarrow> string list \<Rightarrow> string list" where
  "probe_targets m dids = filter (\<lambda>did. case dget (mg_records m) did of
     Some r \<Rightarrow> (case backend_url (mr_deployment r) of Some u \<Rightarrow> u \<noteq> [] | None \<Rightarrow> False) | None \<Rightarrow> False) dids"

text \<open>A probe that had not returned when the phase's time was up counts as a failed one.\<close>

definition probe_backends ::
  "(string \<Rightarrow> (bool \<times> string option) option) \<Rightarrow> rat \<Rightarrow> string list \<Rightarrow> manager
    \<Rightarrow> (string, bool \<times> string option) dict \<times> manager" where
  "probe_backends answers hard_deadline dids m =
     (let targets = probe_targets m dids in
      if targets = [] then ([], m)
      else case probe_window (max 1 MAX_PROBE_WORKERS) (mg_probe_offset m) targets of
          (window, offset) \<Rightarrow>
            (map (\<lambda>did. (did, case answers did of
                Some a \<Rightarrow> a
              | None \<Rightarrow> (False, Some (''probe did not return within '' @ fmt2 hard_deadline @ ''s''
                  @ '' (possible slow-drip response or a blocked hostname lookup)'')))) window,
             m\<lparr>mg_probe_offset := offset\<rparr>))"

definition tick_record ::
  "mgr_config \<Rightarrow> rat \<Rightarrow> (string, node_state) dict \<Rightarrow> (bool \<times> string option) option \<Rightarrow> string \<Rightarrow> manager
    \<Rightarrow> (mgr_error + unit) \<times> manager" where
  "tick_record cfg now nodes answer did m =
     (case apply_backend_probe cfg now answer did (check_memory nodes did m) of
        (Inl e, m) \<Rightarrow> (Inl e, m)
      | (Inr _, m) \<Rightarrow> settle_state now did m)"

text \<open>An exception ends the tick.\<close>

fun tick_records ::
  "mgr_config \<Rightarrow> rat \<Rightarrow> (string, node_state) dict \<Rightarrow> (string, bool \<times> string option) dict \<Rightarrow> string list \<Rightarrow> manager
    \<Rightarrow> (mgr_error + unit) \<times> manager" where
  "tick_records cfg now nodes results [] m = (Inr (), m)"
| "tick_records cfg now nodes results (did # dids) m =
     (case tick_record cfg now nodes (dget results did) did m of
        (Inl e, m) \<Rightarrow> (Inl e, m)
      | (Inr _, m) \<Rightarrow> tick_records cfg now nodes results dids m)"

text \<open>The time one probe may take, so that a dead backend is found in time.\<close>

definition DEATH_BOUND_S :: rat where "DEATH_BOUND_S = 15"
definition MIN_PROBE_TIMEOUT_S :: rat where "MIN_PROBE_TIMEOUT_S = 25 / 100"
definition PROBE_OVERHEAD_S :: rat where "PROBE_OVERHEAD_S = 3 / 10"

definition backend_probe_timeout :: "int \<Rightarrow> rat \<Rightarrow> rat" where
  "backend_probe_timeout threshold poll_interval =
     (let misses = max 1 threshold;
          budget = DEATH_BOUND_S / of_int misses - poll_interval - PROBE_OVERHEAD_S
      in max MIN_PROBE_TIMEOUT_S (budget / of_nat (max 1 (length HEALTH_PATHS))))"

definition ready_probe_timeout :: "rat \<Rightarrow> rat" where
  "ready_probe_timeout poll_interval =
     max MIN_PROBE_TIMEOUT_S (poll_interval / of_nat (length HEALTH_PATHS + 1))"

definition tick ::
  "mgr_config \<Rightarrow> rat \<Rightarrow> rat \<Rightarrow> (string, node_state) dict \<Rightarrow> (string \<Rightarrow> (bool \<times> string option) option) \<Rightarrow> manager
    \<Rightarrow> (mgr_error + unit) \<times> manager" where
  "tick cfg poll_interval now nodes answers m =
     (let dids = watched m; timeout = backend_probe_timeout (health_fail_threshold cfg) poll_interval in
      case probe_backends answers (timeout * of_nat (max 1 (length HEALTH_PATHS))) dids m of
        (results, m) \<Rightarrow> tick_records cfg now nodes results dids m)"

section \<open>After a restart\<close>

definition in_flight_stop :: string where
  "in_flight_stop = ''stop was in flight when the control plane restarted''"

text \<open>\<open>answer\<close> is the probe of the record's address, \<open>running\<close> the launcher's word on its workload; either
  is asked only when there is one.\<close>

definition evidence ::
  "bool \<times> string option \<Rightarrow> bool option \<Rightarrow> mgr_record \<Rightarrow> deployment_state \<times> string option" where
  "evidence answer running r =
     (let state = rec_state r;
          has_url = (case backend_url (mr_deployment r) of Some u \<Rightarrow> u \<noteq> [] | None \<Rightarrow> False) in
      if state \<in> set TERMINAL then (state, None)
      else if has_url \<and> fst answer
      then (if state = STOPPING then (STOPPING, Some in_flight_stop) else (READY, None))
      else if has_url \<and> wrong_model (snd answer) then (FAILED, snd answer)
      else
        case (if handle_cluster (mr_handle r) = None then None else running) of
          Some True \<Rightarrow>
            if state = STOPPING then (STOPPING, Some in_flight_stop)
            else (LAUNCHING, Some ''adopted mid-startup after a control plane restart'')
        | None \<Rightarrow>
            if state = STOPPING then (STOPPING, Some in_flight_stop)
            else (LAUNCHING, Some (''sparkrun could not confirm liveness after a control plane ''
                    @ ''restart (check-job did not answer); treating as still starting''))
        | Some False \<Rightarrow>
            if state = LAUNCHING then (FAILED, Some ''launch did not survive the control plane restart'')
            else (STOPPED, Some ''backend was gone when the control plane restarted''))"

definition adopt_one ::
  "rat \<Rightarrow> (string \<Rightarrow> bool \<times> string option) \<Rightarrow> (string \<Rightarrow> bool option) \<Rightarrow> deployment \<times> json_object \<Rightarrow> manager
    \<Rightarrow> (mgr_error + unit) \<times> manager" where
  "adopt_one now answers running dh m =
     (let r = new_record (fst dh) (snd dh); did = deployment_id (fst dh) in
      case evidence (answers did) (running did) r of
        (resolved, reason) \<Rightarrow>
          let d = (fst dh)\<lparr>dep_state := resolved\<rparr>;
              d = (case reason of Some w \<Rightarrow> if w \<noteq> [] then d\<lparr>dep_last_error := Some w\<rparr> else d | None \<Rightarrow> d);
              m = put_record (r\<lparr>mr_deployment := d\<rparr>) m
          in case save_record now (mg_writable m) d (snd dh) (mg_store m) of
               (Inl e, st) \<Rightarrow> (Inl (Raises e), m\<lparr>mg_store := st\<rparr>)
             | (Inr _, st) \<Rightarrow>
               (Inr (), emit_event (Reconciled did resolved (resolved \<notin> set TERMINAL)) (m\<lparr>mg_store := st\<rparr>)))"

fun adopt_all ::
  "rat \<Rightarrow> (string \<Rightarrow> bool \<times> string option) \<Rightarrow> (string \<Rightarrow> bool option) \<Rightarrow> (deployment \<times> json_object) list \<Rightarrow> manager
    \<Rightarrow> (mgr_error + unit) \<times> manager" where
  "adopt_all now answers running [] m = (Inr (), m)"
| "adopt_all now answers running (dh # dhs) m =
     (case adopt_one now answers running dh m of
        (Inl e, m) \<Rightarrow> (Inl e, m)
      | (Inr _, m) \<Rightarrow> adopt_all now answers running dhs m)"

definition reconcile_store ::
  "rat \<Rightarrow> (string \<Rightarrow> bool \<times> string option) \<Rightarrow> (string \<Rightarrow> bool option) \<Rightarrow> manager \<Rightarrow> (mgr_error + unit) \<times> manager" where
  "reconcile_store now answers running m =
     (case purge_expired TERMINAL_RETENTION_S now (mg_store m) of
        (Inl e, st) \<Rightarrow> (Inl (Raises e), m\<lparr>mg_store := st\<rparr>)
      | (Inr n, st) \<Rightarrow> adopt_all now answers running (load_all st) (m\<lparr>mg_store := st\<rparr>))"

end
