(* ===== verification/Deploy_Live.thy ===== *)
theory Deploy_Live
  imports Deploy_Watch
begin

text \<open>
  What the manager keeps true of its deployments: every operation is a sequence of edits that leave
  identities, ports and states alone and of checked, announced changes of state; so no two live deployments
  share a name, a port, or a model on a node, and the announced changes replay to the present state.
\<close>

declare map_of_eq_Some_iff [simp del]

section \<open>Edits and changes\<close>

definition same_identity :: "mgr_record \<Rightarrow> mgr_record \<Rightarrow> bool" where
  "same_identity r r' \<longleftrightarrow>
     (let d = mr_deployment r; d' = mr_deployment r' in
      deployment_id d' = deployment_id d \<and> served_name d' = served_name d \<and> dep_shape d' = dep_shape d
      \<and> dep_plan d' = dep_plan d \<and> dep_fit d' = dep_fit d \<and> handle_port (mr_handle r') = handle_port (mr_handle r))"

definition edited :: "mgr_record \<Rightarrow> mgr_record \<Rightarrow> bool" where
  "edited r r' \<longleftrightarrow> same_identity r r' \<and> rec_state r' = rec_state r"

definition changes :: "string \<Rightarrow> mgr_event list \<Rightarrow> (deployment_state \<times> deployment_state) list" where
  "changes did es = List.map_filter (\<lambda>e. case e of
     State_changed i s t a \<Rightarrow> if i = did then Some (s, t) else None | _ \<Rightarrow> None) es"

definition storable :: "deployment \<Rightarrow> bool" where
  "storable d \<longleftrightarrow> (\<exists>p. record_path (deployment_id d) = Inr p) \<and> dep_plan d \<noteq> None \<and> dep_fit d \<noteq> None"

definition keyed :: "manager \<Rightarrow> bool" where
  "keyed m \<longleftrightarrow> dict_ok (mg_records m)
     \<and> (\<forall>did r. dget (mg_records m) did = Some r \<longrightarrow> deployment_id (mr_deployment r) = did)"

inductive move :: "manager \<Rightarrow> manager \<Rightarrow> bool" where
  Edit: "dkeys (mg_records m') = dkeys (mg_records m) \<Longrightarrow>
    (\<And>did r'. dget (mg_records m') did = Some r' \<Longrightarrow> \<exists>r. dget (mg_records m) did = Some r \<and> edited r r') \<Longrightarrow>
    (\<And>did. changes did (mg_events m') = changes did (mg_events m)) \<Longrightarrow>
    mg_writable m' = mg_writable m \<Longrightarrow> move m m'"
| Change: "dget (mg_records m) did = Some r \<Longrightarrow> transition (rec_state r) t \<Longrightarrow> same_identity r r' \<Longrightarrow> rec_state r' = t \<Longrightarrow>
    mg_records m' = dset did r' (mg_records m) \<Longrightarrow>
    (\<And>i. changes i (mg_events m') = changes i (mg_events m)
        @ (if i = did \<and> mg_writable m \<and> storable (mr_deployment r) then [(rec_state r, t)] else [])) \<Longrightarrow>
    mg_writable m' = mg_writable m \<Longrightarrow> move m m'"

abbreviation moves :: "manager \<Rightarrow> manager \<Rightarrow> bool" where
  "moves \<equiv> move\<^sup>*\<^sup>*"

lemma changes_simps [simp]:
  "changes did [] = []"
  "changes did (es @ fs) = changes did es @ changes did fs"
  "changes did [State_changed i s t a] = (if i = did then [(s, t)] else [])"
  "changes did [Launch_was_refused n] = []" "changes did [Launch_failed i b] = []"
  "changes did [Memory_warning i n b] = []" "changes did [Memory_critical i n] = []"
  "changes did [Memory_cleared i n b] = []" "changes did [Node_unhealthy i n] = []"
  "changes did [Backend_lost i k] = []" "changes did [Fit_miss i] = []" "changes did [Stop_escalated i] = []"
  "changes did [Reconciled i s b] = []"
  by (simp_all add: changes_def List.map_filter_def)

lemma same_identity_refl [simp]: "same_identity r r"
  by (simp add: same_identity_def)

lemma same_identity_trans: "same_identity r s \<Longrightarrow> same_identity s t \<Longrightarrow> same_identity r t"
  by (simp add: same_identity_def Let_def)

lemma edited_refl [simp]: "edited r r"
  by (simp add: edited_def)

lemma dset_dset [simp]: "dset k v (dset k w d) = dset k v d"
  by (induction d) auto

lemma dkeys_dset_present: "dget d k = Some w \<Longrightarrow> dkeys (dset k v d) = dkeys d"
  by (induction d) (auto split: if_splits)

lemma set_dkeys_dset: "fst ` set (dset k v d) = insert k (fst ` set d)"
  by (induction d) auto

lemma keyed_id: "keyed m \<Longrightarrow> dget (mg_records m) did = Some r \<Longrightarrow> deployment_id (mr_deployment r) = did"
  by (simp add: keyed_def)

lemma move_keyed: "move m m' \<Longrightarrow> keyed m \<Longrightarrow> keyed m'"
proof (induction rule: move.induct)
  case (Edit m' m)
  then show ?case by (auto simp: keyed_def edited_def same_identity_def Let_def; metis)
next
  case (Change m did r t r' m')
  then show ?case by (auto simp: keyed_def same_identity_def Let_def split: if_splits)
qed

lemma moves_keyed: "moves m m' \<Longrightarrow> keyed m \<Longrightarrow> keyed m'"
  by (induction rule: rtranclp_induct) (auto intro: move_keyed)

section \<open>The building blocks\<close>

text \<open>What is not in the records, the announced changes or the disk can change freely.\<close>

lemma move_other:
  "mg_records m' = mg_records m \<Longrightarrow> (\<And>did. changes did (mg_events m') = changes did (mg_events m)) \<Longrightarrow>
   mg_writable m' = mg_writable m \<Longrightarrow> moves m m'"
  by (rule r_into_rtranclp, rule move.Edit) (auto intro: edited_refl)

lemma put_record_fields [simp]:
  "mg_records (put_record r m) = dset (deployment_id (mr_deployment r)) r (mg_records m)"
  "mg_events (put_record r m) = mg_events m" "mg_writable (put_record r m) = mg_writable m"
  "mg_store (put_record r m) = mg_store m"
  by (simp_all add: put_record_def)

lemma emit_event_fields [simp]:
  "mg_records (emit_event e m) = mg_records m" "mg_events (emit_event e m) = mg_events m @ [e]"
  "mg_writable (emit_event e m) = mg_writable m" "mg_store (emit_event e m) = mg_store m"
  by (simp_all add: emit_event_def)

lemma move_edit:
  assumes "keyed m" and "dget (mg_records m) did = Some r" and "edited r r'"
  shows "move m (put_record r' m)"
proof -
  have "deployment_id (mr_deployment r') = did"
    using assms keyed_id by (auto simp: edited_def same_identity_def Let_def)
  then show ?thesis
    using assms(2,3) by (intro move.Edit) (auto simp: dkeys_dset_present split: if_splits intro: edited_refl)
qed

lemma save_record_Inl:
  "save_record now disk d h st = (Inl e, st') \<Longrightarrow> \<not> (disk \<and> storable d)"
  using encode_Inr_iff [of d] by (auto simp: save_record_def storable_def split: if_splits sum.splits)

lemma save_record_Inr:
  "save_record now disk d h st = (Inr p, st') \<Longrightarrow> dep_state d \<in> set PERSISTED \<Longrightarrow> disk \<and> storable d"
  using encode_Inr_iff [of d]
  by (auto simp: save_record_def storable_def split: if_splits sum.splits)

lemma storable_state: "storable (d\<lparr>dep_state := t\<rparr>) = storable d"
  by (simp add: storable_def)

lemma storable_same: "same_identity r r' \<Longrightarrow> storable (mr_deployment r') = storable (mr_deployment r)"
  by (simp add: same_identity_def storable_def Let_def)

lemma transition_persisted: "transition s t \<Longrightarrow> t \<in> set PERSISTED"
  by (cases s) (auto simp: transition_iff PERSISTED_def)

lemma rec_state_update [simp]: "rec_state (r\<lparr>mr_deployment := (mr_deployment r)\<lparr>dep_state := t\<rparr>\<rparr>) = t"
  by (simp add: rec_state_def)

text \<open>A transition from an edit of the record is that edit and at most one change.\<close>

lemma transition_to_moves:
  assumes k: "keyed m" and r: "dget (mg_records m) did = Some r0" and e: "edited r0 r"
  shows "moves m (snd (transition_to now t r m))"
proof -
  let ?s = "rec_state r" and ?m = "put_record r m"
  let ?r = "r\<lparr>mr_deployment := (mr_deployment r)\<lparr>dep_state := t\<rparr>\<rparr>"
  have id: "deployment_id (mr_deployment r) = did"
    using e keyed_id [OF k r] by (simp add: edited_def same_identity_def Let_def)
  have edit: "moves m ?m" using move_edit [OF k r e] by blast
  show ?thesis
  proof (cases "check_transition did ?s t")
    case (Inl x)
    then have "snd (transition_to now t r m) = ?m" by (simp add: transition_to_def Let_def id rec_state_def)
    then show ?thesis using edit by simp
  next
    case (Inr u)
    show ?thesis
    proof (cases "?s = t")
      case True
      then have "snd (transition_to now t r m) = ?m"
        using Inr by (simp add: transition_to_def Let_def id rec_state_def)
      then show ?thesis using edit by simp
    next
      case False
      have tr: "transition ?s t" using Inr False by (intro transition.intros) auto
      let ?sv = "save_record now (mg_writable m) (mr_deployment ?r) (mr_handle r) (mg_store m)"
      define m' where "m' = snd (transition_to now t r m)"
      have m': "m' = (case ?sv of
            (Inl e, st) \<Rightarrow> (put_record ?r ?m)\<lparr>mg_store := st\<rparr>
          | (Inr p, st) \<Rightarrow> emit_event (State_changed did ?s t (admitting ?r \<and> t \<in> set SERVING))
              ((put_record ?r ?m)\<lparr>mg_store := (if t \<in> set TERMINAL then snd (purge_surplus TERMINAL_RECORDS_KEPT st) else st)\<rparr>))"
        using Inr False unfolding m'_def transition_to_def
        by (simp add: Let_def id rec_state_def split: prod.split sum.split)
      have saved: "(\<exists>p st. ?sv = (Inr p, st)) \<longleftrightarrow> mg_writable m \<and> storable (mr_deployment r)"
        using save_record_Inl [of now "mg_writable m" "mr_deployment ?r" "mr_handle r" "mg_store m"]
          save_record_Inr [of now "mg_writable m" "mr_deployment ?r" "mr_handle r" "mg_store m"]
          transition_persisted [OF tr]
        by (cases ?sv; cases "fst ?sv") (auto simp: storable_state)
      have recs: "mg_records m' = dset did ?r (mg_records ?m)" "mg_writable m' = mg_writable ?m"
        unfolding m' by (simp_all add: id split: prod.split sum.split)
      have ev: "changes i (mg_events m') = changes i (mg_events ?m)
          @ (if i = did \<and> mg_writable ?m \<and> storable (mr_deployment r) then [(?s, t)] else [])" for i
      proof (cases "mg_writable m \<and> storable (mr_deployment r)")
        case True
        then obtain p st where "?sv = (Inr p, st)" using saved by blast
        then show ?thesis using True unfolding m' by simp
      next
        case False
        then obtain e st where "?sv = (Inl e, st)" using saved by (metis prod.collapse sum.exhaust)
        then show ?thesis using False unfolding m' by auto
      qed
      have "same_identity r ?r" by (simp add: same_identity_def)
      then have "move ?m m'"
        by (intro move.Change [OF _ tr _ _ recs(1) ev recs(2)]) (simp_all add: id)
      then show ?thesis using edit unfolding m'_def by (rule rtranclp.rtrancl_into_rtrancl [rotated])
    qed
  qed
qed

section \<open>Every operation is moves\<close>

datatype mgr_op =
    Op_launch bool "int \<Rightarrow> bool" string rat launch_request
  | Op_returned rat string rat "string list" process
  | Op_line bool string string
  | Op_handoff string
  | Op_wait rat rat bool nat string "bool \<times> string option" "bool option" string string
  | Op_ready rat string
  | Op_fail rat string launch_error "string option"
  | Op_post_mortem string string
  | Op_stop rat string
  | Op_ask_stop "string option"
  | Op_stop_launch rat string
  | Op_stop_serving rat rat string "string option" stop_answers
  | Op_watch rat "(string, node_state) dict" "(bool \<times> string option) option" string
  | Op_tick rat rat "(string, node_state) dict" "string \<Rightarrow> (bool \<times> string option) option"
  | Op_hold "string list" rat rat
  | Op_release "string list"
  | Op_disk bool

definition with_record :: "string \<Rightarrow> (mgr_record \<Rightarrow> mgr_record) \<Rightarrow> manager \<Rightarrow> manager" where
  "with_record did f m = (case dget (mg_records m) did of None \<Rightarrow> m | Some r \<Rightarrow> put_record (f r) m)"

fun mgr_step :: "mgr_config \<Rightarrow> mgr_op \<Rightarrow> manager \<Rightarrow> manager" where
  "mgr_step cfg (Op_launch available port_free did now q) m = snd (launch_deployment cfg available port_free did now q m)"
| "mgr_step cfg (Op_returned now did timeout hosts proc) m =
     (case dget (mg_records m) did of
        None \<Rightarrow> m
      | Some r \<Rightarrow>
        (case handle_port (mr_handle r) of
           None \<Rightarrow> m
         | Some port \<Rightarrow> snd (launch_returned now did (launch_outcome timeout port hosts proc) m)))"
| "mgr_step cfg (Op_line launcher line did) m =
     with_record did (note_line (if launcher then from_launcher else from_runtime_log) line) m"
| "mgr_step cfg (Op_handoff did) m = with_record did (note_progress (Some handoff)) m"
| "mgr_step cfg (Op_wait now deadline closing polls last_reason answer running said did) m =
     snd (wait_pass cfg now deadline closing polls last_reason answer running said did m)"
| "mgr_step cfg (Op_ready now did) m =
     (case dget (mg_records m) did of None \<Rightarrow> m | Some r \<Rightarrow> snd (make_ready now r m))"
| "mgr_step cfg (Op_fail now did err said) m = snd (fail_launch now did err said m)"
| "mgr_step cfg (Op_post_mortem did said) m = post_mortem did said m"
| "mgr_step cfg (Op_stop now did) m = snd (stop_begin now did m)"
| "mgr_step cfg (Op_ask_stop cluster) m = ask_stop cluster m"
| "mgr_step cfg (Op_stop_launch now did) m = snd (stop_launch_end now did m)"
| "mgr_step cfg (Op_stop_serving deadline now did cluster a) m = snd (stop_serving_end cfg deadline now did cluster a m)"
| "mgr_step cfg (Op_watch now nodes answer did) m = snd (tick_record cfg now nodes answer did m)"
| "mgr_step cfg (Op_tick poll now nodes answers) m = snd (tick cfg poll now nodes answers m)"
| "mgr_step cfg (Op_hold nodes deadline now) m = snd (hold_starting nodes deadline now m)"
| "mgr_step cfg (Op_release nodes) m = release_starting nodes m"
| "mgr_step cfg (Op_disk takes_writes) m = m\<lparr>mg_writable := takes_writes\<rparr>"

fun launched_id :: "mgr_op \<Rightarrow> string option" where
  "launched_id (Op_launch available port_free did now q) = Some did"
| "launched_id op = None"

fun is_disk :: "mgr_op \<Rightarrow> bool" where
  "is_disk (Op_disk b) = True"
| "is_disk op = False"

definition mgr_run :: "mgr_config \<Rightarrow> mgr_op list \<Rightarrow> manager \<Rightarrow> manager" where
  "mgr_run cfg ops m = foldl (\<lambda>m op. mgr_step cfg op m) m ops"

lemma with_record_moves: "keyed m \<Longrightarrow> (\<And>r. edited r (f r)) \<Longrightarrow> moves m (with_record did f m)"
  by (auto simp: with_record_def split: option.split intro: move_edit)

lemma edited_progress: "edited r (note_progress p r)"
  by (simp add: note_progress_def edited_def same_identity_def rec_state_def split: option.split)

lemma edited_trans: "edited r s \<Longrightarrow> edited s t \<Longrightarrow> edited r t"
  using same_identity_trans by (auto simp: edited_def)

lemma edited_line: "edited r (note_line read line r)"
  unfolding note_line_def Let_def
  by (rule edited_trans [OF _ edited_progress]) (simp add: edited_def same_identity_def rec_state_def)

lemma edited_deployment:
  "edited r (r\<lparr>mr_deployment := (mr_deployment r)\<lparr>dep_last_error := e\<rparr>\<rparr>)"
  "edited r (r\<lparr>mr_deployment := (mr_deployment r)\<lparr>started_at := t, dep_last_error := e\<rparr>\<rparr>)"
  "edited r (r\<lparr>mr_health_failures := n\<rparr>)"
  "edited r (r\<lparr>mr_health_failures := n, mr_deployment := (mr_deployment r)\<lparr>dep_last_error := e\<rparr>\<rparr>)"
  by (simp_all add: edited_def same_identity_def rec_state_def)

lemma archive_log_moves: "moves m (archive_log now r m)"
  by (rule move_other) (simp_all add: archive_log_def Let_def)

lemma emit_moves: "(\<And>i. changes i [e] = []) \<Longrightarrow> moves m (emit_event e m)"
  by (rule move_other) simp_all

lemma post_mortem_moves: "keyed m \<Longrightarrow> moves m (post_mortem did said m)"
proof -
  assume k: "keyed m"
  show ?thesis
  proof (cases "dget (mg_records m) did")
    case (Some r)
    then have "moves m (put_record (r\<lparr>mr_deployment := (mr_deployment r)\<lparr>dep_last_error := e\<rparr>\<rparr>) m)" for e
      using move_edit [OF k Some] edited_deployment(1) by blast
    then show ?thesis using Some emit_moves [of "Fit_miss did"]
      by (auto simp: post_mortem_def Let_def intro: rtranclp_trans)
  qed (simp add: post_mortem_def)
qed

lemma after_failure_moves: "keyed m \<Longrightarrow> moves m (after_failure now did err said m)"
proof -
  assume k: "keyed m"
  let ?m1 = "emit_event (Launch_failed did (le_oom err)) m"
  define m2 where "m2 = (if le_oom err then emit_event (Fit_miss did) ?m1
      else case said of Some text \<Rightarrow> post_mortem did text ?m1 | None \<Rightarrow> ?m1)"
  have one: "moves m ?m1" by (rule emit_moves) simp
  then have "moves ?m1 m2"
    using post_mortem_moves [OF moves_keyed [OF one k]] emit_moves [of "Fit_miss did" ?m1]
    by (auto simp: m2_def split: option.split)
  with one have "moves m m2" by (rule rtranclp_trans)
  moreover have "after_failure now did err said m
      = (case dget (mg_records m2) did of Some r \<Rightarrow> archive_log now r m2 | None \<Rightarrow> m2)"
    unfolding after_failure_def m2_def Let_def ..
  ultimately show ?thesis using archive_log_moves by (auto split: option.split intro: rtranclp_trans)
qed

lemma fail_launch_moves: "keyed m \<Longrightarrow> moves m (snd (fail_launch now did err said m))"
proof -
  assume k: "keyed m"
  show ?thesis
  proof (cases "dget (mg_records m) did")
    case (Some r)
    define r' where "r' = r\<lparr>mr_deployment := (mr_deployment r)\<lparr>dep_last_error := Some (failure_detail err)\<rparr>\<rparr>"
    define first where "first = (if rec_state r' \<in> {LAUNCHING, READY, DEGRADED} then transition_to now FAILED r' m
        else (Inr (), put_record r' m))"
    have e: "edited r r'" unfolding r'_def by (rule edited_deployment)
    have one: "moves m (snd first)"
      using transition_to_moves [OF k Some e] move_edit [OF k Some e] by (auto simp: first_def)
    have "snd (fail_launch now did err said m)
        = (case fst first of Inl e \<Rightarrow> snd first | Inr u \<Rightarrow> after_failure now did err said (snd first))"
      unfolding first_def r'_def fail_launch_def Some option.case Let_def
      by (simp split: prod.split sum.split)
    then show ?thesis using one after_failure_moves [OF moves_keyed [OF one k]]
      by (auto split: sum.split intro: rtranclp_trans)
  qed (simp add: fail_launch_def)
qed

lemma launched_port: "handle_port (launched_handle res h) = Some (lres_port res)"
  by (simp add: launched_handle_def handle_port_def)

lemma outcome_port: "launch_outcome timeout port hosts proc = Inr res \<Longrightarrow> lres_port res = port"
  by (auto simp: launch_outcome_def Let_def split: process.splits if_splits option.splits)

lemma launch_returned_moves:
  assumes k: "keyed m" and r: "dget (mg_records m) did = Some r" and p: "handle_port (mr_handle r) = Some port"
    and out: "\<And>res. outcome = Inr res \<Longrightarrow> lres_port res = port"
  shows "moves m (snd (launch_returned now did outcome m))"
proof (cases outcome)
  case (Inl err)
  then show ?thesis using fail_launch_moves [OF k] by (simp add: launch_returned_def)
next
  case (Inr res)
  let ?r = "r\<lparr>mr_deployment := (mr_deployment r)\<lparr>backend_url := Some (lres_backend_url res)\<rparr>,
              mr_handle := launched_handle res (mr_handle r)\<rparr>"
  have "edited r ?r" using p out [OF Inr] by (simp add: edited_def same_identity_def rec_state_def launched_port)
  then have "moves m (put_record ?r m)" using move_edit [OF k r] by blast
  moreover have "moves (put_record ?r m) (snd (launch_returned now did outcome m))"
    by (rule move_other) (simp_all add: launch_returned_def Inr r Let_def split: prod.split sum.split)
  ultimately show ?thesis by (rule rtranclp_trans)
qed

lemma make_ready_moves: "keyed m \<Longrightarrow> dget (mg_records m) did = Some r \<Longrightarrow> moves m (snd (make_ready now r m))"
  unfolding make_ready_def using transition_to_moves edited_deployment(2) by blast

lemma wait_pass_moves:
  assumes k: "keyed m"
  shows "moves m (snd (wait_pass cfg now deadline closing polls last_reason answer running said did m))"
proof (cases "dget (mg_records m) did")
  case (Some r)
  have failed: "moves m (snd (case fail_launch now did err (Some said) m of
      (Inl e, m) \<Rightarrow> (Inl e, m) | (Inr _, m) \<Rightarrow> (Inr Waited, m)))" for err
    using fail_launch_moves [OF k, of now did err "Some said"]
    by (cases "fail_launch now did err (Some said) m"; cases "fst (fail_launch now did err (Some said) m)") simp_all
  have ready: "moves m (snd (case make_ready now r m of (Inl e, m) \<Rightarrow> (Inl e, m) | (Inr _, m) \<Rightarrow> (Inr Waited, m)))"
    using make_ready_moves [OF k Some, of now]
    by (cases "make_ready now r m"; cases "fst (make_ready now r m)") simp_all
  show ?thesis unfolding wait_pass_def Some option.case Let_def
    using failed ready by (simp split: option.split)
qed (simp add: wait_pass_def)

lemma stop_begin_moves: "keyed m \<Longrightarrow> moves m (snd (stop_begin now did m))"
proof -
  assume k: "keyed m"
  show ?thesis
  proof (cases "dget (mg_records m) did")
    case (Some r)
    have "moves m (snd (transition_to now STOPPING r m))" by (rule transition_to_moves [OF k Some edited_refl])
    then show ?thesis
      by (cases "transition_to now STOPPING r m"; cases "fst (transition_to now STOPPING r m)")
        (simp_all add: stop_begin_def Some)
  qed (simp add: stop_begin_def)
qed

lemma ask_stop_moves: "moves m (ask_stop cluster m)"
  by (rule move_other) (simp_all add: ask_stop_def split: option.split)

lemma stop_launch_end_moves: "keyed m \<Longrightarrow> moves m (snd (stop_launch_end now did m))"
  using transition_to_moves [OF _ _ edited_deployment(1)] by (simp add: stop_launch_end_def split: option.split)

lemma stop_serving_end_moves: "keyed m \<Longrightarrow> moves m (snd (stop_serving_end cfg deadline now did cluster a m))"
proof -
  assume k: "keyed m"
  show ?thesis
  proof (cases "dget (mg_records m) did")
    case (Some r)
    define left where "left = (case cluster of None \<Rightarrow> None
        | Some c \<Rightarrow> snd (stop_verdict cfg deadline c (handle_hosts (mr_handle r)) a))"
    define m1 where "m1 = (case left of None \<Rightarrow> m | Some e \<Rightarrow> emit_event (Stop_escalated did) m)"
    define r1 where "r1 = (case left of None \<Rightarrow> r
        | Some e \<Rightarrow> r\<lparr>mr_deployment := (mr_deployment r)\<lparr>dep_last_error := Some e\<rparr>\<rparr>)"
    have one: "moves m m1" unfolding m1_def using emit_moves [of "Stop_escalated did" m] by (auto split: option.split)
    have "edited r r1" unfolding r1_def using edited_deployment(1) by (auto split: option.split)
    moreover have "dget (mg_records m1) did = Some r" unfolding m1_def using Some by (simp split: option.split)
    ultimately have "moves m1 (snd (transition_to now STOPPED r1 m1))"
      using transition_to_moves [OF moves_keyed [OF one k]] by blast
    moreover have "stop_serving_end cfg deadline now did cluster a m = transition_to now STOPPED r1 m1"
      by (simp add: stop_serving_end_def Some Let_def left_def m1_def r1_def)
    ultimately show ?thesis using one by (metis rtranclp_trans)
  qed (simp add: stop_serving_end_def)
qed

section \<open>The watch\<close>

lemma edited_watch_node: "edited r (snd (watch_node n st r))" "changes i (fst (watch_node n st r)) = []"
  by (simp_all add: watch_node_def Let_def edited_def same_identity_def rec_state_def changes_def List.map_filter_def
      split: severity.split)

lemma edited_watch_nodes: "edited r (snd (watch_nodes nodes ns r))" "changes i (fst (watch_nodes nodes ns r)) = []"
proof (induction ns arbitrary: r)
  case (Cons n ns)
  { case 1 show ?case using edited_watch_node(1) Cons(1) edited_trans
      by (simp add: case_prod_unfold split: option.split) blast }
  { case 2 show ?case using edited_watch_node(2) Cons(2) by (simp add: case_prod_unfold split: option.split) }
qed simp_all

lemma check_memory_moves: "keyed m \<Longrightarrow> moves m (check_memory nodes did m)"
proof -
  assume k: "keyed m"
  show ?thesis
  proof (cases "dget (mg_records m) did")
    case (Some r)
    let ?w = "watch_nodes nodes (dep_nodes (mr_deployment r)) r"
    have "moves m (put_record (snd ?w) m)" using move_edit [OF k Some edited_watch_nodes(1)] by blast
    moreover have "moves (put_record (snd ?w) m) (check_memory nodes did m)"
      by (rule move_other) (simp_all add: check_memory_def Some case_prod_unfold edited_watch_nodes(2))
    ultimately show ?thesis by (rule rtranclp_trans)
  qed (simp add: check_memory_def)
qed

lemma apply_backend_probe_moves: "keyed m \<Longrightarrow> moves m (snd (apply_backend_probe cfg now answer did m))"
proof -
  assume k: "keyed m"
  show ?thesis
  proof (cases "dget (mg_records m) did")
    case (Some r)
    have put: "moves m (put_record (r\<lparr>mr_health_failures := n\<rparr>) m)" for n
      using move_edit [OF k Some edited_deployment(3)] by blast
    have "moves m (emit_event (Backend_lost did n) m)" for n by (rule emit_moves) simp
    moreover have "moves (emit_event (Backend_lost did n) m) (snd (transition_to now FAILED
        (r\<lparr>mr_health_failures := n, mr_deployment := (mr_deployment r)\<lparr>dep_last_error := e\<rparr>\<rparr>) (emit_event (Backend_lost did n) m)))" for n e
      using Some by (intro transition_to_moves [OF moves_keyed [OF calculation k] _ edited_deployment(4)]) simp
    ultimately have "moves m (snd (transition_to now FAILED
        (r\<lparr>mr_health_failures := n, mr_deployment := (mr_deployment r)\<lparr>dep_last_error := e\<rparr>\<rparr>) (emit_event (Backend_lost did n) m)))" for n e
      using rtranclp_trans by metis
    then show ?thesis using put by (auto simp: apply_backend_probe_def Some Let_def split: option.split bool.split)
  qed (simp add: apply_backend_probe_def)
qed

lemma settle_state_moves: "keyed m \<Longrightarrow> moves m (snd (settle_state now did m))"
  using transition_to_moves [OF _ _ edited_refl] by (simp add: settle_state_def split: option.split)

lemma tick_record_moves: "keyed m \<Longrightarrow> moves m (snd (tick_record cfg now nodes answer did m))"
proof -
  assume k: "keyed m"
  let ?c = "check_memory nodes did m"
  let ?a = "apply_backend_probe cfg now answer did ?c"
  have one: "moves m ?c" by (rule check_memory_moves [OF k])
  have "moves ?c (snd ?a)" by (rule apply_backend_probe_moves [OF moves_keyed [OF one k]])
  with one have two: "moves m (snd ?a)" by (rule rtranclp_trans)
  have "moves (snd ?a) (snd (settle_state now did (snd ?a)))" by (rule settle_state_moves [OF moves_keyed [OF two k]])
  with two have "moves m (snd (settle_state now did (snd ?a)))" by (rule rtranclp_trans)
  with two show ?thesis by (cases ?a; cases "fst ?a") (simp_all add: tick_record_def)
qed

lemma tick_records_moves: "keyed m \<Longrightarrow> moves m (snd (tick_records cfg now nodes results dids m))"
proof (induction dids arbitrary: m)
  case (Cons did dids)
  let ?t = "tick_record cfg now nodes (dget results did) did m"
  have one: "moves m (snd ?t)" by (rule tick_record_moves [OF Cons.prems])
  have "moves (snd ?t) (snd (tick_records cfg now nodes results dids (snd ?t)))"
    by (rule Cons.IH [OF moves_keyed [OF one Cons.prems]])
  with one show ?case by (cases ?t; cases "fst ?t") (auto intro: rtranclp_trans)
qed simp

lemma probe_backends_fields:
  "mg_records (snd (probe_backends answers h dids m)) = mg_records m"
  "mg_events (snd (probe_backends answers h dids m)) = mg_events m"
  "mg_writable (snd (probe_backends answers h dids m)) = mg_writable m"
  by (simp_all add: probe_backends_def Let_def split: prod.split)

lemma tick_moves: "keyed m \<Longrightarrow> moves m (snd (tick cfg poll now nodes answers m))"
proof -
  assume k: "keyed m"
  let ?p = "probe_backends answers (backend_probe_timeout (health_fail_threshold cfg) poll
      * of_nat (max 1 (length HEALTH_PATHS))) (watched m) m"
  have one: "moves m (snd ?p)" by (rule move_other) (simp_all add: probe_backends_fields)
  have "moves (snd ?p) (snd (tick_records cfg now nodes (fst ?p) (watched m) (snd ?p)))"
    by (rule tick_records_moves [OF moves_keyed [OF one k]])
  with one show ?thesis unfolding tick_def Let_def by (simp add: case_prod_unfold)
qed

section \<open>A launch is one record more\<close>

definition fresh_launch :: "launch_request \<Rightarrow> mgr_record \<Rightarrow> bool" where
  "fresh_launch q r \<longleftrightarrow> served_name (mr_deployment r) = requested_name q \<and> dep_shape (mr_deployment r) = lr_shape q
     \<and> dep_plan (mr_deployment r) = Some (lr_plan q) \<and> dep_fit (mr_deployment r) = Some (lr_fit q)
     \<and> rec_state r = LAUNCHING"

definition clear_of_others :: "mgr_config \<Rightarrow> (int \<Rightarrow> bool) \<Rightarrow> launch_request \<Rightarrow> manager \<Rightarrow> mgr_record \<Rightarrow> bool" where
  "clear_of_others cfg port_free q m r \<longleftrightarrow>
     find_conflict (requested_name q) (model_id (lr_shape q)) (node_ids (lr_plan q)) None (map snd (mg_records m)) = None
     \<and> handle_port (mr_handle r) = Some (allocate_port cfg port_free m)"

lemma check_opens: "check_transition did PLANNED LAUNCHING = Inr ()"
  by (simp add: check_transition_def can_def)

lemma launch_opens:
  "(\<exists>r. mg_records (snd (launch_deployment cfg available port_free did now q m)) = dset did r (mg_records m)
      \<and> deployment_id (mr_deployment r) = did \<and> fresh_launch q r \<and> clear_of_others cfg port_free q m r
      \<and> (\<forall>i. changes i (mg_events (snd (launch_deployment cfg available port_free did now q m)))
          = changes i (mg_events m)
            @ (if i = did \<and> mg_writable m \<and> storable (mr_deployment r) then [(PLANNED, LAUNCHING)] else []))
      \<and> mg_writable (snd (launch_deployment cfg available port_free did now q m)) = mg_writable m)
   \<or> (\<exists>e. fst (launch_deployment cfg available port_free did now q m) = Inl e)
     \<and> mg_records (snd (launch_deployment cfg available port_free did now q m)) = mg_records m
     \<and> mg_store (snd (launch_deployment cfg available port_free did now q m)) = mg_store m
     \<and> (mg_events (snd (launch_deployment cfg available port_free did now q m)) = mg_events m
        \<or> fr_verdict (lr_fit q) = WONT_FIT \<and> mg_events (snd (launch_deployment cfg available port_free did now q m))
            = mg_events m @ [Launch_was_refused (requested_name q)])
     \<and> mg_writable (snd (launch_deployment cfg available port_free did now q m)) = mg_writable m"
  (is "?opened \<or> ?refused")
proof -
  let ?l = "launch_deployment cfg available port_free did now q m"
  let ?conflict = "find_conflict (requested_name q) (model_id (lr_shape q)) (node_ids (lr_plan q)) None (map snd (mg_records m))"
  define ready where "ready \<longleftrightarrow> available \<and> ?conflict = None
        \<and> check_recipe_identifiers (model_id (lr_shape q)) (requested_name q) = Inr ()
        \<and> check_extra_args_safe (lr_extra_args q) = Inr () \<and> check_extra_args_safe (lr_custom_command q) = Inr ()
        \<and> \<not> (lr_extra_args q \<noteq> [] \<and> lr_custom_command q \<noteq> [])"
  have "\<exists>e. ?l = (Inl e, m)" if "fr_verdict (lr_fit q) \<noteq> WONT_FIT" "\<not> ready"
    using that by (auto simp: launch_deployment_def Let_def ready_def split: sum.split option.split)
  then consider (wont) "fr_verdict (lr_fit q) = WONT_FIT"
    | (refused) e where "?l = (Inl e, m)"
    | (accepted) "fr_verdict (lr_fit q) \<noteq> WONT_FIT" "available" "?conflict = None"
        "check_recipe_identifiers (model_id (lr_shape q)) (requested_name q) = Inr ()"
        "check_extra_args_safe (lr_extra_args q) = Inr ()" "check_extra_args_safe (lr_custom_command q) = Inr ()"
        "\<not> (lr_extra_args q \<noteq> [] \<and> lr_custom_command q \<noteq> [])"
    unfolding ready_def by metis
  then show ?thesis
  proof cases
    case accepted
    define d where "d = \<lparr>deployment_id = did, served_name = requested_name q, dep_shape = lr_shape q,
        dep_plan = Some (lr_plan q), dep_fit = Some (lr_fit q), runtime = lr_runtime q, dep_state = PLANNED,
        backend_url = None, dep_context_length = lr_context q, dep_max_concurrent_seqs = lr_max_seqs q,
        started_at = None, dep_last_error = None, dep_modality = lr_modality q,
        extra_args = lr_extra_args q, custom_command = lr_custom_command q\<rparr>"
    define r where "r = new_record d [(''port'', JInt (allocate_port cfg port_free m))]"
    let ?r = "r\<lparr>mr_deployment := (mr_deployment r)\<lparr>dep_state := LAUNCHING\<rparr>\<rparr>"
    define t where "t = transition_to now LAUNCHING r m"
    have "snd ?l = snd t"
      using accepted unfolding launch_deployment_def Let_def t_def r_def d_def
      by (auto split: prod.split sum.split)
    moreover have "mg_records (snd t) = dset did ?r (mg_records m)" "mg_writable (snd t) = mg_writable m"
      unfolding t_def transition_to_def
      by (simp_all add: r_def d_def new_record_def check_opens Let_def split: prod.split sum.split)
    moreover have "changes i (mg_events (snd t)) = changes i (mg_events m)
        @ (if i = did \<and> mg_writable m \<and> storable (mr_deployment ?r) then [(PLANNED, LAUNCHING)] else [])" for i
      unfolding t_def transition_to_def
      using save_record_Inl [of now "mg_writable m" "mr_deployment ?r" "mr_handle r" "mg_store m"]
        save_record_Inr [of now "mg_writable m" "mr_deployment ?r" "mr_handle r" "mg_store m"]
      by (auto simp: r_def d_def new_record_def check_opens Let_def PERSISTED_def split: prod.split sum.split)
    moreover have "fresh_launch q ?r" "clear_of_others cfg port_free q m ?r" "deployment_id (mr_deployment ?r) = did"
      using accepted(3) by (simp_all add: fresh_launch_def clear_of_others_def r_def d_def new_record_def rec_state_def handle_port_def)
    ultimately show ?thesis by auto
  next
    case wont
    then show ?thesis by (simp add: launch_deployment_def Let_def)
  next
    case refused
    then show ?thesis by simp
  qed
qed

section \<open>Live deployments stay apart\<close>

definition live :: "mgr_record \<Rightarrow> bool" where
  "live r \<longleftrightarrow> rec_state r \<notin> set TERMINAL"

definition apart :: "mgr_record \<Rightarrow> mgr_record \<Rightarrow> bool" where
  "apart r s \<longleftrightarrow>
     (let d = mr_deployment r; e = mr_deployment s in
      served_name d \<noteq> served_name e
      \<and> (set (dep_nodes d) \<inter> set (dep_nodes e) = {} \<or> model_id (dep_shape d) \<noteq> model_id (dep_shape e))
      \<and> (handle_port (mr_handle r) = None \<or> handle_port (mr_handle r) \<noteq> handle_port (mr_handle s)))"

definition all_apart :: "manager \<Rightarrow> bool" where
  "all_apart m \<longleftrightarrow> (\<forall>a b r s. dget (mg_records m) a = Some r \<longrightarrow> dget (mg_records m) b = Some s \<longrightarrow> a \<noteq> b
     \<longrightarrow> live r \<longrightarrow> live s \<longrightarrow> apart r s)"

lemma apart_same: "same_identity r r' \<Longrightarrow> same_identity s s' \<Longrightarrow> apart r s \<Longrightarrow> apart r' s'"
  by (simp add: same_identity_def apart_def dep_nodes_def Let_def)

lemma apart_sym: "apart r s \<Longrightarrow> apart s r"
  by (auto simp: apart_def Let_def)

lemma move_from:
  "move m m' \<Longrightarrow> dget (mg_records m') did = Some r' \<Longrightarrow>
   \<exists>r. dget (mg_records m) did = Some r \<and> same_identity r r' \<and> (live r' \<longrightarrow> live r)"
proof (induction rule: move.induct)
  case (Edit m' m)
  then obtain r where "dget (mg_records m) did = Some r" "edited r r'" by blast
  then show ?case by (auto simp: edited_def live_def)
next
  case (Change m i r t r'' m')
  have "live r" using Change.hyps(2) by (auto simp: live_def TERMINAL_def transition_iff)
  then show ?case using Change by (auto split: if_splits)
qed

lemma move_apart: "move m m' \<Longrightarrow> all_apart m \<Longrightarrow> all_apart m'"
proof -
  assume mv: "move m m'" and a: "all_apart m"
  show ?thesis unfolding all_apart_def
  proof (intro allI impI)
    fix x y r s
    assume x: "dget (mg_records m') x = Some r" and y: "dget (mg_records m') y = Some s"
      and n: "x \<noteq> y" "live r" "live s"
    obtain r0 where r0: "dget (mg_records m) x = Some r0" "same_identity r0 r" "live r0"
      using move_from [OF mv x] n by blast
    obtain s0 where s0: "dget (mg_records m) y = Some s0" "same_identity s0 s" "live s0"
      using move_from [OF mv y] n by blast
    have "apart r0 s0" using a r0 s0 n(1) unfolding all_apart_def by blast
    then show "apart r s" using apart_same r0 s0 by blast
  qed
qed

lemma moves_apart: "moves m m' \<Longrightarrow> all_apart m \<Longrightarrow> all_apart m'"
  by (induction rule: rtranclp_induct) (auto intro: move_apart)

text \<open>The two rules of a launch.\<close>

lemma find_conflict_None:
  "find_conflict name model nodes clash rs = None \<Longrightarrow> clash = None \<and> (\<forall>r \<in> set rs. live r \<longrightarrow>
     served_name (mr_deployment r) \<noteq> name
     \<and> (set (dep_nodes (mr_deployment r)) \<inter> set nodes = {} \<or> model_id (dep_shape (mr_deployment r)) \<noteq> model))"
proof (induction rs arbitrary: clash)
  case (Cons r rs)
  define clash' where "clash' = (if served_name (mr_deployment r) = name \<and> clash = None then Some (mr_deployment r) else clash)"
  show ?case
  proof (cases "live r")
    case False
    then show ?thesis using Cons by (simp add: live_def rec_state_def Let_def)
  next
    case True
    have f: "find_conflict name model nodes clash' rs = None"
      and n: "set (dep_nodes (mr_deployment r)) \<inter> set nodes = {} \<or> model_id (dep_shape (mr_deployment r)) \<noteq> model"
      using Cons.prems True by (auto simp: live_def rec_state_def Let_def clash'_def split: if_splits)
    have "clash' = None" using Cons.IH [OF f] by blast
    then have "clash = None" "served_name (mr_deployment r) \<noteq> name" by (auto simp: clash'_def split: if_splits)
    then show ?thesis using Cons.IH [OF f] n by auto
  qed
qed simp

lemma first_free_free: "first_free taken port \<notin> set taken"
  by (induction taken port rule: first_free.induct) (subst first_free.simps, simp)

lemma search_port_free: "search_port k port_free taken port = Some p \<Longrightarrow> p \<notin> set taken \<and> port_free p"
  by (induction k arbitrary: port) (auto split: if_splits)

lemma allocate_port_free: "allocate_port cfg port_free m \<notin> set (live_ports m)"
  using search_port_free first_free_free by (auto simp: allocate_port_def Let_def split: option.split)

lemma live_port_taken:
  assumes "dget (mg_records m) did = Some r" "live r" "handle_port (mr_handle r) = Some p"
  shows "p \<in> set (live_ports m)"
proof -
  have "r \<in> set (map snd (mg_records m))" using assms(1) by (force dest: map_of_SomeD)
  then show ?thesis using assms(2,3)
    by (auto simp: live_ports_def live_def List.map_filter_def image_iff intro!: bexI [of _ r])
qed

lemma launch_apart:
  assumes "all_apart m" "mg_records m' = dset did r (mg_records m)" "fresh_launch q r" "clear_of_others cfg port_free q m r"
  shows "all_apart m'"
proof -
  have new: "apart r s" if "dget (mg_records m) b = Some s" "live s" for b s
  proof -
    have "s \<in> set (map snd (mg_records m))" using that(1) by (force dest: map_of_SomeD)
    then have "served_name (mr_deployment s) \<noteq> requested_name q
        \<and> (set (dep_nodes (mr_deployment s)) \<inter> set (node_ids (lr_plan q)) = {}
           \<or> model_id (dep_shape (mr_deployment s)) \<noteq> model_id (lr_shape q))"
      using find_conflict_None assms(4) that(2) unfolding clear_of_others_def by blast
    moreover have "handle_port (mr_handle s) \<noteq> Some (allocate_port cfg port_free m)"
      using live_port_taken [OF that] allocate_port_free by blast
    ultimately show ?thesis using assms(3,4)
      by (auto simp: apart_def fresh_launch_def clear_of_others_def dep_nodes_def Let_def)
  qed
  show ?thesis unfolding all_apart_def
  proof (intro allI impI)
    fix a b x y
    assume "dget (mg_records m') a = Some x" "dget (mg_records m') b = Some y" "a \<noteq> b" "live x" "live y"
    then show "apart x y" using new apart_sym assms(1) unfolding assms(2) all_apart_def
      by (auto split: if_splits)
  qed
qed

lemma mgr_step_moves:
  assumes "keyed m"
  shows "launched_id op = None \<Longrightarrow> \<not> is_disk op \<Longrightarrow> moves m (mgr_step cfg op m)"
  using assms
proof (cases op)
  case (Op_returned now did timeout hosts proc)
  show ?thesis
  proof (cases "dget (mg_records m) did")
    case (Some r)
    show ?thesis
    proof (cases "handle_port (mr_handle r)")
      case p: (Some port)
      then show ?thesis using launch_returned_moves [OF assms Some p outcome_port] Some Op_returned by simp
    qed (simp add: Op_returned Some)
  qed (simp add: Op_returned)
next
  case (Op_line launcher line did)
  then show ?thesis using with_record_moves [OF assms edited_line] by simp
next
  case (Op_handoff did)
  then show ?thesis using with_record_moves [OF assms edited_progress] by simp
next
  case (Op_ready now did)
  then show ?thesis using make_ready_moves [OF assms] by (simp split: option.split)
next
  case (Op_hold nodes deadline now)
  then show ?thesis by (simp add: move_other hold_starting_def)
next
  case (Op_release nodes)
  then show ?thesis by (simp add: move_other release_starting_def)
qed (simp_all add: wait_pass_moves fail_launch_moves post_mortem_moves stop_begin_moves ask_stop_moves
    stop_launch_end_moves stop_serving_end_moves tick_record_moves tick_moves)

lemma mgr_step_keeps:
  assumes "keyed m" "all_apart m"
  shows "keyed (mgr_step cfg op m) \<and> all_apart (mgr_step cfg op m)"
proof (cases "launched_id op")
  case (Some did)
  then obtain available port_free now q where op: "op = Op_launch available port_free did now q"
    by (cases op) auto
  let ?m' = "mgr_step cfg op m"
  consider r where "mg_records ?m' = dset did r (mg_records m)" "deployment_id (mr_deployment r) = did" "fresh_launch q r"
      "clear_of_others cfg port_free q m r"
    | "mg_records ?m' = mg_records m"
    using launch_opens [of cfg available port_free did now q m] unfolding op by auto
  then show ?thesis
  proof cases
    case 1
    then show ?thesis using assms launch_apart [OF assms(2) 1(1,3,4)] by (auto simp: keyed_def)
  next
    case 2
    then show ?thesis using assms by (simp add: keyed_def all_apart_def)
  qed
next
  case None
  show ?thesis
  proof (cases "is_disk op")
    case True
    then obtain b where "op = Op_disk b" by (cases op) auto
    then show ?thesis using assms by (simp add: keyed_def all_apart_def)
  next
    case False
    then have "moves m (mgr_step cfg op m)" by (rule mgr_step_moves [OF assms(1) None])
    then show ?thesis using moves_keyed moves_apart assms by blast
  qed
qed

lemma mgr_run_keeps: "keyed m \<Longrightarrow> all_apart m \<Longrightarrow> keyed (mgr_run cfg ops m) \<and> all_apart (mgr_run cfg ops m)"
  by (induction ops arbitrary: m) (simp_all add: mgr_run_def mgr_step_keeps)

lemma new_manager_ok: "keyed new_manager" "all_apart new_manager"
  by (simp_all add: new_manager_def keyed_def all_apart_def)

text \<open>C3: one live deployment per name, per port, and per model on a node. Whatever is launched, whatever
  launches, waits, stops, watches and failures interleave, and whatever the launcher, the ports and the
  disk answer, two deployments that are both still live have different served names and different ports,
  and do not run the same model on a common node.\<close>

theorem live_deployments_apart:
  assumes "dget (mg_records (mgr_run cfg ops new_manager)) a = Some r"
    and "dget (mg_records (mgr_run cfg ops new_manager)) b = Some s" and "a \<noteq> b"
    and "rec_state r \<notin> set TERMINAL" and "rec_state s \<notin> set TERMINAL"
  shows "served_name (mr_deployment r) \<noteq> served_name (mr_deployment s)
    \<and> (set (dep_nodes (mr_deployment r)) \<inter> set (dep_nodes (mr_deployment s)) = {}
       \<or> model_id (dep_shape (mr_deployment r)) \<noteq> model_id (dep_shape (mr_deployment s)))
    \<and> (handle_port (mr_handle r) = None \<or> handle_port (mr_handle r) \<noteq> handle_port (mr_handle s))"
  using mgr_run_keeps [OF new_manager_ok, of cfg ops] assms
  unfolding all_apart_def apart_def live_def Let_def by blast

section \<open>The announced changes replay to the present\<close>

fun replay :: "deployment_state \<Rightarrow> (deployment_state \<times> deployment_state) list \<Rightarrow> deployment_state option" where
  "replay s [] = Some s"
| "replay s ((a, b) # xs) = (if a = s \<and> b \<in> set (LEGAL s) then replay b xs else None)"

lemma replay_snoc: "replay s xs = Some a \<Longrightarrow> b \<in> set (LEGAL a) \<Longrightarrow> replay s (xs @ [(a, b)]) = Some b"
  by (induction s xs rule: replay.induct) (auto split: if_splits)

definition announced :: "manager \<Rightarrow> bool" where
  "announced m \<longleftrightarrow> mg_writable m \<and> (\<forall>did. case dget (mg_records m) did of
      None \<Rightarrow> changes did (mg_events m) = []
    | Some r \<Rightarrow> storable (mr_deployment r) \<and> replay PLANNED (changes did (mg_events m)) = Some (rec_state r))"

lemma announcedD:
  "announced m \<Longrightarrow> dget (mg_records m) did = None \<Longrightarrow> changes did (mg_events m) = []"
  "announced m \<Longrightarrow> dget (mg_records m) did = Some r \<Longrightarrow>
     storable (mr_deployment r) \<and> replay PLANNED (changes did (mg_events m)) = Some (rec_state r)"
  unfolding announced_def by (auto dest!: conjunct2 spec [of _ did])

lemma announced_writable: "announced m \<Longrightarrow> mg_writable m"
  by (simp add: announced_def)

lemma announcedI:
  "mg_writable m \<Longrightarrow> (\<And>did. dget (mg_records m) did = None \<Longrightarrow> changes did (mg_events m) = []) \<Longrightarrow>
   (\<And>did r. dget (mg_records m) did = Some r \<Longrightarrow>
     storable (mr_deployment r) \<and> replay PLANNED (changes did (mg_events m)) = Some (rec_state r)) \<Longrightarrow> announced m"
  unfolding announced_def by (auto split: option.split)

lemma move_announced: "move m m' \<Longrightarrow> announced m \<Longrightarrow> announced m'"
proof (induction rule: move.induct)
  case (Edit m' m)
  show ?case unfolding announced_def
  proof (intro conjI allI)
    show "mg_writable m'" using Edit by (simp add: announced_def)
    fix did
    show "case dget (mg_records m') did of None \<Rightarrow> changes did (mg_events m') = []
      | Some r \<Rightarrow> storable (mr_deployment r) \<and> replay PLANNED (changes did (mg_events m')) = Some (rec_state r)"
    proof (cases "dget (mg_records m') did")
      case None
      then have "dget (mg_records m) did = None" using Edit(1) by (metis map_of_eq_None_notin)
      then show ?thesis using Edit(3) announcedD(1) [OF Edit(5)] None by simp
    next
      case (Some r')
      then obtain r where "dget (mg_records m) did = Some r" "edited r r'" using Edit(2) by blast
      moreover from this have "storable (mr_deployment r') = storable (mr_deployment r)"
        using storable_same by (simp add: edited_def)
      ultimately show ?thesis using Edit(3,5) Some by (auto simp: announced_def edited_def split: option.splits)
    qed
  qed
next
  case (Change m did r t r' m')
  have r: "storable (mr_deployment r)" "mg_writable m" "replay PLANNED (changes did (mg_events m)) = Some (rec_state r)"
    using Change.hyps(1) Change.prems by (auto simp: announced_def split: option.splits)
  have "replay PLANNED (changes did (mg_events m) @ [(rec_state r, t)]) = Some t"
    by (rule replay_snoc [OF r(3)]) (use Change.hyps(2) in \<open>simp add: transition_iff\<close>)
  then show ?case
    using Change.hyps r storable_same [OF Change.hyps(3)] announcedD [OF Change.prems]
    by (intro announcedI) (auto split: if_splits)
qed

lemma moves_announced: "moves m m' \<Longrightarrow> announced m \<Longrightarrow> announced m'"
  by (induction rule: rtranclp_induct) (auto intro: move_announced)

lemma move_dkeys: "move m m' \<Longrightarrow> dkeys (mg_records m') = dkeys (mg_records m)"
  by (induction rule: move.induct) (simp_all add: dkeys_dset_present)

lemma moves_dkeys: "moves m m' \<Longrightarrow> dkeys (mg_records m') = dkeys (mg_records m)"
  by (induction rule: rtranclp_induct) (simp_all add: move_dkeys)

definition launched_ids :: "mgr_op list \<Rightarrow> string list" where
  "launched_ids ops = List.map_filter launched_id ops"

lemma launched_ids_snoc: "launched_ids (ops @ [op]) = launched_ids ops @ (case launched_id op of Some d \<Rightarrow> [d] | None \<Rightarrow> [])"
  by (simp add: launched_ids_def List.map_filter_def split: option.split)

lemma run_announced:
  assumes "distinct (launched_ids ops)" and "\<forall>did \<in> set (launched_ids ops). \<exists>p. record_path did = Inr p"
    and "\<forall>op \<in> set ops. \<not> is_disk op"
  shows "announced (mgr_run cfg ops new_manager) \<and> set (dkeys (mg_records (mgr_run cfg ops new_manager))) \<subseteq> set (launched_ids ops)"
  using assms
proof (induction ops rule: rev_induct)
  case Nil
  show ?case by (simp add: mgr_run_def new_manager_def announced_def)
next
  case (snoc op ops)
  define m where "m = mgr_run cfg ops new_manager"
  have m: "announced m" "set (dkeys (mg_records m)) \<subseteq> set (launched_ids ops)" "keyed m"
    using snoc mgr_run_keeps [OF new_manager_ok] by (auto simp: launched_ids_snoc m_def)
  have run: "mgr_run cfg (ops @ [op]) new_manager = mgr_step cfg op m" by (simp add: mgr_run_def m_def)
  show ?case
  proof (cases "launched_id op")
    case None
    then have mv: "moves m (mgr_step cfg op m)" using snoc.prems(3) by (intro mgr_step_moves [OF m(3)]) auto
    show ?thesis unfolding run using moves_announced [OF mv m(1)] moves_dkeys [OF mv] m(2) None
      by (simp add: launched_ids_snoc)
  next
    case (Some did)
    then obtain available port_free now q where op: "op = Op_launch available port_free did now q"
      by (cases op) auto
    let ?m' = "mgr_step cfg op m"
    have new: "dget (mg_records m) did = None"
      using m(2) snoc.prems(1) Some by (auto simp: launched_ids_snoc map_of_eq_None_notin)
    have path: "\<exists>p. record_path did = Inr p" using snoc.prems(2) Some by (simp add: launched_ids_snoc)
    from launch_opens [of cfg available port_free did now q m]
    have "announced ?m' \<and> set (dkeys (mg_records ?m')) \<subseteq> insert did (set (dkeys (mg_records m)))"
    proof (elim disjE exE conjE)
      fix r
      assume r: "mg_records (snd (launch_deployment cfg available port_free did now q m)) = dset did r (mg_records m)"
        "deployment_id (mr_deployment r) = did" "fresh_launch q r"
        "\<forall>i. changes i (mg_events (snd (launch_deployment cfg available port_free did now q m))) = changes i (mg_events m)
            @ (if i = did \<and> mg_writable m \<and> storable (mr_deployment r) then [(PLANNED, LAUNCHING)] else [])"
        "mg_writable (snd (launch_deployment cfg available port_free did now q m)) = mg_writable m"
      have "storable (mr_deployment r)" using r(2,3) path by (simp add: storable_def fresh_launch_def)
      moreover have "changes did (mg_events m) = []" using announcedD(1) [OF m(1) new] .
      moreover have "mg_writable m" using m(1) by (simp add: announced_def)
      ultimately have "announced ?m'" using announcedD [OF m(1)] r(3)
        by (intro announcedI) (auto simp: op r(1,4,5) fresh_launch_def split: if_splits)
      moreover have "set (dkeys (mg_records ?m')) \<subseteq> insert did (set (dkeys (mg_records m)))"
        by (simp add: op r(1) set_dkeys_dset)
      ultimately show ?thesis by blast
    qed (use announced_writable [OF m(1)] announcedD [OF m(1)] in \<open>auto simp: op intro!: announcedI\<close>)
    then have "announced ?m'" "set (dkeys (mg_records ?m')) \<subseteq> insert did (set (launched_ids ops))"
      using m(2) by (blast, meson insert_mono subset_trans)
    then show ?thesis unfolding run using Some by (simp add: launched_ids_snoc)
  qed
qed

text \<open>C22: who follows the announcements knows the state. As long as the disk takes writes, replaying the
  announced changes of a deployment from the planned state is legal at every step and ends in the state
  the deployment is in.\<close>

theorem announcements_replay:
  assumes "distinct (launched_ids ops)" and "\<forall>did \<in> set (launched_ids ops). \<exists>p. record_path did = Inr p"
    and "\<forall>op \<in> set ops. \<not> is_disk op" and "dget (mg_records (mgr_run cfg ops new_manager)) did = Some r"
  shows "replay PLANNED (changes did (mg_events (mgr_run cfg ops new_manager))) = Some (rec_state r)"
  using run_announced [OF assms(1-3), of cfg] assms(4) by (auto simp: announced_def split: option.splits)

section \<open>Two deployments\<close>

definition small_config :: mgr_config where
  "small_config = \<lparr>health_fail_threshold = 2, ready_timeout_s = 1800, stop_confirm_timeout_s = 30, base_port = 8100\<rparr>"

definition ask_for :: "string \<Rightarrow> launch_request" where
  "ask_for name = \<lparr>lr_shape = small_shape, lr_plan = small_plan\<lparr>node_ids := [name]\<rparr>, lr_fit = small_fit, lr_runtime = ''vllm'',
     lr_context = 512, lr_max_seqs = 1, lr_served_name = Some name, lr_modality = TEXT, lr_extra_args = [],
     lr_custom_command = []\<rparr>"

text \<open>Two launches; the first serves and is then lost.\<close>

definition two_launches :: "mgr_op list" where
  "two_launches =
     [Op_launch True (\<lambda>p. True) ''d1'' 1 (ask_for ''a''), Op_launch True (\<lambda>p. True) ''d2'' 2 (ask_for ''b''),
      Op_launch True (\<lambda>p. True) ''d3'' 2 (ask_for ''a''),
      Op_wait 3 100 False 0 ''no backend url'' (True, None) None [] ''d1'', Op_watch 4 [] (Some (False, None)) ''d1'',
      Op_watch 5 [] (Some (False, None)) ''d1'']"

definition after_two :: manager where
  "after_two = mgr_run small_config two_launches new_manager"

lemma after_two_records:
  "map (\<lambda>(did, r). (did, rec_state r, handle_port (mr_handle r))) (mg_records after_two)
     = [(''d1'', FAILED, Some 8100), (''d2'', LAUNCHING, Some 8101)]
   \<and> changes ''d1'' (mg_events after_two) = [(PLANNED, LAUNCHING), (LAUNCHING, READY), (READY, FAILED)]"
  by code_simp

theorem live_deployments_apart_witness:
  "\<exists>r s. dget (mg_records (mgr_run small_config (take 2 two_launches) new_manager)) ''d1'' = Some r
    \<and> dget (mg_records (mgr_run small_config (take 2 two_launches) new_manager)) ''d2'' = Some s
    \<and> handle_port (mr_handle r) = Some 8100 \<and> served_name (mr_deployment r) \<noteq> served_name (mr_deployment s)"
proof -
  let ?m = "mgr_run small_config (take 2 two_launches) new_manager"
  have "map (\<lambda>(did, r). (did, rec_state r, handle_port (mr_handle r))) (mg_records ?m)
      = [(''d1'', LAUNCHING, Some 8100), (''d2'', LAUNCHING, Some 8101)]"
    by code_simp
  then obtain r s where m: "mg_records ?m = [(''d1'', r), (''d2'', s)]" "rec_state r = LAUNCHING" "rec_state s = LAUNCHING"
      "handle_port (mr_handle r) = Some 8100"
    by (auto simp: map_eq_Cons_conv split: prod.splits)
  then have r: "dget (mg_records ?m) ''d1'' = Some r" and s: "dget (mg_records ?m) ''d2'' = Some s" by simp_all
  show ?thesis
    using live_deployments_apart [OF r s] m r s by (intro exI [of _ r] exI [of _ s]) (simp add: TERMINAL_def)
qed

theorem announcements_replay_witness:
  "\<exists>r. dget (mg_records after_two) ''d1'' = Some r \<and> rec_state r = FAILED
    \<and> replay PLANNED (changes ''d1'' (mg_events after_two)) = Some (rec_state r)"
proof -
  obtain r s where m: "mg_records after_two = [(''d1'', r), (''d2'', s)]" "rec_state r = FAILED"
    using after_two_records by (auto simp: map_eq_Cons_conv split: prod.splits)
  have "\<exists>p. record_path did = Inr p" if "did \<in> {''d1'', ''d2'', ''d3''}" for did
  proof -
    have "record_path ''d1'' = Inr ''d1.json''" "record_path ''d2'' = Inr ''d2.json''" "record_path ''d3'' = Inr ''d3.json''"
      by code_simp+
    then show ?thesis using that by blast
  qed
  moreover have "launched_ids two_launches = [''d1'', ''d2'', ''d3'']"
    by (simp add: launched_ids_def two_launches_def List.map_filter_def)
  ultimately have "replay PLANNED (changes ''d1'' (mg_events after_two)) = Some (rec_state r)"
    unfolding after_two_def using m(1) by (intro announcements_replay) (auto simp: two_launches_def after_two_def)
  then show ?thesis using m by auto
qed

end
