(* ===== verification/Deploy_Duty.thy ===== *)
theory Deploy_Duty
  imports Deploy_Live "HOL-Library.Sublist"
begin

text \<open>
  What the manager owes an operator: a refusal starts nothing, silence after a restart is not death, a dead
  backend is found and a live one kept, every backend is looked at, pressure sheds load, one engine starts
  per node at a time, and a forced stop signals only what is the deployment's.
\<close>

declare map_of_eq_Some_iff [simp del]

section \<open>Refusals\<close>

text \<open>A launch is refused for its verdict, refused by another guard, or accepted and handed to the first
  transition.\<close>

definition launch_record :: "mgr_config \<Rightarrow> (int \<Rightarrow> bool) \<Rightarrow> string \<Rightarrow> launch_request \<Rightarrow> manager \<Rightarrow> mgr_record" where
  "launch_record cfg port_free did q m =
     new_record \<lparr>deployment_id = did, served_name = requested_name q, dep_shape = lr_shape q, dep_plan = Some (lr_plan q),
       dep_fit = Some (lr_fit q), runtime = lr_runtime q, dep_state = PLANNED, backend_url = None,
       dep_context_length = lr_context q, dep_max_concurrent_seqs = lr_max_seqs q, started_at = None,
       dep_last_error = None, dep_modality = lr_modality q, extra_args = lr_extra_args q,
       custom_command = lr_custom_command q\<rparr> [(''port'', JInt (allocate_port cfg port_free m))]"

lemma launch_cases:
  obtains (wont) "fr_verdict (lr_fit q) = WONT_FIT"
      "launch_deployment cfg available port_free did now q m
        = (Inl (Refused_to_launch (lr_fit q)), emit_event (Launch_was_refused (requested_name q)) m)"
  | (refused) e where "fr_verdict (lr_fit q) \<noteq> WONT_FIT" "launch_deployment cfg available port_free did now q m = (Inl e, m)"
  | (accepted) "fr_verdict (lr_fit q) \<noteq> WONT_FIT" "launch_deployment cfg available port_free did now q m
      = (let r = launch_record cfg port_free did q m in
         case transition_to now LAUNCHING r m of
           (Inl e, m) \<Rightarrow> (Inl e, m) | (Inr u, m) \<Rightarrow> (Inr ((mr_deployment r)\<lparr>dep_state := LAUNCHING\<rparr>), m))"
proof -
  let ?conflict = "find_conflict (requested_name q) (model_id (lr_shape q)) (node_ids (lr_plan q)) None (map snd (mg_records m))"
  define ready where "ready \<longleftrightarrow> available \<and> ?conflict = None
        \<and> check_recipe_identifiers (model_id (lr_shape q)) (requested_name q) = Inr ()
        \<and> check_extra_args_safe (lr_extra_args q) = Inr () \<and> check_extra_args_safe (lr_custom_command q) = Inr ()
        \<and> \<not> (lr_extra_args q \<noteq> [] \<and> lr_custom_command q \<noteq> [])"
  show thesis
  proof (cases "fr_verdict (lr_fit q) = WONT_FIT")
    case True
    then show thesis using wont by (simp add: launch_deployment_def)
  next
    case verdict: False
    show thesis
    proof (cases ready)
      case True
      then show thesis using verdict
        by (intro accepted) (auto simp: launch_deployment_def launch_record_def new_record_def Let_def ready_def
            split: prod.split sum.split)
    next
      case False
      then have "\<exists>e. launch_deployment cfg available port_free did now q m = (Inl e, m)" using verdict
        by (auto simp: launch_deployment_def Let_def ready_def split: sum.split option.split)
      then show thesis using refused verdict by blast
    qed
  qed
qed

lemma first_transition_error:
  assumes "transition_to now LAUNCHING (launch_record cfg port_free did q m) m = (Inl e, m')" and "record_path did = Inr p"
  shows "e = Raises (OSError ''write'')"
proof -
  obtain j where "encode ((mr_deployment (launch_record cfg port_free did q m))\<lparr>dep_state := LAUNCHING\<rparr>) = Inr j"
    using encode_Inr_iff [of "(mr_deployment (launch_record cfg port_free did q m))\<lparr>dep_state := LAUNCHING\<rparr>"]
    by (auto simp: launch_record_def new_record_def)
  then show ?thesis using assms
    by (auto simp: transition_to_def save_record_def check_opens PERSISTED_def launch_record_def new_record_def Let_def
        split: if_splits)
qed

text \<open>C38: a refused launch starts nothing. What does not fit is always refused, and a launch that is refused,
  for that or any reason short of the disk failing under a launch already accepted, leaves the records,
  the store, the ports and the launcher as they were; only the refusal itself is announced.\<close>

theorem refusal_starts_nothing:
  assumes "launch_deployment cfg available port_free did now q m = (Inl e, m')"
    and "e \<noteq> Raises (OSError ''write'')" and "record_path did = Inr p"
  shows "m' = (if fr_verdict (lr_fit q) = WONT_FIT then emit_event (Launch_was_refused (requested_name q)) m else m)"
  by (cases rule: launch_cases [of q cfg available port_free did now m])
    (use assms first_transition_error [of now cfg port_free did q m] in \<open>auto simp: Let_def split: prod.splits sum.splits\<close>)


section \<open>Adopting after a restart\<close>

lemma adopt_one_records:
  "adopt_one now answers running dh m = (Inr u, m') \<Longrightarrow>
   mg_records m' = dset (deployment_id (fst dh))
     ((new_record (fst dh) (snd dh))\<lparr>mr_deployment :=
        (case evidence (answers (deployment_id (fst dh))) (running (deployment_id (fst dh))) (new_record (fst dh) (snd dh)) of
           (s, why) \<Rightarrow> (case why of Some w \<Rightarrow> if w \<noteq> [] then (fst dh)\<lparr>dep_state := s, dep_last_error := Some w\<rparr>
              else (fst dh)\<lparr>dep_state := s\<rparr> | None \<Rightarrow> (fst dh)\<lparr>dep_state := s\<rparr>))\<rparr>) (mg_records m)"
  unfolding adopt_one_def Let_def
  by (cases "evidence (answers (deployment_id (fst dh))) (running (deployment_id (fst dh))) (new_record (fst dh) (snd dh))")
    (auto simp: new_record_def split: prod.splits sum.splits option.splits if_splits)

definition adopted :: "(string \<Rightarrow> bool \<times> string option) \<Rightarrow> (string \<Rightarrow> bool option) \<Rightarrow> deployment \<times> json_object \<Rightarrow> mgr_record \<Rightarrow> bool" where
  "adopted answers running dh r \<longleftrightarrow>
     (let did = deployment_id (fst dh) in
      deployment_id (mr_deployment r) = did \<and> backend_url (mr_deployment r) = backend_url (fst dh) \<and> mr_handle r = snd dh
      \<and> rec_state r = fst (evidence (answers did) (running did) (new_record (fst dh) (snd dh))))"

lemma adopt_all_records:
  "adopt_all now answers running dhs m = (Inr (), m') \<Longrightarrow>
   set (dkeys (mg_records m')) = set (dkeys (mg_records m)) \<union> deployment_id ` fst ` set dhs
   \<and> (\<forall>did r. dget (mg_records m') did = Some r \<longrightarrow>
        dget (mg_records m) did = Some r \<or> (\<exists>dh \<in> set dhs. deployment_id (fst dh) = did \<and> adopted answers running dh r))"
proof (induction dhs arbitrary: m)
  case (Cons dh dhs)
  obtain u m1 where one: "adopt_one now answers running dh m = (Inr u, m1)"
      and rest: "adopt_all now answers running dhs m1 = (Inr (), m')"
    using Cons.prems by (auto split: prod.splits sum.splits)
  note recs = adopt_one_records [OF one]
  have "adopted answers running dh r" if "dget (mg_records m1) (deployment_id (fst dh)) = Some r" for r
    using that unfolding recs by (auto simp: adopted_def rec_state_def new_record_def Let_def split: prod.splits option.splits)
  then show ?case using Cons.IH [OF rest] unfolding recs
    by (auto simp: set_dkeys_dset split: if_splits)
qed simp

lemma evidence_says:
  assumes "rec_state r \<notin> set TERMINAL"
  shows "fst (evidence answer running r) \<in> set TERMINAL \<longleftrightarrow>
      \<not> (backend_url (mr_deployment r) \<notin> {None, Some []} \<and> fst answer)
      \<and> (backend_url (mr_deployment r) \<notin> {None, Some []} \<and> wrong_model (snd answer)
         \<or> handle_cluster (mr_handle r) \<noteq> None \<and> running = Some False)"
    and "fst (evidence answer running r) = READY \<longleftrightarrow>
      backend_url (mr_deployment r) \<notin> {None, Some []} \<and> fst answer \<and> rec_state r \<noteq> STOPPING"
  using assms by (auto simp: evidence_def Let_def TERMINAL_def split: option.split bool.split)

definition rightly_judged :: "(string \<Rightarrow> bool \<times> string option) \<Rightarrow> (string \<Rightarrow> bool option) \<Rightarrow> deployment \<Rightarrow> json_object \<Rightarrow> deployment_state \<Rightarrow> bool" where
  "rightly_judged answers running d h s \<longleftrightarrow>
     (let did = deployment_id d; reachable = backend_url d \<notin> {None, Some []} in
      if dep_state d \<in> set TERMINAL then s = dep_state d
      else (s \<in> set TERMINAL \<longleftrightarrow> \<not> (reachable \<and> fst (answers did))
              \<and> (reachable \<and> wrong_model (snd (answers did)) \<or> handle_cluster h \<noteq> None \<and> running did = Some False))
         \<and> (s = READY \<longleftrightarrow> reachable \<and> fst (answers did) \<and> dep_state d \<noteq> STOPPING))"

text \<open>C8: silence is not death. A restarted manager finds every record it kept; it retires one that was
  live only when its backend does not answer as itself and either something else answers at its address
  or the launcher says the workload is not running; and it serves one only when its backend answers.\<close>

theorem silence_is_not_death:
  assumes "adopt_all now answers running dhs new_manager = (Inr (), m)"
  shows "set (dkeys (mg_records m)) = deployment_id ` fst ` set dhs
    \<and> (\<forall>did r. dget (mg_records m) did = Some r \<longrightarrow>
         (\<exists>(d, h) \<in> set dhs. deployment_id d = did \<and> rightly_judged answers running d h (rec_state r)))"
proof (intro conjI allI impI)
  note all = adopt_all_records [OF assms]
  show "set (dkeys (mg_records m)) = deployment_id ` fst ` set dhs" using all by (simp add: new_manager_def)
  fix did r
  assume "dget (mg_records m) did = Some r"
  then obtain d h where dh: "(d, h) \<in> set dhs" "deployment_id d = did" "adopted answers running (d, h) r"
    using all by (fastforce simp: new_manager_def)
  have s: "rec_state (new_record d h) = dep_state d" "mr_deployment (new_record d h) = d" "mr_handle (new_record d h) = h"
    by (simp_all add: new_record_def rec_state_def)
  have "rec_state r = fst (evidence (answers did) (running did) (new_record d h))"
    using dh by (simp add: adopted_def Let_def)
  then show "\<exists>(d, h) \<in> set dhs. deployment_id d = did \<and> rightly_judged answers running d h (rec_state r)"
    using dh(1,2) evidence_says [of "new_record d h" "answers did" "running did"]
    by (intro bexI [of _ "(d, h)"]) (auto simp: s evidence_def rightly_judged_def Let_def)
qed

section \<open>The backend watch\<close>

lemma transition_to_succeeds:
  assumes "mg_writable m" "storable (mr_deployment r)" "check_transition (deployment_id (mr_deployment r)) (rec_state r) t = Inr ()"
    and "rec_state r \<noteq> t"
  shows "\<exists>m'. transition_to now t r m = (Inr (), m')
    \<and> mg_records m' = dset (deployment_id (mr_deployment r)) (r\<lparr>mr_deployment := (mr_deployment r)\<lparr>dep_state := t\<rparr>\<rparr>) (mg_records m)
    \<and> mg_writable m' = mg_writable m"
proof -
  let ?d = "(mr_deployment r)\<lparr>dep_state := t\<rparr>"
  have "transition (rec_state r) t" using assms(3,4) by (intro transition.intros) auto
  then have "\<exists>p st. save_record now (mg_writable m) ?d (mr_handle r) (mg_store m) = (Inr p, st)"
    using save_record_Inl [of now "mg_writable m" ?d "mr_handle r" "mg_store m"] assms(1,2)
    by (metis prod.collapse storable_state sum.exhaust)
  then show ?thesis using assms(3,4) by (auto simp: transition_to_def Let_def rec_state_def)
qed

lemma watch_node_keeps [simp]:
  "mr_deployment (snd (watch_node n st r)) = mr_deployment r"
  "mr_health_failures (snd (watch_node n st r)) = mr_health_failures r"
  by (simp_all add: watch_node_def Let_def)

lemma watch_nodes_Cons:
  "snd (watch_nodes nodes (n # ns) r) = (case dget nodes n of
     None \<Rightarrow> snd (watch_nodes nodes ns r) | Some st \<Rightarrow> snd (watch_nodes nodes ns (snd (watch_node n st r))))"
  by (simp split: prod.split option.split)

lemma watch_nodes_keep [simp]:
  "mr_deployment (snd (watch_nodes nodes ns r)) = mr_deployment r
   \<and> mr_health_failures (snd (watch_nodes nodes ns r)) = mr_health_failures r"
  by (induction ns arbitrary: r) (simp_all add: watch_nodes_Cons del: watch_nodes.simps(2) split: option.split)

lemma check_memory_record:
  assumes "dget (mg_records m) did = Some r" and "keyed m"
  shows "mg_records (check_memory nodes did m) = dset did (snd (watch_nodes nodes (dep_nodes (mr_deployment r)) r)) (mg_records m)"
    and "mg_writable (check_memory nodes did m) = mg_writable m"
  using assms keyed_id [OF assms(2,1)] by (simp_all add: check_memory_def split_def)

lemma serving_check:
  "s \<in> set SERVING \<Longrightarrow> t \<in> set SERVING \<or> t = FAILED \<Longrightarrow> check_transition did s t = Inr ()"
  by (cases s; cases t) (auto simp: SERVING_def check_transition_def can_def)

lemma same_dep_state: "(d :: deployment)\<lparr>dep_state := dep_state d\<rparr> = d"
  by (cases d) simp

lemma unchanged_state: "rec_state r = t \<Longrightarrow> r\<lparr>mr_deployment := (mr_deployment r)\<lparr>dep_state := t\<rparr>\<rparr> = r"
  unfolding rec_state_def by (cases r) (auto simp only: same_dep_state mgr_record.simps)

text \<open>One pass over a serving record: it dies at the threshold, else it serves on, ready or degraded.\<close>

lemma settle_serving:
  assumes "dget (mg_records m) did = Some r" "keyed m" "mg_writable m" "storable (mr_deployment r)"
    and "rec_state r \<in> set SERVING"
  shows "\<exists>m'. settle_state now did m = (Inr (), m') \<and> mg_writable m'
    \<and> dget (mg_records m') did = Some (r\<lparr>mr_deployment := (mr_deployment r)\<lparr>dep_state :=
        (if degraded_reasons r = [] then READY else DEGRADED)\<rparr>\<rparr>)"
proof -
  have id: "deployment_id (mr_deployment r) = did" by (rule keyed_id [OF assms(2,1)])
  let ?t = "if degraded_reasons r = [] then READY else DEGRADED"
  show ?thesis
  proof (cases "rec_state r = ?t")
    case True
    have same: "r\<lparr>mr_deployment := (mr_deployment r)\<lparr>dep_state := ?t\<rparr>\<rparr> = r" by (rule unchanged_state [OF True])
    have "settle_state now did m = (Inr (), m)"
      using True assms(1) by (cases "degraded_reasons r = []") (simp_all add: settle_state_def)
    then show ?thesis unfolding same using assms(1,3) by blast
  next
    case False
    have c: "check_transition (deployment_id (mr_deployment r)) (rec_state r) ?t = Inr ()"
      using assms(5) by (intro serving_check) (auto simp: SERVING_def)
    have "settle_state now did m = transition_to now ?t r m"
      using False assms(1,5) by (auto simp: settle_state_def SERVING_def)
    then show ?thesis using transition_to_succeeds [OF assms(3,4) c False, of now] assms(3) by (auto simp: id)
  qed
qed

fun watch_answers ::
  "mgr_config \<Rightarrow> string \<Rightarrow> (rat \<times> (string, node_state) dict \<times> bool \<times> string option) list \<Rightarrow> manager \<Rightarrow> manager" where
  "watch_answers cfg did [] m = m"
| "watch_answers cfg did ((now, nodes, answer) # as) m =
     watch_answers cfg did as
       (if did \<in> set (watched m) then snd (tick_record cfg now nodes (Some answer) did m) else m)"

lemma watched_iff: "keyed m \<Longrightarrow> did \<in> set (watched m) \<longleftrightarrow> (\<exists>r. dget (mg_records m) did = Some r \<and> rec_state r \<in> set SERVING)"
  by (auto simp: watched_def keyed_def map_of_eq_Some_iff intro!: image_eqI)

lemma tick_serving:
  assumes "dget (mg_records m) did = Some r" "keyed m" "mg_writable m" "storable (mr_deployment r)"
    and "rec_state r \<in> set SERVING"
  shows "\<exists>m' r'. tick_record cfg now nodes (Some answer) did m = (Inr (), m') \<and> mg_writable m'
    \<and> dget (mg_records m') did = Some r' \<and> storable (mr_deployment r')
    \<and> (if \<not> fst answer \<and> health_fail_threshold cfg \<le> mr_health_failures r + 1 then rec_state r' = FAILED
       else rec_state r' \<in> set SERVING \<and> mr_health_failures r' = (if fst answer then 0 else mr_health_failures r + 1))"
proof -
  define m1 where "m1 = check_memory nodes did m"
  define r1 where "r1 = snd (watch_nodes nodes (dep_nodes (mr_deployment r)) r)"
  have r1: "mr_deployment r1 = mr_deployment r" "mr_health_failures r1 = mr_health_failures r" by (simp_all add: r1_def)
  have m1: "dget (mg_records m1) did = Some r1" "mg_writable m1" "keyed m1"
    using check_memory_record [OF assms(1,2), of nodes] assms(3) moves_keyed [OF check_memory_moves [OF assms(2)] assms(2)]
    by (simp_all add: m1_def r1_def)
  have id: "deployment_id (mr_deployment r1) = did" by (rule keyed_id [OF m1(3,1)])
  have s1: "rec_state r1 \<in> set SERVING" using assms(5) by (simp add: rec_state_def r1)
  show ?thesis
  proof (cases "\<not> fst answer \<and> health_fail_threshold cfg \<le> mr_health_failures r + 1")
    case True
    then obtain why where a: "answer = (False, why)" by (cases answer) auto
    define r2 where "r2 = r1\<lparr>mr_health_failures := mr_health_failures r1 + 1, mr_deployment := (mr_deployment r1)\<lparr>dep_last_error :=
        Some (''backend stopped answering: '' @ (case why of Some w \<Rightarrow> if w \<noteq> [] then w else ''unknown'' | None \<Rightarrow> ''unknown''))\<rparr>\<rparr>"
    define m2 where "m2 = emit_event (Backend_lost did (mr_health_failures r1 + 1)) m1"
    have st: "storable (mr_deployment r2)" "rec_state r2 \<in> set SERVING" "deployment_id (mr_deployment r2) = did"
      using assms(4) s1 id by (simp_all add: r2_def r1 storable_def rec_state_def)
    have app: "apply_backend_probe cfg now (Some answer) did m1 = transition_to now FAILED r2 m2"
      using True by (simp add: apply_backend_probe_def m1 a r1 Let_def r2_def m2_def)
    have "check_transition (deployment_id (mr_deployment r2)) (rec_state r2) FAILED = Inr ()" "rec_state r2 \<noteq> FAILED"
      using st(2) by (auto intro: serving_check simp: SERVING_def)
    then obtain m3 where m3: "transition_to now FAILED r2 m2 = (Inr (), m3)" "mg_writable m3"
        "dget (mg_records m3) did = Some (r2\<lparr>mr_deployment := (mr_deployment r2)\<lparr>dep_state := FAILED\<rparr>\<rparr>)"
      using transition_to_succeeds [of m2 r2 FAILED now] m1(2) st by (auto simp: m2_def)
    have "settle_state now did m3 = (Inr (), m3)" by (simp add: settle_state_def m3)
    then show ?thesis using True m3 st(1) by (simp add: tick_record_def app storable_state flip: m1_def)
  next
    case False
    define r2 where "r2 = r1\<lparr>mr_health_failures := (if fst answer then 0 else mr_health_failures r1 + 1)\<rparr>"
    define m2 where "m2 = put_record r2 m1"
    have app: "apply_backend_probe cfg now (Some answer) did m1 = (Inr (), m2)"
      using False by (cases answer) (auto simp: apply_backend_probe_def m1 r1 Let_def r2_def m2_def split: bool.split)
    have st: "storable (mr_deployment r2)" "rec_state r2 \<in> set SERVING" "deployment_id (mr_deployment r2) = did"
      using assms(4) s1 id by (simp_all add: r2_def r1 rec_state_def)
    have m2: "dget (mg_records m2) did = Some r2" "mg_writable m2" using m1 st by (simp_all add: m2_def)
    have "edited r1 r2" by (simp add: r2_def edited_def same_identity_def rec_state_def)
    then have "keyed m2" using move_keyed [OF move_edit [OF m1(3,1)] m1(3)] by (simp add: m2_def)
    note settled = settle_serving [OF m2(1) this m2(2) st(1,2), of now]
    have "rec_state (r2\<lparr>mr_deployment := (mr_deployment r2)\<lparr>dep_state := t\<rparr>\<rparr>) = t" for t by (rule rec_state_update)
    moreover have "mr_health_failures r2 = (if fst answer then 0 else mr_health_failures r + 1)" by (simp add: r2_def r1)
    ultimately show ?thesis using settled False st(1)
      by (auto simp: tick_record_def app storable_state SERVING_def simp flip: m1_def)
  qed
qed

lemma streak_reset:
  assumes "n < k" shows "sublist (replicate k False) (replicate n False @ True # bs) \<longleftrightarrow> sublist (replicate k False) bs"
proof -
  have no: "True \<notin> set xs2" if "replicate k False = xs1 @ xs2" for xs1 xs2
  proof
    assume "True \<in> set xs2"
    then have "True \<in> set (replicate k False)" unfolding that by simp
    then show False by simp
  qed
  have "\<not> (\<exists>xs1 xs2. replicate k False = xs1 @ xs2 \<and> suffix xs1 (replicate n False) \<and> prefix xs2 (True # bs))"
  proof (intro notI, elim exE conjE)
    fix xs1 xs2
    assume *: "replicate k False = xs1 @ xs2" "suffix xs1 (replicate n False)" "prefix xs2 (True # bs)"
    have "xs2 = []" using no [OF *(1)] *(3) by (cases xs2) auto
    then have "length xs1 = k" using arg_cong [OF *(1), of length] by simp
    then show False using suffix_length_le [OF *(2)] assms by simp
  qed
  moreover have "\<not> prefix (replicate k False) (True # bs)" using assms by (cases k) auto
  moreover have "\<not> sublist (replicate k False) (replicate n False)" using assms by (auto dest: sublist_length_le)
  ultimately show ?thesis unfolding sublist_append sublist_Cons_right by blast
qed

text \<open>C19: a backend is declared lost after the threshold of consecutive misses and not before. Whatever
  the memory of its nodes does in between, a serving deployment whose probes are watched one tick after
  another is failed if and only if somewhere among the answers there are as many misses in a row as the
  threshold, and serves otherwise: one answer starts the count again.\<close>

theorem lost_at_threshold:
  assumes "health_fail_threshold cfg = int k" and "0 < k" and "keyed m" and "mg_writable m"
    and "dget (mg_records m) did = Some r" and "storable (mr_deployment r)" and "rec_state r \<in> set SERVING"
    and "mr_health_failures r = 0"
  shows "\<exists>r'. dget (mg_records (watch_answers cfg did as m)) did = Some r'
    \<and> (if sublist (replicate k False) (map (\<lambda>(now, nodes, answer). fst answer) as) then rec_state r' = FAILED
       else rec_state r' \<in> set SERVING)"
proof -
  let ?oks = "\<lambda>as :: (rat \<times> (string, node_state) dict \<times> bool \<times> string option) list. map (\<lambda>(now, nodes, answer). fst answer) as"
  have dead: "watch_answers cfg did bs m = m" if "dget (mg_records m) did = Some r" "rec_state r = FAILED" "keyed m" for bs m r
    using that watched_iff [OF that(3), of did] by (induction bs) (auto simp: SERVING_def)
  have "\<exists>r'. dget (mg_records (watch_answers cfg did as m)) did = Some r'
    \<and> (if sublist (replicate k False) (replicate n False @ ?oks as) then rec_state r' = FAILED
       else rec_state r' \<in> set SERVING)"
    if "n < k" "keyed m" "mg_writable m" "dget (mg_records m) did = Some r" "storable (mr_deployment r)"
      "rec_state r \<in> set SERVING" "mr_health_failures r = int n" for n m r
    using that
  proof (induction as arbitrary: m r n)
    case Nil
    then show ?case by (auto dest: sublist_length_le)
  next
    case (Cons a as)
    obtain now nodes answer where a: "a = (now, nodes, answer)" by (cases a)
    obtain m' r' where t: "tick_record cfg now nodes (Some answer) did m = (Inr (), m')" "mg_writable m'"
        "dget (mg_records m') did = Some r'" "storable (mr_deployment r')"
        "if \<not> fst answer \<and> health_fail_threshold cfg \<le> mr_health_failures r + 1 then rec_state r' = FAILED
         else rec_state r' \<in> set SERVING \<and> mr_health_failures r' = (if fst answer then 0 else mr_health_failures r + 1)"
      using tick_serving [OF Cons.prems(4,2,3,5,6), of cfg now nodes answer] by blast
    have step: "watch_answers cfg did (a # as) m = watch_answers cfg did as m'"
      using t(1) watched_iff [OF Cons.prems(2), of did] Cons.prems(4,6) by (simp add: a)
    have k': "keyed m'" using moves_keyed [OF tick_record_moves [OF Cons.prems(2)] Cons.prems(2)] t(1)
      by (metis snd_conv)
    consider (healthy) "fst answer" | (lost) "\<not> fst answer" "n + 1 = k" | (missed) "\<not> fst answer" "n + 1 < k"
      using Cons.prems(1) by linarith
    then show ?case
    proof cases
      case healthy
      then have "rec_state r' \<in> set SERVING" "mr_health_failures r' = int 0" using t(5) by simp_all
      from Cons.IH [OF assms(2) k' t(2,3,4) this] healthy streak_reset [OF Cons.prems(1), of "?oks as"]
      show ?thesis unfolding step by (simp add: a)
    next
      case lost
      have "replicate k False = replicate n False @ [False]"
        using lost(2) by (metis Suc_eq_plus1 replicate_Suc replicate_append_same)
      then have "replicate n False @ ?oks (a # as) = replicate k False @ ?oks as" using lost(1) by (simp add: a)
      then have "sublist (replicate k False) (replicate n False @ ?oks (a # as))" by (simp only: sublist_append_rightI)
      moreover have "rec_state r' = FAILED" using t(5) lost Cons.prems(7) assms(1) by (simp split: if_splits)
      ultimately show ?thesis using dead [OF t(3) _ k'] t(3) by (simp add: step)
    next
      case missed
      have oks: "replicate n False @ ?oks (a # as) = replicate (Suc n) False @ ?oks as"
        using missed by (simp add: a replicate_app_Cons_same)
      have "rec_state r' \<in> set SERVING" "mr_health_failures r' = int (Suc n)"
        using t(5) missed Cons.prems(7) assms(1) by (simp_all split: if_splits)
      moreover have "Suc n < k" using missed by simp
      ultimately show ?thesis unfolding step oks using Cons.IH [OF _ k' t(2,3,4), of "Suc n"] by blast
    qed
  qed
  from this [of 0 m r] show ?thesis using assms(2-8) by simp
qed


section \<open>Every backend is looked at\<close>

primrec cursor_after :: "nat \<Rightarrow> nat \<Rightarrow> 'a list \<Rightarrow> nat \<Rightarrow> nat" where
  "cursor_after cap offset targets 0 = offset"
| "cursor_after cap offset targets (Suc k) = snd (probe_window cap (cursor_after cap offset targets k) targets)"

lemma window_nth:
  assumes "cap < length targets" and "j < cap"
  shows "targets ! ((offset + j) mod length targets) \<in> set (fst (probe_window cap offset targets))"
proof -
  let ?n = "length targets" let ?start = "offset mod ?n"
  have n: "0 < ?n" using assms by linarith
  let ?ring = "drop ?start targets @ take ?start targets"
  have "?ring = rotate ?start targets" by (simp add: rotate_drop_take)
  then have "take cap ?ring ! j = targets ! ((?start + j) mod ?n)"
    using assms by (simp add: nth_rotate)
  then have "targets ! ((offset + j) mod ?n) = take cap ?ring ! j" by (simp add: mod_add_left_eq)
  also have "\<dots> \<in> set (take cap ?ring)" using assms n by (intro nth_mem) simp
  finally show ?thesis using assms by (simp add: probe_window_def Let_def)
qed

lemma cursor_after_mod:
  assumes "cap < length targets"
  shows "cursor_after cap offset targets k mod length targets = (offset + k * cap) mod length targets"
proof (induction k)
  case (Suc k)
  let ?n = "length targets" and ?c = "cursor_after cap offset targets k"
  have "cursor_after cap offset targets (Suc k) mod ?n = (?c mod ?n + cap) mod ?n"
    using assms by (simp add: probe_window_def Let_def)
  also have "\<dots> = ((offset + k * cap) mod ?n + cap) mod ?n" by (simp only: Suc)
  also have "\<dots> = (offset + k * cap + cap) mod ?n" by (simp add: mod_add_left_eq)
  finally show ?case by (simp add: algebra_simps)
qed simp

text \<open>No backend is starved of probes. However many deployments serve, wherever the cursor stands,
  every one of them is probed within as many ticks as it takes to cover them all at the cap.\<close>

theorem every_backend_is_probed:
  assumes "t \<in> set targets" and "0 < cap"
  shows "\<exists>k < (length targets + cap - 1) div cap. t \<in> set (fst (probe_window cap (cursor_after cap offset targets k) targets))"
proof (cases "cap < length targets")
  case False
  then have "0 < (length targets + cap - 1) div cap"
    using assms by (cases targets) (auto simp: div_greater_zero_iff)
  then show ?thesis using assms(1) False by (intro exI [of _ 0]) (simp add: probe_window_def)
next
  case True
  let ?n = "length targets"
  obtain i where i: "i < ?n" "t = targets ! i" using assms(1) by (auto simp: in_set_conv_nth)
  define d where "d = (i + (?n - offset mod ?n)) mod ?n"
  have pos: "0 < ?n" using i(1) by linarith
  note d = mod_less_divisor [OF pos, of "i + (?n - offset mod ?n)", folded d_def]
  have at: "(offset + d) mod ?n = i"
  proof -
    have "(offset + d) mod ?n = (offset mod ?n + (i + (?n - offset mod ?n))) mod ?n"
      by (simp add: d_def mod_simps)
    also have "offset mod ?n + (i + (?n - offset mod ?n)) = i + ?n"
      using mod_less_divisor [OF pos, of offset] by linarith
    finally show ?thesis using i(1) by simp
  qed
  define k where "k = d div cap"
  have "d = k * cap + d mod cap" by (simp add: k_def)
  moreover have "(cursor_after cap offset targets k + d mod cap) mod ?n = (offset + k * cap + d mod cap) mod ?n"
    using cursor_after_mod [OF True, of offset k] by (metis mod_add_left_eq)
  ultimately have "(cursor_after cap offset targets k + d mod cap) mod ?n = i" using at by (metis add.assoc)
  then have "t \<in> set (fst (probe_window cap (cursor_after cap offset targets k) targets))"
    using window_nth [OF True, of "d mod cap" "cursor_after cap offset targets k"] assms(2) i(2) by simp
  moreover have "k < (?n + cap - 1) div cap"
  proof -
    have "k * cap \<le> d" by (simp add: k_def)
    then have "Suc k * cap \<le> ?n + cap - 1" using d assms(2) by simp
    then have "Suc k \<le> (?n + cap - 1) div cap" using assms(2) by (simp only: less_eq_div_iff_mult_less_eq)
    then show ?thesis by simp
  qed
  ultimately show ?thesis by blast
qed

text \<open>A dead backend is found in time. As long as the probe's budget is not below its floor, a backend
  that stops answering is failed within the bound the watch promises: the threshold's misses, each a poll
  interval, two probes at their timeout and the overhead of the pass, add up to at most the bound.\<close>

theorem death_found_in_time:
  assumes "1 \<le> threshold" and "MIN_PROBE_TIMEOUT_S * of_nat (length HEALTH_PATHS) \<le> DEATH_BOUND_S / of_int threshold - poll - PROBE_OVERHEAD_S"
  shows "of_int threshold * (poll + of_nat (length HEALTH_PATHS) * backend_probe_timeout threshold poll + PROBE_OVERHEAD_S) = DEATH_BOUND_S"
proof -
  let ?n = "of_nat (length HEALTH_PATHS) :: rat" and ?b = "DEATH_BOUND_S / of_int threshold - poll - PROBE_OVERHEAD_S"
  have n: "0 < ?n" "max 1 (length HEALTH_PATHS) = length HEALTH_PATHS" by (simp_all add: HEALTH_PATHS_def)
  have "MIN_PROBE_TIMEOUT_S \<le> ?b / ?n" using assms(2) n(1) by (simp add: pos_le_divide_eq)
  then have "backend_probe_timeout threshold poll = ?b / ?n"
    using assms(1) n(2) by (simp add: backend_probe_timeout_def Let_def max_def)
  then have "poll + ?n * backend_probe_timeout threshold poll + PROBE_OVERHEAD_S = DEATH_BOUND_S / of_int threshold"
    using n(1) by simp
  then show ?thesis using assms(1) by simp
qed


section \<open>One engine starting per node\<close>

text \<open>A launch enters the gate with its nodes, waits or gives up, and leaves it when its start is over. The
  holders are the launches inside.\<close>

datatype gate_op = Enter nat "string list" rat rat | Leave nat

fun gate_step :: "gate_op \<Rightarrow> (nat, string list) dict \<times> manager \<Rightarrow> (nat, string list) dict \<times> manager" where
  "gate_step (Enter i nodes deadline now) (holders, m) =
     (if dget holders i \<noteq> None then (holders, m)
      else case hold_starting nodes deadline now m of
          (Held, m) \<Rightarrow> (dset i nodes holders, m) | (w, m) \<Rightarrow> (holders, m))"
| "gate_step (Leave i) (holders, m) =
     (case dget holders i of None \<Rightarrow> (holders, m) | Some nodes \<Rightarrow> (dpop i holders, release_starting nodes m))"

definition gate_run :: "gate_op list \<Rightarrow> (nat, string list) dict \<times> manager \<Rightarrow> (nat, string list) dict \<times> manager" where
  "gate_run ops s = foldl (\<lambda>s op. gate_step op s) s ops"

definition gate_ok :: "(nat, string list) dict \<times> manager \<Rightarrow> bool" where
  "gate_ok s \<longleftrightarrow> dict_ok (fst s) \<and> set (mg_starting (snd s)) = (\<Union>(i, ns) \<in> set (fst s). set ns)
     \<and> (\<forall>i j ns ms. dget (fst s) i = Some ns \<longrightarrow> dget (fst s) j = Some ms \<longrightarrow> i \<noteq> j \<longrightarrow> set ns \<inter> set ms = {})"

lemma starting_iff:
  "gate_ok s \<Longrightarrow> n \<in> set (mg_starting (snd s)) \<longleftrightarrow> (\<exists>i ns. dget (fst s) i = Some ns \<and> n \<in> set ns)"
  by (auto simp: gate_ok_def map_of_eq_Some_iff)

lemma gate_okI:
  "dict_ok h \<Longrightarrow> (\<And>n. n \<in> set (mg_starting m) \<longleftrightarrow> (\<exists>i ns. dget h i = Some ns \<and> n \<in> set ns)) \<Longrightarrow>
   (\<And>i j ns ms n. dget h i = Some ns \<Longrightarrow> dget h j = Some ms \<Longrightarrow> n \<in> set ns \<Longrightarrow> n \<in> set ms \<Longrightarrow> i = j) \<Longrightarrow> gate_ok (h, m)"
  by (auto simp: gate_ok_def map_of_eq_Some_iff) (fastforce simp: map_of_eq_Some_iff)+

lemma gate_okD: "gate_ok s \<Longrightarrow> dget (fst s) i = Some ns \<Longrightarrow> dget (fst s) j = Some ms \<Longrightarrow> n \<in> set ns \<Longrightarrow> n \<in> set ms \<Longrightarrow> i = j"
  unfolding gate_ok_def by blast

lemma gate_step_ok: "gate_ok s \<Longrightarrow> gate_ok (gate_step op s)"
proof -
  assume ok: "gate_ok s"
  obtain h m where s: "s = (h, m)" by (cases s)
  note iff = starting_iff [OF ok, unfolded s fst_conv snd_conv] and one = gate_okD [OF ok, unfolded s fst_conv]
  have d: "dict_ok h" using ok by (simp add: gate_ok_def s)
  show "gate_ok (gate_step op s)"
  proof (cases op)
    case (Enter i nodes deadline now)
    consider "gate_step op s = (h, m)"
      | "dget h i = None" "set nodes \<inter> set (mg_starting m) = {}"
        "gate_step op s = (dset i nodes h, m\<lparr>mg_starting := mg_starting m @ nodes\<rparr>)"
    proof (cases "dget h i = None \<and> set nodes \<inter> set (mg_starting m) = {}")
      case True
      then have "hold_starting nodes deadline now m = (Held, m\<lparr>mg_starting := mg_starting m @ nodes\<rparr>)"
        by (auto simp: hold_starting_def list_ex_iff)
      then show thesis using that(2) True by (simp add: Enter s)
    next
      case False
      then have "dget h i \<noteq> None \<or> hold_starting nodes deadline now m \<in> {(Gave_up, m), (Waits, m)}"
        by (auto simp: hold_starting_def list_ex_iff)
      then show thesis using that(1) by (auto simp: Enter s)
    qed
    then show ?thesis
    proof cases
      case 2
      show ?thesis unfolding 2(3)
      proof (rule gate_okI)
        show "dict_ok (dset i nodes h)" using d by simp
        show "n \<in> set (mg_starting (m\<lparr>mg_starting := mg_starting m @ nodes\<rparr>))
            \<longleftrightarrow> (\<exists>j ns. dget (dset i nodes h) j = Some ns \<and> n \<in> set ns)" for n
          using iff [of n] 2(1) by simp (metis option.distinct(1))
        show "j = k" if "dget (dset i nodes h) j = Some ns" "dget (dset i nodes h) k = Some ms" "n \<in> set ns" "n \<in> set ms"
          for j k ns ms n
          using that 2(1,2) iff [of n] one [of j ns k ms n] by (auto split: if_splits)
      qed
    qed (use ok s in simp)
  next
    case (Leave i)
    show ?thesis
    proof (cases "dget h i")
      case (Some nodes)
      have "gate_ok (dpop i h, release_starting nodes m)"
      proof (rule gate_okI)
        show "dict_ok (dpop i h)" using d by simp
        show "n \<in> set (mg_starting (release_starting nodes m)) \<longleftrightarrow> (\<exists>j ns. dget (dpop i h) j = Some ns \<and> n \<in> set ns)" for n
          using iff [of n] one [OF Some, of _ _ n] Some by (simp add: release_starting_def) (metis option.inject)
        show "j = k" if "dget (dpop i h) j = Some ns" "dget (dpop i h) k = Some ms" "n \<in> set ns" "n \<in> set ms"
          for j k ns ms n
          using that one by (auto split: if_splits)
      qed
      then show ?thesis by (simp add: Leave s Some)
    qed (use ok in \<open>simp add: Leave s\<close>)
  qed
qed

lemma gate_run_ok: "gate_ok s \<Longrightarrow> gate_ok (gate_run ops s)"
  by (induction ops arbitrary: s) (simp_all add: gate_run_def gate_step_ok)

text \<open>Two engines never start on one node at once. However launches enter, wait, give up and leave, two
  that are inside the gate have no node in common; and a launch whose nodes nobody inside has is let in
  at its next look, whatever the time.\<close>

theorem one_engine_starts_per_node:
  assumes "gate_run ops ([], new_manager) = (holders, m)"
  shows "(\<forall>i j ns ms. dget holders i = Some ns \<and> dget holders j = Some ms \<and> i \<noteq> j \<longrightarrow> set ns \<inter> set ms = {})
    \<and> ((\<forall>i ns. dget holders i = Some ns \<longrightarrow> set ns \<inter> set nodes = {}) \<longleftrightarrow> fst (hold_starting nodes deadline now m) = Held)"
proof -
  have "gate_ok ([], new_manager)" by (simp add: gate_ok_def new_manager_def)
  then have ok: "gate_ok (holders, m)" using gate_run_ok assms by metis
  have "fst (hold_starting nodes deadline now m) = Held \<longleftrightarrow> set nodes \<inter> set (mg_starting m) = {}"
    by (auto simp: hold_starting_def list_ex_iff)
  then show ?thesis using ok starting_iff [OF ok] unfolding gate_ok_def fst_conv snd_conv by blast
qed

section \<open>The last resort\<close>

lemma kill_on_node_signals:
  assumes "(node, pid, command) \<in> set (fst (snd (kill_on_node processes kill cluster port urls n)))"
  shows "node = n" and "\<exists>url ps. urls n = Some url \<and> processes (rev (dropWhile (\<lambda>c. c = CHR ''/'') (rev url))) = Inr ps
    \<and> (pid, command) \<in> set ps \<and> matches_deployment command cluster port"
proof -
  obtain url where u: "urls n = Some url" "url \<noteq> []"
    using assms by (auto simp: kill_on_node_def split: option.splits if_splits)
  then obtain ps where ps: "processes (rev (dropWhile (\<lambda>c. c = CHR ''/'') (rev url))) = Inr ps"
    using assms by (cases "processes (rev (dropWhile (\<lambda>c. c = CHR ''/'') (rev url)))")
      (simp_all add: kill_on_node_def Let_def)
  have "fst (snd (kill_on_node processes kill cluster port urls n)) = map (\<lambda>t. (n, t)) (kill_targets cluster port ps)"
    using u by (simp add: kill_on_node_def ps Let_def)
  then have "node = n \<and> (pid, command) \<in> set (kill_targets cluster port ps)" using assms by auto
  then show "node = n" and "\<exists>url ps. urls n = Some url \<and> processes (rev (dropWhile (\<lambda>c. c = CHR ''/'') (rev url))) = Inr ps
    \<and> (pid, command) \<in> set ps \<and> matches_deployment command cluster port"
    using u ps by (auto simp: kill_targets_def)
qed

text \<open>C35: a forced stop signals only what is the deployment's own. Every process the agents are told to kill
  runs on a node of the deployment, was listed by that node's agent, and carries the workload's id or, as
  a whole number, its port; without a cluster token nothing is signalled at all.\<close>

theorem kills_only_its_own:
  assumes "kill_through_agents registry processes kill r = (killed, note, signalled)"
    and "(node, pid, command) \<in> set signalled"
  shows "\<exists>urls token url ps. registry = Some (urls, token) \<and> token \<noteq> [] \<and> urls node = Some url
    \<and> node \<in> set (dep_nodes (mr_deployment r))
    \<and> processes (rev (dropWhile (\<lambda>c. c = CHR ''/'') (rev url))) = Inr ps \<and> (pid, command) \<in> set ps
    \<and> ((\<exists>c. handle_cluster (mr_handle r) = Some c \<and> str_contains c command)
       \<or> (\<exists>p. handle_port (mr_handle r) = Some p \<and> p \<noteq> 0 \<and> port_in command p))"
proof -
  obtain urls token where t: "registry = Some (urls, token)" "token \<noteq> []"
    using assms by (auto simp: kill_through_agents_def split: option.splits if_splits)
  let ?at = "kill_on_node processes kill (handle_cluster (mr_handle r)) (handle_port (mr_handle r)) urls"
  have "signalled = concat (map (\<lambda>n. fst (snd (?at n))) (dep_nodes (mr_deployment r)))"
    using assms t by (auto simp: kill_through_agents_def Let_def comp_def split: if_splits)
  then obtain n where n: "n \<in> set (dep_nodes (mr_deployment r))" "(node, pid, command) \<in> set (fst (snd (?at n)))"
    using assms(2) by auto
  obtain url ps where ps: "urls node = Some url" "processes (rev (dropWhile (\<lambda>c. c = CHR ''/'') (rev url))) = Inr ps"
      "(pid, command) \<in> set ps" "matches_deployment command (handle_cluster (mr_handle r)) (handle_port (mr_handle r))"
    using kill_on_node_signals [OF n(2)] by blast
  have "(\<exists>c. handle_cluster (mr_handle r) = Some c \<and> str_contains c command)
      \<or> (\<exists>p. handle_port (mr_handle r) = Some p \<and> p \<noteq> 0 \<and> port_in command p)"
    using ps(4) by (simp add: matches_deployment_def split: if_splits option.splits)
  then show ?thesis using t n(1) kill_on_node_signals(1) [OF n(2)] ps(1-3)
    by (intro exI [of _ urls] exI [of _ token] exI [of _ url] exI [of _ ps]) simp
qed


section \<open>Pressure sheds load\<close>

lemma watch_nodes_read:
  assumes "\<forall>n \<in> set ns. dget nodes n = Some (reading n)" and "dict_ok (mr_node_severity r)"
  shows "dict_ok (mr_node_severity (snd (watch_nodes nodes ns r)))
    \<and> (\<forall>k. dget (mr_node_severity (snd (watch_nodes nodes ns r))) k
        = (if k \<in> set ns then Some (severity_of (memory_fraction (reading k))) else dget (mr_node_severity r) k))
    \<and> set (mr_unhealthy_nodes (snd (watch_nodes nodes ns r)))
        = (set (mr_unhealthy_nodes r) - set ns) \<union> {n \<in> set ns. \<not> ns_healthy (reading n)}"
  using assms
proof (induction ns arbitrary: r)
  case (Cons n ns)
  let ?r = "snd (watch_node n (reading n) r)"
  have w: "mr_node_severity ?r = dset n (severity_of (memory_fraction (reading n))) (mr_node_severity r)"
      "set (mr_unhealthy_nodes ?r) = (if ns_healthy (reading n) then set (mr_unhealthy_nodes r) - {n}
        else insert n (set (mr_unhealthy_nodes r)))"
    by (auto simp: watch_node_def Let_def)
  have step: "snd (watch_nodes nodes (n # ns) r) = snd (watch_nodes nodes ns ?r)"
    using Cons.prems(1) by (simp add: watch_nodes_Cons del: watch_nodes.simps(2))
  have "dict_ok (mr_node_severity ?r)" using Cons.prems(2) by (simp add: w)
  then show ?case using Cons.IH [of ?r] Cons.prems(1) unfolding step w by (auto split: if_splits)
qed simp

lemma no_reasons_iff:
  "degraded_reasons r = [] \<longleftrightarrow> (\<forall>(n, s) \<in> set (mr_node_severity r). s = Sev_ok) \<and> mr_unhealthy_nodes r = []"
proof -
  have "s = Sev_ok \<longleftrightarrow> s \<notin> {Sev_warning, Sev_critical}" for s by (cases s) auto
  moreover have "sort (mr_unhealthy_nodes r) = [] \<longleftrightarrow> mr_unhealthy_nodes r = []" by (metis length_0_conv length_sort)
  ultimately show ?thesis by (auto simp: degraded_reasons_def filter_empty_conv)
qed

text \<open>Memory pressure sheds load, and its end takes it back. When every node of a serving deployment is
  read and its backend answers, one pass leaves it degraded exactly if some node is unhealthy or has at
  least ninety per cent of its memory in use, ready otherwise, and admitting exactly if none is at
  ninety-five per cent.\<close>

theorem pressure_sheds_load:
  assumes "dget (mg_records m) did = Some r" and "keyed m" and "mg_writable m" and "storable (mr_deployment r)"
    and "rec_state r \<in> set SERVING" and "\<forall>n \<in> set (dep_nodes (mr_deployment r)). dget nodes n = Some (reading n)"
    and "dict_ok (mr_node_severity r)" and "set (dkeys (mr_node_severity r)) \<subseteq> set (dep_nodes (mr_deployment r))"
    and "set (mr_unhealthy_nodes r) \<subseteq> set (dep_nodes (mr_deployment r))"
  shows "\<exists>m' r'. tick_record cfg now nodes (Some (True, why)) did m = (Inr (), m') \<and> dget (mg_records m') did = Some r'
    \<and> rec_state r' = (if \<exists>n \<in> set (dep_nodes (mr_deployment r)). \<not> ns_healthy (reading n) \<or> 90 / 100 \<le> memory_fraction (reading n)
        then DEGRADED else READY)
    \<and> (admitting r' \<longleftrightarrow> (\<forall>n \<in> set (dep_nodes (mr_deployment r)). memory_fraction (reading n) < 95 / 100))"
proof -
  let ?ns = "dep_nodes (mr_deployment r)"
  define r1 where "r1 = (snd (watch_nodes nodes ?ns r))\<lparr>mr_health_failures := 0\<rparr>"
  define m1 where "m1 = check_memory nodes did m"
  define m2 where "m2 = put_record r1 m1"
  have d: "mr_deployment r1 = mr_deployment r" by (simp add: r1_def)
  have recs: "mg_records m1 = dset did (snd (watch_nodes nodes ?ns r)) (mg_records m)" "mg_writable m1"
    using check_memory_record [OF assms(1,2), of nodes] assms(3) by (simp_all add: m1_def)
  have m2: "dget (mg_records m2) did = Some r1" "mg_writable m2"
    using keyed_id [OF assms(2,1)] recs by (simp_all add: m2_def d)
  have app: "apply_backend_probe cfg now (Some (True, why)) did m1 = (Inr (), m2)"
    by (simp add: apply_backend_probe_def recs m2_def r1_def)
  have k2: "keyed m2"
    using moves_keyed [OF apply_backend_probe_moves [OF moves_keyed [OF check_memory_moves [OF assms(2)] assms(2)]]
        moves_keyed [OF check_memory_moves [OF assms(2)] assms(2)]] app
    unfolding m1_def by (metis snd_conv)
  let ?r = "r1\<lparr>mr_deployment := (mr_deployment r1)\<lparr>dep_state := (if degraded_reasons r1 = [] then READY else DEGRADED)\<rparr>\<rparr>"
  obtain m3 where m3: "settle_state now did m2 = (Inr (), m3)" "dget (mg_records m3) did = Some ?r"
    using settle_serving [OF m2(1) k2 m2(2), of now] assms(4,5) by (auto simp: d rec_state_def)
  note read = watch_nodes_read [OF assms(6,7)]
  have sev: "(n, s) \<in> set (mr_node_severity r1) \<longleftrightarrow> n \<in> set ?ns \<and> s = severity_of (memory_fraction (reading n))" for n s
  proof -
    have "dget (mr_node_severity r) n = None" if "n \<notin> set ?ns"
      using that assms(8) by (auto simp: map_of_eq_None_notin)
    then have "dget (mr_node_severity r1) n = (if n \<in> set ?ns then Some (severity_of (memory_fraction (reading n))) else None)"
      using read by (simp add: r1_def)
    moreover have "dict_ok (mr_node_severity r1)" using read by (simp add: r1_def)
    ultimately show ?thesis by (metis map_of_eq_Some_iff option.discI option.inject)
  qed
  have unh: "set (mr_unhealthy_nodes r1) = {n \<in> set ?ns. \<not> ns_healthy (reading n)}" using read assms(9) by (auto simp: r1_def)
  have "rec_state ?r = (if \<exists>n \<in> set ?ns. \<not> ns_healthy (reading n) \<or> 90 / 100 \<le> memory_fraction (reading n) then DEGRADED else READY)"
  proof -
    have "mr_unhealthy_nodes r1 = [] \<longleftrightarrow> (\<forall>n \<in> set ?ns. ns_healthy (reading n))" using unh by (auto simp flip: set_empty)
    moreover have "severity_of f = Sev_ok \<longleftrightarrow> f < 90 / 100" for f
      by (simp add: severity_of_def MEMORY_WARN_FRACTION_def MEMORY_CRITICAL_FRACTION_def)
    moreover have "(\<forall>(n, s) \<in> set (mr_node_severity r1). s = Sev_ok)
        \<longleftrightarrow> (\<forall>n \<in> set ?ns. severity_of (memory_fraction (reading n)) = Sev_ok)"
      unfolding Ball_def split_paired_All prod.case sev by blast
    ultimately have "degraded_reasons r1 = [] \<longleftrightarrow> (\<forall>n \<in> set ?ns. ns_healthy (reading n) \<and> memory_fraction (reading n) < 90 / 100)"
      unfolding no_reasons_iff by blast
    then show ?thesis by (auto simp: not_less not_le)
  qed
  moreover have "admitting ?r \<longleftrightarrow> (\<forall>n \<in> set ?ns. memory_fraction (reading n) < 95 / 100)"
  proof -
    have "severity_of f = Sev_critical \<longleftrightarrow> 95 / 100 \<le> f" for f
      by (simp add: severity_of_def MEMORY_WARN_FRACTION_def MEMORY_CRITICAL_FRACTION_def)
    moreover have "Sev_critical \<in> snd ` set (mr_node_severity r1) \<longleftrightarrow> (\<exists>n \<in> set ?ns. severity_of (memory_fraction (reading n)) = Sev_critical)"
      unfolding image_iff Bex_def split_paired_Ex sev snd_conv by metis
    ultimately show ?thesis by (auto simp: admitting_def not_le)
  qed
  ultimately show ?thesis using m3 by (auto simp: tick_record_def app simp flip: m1_def)
qed

end
