(* ===== verification/Deploy_Cases.thy ===== *)
theory Deploy_Cases
  imports Deploy_Duty
begin

text \<open>
  Concrete runs of the deployment manager: inputs at which the duties of \<open>Deploy_Duty\<close> bind, and the
  sequences of steps on which the manager does not do what its own comments say.
\<close>

declare map_of_eq_Some_iff [simp del]

section \<open>The duties bind\<close>

definition too_big :: launch_request where
  "too_big = (ask_for ''a'')\<lparr>lr_fit := small_fit\<lparr>fr_verdict := WONT_FIT\<rparr>\<rparr>"

lemma d1_path: "record_path ''d1'' = Inr ''d1.json''"
  by code_simp

theorem refusal_starts_nothing_witness:
  "snd (launch_deployment small_config True (\<lambda>p. True) ''d1'' 1 too_big new_manager)
     = emit_event (Launch_was_refused (requested_name too_big)) new_manager"
proof -
  have v: "fr_verdict (lr_fit too_big) = WONT_FIT" by (simp add: too_big_def)
  have l: "launch_deployment small_config True (\<lambda>p. True) ''d1'' 1 too_big new_manager
      = (Inl (Refused_to_launch (lr_fit too_big)), emit_event (Launch_was_refused (requested_name too_big)) new_manager)"
    by (simp add: launch_deployment_def v)
  show ?thesis using refusal_starts_nothing [OF l _ d1_path] l v by simp
qed

text \<open>A record that serves and whose backend says nothing after the restart, while the launcher does not know.\<close>

definition kept_record :: "deployment \<times> json_object" where
  "kept_record = ((small_deployment ''d1'' READY)\<lparr>backend_url := Some ''http://h:1''\<rparr>,
     [(''cluster_id'', JStr ''sparkrun_0''), (''port'', JInt 8100)])"

theorem silence_is_not_death_witness:
  "\<exists>m r. adopt_all 5 (\<lambda>did. (False, Some ''no answer'')) (\<lambda>did. None) [kept_record] new_manager = (Inr (), m)
     \<and> dget (mg_records m) ''d1'' = Some r \<and> rec_state r = LAUNCHING"
proof -
  let ?run = "adopt_all 5 (\<lambda>did. (False, Some ''no answer'')) (\<lambda>did. None) [kept_record] new_manager"
  have run: "fst ?run = Inr () \<and> map (\<lambda>(did, r). (did, rec_state r)) (mg_records (snd ?run)) = [(''d1'', LAUNCHING)]"
    by code_simp
  then obtain r where r: "mg_records (snd ?run) = [(''d1'', r)]" "rec_state r = LAUNCHING"
    by (auto simp: map_eq_Cons_conv split: prod.splits)
  have ok: "?run = (Inr (), snd ?run)" using run by (metis prod.collapse)
  show ?thesis
    using silence_is_not_death [OF ok] r ok by (intro exI [of _ "snd ?run"] exI [of _ r]) simp
qed

definition serving_one :: manager where
  "serving_one = mgr_run small_config (take 1 two_launches
     @ [Op_wait 3 100 False 0 ''no backend url'' (True, None) None [] ''d1'']) new_manager"

lemma serving_one_ok:
  obtains r where "mg_records serving_one = [(''d1'', r)]" "rec_state r = READY" "mr_health_failures r = 0"
    "mr_node_severity r = []" "mr_unhealthy_nodes r = []" "dep_nodes (mr_deployment r) = [''a'']"
    "storable (mr_deployment r)" "keyed serving_one" "mg_writable serving_one"
proof -
  have s: "map (\<lambda>(did, r). (did, rec_state r, mr_health_failures r, mr_node_severity r, mr_unhealthy_nodes r,
        dep_nodes (mr_deployment r), deployment_id (mr_deployment r), dep_plan (mr_deployment r) = None, dep_fit (mr_deployment r) = None))
      (mg_records serving_one) = [(''d1'', READY, 0, [], [], [''a''], ''d1'', False, False)]" and w: "mg_writable serving_one"
    by code_simp+
  then obtain r where r: "mg_records serving_one = [(''d1'', r)]" "rec_state r = READY" "mr_health_failures r = 0"
      "mr_node_severity r = []" "mr_unhealthy_nodes r = []" "dep_nodes (mr_deployment r) = [''a'']"
      "deployment_id (mr_deployment r) = ''d1''" "dep_plan (mr_deployment r) \<noteq> None" "dep_fit (mr_deployment r) \<noteq> None"
    by (auto simp: map_eq_Cons_conv split: prod.splits)
  have "keyed serving_one" unfolding serving_one_def using mgr_run_keeps [OF new_manager_ok] by blast
  moreover have "storable (mr_deployment r)" using r d1_path by (simp add: storable_def)
  ultimately show thesis using that r w by blast
qed

theorem lost_at_threshold_witness:
  "\<exists>r. dget (mg_records (watch_answers small_config ''d1''
       [(4, [], (False, None)), (6, [], (True, None)), (8, [], (False, None)), (10, [], (False, None))] serving_one)) ''d1'' = Some r
     \<and> rec_state r = FAILED"
proof -
  obtain r where r: "mg_records serving_one = [(''d1'', r)]" "rec_state r = READY" "mr_health_failures r = 0"
      "storable (mr_deployment r)" "keyed serving_one" "mg_writable serving_one" using serving_one_ok by blast
  have "sublist (replicate 2 False) [False, True, False, False]" by code_simp
  then show ?thesis
    using lost_at_threshold [of small_config 2 serving_one "''d1''" r
        "[(4, [], (False, None)), (6, [], (True, None)), (8, [], (False, None)), (10, [], (False, None))]"] r
    by (simp add: small_config_def SERVING_def)
qed

theorem every_backend_is_probed_witness:
  "\<exists>k < 3. 4 \<in> set (fst (probe_window 2 (cursor_after 2 3 [0, 1, 2, 3, 4::nat] k) [0, 1, 2, 3, 4::nat]))"
  using every_backend_is_probed [of 4 "[0, 1, 2, 3, 4::nat]" 2 3] by (simp del: One_nat_def)

theorem death_found_in_time_witness:
  "2 * (2 + 2 * backend_probe_timeout 2 2 + PROBE_OVERHEAD_S) = DEATH_BOUND_S"
  using death_found_in_time [of 2 2]
  by (simp add: HEALTH_PATHS_def MIN_PROBE_TIMEOUT_S_def DEATH_BOUND_S_def PROBE_OVERHEAD_S_def)

theorem one_engine_starts_per_node_witness:
  "\<exists>m. gate_run [Enter 0 [''a'', ''b''] 9 1, Enter 1 [''b'', ''c''] 9 2, Enter 2 [''d''] 9 2, Leave 0, Enter 1 [''b'', ''c''] 9 3]
       ([], new_manager) = ([(2, [''d'']), (1, [''b'', ''c''])], m)
     \<and> fst (hold_starting [''a''] 9 10 m) = Held \<and> fst (hold_starting [''c''] 9 10 m) \<noteq> Held"
proof -
  let ?run = "gate_run [Enter 0 [''a'', ''b''] 9 1, Enter 1 [''b'', ''c''] 9 2, Enter 2 [''d''] 9 2, Leave 0, Enter 1 [''b'', ''c''] 9 3]
       ([], new_manager)"
  have "fst ?run = [(2, [''d'']), (1, [''b'', ''c''])]" by code_simp
  then have run: "?run = ([(2, [''d'']), (1, [''b'', ''c''])], snd ?run)" by (metis prod.collapse)
  show ?thesis
    using one_engine_starts_per_node [OF run, of "[''a'']" 9 10] one_engine_starts_per_node [OF run, of "[''c'']" 9 10] run
    by (intro exI [of _ "snd ?run"]) (auto split: if_splits)
qed

theorem kills_only_its_own_witness:
  "\<exists>killed said. kill_through_agents (Some (\<lambda>n. Some ''http://a/'', ''t'')) (\<lambda>u. Inr [(7, ''serve job1''), (8, ''sh'')])
       (\<lambda>u pid. Was_killed None) (new_record (small_deployment ''d1'' READY) [(''cluster_id'', JStr ''job1'')])
     = (killed, said, [(''a'', 7, ''serve job1'')]) \<and> str_contains ''job1'' ''serve job1''"
proof -
  let ?kill = "kill_through_agents (Some (\<lambda>n. Some ''http://a/'', ''t'')) (\<lambda>u. Inr [(7, ''serve job1''), (8, ''sh'')])
       (\<lambda>u pid. Was_killed None) (new_record (small_deployment ''d1'' READY) [(''cluster_id'', JStr ''job1'')])"
  have h: "handle_cluster [(''cluster_id'', JStr ''job1'')] = Some ''job1''" "handle_port [(''cluster_id'', JStr ''job1'')] = None"
    by (simp_all add: handle_cluster_def handle_port_def)
  have "dep_nodes (small_deployment ''d1'' READY) = [''a'']" by (simp add: dep_nodes_def small_deployment_def small_plan_def)
  moreover have "str_contains ''job1'' ''serve job1''" "\<not> str_contains ''job1'' ''sh''" by code_simp+
  ultimately have "snd (snd ?kill) = [(''a'', 7, ''serve job1'')]"
    by (simp add: kill_through_agents_def kill_on_node_def kill_targets_def matches_deployment_def new_record_def h)
  then have k: "?kill = (fst ?kill, fst (snd ?kill), [(''a'', 7, ''serve job1'')])" by (metis prod.collapse)
  show ?thesis using kills_only_its_own [OF k, of "''a''" 7 "''serve job1''"] k h by (auto simp: new_record_def)
qed

definition used_node :: "int \<Rightarrow> node_state" where
  "used_node used = \<lparr>profile = example_node, ns_healthy = True, last_seen = 1, memory_used = used, power_watts = 10,
     temperature_c = 40, utilization_pct = 5, memory_total_live = 128526896332, sample_ts = 1, is_local = True, build = []\<rparr>"

theorem pressure_sheds_load_witness:
  "\<exists>m' r'. tick_record small_config 4 [(''a'', used_node 118000000000)] (Some (True, None)) ''d1'' serving_one = (Inr (), m')
     \<and> dget (mg_records m') ''d1'' = Some r' \<and> rec_state r' = DEGRADED \<and> Deploy_Manager.admitting r'"
proof -
  obtain r where r: "mg_records serving_one = [(''d1'', r)]" "rec_state r = READY" "mr_node_severity r = []"
      "mr_unhealthy_nodes r = []" "dep_nodes (mr_deployment r) = [''a'']" "storable (mr_deployment r)"
      "keyed serving_one" "mg_writable serving_one" using serving_one_ok by blast
  have f: "90 / 100 \<le> memory_fraction (used_node 118000000000)" "memory_fraction (used_node 118000000000) < 95 / 100"
    by (simp_all add: memory_fraction_def used_node_def example_node_def)
  show ?thesis
    using pressure_sheds_load [of serving_one "''d1''" r "[(''a'', used_node 118000000000)]" "\<lambda>n. used_node 118000000000"
        small_config 4 None] r f
    by (simp add: SERVING_def)
qed

section \<open>Where the manager falls short\<close>

text \<open>A launch accepted while the disk takes no writes raises, but its record stays: the name is taken by a
  launch that no worker drives.\<close>

lemma unwritable_launch_keeps_the_name:
  "let m = snd (launch_deployment small_config True (\<lambda>p. True) ''d1'' 1 (ask_for ''a'') (new_manager\<lparr>mg_writable := False\<rparr>))
   in map (\<lambda>(did, r). (did, rec_state r)) (mg_records m) = [(''d1'', LAUNCHING)] \<and> mg_store m = []
      \<and> (case fst (launch_deployment small_config True (\<lambda>p. True) ''d2'' 2 (ask_for ''a'') (m\<lparr>mg_writable := True\<rparr>)) of
           Inl (Duplicate d clash) \<Rightarrow> deployment_id d = ''d1'' | _ \<Rightarrow> False)"
  by code_simp

text \<open>A stop that comes before the launcher has named the workload fails the deployment; when the launcher
  then returns its handle, nothing stops the container.\<close>

definition started :: launch_result where
  "started = \<lparr>lres_cluster_id = ''sparkrun_0a1b2c'', lres_head_host = ''a'', lres_backend_url = ''http://a:8100/v1'',
     lres_port = 8100, lres_hosts = [''a'']\<rparr>"

lemma stop_before_the_handle_leaves_the_container:
  "let m = mgr_run small_config [Op_launch True (\<lambda>p. True) ''d1'' 1 (ask_for ''a''), Op_stop 2 ''d1'', Op_ask_stop None,
             Op_stop_launch 3 ''d1''] new_manager;
       m = snd (launch_returned 4 ''d1'' (Inr started) m);
       m = mgr_step small_config (Op_wait 5 100 False 0 [] (True, None) None [] ''d1'') m
   in map (\<lambda>(did, r). (rec_state r, handle_cluster (mr_handle r))) (mg_records m) = [(FAILED, Some ''sparkrun_0a1b2c'')]
      \<and> mg_stops m = []"
  by code_simp

text \<open>A deployment stopped while its probe was out ends the pass with an error: who comes after it in the
  order of the records is not looked at.\<close>

lemma stopped_meanwhile_ends_the_pass:
  assumes "dget (mg_records m) did = Some r" and "rec_state r \<in> set TERMINAL" and "health_fail_threshold cfg \<le> mr_health_failures r + 1"
    and "rec_state r \<noteq> FAILED" and "keyed m" and "dget results did = Some (False, why)"
  shows "\<exists>e. fst (tick_records cfg now nodes results (did # dids) m) = Inl (Illegal e)"
proof -
  define r1 where "r1 = snd (watch_nodes nodes (dep_nodes (mr_deployment r)) r)"
  have r1: "mr_deployment r1 = mr_deployment r" "mr_health_failures r1 = mr_health_failures r" by (simp_all add: r1_def)
  have g: "dget (mg_records (check_memory nodes did m)) did = Some r1"
    using check_memory_record [OF assms(1,5), of nodes] by (simp add: r1_def)
  have "check_transition did' (rec_state r) FAILED = Inl (IllegalTransition did' (rec_state r) FAILED)" for did'
    using assms(2,4) by (cases "rec_state r") (auto simp: check_transition_def can_def TERMINAL_def)
  then show ?thesis using assms(3,6)
    by (simp add: tick_record_def apply_backend_probe_def g r1 transition_to_def Let_def rec_state_def)
qed

text \<open>A manager that is closing when the launcher has just returned fails the launch it should leave for the
  next start to adopt.\<close>

lemma closing_fails_the_launch:
  "let m = mgr_run small_config [Op_launch True (\<lambda>p. True) ''d1'' 1 (ask_for ''a''),
             Op_wait 3 100 True 0 ''no backend url'' (True, None) None [] ''d1''] new_manager
   in map (\<lambda>(did, r). rec_state r) (mg_records m) = [FAILED]"
  by code_simp

end
