(* ===== verification/Provider_Runtime.thy ===== *)
theory Provider_Runtime
  imports Contracts
begin

text \<open>
  The live state of one provider, \<open>control_plane/providers/runtime.py\<close>: health, the two waits (a 429's and a
  failure's), the latch of a rejected key, the day's spend, and why a provider is not admitting. The clock
  is an argument. What Python's \<open>float()\<close> and \<open>email.utils\<close> read in a header is the parameter \<open>header_reader\<close>.
\<close>

section \<open>Constants\<close>

definition BACKOFF_MIN_S :: rat where "BACKOFF_MIN_S = 1"
definition BACKOFF_MAX_S :: rat where "BACKOFF_MAX_S = 60"
definition RETRY_AFTER_MAX_S :: rat where "RETRY_AFTER_MAX_S = 300"

section \<open>The day of a moment\<close>

text \<open>\<open>datetime.fromtimestamp(ts, utc).strftime("%Y-%m-%d")\<close>: the civil date, counted year by year and month
  by month from the epoch, and its text.\<close>

type_synonym date = "nat \<times> nat \<times> nat"

definition leap :: "nat \<Rightarrow> bool" where
  "leap y \<longleftrightarrow> y mod 4 = 0 \<and> (y mod 100 \<noteq> 0 \<or> y mod 400 = 0)"

definition month_lengths :: "nat \<Rightarrow> nat list" where
  "month_lengths y = [31, if leap y then 29 else 28, 31, 30, 31, 30, 31, 31, 30, 31, 30, 31]"

definition year_length :: "nat \<Rightarrow> nat" where
  "year_length y = (if leap y then 366 else 365)"

fun month_day :: "nat \<Rightarrow> nat list \<Rightarrow> nat \<Rightarrow> nat \<times> nat" where
  "month_day m (n # ns) d = (if d < n then (m, d + 1) else month_day (m + 1) ns (d - n))"
| "month_day m [] d = (m, d + 1)"

lemma year_length_pos [simp]: "0 < year_length y"
  by (simp add: year_length_def)

function civil :: "nat \<Rightarrow> nat \<Rightarrow> date" where
  "civil y d = (if d < year_length y then (y, month_day 1 (month_lengths y) d)
                else civil (y + 1) (d - year_length y))"
  by pat_completeness auto

termination civil
proof (relation "measure snd")
  fix y d :: nat
  assume "\<not> d < year_length y"
  then have "d - year_length y < d" using year_length_pos [of y] by linarith
  then show "((y + 1, d - year_length y), (y, d)) \<in> measure snd" by simp
qed simp

declare civil.simps [simp del]

text \<open>A time stamp is rounded to the microsecond, a tie to the even one; a clock before the epoch is not
  modelled.\<close>

definition utc_date :: "rat \<Rightarrow> date" where
  "utc_date ts = civil 1970 (nat (round_half_even (ts * 1000000) div 86400000000))"

text \<open>A number in \<open>k\<close> digits; years beyond 9999 are not modelled.\<close>

fun padded :: "nat \<Rightarrow> nat \<Rightarrow> string" where
  "padded 0 n = []"
| "padded (Suc k) n = padded k (n div 10) @ [char_of (48 + n mod 10)]"

definition date_text :: "date \<Rightarrow> string" where
  "date_text d = (let (y, m, day) = d in padded 4 y @ ''-'' @ padded 2 m @ ''-'' @ padded 2 day)"

definition utc_day :: "rat \<Rightarrow> string" where
  "utc_day ts = date_text (utc_date ts)"

section \<open>The pause an upstream asks for\<close>

text \<open>What \<open>float()\<close> makes of a text: a number, an infinity or a NaN.\<close>

datatype py_float = Number rat | Plus_inf | Minus_inf | Not_a_number

text \<open>A parsed HTTP date: a moment, or a wall clock without a zone, given as the moment it is in UTC.\<close>

datatype http_date = Zoned rat | Naive rat

record header_reader =
  to_float :: "string \<Rightarrow> py_float option"
  to_date :: "string \<Rightarrow> http_date option"

fun at_least_zero :: "py_float \<Rightarrow> py_float" where
  "at_least_zero (Number x) = Number (max 0 x)"
| "at_least_zero Plus_inf = Plus_inf"
| "at_least_zero Minus_inf = Number 0"
| "at_least_zero Not_a_number = Number 0"

fun moment :: "http_date \<Rightarrow> rat" where
  "moment (Zoned t) = t"
| "moment (Naive t) = t"

definition parse_retry_after :: "header_reader \<Rightarrow> string option \<Rightarrow> rat \<Rightarrow> py_float option" where
  "parse_retry_after hr value now =
     (case value of
        None \<Rightarrow> None
      | Some v \<Rightarrow>
        if v = [] then None
        else let s = str_strip v in
          case to_float hr s of
            Some x \<Rightarrow> Some (at_least_zero x)
          | None \<Rightarrow> map_option (\<lambda>d. Number (max 0 (moment d - now))) (to_date hr s))"

text \<open>\<open>min(seconds, RETRY_AFTER_MAX_S)\<close>.\<close>

fun capped_pause :: "py_float \<Rightarrow> rat" where
  "capped_pause (Number x) = min x RETRY_AFTER_MAX_S"
| "capped_pause _ = RETRY_AFTER_MAX_S"

section \<open>State\<close>

record day_spend =
  ds_usd :: rat
  ds_input_tokens :: int
  ds_output_tokens :: int
  ds_requests :: int
  ds_unpriced :: int
  ds_metered :: int

definition new_day :: day_spend where
  "new_day = \<lparr>ds_usd = 0, ds_input_tokens = 0, ds_output_tokens = 0, ds_requests = 0, ds_unpriced = 0,
     ds_metered = 0\<rparr>"

record provider_live =
  lv_healthy :: bool
  lv_last_error :: "msg option"
  lv_last_refreshed :: rat
  lv_backoff_until :: rat
  lv_rate_limits :: nat
  lv_failures :: nat
  lv_failure_until :: rat
  lv_auth_rejected :: bool
  lv_budget :: "rat option"
  lv_aliases :: "(string, string) dict"
  lv_spend :: "(string, day_spend) dict"
  lv_outstanding :: "(string, int) dict"
  lv_missing_key :: "string option"
  lv_enabled_models :: "string list option"
  lv_backend_pins :: "(string, string) dict"

definition new_provider_live :: provider_live where
  "new_provider_live = \<lparr>lv_healthy = True, lv_last_error = None, lv_last_refreshed = 0, lv_backoff_until = 0,
     lv_rate_limits = 0, lv_failures = 0, lv_failure_until = 0, lv_auth_rejected = False, lv_budget = None,
     lv_aliases = [], lv_spend = [], lv_outstanding = [], lv_missing_key = None, lv_enabled_models = None,
     lv_backend_pins = []\<rparr>"

definition allowed_model :: "provider_live \<Rightarrow> string \<Rightarrow> bool" where
  "allowed_model p uid \<longleftrightarrow> (case lv_enabled_models p of None \<Rightarrow> True | Some ids \<Rightarrow> uid \<in> set ids)"

section \<open>Health\<close>

definition note_success :: "provider_live \<Rightarrow> provider_live" where
  "note_success p = p\<lparr>lv_healthy := True, lv_last_error := None, lv_backoff_until := 0, lv_failure_until := 0,
     lv_rate_limits := 0, lv_failures := 0, lv_auth_rejected := False\<rparr>"

text \<open>\<open>BACKOFF_MIN_S * 2 ** n\<close>: the integer is converted to a float, which has no room for \<open>2 ^ 1024\<close>.\<close>

definition backoff_seconds :: "nat \<Rightarrow> py_error + rat" where
  "backoff_seconds n = (if n < 1024 then Inr (min BACKOFF_MAX_S (BACKOFF_MIN_S * 2 ^ n)) else Inl OverflowError)"

text \<open>An operation that raises keeps what it wrote before it did, so the state is returned beside the error.\<close>

definition back_off :: "rat \<Rightarrow> provider_live \<Rightarrow> (py_error + rat) \<times> provider_live" where
  "back_off now p =
     (case backoff_seconds (lv_failures p) of
        Inl e \<Rightarrow> (Inl e, p)
      | Inr s \<Rightarrow> (Inr s, p\<lparr>lv_failures := lv_failures p + 1, lv_failure_until := now + s\<rparr>))"

definition half_open :: "rat \<Rightarrow> provider_live \<Rightarrow> provider_live" where
  "half_open now p =
     (if lv_healthy p \<or> lv_auth_rejected p then p
      else if lv_failure_until p \<le> 0 \<or> now < lv_failure_until p then p
      else p\<lparr>lv_healthy := True\<rparr>)"

definition note_rate_limit ::
  "header_reader \<Rightarrow> rat \<Rightarrow> string option \<Rightarrow> string \<Rightarrow> provider_live \<Rightarrow> (py_error + rat) \<times> provider_live" where
  "note_rate_limit hr now retry_after message p =
     (case (case parse_retry_after hr retry_after now of
              None \<Rightarrow> backoff_seconds (lv_rate_limits p)
            | Some s \<Rightarrow> Inr (capped_pause s)) of
        Inl e \<Rightarrow> (Inl e, p)
      | Inr s \<Rightarrow> (Inr s, p\<lparr>lv_rate_limits := lv_rate_limits p + 1, lv_backoff_until := now + s,
          lv_last_error := Some (Msg ''rate limited, retrying'' [F s, S message])\<rparr>))"

definition note_server_error ::
  "rat \<Rightarrow> int \<Rightarrow> string \<Rightarrow> provider_live \<Rightarrow> (py_error + rat) \<times> provider_live" where
  "note_server_error now st message p =
     back_off now (p\<lparr>lv_healthy := False, lv_last_error := Some (Msg ''upstream'' [I st, S message])\<rparr>)"

definition note_auth_failure :: "int \<Rightarrow> string \<Rightarrow> string \<Rightarrow> provider_live \<Rightarrow> provider_live" where
  "note_auth_failure st key_ref message p =
     p\<lparr>lv_healthy := False, lv_auth_rejected := True,
       lv_last_error := Some (Msg ''authentication rejected'' [I st, S key_ref, S message])\<rparr>"

definition note_transport_error ::
  "rat \<Rightarrow> string \<Rightarrow> provider_live \<Rightarrow> (py_error + rat) \<times> provider_live" where
  "note_transport_error now message p =
     back_off now (p\<lparr>lv_healthy := False, lv_last_error := Some (Msg ''could not reach upstream'' [S message])\<rparr>)"

definition note_missing_key :: "string \<Rightarrow> provider_live \<Rightarrow> provider_live" where
  "note_missing_key key_ref p = p\<lparr>lv_missing_key := Some key_ref, lv_healthy := False,
     lv_last_error := Some (Msg ''api_key_ref resolves to nothing'' [S key_ref])\<rparr>"

definition clear_missing_key :: "provider_live \<Rightarrow> provider_live" where
  "clear_missing_key p = p\<lparr>lv_missing_key := None\<rparr>"

section \<open>Admission\<close>

definition rate_limited :: "rat \<Rightarrow> provider_live \<Rightarrow> bool" where
  "rate_limited now p \<longleftrightarrow> now < lv_backoff_until p"

definition retry_in :: "rat \<Rightarrow> provider_live \<Rightarrow> rat" where
  "retry_in now p = max 0 (max (lv_backoff_until p - now) (lv_failure_until p - now))"

definition spend_today :: "rat \<Rightarrow> provider_live \<Rightarrow> rat" where
  "spend_today now p = ds_usd (dget_or (lv_spend p) (utc_day now) new_day)"

definition over_budget :: "rat \<Rightarrow> provider_live \<Rightarrow> bool" where
  "over_budget now p \<longleftrightarrow> (case lv_budget p of None \<Rightarrow> False | Some b \<Rightarrow> b \<le> spend_today now p)"

definition or_else :: "msg option \<Rightarrow> string \<Rightarrow> msg" where
  "or_else m tag = (case m of Some s \<Rightarrow> s | None \<Rightarrow> Msg tag [])"

definition live_block :: "rat \<Rightarrow> provider_live \<Rightarrow> msg option" where
  "live_block now p =
     (case lv_missing_key p of
        Some r \<Rightarrow> Some (Msg ''api_key_ref is unresolved'' [S r])
      | None \<Rightarrow>
        if rate_limited now p then Some (Msg ''rate limited for another'' [F (retry_in now p)])
        else if over_budget now p then
          Some (Msg ''daily budget reached'' [F (case lv_budget p of Some b \<Rightarrow> b | None \<Rightarrow> 0), F (spend_today now p)])
        else if lv_auth_rejected p then Some (or_else (lv_last_error p) ''authentication rejected'')
        else if \<not> lv_healthy p \<and> lv_failure_until p \<le> 0 then Some (or_else (lv_last_error p) ''unhealthy'')
        else if \<not> lv_healthy p \<and> now < lv_failure_until p then Some (or_else (lv_last_error p) ''unhealthy'')
        else None)"

definition live_admitting :: "rat \<Rightarrow> provider_live \<Rightarrow> bool" where
  "live_admitting now p \<longleftrightarrow> live_block now p = None"

section \<open>Spend\<close>

definition on_day :: "rat \<Rightarrow> (day_spend \<Rightarrow> day_spend) \<Rightarrow> provider_live \<Rightarrow> provider_live" where
  "on_day now f p = p\<lparr>lv_spend := dset (utc_day now) (f (dget_or (lv_spend p) (utc_day now) new_day)) (lv_spend p)\<rparr>"

definition cost_or_zero :: "rat option \<Rightarrow> rat" where
  "cost_or_zero x = (case x of Some c \<Rightarrow> c | None \<Rightarrow> 0)"

definition record_live_usage ::
  "rat \<Rightarrow> int \<Rightarrow> int \<Rightarrow> rat option \<Rightarrow> rat option \<Rightarrow> rat option \<Rightarrow> provider_live \<Rightarrow> rat \<times> provider_live" where
  "record_live_usage now inp outp in_cost out_cost metered p =
     (let p = on_day now (\<lambda>d. d\<lparr>ds_requests := ds_requests d + 1,
                ds_input_tokens := ds_input_tokens d + max 0 inp,
                ds_output_tokens := ds_output_tokens d + max 0 outp\<rparr>) p
      in case metered of
           Some m \<Rightarrow> (let charged = max 0 m in
             (charged, on_day now (\<lambda>d. d\<lparr>ds_metered := ds_metered d + 1, ds_usd := ds_usd d + charged\<rparr>) p))
         | None \<Rightarrow>
           if in_cost = None \<and> out_cost = None
           then (0, on_day now (\<lambda>d. d\<lparr>ds_unpriced := ds_unpriced d + 1\<rparr>) p)
           else (let cost = (of_int (max 0 inp) * cost_or_zero in_cost + of_int (max 0 outp) * cost_or_zero out_cost) / 1000000
             in (cost, on_day now (\<lambda>d. d\<lparr>ds_usd := ds_usd d + cost\<rparr>) p)))"

text \<open>\<open>for key in sorted(spend)[:-keep_days]: del spend[key]\<close>; the slice up to \<open>-0\<close> is empty.\<close>

definition SPEND_KEEP_DAYS :: nat where "SPEND_KEEP_DAYS = 30"

definition prune_spend :: "nat \<Rightarrow> provider_live \<Rightarrow> provider_live" where
  "prune_spend keep p =
     (if length (lv_spend p) \<le> keep then p
      else p\<lparr>lv_spend := foldl (\<lambda>d k. dpop k d) (lv_spend p)
               (if keep = 0 then [] else take (length (lv_spend p) - keep) (sort (dkeys (lv_spend p))))\<rparr>)"

end
