(* ===== verification/Redaction.thy ===== *)
theory Redaction
  imports Prelude "HOL-Library.Sublist"
begin

text \<open>
  Key material, recognised and scrubbed: \<open>control_plane/redaction.py\<close>. A pattern is a matcher that, given
  the character before a position, says how many characters it takes there; every pattern of the source
  is a literal prefix at a word boundary and a greedy run, so it has no second way to match. Text is
  ASCII. The set of remembered values is a list, in the order the set would be walked; what a logging
  filter does around \<open>scrub\<close> is plumbing.
\<close>

section \<open>Patterns\<close>

definition REDACTED :: string where "REDACTED = ''***''"

type_synonym matcher = "char option \<Rightarrow> string \<Rightarrow> nat option"

definition key_char :: "char \<Rightarrow> bool" where
  "key_char c \<longleftrightarrow> is_alnum c \<or> c = CHR ''_'' \<or> c = CHR ''-''"

definition token_char :: "char \<Rightarrow> bool" where
  "token_char c \<longleftrightarrow> key_char c \<or> c = CHR ''.''"

definition word_char :: "char \<Rightarrow> bool" where
  "word_char c \<longleftrightarrow> is_alnum c \<or> c = CHR ''_''"

text \<open>A boundary before a word character.\<close>

definition starts_word :: "char option \<Rightarrow> bool" where
  "starts_word prev \<longleftrightarrow> (case prev of None \<Rightarrow> True | Some c \<Rightarrow> \<not> word_char c)"

definition run_of :: "(char \<Rightarrow> bool) \<Rightarrow> nat \<Rightarrow> string \<Rightarrow> nat option" where
  "run_of P k s = (let n = length (takeWhile P s) in if k \<le> n then Some n else None)"

definition prefixed :: "string \<Rightarrow> (char \<Rightarrow> bool) \<Rightarrow> nat \<Rightarrow> matcher" where
  "prefixed p P k prev s =
     (if starts_word prev \<and> starts_with p s then map_option ((+) (length p)) (run_of P k (drop (length p) s)) else None)"

text \<open>How many characters a pattern without boundary takes at the front.\<close>

definition skip :: "(char \<Rightarrow> bool) \<Rightarrow> string \<Rightarrow> nat" where
  "skip P s = length (takeWhile P s)"

definition at_most_one :: "(char \<Rightarrow> bool) \<Rightarrow> string \<Rightarrow> nat" where
  "at_most_one P s = (case s of [] \<Rightarrow> 0 | c # _ \<Rightarrow> if P c then 1 else 0)"

definition bearer :: matcher where
  "bearer prev s =
     (if starts_word prev \<and> str_lower (take 6 s) = ''bearer'' \<and> skip is_space (drop 6 s) > 0
      then let n = 6 + skip is_space (drop 6 s) in map_option ((+) n) (run_of token_char 20 (drop n s))
      else None)"

text \<open>The two names a field with a key goes by.\<close>

definition two_words :: "string \<Rightarrow> string \<Rightarrow> string \<Rightarrow> nat option" where
  "two_words a b s =
     (if str_lower (take (length a) s) = a
      then let n = length a + at_most_one (\<lambda>c. c = CHR ''-'' \<or> c = CHR ''_'') (drop (length a) s)
           in if str_lower (take (length b) (drop n s)) = b then Some (n + length b) else None
      else None)"

definition key_field :: matcher where
  "key_field prev s =
     (if \<not> starts_word prev then None
      else case (case two_words ''api'' ''key'' s of Some n \<Rightarrow> Some n | None \<Rightarrow> two_words ''access'' ''token'' s) of
          None \<Rightarrow> None
        | Some n \<Rightarrow>
          let n = n + skip is_space (drop n s) in
          if at_most_one (\<lambda>c. c = CHR ''='' \<or> c = CHR '':'') (drop n s) = 0 then None
          else let n = n + 1; n = n + skip is_space (drop n s);
                   n = n + at_most_one (\<lambda>c. c = CHR 0x22 \<or> c = CHR 0x27) (drop n s)
               in map_option ((+) n) (run_of token_char 20 (drop n s)))"

definition KEY_PATTERNS :: "matcher list" where
  "KEY_PATTERNS =
     [prefixed ''sk-or-v1-'' key_char 16, prefixed ''sk-ant-'' key_char 16, prefixed ''sk-proj-'' key_char 16,
      prefixed ''sk-'' key_char 20, prefixed ''gsk_'' key_char 20, prefixed ''hf_'' is_alnum 20,
      prefixed ''AIza'' key_char 20, bearer, key_field]"

section \<open>Searching and replacing\<close>

definition taken :: "matcher \<Rightarrow> char option \<Rightarrow> string \<Rightarrow> nat" where
  "taken m prev s = (case m prev s of None \<Rightarrow> 0 | Some n \<Rightarrow> n)"

function sub_all :: "matcher \<Rightarrow> char option \<Rightarrow> string \<Rightarrow> string" where
  "sub_all m prev [] = []"
| "sub_all m prev (c # s) =
     (let n = taken m prev (c # s) in
      if n = 0 then c # sub_all m (Some c) s
      else REDACTED @ sub_all m (Some (last (take n (c # s)))) (drop n (c # s)))"
  by pat_completeness auto
termination by (relation "measure (\<lambda>(m, prev, s). length s)") auto

fun found :: "matcher \<Rightarrow> char option \<Rightarrow> string \<Rightarrow> bool" where
  "found m prev [] \<longleftrightarrow> False"
| "found m prev (c # s) \<longleftrightarrow> m prev (c # s) \<noteq> None \<or> found m (Some c) s"

definition literal :: "string \<Rightarrow> matcher" where
  "literal v prev s = (if starts_with v s then Some (length v) else None)"

definition has_known_key_shape :: "string \<Rightarrow> bool" where
  "has_known_key_shape v \<longleftrightarrow> v \<noteq> [] \<and> list_ex (\<lambda>p. found p None v) KEY_PATTERNS"

definition long_run :: matcher where
  "long_run prev s = run_of key_char 32 s"

definition code_in :: "nat \<Rightarrow> nat \<Rightarrow> char \<Rightarrow> bool" where
  "code_in a b c \<longleftrightarrow> a \<le> of_char c \<and> of_char c \<le> b"

definition looks_like_secret :: "string \<Rightarrow> bool" where
  "looks_like_secret v \<longleftrightarrow>
     (if v = [] then False
      else if list_ex (\<lambda>p. found p None v) KEY_PATTERNS then True
      else found long_run None v \<and> list_ex (code_in 48 57) v \<and> list_ex (code_in 97 122) v
        \<and> list_ex (\<lambda>c. code_in 65 90 c \<or> code_in 48 57 c) v)"

section \<open>The redactor\<close>

definition MIN_SCRUB_LEN :: nat where "MIN_SCRUB_LEN = 8"

type_synonym redactor = "string list"

definition remember :: "string option \<Rightarrow> redactor \<Rightarrow> redactor" where
  "remember v rd = (case v of
     None \<Rightarrow> rd
   | Some s \<Rightarrow> if s \<noteq> [] \<and> MIN_SCRUB_LEN \<le> length s then List.insert s rd else rd)"

definition longest_first :: "string list \<Rightarrow> string list" where
  "longest_first vs = sort_key (\<lambda>v. - int (length v)) vs"

definition scrub :: "redactor \<Rightarrow> string \<Rightarrow> string" where
  "scrub rd text =
     (if text = [] then text
      else
        let text = foldl (\<lambda>text v. if str_contains v text then sub_all (literal v) None text else text) text (longest_first rd)
        in foldl (\<lambda>text p. sub_all p None text) text KEY_PATTERNS)"

definition contains_secret :: "redactor \<Rightarrow> string \<Rightarrow> bool" where
  "contains_secret rd text \<longleftrightarrow> list_ex (\<lambda>v. str_contains v text) rd"

datatype secrets_error = SecretsError

definition assert_clean :: "redactor \<Rightarrow> string \<Rightarrow> secrets_error + unit" where
  "assert_clean rd text = (if contains_secret rd text then Inl SecretsError else Inr ())"

section \<open>What is remembered does not come out\<close>

lemma starts_with_prefix: "starts_with p s \<longleftrightarrow> prefix p s"
  by (induction p s rule: starts_with.induct) auto

lemma str_contains_sublist: "str_contains v s \<longleftrightarrow> sublist v s"
proof (induction v s rule: str_contains.induct)
  case (1 sub)
  show ?case by (cases sub) auto
next
  case (2 sub c cs)
  then show ?case by (simp add: starts_with_prefix sublist_Cons_right)
qed

text \<open>A string without a star that stands in a replaced text stands in the text.\<close>

lemma prefix_sub_all:
  "CHR ''*'' \<notin> set u \<Longrightarrow> prefix u (sub_all m prev s) \<Longrightarrow> prefix u s"
proof (induction m prev s arbitrary: u rule: sub_all.induct)
  case (2 m prev c s)
  show ?case
  proof (cases "u = [] \<or> taken m prev (c # s) = 0")
    case True
    then show ?thesis using 2 by (cases u) auto
  next
    case False
    then show ?thesis using 2(3,4) by (cases u) (auto simp: REDACTED_def Let_def)
  qed
qed simp

lemma sublist_stars:
  assumes "CHR ''*'' \<notin> set v" and "v \<noteq> []" and "sublist v (REDACTED @ t)"
  shows "sublist v t"
proof -
  have "x = []" if "set x \<subseteq> {CHR ''*''}" "set x \<subseteq> set v" for x using that assms(1) by (cases x) auto
  moreover have "set x \<subseteq> {CHR ''*''}" if "sublist x REDACTED" for x
    using set_mono_sublist [OF that] by (simp add: REDACTED_def)
  ultimately show ?thesis using assms unfolding sublist_append
    by (metis append_Nil order_refl prefix_imp_sublist set_append suffix_imp_sublist sup_ge1)
qed

text \<open>So replacing makes no such string appear, and replacing all of one leaves none.\<close>

lemma sublist_sub_all:
  "CHR ''*'' \<notin> set v \<Longrightarrow> v \<noteq> [] \<Longrightarrow> sublist v (sub_all m prev s) \<Longrightarrow> sublist v s"
proof (induction m prev s rule: sub_all.induct)
  case (2 m prev c s)
  let ?n = "taken m prev (c # s)"
  show ?case
  proof (cases "?n = 0")
    case True
    then have step: "sub_all m prev (c # s) = c # sub_all m (Some c) s" by simp
    have "prefix v (sub_all m prev (c # s)) \<or> sublist v (sub_all m (Some c) s)"
      using 2(5) unfolding step sublist_Cons_right .
    then have "prefix v (c # s) \<or> sublist v s"
      using prefix_sub_all [OF 2(3)] 2(1) [OF refl True 2(3,4)] by blast
    then show ?thesis unfolding sublist_Cons_right .
  next
    case False
    then have step: "sub_all m prev (c # s) = REDACTED @ sub_all m (Some (last (take ?n (c # s)))) (drop ?n (c # s))"
      by (simp add: Let_def)
    have "sublist v (drop ?n (c # s))"
      using 2(2) [OF refl False 2(3,4)] sublist_stars [OF 2(3,4) 2(5) [unfolded step]] by blast
    then show ?thesis by (meson sublist_drop sublist_order.order_trans)
  qed
qed simp

lemma literal_gone:
  "CHR ''*'' \<notin> set v \<Longrightarrow> v \<noteq> [] \<Longrightarrow> \<not> sublist v (sub_all (literal v) prev s)"
proof (induction "literal v" prev s rule: sub_all.induct)
  case (2 prev c s)
  let ?n = "taken (literal v) prev (c # s)"
  show ?case
  proof (cases "?n = 0")
    case True
    then have "\<not> prefix v (c # s)" using 2(4) by (simp add: taken_def literal_def starts_with_prefix split: if_splits)
    then have "\<not> prefix v (sub_all (literal v) prev (c # s))" using prefix_sub_all 2(3) by blast
    moreover have step: "sub_all (literal v) prev (c # s) = c # sub_all (literal v) (Some c) s" using True by simp
    ultimately show ?thesis using 2(1) [OF refl True 2(3,4)] unfolding step sublist_Cons_right by blast
  next
    case False
    then have step: "sub_all (literal v) prev (c # s)
        = REDACTED @ sub_all (literal v) (Some (last (take ?n (c # s)))) (drop ?n (c # s))" by (simp add: Let_def)
    show ?thesis unfolding step using 2(2) [OF refl False 2(3,4)] sublist_stars [OF 2(3,4)] by blast
  qed
qed simp

lemma patterns_keep: "CHR ''*'' \<notin> set v \<Longrightarrow> v \<noteq> [] \<Longrightarrow> sublist v (foldl (\<lambda>t p. sub_all p None t) t ps) \<Longrightarrow> sublist v t"
  by (induction ps arbitrary: t) (auto dest: sublist_sub_all)

abbreviation scrub_values :: "string list \<Rightarrow> string \<Rightarrow> string" where
  "scrub_values vs t \<equiv> foldl (\<lambda>t v. if str_contains v t then sub_all (literal v) None t else t) t vs"

lemma values_keep: "CHR ''*'' \<notin> set v \<Longrightarrow> v \<noteq> [] \<Longrightarrow> sublist v (scrub_values vs t) \<Longrightarrow> sublist v t"
  by (induction vs arbitrary: t) (auto split: if_splits dest: sublist_sub_all)

lemma values_gone:
  "CHR ''*'' \<notin> set v \<Longrightarrow> v \<noteq> [] \<Longrightarrow> v \<in> set vs \<Longrightarrow> \<not> sublist v (scrub_values vs t)"
proof (induction vs arbitrary: t)
  case (Cons w vs)
  have "v = w \<Longrightarrow> \<not> sublist v (if str_contains w t then sub_all (literal w) None t else t)"
    using literal_gone [OF Cons.prems(1,2)] by (simp add: str_contains_sublist)
  then have "v = w \<Longrightarrow> \<not> sublist v (scrub_values vs (if str_contains w t then sub_all (literal w) None t else t))"
    using values_keep [OF Cons.prems(1,2)] by blast
  then have "v = w \<Longrightarrow> \<not> sublist v (scrub_values (w # vs) t)" by simp
  moreover have "v \<in> set vs \<Longrightarrow> \<not> sublist v (scrub_values (w # vs) t)"
    using Cons.IH [OF Cons.prems(1,2)] by simp
  ultimately show ?case using Cons.prems(3) by auto
qed simp

lemma scrub_hides:
  assumes "k \<in> set rd" and k: "CHR ''*'' \<notin> set k" "k \<noteq> []"
  shows "\<not> str_contains k (scrub rd text)"
proof (cases "text = []")
  case False
  then show ?thesis
    using patterns_keep [OF k] values_gone [OF k, of "longest_first rd"] assms(1)
    by (auto simp: scrub_def str_contains_sublist longest_first_def Let_def)
next
  case True
  then show ?thesis using k by (simp add: scrub_def str_contains_sublist)
qed

text \<open>C34: a key the process holds does not leave it in a scrubbed text. Whatever was remembered, in whatever
  order, no remembered value of scrubbing length that holds no star, the character the scrubber writes, stands
  anywhere in a scrubbed text; and when none of the values long enough to be scrubbed holds a star, the check
  before a text is emitted passes. A value with a star can survive: see below.\<close>

theorem remembered_keys_are_hidden:
  "(\<forall>k \<in> set keys. MIN_SCRUB_LEN \<le> length k \<longrightarrow> CHR ''*'' \<notin> set k
       \<longrightarrow> \<not> str_contains k (scrub (foldl (\<lambda>rd k. remember (Some k) rd) [] keys) text))
   \<and> ((\<forall>k \<in> set keys. MIN_SCRUB_LEN \<le> length k \<longrightarrow> CHR ''*'' \<notin> set k)
       \<longrightarrow> assert_clean (foldl (\<lambda>rd k. remember (Some k) rd) [] keys)
             (scrub (foldl (\<lambda>rd k. remember (Some k) rd) [] keys) text) = Inr ())"
proof -
  have held: "set (foldl (\<lambda>rd k. remember (Some k) rd) rd keys) = set rd \<union> {k \<in> set keys. MIN_SCRUB_LEN \<le> length k}" for rd
    by (induction keys arbitrary: rd) (auto simp: remember_def MIN_SCRUB_LEN_def)
  let ?rd = "foldl (\<lambda>rd k. remember (Some k) rd) [] keys"
  have "\<not> str_contains k (scrub ?rd text)" if "k \<in> set ?rd" "CHR ''*'' \<notin> set k" for k
    by (rule scrub_hides [OF that]) (use that in \<open>auto simp: held MIN_SCRUB_LEN_def\<close>)
  then show ?thesis by (auto simp: assert_clean_def contains_secret_def list_ex_iff held)
qed

theorem remembered_keys_are_hidden_witness:
  "\<not> str_contains ''abcdefgh'' (scrub (foldl (\<lambda>rd k. remember (Some k) rd) [] [''abcdefgh'', ''ab*cdefgh'']) ''bad key abcdefgh'')
   \<and> assert_clean (foldl (\<lambda>rd k. remember (Some k) rd) [] [''abcdefgh'', ''*'']) (scrub (foldl (\<lambda>rd k. remember (Some k) rd) []
       [''abcdefgh'', ''*'']) ''bad key abcdefgh'') = Inr ()"
  using remembered_keys_are_hidden [of "[''abcdefgh'', ''ab*cdefgh'']" "''bad key abcdefgh''"]
    remembered_keys_are_hidden [of "[''abcdefgh'', ''*'']" "''bad key abcdefgh''"] by (simp add: MIN_SCRUB_LEN_def)

text \<open>A value that holds a star can be put together by the scrubber itself.\<close>

lemma starred_value_survives:
  "contains_secret [''ab***cdefgh'', ''01234567''] (scrub [''ab***cdefgh'', ''01234567''] ''ab01234567cdefgh'')"
  by code_simp

end
