(* ===== verification/Provider_Catalog.thy ===== *)
theory Provider_Catalog
  imports Contracts Json Redaction
begin

text \<open>
  What is known of a provider before it is asked (\<open>control_plane/providers/kinds.py\<close>), and the model list it
  answers with made into records (\<open>control_plane/providers/discovery.py\<close>): ids, context, tools, streaming,
  prices per million tokens and the endpoint a name hints at. Names are ASCII.
\<close>

section \<open>Kinds\<close>

datatype auth_style = Auth_bearer | Auth_x_api_key | Auth_none
datatype pricing_unit = No_pricing | Per_token_usd | Per_mtok_usd

record kind_spec =
  ks_kind :: provider_kind
  ks_display_name :: string
  ks_base_url :: string
  ks_models_path :: string
  ks_auth :: auth_style
  ks_pricing :: pricing_unit
  ks_extra_headers :: "(string, string) dict"
  ks_pull_path :: string
  ks_requires_key :: bool
  ks_requires_base_url :: bool
  ks_stream_usage :: bool
  ks_meters_cost :: bool
  ks_forwardable :: bool
  ks_unsupported :: string
  ks_backend_routing :: bool

definition plain_spec :: "provider_kind \<Rightarrow> string \<Rightarrow> string \<Rightarrow> auth_style \<Rightarrow> pricing_unit \<Rightarrow> kind_spec" where
  "plain_spec k shown url auth pricing = \<lparr>ks_kind = k, ks_display_name = shown, ks_base_url = url,
     ks_models_path = ''models'', ks_auth = auth, ks_pricing = pricing, ks_extra_headers = [], ks_pull_path = [],
     ks_requires_key = True, ks_requires_base_url = False, ks_stream_usage = True, ks_meters_cost = False,
     ks_forwardable = True, ks_unsupported = [], ks_backend_routing = False\<rparr>"

fun spec_for :: "provider_kind \<Rightarrow> kind_spec" where
  "spec_for OPENROUTER = (plain_spec OPENROUTER ''OpenRouter'' ''https://openrouter.ai/api/v1'' Auth_bearer Per_token_usd)
     \<lparr>ks_meters_cost := True, ks_backend_routing := True\<rparr>"
| "spec_for OPENAI = plain_spec OPENAI ''OpenAI'' ''https://api.openai.com/v1'' Auth_bearer No_pricing"
| "spec_for ANTHROPIC = (plain_spec ANTHROPIC ''Anthropic'' ''https://api.anthropic.com/v1'' Auth_x_api_key No_pricing)
     \<lparr>ks_extra_headers := [(''anthropic-version'', ''2023-06-01'')], ks_stream_usage := False, ks_forwardable := False,
      ks_unsupported := ''the Anthropic Messages API is not OpenAI-compatible and this build '' @
        ''has no adapter for it; add Anthropic models through an OpenRouter '' @ ''provider instead''\<rparr>"
| "spec_for TOGETHER = plain_spec TOGETHER ''Together AI'' ''https://api.together.xyz/v1'' Auth_bearer Per_mtok_usd"
| "spec_for GROQ = plain_spec GROQ ''Groq'' ''https://api.groq.com/openai/v1'' Auth_bearer No_pricing"
| "spec_for OLLAMA = (plain_spec OLLAMA ''Ollama'' ''http://localhost:11434/v1'' Auth_none No_pricing)
     \<lparr>ks_requires_key := False, ks_stream_usage := False, ks_pull_path := ''api/pull''\<rparr>"
| "spec_for CUSTOM = (plain_spec CUSTOM ''Custom'' [] Auth_bearer No_pricing)
     \<lparr>ks_requires_key := False, ks_requires_base_url := True, ks_stream_usage := False\<rparr>"

definition auth_headers :: "kind_spec \<Rightarrow> string option \<Rightarrow> (string, string) dict" where
  "auth_headers spec key =
     (case key of
        None \<Rightarrow> ks_extra_headers spec
      | Some k \<Rightarrow> if k = [] then ks_extra_headers spec
          else (case ks_auth spec of
             Auth_bearer \<Rightarrow> dset ''Authorization'' (''Bearer '' @ k) (ks_extra_headers spec)
           | Auth_x_api_key \<Rightarrow> dset ''x-api-key'' k (ks_extra_headers spec)
           | Auth_none \<Rightarrow> ks_extra_headers spec))"

definition strip_right :: "char \<Rightarrow> string \<Rightarrow> string" where
  "strip_right c s = rev (dropWhile (\<lambda>d. d = c) (rev s))"

definition strip_left :: "char \<Rightarrow> string \<Rightarrow> string" where
  "strip_left c s = dropWhile (\<lambda>d. d = c) s"

definition join_url :: "string \<Rightarrow> string \<Rightarrow> string" where
  "join_url base path = strip_right (CHR ''/'') base @ ''/'' @ strip_left (CHR ''/'') path"

definition ends_in :: "string \<Rightarrow> string \<Rightarrow> bool" where
  "ends_in suf s \<longleftrightarrow> length suf \<le> length s \<and> drop (length s - length suf) s = suf"

definition native_base :: "string \<Rightarrow> string" where
  "native_base url = (let t = strip_right (CHR ''/'') url in if ends_in ''/v1'' t then take (length t - 3) t else t)"

section \<open>What a name hints at\<close>

definition one_of :: "string list \<Rightarrow> matcher" where
  "one_of ws prev s = (case find (\<lambda>w. starts_with w s) ws of None \<Rightarrow> None | Some w \<Rightarrow> Some (length w))"

text \<open>A whole word, and words joined by at most one dash or underscore.\<close>

definition whole_word :: "string \<Rightarrow> matcher" where
  "whole_word w prev s =
     (if starts_word prev \<and> starts_with w s \<and> (case drop (length w) s of [] \<Rightarrow> True | c # _ \<Rightarrow> \<not> word_char c)
      then Some (length w) else None)"

fun joined :: "string list \<Rightarrow> matcher" where
  "joined [] prev s = Some 0"
| "joined [w] prev s = (if starts_with w s then Some (length w) else None)"
| "joined (w # ws) prev s =
     (if starts_with w s
      then let n = length w + at_most_one (\<lambda>c. c = CHR ''-'' \<or> c = CHR ''_'') (drop (length w) s)
           in map_option ((+) n) (joined ws None (drop n s))
      else None)"

definition MODALITY_PATTERNS :: "(matcher list \<times> modality option) list" where
  "MODALITY_PATTERNS =
     [([one_of [''whisper'', ''transcrib''], joined [''speech'', ''to'', ''text''], whole_word ''stt'', whole_word ''asr''],
       Some TRANSCRIPTION),
      ([whole_word ''tts'', joined [''text'', ''to'', ''speech''], whole_word ''voice'', one_of [''speech'']], Some SPEECH),
      ([one_of [''embed'', ''embedding'']], Some EMBEDDING),
      ([one_of [''rerank'', ''moderation'', ''dall-e'', ''stable-diffusion'', ''flux'']], None)]"

definition hinted :: "string \<Rightarrow> matcher list \<times> modality option \<Rightarrow> bool" where
  "hinted uid p \<longleftrightarrow> list_ex (\<lambda>m. found m None (str_lower uid)) (fst p)"

definition modality_of_id :: "string \<Rightarrow> modality" where
  "modality_of_id uid =
     (case find (hinted uid) MODALITY_PATTERNS of Some (_, Some m) \<Rightarrow> m | _ \<Rightarrow> TEXT)"

definition streamable :: "string \<Rightarrow> bool" where
  "streamable uid \<longleftrightarrow> \<not> list_ex (hinted uid) MODALITY_PATTERNS"

section \<open>One entry\<close>

fun objects :: "json list \<Rightarrow> json_object list" where
  "objects [] = []"
| "objects (JObj d # js) = d # objects js"
| "objects (_ # js) = objects js"

fun first_list :: "json_object \<Rightarrow> string list \<Rightarrow> json list" where
  "first_list d [] = []"
| "first_list d (k # ks) = (case dget d k of Some (JList xs) \<Rightarrow> xs | _ \<Rightarrow> first_list d ks)"

fun catalog_entries :: "json \<Rightarrow> json_object list" where
  "catalog_entries (JList xs) = objects xs"
| "catalog_entries (JObj d) = objects (first_list d [''data'', ''models'', ''results''])"
| "catalog_entries _ = []"

fun recognized_envelope :: "json \<Rightarrow> bool" where
  "recognized_envelope (JList xs) = True"
| "recognized_envelope (JObj d) = list_ex (\<lambda>k. dget d k \<noteq> None) [''data'', ''models'', ''results'']"
| "recognized_envelope _ = False"

fun first_of :: "(json \<Rightarrow> 'a option) \<Rightarrow> json_object \<Rightarrow> string list \<Rightarrow> 'a option" where
  "first_of f d [] = None"
| "first_of f d (k # ks) =
     (case (case dget d k of Some j \<Rightarrow> f j | None \<Rightarrow> None) of Some x \<Rightarrow> Some x | None \<Rightarrow> first_of f d ks)"

fun named :: "json \<Rightarrow> string option" where
  "named (JStr s) = (if str_strip s = [] then None else Some (str_strip s))"
| "named _ = None"

definition upstream_id_of :: "json_object \<Rightarrow> string option" where
  "upstream_id_of e = first_of named e [''id'', ''model'', ''name'', ''model_name'']"

text \<open>A number above zero, as an integer; Python counts \<open>True\<close> among the numbers.\<close>

fun positive :: "json \<Rightarrow> int option" where
  "positive (JInt n) = (if n > 0 then Some n else None)"
| "positive (JNum x) = (if x > 0 then Some (py_int x) else None)"
| "positive (JBool b) = (if b then Some 1 else None)"
| "positive _ = None"

definition CONTEXT_UNKNOWN :: int where "CONTEXT_UNKNOWN = 0"

definition catalog_context :: "json_object \<Rightarrow> int" where
  "catalog_context e =
     (case first_of positive e [''context_length'', ''context_window'', ''max_context_length'', ''context''] of
        Some n \<Rightarrow> n
      | None \<Rightarrow>
        (case (case dget e ''top_provider'' of Some (JObj t) \<Rightarrow> first_of positive t [''context_length''] | _ \<Rightarrow> None) of
           Some n \<Rightarrow> n
         | None \<Rightarrow>
           (case dget e ''config'' of
              Some (JObj c) \<Rightarrow>
                (let v = (let v = dget_or c ''context_length'' JNull in
                            if truth_of v then v else dget_or c ''max_position_embeddings'' JNull)
                 in case positive v of Some n \<Rightarrow> n | None \<Rightarrow> CONTEXT_UNKNOWN)
            | _ \<Rightarrow> CONTEXT_UNKNOWN)))"

fun bool_of :: "json \<Rightarrow> bool option" where
  "bool_of (JBool b) = Some b"
| "bool_of _ = None"

definition says_one_of :: "py_text \<Rightarrow> string list \<Rightarrow> json list \<Rightarrow> bool" where
  "says_one_of py ws xs \<longleftrightarrow> list_ex (\<lambda>j. str_lower (str_of py j) \<in> set ws) xs"

definition supports_tools_of :: "py_text \<Rightarrow> json_object \<Rightarrow> bool" where
  "supports_tools_of py e =
     (case dget e ''supported_parameters'' of
        Some (JList ps) \<Rightarrow> says_one_of py [''tools'', ''tool_choice'', ''functions''] ps
      | _ \<Rightarrow>
        (case first_of bool_of e [''supports_tools'', ''supports_function_calling'', ''tool_use''] of
           Some b \<Rightarrow> b
         | None \<Rightarrow>
           (case dget e ''capabilities'' of
              Some (JObj c) \<Rightarrow> (case first_of bool_of c [''tools'', ''function_calling'', ''tool_use''] of Some b \<Rightarrow> b | None \<Rightarrow> False)
            | Some (JList cs) \<Rightarrow> says_one_of py [''tools'', ''function_calling'', ''tool_use''] cs
            | _ \<Rightarrow> False)))"

definition supports_streaming_of :: "json_object \<Rightarrow> string \<Rightarrow> bool" where
  "supports_streaming_of e uid =
     (case dget e ''supports_streaming'' of Some (JBool b) \<Rightarrow> b | _ \<Rightarrow> streamable uid)"

fun as_float :: "py_text \<Rightarrow> json \<Rightarrow> rat option" where
  "as_float py (JInt n) = Some (of_int n)"
| "as_float py (JNum x) = Some x"
| "as_float py (JStr s) = (if str_strip s = [] then None else read_float py (str_strip s))"
| "as_float py _ = None"

definition price :: "py_text \<Rightarrow> json \<Rightarrow> rat option" where
  "price py j = (case as_float py j of Some x \<Rightarrow> if 0 \<le> x then Some x else None | None \<Rightarrow> None)"

definition scale_of :: "pricing_unit \<Rightarrow> rat" where
  "scale_of u = (if u = Per_token_usd then 1000000 else 1)"

definition pricing_of :: "py_text \<Rightarrow> json_object \<Rightarrow> pricing_unit \<Rightarrow> rat option \<times> rat option" where
  "pricing_of py e u =
     (if u = No_pricing then (None, None)
      else case dget e ''pricing'' of
          Some (JObj p) \<Rightarrow>
            (map_option (\<lambda>x. x * scale_of u) (first_of (price py) p [''prompt'', ''input'', ''input_tokens'']),
             map_option (\<lambda>x. x * scale_of u) (first_of (price py) p [''completion'', ''output'', ''output_tokens'']))
        | _ \<Rightarrow> (None, None))"

section \<open>The catalogue\<close>

definition model_of_entry :: "py_text \<Rightarrow> kind_spec \<Rightarrow> (string, string) dict \<Rightarrow> string \<Rightarrow> json_object \<Rightarrow> provider_model" where
  "model_of_entry py spec aliases uid e =
     (let (inp, outp) = pricing_of py e (ks_pricing spec)
      in \<lparr>pm_served_name = dget_or aliases uid uid, upstream_id = uid, pm_context_length = catalog_context e,
          supports_streaming = supports_streaming_of e uid, supports_tools = supports_tools_of py e,
          input_cost_per_mtok = inp, output_cost_per_mtok = outp, pm_modality = modality_of_id uid\<rparr>)"

fun collect_models ::
  "py_text \<Rightarrow> kind_spec \<Rightarrow> (string, string) dict \<Rightarrow> string list \<Rightarrow> json_object list \<Rightarrow> provider_model list" where
  "collect_models py spec aliases seen [] = []"
| "collect_models py spec aliases seen (e # es) =
     (case upstream_id_of e of
        None \<Rightarrow> collect_models py spec aliases seen es
      | Some uid \<Rightarrow>
        if uid \<in> set seen then collect_models py spec aliases seen es
        else model_of_entry py spec aliases uid e # collect_models py spec aliases (uid # seen) es)"

definition parse_models :: "py_text \<Rightarrow> json \<Rightarrow> kind_spec \<Rightarrow> (string, string) dict \<Rightarrow> provider_model list" where
  "parse_models py j spec aliases = sort_key pm_served_name (collect_models py spec aliases [] (catalog_entries j))"

section \<open>The backends behind one model\<close>

definition endpoint_entries :: "json \<Rightarrow> json_object list" where
  "endpoint_entries j =
     (case j of
        JObj d \<Rightarrow>
          (case (case dget d ''data'' of Some (JObj data) \<Rightarrow> dget data ''endpoints'' | _ \<Rightarrow> None) of
             Some (JList xs) \<Rightarrow> objects xs
           | _ \<Rightarrow> (case dget d ''endpoints'' of Some (JList xs) \<Rightarrow> objects xs | _ \<Rightarrow> []))
      | _ \<Rightarrow> [])"

record backend_row =
  bk_tag :: string
  bk_name :: string
  bk_context :: "int option"
  bk_in_cost :: "rat option"
  bk_out_cost :: "rat option"
  bk_quantization :: "string option"

definition backend_of :: "py_text \<Rightarrow> json_object \<Rightarrow> backend_row option" where
  "backend_of py e =
     (case dget e ''tag'' of
        Some (JStr tag) \<Rightarrow>
          if str_strip tag = [] then None
          else let (inp, outp) = pricing_of py e Per_token_usd; shown = dget_or e ''provider_name'' JNull in
            Some \<lparr>bk_tag = tag, bk_name = (if truth_of shown then str_of py shown else tag),
              bk_context = (let n = catalog_context e in if n = 0 then None else Some n),
              bk_in_cost = inp, bk_out_cost = outp,
              bk_quantization = (case dget e ''quantization'' of Some (JStr q) \<Rightarrow> Some q | _ \<Rightarrow> None)\<rparr>
      | _ \<Rightarrow> None)"

definition parse_endpoints :: "py_text \<Rightarrow> json \<Rightarrow> backend_row list" where
  "parse_endpoints py j = List.map_filter (backend_of py) (endpoint_entries j)"

section \<open>What a catalogue holds\<close>

lemma collected_ids:
  "set (map upstream_id (collect_models py spec al seen es)) = {uid. \<exists>e \<in> set es. upstream_id_of e = Some uid} - set seen
   \<and> distinct (map upstream_id (collect_models py spec al seen es))"
proof (induction es arbitrary: seen)
  case (Cons e es)
  show ?case
  proof (cases "upstream_id_of e")
    case None
    then show ?thesis using Cons.IH by auto
  next
    case (Some uid)
    then show ?thesis using Cons.IH [of seen] Cons.IH [of "uid # seen"]
      by (auto simp: model_of_entry_def split: prod.split)
  qed
qed simp

lemma first_of_in: "first_of f d ks = Some x \<Longrightarrow> \<exists>k \<in> set ks. \<exists>j. dget d k = Some j \<and> f j = Some x"
  by (induction ks) (auto split: option.splits)

lemma price_nonneg: "first_of (price py) p ks = Some x \<Longrightarrow> 0 \<le> x"
  by (induction ks) (auto simp: price_def split: option.splits if_splits)

lemma scale_pos [simp]: "0 < scale_of u"
  by (simp add: scale_of_def)

lemma pricing_nonneg:
  assumes "pricing_of py e u = (inp, outp)"
  shows "(\<forall>x. inp = Some x \<longrightarrow> 0 \<le> x) \<and> (\<forall>y. outp = Some y \<longrightarrow> 0 \<le> y) \<and> (u = No_pricing \<longrightarrow> inp = None \<and> outp = None)"
proof -
  consider "inp = None" "outp = None" | p where "u \<noteq> No_pricing" "dget e ''pricing'' = Some (JObj p)"
      "inp = map_option (\<lambda>x. x * scale_of u) (first_of (price py) p [''prompt'', ''input'', ''input_tokens''])"
      "outp = map_option (\<lambda>x. x * scale_of u) (first_of (price py) p [''completion'', ''output'', ''output_tokens''])"
    using assms unfolding pricing_of_def by (cases "dget e ''pricing''"; cases "the (dget e ''pricing'')") (simp_all split: if_splits)
  then show ?thesis
  proof cases
    case 2
    have "0 \<le> x" if some: "map_option (\<lambda>x. x * scale_of u) (first_of (price py) p ks) = Some x" for x ks
    proof -
      obtain r where r: "first_of (price py) p ks = Some r" "x = r * scale_of u"
        using some by (cases "first_of (price py) p ks") auto
      then show ?thesis using price_nonneg [OF r(1)] less_imp_le [OF scale_pos [of u]] by simp
    qed
    then show ?thesis unfolding 2(3,4) using 2(1) by blast
  qed simp
qed

lemma collected_models:
  "m \<in> set (collect_models py spec al seen es) \<Longrightarrow>
     \<exists>e \<in> set es. upstream_id_of e = Some (upstream_id m) \<and> m = model_of_entry py spec al (upstream_id m) e"
proof (induction es arbitrary: seen)
  case (Cons e es)
  show ?case
  proof (cases "upstream_id_of e")
    case None
    then show ?thesis using Cons by simp
  next
    case (Some uid)
    have "upstream_id (model_of_entry py spec al uid e) = uid" by (simp add: model_of_entry_def split: prod.split)
    then show ?thesis using Some Cons.IH Cons.prems by (cases "uid \<in> set seen") auto
  qed
qed simp

text \<open>C31: a catalogue is what the upstream published and nothing more: the models are those whose ids its entries
  name, each once, in the order of their served names; a price is there only where the kind publishes prices,
  is never negative, and is the entry's own.\<close>

theorem catalogue_is_what_was_published:
  "set (map upstream_id (parse_models py j spec al)) = {uid. \<exists>e. e \<in> set (catalog_entries j) \<and> upstream_id_of e = Some uid}
   \<and> distinct (map upstream_id (parse_models py j spec al)) \<and> sorted (map pm_served_name (parse_models py j spec al))
   \<and> (\<forall>m \<in> set (parse_models py j spec al).
        (\<exists>e \<in> set (catalog_entries j). upstream_id_of e = Some (upstream_id m)
           \<and> (input_cost_per_mtok m, output_cost_per_mtok m) = pricing_of py e (ks_pricing spec))
        \<and> (\<forall>x. input_cost_per_mtok m = Some x \<or> output_cost_per_mtok m = Some x \<longrightarrow> 0 \<le> x \<and> ks_pricing spec \<noteq> No_pricing))"
proof (intro conjI ballI)
  let ?ms = "collect_models py spec al [] (catalog_entries j)"
  note ids = collected_ids [of py spec al "[]" "catalog_entries j"]
  show "set (map upstream_id (parse_models py j spec al)) = {uid. \<exists>e. e \<in> set (catalog_entries j) \<and> upstream_id_of e = Some uid}"
    using conjunct1 [OF ids] by (auto simp: parse_models_def)
  have "inj_on upstream_id (set ?ms)" "distinct ?ms" using conjunct2 [OF ids] by (simp_all add: distinct_map)
  then show "distinct (map upstream_id (parse_models py j spec al))" by (simp add: distinct_map parse_models_def)
  show "sorted (map pm_served_name (parse_models py j spec al))" by (simp add: parse_models_def)
  fix m assume "m \<in> set (parse_models py j spec al)"
  then obtain e where e: "e \<in> set (catalog_entries j)" "upstream_id_of e = Some (upstream_id m)"
      "m = model_of_entry py spec al (upstream_id m) e"
    using collected_models [of m py spec al "[]" "catalog_entries j"] by (auto simp: parse_models_def)
  obtain i out where p: "pricing_of py e (ks_pricing spec) = (i, out)" by (cases "pricing_of py e (ks_pricing spec)")
  have "input_cost_per_mtok (model_of_entry py spec al u e) = i" "output_cost_per_mtok (model_of_entry py spec al u e) = out" for u
    by (simp_all add: model_of_entry_def p)
  then have c: "input_cost_per_mtok m = i" "output_cost_per_mtok m = out" using e(3) by metis+
  show "\<exists>e \<in> set (catalog_entries j). upstream_id_of e = Some (upstream_id m)
      \<and> (input_cost_per_mtok m, output_cost_per_mtok m) = pricing_of py e (ks_pricing spec)"
    using e(1,2) p c by auto
  show "\<forall>x. input_cost_per_mtok m = Some x \<or> output_cost_per_mtok m = Some x \<longrightarrow> 0 \<le> x \<and> ks_pricing spec \<noteq> No_pricing"
    using pricing_nonneg [OF p] c by auto
qed

definition small_catalogue :: json where
  "small_catalogue = JObj [(''data'', JList
     [JObj [(''id'', JStr ''b''), (''pricing'', JObj [(''prompt'', JInt 2), (''completion'', JInt (-1))])],
      JObj [(''id'', JStr ''a'')], JObj [(''id'', JStr ''b'')], JNull])]"

theorem catalogue_is_what_was_published_witness:
  "sorted (map pm_served_name (parse_models plain_text small_catalogue (spec_for TOGETHER) []))
   \<and> map (\<lambda>m. (upstream_id m, input_cost_per_mtok m, output_cost_per_mtok m))
       (parse_models plain_text small_catalogue (spec_for TOGETHER) []) = [(''a'', None, None), (''b'', Some 2, None)]"
proof -
  have "map (\<lambda>m. (upstream_id m, input_cost_per_mtok m, output_cost_per_mtok m))
       (parse_models plain_text small_catalogue (spec_for TOGETHER) []) = [(''a'', None, None), (''b'', Some 2, None)]" by code_simp
  then show ?thesis using catalogue_is_what_was_published [of plain_text small_catalogue "spec_for TOGETHER" "[]"] by blast
qed

end
