(* ===== verification/Provider_Store.thy ===== *)
theory Provider_Store
  imports Provider_Runtime Provider_Catalog Deploy_Codec
begin

text \<open>
  What of a provider is written down, \<open>control_plane/providers/store.py\<close>: the persisted shape of a record and of
  its live state, what is read back of it, and the file; and \<open>control_plane/providers/secrets.py\<close>: the values
  behind the references. A set is a list; the file's text is \<open>dumps\<close> of its value.
\<close>

section \<open>Models\<close>

definition provider_kind_value :: "provider_kind \<Rightarrow> string" where
  "provider_kind_value k = (case k of OPENROUTER \<Rightarrow> ''openrouter'' | OPENAI \<Rightarrow> ''openai'' | ANTHROPIC \<Rightarrow> ''anthropic''
     | TOGETHER \<Rightarrow> ''together'' | GROQ \<Rightarrow> ''groq'' | OLLAMA \<Rightarrow> ''ollama'' | CUSTOM \<Rightarrow> ''custom'')"

definition all_provider_kinds :: "provider_kind list" where
  "all_provider_kinds = [OPENROUTER, OPENAI, ANTHROPIC, TOGETHER, GROQ, OLLAMA, CUSTOM]"

definition model_to_dict :: "provider_model \<Rightarrow> json" where
  "model_to_dict m = JObj
     [(''served_name'', JStr (pm_served_name m)), (''upstream_id'', JStr (upstream_id m)),
      (''context_length'', JInt (pm_context_length m)), (''supports_streaming'', JBool (supports_streaming m)),
      (''supports_tools'', JBool (supports_tools m)), (''input_cost_per_mtok'', jopt JNum (input_cost_per_mtok m)),
      (''output_cost_per_mtok'', jopt JNum (output_cost_per_mtok m)), (''modality'', JStr (modality_value (pm_modality m)))]"

fun opt_float :: "json \<Rightarrow> rat option" where
  "opt_float (JInt n) = Some (of_int n)"
| "opt_float (JNum x) = Some x"
| "opt_float _ = None"

definition stored_modality :: "json \<Rightarrow> modality" where
  "stored_modality j = (case enum_of modality_value all_modalities j of Inr m \<Rightarrow> m | Inl _ \<Rightarrow> TEXT)"

text \<open>\<open>raw.get(k)\<close> and \<open>raw.get(k, default)\<close>.\<close>

definition got :: "json_object \<Rightarrow> string \<Rightarrow> json" where
  "got d k = dget_or d k JNull"

definition int_or_0 :: "py_text \<Rightarrow> json \<Rightarrow> int result" where
  "int_or_0 py j = (if truth_of j then int_of py j else Inr 0)"

definition float_or_0 :: "py_text \<Rightarrow> json \<Rightarrow> rat result" where
  "float_or_0 py j = (if truth_of j then float_of py j else Inr 0)"

definition model_from_dict :: "py_text \<Rightarrow> json_object \<Rightarrow> provider_model result" where
  "model_from_dict py d =
     bindR (int_or_0 py (got d ''context_length'')) (\<lambda>n.
       Inr \<lparr>pm_served_name = str_of py (dget_or d ''served_name'' (JStr [])),
            upstream_id = str_of py (dget_or d ''upstream_id'' (JStr [])), pm_context_length = n,
            supports_streaming = truth_of (dget_or d ''supports_streaming'' (JBool True)),
            supports_tools = truth_of (dget_or d ''supports_tools'' (JBool False)),
            input_cost_per_mtok = opt_float (got d ''input_cost_per_mtok''),
            output_cost_per_mtok = opt_float (got d ''output_cost_per_mtok''),
            pm_modality = stored_modality (got d ''modality'')\<rparr>)"

section \<open>A provider\<close>

definition spend_to_dict :: "day_spend \<Rightarrow> json" where
  "spend_to_dict s = JObj
     [(''usd'', JNum (ds_usd s)), (''input_tokens'', JInt (ds_input_tokens s)), (''output_tokens'', JInt (ds_output_tokens s)),
      (''requests'', JInt (ds_requests s)), (''unpriced_requests'', JInt (ds_unpriced s)),
      (''metered_requests'', JInt (ds_metered s))]"

definition strings_of :: "(string, string) dict \<Rightarrow> json" where
  "strings_of d = JObj (map (\<lambda>(k, v). (k, JStr v)) d)"

definition provider_fields :: "provider \<Rightarrow> json_object" where
  "provider_fields p =
     [(''provider_id'', JStr (provider_id p)), (''kind'', JStr (provider_kind_value (provider_kind p))),
      (''display_name'', JStr (display_name p)), (''base_url'', JStr (base_url p)), (''api_key_ref'', JStr (api_key_ref p)),
      (''enabled'', JBool (enabled p)), (''priority'', JInt (priority p)), (''healthy'', JBool (prov_healthy p)),
      (''last_error'', jopt JStr (prov_last_error p)), (''last_refreshed'', JNum (last_refreshed p)),
      (''models'', JList (map model_to_dict (models p)))]"

definition live_fields :: "provider_live \<Rightarrow> json_object" where
  "live_fields r =
     [(''daily_budget_usd'', jopt JNum (lv_budget r)), (''aliases'', strings_of (lv_aliases r)),
      (''backend_pins'', strings_of (lv_backend_pins r)),
      (''enabled_models'', jopt (\<lambda>ids. JList (map JStr (sort ids))) (lv_enabled_models r)),
      (''spend'', JObj (map (\<lambda>(day, s). (day, spend_to_dict s)) (lv_spend r)))]"

definition provider_to_dict :: "provider \<Rightarrow> provider_live option \<Rightarrow> json" where
  "provider_to_dict p live = JObj (provider_fields p @ (case live of Some r \<Rightarrow> live_fields r | None \<Rightarrow> []))"

definition enabled_models_of :: "py_text \<Rightarrow> json \<Rightarrow> string list option" where
  "enabled_models_of py j = (case j of JList xs \<Rightarrow> Some (remdups (map (str_of py) xs)) | _ \<Rightarrow> None)"

text \<open>\<open>{str(k): str(v) for k, v in (raw or {}).items()}\<close>: only a dictionary has items.\<close>

fun items_of :: "json \<Rightarrow> json_object result" where
  "items_of (JObj d) = Inr d"
| "items_of j = (if truth_of j then Inl (AttributeError ''items'') else Inr [])"

text \<open>What a loop over a JSON value meets; the keys of a dictionary and the letters of a text are texts.\<close>

fun elements_of :: "json \<Rightarrow> json list result" where
  "elements_of (JList xs) = Inr xs"
| "elements_of (JObj d) = Inr (map (JStr \<circ> fst) d)"
| "elements_of (JStr s) = Inr (map (\<lambda>c. JStr [c]) s)"
| "elements_of _ = Inl (TypeError ''not iterable'')"

definition stored_kind :: "json \<Rightarrow> provider_kind" where
  "stored_kind j = (case enum_of provider_kind_value all_provider_kinds j of Inr k \<Rightarrow> k | Inl _ \<Rightarrow> CUSTOM)"

definition spend_from_dict :: "py_text \<Rightarrow> json_object \<Rightarrow> day_spend result" where
  "spend_from_dict py d =
     bindR (float_or_0 py (got d ''usd'')) (\<lambda>usd. bindR (int_or_0 py (got d ''input_tokens'')) (\<lambda>i.
     bindR (int_or_0 py (got d ''output_tokens'')) (\<lambda>outp. bindR (int_or_0 py (got d ''requests'')) (\<lambda>n.
     bindR (int_or_0 py (got d ''unpriced_requests'')) (\<lambda>un. bindR (int_or_0 py (got d ''metered_requests'')) (\<lambda>me.
       Inr \<lparr>ds_usd = usd, ds_input_tokens = i, ds_output_tokens = outp, ds_requests = n, ds_unpriced = un, ds_metered = me\<rparr>))))))"

fun spend_days :: "py_text \<Rightarrow> json_object \<Rightarrow> (string, day_spend) dict \<Rightarrow> (string, day_spend) dict result" where
  "spend_days py [] acc = Inr acc"
| "spend_days py ((day, JObj d) # rest) acc = bindR (spend_from_dict py d) (\<lambda>s. spend_days py rest (dset day s acc))"
| "spend_days py ((day, j) # rest) acc = spend_days py rest acc"

definition text_items :: "py_text \<Rightarrow> json \<Rightarrow> (string, string) dict result" where
  "text_items py j = mapR (map (\<lambda>(k, v). (k, str_of py v))) (items_of j)"

definition provider_from_dict :: "py_text \<Rightarrow> json_object \<Rightarrow> (provider \<times> provider_live) result" where
  "provider_from_dict py d =
     bindR (item d ''provider_id'') (\<lambda>pid.
     bindR (int_of py (dget_or d ''priority'' (JInt 100))) (\<lambda>prio.
     bindR (elements_of (dget_or d ''models'' (JList []))) (\<lambda>ms.
     bindR (traverse (model_from_dict py) (objects ms)) (\<lambda>models.
     bindR (float_or_0 py (got d ''last_refreshed'')) (\<lambda>fresh.
     bindR (text_items py (got d ''aliases'')) (\<lambda>al.
     bindR (text_items py (got d ''backend_pins'')) (\<lambda>pins.
     bindR (items_of (got d ''spend'')) (\<lambda>days.
     bindR (spend_days py days []) (\<lambda>spend.
       Inr (\<lparr>provider_id = str_of py pid, provider_kind = stored_kind (dget_or d ''kind'' (JStr ''custom'')),
              display_name = (let n = got d ''display_name'' in str_of py (if truth_of n then n else pid)),
              base_url = str_of py (dget_or d ''base_url'' (JStr [])),
              api_key_ref = str_of py (dget_or d ''api_key_ref'' (JStr [])),
              enabled = truth_of (dget_or d ''enabled'' (JBool True)), priority = prio, models = models,
              prov_healthy = True, prov_last_error = None, last_refreshed = fresh\<rparr>,
            new_provider_live\<lparr>lv_last_refreshed := fresh, lv_budget := opt_float (got d ''daily_budget_usd''),
              lv_aliases := al, lv_enabled_models := enabled_models_of py (got d ''enabled_models''),
              lv_backend_pins := pins, lv_spend := spend\<rparr>))))))))))"

section \<open>The file\<close>

text \<open>An error that is not caught goes through.\<close>

fun caught :: "py_error \<Rightarrow> bool" where
  "caught (KeyError _) = True" | "caught (TypeError _) = True" | "caught (ValueError _) = True"
| "caught _ = False"

fun load_records :: "py_text \<Rightarrow> json list \<Rightarrow> (provider \<times> provider_live) list result" where
  "load_records py [] = Inr []"
| "load_records py (j # js) =
     (case j of
        JObj d \<Rightarrow>
          if dget d ''provider_id'' = None then load_records py js
          else (case provider_from_dict py d of
             Inr x \<Rightarrow> mapR (Cons x) (load_records py js)
           | Inl e \<Rightarrow> if caught e then load_records py js else Inl e)
      | _ \<Rightarrow> load_records py js)"

definition load_providers :: "py_text \<Rightarrow> json_file \<Rightarrow> (provider \<times> provider_live) list result" where
  "load_providers py f =
     (case f of
        Holds j \<Rightarrow>
          (case (case j of JObj d \<Rightarrow> got d ''providers'' | _ \<Rightarrow> j) of
             JList js \<Rightarrow> load_records py js
           | _ \<Rightarrow> Inr [])
      | _ \<Rightarrow> Inr [])"

definition PROVIDERS_SCHEMA :: int where "PROVIDERS_SCHEMA = 1"

definition save_providers ::
  "(json \<Rightarrow> string) \<Rightarrow> redactor \<Rightarrow> (provider \<times> provider_live) list \<Rightarrow> json_file \<Rightarrow> (secrets_error + unit) \<times> json_file" where
  "save_providers dumps rd entries f =
     (let j = JObj [(''version'', JInt PROVIDERS_SCHEMA),
                    (''providers'', JList (map (\<lambda>(p, r). provider_to_dict p (Some r)) entries))]
      in case assert_clean rd (dumps j) of Inl e \<Rightarrow> (Inl e, f) | Inr _ \<Rightarrow> (Inr (), Holds j))"

section \<open>Secrets\<close>

record secret_store =
  ss_env :: "(string, string) dict"
  ss_file :: json_file
  ss_redactor :: redactor

definition file_values :: "py_text \<Rightarrow> json_file \<Rightarrow> (string, string) dict" where
  "file_values py f = (case f of Holds (JObj d) \<Rightarrow> map (\<lambda>(k, v). (k, str_of py v)) d | _ \<Rightarrow> [])"

definition load_secrets :: "py_text \<Rightarrow> secret_store \<Rightarrow> (string, string) dict \<times> secret_store" where
  "load_secrets py ss =
     (let vs = file_values py (ss_file ss)
      in (vs, ss\<lparr>ss_redactor := foldl (\<lambda>rd v. remember (Some v) rd) (ss_redactor ss) (dvalues vs)\<rparr>))"

definition remembered :: "string option \<Rightarrow> secret_store \<Rightarrow> secret_store" where
  "remembered v ss = ss\<lparr>ss_redactor := remember v (ss_redactor ss)\<rparr>"

definition env_ref :: "string \<Rightarrow> secret_store \<Rightarrow> string option \<times> secret_store" where
  "env_ref ref ss =
     (if ref = [] then (None, ss) else let v = dget (ss_env ss) ref in (v, remembered v ss))"

definition get_secret :: "py_text \<Rightarrow> string \<Rightarrow> secret_store \<Rightarrow> string option \<times> secret_store" where
  "get_secret py ref ss =
     (if ref = [] then (None, ss)
      else case dget (ss_env ss) ref of
          Some v \<Rightarrow> (Some v, remembered (Some v) ss)
        | None \<Rightarrow> (let (vs, ss) = load_secrets py ss; v = dget vs ref in (v, remembered v ss)))"

definition put_secret :: "py_text \<Rightarrow> string \<Rightarrow> string \<Rightarrow> secret_store \<Rightarrow> secret_store" where
  "put_secret py ref v ss =
     (let (vs, ss) = load_secrets py ss
      in remembered (Some v) (ss\<lparr>ss_file := Holds (strings_of (dset ref v vs))\<rparr>))"

definition delete_secret :: "py_text \<Rightarrow> string \<Rightarrow> secret_store \<Rightarrow> bool \<times> secret_store" where
  "delete_secret py ref ss =
     (let (vs, ss) = load_secrets py ss in
      if ref \<notin> set (dkeys vs) then (False, ss) else (True, ss\<lparr>ss_file := Holds (strings_of (dpop ref vs))\<rparr>))"

section \<open>A restart\<close>

declare map_of_eq_Some_iff [simp del]

text \<open>What a provider is after a restart: nothing of its last dealings with the upstream is believed, and an empty
  display name, which an edit may set, has become the provider's id.\<close>

definition after_restart :: "provider \<times> provider_live \<Rightarrow> provider \<times> provider_live" where
  "after_restart e = (let (p, r) = e in
     (p\<lparr>display_name := (if display_name p = [] then provider_id p else display_name p),
        prov_healthy := True, prov_last_error := None\<rparr>,
      new_provider_live\<lparr>lv_last_refreshed := last_refreshed p, lv_budget := lv_budget r, lv_aliases := lv_aliases r,
        lv_enabled_models := map_option (\<lambda>ids. remdups (sort ids)) (lv_enabled_models r),
        lv_backend_pins := lv_backend_pins r, lv_spend := lv_spend r\<rparr>))"

lemma int_or_0_int [simp]: "int_or_0 py (JInt n) = Inr n"
  by (simp add: int_or_0_def)

lemma float_or_0_num [simp]: "float_or_0 py (JNum x) = Inr x"
  by (simp add: float_or_0_def)

lemma opt_float_jopt [simp]: "opt_float (jopt JNum x) = x"
  by (cases x) simp_all

lemma stored_modality_value [simp]: "stored_modality (JStr (modality_value m)) = m"
  by (simp add: stored_modality_def)

lemma stored_kind_value [simp]: "stored_kind (JStr (provider_kind_value k)) = k"
  by (cases k) (simp_all add: stored_kind_def enum_of_def provider_kind_value_def all_provider_kinds_def)

lemma model_survives: "\<exists>d. model_to_dict m = JObj d \<and> model_from_dict py d = Inr m"
  by (simp add: model_to_dict_def model_from_dict_def got_def dget_or_def)

lemma models_survive: "traverse (model_from_dict py) (objects (map model_to_dict ms)) = Inr ms"
proof (induction ms)
  case (Cons m ms)
  obtain d where "model_to_dict m = JObj d" "model_from_dict py d = Inr m" using model_survives by blast
  with Cons show ?case by simp
qed simp

lemma strings_survive [simp]: "text_items py (strings_of d) = Inr d"
  by (simp add: text_items_def strings_of_def) (induction d; auto)

lemma spend_survives: "\<exists>d. spend_to_dict s = JObj d \<and> spend_from_dict py d = Inr s"
  by (simp add: spend_to_dict_def spend_from_dict_def got_def dget_or_def)

lemma dset_fresh: "k \<notin> set (dkeys d) \<Longrightarrow> dset k v d = d @ [(k, v)]"
  by (induction d) auto

lemma days_survive:
  "dict_ok (acc @ ds) \<Longrightarrow> spend_days py (map (\<lambda>(day, s). (day, spend_to_dict s)) ds) acc = Inr (acc @ ds)"
proof (induction ds arbitrary: acc)
  case (Cons e ds)
  obtain day s where e: "e = (day, s)" by (cases e)
  obtain d where "spend_to_dict s = JObj d" "spend_from_dict py d = Inr s" using spend_survives by blast
  moreover have "dset day s acc = acc @ [(day, s)]" using Cons.prems e by (intro dset_fresh) auto
  ultimately show ?case using Cons.IH [of "acc @ [(day, s)]"] Cons.prems e by simp
qed simp

lemma enabled_survive [simp]:
  "enabled_models_of py (jopt (\<lambda>ids. JList (map JStr (sort ids))) x) = map_option (\<lambda>ids. remdups (sort ids)) x"
  by (cases x) (simp_all add: enabled_models_of_def comp_def)

lemma provider_survives:
  assumes "dict_ok (lv_spend r)"
  shows "\<exists>d. provider_to_dict p (Some r) = JObj d \<and> dget d ''provider_id'' \<noteq> None
    \<and> provider_from_dict py d = Inr (after_restart (p, r))"
  using assms days_survive [of "[]" "lv_spend r" py]
  by (simp add: provider_to_dict_def provider_fields_def live_fields_def provider_from_dict_def item_def got_def dget_or_def
      models_survive after_restart_def new_provider_live_def)

text \<open>The spend is a dictionary: its days are distinct.\<close>

definition entry_ok :: "provider \<times> provider_live \<Rightarrow> bool" where
  "entry_ok e \<longleftrightarrow> dict_ok (lv_spend (snd e))"

lemma records_survive:
  "\<forall>e \<in> set es. entry_ok e \<Longrightarrow>
    load_records py (map (\<lambda>(p, r). provider_to_dict p (Some r)) es) = Inr (map after_restart es)"
proof (induction es)
  case (Cons e es)
  obtain p r where e: "e = (p, r)" by (cases e)
  obtain d where "provider_to_dict p (Some r) = JObj d" "dget d ''provider_id'' \<noteq> None"
      "provider_from_dict py d = Inr (after_restart (p, r))"
    using provider_survives [of r p py] Cons.prems e by (auto simp: entry_ok_def)
  with Cons e show ?case by simp
qed simp

text \<open>C25: the providers file gives back what was saved, in order: every record, its models, prices, budget,
  aliases, pins, allowlist and the spend of every day. Two things differ: what describes the last dealings with
  the upstream starts afresh, so a provider that was down when the process stopped is tried again, and a
  display name that was emptied comes back as the provider's id.\<close>

theorem providers_survive_restart:
  assumes "save_providers dumps rd entries f = (Inr u, f')" and "\<forall>e \<in> set entries. entry_ok e"
  shows "load_providers py f' = Inr (map after_restart entries)"
  using assms records_survive [OF assms(2), of py]
  by (auto simp: save_providers_def Let_def load_providers_def got_def dget_or_def split: sum.splits)

definition sick_provider :: "provider \<times> provider_live" where
  "sick_provider = (\<lparr>provider_id = ''openai'', provider_kind = OPENAI, display_name = ''OpenAI'', base_url = ''https://u'',
       api_key_ref = ''KEY'', enabled = True, priority = 7, models = [], prov_healthy = False,
       prov_last_error = Some ''could not reach upstream'', last_refreshed = 3\<rparr>,
     new_provider_live\<lparr>lv_healthy := False, lv_failures := 4, lv_budget := Some 5, lv_enabled_models := Some [''b'', ''a'']\<rparr>)"

definition nameless_provider :: "provider \<times> provider_live" where
  "nameless_provider = ((fst sick_provider)\<lparr>provider_id := ''p2'', display_name := []\<rparr>, new_provider_live)"

theorem providers_survive_restart_witness:
  "load_providers plain_text (snd (save_providers (\<lambda>j. []) [] [sick_provider, nameless_provider] Absent))
     = Inr [after_restart sick_provider, after_restart nameless_provider]"
proof -
  have "save_providers (\<lambda>j. []) [] [sick_provider, nameless_provider] Absent
      = (Inr (), snd (save_providers (\<lambda>j. []) [] [sick_provider, nameless_provider] Absent))"
    by (simp add: save_providers_def Let_def assert_clean_def contains_secret_def)
  from providers_survive_restart [OF this, of plain_text] show ?thesis
    by (simp add: entry_ok_def sick_provider_def nameless_provider_def new_provider_live_def)
qed

section \<open>Where it breaks\<close>

text \<open>A list where a dictionary belongs is an error the loader does not catch: the start fails over one record.\<close>

lemma malformed_aliases_stop_the_start:
  "load_providers plain_text (Holds (JList [JObj [(''provider_id'', JStr ''p''), (''aliases'', JList [JStr ''a''])]]))
     = Inl (AttributeError ''items'')"
  by (simp add: load_providers_def item_def provider_from_dict_def got_def dget_or_def float_or_0_def text_items_def)

text \<open>A secrets file that cannot be read counts as empty, and the next key stored replaces it whole.\<close>

lemma unreadable_secrets_are_overwritten:
  "ss_file (put_secret py ref v (ss\<lparr>ss_file := Unreadable\<rparr>)) = Holds (JObj [(ref, JStr v)])"
  by (simp add: put_secret_def load_secrets_def file_values_def remembered_def strings_of_def Let_def)

end
