(* ===== verification/Usage_Meter.thy ===== *)
theory Usage_Meter
  imports Json
begin

text \<open>
  Token usage read off a response as it passes: \<open>control_plane/providers/usage.py\<close> and the accounting
  classes of \<open>control_plane/gateway/proxy.py\<close>. Bytes are characters. \<open>parse\<close> is \<open>json.loads\<close> of a text,
  nothing when it does not parse.
\<close>

section \<open>The usage block\<close>

definition USAGE_TAIL_BYTES :: nat where "USAGE_TAIL_BYTES = 65536"
definition USAGE_BODY_LIMIT_BYTES :: nat where "USAGE_BODY_LIMIT_BYTES = 8388608"

record token_usage =
  tu_input :: int
  tu_output :: int
  tu_cost :: "rat option"

fun is_number :: "json \<Rightarrow> bool" where
  "is_number (JInt n) = True" | "is_number (JNum x) = True" | "is_number (JBool b) = True"
| "is_number j = False"

definition usage_cost :: "json_object \<Rightarrow> rat option" where
  "usage_cost u = (case dget u ''cost'' of
     Some (JInt n) \<Rightarrow> if n < 0 then None else Some (of_int n)
   | Some (JNum x) \<Rightarrow> if x < 0 then None else Some x
   | _ \<Rightarrow> None)"

definition get_either :: "json_object \<Rightarrow> string \<Rightarrow> string \<Rightarrow> json" where
  "get_either u a b = dget_or u a (dget_or u b JNull)"

definition int_or_zero :: "py_text \<Rightarrow> json \<Rightarrow> int result" where
  "int_or_zero py j = (if truth_of j then int_of py j else Inr 0)"

fun usage_from_obj :: "py_text \<Rightarrow> bool \<Rightarrow> json \<Rightarrow> token_usage option result" where
  "usage_from_obj py metered (JObj obj) =
     (case dget obj ''usage'' of
        Some (JObj u) \<Rightarrow>
          (let prompt = get_either u ''prompt_tokens'' ''input_tokens'';
               completion = get_either u ''completion_tokens'' ''output_tokens''
           in if \<not> is_number prompt \<and> \<not> is_number completion then Inr None
              else bindR (int_or_zero py prompt) (\<lambda>i. bindR (int_or_zero py completion) (\<lambda>out.
                Inr (Some \<lparr>tu_input = i, tu_output = out, tu_cost = (if metered then usage_cost u else None)\<rparr>))))
      | _ \<Rightarrow> Inr None)"
| "usage_from_obj py metered j = Inr None"

section \<open>The sniffer\<close>

record sniffer =
  sn_stream :: bool
  sn_metered :: bool
  sn_buffer :: string
  sn_overflowed :: bool
  sn_truncated :: bool

definition new_sniffer :: "bool \<Rightarrow> bool \<Rightarrow> sniffer" where
  "new_sniffer stream metered =
     \<lparr>sn_stream = stream, sn_metered = metered, sn_buffer = [], sn_overflowed = False, sn_truncated = False\<rparr>"

definition feed :: "string \<Rightarrow> sniffer \<Rightarrow> sniffer" where
  "feed chunk sn =
     (if sn_overflowed sn then sn
      else let buffer = sn_buffer sn @ chunk in
        if sn_stream sn
        then (if length buffer > USAGE_TAIL_BYTES
              then sn\<lparr>sn_buffer := drop (length buffer - USAGE_TAIL_BYTES) buffer, sn_truncated := True\<rparr>
              else sn\<lparr>sn_buffer := buffer\<rparr>)
        else if length buffer > USAGE_BODY_LIMIT_BYTES then sn\<lparr>sn_buffer := [], sn_overflowed := True\<rparr>
        else sn\<lparr>sn_buffer := buffer\<rparr>)"

definition frame_payload :: "string \<Rightarrow> string option" where
  "frame_payload line =
     (let line = str_strip line in
      if \<not> starts_with ''data:'' line then None
      else let payload = str_strip (drop 5 line)
           in if payload = [] \<or> payload = ''[DONE]'' then None else Some payload)"

fun last_usage ::
  "py_text \<Rightarrow> (string \<Rightarrow> json option) \<Rightarrow> bool \<Rightarrow> string list \<Rightarrow> token_usage option \<Rightarrow> token_usage option result" where
  "last_usage py parse metered [] found = Inr found"
| "last_usage py parse metered (line # lines) found =
     (case frame_payload line of
        None \<Rightarrow> last_usage py parse metered lines found
      | Some payload \<Rightarrow>
        (case parse payload of
           None \<Rightarrow> last_usage py parse metered lines found
         | Some j \<Rightarrow> bindR (usage_from_obj py metered j) (\<lambda>u.
             last_usage py parse metered lines (case u of Some v \<Rightarrow> Some v | None \<Rightarrow> found))))"

definition sniffed :: "py_text \<Rightarrow> (string \<Rightarrow> json option) \<Rightarrow> sniffer \<Rightarrow> token_usage option result" where
  "sniffed py parse sn =
     (if sn_overflowed sn \<or> sn_buffer sn = [] then Inr None
      else if \<not> sn_stream sn
      then (case parse (sn_buffer sn) of None \<Rightarrow> Inr None | Some j \<Rightarrow> usage_from_obj py (sn_metered sn) j)
      else let lines = split_on (CHR 0x0A) (sn_buffer sn);
               lines = (if sn_truncated sn \<and> length lines > 1 then tl lines else lines)
           in last_usage py parse (sn_metered sn) lines None)"

section \<open>What a passing response is billed for\<close>

record usage =
  us_tokens :: int
  us_ttft_s :: "rat option"
  us_decode_s :: "rat option"
  us_prompt :: int
  us_completion :: int
  us_estimated :: bool

definition new_usage :: usage where
  "new_usage = \<lparr>us_tokens = 0, us_ttft_s = None, us_decode_s = None, us_prompt = 0, us_completion = 0, us_estimated = True\<rparr>"

text \<open>A block that cannot be read is no block.\<close>

definition apply_sniffed :: "token_usage option result \<Rightarrow> usage \<Rightarrow> usage" where
  "apply_sniffed res u =
     (case (case res of Inl e \<Rightarrow> None | Inr t \<Rightarrow> t) of
        None \<Rightarrow> u\<lparr>us_completion := us_tokens u\<rparr>
      | Some t \<Rightarrow>
        (let u = u\<lparr>us_prompt := tu_input t, us_completion := tu_output t, us_estimated := False\<rparr>
         in if tu_output t \<noteq> 0 then u\<lparr>us_tokens := tu_output t\<rparr> else u))"

text \<open>\<open>bytes.count\<close>: the copies found from the left, none overlapping.\<close>

function count_sub :: "string \<Rightarrow> string \<Rightarrow> int" where
  "count_sub m [] = 0"
| "count_sub m (c # s) =
     (if m \<noteq> [] \<and> starts_with m (c # s) then 1 + count_sub m (drop (length m) (c # s)) else count_sub m s)"
  by pat_completeness auto
termination by (relation "measure (\<lambda>(m, s). length s)") auto

record stream_accounting =
  sa_started :: rat
  sa_usage :: usage
  sa_tail :: string
  sa_first_token :: "rat option"
  sa_sniffer :: sniffer

definition last_chars :: "nat \<Rightarrow> string \<Rightarrow> string" where
  "last_chars n s = drop (length s - n) s"

definition note_first :: "rat \<Rightarrow> rat \<Rightarrow> usage \<Rightarrow> usage" where
  "note_first started now u = (if us_ttft_s u = None then u\<lparr>us_ttft_s := Some (now - started)\<rparr> else u)"

definition note_stream_chunk :: "string \<Rightarrow> rat \<Rightarrow> stream_accounting \<Rightarrow> stream_accounting" where
  "note_stream_chunk chunk now a =
     (let u = note_first (sa_started a) now (sa_usage a);
          window = sa_tail a @ chunk;
          n = count_sub ''data:'' window - count_sub ''[DONE]'' window
      in a\<lparr>sa_sniffer := feed chunk (sa_sniffer a),
           sa_usage := (if n > 0 then u\<lparr>us_tokens := us_tokens u + n\<rparr> else u),
           sa_first_token := (if n > 0 \<and> sa_first_token a = None then Some now else sa_first_token a),
           sa_tail := last_chars 5 window\<rparr>)"

record body_accounting =
  ba_started :: rat
  ba_usage :: usage
  ba_sniffer :: sniffer
  ba_seen :: nat

definition BODY_LIMIT :: nat where "BODY_LIMIT = 1048576"

definition note_body_chunk :: "string \<Rightarrow> rat \<Rightarrow> body_accounting \<Rightarrow> body_accounting" where
  "note_body_chunk chunk now a =
     (let a = a\<lparr>ba_usage := note_first (ba_started a) now (ba_usage a)\<rparr> in
      if ba_seen a < BODY_LIMIT
      then let room = BODY_LIMIT - ba_seen a
           in a\<lparr>ba_sniffer := feed (take room chunk) (ba_sniffer a), ba_seen := ba_seen a + min (length chunk) room\<rparr>
      else a)"

datatype accounting = Stream_accounting stream_accounting | Body_accounting body_accounting | No_accounting rat usage

definition new_accounting :: "bool \<Rightarrow> bool \<Rightarrow> rat \<Rightarrow> accounting" where
  "new_accounting count_tokens streaming now =
     (if \<not> count_tokens then No_accounting now new_usage
      else if streaming
      then Stream_accounting \<lparr>sa_started = now, sa_usage = new_usage, sa_tail = [], sa_first_token = None, sa_sniffer = new_sniffer True False\<rparr>
      else Body_accounting \<lparr>ba_started = now, ba_usage = new_usage, ba_sniffer = new_sniffer False False, ba_seen = 0\<rparr>)"

fun note_chunk :: "string \<Rightarrow> rat \<Rightarrow> accounting \<Rightarrow> accounting" where
  "note_chunk chunk now (Stream_accounting a) = Stream_accounting (note_stream_chunk chunk now a)"
| "note_chunk chunk now (Body_accounting a) = Body_accounting (note_body_chunk chunk now a)"
| "note_chunk chunk now (No_accounting started u) = No_accounting started (note_first started now u)"

fun finish_accounting :: "py_text \<Rightarrow> (string \<Rightarrow> json option) \<Rightarrow> rat \<Rightarrow> accounting \<Rightarrow> usage" where
  "finish_accounting py parse now (Stream_accounting a) =
     (let u = (case sa_first_token a of None \<Rightarrow> sa_usage a | Some t \<Rightarrow> (sa_usage a)\<lparr>us_decode_s := Some (max 0 (now - t))\<rparr>)
      in apply_sniffed (sniffed py parse (sa_sniffer a)) u)"
| "finish_accounting py parse now (Body_accounting a) = apply_sniffed (sniffed py parse (ba_sniffer a)) (ba_usage a)"
| "finish_accounting py parse now (No_accounting started u) = u"

section \<open>What the frame count counts\<close>

text \<open>The places in a text where a marker starts.\<close>

fun places :: "string \<Rightarrow> string \<Rightarrow> int" where
  "places m [] = 0"
| "places m (c # s) = (if starts_with m (c # s) then 1 else 0) + places m s"

definition ends_with :: "string \<Rightarrow> string \<Rightarrow> bool" where
  "ends_with m s \<longleftrightarrow> length m \<le> length s \<and> drop (length s - length m) s = m"

abbreviation mark :: string where "mark \<equiv> ''data:''"

lemma starts_with_app: "starts_with m s \<longleftrightarrow> (\<exists>t. s = m @ t)"
  by (induction m s rule: starts_with.induct) auto

text \<open>The marker does not overlap itself, so counting from the left counts its places.\<close>

lemma count_is_places: "count_sub mark s = places mark s"
proof (induction "mark" s rule: count_sub.induct)
  case (2 c s)
  show ?case
  proof (cases "starts_with mark (c # s)")
    case True
    then obtain t where t: "c # s = mark @ t" by (auto simp: starts_with_app)
    then have "c = CHR ''d''" "s = ''ata:'' @ t" by auto
    then show ?thesis using 2(1) True by simp
  next
    case False
    then have "count_sub mark (c # s) = count_sub mark s" by (simp del: starts_with.simps)
    then show ?thesis using 2(2) False by (simp del: starts_with.simps)
  qed
qed simp

lemma last_chars_rev: "last_chars n s = rev (take n (rev s))"
  by (simp add: last_chars_def take_rev)

lemma places_short: "length s < length m \<Longrightarrow> places m s = 0"
proof (induction s)
  case (Cons c s)
  have "\<not> starts_with m (c # s)"
  proof
    assume "starts_with m (c # s)"
    then obtain t where "c # s = m @ t" by (auto simp: starts_with_app)
    then have "length (c # s) = length m + length t" by (metis length_append)
    then show False using Cons.prems by simp
  qed
  then show ?case using Cons by simp
qed simp

text \<open>Keeping the last five characters of what went by makes the next chunk count as it would in one piece,
  but for a marker that ends what went by: it is counted again.\<close>

lemma places_after:
  "places mark (last_chars 5 a @ b) = places mark (a @ b) - places mark a + (if ends_with mark a then 1 else 0)"
proof (induction a)
  case Nil
  show ?case by (simp add: last_chars_def ends_with_def)
next
  case (Cons c a)
  show ?case
  proof (cases "length a \<ge> 5")
    case True
    then have "last_chars 5 (c # a) = last_chars 5 a" "ends_with mark (c # a) = ends_with mark a"
      using Suc_diff_le [OF True] by (simp_all add: last_chars_def ends_with_def numeral_eq_Suc)
    moreover have "starts_with mark (c # a @ b) = starts_with mark (c # a)"
    proof -
      from True obtain x1 x2 x3 x4 x5 xs where "a = x1 # x2 # x3 # x4 # x5 # xs"
        by (auto simp: Suc_le_length_iff numeral_eq_Suc)
      then show ?thesis by simp
    qed
    ultimately show ?thesis using Cons.IH by simp
  next
    case False
    then have l: "last_chars 5 (c # a) = c # a" by (simp add: last_chars_def)
    show ?thesis
    proof (cases "length a = 4")
      case True
      then obtain x1 x2 x3 x4 where a: "a = [x1, x2, x3, x4]"
        by (auto simp: numeral_eq_Suc length_Suc_conv)
      show ?thesis by (auto simp: a last_chars_def ends_with_def)
    next
      case shorter: False
      then have "length (c # a) < length mark" using False by simp
      then have "places mark (c # a) = 0" "\<not> ends_with mark (c # a)"
        using places_short leD unfolding ends_with_def by blast+
      then show ?thesis by (simp only: l) simp
    qed
  qed
qed

lemma places_nonneg: "0 \<le> places m s"
  by (induction s) simp_all

lemma starts_with_longer: "starts_with m s \<Longrightarrow> starts_with m (s @ t)"
  by (auto simp: starts_with_app)

lemma places_part: "places m b \<le> places m (a @ b @ c)"
proof (induction a)
  case Nil
  show ?case by (induction b) (auto intro: places_nonneg starts_with_longer [of m "_ # _", simplified])
next
  case (Cons x a)
  then show ?case by simp
qed

lemma count_le_places: "0 \<le> count_sub m s \<and> count_sub m s \<le> places m s"
proof (induction m s rule: count_sub.induct)
  case (2 m c s)
  show ?case
  proof (cases "m \<noteq> [] \<and> starts_with m (c # s)")
    case True
    then obtain k where "length m = Suc k" by (cases m) auto
    then have "places m (drop (length m) (c # s)) \<le> places m s"
      using places_part [of m "drop k s" "take k s" "[]"] by simp
    then show ?thesis using 2(1) True by simp
  next
    case False
    then show ?thesis using 2(2) False by auto
  qed
qed simp

definition watched_stream :: "rat \<Rightarrow> (string \<times> rat) list \<Rightarrow> stream_accounting" where
  "watched_stream started chunks = foldl (\<lambda>a (chunk, now). note_stream_chunk chunk now a)
     \<lparr>sa_started = started, sa_usage = new_usage, sa_tail = [], sa_first_token = None, sa_sniffer = new_sniffer True False\<rparr> chunks"

text \<open>The frames of a stream are counted as they pass, save for a cut right behind a marker. Until the
  closing frame, the count is the number of places a data marker starts in the whole stream, however it
  is cut into chunks, plus one for every chunk that arrives when what has gone by ends with a marker.\<close>

theorem frames_counted_once:
  assumes "places ''[DONE]'' (concat (map fst chunks)) = 0"
  shows "us_tokens (sa_usage (watched_stream started chunks)) = places mark (concat (map fst chunks))
    + int (length (filter (\<lambda>i. ends_with mark (concat (map fst (take i chunks)))) [0..<length chunks]))"
proof -
  let ?all = "\<lambda>cs. concat (map fst (cs :: (string \<times> rat) list))"
  have "sa_tail (watched_stream started chunks) = last_chars 5 (?all chunks) \<and>
    us_tokens (sa_usage (watched_stream started chunks)) = places mark (?all chunks)
    + int (length (filter (\<lambda>i. ends_with mark (?all (take i chunks))) [0..<length chunks]))"
    using assms
  proof (induction chunks rule: rev_induct)
    case Nil
    show ?case by (simp add: watched_stream_def new_usage_def last_chars_def)
  next
    case (snoc c cs)
    obtain chunk now where c: "c = (chunk, now)" by (cases c)
    let ?done = "''[DONE]''" and ?w = "last_chars 5 (?all cs) @ chunk"
    have "places ?done (?all cs) \<le> 0" using places_part [of ?done "?all cs" "[]" chunk] snoc.prems by (simp add: c)
    then have none: "places ?done (?all cs) = 0" using places_nonneg [of ?done "?all cs"] by linarith
    note IH = snoc.IH [OF none]
    have "?all cs @ chunk = take (length (?all cs) - 5) (?all cs) @ ?w" by (simp add: last_chars_def)
    moreover have "places ?done (?all cs @ chunk) = 0" using snoc.prems by (simp add: c)
    ultimately have "places ?done ?w \<le> 0"
      using places_part [of ?done ?w "take (length (?all cs) - 5) (?all cs)" "[]"] by (simp only: append_Nil2)
    then have "count_sub ?done ?w = 0" using count_le_places [of ?done ?w] by linarith
    then have n: "us_tokens (sa_usage (watched_stream started (cs @ [c]))) = us_tokens (sa_usage (watched_stream started cs)) + places mark ?w"
        "sa_tail (watched_stream started (cs @ [c])) = last_chars 5 ?w"
      using IH places_nonneg [of mark ?w]
      by (simp_all add: watched_stream_def c note_stream_chunk_def Let_def count_is_places note_first_def)
    have "last_chars 5 ?w = last_chars 5 (?all cs @ chunk)" by (simp add: last_chars_rev)
    moreover have "filter (\<lambda>i. ends_with mark (?all (take i (cs @ [c])))) [0..<length (cs @ [c])]
        = filter (\<lambda>i. ends_with mark (?all (take i cs))) [0..<length cs] @ (if ends_with mark (?all cs) then [length cs] else [])"
      by (auto intro!: filter_cong)
    ultimately show ?case using IH n places_after [of "?all cs" chunk] by (simp add: c)
  qed
  then show ?thesis by blast
qed

theorem frames_counted_once_witness:
  "us_tokens (sa_usage (watched_stream 0 [(''data: a'', 1), (''da'', 2), (''ta:'', 3), ('' b'', 4)])) = 3"
  using frames_counted_once [of "[(''data: a'', 1), (''da'', 2), (''ta:'', 3), ('' b'', 4)]" 0]
  by (simp add: ends_with_def upt_rec)

end
