(* ===== verification/Provider_Service.thy ===== *)
theory Provider_Service
  imports Provider_Store Usage_Meter
begin

text \<open>
  Third-party providers as the gateway uses them, \<open>ProviderService\<close> of \<open>control_plane/providers/service.py\<close>: the
  records with their live state, the keys behind their references, what an operator may change, what the
  routing sees, and one request from the guards to the end of its body. The clock is an argument; what the
  network answers is one too. A body of bytes is a text.
\<close>

section \<open>State\<close>

record provider_entry =
  pe_provider :: provider
  pe_live :: provider_live
  pe_auto_disabled :: bool

definition spec_of :: "provider_entry \<Rightarrow> kind_spec" where
  "spec_of e = spec_for (provider_kind (pe_provider e))"

text \<open>A request as it is sent.\<close>

record prepared =
  pr_url :: string
  pr_headers :: "(string, string) dict"
  pr_payload :: json_object

text \<open>\<open>prs_wire\<close> is a log the code does not keep: what was sent, for which provider.\<close>

record provider_service =
  prs_entries :: "(string, provider_entry) dict"
  prs_secrets :: secret_store
  prs_file :: json_file
  prs_dirty :: bool
  prs_persisted_at :: rat
  prs_wire :: "(string \<times> prepared) list"

text \<open>What of the standard library the service leans on: what a value prints as, \<open>json.loads\<close>, \<open>json.dumps\<close>, the
  text of a sentence, and what a header's text is read as.\<close>

record provider_host =
  ph_py :: py_text
  ph_parse :: "string \<Rightarrow> json option"
  ph_dumps :: "json \<Rightarrow> string"
  ph_say :: "msg \<Rightarrow> string"
  ph_reader :: header_reader

datatype service_error =
    Python py_error | Refused_request msg | Unknown_provider string | Leaked_key | No_adapter_for string string
  | Not_admitting_now string msg "rat option" | Missing_key_error string string
  | Upstream_failed string int string string "py_float option" | Too_many_failures

definition redactor_of :: "provider_service \<Rightarrow> redactor" where
  "redactor_of s = ss_redactor (prs_secrets s)"

definition put_entry :: "string \<Rightarrow> provider_entry \<Rightarrow> provider_service \<Rightarrow> provider_service" where
  "put_entry pid e s = s\<lparr>prs_entries := dset pid e (prs_entries s)\<rparr>"

section \<open>Mirroring and persisting\<close>

definition sync_entry :: "provider_host \<Rightarrow> rat \<Rightarrow> provider_entry \<Rightarrow> provider_entry" where
  "sync_entry h now e =
     (let live = half_open now (pe_live e)
      in e\<lparr>pe_live := live,
           pe_provider := (pe_provider e)\<lparr>prov_healthy := lv_healthy live,
             prov_last_error := map_option (ph_say h) (lv_last_error live), last_refreshed := lv_last_refreshed live\<rparr>\<rparr>)"

definition map_values :: "('v \<Rightarrow> 'v) \<Rightarrow> ('k, 'v) dict \<Rightarrow> ('k, 'v) dict" where
  "map_values f d = map (\<lambda>(k, v). (k, f v)) d"

definition persist :: "provider_host \<Rightarrow> rat \<Rightarrow> provider_service \<Rightarrow> service_error option \<times> provider_service" where
  "persist h now s =
     (let s = s\<lparr>prs_dirty := False, prs_persisted_at := now, prs_entries := map_values (sync_entry h now) (prs_entries s)\<rparr>
      in case save_providers (ph_dumps h) (redactor_of s) (map (\<lambda>e. (pe_provider e, pe_live e)) (dvalues (prs_entries s)))
                (prs_file s) of
           (Inl _, f) \<Rightarrow> (Some Leaked_key, s\<lparr>prs_file := f\<rparr>)
         | (Inr _, f) \<Rightarrow> (None, s\<lparr>prs_file := f\<rparr>))"

section \<open>Keys\<close>

type_synonym with_secrets = "provider_entry \<times> secret_store"

definition check_key :: "provider_host \<Rightarrow> with_secrets \<Rightarrow> bool \<times> with_secrets" where
  "check_key h w =
     (let (e, ss) = w; ref = api_key_ref (pe_provider e) in
      if \<not> ks_requires_key (spec_of e) \<and> ref = [] then (True, e\<lparr>pe_live := clear_missing_key (pe_live e)\<rparr>, ss)
      else let (v, ss) = get_secret (ph_py h) ref ss in
        if v \<noteq> None then
          (True, if lv_missing_key (pe_live e) = None then e
                 else (let e = e\<lparr>pe_live := (clear_missing_key (pe_live e))\<lparr>lv_healthy := True, lv_last_error := None\<rparr>\<rparr>
                   in if pe_auto_disabled e
                      then e\<lparr>pe_provider := (pe_provider e)\<lparr>enabled := True\<rparr>, pe_auto_disabled := False\<rparr> else e), ss)
        else
          (let live = note_missing_key ref (pe_live e)
           in (False, e\<lparr>pe_auto_disabled := pe_auto_disabled e \<or> enabled (pe_provider e), pe_live := live,
                 pe_provider := (pe_provider e)\<lparr>enabled := False, prov_healthy := False,
                   prov_last_error := map_option (ph_say h) (lv_last_error live)\<rparr>\<rparr>, ss)))"

definition store_key :: "provider_host \<Rightarrow> string \<Rightarrow> string \<Rightarrow> secret_store \<Rightarrow> service_error option \<times> secret_store" where
  "store_key h ref v ss =
     (let (shadow, ss) = env_ref ref ss in
      if shadow \<noteq> None \<and> shadow \<noteq> Some v then (Some (Refused_request (Msg ''shadowed by the environment'' [S ref])), ss)
      else (None, put_secret (ph_py h) ref v ss))"

definition resolve_key ::
  "provider_host \<Rightarrow> string \<Rightarrow> provider_entry \<Rightarrow> secret_store \<Rightarrow> (service_error + string) \<times> secret_store" where
  "resolve_key h pid e ss =
     (let ref = api_key_ref (pe_provider e) in
      if \<not> ks_requires_key (spec_of e) \<and> ref = [] then (Inr [], ss)
      else case get_secret (ph_py h) ref ss of
          (None, ss) \<Rightarrow> (Inl (Missing_key_error pid ref), ss)
        | (Some v, ss) \<Rightarrow> (Inr v, ss))"

definition upper_char :: "char \<Rightarrow> char" where
  "upper_char c = (let n = (of_char c :: nat) in if 97 \<le> n \<and> n \<le> 122 then char_of (n - 32) else c)"

text \<open>\<open>re.sub("[^A-Za-z0-9]+", "_", s)\<close>: a run of other characters becomes one.\<close>

fun squeeze :: "(char \<Rightarrow> bool) \<Rightarrow> char \<Rightarrow> bool \<Rightarrow> string \<Rightarrow> string" where
  "squeeze P d inside [] = []"
| "squeeze P d inside (c # cs) =
     (if P c then c # squeeze P d False cs else if inside then squeeze P d True cs else d # squeeze P d True cs)"

definition strip_ends :: "char \<Rightarrow> string \<Rightarrow> string" where
  "strip_ends c s = strip_right c (strip_left c s)"

definition minted_ref :: "string \<Rightarrow> string" where
  "minted_ref pid =
     (let stem = map upper_char (strip_ends (CHR ''_'') (squeeze is_alnum (CHR ''_'') False pid));
          stem = (if stem = [] then ''PROVIDER'' else stem);
          budget = 64 - length ''DERATE_'' - length ''_API_KEY''
      in ''DERATE_'' @ take budget stem @ ''_API_KEY'')"

definition key_status :: "provider_host \<Rightarrow> provider_entry \<Rightarrow> secret_store \<Rightarrow> (string \<times> string option) \<times> secret_store" where
  "key_status h e ss =
     (let ref = api_key_ref (pe_provider e) in
      if \<not> ks_requires_key (spec_of e) \<and> ref = [] then ((''not_needed'', None), ss)
      else if ref = [] then ((''missing'', None), ss)
      else let (v, ss) = env_ref ref ss in
        if v \<noteq> None then ((''set'', Some ''environment''), ss)
        else let (v, ss) = get_secret (ph_py h) ref ss in
          if v \<noteq> None then ((''set'', Some ''secrets.json''), ss) else ((''missing'', None), ss))"

section \<open>What may be routed to\<close>

definition COST_BLEND_INPUT_WEIGHT :: rat where "COST_BLEND_INPUT_WEIGHT = 0.25"
definition COST_BLEND_OUTPUT_WEIGHT :: rat where "COST_BLEND_OUTPUT_WEIGHT = 0.75"

definition blended_cost :: "provider_model \<Rightarrow> rat option" where
  "blended_cost m =
     (if input_cost_per_mtok m = None \<and> output_cost_per_mtok m = None then None
      else Some (cost_or_zero (input_cost_per_mtok m) * COST_BLEND_INPUT_WEIGHT
               + cost_or_zero (output_cost_per_mtok m) * COST_BLEND_OUTPUT_WEIGHT))"

text \<open>Sorted by priority, then by name.\<close>

definition sorted_entries :: "provider_service \<Rightarrow> provider_entry list" where
  "sorted_entries s =
     sort_key (\<lambda>e. (priority (pe_provider e), provider_id (pe_provider e))) (dvalues (prs_entries s))"

definition allowed_models :: "provider_entry \<Rightarrow> provider_model list" where
  "allowed_models e = filter (\<lambda>m. allowed_model (pe_live e) (upstream_id m)) (models (pe_provider e))"

definition servable_providers :: "provider_host \<Rightarrow> rat \<Rightarrow> provider_service \<Rightarrow> provider list \<times> provider_service" where
  "servable_providers h now s =
     (let s = s\<lparr>prs_entries := map_values (sync_entry h now) (prs_entries s)\<rparr>
      in (map (\<lambda>e. (pe_provider e)\<lparr>models := allowed_models e\<rparr>) (sorted_entries s), s))"

definition service_models :: "provider_service \<Rightarrow> (string \<times> provider_model) list" where
  "service_models s = concat (map (\<lambda>e. if enabled (pe_provider e)
     then map (\<lambda>m. (provider_id (pe_provider e), m)) (allowed_models e) else []) (sorted_entries s))"

definition find_model :: "string \<Rightarrow> provider_entry \<Rightarrow> provider_model option" where
  "find_model uid e = find (\<lambda>m. upstream_id m = uid) (rev (models (pe_provider e)))"

section \<open>Preparing a request\<close>

definition accepts_stream :: "string \<Rightarrow> bool" where
  "accepts_stream endpoint =
     (let t = strip_ends (CHR ''/'') endpoint in ends_in ''chat/completions'' t \<or> ends_in ''completions'' t)"

text \<open>The backend host the operator pinned, the \<open>stream\<close> field where the endpoint has one, and the request for a
  usage block where it can be priced.\<close>

definition pin_backend :: "provider_entry \<Rightarrow> string \<Rightarrow> json_object \<Rightarrow> json_object" where
  "pin_backend e uid p =
     (if ks_backend_routing (spec_of e) \<and> dget p ''provider'' = None
      then (case dget (lv_backend_pins (pe_live e)) uid of
              Some pin \<Rightarrow> if pin = [] then p else dset ''provider'' (JObj [(''only'', JList [JStr pin])]) p
            | None \<Rightarrow> p)
      else p)"

definition ask_stream :: "string \<Rightarrow> bool \<Rightarrow> json_object \<Rightarrow> json_object" where
  "ask_stream endpoint stream p = (if accepts_stream endpoint then dset ''stream'' (JBool stream) p else p)"

definition ask_usage :: "provider_entry \<Rightarrow> string \<Rightarrow> bool \<Rightarrow> json_object \<Rightarrow> json_object" where
  "ask_usage e uid stream p =
     (let priced = ks_meters_cost (spec_of e) \<or>
        (case find_model uid e of Some m \<Rightarrow> blended_cost m \<noteq> None | None \<Rightarrow> False)
      in if stream \<and> priced \<and> ks_stream_usage (spec_of e) \<and> dget p ''stream_options'' = None
         then dset ''stream_options'' (JObj [(''include_usage'', JBool True)]) p else p)"

definition request_payload :: "provider_entry \<Rightarrow> string \<Rightarrow> json_object \<Rightarrow> bool \<Rightarrow> string \<Rightarrow> json_object" where
  "request_payload e uid body stream endpoint =
     ask_usage e uid stream (ask_stream endpoint stream (pin_backend e uid (dset ''model'' (JStr uid) body)))"

definition prepare ::
  "provider_host \<Rightarrow> rat \<Rightarrow> string \<Rightarrow> string \<Rightarrow> json_object \<Rightarrow> bool \<Rightarrow> string \<Rightarrow> provider_service
    \<Rightarrow> (service_error + prepared) \<times> provider_service" where
  "prepare h now pid uid body stream endpoint s =
     (case dget (prs_entries s) pid of
        None \<Rightarrow> (Inl (Unknown_provider pid), s)
      | Some e \<Rightarrow>
        let live = pe_live e in
        if \<not> ks_forwardable (spec_of e) then (Inl (No_adapter_for pid (ks_unsupported (spec_of e))), s)
        else if \<not> enabled (pe_provider e) then (Inl (Not_admitting_now pid (Msg ''provider is disabled'' []) None), s)
        else if \<not> allowed_model live uid then (Inl (Not_admitting_now pid (Msg ''not enabled on this provider'' [S uid]) None), s)
        else if rate_limited now live then
          (Inl (Not_admitting_now pid (Msg ''rate limited for another'' [F (retry_in now live)]) (Some (retry_in now live))), s)
        else if over_budget now live then
          (Inl (Not_admitting_now pid (Msg ''daily budget reached'' [F (case lv_budget live of Some b \<Rightarrow> b | None \<Rightarrow> 0)]) None), s)
        else case resolve_key h pid e (prs_secrets s) of
            (Inl err, ss) \<Rightarrow> (Inl err, s\<lparr>prs_secrets := ss\<rparr>)
          | (Inr key, ss) \<Rightarrow>
            (Inr \<lparr>pr_url = join_url (base_url (pe_provider e)) endpoint,
               pr_headers = dset ''Accept'' (if stream then ''text/event-stream'' else ''application/json'')
                 (dset ''Content-Type'' ''application/json'' (auth_headers (spec_of e) (Some key))),
               pr_payload = request_payload e uid body stream endpoint\<rparr>, s\<lparr>prs_secrets := ss\<rparr>))"

end
