(* ===== verification/Provider_Health.thy ===== *)
theory Provider_Health
  imports Provider_Runtime
begin

text \<open>
  What the live state of a provider is worth: no failure keeps a provider out for good, a rejected key does
  until something gets through, and the day's spend is what the day's requests cost, whatever is pruned.
\<close>

section \<open>Days are ordered as moments\<close>

lemma civil_year: "y \<le> fst (civil y d)"
proof (induction y d rule: civil.induct)
  case (1 y d)
  then show ?case by (subst civil.simps) (auto intro: order_trans [of y "Suc y"])
qed

lemma month_day_from: "m \<le> fst (month_day m ns d)"
  by (induction m ns d rule: month_day.induct) auto

lemma month_day_mono: "d \<le> d' \<Longrightarrow> month_day m ns d \<le> month_day m ns d'"
proof (induction m ns d arbitrary: d' rule: month_day.induct)
  case (1 m n ns d)
  show ?case
  proof (cases "d < n \<and> \<not> d' < n")
    case True
    then have "m < fst (month_day (m + 1) ns (d' - n))" using month_day_from [of "m + 1" ns "d' - n"] by simp
    with True show ?thesis by (simp add: less_eq_prod_def)
  qed (use 1 in \<open>auto simp: less_eq_prod_def diff_le_mono\<close>)
qed (auto simp: less_eq_prod_def)

lemma civil_mono: "d \<le> d' \<Longrightarrow> civil y d \<le> civil y d'"
proof (induction y d arbitrary: d' rule: civil.induct)
  case (1 y d)
  show ?case
  proof (cases "d < year_length y \<and> \<not> d' < year_length y")
    case True
    then have "y < fst (civil (y + 1) (d' - year_length y))" using civil_year [of "y + 1" "d' - year_length y"] by simp
    with True show ?thesis by (subst (1 2) civil.simps) (simp add: less_eq_prod_def)
  next
    case False
    with 1 show ?thesis
      using month_day_mono [OF 1(2), of 1 "month_lengths y"]
      by (subst (1 2) civil.simps) (auto simp: less_eq_prod_def diff_le_mono)
  qed
qed

lemma utc_date_mono: "s \<le> t \<Longrightarrow> utc_date s \<le> utc_date t"
  unfolding utc_date_def by (intro civil_mono nat_mono zdiv_mono1 round_half_even_mono) auto

text \<open>The texts of dates are ordered as the dates are, as long as a year has four digits.\<close>

lemma less_append:
  fixes xs ys as bs :: string
  shows "length xs = length ys \<Longrightarrow> (xs @ as < ys @ bs) = (xs < ys \<or> xs = ys \<and> as < bs)"
  by (induction xs ys rule: list_induct2) auto

lemma length_padded [simp]: "length (padded k n) = k"
  by (induction k arbitrary: n) auto

lemma digit_less: "(char_of (48 + a mod 10) < (char_of (48 + b mod 10) :: char)) = (a mod 10 < b mod (10 :: nat))"
proof -
  have "x mod 10 + 48 < 256" for x :: nat using mod_less_divisor [of 10 x] by linarith
  then show ?thesis by (simp add: less_char_def add.commute [of 48])
qed

lemma padded_less:
  "a < b \<Longrightarrow> b < 10 ^ k \<Longrightarrow> padded k a < padded k b"
proof (induction k arbitrary: a b)
  case (Suc k)
  have b: "b div 10 < 10 ^ k" using Suc.prems(2) by (simp add: less_mult_imp_div_less)
  show ?case
  proof (cases "a div 10 = b div 10")
    case True
    then have "a mod 10 < b mod 10" using Suc.prems(1) by (metis div_mult_mod_eq nat_add_left_cancel_less)
    then show ?thesis using True by (simp add: less_append digit_less)
  next
    case False
    then have "a div 10 < b div 10" using Suc.prems(1) by (simp add: div_le_mono order_less_le)
    then show ?thesis using Suc.IH [OF _ b] by (simp add: less_append)
  qed
qed simp

definition small_date :: "date \<Rightarrow> bool" where
  "small_date d \<longleftrightarrow> fst d < 10000 \<and> fst (snd d) < 100 \<and> snd (snd d) < 100"

lemma date_text_mono: "d \<le> e \<Longrightarrow> small_date d \<Longrightarrow> small_date e \<Longrightarrow> date_text d \<le> date_text e"
proof -
  assume le: "d \<le> e" and s: "small_date d" "small_date e"
  obtain y m x where d: "d = (y, m, x)" by (cases d)
  obtain y' m' x' where e: "e = (y', m', x')" by (cases e)
  have "y < y' \<or> y = y' \<and> (m < m' \<or> m = m' \<and> x \<le> x')" using le d e by (auto simp: less_eq_prod_def)
  moreover have "y < y' \<Longrightarrow> padded 4 y < padded 4 y'" "m < m' \<Longrightarrow> padded 2 m < padded 2 m'" "x < x' \<Longrightarrow> padded 2 x < padded 2 x'"
    using s d e by (auto simp: small_date_def intro: padded_less)
  ultimately have "date_text d < date_text e \<or> d = e"
    unfolding date_text_def d e by (auto simp: less_append order_le_less)
  then show ?thesis by auto
qed

lemma month_day_small:
  "d < sum_list ns \<Longrightarrow> \<forall>n \<in> set ns. n \<le> 31 \<Longrightarrow>
    fst (month_day m ns d) < m + length ns \<and> snd (month_day m ns d) \<le> 31"
  by (induction m ns d rule: month_day.induct) (auto simp: less_diff_conv2 not_less Suc_le_eq)

lemma civil_small: "fst (snd (civil y d)) < 100 \<and> snd (snd (civil y d)) < 100"
proof (induction y d rule: civil.induct)
  case (1 y d)
  have "sum_list (month_lengths y) = year_length y" by (simp add: month_lengths_def year_length_def)
  moreover have "length (month_lengths y) = 12" "\<forall>n \<in> set (month_lengths y). n \<le> 31" by (auto simp: month_lengths_def)
  ultimately show ?case using 1 month_day_small [of d "month_lengths y" 1] by (subst (1 2) civil.simps) auto
qed

definition four_digit_year :: "rat \<Rightarrow> bool" where
  "four_digit_year t \<longleftrightarrow> fst (utc_date t) < 10000"

lemma utc_day_mono: "s \<le> t \<Longrightarrow> four_digit_year t \<Longrightarrow> utc_day s \<le> utc_day t"
proof -
  assume le: "s \<le> t" and y: "four_digit_year t"
  have d: "utc_date s \<le> utc_date t" using le by (rule utc_date_mono)
  then have "fst (utc_date s) < 10000" using y by (auto simp: four_digit_year_def less_eq_prod_def)
  then show ?thesis using date_text_mono [OF d] y civil_small
    by (simp add: utc_day_def small_date_def four_digit_year_def utc_date_def)
qed

lemma four_digit_mono: "s \<le> t \<Longrightarrow> four_digit_year t \<Longrightarrow> four_digit_year s"
  using utc_date_mono [of s t] by (auto simp: four_digit_year_def less_eq_prod_def)

section \<open>Pruning\<close>

lemma dget_foldl_dpop: "dget (foldl (\<lambda>d k. dpop k d) d ks) k = (if k \<in> set ks then None else dget d k)"
  by (induction ks arbitrary: d) auto

lemma dict_ok_foldl_dpop: "dict_ok d \<Longrightarrow> dict_ok (foldl (\<lambda>d k. dpop k d) d ks)"
  by (induction ks arbitrary: d) auto

lemma greatest_not_taken:
  assumes "sorted xs" "distinct xs" "n < length xs" "\<forall>y \<in> set xs. y \<le> x"
  shows "x \<notin> set (take n xs)"
proof
  assume "x \<in> set (take n xs)"
  then obtain i where i: "i < n" "i < length xs" "xs ! i = x" by (auto simp: in_set_conv_nth)
  have "xs ! i \<le> xs ! n" using assms(1,3) i by (intro sorted_nth_mono) auto
  moreover have "xs ! n \<le> x" using assms(3,4) by auto
  ultimately have "xs ! i = xs ! n" using i by auto
  then show False using assms(2,3) i by (simp add: nth_eq_iff_index_eq)
qed

definition days :: "provider_live \<Rightarrow> string set" where
  "days p = dom (map_of (lv_spend p))"

lemma days_keys: "days p = set (dkeys (lv_spend p))"
  by (simp add: days_def dom_map_of_conv_image_fst)

text \<open>The newest day is never pruned.\<close>

lemma dget_prune_newest:
  assumes "dict_ok (lv_spend p)" "\<forall>k \<in> days p. k \<le> today"
  shows "dget (lv_spend (prune_spend keep p)) today = dget (lv_spend p) today"
proof (cases "length (lv_spend p) \<le> keep \<or> keep = 0")
  case False
  let ?ks = "take (length (lv_spend p) - keep) (sort (dkeys (lv_spend p)))"
  have "today \<notin> set ?ks" using assms False unfolding days_keys by (intro greatest_not_taken) auto
  with False show ?thesis by (simp add: prune_spend_def dget_foldl_dpop)
qed (auto simp: prune_spend_def)

lemma days_prune: "days (prune_spend keep p) \<subseteq> days p"
  by (auto simp: days_def dom_def prune_spend_def dget_foldl_dpop split: if_splits)

lemma dict_ok_prune: "dict_ok (lv_spend p) \<Longrightarrow> dict_ok (lv_spend (prune_spend keep p))"
  by (simp add: prune_spend_def dict_ok_foldl_dpop)

section \<open>The ledger of a provider's spend\<close>

record priced_usage =
  pu_now :: rat
  pu_in :: int
  pu_out :: int
  pu_in_cost :: "rat option"
  pu_out_cost :: "rat option"
  pu_metered :: "rat option"

text \<open>What \<open>ProviderService._record_usage\<close> does with a request's usage: it is recorded and the days are pruned.\<close>

definition spend_step :: "priced_usage \<Rightarrow> provider_live \<Rightarrow> rat \<times> provider_live" where
  "spend_step u p =
     (let (c, p) = record_live_usage (pu_now u) (pu_in u) (pu_out u) (pu_in_cost u) (pu_out_cost u) (pu_metered u) p
      in (c, prune_spend SPEND_KEEP_DAYS p))"

fun ledger :: "priced_usage list \<Rightarrow> provider_live \<Rightarrow> (rat \<times> rat) list \<times> provider_live" where
  "ledger [] p = ([], p)"
| "ledger (u # us) p =
     (let (c, p) = spend_step u p; (cs, p) = ledger us p in ((pu_now u, c) # cs, p))"

lemma day_of_on_day:
  "dget_or (lv_spend (on_day t f p)) d new_day =
     (if d = utc_day t then f (dget_or (lv_spend p) d new_day) else dget_or (lv_spend p) d new_day)"
  by (cases "d = utc_day t") (simp_all add: on_day_def dget_or_def)

lemma record_spend:
  "spend_today now (snd (record_live_usage t i j a b m p)) =
     spend_today now p + (if utc_day now = utc_day t then fst (record_live_usage t i j a b m p) else 0)"
  by (cases m; cases "a = None \<and> b = None") (simp_all add: record_live_usage_def spend_today_def day_of_on_day Let_def)

lemma days_on_day: "days (on_day now f p) = insert (utc_day now) (days p)"
  by (auto simp: days_def dom_def on_day_def)

lemma days_record: "days (snd (record_live_usage t i j a b m p)) = insert (utc_day t) (days p)"
  by (simp add: record_live_usage_def Let_def days_on_day split: option.splits)

lemma dict_ok_record: "dict_ok (lv_spend p) \<Longrightarrow> dict_ok (lv_spend (snd (record_live_usage t i j a b m p)))"
  by (simp add: record_live_usage_def on_day_def Let_def split: option.splits)

lemma budget_record [simp]: "lv_budget (snd (record_live_usage t i j a b m p)) = lv_budget p"
  by (simp add: record_live_usage_def on_day_def Let_def split: option.splits)

lemma budget_prune [simp]: "lv_budget (prune_spend k p) = lv_budget p"
  by (simp add: prune_spend_def)

definition spend_kept :: "rat \<Rightarrow> provider_live \<Rightarrow> bool" where
  "spend_kept t p \<longleftrightarrow> dict_ok (lv_spend p) \<and> (\<forall>k \<in> days p. k \<le> utc_day t)"

lemma spend_step_eq:
  "spend_step u p = (fst (record_live_usage (pu_now u) (pu_in u) (pu_out u) (pu_in_cost u) (pu_out_cost u) (pu_metered u) p),
     prune_spend SPEND_KEEP_DAYS (snd (record_live_usage (pu_now u) (pu_in u) (pu_out u) (pu_in_cost u) (pu_out_cost u) (pu_metered u) p)))"
  by (simp add: spend_step_def split_def Let_def)

lemma record_kept:
  assumes "spend_kept t p" "t \<le> t'" "four_digit_year t'"
  shows "spend_kept t' (snd (record_live_usage t' i j a b m p))"
  using assms(1) order_trans [OF _ utc_day_mono [OF assms(2,3)]]
  by (auto simp: spend_kept_def days_record intro: dict_ok_record)

lemma prune_kept: "spend_kept t p \<Longrightarrow> spend_kept t (prune_spend keep p)"
  using days_prune [of keep p] by (auto simp: spend_kept_def intro: dict_ok_prune)

lemma prune_spend_today:
  assumes "spend_kept t p" "t \<le> now" "four_digit_year now"
  shows "spend_today now (prune_spend keep p) = spend_today now p"
  using assms(1) order_trans [OF _ utc_day_mono [OF assms(2,3)]]
  by (auto simp: spend_kept_def spend_today_def dget_or_def dget_prune_newest)

lemma spend_step_kept: "spend_kept t p \<Longrightarrow> t \<le> pu_now u \<Longrightarrow> four_digit_year (pu_now u) \<Longrightarrow> spend_kept (pu_now u) (snd (spend_step u p))"
  by (simp add: spend_step_eq prune_kept record_kept)

lemma spend_step_spend:
  assumes "spend_kept t p" "t \<le> pu_now u" "pu_now u \<le> now" "four_digit_year now"
  shows "spend_today now (snd (spend_step u p)) =
    spend_today now p + (if utc_day now = utc_day (pu_now u) then fst (spend_step u p) else 0)"
  unfolding spend_step_eq snd_conv fst_conv prune_spend_today [OF record_kept [OF assms(1,2) four_digit_mono [OF assms(3,4)]] assms(3,4)]
  by (rule record_spend)

lemma ledger_spend:
  assumes "spend_kept t p" "sorted (t # map pu_now us @ [now])" "four_digit_year now"
  shows "spend_today now (snd (ledger us p)) =
    spend_today now p + sum_list (map snd (filter (\<lambda>c. utc_day (fst c) = utc_day now) (fst (ledger us p))))"
  using assms
proof (induction us arbitrary: t p)
  case (Cons u us)
  let ?q = "snd (spend_step u p)"
  have u: "pu_now u \<le> now" using Cons.prems(2) by simp
  have "spend_kept (pu_now u) ?q"
    using Cons.prems four_digit_mono [OF u Cons.prems(3)] by (auto intro: spend_step_kept)
  then have "spend_today now (snd (ledger us ?q)) =
      spend_today now ?q + sum_list (map snd (filter (\<lambda>c. utc_day (fst c) = utc_day now) (fst (ledger us ?q))))"
    using Cons.prems by (intro Cons.IH [of "pu_now u"]) auto
  moreover have "spend_today now ?q =
      spend_today now p + (if utc_day now = utc_day (pu_now u) then fst (spend_step u p) else 0)"
    using Cons.prems by (intro spend_step_spend) auto
  ultimately show ?case by (simp add: split_def Let_def)
qed simp

lemma ledger_budget [simp]: "lv_budget (snd (ledger us p)) = lv_budget p"
  by (induction us arbitrary: p) (simp_all add: split_def Let_def spend_step_def)

section \<open>Health\<close>

text \<open>What happens to a provider's health between two edits: a request that got through, the four ways one can
  fail, a look at the record, which lets an expired wait go, and its model list read again, or not, with or
  without models from an earlier time. An error raised on the way is not the state. The list is
  \<open>refresh_async\<close> and \<open>_note_refresh_failure\<close> of service.py, where its steps are those of \<open>read_listing\<close>.\<close>

datatype live_event =
    Got_through | Rate_limited_by "string option" string | Server_failed int string | Auth_failed int string string
  | Not_reached string | Looked_at | List_read | List_failed bool msg

fun live_step :: "header_reader \<Rightarrow> rat \<times> live_event \<Rightarrow> provider_live \<Rightarrow> provider_live" where
  "live_step hr (t, Got_through) p = note_success p"
| "live_step hr (t, Rate_limited_by ra m) p = snd (note_rate_limit hr t ra m p)"
| "live_step hr (t, Server_failed st m) p = snd (note_server_error t st m p)"
| "live_step hr (t, Auth_failed st r m) p = note_auth_failure st r m p"
| "live_step hr (t, Not_reached m) p = snd (note_transport_error t m p)"
| "live_step hr (t, Looked_at) p = half_open t p"
| "live_step hr (t, List_read) p = p\<lparr>lv_last_refreshed := t, lv_healthy := True, lv_last_error := None\<rparr>"
| "live_step hr (t, List_failed cached m) p = p\<lparr>lv_last_error := Some m, lv_healthy := lv_healthy p \<and> cached\<rparr>"

definition live_run :: "header_reader \<Rightarrow> (rat \<times> live_event) list \<Rightarrow> provider_live \<Rightarrow> provider_live" where
  "live_run hr es p = foldl (\<lambda>p e. live_step hr e p) p es"

lemma live_run_simps [simp]:
  "live_run hr [] p = p" "live_run hr (e # es) p = live_run hr es (live_step hr e p)"
  "live_run hr (es @ fs) p = live_run hr fs (live_run hr es p)"
  by (simp_all add: live_run_def)

text \<open>What keeps a provider out until something else comes: a rejected key, and a model list that failed with
  nothing to serve from.\<close>

fun keeps_out :: "live_event \<Rightarrow> bool" where
  "keeps_out (Auth_failed _ _ _) = True"
| "keeps_out (List_failed cached _) = (\<not> cached)"
| "keeps_out _ = False"

lemma backoff_bounds: "backoff_seconds n = Inr s \<Longrightarrow> 1 \<le> s \<and> s \<le> 60"
  by (auto simp: backoff_seconds_def BACKOFF_MAX_S_def BACKOFF_MIN_S_def min_def split: if_splits)

lemma capped_pause_le: "capped_pause x \<le> 300"
  by (cases x) (auto simp: RETRY_AFTER_MAX_S_def)

text \<open>The waits are short, no key is rejected, and an unhealthy provider waits for a definite moment.\<close>

definition waits_ok :: "rat \<Rightarrow> provider_live \<Rightarrow> bool" where
  "waits_ok t p \<longleftrightarrow> lv_backoff_until p \<le> t + 300 \<and> lv_failure_until p \<le> t + 60 \<and> \<not> lv_auth_rejected p
     \<and> (\<not> lv_healthy p \<longrightarrow> 0 < lv_failure_until p) \<and> (0 < lv_failures p \<longrightarrow> 0 < lv_failure_until p)"

lemma waits_back_off:
  assumes "waits_ok t p" "t \<le> t'" "0 \<le> t'"
  shows "waits_ok t' (snd (back_off t' (p\<lparr>lv_healthy := False, lv_last_error := m\<rparr>)))"
proof (cases "backoff_seconds (lv_failures p)")
  case (Inl e)
  then have "0 < lv_failures p" by (cases "lv_failures p") (auto simp: backoff_seconds_def)
  with Inl assms show ?thesis by (auto simp: back_off_def waits_ok_def)
next
  case (Inr s)
  with assms backoff_bounds [OF Inr] show ?thesis by (auto simp: back_off_def waits_ok_def)
qed

lemma waits_step:
  assumes "waits_ok t p" "t \<le> t'" "0 \<le> t'" "\<not> keeps_out e"
  shows "waits_ok t' (live_step hr (t', e) p)"
proof (cases e)
  case (Rate_limited_by ra m)
  have "waits_ok t' (p\<lparr>lv_rate_limits := n, lv_backoff_until := t' + s, lv_last_error := x\<rparr>)" if "s \<le> 300" for n s x
    using assms that by (auto simp: waits_ok_def)
  moreover have "waits_ok t' p" using assms by (auto simp: waits_ok_def)
  ultimately show ?thesis
    using Rate_limited_by capped_pause_le backoff_bounds
    by (fastforce simp: note_rate_limit_def split: option.splits sum.splits)
next
  case (Server_failed st m)
  then show ?thesis using waits_back_off [OF assms(1-3)] by (simp add: note_server_error_def)
next
  case (Not_reached m)
  then show ?thesis using waits_back_off [OF assms(1-3)] by (simp add: note_transport_error_def)
next
  case (List_failed cached m)
  then show ?thesis using assms by (cases cached) (auto simp: waits_ok_def)
qed (use assms in \<open>auto simp: waits_ok_def note_success_def half_open_def\<close>)

lemma waits_run:
  assumes "waits_ok t p" "sorted (t # map fst es)" "0 \<le> t" "\<forall>e \<in> set es. \<not> keeps_out (snd e)"
  shows "waits_ok (last (t # map fst es)) (live_run hr es p)"
  using assms
proof (induction es arbitrary: t p)
  case (Cons e es)
  obtain t' x where e: "e = (t', x)" by (cases e)
  have "waits_ok t' (live_step hr e p)" using Cons.prems e by (auto intro: waits_step)
  then show ?case using Cons.IH [of t' "live_step hr e p"] Cons.prems e by auto
qed simp

lemma live_keeps [simp]:
  "lv_missing_key (live_run hr es p) = lv_missing_key p" "lv_budget (live_run hr es p) = lv_budget p"
  "lv_spend (live_run hr es p) = lv_spend p"
proof -
  have "lv_missing_key (live_step hr e p) = lv_missing_key p \<and> lv_budget (live_step hr e p) = lv_budget p
      \<and> lv_spend (live_step hr e p) = lv_spend p" for e p
    by (cases e; cases "snd e")
      (auto simp: note_success_def note_rate_limit_def note_server_error_def note_transport_error_def
        note_auth_failure_def half_open_def back_off_def split: sum.splits option.splits)
  then show "lv_missing_key (live_run hr es p) = lv_missing_key p" "lv_budget (live_run hr es p) = lv_budget p"
    "lv_spend (live_run hr es p) = lv_spend p"
    by (induction es arbitrary: p) simp_all
qed

lemma half_open_keeps [simp]:
  "lv_missing_key (half_open t p) = lv_missing_key p" "over_budget t (half_open t p) = over_budget t p"
  "lv_backoff_until (half_open t p) = lv_backoff_until p" "lv_failure_until (half_open t p) = lv_failure_until p"
  "lv_auth_rejected (half_open t p) = lv_auth_rejected p"
  by (simp_all add: half_open_def over_budget_def spend_today_def split: option.split)

lemma waits_end:
  assumes "waits_ok t p" "t + 300 \<le> now" "lv_missing_key p = None" "\<not> over_budget now p"
  shows "lv_healthy (half_open now p) \<and> live_admitting now (half_open now p)"
proof -
  have h: "lv_healthy (half_open now p)" using assms(1,2) by (auto simp: waits_ok_def half_open_def)
  moreover have "\<not> lv_auth_rejected p" "lv_backoff_until p \<le> now" using assms(1,2) by (auto simp: waits_ok_def)
  ultimately show ?thesis using assms(3,4) by (simp add: live_admitting_def live_block_def rate_limited_def)
qed

text \<open>A rejected key blocks, whatever the list says, through everything but a request that got through.\<close>

lemma rejected_run:
  "lv_auth_rejected p \<Longrightarrow> \<forall>e \<in> set es. snd e \<noteq> Got_through \<Longrightarrow> lv_auth_rejected (live_run hr es p)"
proof (induction es arbitrary: p)
  case (Cons e es)
  have "lv_auth_rejected (live_step hr e p)" using Cons.prems
    by (cases e; cases "snd e")
      (auto simp: note_rate_limit_def note_server_error_def note_transport_error_def note_auth_failure_def half_open_def
        back_off_def split: sum.splits option.splits)
  then show ?case using Cons.IH [of "live_step hr e p"] Cons.prems by simp
qed simp

text \<open>A provider without models whose list fails while it waits for nothing is out, and no time brings it back.\<close>

lemma unlisted_stays_out:
  assumes "lv_failure_until p \<le> 0"
  shows "\<not> live_admitting now (half_open now (live_step hr (t, List_failed False m) p))"
  using assms by (auto simp: half_open_def live_admitting_def live_block_def split: option.split)

text \<open>Failures in a row: each doubles the wait, up to a minute.\<close>

lemma failures_run:
  assumes "\<forall>e \<in> set es. \<exists>m. snd e = Not_reached m" "lv_failures p + length es \<le> 1024"
  shows "lv_failures (live_run hr es p) = lv_failures p + length es"
  using assms
proof (induction es arbitrary: p)
  case (Cons e es)
  obtain t m where e: "e = (t, Not_reached m)" using Cons.prems by (cases e) auto
  have "lv_failures (live_step hr e p) = lv_failures p + 1"
    using Cons.prems e by (simp add: note_transport_error_def back_off_def backoff_seconds_def)
  then show ?case using Cons.IH [of "live_step hr e p"] Cons.prems by simp
qed simp

section \<open>Guarantees\<close>

lemma over_budget_run [simp]: "over_budget now (live_run hr es p) = over_budget now p"
  by (simp add: over_budget_def spend_today_def split: option.split)

text \<open>C7: no failed request keeps a provider out for good: five minutes after the last event of any history of
  answers, refusals, failures and readings of its model list, a look at it finds it healthy and admitting. Set
  apart are what \<open>keeps_out\<close> names, a rejected key and a model list that failed with no models cached, which
  block until a refresh or an edit, a key that does not resolve, and a spent budget; and the history starts in
  a state without these: no key rejected, and, if the provider is unhealthy, a failure's wait running
  (\<open>waits_ok\<close>), as in a new one.\<close>

theorem every_wait_ends:
  assumes "waits_ok t p" and "sorted (t # map fst es)" and "0 \<le> t" and "\<forall>e \<in> set es. \<not> keeps_out (snd e)"
    and "last (t # map fst es) + 300 \<le> now" and "lv_missing_key p = None" and "\<not> over_budget now p"
  shows "lv_healthy (half_open now (live_run hr es p)) \<and> live_admitting now (half_open now (live_run hr es p))"
  by (rule waits_end [OF waits_run [OF assms(1-4)] assms(5)]) (use assms in simp_all)

definition plain_reader :: header_reader where
  "plain_reader = \<lparr>to_float = (\<lambda>s. if s = ''inf'' then Some Plus_inf else None), to_date = (\<lambda>s. None)\<rparr>"

theorem every_wait_ends_witness:
  "live_admitting 400 (half_open 400 (live_run plain_reader
     [(10, Not_reached ''ReadTimeout''), (20, Rate_limited_by (Some ''inf'') ''slow down''), (25, List_failed True (Msg ''refresh'' [])),
      (30, Server_failed 503 ''busy'')] new_provider_live))"
proof -
  have "waits_ok 0 new_provider_live" by (simp add: waits_ok_def new_provider_live_def)
  from every_wait_ends [OF this, of "[(10, Not_reached ''ReadTimeout''), (20, Rate_limited_by (Some ''inf'') ''slow down''),
      (25, List_failed True (Msg ''refresh'' [])), (30, Server_failed 503 ''busy'')]" 400 plain_reader]
  show ?thesis by (simp add: new_provider_live_def over_budget_def)
qed

text \<open>C17: the day's spend is what the day's requests were charged, added to what it was, whatever the ledger of
  older days forgets; and the budget is reached exactly when that sum reaches it.\<close>

theorem spend_is_what_was_charged:
  assumes "spend_kept t p" and "sorted (t # map pu_now us @ [now])" and "four_digit_year now"
  shows "let total = spend_today now p + sum_list (map snd (filter (\<lambda>c. utc_day (fst c) = utc_day now) (fst (ledger us p))))
    in spend_today now (snd (ledger us p)) = total
       \<and> over_budget now (snd (ledger us p)) = (\<exists>b. lv_budget p = Some b \<and> b \<le> total)"
  using ledger_spend [OF assms] by (simp add: Let_def over_budget_def split: option.split)

definition two_usages :: "priced_usage list" where
  "two_usages = [\<lparr>pu_now = 10, pu_in = 1000000, pu_out = 0, pu_in_cost = Some 2, pu_out_cost = None, pu_metered = None\<rparr>,
     \<lparr>pu_now = 20, pu_in = 5, pu_out = 5, pu_in_cost = None, pu_out_cost = None, pu_metered = Some 3\<rparr>]"

theorem spend_is_what_was_charged_witness:
  "spend_today 30 (snd (ledger two_usages new_provider_live)) = 5"
proof -
  have k: "spend_kept 0 new_provider_live" by (simp add: spend_kept_def days_def new_provider_live_def)
  have s: "sorted (0 # map pu_now two_usages @ [30])" by (simp add: two_usages_def)
  have "civil 1970 0 = (1970, 1, 1)" by (simp add: civil.simps year_length_def month_lengths_def)
  then have u: "utc_date 10 = (1970, 1, 1)" "utc_date 20 = (1970, 1, 1)" "utc_date 30 = (1970, 1, 1)"
    by (simp_all add: utc_date_def round_half_even_def)
  have d: "utc_day 10 = utc_day 30" "utc_day 20 = utc_day 30" by (simp_all add: utc_day_def u)
  have y: "four_digit_year 30" by (simp add: four_digit_year_def u)
  have "map snd (filter (\<lambda>c. utc_day (fst c) = utc_day 30) (fst (ledger two_usages new_provider_live))) = [2, 3]"
    by (simp add: two_usages_def spend_step_eq record_live_usage_def cost_or_zero_def split_def Let_def d)
  then show ?thesis using spend_is_what_was_charged [OF k s y]
    by (simp add: Let_def spend_today_def dget_or_def new_provider_live_def new_day_def)
qed

section \<open>Where it breaks\<close>

text \<open>The 1025th failure in a row: \<open>2 ** 1024\<close> has no float, the error goes through the request, and the count
  stays where it is, so every later failure raises too.\<close>

lemma failures_overflow:
  assumes "lv_failures p = 1024"
  shows "fst (note_transport_error now m p) = Inl OverflowError \<and> lv_failures (snd (note_transport_error now m p)) = 1024"
  using assms by (simp add: note_transport_error_def back_off_def backoff_seconds_def)

lemma a_long_outage_overflows:
  assumes "\<forall>e \<in> set es. \<exists>m. snd e = Not_reached m" and "length es = 1024"
  shows "fst (note_transport_error now m (live_run hr es new_provider_live)) = Inl OverflowError"
proof -
  have z: "lv_failures new_provider_live = 0" by (simp add: new_provider_live_def)
  have "lv_failures (live_run hr es new_provider_live) = 0 + length es"
    using failures_run [OF assms(1), of new_provider_live hr] unfolding z assms(2) by simp
  then show ?thesis unfolding assms(2) add_0 by (rule conjunct1 [OF failures_overflow])
qed

text \<open>A 429 that asks for less, or an answer to an older request, takes back a longer pause another 429 asked for.\<close>

lemma pause_is_taken_back:
  "let p = live_run \<lparr>to_float = (\<lambda>s. Some (Number 100)), to_date = (\<lambda>s. None)\<rparr>
             [(0, Rate_limited_by (Some ''100'') ''slow down''), (1, Rate_limited_by None ''slow down'')] new_provider_live
   in live_admitting 4 p"
  by code_simp

lemma pause_is_forgotten:
  "live_admitting 1 (live_run \<lparr>to_float = (\<lambda>s. Some (Number 100)), to_date = (\<lambda>s. None)\<rparr>
     [(0, Rate_limited_by (Some ''100'') ''slow down''), (1, Got_through)] new_provider_live)"
  by code_simp

text \<open>A provider with a wait behind it is healthy again at the next look although its key does not resolve.\<close>

lemma keyless_but_healthy:
  "lv_healthy (half_open 20 (note_missing_key ''KEY'' (live_run plain_reader [(0, Not_reached ''ReadTimeout'')] new_provider_live)))"
  by code_simp

end
