(* ===== verification/Provider_Turn.thy ===== *)
theory Provider_Turn
  imports Provider_Service Provider_Health Deploy_Recipes
begin

text \<open>
  One request through a provider, \<open>ProviderService.open_upstream\<close> of \<open>control_plane/providers/service.py\<close>: the
  guards, at most one repetition of a 5xx, what each answer does to the provider's state, and the end of the
  body, which settles its health and its spend. The turn ends in \<open>close_turn\<close>; between the two other
  requests may run.
\<close>

section \<open>An upstream's own words\<close>

definition ERROR_BODY_LIMIT_BYTES :: nat where "ERROR_BODY_LIMIT_BYTES = 8192"

fun text_or_none :: "json \<Rightarrow> string option" where
  "text_or_none (JStr s) = (if s = [] then None else Some s)"
| "text_or_none _ = None"

definition error_field :: "py_text \<Rightarrow> json_object \<Rightarrow> string" where
  "error_field py d =
     (case dget d ''error'' of
        Some (JObj err) \<Rightarrow> (let m = got err ''message'' in if truth_of m then str_of py m else [])
      | Some (JStr s) \<Rightarrow> s
      | _ \<Rightarrow> [])"

definition error_message :: "provider_host \<Rightarrow> redactor \<Rightarrow> int \<Rightarrow> string \<Rightarrow> string" where
  "error_message h rd st raw =
     (let t = str_strip raw;
          m = (if starts_with ''{'' t
               then case ph_parse h t of
                   Some (JObj d) \<Rightarrow>
                     (let m = error_field (ph_py h) d in
                      if m \<noteq> [] then m
                      else case first_of text_or_none d [''message'', ''detail'', ''error_message''] of Some m \<Rightarrow> m | None \<Rightarrow> [])
                 | _ \<Rightarrow> []
               else []);
          m = (if m \<noteq> [] then m else let t = take 512 t in if t \<noteq> [] then t else ''HTTP '' @ show_int st)
      in scrub rd m)"

definition DROP_HEADERS :: "string list" where
  "DROP_HEADERS = [''connection'', ''keep-alive'', ''proxy-authenticate'', ''proxy-authorization'', ''te'', ''trailer'',
     ''transfer-encoding'', ''upgrade'', ''content-length'', ''content-encoding'', ''authorization'', ''x-api-key'', ''set-cookie'']"

definition safe_headers :: "redactor \<Rightarrow> (string \<times> string) list \<Rightarrow> (string, string) dict" where
  "safe_headers rd hs = foldl (\<lambda>d (k, v). if str_lower k \<in> set DROP_HEADERS then d else dset k (scrub rd v) d) [] hs"

section \<open>The count of requests under way\<close>

definition take_out :: "string \<Rightarrow> provider_live \<Rightarrow> provider_live" where
  "take_out uid p = p\<lparr>lv_outstanding := dset uid (dget_or (lv_outstanding p) uid 0 + 1) (lv_outstanding p)\<rparr>"

definition put_back :: "string \<Rightarrow> provider_live \<Rightarrow> provider_live" where
  "put_back uid p =
     (let n = dget_or (lv_outstanding p) uid 0 - 1
      in p\<lparr>lv_outstanding := if n \<le> 0 then dpop uid (lv_outstanding p) else dset uid n (lv_outstanding p)\<rparr>)"

section \<open>Sending\<close>

text \<open>What the network answers to one send: nothing, or a status, headers as the client's mapping gives them, one
  value per name, and, of an error, the body.\<close>

datatype upstream_answer = No_answer string | Answer int "(string \<times> string) list" string

definition answer_header :: "(string \<times> string) list \<Rightarrow> string \<Rightarrow> string option" where
  "answer_header hs name = map_option snd (find (\<lambda>(k, v). str_lower k = name) hs)"

text \<open>A note that raises, or the error the request ends in.\<close>

definition note_raises ::
  "(py_error + rat) \<times> provider_live \<Rightarrow> (rat \<Rightarrow> service_error) \<Rightarrow> nat \<Rightarrow> (service_error + 'a) \<times> provider_live \<times> nat" where
  "note_raises n err k = (Inl (case fst n of Inl _ \<Rightarrow> Too_many_failures | Inr s \<Rightarrow> err s), snd n, k)"

definition SERVER_ERROR_RETRIES :: nat where "SERVER_ERROR_RETRIES = 1"

text \<open>\<open>net i req\<close> is the moment of the \<open>i\<close>-th send and the answer to the request sent; \<open>left\<close> the repetitions left.
  Also returned is how many sends there were.\<close>

type_synonym network = "nat \<Rightarrow> prepared \<Rightarrow> rat \<times> upstream_answer"

fun send ::
  "provider_host \<Rightarrow> redactor \<Rightarrow> string \<Rightarrow> string \<Rightarrow> prepared \<Rightarrow> nat \<Rightarrow> nat \<Rightarrow> network \<Rightarrow> provider_live
    \<Rightarrow> (service_error + int \<times> (string \<times> string) list) \<times> provider_live \<times> nat" where
  "send h rd pid ref req left i net p =
     (case net i req of
        (now, No_answer err) \<Rightarrow>
          note_raises (note_transport_error now err p)
            (\<lambda>_. Upstream_failed pid 502 (''could not reach upstream: '' @ err) [] None) (i + 1)
      | (now, Answer st hs raw) \<Rightarrow>
        if st < 400 then (Inr (st, hs), p, i + 1)
        else
          let raw = take ERROR_BODY_LIMIT_BYTES raw; m = error_message h rd st raw; ra = answer_header hs ''retry-after'';
              fail = (\<lambda>pause. Upstream_failed pid st m (scrub rd raw) pause)
          in if st = 429 then
               note_raises (note_rate_limit (ph_reader h) now ra m p) (\<lambda>s. fail (Some (Number s))) (i + 1)
             else if st = 401 \<or> st = 403 then (Inl (fail None), note_auth_failure st ref m p, i + 1)
             else if st \<ge> 500 then
               (case left of
                  Suc n \<Rightarrow> send h rd pid ref req n (i + 1) net p
                | 0 \<Rightarrow> note_raises (note_server_error now st m p) (\<lambda>_. fail (parse_retry_after (ph_reader h) ra now)) (i + 1))
             else (Inl (fail (parse_retry_after (ph_reader h) ra now)), p, i + 1))"

declare send.simps [simp del]

definition on_live :: "string \<Rightarrow> (provider_live \<Rightarrow> provider_live) \<Rightarrow> provider_service \<Rightarrow> provider_service" where
  "on_live pid f s = (case dget (prs_entries s) pid of
     None \<Rightarrow> s | Some e \<Rightarrow> put_entry pid (e\<lparr>pe_live := f (pe_live e)\<rparr>) s)"

record opened_turn =
  ot_status :: int
  ot_headers :: "(string, string) dict"
  ot_media :: "string option"
  ot_sends :: nat

definition sent_out :: "string \<Rightarrow> prepared \<Rightarrow> nat \<Rightarrow> provider_service \<Rightarrow> provider_service" where
  "sent_out pid req n s = s\<lparr>prs_wire := prs_wire s @ replicate n (pid, req)\<rparr>"

definition open_turn ::
  "provider_host \<Rightarrow> rat \<Rightarrow> string \<Rightarrow> string \<Rightarrow> json_object \<Rightarrow> bool \<Rightarrow> string \<Rightarrow> network
    \<Rightarrow> provider_service \<Rightarrow> (service_error + opened_turn) \<times> provider_service" where
  "open_turn h now pid uid body stream endpoint net s =
     (case prepare h now pid uid body stream endpoint s of
        (Inl err, s) \<Rightarrow> (Inl err, s)
      | (Inr req, s) \<Rightarrow>
        (case dget (prs_entries s) pid of
           None \<Rightarrow> (Inl (Unknown_provider pid), s)
         | Some e \<Rightarrow>
           (case send h (redactor_of s) pid (api_key_ref (pe_provider e)) req SERVER_ERROR_RETRIES 0 net (take_out uid (pe_live e)) of
              (Inl err, p, n) \<Rightarrow> (Inl err, sent_out pid req n (put_entry pid (e\<lparr>pe_live := put_back uid p\<rparr>) s))
            | (Inr (st, hs), p, n) \<Rightarrow>
              (Inr \<lparr>ot_status = st, ot_headers = safe_headers (redactor_of s) hs, ot_media = answer_header hs ''content-type'',
                 ot_sends = n\<rparr>, sent_out pid req n (put_entry pid (e\<lparr>pe_live := p\<rparr>) s)))))"

section \<open>The end of the body\<close>

definition SPEND_PERSIST_INTERVAL_S :: rat where "SPEND_PERSIST_INTERVAL_S = 30"

definition record_turn_usage ::
  "provider_host \<Rightarrow> rat \<Rightarrow> string \<Rightarrow> string \<Rightarrow> sniffer \<Rightarrow> provider_service \<Rightarrow> service_error option \<times> provider_service" where
  "record_turn_usage h now pid uid sn s =
     (case sniffed (ph_py h) (ph_parse h) sn of
        Inl err \<Rightarrow> (Some (Python err), s)
      | Inr None \<Rightarrow> (None, s)
      | Inr (Some u) \<Rightarrow>
        (let price = (\<lambda>f. case dget (prs_entries s) pid of
               Some e \<Rightarrow> (case find_model uid e of Some m \<Rightarrow> f m | None \<Rightarrow> None) | None \<Rightarrow> None);
             step = spend_step \<lparr>pu_now = now, pu_in = tu_input u, pu_out = tu_output u,
               pu_in_cost = price input_cost_per_mtok, pu_out_cost = price output_cost_per_mtok, pu_metered = tu_cost u\<rparr>;
             s = (on_live pid (\<lambda>p. snd (step p)) s)\<lparr>prs_dirty := True\<rparr>
         in if now - prs_persisted_at s \<ge> SPEND_PERSIST_INTERVAL_S then persist h now s else (None, s)))"

text \<open>\<open>clean\<close> is a body read to its end; an exception thrown into the body skips the rest but not the count.\<close>

definition close_turn ::
  "provider_host \<Rightarrow> rat \<Rightarrow> string \<Rightarrow> string \<Rightarrow> bool \<Rightarrow> sniffer \<Rightarrow> provider_service \<Rightarrow> service_error option \<times> provider_service" where
  "close_turn h now pid uid clean sn s =
     (if clean
      then let (err, s) = record_turn_usage h now pid uid sn (on_live pid note_success s) in (err, on_live pid (put_back uid) s)
      else (None, on_live pid (put_back uid) s))"

section \<open>Requests under way\<close>

text \<open>How many requests for a model of a provider are under way.\<close>

definition under_way :: "provider_service \<Rightarrow> string \<Rightarrow> string \<Rightarrow> int" where
  "under_way s pid uid = (case dget (prs_entries s) pid of None \<Rightarrow> 0 | Some e \<Rightarrow> dget_or (lv_outstanding (pe_live e)) uid 0)"

definition counted :: "provider_live \<Rightarrow> string \<Rightarrow> int" where
  "counted p uid = dget_or (lv_outstanding p) uid 0"

lemma counted_take_out: "counted (take_out uid p) v = counted p v + (if v = uid then 1 else 0)"
  by (simp add: counted_def take_out_def dget_or_def)

lemma counted_put_back: "0 < counted p uid \<Longrightarrow> counted (put_back uid p) v = counted p v - (if v = uid then 1 else 0)"
  by (auto simp: counted_def put_back_def dget_or_def Let_def)

lemma notes_keep_count [simp]:
  "lv_outstanding (note_success p) = lv_outstanding p" "lv_outstanding (note_auth_failure st r m p) = lv_outstanding p"
  "lv_outstanding (half_open now p) = lv_outstanding p" "lv_outstanding (snd (spend_step u p)) = lv_outstanding p"
  "lv_outstanding (snd (note_transport_error now m p)) = lv_outstanding p"
  "lv_outstanding (snd (note_server_error now st m p)) = lv_outstanding p"
  "lv_outstanding (snd (note_rate_limit hr now ra m p)) = lv_outstanding p"
proof -
  show "lv_outstanding (snd (spend_step u p)) = lv_outstanding p"
    unfolding spend_step_eq by (simp add: prune_spend_def record_live_usage_def on_day_def Let_def split: option.split)
qed (simp_all add: note_success_def note_auth_failure_def half_open_def note_transport_error_def note_server_error_def back_off_def
    note_rate_limit_def split: sum.split option.split)

lemma note_raises_simps [simp]: "fst (snd (note_raises n err k)) = snd n" "snd (snd (note_raises n err k)) = k" "fst (note_raises n err k) \<noteq> Inr x"
  by (simp_all add: note_raises_def)

text \<open>The cases of one send.\<close>

lemma send_cases:
  fixes x :: "(service_error + int \<times> (string \<times> string) list) \<times> provider_live \<times> nat"
  assumes "send h rd pid ref req left i net p = x" and "net i req = (now, a)"
  obtains err f where "a = No_answer err" "x = note_raises (note_transport_error now err p) f (i + 1)"
  | st hs raw where "a = Answer st hs raw" "st < 400" "x = (Inr (st, hs), p, i + 1)"
  | hs raw m f where "a = Answer 429 hs raw" "x = note_raises (note_rate_limit (ph_reader h) now (answer_header hs ''retry-after'') m p) f (i + 1)"
  | st hs raw m err where "a = Answer st hs raw" "st = 401 \<or> st = 403" "x = (Inl err, note_auth_failure st ref m p, i + 1)"
  | st hs raw k where "a = Answer st hs raw" "st \<ge> 500" "left = Suc k" "x = send h rd pid ref req k (i + 1) net p"
  | st hs raw m f where "a = Answer st hs raw" "st \<ge> 500" "left = 0" "x = note_raises (note_server_error now st m p) f (i + 1)"
  | st hs raw err where "a = Answer st hs raw" "400 \<le> st" "st < 500" "st \<notin> {401, 403, 429}" "x = (Inl err, p, i + 1)"
proof (cases a)
  case (No_answer err)
  show ?thesis
    by (rule that(1) [OF No_answer assms(1) [symmetric, unfolded send.simps [of h rd pid ref req left i net p] assms(2)
          prod.case No_answer upstream_answer.case]])
next
  case (Answer st hs raw)
  note x = assms(1) [symmetric, unfolded send.simps [of h rd pid ref req left i net p] assms(2) prod.case Answer upstream_answer.case Let_def]
  consider "st < 400" | "st = 429" | "st = 401 \<or> st = 403" | k where "st \<ge> 500" "left = Suc k" | "st \<ge> 500" "left = 0"
    | "400 \<le> st" "st < 500" "st \<notin> {401, 403, 429}"
    by (cases left) fastforce+
  then show ?thesis
  proof cases
    case 1 then show ?thesis using x that(2) [OF Answer] by simp
  next
    case 2 then show ?thesis using x that(3) Answer by simp
  next
    case 3 then show ?thesis using x that(4) [OF Answer] by auto
  next
    case 4 then show ?thesis using x that(5) [OF Answer] by simp
  next
    case 5 then show ?thesis using x that(6) [OF Answer] by simp
  next
    case 6 then show ?thesis using x that(7) [OF Answer] by auto
  qed
qed

lemma send_keeps_count: "lv_outstanding (fst (snd (send h rd pid ref req left i net p))) = lv_outstanding p"
proof (induction left arbitrary: i)
  case 0
  obtain now a where "net i req = (now, a)" by (cases "net i req")
  from send_cases [OF refl [of "send h rd pid ref req 0 i net p"] this] show ?case by cases simp_all
next
  case (Suc left)
  obtain now a where "net i req = (now, a)" by (cases "net i req")
  from send_cases [OF refl [of "send h rd pid ref req (Suc left) i net p"] this] show ?case by cases (use Suc in simp_all)
qed

lemma sends_bounded:
  "i < snd (snd (send h rd pid ref req left i net p)) \<and> snd (snd (send h rd pid ref req left i net p)) \<le> i + 1 + left"
proof (induction left arbitrary: i)
  case 0
  obtain now a where "net i req = (now, a)" by (cases "net i req")
  from send_cases [OF refl [of "send h rd pid ref req 0 i net p"] this] show ?case by cases simp_all
next
  case (Suc left)
  obtain now a where "net i req = (now, a)" by (cases "net i req")
  from send_cases [OF refl [of "send h rd pid ref req (Suc left) i net p"] this] show ?case
    by cases (use Suc [of "i + 1"] in simp_all)
qed

lemma send_count: "counted (fst (snd (send h rd pid ref req left i net p))) = counted p"
  by (simp add: counted_def [abs_def] send_keeps_count)

lemma under_way_put: "under_way (put_entry pid e s) q v = (if q = pid then counted (pe_live e) v else under_way s q v)"
  by (simp add: under_way_def put_entry_def counted_def)

lemma under_way_entry: "dget (prs_entries s) pid = Some e \<Longrightarrow> counted (pe_live e) v = under_way s pid v"
  by (simp add: under_way_def counted_def)

lemma under_way_on_live:
  "under_way (on_live pid f s) q v =
     (if q = pid \<and> dget (prs_entries s) pid \<noteq> None then counted (f (pe_live (the (dget (prs_entries s) pid)))) v
      else under_way s q v)"
  by (auto simp: on_live_def under_way_put split: option.split)

lemma prepare_entries: "prs_entries (snd (prepare h now pid uid body stream endpoint s)) = prs_entries s"
  by (simp add: prepare_def Let_def split: option.split sum.split prod.split)

lemma dget_map_values: "dget (map_values f d) k = map_option f (dget d k)"
  by (induction d) (auto simp: map_values_def)

lemma sync_live: "pe_live (sync_entry h now e) = half_open now (pe_live e)"
  by (simp add: sync_entry_def Let_def)

lemma under_way_persist [simp]: "under_way (snd (persist h now s)) = under_way s"
  by (auto simp: fun_eq_iff under_way_def persist_def Let_def dget_map_values sync_live split: prod.split sum.split option.split)

lemma on_live_known [simp]: "(dget (prs_entries (on_live pid f s)) q = None) = (dget (prs_entries s) q = None)"
  by (auto simp: on_live_def put_entry_def split: option.split)

lemma record_known [simp]:
  "(dget (prs_entries (snd (record_turn_usage h now pid uid sn s))) q = None) = (dget (prs_entries s) q = None)"
  by (auto simp: record_turn_usage_def Let_def persist_def dget_map_values split: sum.split option.split prod.split)

lemma under_way_kept: "(\<And>p. lv_outstanding (f p) = lv_outstanding p) \<Longrightarrow> under_way (on_live pid f s) = under_way s"
  by (intro ext, subst under_way_on_live) (auto simp: counted_def under_way_def)

lemma under_way_dirty [simp]: "under_way (s\<lparr>prs_dirty := b\<rparr>) = under_way s" "under_way (sent_out pid req n s) = under_way s"
  by (simp_all add: fun_eq_iff under_way_def sent_out_def)

lemma under_way_record [simp]: "under_way (snd (record_turn_usage h now pid uid sn s)) = under_way s"
  by (simp add: record_turn_usage_def Let_def under_way_kept split: sum.split option.split)

lemma under_way_back:
  assumes "0 < under_way s pid uid"
  shows "under_way (on_live pid (put_back uid) s) q v = under_way s q v - (if q = pid \<and> v = uid then 1 else 0)"
proof -
  obtain e where e: "dget (prs_entries s) pid = Some e" using assms by (auto simp: under_way_def split: option.splits)
  show ?thesis using assms by (simp add: under_way_on_live e counted_put_back under_way_entry [OF e])
qed

lemma under_way_open:
  assumes "0 \<le> under_way s pid uid"
  shows "under_way (snd (open_turn h now pid uid body stream endpoint net s)) q v =
    under_way s q v + (if q = pid \<and> v = uid \<and> returns (fst (open_turn h now pid uid body stream endpoint net s)) then 1 else 0)"
proof -
  obtain r s1 where prep: "prepare h now pid uid body stream endpoint s = (r, s1)" by (cases "prepare h now pid uid body stream endpoint s")
  have same: "prs_entries s1 = prs_entries s" using prepare_entries [of h now pid uid body stream endpoint s] by (simp add: prep)
  then have uw: "under_way s1 = under_way s" by (simp add: fun_eq_iff under_way_def)
  show ?thesis
  proof (cases r)
    case (Inl err)
    then show ?thesis by (simp add: open_turn_def prep uw)
  next
    case (Inr req)
    show ?thesis
    proof (cases "dget (prs_entries s1) pid")
      case None
      then show ?thesis by (simp add: open_turn_def prep Inr uw)
    next
      case (Some e)
      obtain x p n where sent: "send h (redactor_of s1) pid (api_key_ref (pe_provider e)) req SERVER_ERROR_RETRIES 0 net
          (take_out uid (pe_live e)) = (x, p, n)" by (metis prod_cases3)
      have c: "counted p w = under_way s pid w + (if w = uid then 1 else 0)" for w
        using send_count [of h "redactor_of s1" pid "api_key_ref (pe_provider e)" req SERVER_ERROR_RETRIES 0 net "take_out uid (pe_live e)"]
          under_way_entry [OF Some] by (simp add: sent counted_take_out uw)
      have "0 < counted p uid" using c assms by simp
      note less = counted_put_back [OF this]
      show ?thesis by (cases x) (auto simp: open_turn_def prep Inr Some sent under_way_put less c uw)
    qed
  qed
qed

section \<open>Guarantees\<close>

text \<open>C11: the count of requests under way, which the routing reads as load, is right however a request ends: a
  refused or failed one leaves it as it was, an answered one adds itself until its body is over, and the end
  of the body, clean or not, recorded or not, takes it off again; no other model's count is touched.\<close>

theorem requests_under_way:
  assumes "0 \<le> under_way s pid uid"
  shows "under_way (snd (open_turn h now pid uid body stream endpoint net s)) q v =
      under_way s q v + (if q = pid \<and> v = uid \<and> returns (fst (open_turn h now pid uid body stream endpoint net s)) then 1 else 0)
    \<and> (0 < under_way s pid uid \<longrightarrow>
        under_way (snd (close_turn h now pid uid clean sn s)) q v = under_way s q v - (if q = pid \<and> v = uid then 1 else 0))"
proof (intro conjI impI)
  assume "0 < under_way s pid uid"
  then show "under_way (snd (close_turn h now pid uid clean sn s)) q v = under_way s q v - (if q = pid \<and> v = uid then 1 else 0)"
    by (simp add: close_turn_def split_def Let_def under_way_back under_way_kept)
qed (rule under_way_open [OF assms])

definition plain_host :: provider_host where
  "plain_host = \<lparr>ph_py = plain_text, ph_parse = (\<lambda>s. None), ph_dumps = (\<lambda>j. []), ph_say = (\<lambda>m. []), ph_reader = plain_reader\<rparr>"

definition box :: provider_entry where
  "box = \<lparr>pe_provider = \<lparr>provider_id = ''box'', provider_kind = OLLAMA, display_name = ''Box'', base_url = ''http://box/v1'',
       api_key_ref = [], enabled = True, priority = 1, models = [], prov_healthy = True, prov_last_error = None, last_refreshed = 0\<rparr>,
     pe_live = new_provider_live, pe_auto_disabled = False\<rparr>"

definition one_box :: provider_service where
  "one_box = \<lparr>prs_entries = [(''box'', box)], prs_secrets = \<lparr>ss_env = [], ss_file = Absent, ss_redactor = []\<rparr>, prs_file = Absent,
     prs_dirty = False, prs_persisted_at = 0, prs_wire = []\<rparr>"

definition well :: network where
  "well i req = (of_nat i, Answer 200 [] [])"

theorem requests_under_way_witness:
  "under_way (snd (open_turn plain_host 0 ''box'' ''m'' [] False ''chat/completions'' well one_box)) ''box'' ''m'' = 1"
proof -
  let ?o = "open_turn plain_host 0 ''box'' ''m'' [] False ''chat/completions'' well one_box"
  have z: "under_way one_box ''box'' ''m'' = 0" by (simp add: under_way_def one_box_def box_def new_provider_live_def)
  have "returns (fst ?o)"
    by (simp add: open_turn_def prepare_def one_box_def box_def spec_of_def plain_spec_def new_provider_live_def
        allowed_model_def rate_limited_def over_budget_def resolve_key_def send.simps well_def SERVER_ERROR_RETRIES_def take_out_def Let_def)
  then show ?thesis
    using requests_under_way [of one_box "''box''" "''m''" plain_host 0 "[]" False "''chat/completions''" well "''box''" "''m''"]
    by (simp add: z)
qed

lemma payload_model: "dget (request_payload e uid body stream endpoint) ''model'' = Some (JStr uid)"
proof -
  have u: "dget (ask_usage e uid stream p) ''model'' = dget p ''model''" for p by (simp add: ask_usage_def)
  have t: "dget (ask_stream endpoint stream p) ''model'' = dget p ''model''" for p by (simp add: ask_stream_def)
  have b: "dget (pin_backend e uid p) ''model'' = dget p ''model''" for p by (simp add: pin_backend_def split: option.split)
  show ?thesis unfolding request_payload_def u t b by simp
qed

lemma prepared:
  assumes "prepare h now pid uid body stream endpoint s = (Inr req, s1)"
  obtains e key ss where "dget (prs_entries s) pid = Some e" "ks_forwardable (spec_of e)" "enabled (pe_provider e)"
    "allowed_model (pe_live e) uid" "\<not> rate_limited now (pe_live e)" "\<not> over_budget now (pe_live e)"
    "resolve_key h pid e (prs_secrets s) = (Inr key, ss)"
    "pr_headers req = dset ''Accept'' (if stream then ''text/event-stream'' else ''application/json'')
       (dset ''Content-Type'' ''application/json'' (auth_headers (spec_of e) (Some key)))"
    "pr_payload req = request_payload e uid body stream endpoint"
proof -
  obtain e where e: "dget (prs_entries s) pid = Some e" using assms by (cases "dget (prs_entries s) pid") (simp_all add: prepare_def)
  note p = assms [unfolded prepare_def e option.case Let_def]
  have f: "ks_forwardable (spec_of e)" by (rule ccontr) (use p in simp)
  have n: "enabled (pe_provider e)" by (rule ccontr) (use p f in simp)
  have a: "allowed_model (pe_live e) uid" by (rule ccontr) (use p f n in simp)
  have r: "\<not> rate_limited now (pe_live e)" by (rule notI) (use p f n a in simp)
  have b: "\<not> over_budget now (pe_live e)" by (rule notI) (use p f n a r in simp)
  note ok = f n a r b
  obtain key ss where "resolve_key h pid e (prs_secrets s) = (Inr key, ss)"
    using p ok by (cases "resolve_key h pid e (prs_secrets s)"; cases "fst (resolve_key h pid e (prs_secrets s))") simp_all
  then show ?thesis using that [OF e ok] p ok by auto
qed

lemma prepare_wire: "prs_wire (snd (prepare h now pid uid body stream endpoint s)) = prs_wire s"
  by (simp add: prepare_def Let_def split: option.split sum.split prod.split)

lemma open_turn_wire:
  assumes "prepare h now pid uid body stream endpoint s = (Inr req, s1)"
  obtains n where "0 < n" "n \<le> 1 + SERVER_ERROR_RETRIES"
    "prs_wire (snd (open_turn h now pid uid body stream endpoint net s)) = prs_wire s @ replicate n (pid, req)"
proof -
  obtain e where "dget (prs_entries s) pid = Some e" by (rule prepared [OF assms])
  then have e: "dget (prs_entries s1) pid = Some e"
    using prepare_entries [of h now pid uid body stream endpoint s] by (simp add: assms)
  have w: "prs_wire s1 = prs_wire s" using prepare_wire [of h now pid uid body stream endpoint s] by (simp add: assms)
  obtain x p n where sent: "send h (redactor_of s1) pid (api_key_ref (pe_provider e)) req SERVER_ERROR_RETRIES 0 net
      (take_out uid (pe_live e)) = (x, p, n)" by (metis prod_cases3)
  have "0 < n" "n \<le> 1 + SERVER_ERROR_RETRIES"
    using sends_bounded [of 0 h "redactor_of s1" pid "api_key_ref (pe_provider e)" req SERVER_ERROR_RETRIES net
        "take_out uid (pe_live e)"] by (simp_all add: sent)
  moreover have "prs_wire (snd (open_turn h now pid uid body stream endpoint net s)) = prs_wire s @ replicate n (pid, req)"
    by (cases x) (auto simp: open_turn_def assms e sent sent_out_def put_entry_def w)
  ultimately show ?thesis by (rule that)
qed

text \<open>C15: a request reaches the network only through an enabled provider whose wire format is known, for a model
  its operator switched on, while no pause is running and the budget is not reached, under the upstream's own
  name for the model and with no authorization but the provider's key; what is then sent is exactly the request
  prepared, once or, after a 5xx, twice. Otherwise nothing is sent, and the turn ends in its refusal whatever
  the network would have answered.\<close>

theorem only_admitted_requests_are_sent:
  "case prepare h now pid uid body stream endpoint s of
     (Inl err, s1) \<Rightarrow> prs_wire s1 = prs_wire s \<and> (\<forall>net. open_turn h now pid uid body stream endpoint net s = (Inl err, s1))
   | (Inr req, s1) \<Rightarrow>
      (\<forall>net. \<exists>n. 0 < n \<and> n \<le> 1 + SERVER_ERROR_RETRIES
        \<and> prs_wire (snd (open_turn h now pid uid body stream endpoint net s)) = prs_wire s @ replicate n (pid, req))
      \<and> (\<exists>e. dget (prs_entries s) pid = Some e \<and> enabled (pe_provider e) \<and> ks_forwardable (spec_of e)
        \<and> allowed_model (pe_live e) uid \<and> lv_backoff_until (pe_live e) \<le> now
        \<and> (case lv_budget (pe_live e) of None \<Rightarrow> True | Some b \<Rightarrow> spend_today now (pe_live e) < b)
        \<and> dget (pr_payload req) ''model'' = Some (JStr uid)
        \<and> (case dget (pr_headers req) ''Authorization'' of None \<Rightarrow> True
            | Some v \<Rightarrow> \<exists>key. v = ''Bearer '' @ key \<and> fst (resolve_key h pid e (prs_secrets s)) = Inr key))"
proof (cases "fst (prepare h now pid uid body stream endpoint s)")
  case (Inl err)
  then obtain s1 where "prepare h now pid uid body stream endpoint s = (Inl err, s1)" by (metis prod.collapse)
  moreover from this have "prs_wire s1 = prs_wire s" using prepare_wire [of h now pid uid body stream endpoint s] by simp
  ultimately show ?thesis by (simp add: open_turn_def)
next
  case (Inr req)
  then obtain s1 where p: "prepare h now pid uid body stream endpoint s = (Inr req, s1)" by (metis prod.collapse)
  from p obtain e key ss where e: "dget (prs_entries s) pid = Some e" "ks_forwardable (spec_of e)" "enabled (pe_provider e)"
    "allowed_model (pe_live e) uid" "\<not> rate_limited now (pe_live e)" "\<not> over_budget now (pe_live e)"
    and k: "resolve_key h pid e (prs_secrets s) = (Inr key, ss)"
    and req: "pr_headers req = dset ''Accept'' (if stream then ''text/event-stream'' else ''application/json'')
       (dset ''Content-Type'' ''application/json'' (auth_headers (spec_of e) (Some key)))"
    "pr_payload req = request_payload e uid body stream endpoint"
    by (rule prepared)
  have "dget (ks_extra_headers (spec_for x)) ''Authorization'' = None" for x
    by (cases x) (simp_all add: plain_spec_def)
  then have "dget (auth_headers (spec_of e) (Some key)) ''Authorization'' \<in> {None, Some (''Bearer '' @ key)}"
    by (simp add: auth_headers_def spec_of_def split: auth_style.split)
  then have auth: "case dget (pr_headers req) ''Authorization'' of None \<Rightarrow> True
      | Some v \<Rightarrow> \<exists>key. v = ''Bearer '' @ key \<and> fst (resolve_key h pid e (prs_secrets s)) = Inr key"
    unfolding req by (auto simp: k split: option.split)
  have m: "dget (pr_payload req) ''model'' = Some (JStr uid)"
    unfolding req by (rule payload_model)
  have w: "lv_backoff_until (pe_live e) \<le> now" using e(5) by (simp add: rate_limited_def)
  have b: "case lv_budget (pe_live e) of None \<Rightarrow> True | Some b \<Rightarrow> spend_today now (pe_live e) < b"
    using e(6) by (simp add: over_budget_def split: option.splits)
  have sent: "\<forall>net. \<exists>n. 0 < n \<and> n \<le> 1 + SERVER_ERROR_RETRIES
      \<and> prs_wire (snd (open_turn h now pid uid body stream endpoint net s)) = prs_wire s @ replicate n (pid, req)"
    by (rule allI, rule open_turn_wire [OF p]) blast
  show ?thesis unfolding p prod.case sum.case by (intro conjI [OF sent] exI [of _ e] conjI e(1-4) m w b auth)
qed

end
