(* ===== verification/Api_Errors.thy ===== *)
theory Api_Errors
  imports Deploy_Codec Deploy_Recipes
begin

text \<open>
  The gateway's own answers, \<open>gateway/errors.py\<close>: an error object in the shape OpenAI clients read, its
  status and its headers. What a backend said never passes through here.
\<close>

record api_response =
  rs_status :: int
  rs_headers :: "(string, string) dict"
  rs_body :: json

definition error_body :: "string \<Rightarrow> string \<Rightarrow> string \<Rightarrow> json_object \<Rightarrow> json" where
  "error_body message kind_of_error error_code extra =
     JObj [(''error'', JObj (foldl (\<lambda>d (k, v). dset k v d)
       [(''message'', JStr message), (''type'', JStr kind_of_error), (''param'', JNull), (''code'', JStr error_code)] extra))]"

definition error_response ::
  "int \<Rightarrow> string \<Rightarrow> string \<Rightarrow> string \<Rightarrow> (string, string) dict \<Rightarrow> json_object \<Rightarrow> api_response" where
  "error_response st message kind_of_error error_code h extra =
     \<lparr>rs_status = st, rs_headers = h, rs_body = error_body message kind_of_error error_code extra\<rparr>"

definition quoted :: "string \<Rightarrow> string" where
  "quoted s = CHR 0x27 # s @ [CHR 0x27]"

definition RETRY_AFTER_5 :: "(string, string) dict" where
  "RETRY_AFTER_5 = [(''Retry-After'', ''5'')]"

definition listing :: "string list \<Rightarrow> string" where
  "listing available = (if available = [] then ''none'' else str_join '', '' (map quoted available))"

definition unknown_model :: "string \<Rightarrow> string list \<Rightarrow> api_response" where
  "unknown_model name available =
     error_response 404 (''The model '' @ quoted name @ '' does not exist. Available models: '' @ listing available @ ''.'')
       ''invalid_request_error'' ''model_not_found'' [] [(''available_models'', JList (map JStr available))]"

definition unknown_node_message :: "string \<Rightarrow> string list \<Rightarrow> string" where
  "unknown_node_message n available =
     ''The machine '' @ quoted n @ '' is not in this cluster. Enrolled machines: '' @ listing available @ ''.''"

definition model_not_ready :: "string \<Rightarrow> string list \<Rightarrow> api_response" where
  "model_not_ready name states =
     error_response 503 (''The model '' @ quoted name @ '' is not ready to serve. Current state: ''
         @ (if states = [] then ''unknown'' else str_join '', '' states) @ ''.'')
       ''server_error'' ''model_not_ready'' RETRY_AFTER_5 [(''deployment_states'', JList (map JStr states))]"

definition ENDPOINT_FOR_MODALITY :: "(modality, string) dict" where
  "ENDPOINT_FOR_MODALITY = [(TEXT, ''/v1/chat/completions''), (EMBEDDING, ''/v1/embeddings''),
     (SPEECH, ''/v1/audio/speech''), (TRANSCRIPTION, ''/v1/audio/transcriptions'')]"

definition wrong_modality :: "string \<Rightarrow> modality \<Rightarrow> modality \<Rightarrow> string \<Rightarrow> api_response" where
  "wrong_modality name has wants endpoint =
     (let correct = dget ENDPOINT_FOR_MODALITY has;
          remedy = (case correct of Some e \<Rightarrow> if e \<noteq> [] then '' Send it to '' @ e @ '' instead.'' else [] | None \<Rightarrow> [])
      in error_response 400 (''The model '' @ quoted name @ '' is a '' @ modality_value has @ '' model and cannot serve ''
             @ endpoint @ '', which requires a '' @ modality_value wants @ '' model.'' @ remedy)
           ''invalid_request_error'' ''wrong_modality'' []
           [(''model_modality'', JStr (modality_value has)), (''endpoint_modality'', JStr (modality_value wants)),
            (''correct_endpoint'', jopt JStr correct)])"

definition no_target_admitting :: "string \<Rightarrow> api_response" where
  "no_target_admitting name =
     error_response 503 (''No target for '' @ quoted name @ '' is currently admitting requests.'')
       ''server_error'' ''no_target_admitting'' RETRY_AFTER_5 []"

definition attempts_phrase :: "nat \<Rightarrow> string" where
  "attempts_phrase tried = (if tried = 1 then ''1 target'' else show_int (int tried) @ '' targets'')"

definition upstream_unreachable :: "string \<Rightarrow> string \<Rightarrow> nat \<Rightarrow> api_response" where
  "upstream_unreachable name why tried =
     error_response 502 (''No upstream for '' @ quoted name @ '' is reachable: '' @ why @ '' after trying ''
         @ attempts_phrase tried @ ''.'') ''server_error'' ''upstream_unreachable'' [] []"

definition upstream_pool_exhausted :: "string \<Rightarrow> nat \<Rightarrow> api_response" where
  "upstream_pool_exhausted name tried =
     error_response 503 (''The gateway has no free upstream connection for '' @ quoted name @ '' (tried ''
         @ attempts_phrase tried @ ''). Every connection is held by a request already in flight. Retry shortly; ''
         @ ''the backends themselves are not implicated.'') ''server_error'' ''upstream_pool_exhausted'' RETRY_AFTER_5 []"

section \<open>What an exception says\<close>

text \<open>An exception as the diagnostics see it: the name of its class, and \<open>str()\<close> of it, nothing when that
  raises. \<open>scrub_text\<close> is the redactor given, whose failure withholds the text.\<close>

datatype exception = Exception string "string option"

definition MAX_DETAIL_CHARS :: nat where "MAX_DETAIL_CHARS = 500"
definition MAX_CAUSE_DEPTH :: nat where "MAX_CAUSE_DEPTH = 4"

type_synonym redactor = "string \<Rightarrow> string option"

definition scrub_text :: "redactor option \<Rightarrow> string \<Rightarrow> string" where
  "scrub_text redact t = (case redact of None \<Rightarrow> t | Some f \<Rightarrow> (case f t of Some u \<Rightarrow> u | None \<Rightarrow> []))"

definition str_rstrip :: "string \<Rightarrow> string" where
  "str_rstrip s = rev (dropWhile is_space (rev s))"

definition ELLIPSIS :: string where "ELLIPSIS = [CHR 0xE2, CHR 0x80, CHR 0xA6]"

fun error_detail :: "redactor option \<Rightarrow> exception \<Rightarrow> string" where
  "error_detail redact (Exception name said) =
     (let body = scrub_text redact (case said of Some s \<Rightarrow> str_strip s | None \<Rightarrow> []);
          line = name @ '': '' @ body
      in if body = [] \<or> body = name then name
         else if length line > MAX_DETAIL_CHARS
         then str_rstrip (take (MAX_DETAIL_CHARS - 1) line) @ ELLIPSIS
         else line)"

text \<open>The causes in order, each identified by a number, so that a cycle ends the walk.\<close>

fun cause_walk :: "redactor option \<Rightarrow> nat list \<Rightarrow> string list \<Rightarrow> (nat \<times> exception) list \<Rightarrow> string list" where
  "cause_walk redact seen out [] = out"
| "cause_walk redact seen out ((i, e) # causes) =
     (if length out \<ge> MAX_CAUSE_DEPTH \<or> i \<in> set seen then out
      else let line = error_detail redact e
           in cause_walk redact (i # seen) (if line \<noteq> [] \<and> line \<notin> set out then out @ [line] else out) causes)"

definition cause_chain :: "redactor option \<Rightarrow> nat \<Rightarrow> (nat \<times> exception) list \<Rightarrow> string list" where
  "cause_chain redact self causes = cause_walk redact [self] [] causes"

lemma cause_walk_bounded: "length out \<le> MAX_CAUSE_DEPTH \<Longrightarrow> distinct out \<Longrightarrow>
   length (cause_walk redact seen out causes) \<le> MAX_CAUSE_DEPTH \<and> distinct (cause_walk redact seen out causes)"
  by (induction redact seen out causes rule: cause_walk.induct) (auto simp: Let_def)

end
