(* ===== verification/Serve_Request.thy ===== *)
theory Serve_Request
  imports Api_Errors Redaction
begin

text \<open>
  What the OpenAI surface reads out of a request before it is served, \<open>gateway/openai_api.py\<close>: the prefix that
  seeds the cache affinity, the model field of a multipart upload and its replacement in place, and which
  endpoint serves which kind of model. Bodies are byte strings.
\<close>

declare map_of_eq_Some_iff [simp del]

section \<open>Endpoints\<close>

definition ENDPOINT_MODALITY :: "(string, modality) dict" where
  "ENDPOINT_MODALITY = [(''/chat/completions'', TEXT), (''/completions'', TEXT), (''/embeddings'', EMBEDDING),
     (''/audio/speech'', SPEECH), (''/audio/transcriptions'', TRANSCRIPTION)]"

definition AUDIO_MODALITIES :: "modality list" where
  "AUDIO_MODALITIES = [SPEECH, TRANSCRIPTION]"

definition modality_conflict :: "modality \<Rightarrow> modality \<Rightarrow> bool" where
  "modality_conflict has wants \<longleftrightarrow> has \<noteq> wants \<and> (has \<in> set AUDIO_MODALITIES \<or> wants \<in> set AUDIO_MODALITIES)"

section \<open>The prefix key\<close>

definition PREFIX_CHARS :: nat where "PREFIX_CHARS = 512"

definition text_parts :: "json option \<Rightarrow> string list" where
  "text_parts c = (case c of
     Some (JStr t) \<Rightarrow> [t]
   | Some (JList items) \<Rightarrow> List.map_filter (\<lambda>i. case i of
        JObj o1 \<Rightarrow> (case dget o1 ''text'' of Some (JStr t) \<Rightarrow> Some t | _ \<Rightarrow> None) | _ \<Rightarrow> None) items
   | _ \<Rightarrow> [])"

fun gather_parts :: "string list \<Rightarrow> json list \<Rightarrow> string list" where
  "gather_parts parts [] = parts"
| "gather_parts parts (JObj m # ms) =
     (let parts = parts @ text_parts (dget m ''content'')
      in if sum_list (map length parts) \<ge> PREFIX_CHARS then parts else gather_parts parts ms)"
| "gather_parts parts (other # ms) = gather_parts parts ms"

definition some_text :: "string \<Rightarrow> string option" where
  "some_text s = (if s = [] then None else Some s)"

definition prefix_key_of :: "json_object \<Rightarrow> string option" where
  "prefix_key_of body =
     (case dget body ''messages'' of
        Some (JList ms) \<Rightarrow> some_text (take PREFIX_CHARS (concat (gather_parts [] ms)))
      | _ \<Rightarrow>
        (case dget body ''prompt'' of
           Some (JStr p) \<Rightarrow> some_text (take PREFIX_CHARS p)
         | Some (JList (JStr p # ps)) \<Rightarrow> some_text (take PREFIX_CHARS p)
         | _ \<Rightarrow> None))"

section \<open>One field of an upload\<close>

text \<open>\<open>raw.find(needle, cursor)\<close>.\<close>

definition find_sub :: "string \<Rightarrow> string \<Rightarrow> nat \<Rightarrow> nat option" where
  "find_sub needle raw cursor = find (\<lambda>i. starts_with needle (drop i raw)) [cursor..<length raw + 1]"

definition strip_both :: "char \<Rightarrow> string \<Rightarrow> string" where
  "strip_both c s = rev (dropWhile (\<lambda>d. d = c) (rev (dropWhile (\<lambda>d. d = c) s)))"

fun boundary_in :: "string list \<Rightarrow> string option" where
  "boundary_in [] = None"
| "boundary_in (part # parts) =
     (let p = str_strip part; key = takeWhile (\<lambda>c. c \<noteq> CHR ''='') p; v = drop (length key + 1) p in
      if str_lower (str_strip key) = ''boundary'' then some_text (strip_both (CHR 0x22) (str_strip v))
      else boundary_in parts)"

definition boundary_of :: "string \<Rightarrow> string option" where
  "boundary_of content_type = boundary_in (tl (split_on (CHR '';'') content_type))"

text \<open>Bytes that decode as UTF-8.\<close>

definition tail_byte :: "nat \<Rightarrow> nat \<Rightarrow> string \<Rightarrow> bool" where
  "tail_byte lo hi s \<longleftrightarrow> (case s of [] \<Rightarrow> False | c # cs \<Rightarrow> code_in lo hi c)"

function utf8_valid :: "string \<Rightarrow> bool" where
  "utf8_valid s = (case s of [] \<Rightarrow> True | c # r \<Rightarrow>
     if code_in 0 127 c then utf8_valid r
     else if code_in 194 223 c then tail_byte 128 191 r \<and> utf8_valid (drop 1 r)
     else if code_in 224 239 c
     then tail_byte (if c = CHR 0xE0 then 160 else 128) (if c = CHR 0xED then 159 else 191) r
       \<and> tail_byte 128 191 (drop 1 r) \<and> utf8_valid (drop 2 r)
     else if code_in 240 244 c
     then tail_byte (if c = CHR 0xF0 then 144 else 128) (if c = CHR 0xF4 then 143 else 191) r
       \<and> tail_byte 128 191 (drop 1 r) \<and> tail_byte 128 191 (drop 2 r) \<and> utf8_valid (drop 3 r)
     else False)"
  by pat_completeness auto
termination by (relation "measure length") auto

declare utf8_valid.simps [simp del]

definition CRLF :: string where "CRLF = [CHR 0x0D, CHR 0x0A]"

definition field_needle :: "string \<Rightarrow> string" where
  "field_needle name = ''name='' @ [CHR 0x22] @ name @ [CHR 0x22]"

lemma find_sub_bounds: "find_sub needle raw c = Some i \<Longrightarrow> c \<le> i \<and> i \<le> length raw"
  unfolding find_sub_def find_Some_iff by (auto simp del: upt_Suc)

function field_scan :: "string \<Rightarrow> string \<Rightarrow> string \<Rightarrow> nat \<Rightarrow> (string \<times> nat \<times> nat) option" where
  "field_scan raw delimiter needle cursor =
     (case find_sub delimiter raw cursor of
        None \<Rightarrow> None
      | Some start \<Rightarrow>
        (let cursor = start + length delimiter in
         case find_sub (CRLF @ CRLF) raw cursor of
           None \<Rightarrow> None
         | Some head_end \<Rightarrow>
           (let header = take (head_end - cursor) (drop cursor raw); body_start = head_end + 4 in
            case find_sub (CRLF @ delimiter) raw body_start of
              None \<Rightarrow> None
            | Some body_end \<Rightarrow>
              if str_contains needle header
              then (let v = take (body_end - body_start) (drop body_start raw)
                    in if utf8_valid v then Some (v, body_start, body_end) else None)
              else field_scan raw delimiter needle body_end)))"
  by pat_completeness auto
termination
  by (relation "measure (\<lambda>(raw, delimiter, needle, cursor). length raw + 1 - cursor)")
     (auto dest!: find_sub_bounds simp: Let_def)

declare field_scan.simps [simp del]

definition field_span :: "string \<Rightarrow> string \<Rightarrow> string \<Rightarrow> (string \<times> nat \<times> nat) option" where
  "field_span raw content_type name =
     (case boundary_of content_type of
        None \<Rightarrow> None
      | Some boundary \<Rightarrow> field_scan raw (''--'' @ boundary) (field_needle name) 0)"

definition multipart_field :: "string \<Rightarrow> string \<Rightarrow> string \<Rightarrow> string option" where
  "multipart_field raw content_type name =
     (case field_span raw content_type name of Some (v, start, stop) \<Rightarrow> Some (str_strip v) | None \<Rightarrow> None)"

definition rewrite_multipart_field :: "string \<Rightarrow> string \<Rightarrow> string \<Rightarrow> string \<Rightarrow> string option" where
  "rewrite_multipart_field raw content_type name v =
     (case field_span raw content_type name of
        None \<Rightarrow> None | Some (old, start, stop) \<Rightarrow> Some (take start raw @ v @ drop stop raw))"

section \<open>The field is replaced in place\<close>

lemma find_sub_Some: "find_sub needle raw c = Some i \<longleftrightarrow>
   c \<le> i \<and> i \<le> length raw \<and> starts_with needle (drop i raw) \<and> (\<forall>j. c \<le> j \<longrightarrow> j < i \<longrightarrow> \<not> starts_with needle (drop j raw))"
proof
  assume "find_sub needle raw c = Some i"
  then obtain k where k: "k < length [c..<length raw + 1]" "starts_with needle (drop ([c..<length raw + 1] ! k) raw)"
      "i = [c..<length raw + 1] ! k" "\<forall>m < k. \<not> starts_with needle (drop ([c..<length raw + 1] ! m) raw)"
    unfolding find_sub_def find_Some_iff by blast
  have i: "i = c + k" "i \<le> length raw" using k(1,3) by (auto simp del: upt_Suc)
  have "\<not> starts_with needle (drop j raw)" if "c \<le> j" "j < i" for j
  proof -
    have "j - c < k" using that i by linarith
    moreover have "[c..<length raw + 1] ! (j - c) = j" using that i k(1) by (auto simp del: upt_Suc)
    ultimately show ?thesis using k(4) by metis
  qed
  then show "c \<le> i \<and> i \<le> length raw \<and> starts_with needle (drop i raw)
      \<and> (\<forall>j. c \<le> j \<longrightarrow> j < i \<longrightarrow> \<not> starts_with needle (drop j raw))"
    using i k(2,3) by auto
next
  assume r: "c \<le> i \<and> i \<le> length raw \<and> starts_with needle (drop i raw)
      \<and> (\<forall>j. c \<le> j \<longrightarrow> j < i \<longrightarrow> \<not> starts_with needle (drop j raw))"
  then show "find_sub needle raw c = Some i" unfolding find_sub_def find_Some_iff
    by (intro exI [of _ "i - c"]) (auto simp del: upt_Suc)
qed

lemma starts_with_appended: "starts_with m s \<longleftrightarrow> (\<exists>t. s = m @ t)"
  by (induction m s rule: starts_with.induct) auto

lemma starts_with_take: "length needle \<le> n \<Longrightarrow> starts_with needle (take n s) = starts_with needle s"
proof (induction needle s arbitrary: n rule: starts_with.induct)
  case (3 c cs d ds)
  then show ?case by (cases n) auto
qed auto

lemma starts_with_same:
  assumes "take n raw = take n raw'" and "j + length needle \<le> n"
  shows "starts_with needle (drop j raw) = starts_with needle (drop j raw')"
proof -
  have "starts_with needle (drop j r) = starts_with needle (drop j (take n r))" for r
    using starts_with_take [of needle "n - j" "drop j r"] assms(2) by (simp add: drop_take)
  then show ?thesis using assms(1) by metis
qed

lemma find_sub_same:
  assumes "find_sub needle raw c = Some i" and "take n raw = take n raw'" and "i + length needle \<le> n" and "n \<le> length raw'"
  shows "find_sub needle raw' c = Some i"
proof -
  have same: "starts_with needle (drop j raw) = starts_with needle (drop j raw')" if "j \<le> i" for j
    using that assms(3) by (intro starts_with_same [OF assms(2)]) simp
  have i: "c \<le> i" "starts_with needle (drop i raw)" "\<And>j. c \<le> j \<Longrightarrow> j < i \<Longrightarrow> \<not> starts_with needle (drop j raw)"
    using assms(1) by (auto simp: find_sub_Some)
  have "starts_with needle (drop i raw')" using i(2) same [of i] by simp
  moreover have "\<not> starts_with needle (drop j raw')" if "c \<le> j" "j < i" for j using i(3) [OF that] same [of j] that by simp
  ultimately show ?thesis using i(1) assms(3,4) by (simp add: find_sub_Some)
qed

lemma find_sub_shift: "find_sub needle x 0 = Some i \<Longrightarrow> find_sub needle (p @ x) (length p) = Some (length p + i)"
proof -
  assume f: "find_sub needle x 0 = Some i"
  have "\<not> starts_with needle (drop j (p @ x))" if "length p \<le> j" "j < length p + i" for j
  proof -
    have "j - length p < i" using that by linarith
    then show ?thesis using f that(1) by (simp add: find_sub_Some)
  qed
  then show ?thesis using f by (simp add: find_sub_Some)
qed

lemma field_scanE:
  assumes "field_scan raw d needle c = Some (v, s, e)"
  obtains start h stop where "find_sub d raw c = Some start" "find_sub (CRLF @ CRLF) raw (start + length d) = Some h"
    "find_sub (CRLF @ d) raw (h + 4) = Some stop"
    "if str_contains needle (take (h - (start + length d)) (drop (start + length d) raw))
     then s = h + 4 \<and> e = stop \<and> v = take (stop - s) (drop s raw) \<and> utf8_valid v
     else field_scan raw d needle stop = Some (v, s, e)"
  using assms by (subst (asm) field_scan.simps) (auto simp: Let_def split: option.splits if_splits)

lemma CRLF_length [simp]: "length CRLF = 2"
  by (simp add: CRLF_def)

lemma scan_bounds:
  "field_scan raw d needle c = Some (v, s, e) \<Longrightarrow> s \<le> e \<and> e \<le> length raw \<and> (\<exists>start. find_sub d raw c = Some start \<and> start + length d + 4 \<le> s)"
proof (induction raw d needle c rule: field_scan.induct)
  case (1 raw d needle c)
  obtain start h stop where f: "find_sub d raw c = Some start" "find_sub (CRLF @ CRLF) raw (start + length d) = Some h"
    "find_sub (CRLF @ d) raw (h + 4) = Some stop"
    "if str_contains needle (take (h - (start + length d)) (drop (start + length d) raw))
     then s = h + 4 \<and> e = stop \<and> v = take (stop - s) (drop s raw) \<and> utf8_valid v
     else field_scan raw d needle stop = Some (v, s, e)"
    by (rule field_scanE [OF "1.prems"])
  note b = find_sub_bounds [OF f(1)] find_sub_bounds [OF f(2)] find_sub_bounds [OF f(3)]
  show ?case
  proof (cases "str_contains needle (take (h - (start + length d)) (drop (start + length d) raw))")
    case True
    then show ?thesis using f b by simp
  next
    case False
    then have "field_scan raw d needle stop = Some (v, s, e)" using f(4) by simp
    from "1.IH" [OF f(1) refl f(2) refl refl f(3) _ this] False
    obtain start' where "s \<le> e" "e \<le> length raw" "find_sub d raw stop = Some start'" "start' + length d + 4 \<le> s" by auto
    then show ?thesis using f(1) b find_sub_bounds [of d raw stop start'] by fastforce
  qed
qed

text \<open>The end of one part is the delimiter of the next, so the search moves past it.\<close>

lemma next_delimiter:
  assumes "find_sub (CRLF @ d) raw c = Some stop" and "find_sub d raw stop = Some start" and "d = CHR ''-'' # ds"
  shows "stop + 2 \<le> start"
proof -
  have "starts_with (CRLF @ d) (drop stop raw)" using assms(1) by (simp add: find_sub_Some)
  then obtain t where t: "drop stop raw = CRLF @ d @ t" by (auto simp: starts_with_appended)
  have "start \<noteq> stop"
    using assms(2) t by (auto simp: find_sub_Some assms(3) CRLF_def)
  moreover have "start \<noteq> stop + 1"
  proof
    assume s: "start = stop + 1"
    have "drop start raw = drop 1 (drop stop raw)" unfolding s by simp
    then show False using assms(2) unfolding t by (auto simp: find_sub_Some assms(3) CRLF_def)
  qed
  ultimately show ?thesis using assms(2) by (auto simp: find_sub_Some)
qed

lemma scan_rewritten:
  assumes "field_scan raw d needle c = Some (v, s, e)" and "d = CHR ''-'' # ds" and "utf8_valid w"
    and "find_sub (CRLF @ d) (w @ drop e raw) 0 = Some (length w)"
  shows "field_scan (take s raw @ w @ drop e raw) d needle c = Some (w, s, s + length w)"
  using assms(1,4,2)
proof (induction raw d needle c rule: field_scan.induct)
  case (1 raw d needle c)
  obtain start h stop where f: "find_sub d raw c = Some start" "find_sub (CRLF @ CRLF) raw (start + length d) = Some h"
    "find_sub (CRLF @ d) raw (h + 4) = Some stop"
    "if str_contains needle (take (h - (start + length d)) (drop (start + length d) raw))
     then s = h + 4 \<and> e = stop \<and> v = take (stop - s) (drop s raw) \<and> utf8_valid v
     else field_scan raw d needle stop = Some (v, s, e)"
    by (rule field_scanE [OF "1.prems"(1)])
  define r where "r = take s raw @ w @ drop e raw"
  have s: "s \<le> e" "e \<le> length raw" using scan_bounds [OF "1.prems"(1)] by auto
  have same: "take s raw = take s r" and n: "s \<le> length r" using s by (auto simp: r_def)
  have order: "start + length d \<le> h" "h + 4 \<le> s"
  proof -
    show "start + length d \<le> h" using find_sub_bounds [OF f(2)] by simp
    show "h + 4 \<le> s"
    proof (cases "str_contains needle (take (h - (start + length d)) (drop (start + length d) raw))")
      case False
      then show ?thesis using f(4) scan_bounds [of raw d needle stop v s e] find_sub_bounds [OF f(3)]
          find_sub_bounds [of d raw stop] by fastforce
    qed (use f(4) in simp)
  qed
  have g: "find_sub d r c = Some start" "find_sub (CRLF @ CRLF) r (start + length d) = Some h"
    by (rule find_sub_same [OF f(1) same _ n], use order in simp) (rule find_sub_same [OF f(2) same _ n], use order in simp)
  have part: "take (h - (start + length d)) (drop (start + length d) r)
      = take (h - (start + length d)) (drop (start + length d) raw)" (is "?part' = ?part")
  proof -
    have "take (h - (start + length d)) (drop (start + length d) x) = drop (start + length d) (take h (take s x))" for x :: string
      using order by (simp add: drop_take min_absorb1)
    then show ?thesis using same by metis
  qed
  show ?case
  proof (cases "str_contains needle ?part")
    case True
    then have se: "s = h + 4" "e = stop" using f(4) by simp_all
    have p: "length (take s raw) = s" using s by simp
    have "find_sub (CRLF @ d) r s = Some (s + length w)"
      using find_sub_shift [OF "1.prems"(2), of "take s raw"] unfolding p r_def .
    moreover have "take (length w) (drop s r) = w" unfolding r_def using p by simp
    ultimately show ?thesis using g True assms(3) unfolding r_def [symmetric]
      by (subst field_scan.simps) (simp add: Let_def se(1) [symmetric] part)
  next
    case False
    then have scan: "field_scan raw d needle stop = Some (v, s, e)" using f(4) by simp
    then obtain start' where start': "find_sub d raw stop = Some start'" "start' + length d + 4 \<le> s" using scan_bounds by blast
    have "stop + 2 \<le> start'" by (rule next_delimiter [OF f(3) start'(1) "1.prems"(3)])
    then have "find_sub (CRLF @ d) r (h + 4) = Some stop"
      by (intro find_sub_same [OF f(3) same _ n]) (use start' in simp)
    moreover have "field_scan r d needle stop = Some (w, s, s + length w)"
      using "1.IH" [OF f(1) refl f(2) refl refl f(3) _ scan "1.prems"(2,3)] False by (simp add: r_def)
    ultimately show ?thesis using g False unfolding r_def [symmetric] by (subst field_scan.simps) (simp add: Let_def part)
  qed
qed

text \<open>C32: replacing the model in an upload changes its field and nothing else: what precedes and follows the
  field is kept byte for byte, and reading the result finds the new value at the old place.\<close>

theorem multipart_rewrite_round_trip:
  assumes "boundary_of content_type = Some boundary" and "field_span raw content_type name = Some (v, s, e)"
    and "utf8_valid w" and "find_sub (CRLF @ ''--'' @ boundary) (w @ drop e raw) 0 = Some (length w)"
    and "rewrite_multipart_field raw content_type name w = Some raw'"
  shows "field_span raw' content_type name = Some (w, s, s + length w)
    \<and> take s raw' = take s raw \<and> drop (s + length w) raw' = drop e raw"
proof (intro conjI)
  have scan: "field_scan raw (''--'' @ boundary) (field_needle name) 0 = Some (v, s, e)"
    using assms(1,2) by (simp add: field_span_def)
  have raw': "raw' = take s raw @ w @ drop e raw" using assms(2,5) by (simp add: rewrite_multipart_field_def)
  show "field_span raw' content_type name = Some (w, s, s + length w)"
    using scan_rewritten [OF scan _ assms(3,4)] by (simp add: field_span_def assms(1) raw')
  have "s \<le> length raw" using scan_bounds [OF scan] by linarith
  then show "take s raw' = take s raw" "drop (s + length w) raw' = drop e raw" by (simp_all add: raw')
qed

definition small_upload :: string where
  "small_upload = ''--b'' @ CRLF @ field_needle ''m'' @ CRLF @ CRLF @ ''old'' @ CRLF @ ''--b--''"

theorem multipart_rewrite_round_trip_witness:
  "field_span (take 17 small_upload @ ''new'' @ drop 20 small_upload) ''form; boundary=b'' ''m'' = Some (''new'', 17, 20)"
proof -
  have b: "boundary_of ''form; boundary=b'' = Some ''b''" by code_simp
  have f: "field_span small_upload ''form; boundary=b'' ''m'' = Some (''old'', 17, 20)" by code_simp
  have u: "utf8_valid ''new''" by code_simp
  have n: "find_sub (CRLF @ ''--'' @ ''b'') (''new'' @ drop 20 small_upload) 0 = Some (length ''new'')" by code_simp
  have r: "rewrite_multipart_field small_upload ''form; boundary=b'' ''m'' ''new''
      = Some (take 17 small_upload @ ''new'' @ drop 20 small_upload)"
    by (simp add: rewrite_multipart_field_def f)
  show ?thesis using multipart_rewrite_round_trip [OF b f u n r] by simp
qed

end
