(* ===== verification/Proxy.thy ===== *)
theory Proxy
  imports Api_Errors Usage_Meter Redaction Router Retry_Budget Provider_Runtime
begin

text \<open>
  The upstream proxy, \<open>control_plane/gateway/proxy.py\<close>: one target's turn with a request, and the body
  that passes afterwards. An attempt is numbered, and the response it opens bears its number; its closures
  are the \<open>flight\<close>. What the network did is an argument: the answer to the send, the error body, the wait
  for the first chunk, and the chunks with what ended them. A cancellation is one of those answers. The
  clock of an attempt is read where its books are closed.
\<close>

declare map_of_eq_Some_iff [simp del]

section \<open>Headers and addresses\<close>

type_synonym headers = "(string, string) dict"

definition HOP_BY_HOP :: "string list" where
  "HOP_BY_HOP = [''connection'', ''keep-alive'', ''proxy-authenticate'', ''proxy-authorization'', ''te'', ''trailer'',
     ''transfer-encoding'', ''upgrade'', ''content-length'', ''host'']"

definition forward_request_headers :: "headers \<Rightarrow> headers" where
  "forward_request_headers h =
     filter (\<lambda>(k, v). str_lower k \<notin> set HOP_BY_HOP \<and> str_lower k \<noteq> ''authorization'') h"

definition forward_response_headers :: "headers \<Rightarrow> headers" where
  "forward_response_headers h = filter (\<lambda>(k, v). str_lower k \<notin> set HOP_BY_HOP) h"

text \<open>The headers an attempt sends: a remote target gets the provider's key and never the client's, a local
  one the client's and never a key.\<close>

definition outgoing_headers :: "target_kind \<Rightarrow> string option \<Rightarrow> string option \<Rightarrow> headers \<Rightarrow> headers" where
  "outgoing_headers tk api_key content_type client =
     (let h = dset ''content-type'' (case content_type of Some c \<Rightarrow> if c \<noteq> [] then c else ''application/json''
                                     | None \<Rightarrow> ''application/json'') (forward_request_headers client)
      in if tk = REMOTE
         then (case api_key of Some key \<Rightarrow> if key \<noteq> [] then dset ''authorization'' (''Bearer '' @ key) h else h | None \<Rightarrow> h)
         else (case find (\<lambda>(k, v). str_lower k = ''authorization'') client of
                 Some (k, v) \<Rightarrow> if v \<noteq> [] then dset ''authorization'' v h else h | None \<Rightarrow> h))"

definition scrub_upstream_body :: "string \<Rightarrow> string option \<Rightarrow> string" where
  "scrub_upstream_body body api_key = scrub (remember api_key []) body"

text \<open>\<open>urlsplit\<close>: the scheme and the network location, or nothing when it raises.\<close>

definition scheme_char :: "char \<Rightarrow> bool" where
  "scheme_char c \<longleftrightarrow> is_alnum c \<or> c \<in> set ''+-.''"

definition urlsplit :: "string \<Rightarrow> (string \<times> string) option" where
  "urlsplit url =
     (let before = takeWhile (\<lambda>c. c \<noteq> CHR '':'') url; after = drop (length before + 1) url;
          has_scheme = length before < length url \<and> before \<noteq> [] \<and> is_alnum (hd before)
            \<and> \<not> code_in 48 57 (hd before) \<and> list_all scheme_char before;
          scheme = (if has_scheme then str_lower before else []);
          rest = (if has_scheme then after else url)
      in if starts_with ''//'' rest
         then let loc = takeWhile (\<lambda>c. c \<notin> set ''/?#'') (drop 2 rest)
              in if (CHR ''['' \<in> set loc) \<noteq> (CHR '']'' \<in> set loc) then None else Some (scheme, loc)
         else Some (scheme, []))"

definition origin_of :: "string \<Rightarrow> string" where
  "origin_of url =
     (case urlsplit url of
        None \<Rightarrow> url
      | Some (scheme, loc) \<Rightarrow> if scheme = [] \<or> loc = [] then url else scheme @ ''://'' @ loc)"

section \<open>State\<close>

text \<open>What an attempt sent: bytes as they came, or a body written anew.\<close>

datatype payload = Bytes string | Fields json_object

datatype retry_reason = No_retry | Transport | Server_error | Pool_exhausted

record flight =
  fl_target :: string
  fl_began :: rat
  fl_charge :: "(string \<times> int) option"
  fl_finished :: bool

record open_upstream =
  ou_opened_at :: rat
  ou_started :: bool
  ou_pending :: bool
  ou_client :: nat

record request_row =
  row_target :: string
  row_attempt :: nat
  row_reason :: retry_reason
  row_status :: "int option"
  row_error :: string
  row_usage :: "usage option"
  row_duration :: rat

text \<open>What went out on the network, in order, as a log the code does not keep: to which target and for which
  provider, whether the provider's own service sent it, and the request itself.\<close>

record wire =
  wr_target :: string
  wr_kind :: target_kind
  wr_provider :: "string option"
  wr_managed :: bool
  wr_url :: string
  wr_headers :: headers
  wr_payload :: payload

record gateway =
  gw_router :: router
  gw_stats :: stats_registry
  gw_admission :: admission_controller
  gw_budget :: retry_budget
  gw_flights :: "(nat, flight) dict"
  gw_open :: "(nat, open_upstream) dict"
  gw_closed :: "nat list"
  gw_clients :: "(string, nat \<times> rat) dict"
  gw_gone_clients :: "nat list"
  gw_rows :: "request_row list"
  gw_exits :: "(nat \<times> bool) list"
  gw_refusals :: "(string \<times> int) list"
  gw_sent :: "wire list"

definition on_breaker :: "(circuit_breaker \<Rightarrow> circuit_breaker) \<Rightarrow> gateway \<Rightarrow> gateway" where
  "on_breaker f g = g\<lparr>gw_router := (gw_router g)\<lparr>rt_breaker := map_option f (rt_breaker (gw_router g))\<rparr>\<rparr>"

definition note_transport_failure :: "string \<Rightarrow> rat \<Rightarrow> gateway \<Rightarrow> gateway" where
  "note_transport_failure target now = on_breaker (record_transport_failure target now)"

definition note_transport_success :: "string \<Rightarrow> gateway \<Rightarrow> gateway" where
  "note_transport_success target = on_breaker (record_success target)"

definition abandon_probe :: "string \<Rightarrow> gateway \<Rightarrow> gateway" where
  "abandon_probe target = on_breaker (abandon target)"

definition on_stats :: "string \<Rightarrow> (target_stats \<Rightarrow> target_stats) \<Rightarrow> gateway \<Rightarrow> gateway" where
  "on_stats target f g = (case stats_get target (gw_stats g) of (st, reg) \<Rightarrow> g\<lparr>gw_stats := dset target (f st) reg\<rparr>)"

section \<open>Clients and open responses\<close>

text \<open>One client per origin, made on first use; its number is new.\<close>

definition client_for :: "string \<Rightarrow> rat \<Rightarrow> nat \<Rightarrow> gateway \<Rightarrow> nat \<times> gateway" where
  "client_for url now new g =
     (let origin = origin_of url in
      case dget (gw_clients g) origin of
        Some (client, last_used) \<Rightarrow> (client, g\<lparr>gw_clients := dset origin (client, now) (gw_clients g)\<rparr>)
      | None \<Rightarrow> (new, g\<lparr>gw_clients := dset origin (new, now) (gw_clients g)\<rparr>))"

definition track :: "nat \<Rightarrow> nat \<Rightarrow> rat \<Rightarrow> gateway \<Rightarrow> gateway" where
  "track k client now g =
     g\<lparr>gw_open := dset k \<lparr>ou_opened_at = now, ou_started = False, ou_pending = False, ou_client = client\<rparr> (gw_open g)\<rparr>"

definition untrack :: "nat \<Rightarrow> gateway \<Rightarrow> gateway" where
  "untrack k g = g\<lparr>gw_open := dpop k (gw_open g)\<rparr>"

definition close_quietly :: "nat \<Rightarrow> gateway \<Rightarrow> gateway" where
  "close_quietly k g = g\<lparr>gw_closed := List.insert k (gw_closed g)\<rparr>"

definition UNSTARTED_GRACE_S :: rat where "UNSTARTED_GRACE_S = 30"

definition unread :: "rat \<Rightarrow> open_upstream \<Rightarrow> bool" where
  "unread now e \<longleftrightarrow> \<not> ou_started e \<and> \<not> now - ou_opened_at e < UNSTARTED_GRACE_S"

definition reap :: "rat \<Rightarrow> rat \<Rightarrow> gateway \<Rightarrow> gateway" where
  "reap idle now g =
     (let g = foldl (\<lambda>g (k, e). close_quietly k (untrack k g)) g (filter (\<lambda>(k, e). unread now e) (gw_open g));
          stale = filter (\<lambda>(origin, client, last_used). \<not> now - last_used < idle) (gw_clients g)
      in g\<lparr>gw_clients := filter (\<lambda>(origin, client, last_used). now - last_used < idle) (gw_clients g),
           gw_gone_clients := gw_gone_clients g @ map (\<lambda>(origin, client, last_used). client) stale\<rparr>)"

definition stop_proxy :: "gateway \<Rightarrow> gateway" where
  "stop_proxy g =
     (let g = foldl (\<lambda>g k. close_quietly k g) g (dkeys (gw_open g))
      in g\<lparr>gw_open := [], gw_clients := [],
           gw_gone_clients := gw_gone_clients g @ map (\<lambda>(origin, client, last_used). client) (gw_clients g)\<rparr>)"

section \<open>Closing the books\<close>

definition take_off :: "nat \<Rightarrow> string \<Rightarrow> rat \<Rightarrow> (string \<times> int) option \<Rightarrow> gateway \<Rightarrow> gateway" where
  "take_off k target now charge g =
     (on_stats target begin_request g)
       \<lparr>gw_flights := dset k \<lparr>fl_target = target, fl_began = now, fl_charge = charge, fl_finished = False\<rparr> (gw_flights g)\<rparr>"

definition on_finish :: "(string \<times> int) option \<Rightarrow> gateway \<Rightarrow> gateway" where
  "on_finish charge g = (case charge of
     None \<Rightarrow> g | Some (d, kv) \<Rightarrow> g\<lparr>gw_admission := release_kv d kv (gw_admission g)\<rparr>)"

definition settle ::
  "nat \<Rightarrow> nat \<Rightarrow> rat \<Rightarrow> usage option \<Rightarrow> bool \<Rightarrow> int option \<Rightarrow> retry_reason \<Rightarrow> string \<Rightarrow> gateway \<Rightarrow> gateway" where
  "settle k attempt_no now u bad st why err g =
     (case dget (gw_flights g) k of
        None \<Rightarrow> g
      | Some f \<Rightarrow>
        if fl_finished f then g
        else
          let duration = now - fl_began f;
              g = g\<lparr>gw_flights := dset k (f\<lparr>fl_finished := True\<rparr>) (gw_flights g)\<rparr>;
              g = on_stats (fl_target f)
                    (case u of
                       None \<Rightarrow> fail_request
                     | Some v \<Rightarrow> if bad then fail_request
                                 else complete_request (us_tokens v) duration (us_decode_s v) (us_ttft_s v) now) g;
              g = g\<lparr>gw_rows := gw_rows g @ [\<lparr>row_target = fl_target f, row_attempt = attempt_no, row_reason = why,
                     row_status = st, row_error = err, row_usage = u, row_duration = duration\<rparr>]\<rparr>
          in on_finish (fl_charge f) g)"

section \<open>One target's turn\<close>

datatype reply = Whole int headers string | Passing nat int headers | Own api_response

record attempt =
  at_reply :: "reply option"
  at_retryable :: bool
  at_reason :: retry_reason
  at_target :: string
  at_status :: "int option"
  at_headers :: headers
  at_body :: string
  at_error :: string
  at_discard :: "nat option"

definition answered :: "string \<Rightarrow> reply \<Rightarrow> nat option \<Rightarrow> attempt" where
  "answered target r undo = \<lparr>at_reply = Some r, at_retryable = False, at_reason = No_retry, at_target = target,
     at_status = None, at_headers = [], at_body = [], at_error = [], at_discard = undo\<rparr>"

definition not_reached :: "string \<Rightarrow> retry_reason \<Rightarrow> string \<Rightarrow> attempt" where
  "not_reached target why err = \<lparr>at_reply = None, at_retryable = True, at_reason = why, at_target = target,
     at_status = None, at_headers = [], at_body = [], at_error = err, at_discard = None\<rparr>"

definition broke_there :: "string \<Rightarrow> int \<Rightarrow> headers \<Rightarrow> string \<Rightarrow> attempt" where
  "broke_there target st h body = \<lparr>at_reply = None, at_retryable = True, at_reason = Server_error, at_target = target,
     at_status = Some st, at_headers = h, at_body = body, at_error = [], at_discard = None\<rparr>"

datatype sent = No_slot string | Unreachable string | Send_cancelled | Answered int headers
datatype peek = First_chunk | Empty_body | Peek_died string | Still_waiting | Peek_cancelled

text \<open>\<open>ex_error_body\<close> is the chunks of an error body as far as they came, nothing when the read was cancelled.\<close>

record exchange =
  ex_sent :: sent
  ex_error_body :: "string list option"
  ex_peek :: peek
  ex_at :: rat

definition read_bounded :: "string list \<Rightarrow> string" where
  "read_bounded chunks = take BODY_LIMIT (concat chunks)"

text \<open>\<open>None\<close> is a caller that was cancelled.\<close>

definition forward ::
  "py_text \<Rightarrow> (string \<Rightarrow> json option) \<Rightarrow> nat \<Rightarrow> nat \<Rightarrow> nat \<Rightarrow> string \<Rightarrow> string option \<Rightarrow> (string \<times> int) option \<Rightarrow> accounting
    \<Rightarrow> rat \<Rightarrow> exchange \<Rightarrow> gateway \<Rightarrow> attempt option \<times> gateway" where
  "forward py parse k client attempt_no target api_key charge acc began ex g =
     (let g = take_off k target began charge g; now = ex_at ex in
      case ex_sent ex of
        No_slot err \<Rightarrow>
          (Some (not_reached target Pool_exhausted err),
           abandon_probe target (settle k attempt_no now None True None Pool_exhausted err g))
      | Unreachable err \<Rightarrow>
          (Some (not_reached target Transport err),
           note_transport_failure target now (settle k attempt_no now None True None Transport err g))
      | Send_cancelled \<Rightarrow> (None, settle k attempt_no now None True None No_retry ''Discarded'' g)
      | Answered st h \<Rightarrow>
          let g = note_transport_success target (track k client now g) in
          if st \<ge> 500
          then (case ex_error_body ex of
                  None \<Rightarrow> (None, close_quietly k g)
                | Some chunks \<Rightarrow>
                    (Some (broke_there target st (forward_response_headers h)
                        (scrub_upstream_body (read_bounded chunks) api_key)),
                     settle k attempt_no now None True (Some st) Server_error [] (untrack k (close_quietly k g))))
          else if st \<ge> 400
          then (case ex_error_body ex of
                  None \<Rightarrow> (None, close_quietly k g)
                | Some chunks \<Rightarrow>
                    (Some (answered target (Whole st (forward_response_headers h)
                        (scrub_upstream_body (read_bounded chunks) api_key)) None),
                     settle k attempt_no now (Some (finish_accounting py parse now acc)) False (Some st) No_retry []
                       (untrack k (close_quietly k g))))
          else
            let passing = Some (answered target (Passing k st (forward_response_headers h)) (Some k)) in
            (case ex_peek ex of
               Peek_cancelled \<Rightarrow>
                 (None, close_quietly k (untrack k (settle k attempt_no now None True None No_retry ''Discarded'' g)))
             | Peek_died err \<Rightarrow>
                 (Some (not_reached target Transport err),
                  note_transport_failure target now
                    (settle k attempt_no now None True None Transport err (close_quietly k (untrack k g))))
             | Still_waiting \<Rightarrow>
                 (passing, g\<lparr>gw_open := (case dget (gw_open g) k of None \<Rightarrow> gw_open g
                                          | Some e \<Rightarrow> dset k (e\<lparr>ou_pending := True\<rparr>) (gw_open g))\<rparr>)
             | _ \<Rightarrow> (passing, g)))"

section \<open>The body on its way to the client\<close>

text \<open>The chunks that were passed on, each with its time, and what ended them.\<close>

datatype ending = Ended rat | Broke string rat | Left rat

type_synonym passage = "(string \<times> rat) list \<times> ending"

definition start_body :: "nat \<Rightarrow> gateway \<Rightarrow> gateway" where
  "start_body k g = (case dget (gw_open g) k of
     None \<Rightarrow> g | Some e \<Rightarrow> g\<lparr>gw_open := dset k (e\<lparr>ou_started := True\<rparr>) (gw_open g)\<rparr>)"

definition note_chunks :: "(string \<times> rat) list \<Rightarrow> accounting \<Rightarrow> accounting" where
  "note_chunks chunks acc = foldl (\<lambda>acc (chunk, t). note_chunk chunk t acc) acc chunks"

definition finally_close :: "nat \<Rightarrow> nat \<Rightarrow> rat \<Rightarrow> gateway \<Rightarrow> gateway" where
  "finally_close k attempt_no now g =
     close_quietly k (untrack k (settle k attempt_no now None True None No_retry ''ClientDisconnected'' g))"

text \<open>A body gives what the client has of it, and whether it ended as it should. \<open>reopen\<close> offers the rest of the
  response to another target, whose body has no \<open>reopen\<close> of its own; it is interrupted when the client goes away
  meanwhile or it raises.\<close>

type_synonym delivery = "gateway \<Rightarrow> (string \<times> bool) \<times> gateway"

datatype reopened = No_replacement | Replacement delivery | Interrupted

definition plain_body ::
  "py_text \<Rightarrow> (string \<Rightarrow> json option) \<Rightarrow> nat \<Rightarrow> nat \<Rightarrow> string \<Rightarrow> int \<Rightarrow> accounting \<Rightarrow> passage \<Rightarrow> gateway
    \<Rightarrow> (string \<times> bool) \<times> gateway" where
  "plain_body py parse k attempt_no target st acc p g =
     (let g = start_body k g; bytes = concat (map fst (fst p)); acc = note_chunks (fst p) acc in
      case snd p of
        Ended now \<Rightarrow>
          ((bytes, True), finally_close k attempt_no now
             (settle k attempt_no now (Some (finish_accounting py parse now acc)) False (Some st) No_retry [] g))
      | Broke err now \<Rightarrow> ((bytes, False), finally_close k attempt_no now (note_transport_failure target now g))
      | Left now \<Rightarrow> ((bytes, False), finally_close k attempt_no now g))"

definition stream_body ::
  "py_text \<Rightarrow> (string \<Rightarrow> json option) \<Rightarrow> nat \<Rightarrow> nat \<Rightarrow> string \<Rightarrow> int \<Rightarrow> accounting \<Rightarrow> passage
    \<Rightarrow> (gateway \<Rightarrow> reopened \<times> gateway) option \<Rightarrow> gateway
    \<Rightarrow> (string \<times> bool) \<times> gateway" where
  "stream_body py parse k attempt_no target st acc p reopen g =
     (case (snd p, concat (map fst (fst p)), reopen) of
        (Broke err now, [], Some again) \<Rightarrow>
          (case again (note_transport_failure target now (start_body k g)) of
             (No_replacement, g) \<Rightarrow> (([], False), finally_close k attempt_no now g)
           | (Interrupted, g) \<Rightarrow> (([], False), finally_close k attempt_no now g)
           | (Replacement replacement, g) \<Rightarrow>
               (case replacement (close_quietly k (untrack k (settle k attempt_no now None True None Transport err g))) of
                  (out, g) \<Rightarrow> (out, finally_close k attempt_no now g)))
      | _ \<Rightarrow> plain_body py parse k attempt_no target st acc p g)"

definition discard_attempt :: "nat \<Rightarrow> nat \<Rightarrow> rat \<Rightarrow> gateway \<Rightarrow> gateway" where
  "discard_attempt k attempt_no now g =
     close_quietly k (untrack k (settle k attempt_no now None True None No_retry ''Discarded'' g))"

section \<open>A turn through a provider\<close>

text \<open>What entering the provider's context manager can come to: its refusals, the errors of the upstream with the
  pause it asked for, any other exception, a caller that was cancelled, or the open response. \<open>Provider_trouble\<close>
  is every other \<open>ProviderError\<close>, \<open>No_provider\<close> an \<open>httpx.HTTPError\<close>.\<close>

datatype opened =
    Not_admitting | Missing_key | No_adapter string | Failed_upstream int string string "py_float option"
  | Provider_trouble | No_provider_slot string | No_provider string | Opening_cancelled | Opening_raised py_error
  | Opened int headers "string option"

text \<open>The providers port as the gateway calls it: the key of a provider, and \<open>open_upstream\<close>, of a provider, its name
  for the model, the body, whether it is streamed, and the path. What the port put on the network meanwhile
  is listed beside what it came to: for each send the address, the headers and the payload.\<close>

record provider_port =
  port_key :: "string \<Rightarrow> string option result"
  port_open :: "string \<Rightarrow> string \<Rightarrow> json_object \<Rightarrow> bool \<Rightarrow> string \<Rightarrow> opened \<times> (string \<times> headers \<times> payload) list"

definition SYNTHETIC_TRANSPORT_PREFIX :: string where
  "SYNTHETIC_TRANSPORT_PREFIX = ''could not reach upstream: ''"

definition POOL_TIMEOUT_CLASS :: string where "POOL_TIMEOUT_CLASS = ''PoolTimeout''"

definition synthetic_transport_error_class :: "int \<Rightarrow> string \<Rightarrow> string \<Rightarrow> string option" where
  "synthetic_transport_error_class st message body =
     (if st = 502 \<and> starts_with SYNTHETIC_TRANSPORT_PREFIX message \<and> body = []
      then let name = drop (length SYNTHETIC_TRANSPORT_PREFIX) message
           in Some (if name \<noteq> [] then name else ''UpstreamError'')
      else None)"

text \<open>The headers Starlette sends for a stream with a media type: its own unless there is one already.\<close>

definition passing_headers :: "string option \<Rightarrow> headers \<Rightarrow> headers" where
  "passing_headers media h =
     (case media of
        None \<Rightarrow> h
      | Some m \<Rightarrow>
        if \<exists>(k, v) \<in> set h. str_lower k = ''content-type'' then h
        else h @ [(''content-type'', if starts_with ''text/'' m \<and> \<not> str_contains ''charset='' (str_lower m)
                                   then m @ ''; charset=utf-8'' else m)])"

text \<open>\<open>if exc.retry_after_s: headers["retry-after"] = str(int(exc.retry_after_s))\<close>: an infinity and a NaN are true,
  and \<open>int()\<close> refuses them.\<close>

definition provider_headers :: "py_float option \<Rightarrow> headers result" where
  "provider_headers pause =
     (let h = [(''content-type'', ''application/json'')] in
      case pause of
        None \<Rightarrow> Inr h
      | Some (Number r) \<Rightarrow> Inr (if r \<noteq> 0 then h @ [(''retry-after'', show_int (py_int r))] else h)
      | Some Not_a_number \<Rightarrow> Inl (ValueError ''cannot convert float NaN to integer'')
      | Some _ \<Rightarrow> Inl OverflowError)"

definition wires_of :: "string \<Rightarrow> string \<Rightarrow> (string \<times> headers \<times> payload) list \<Rightarrow> wire list" where
  "wires_of target pid sends = map (\<lambda>(url, h, p). \<lparr>wr_target = target, wr_kind = REMOTE, wr_provider = Some pid,
     wr_managed = True, wr_url = url, wr_headers = h, wr_payload = p\<rparr>) sends"

text \<open>A provider's turn is cancelled, raises, is refused before anything was sent, or is an attempt.\<close>

datatype provider_turn = Turn_cancelled | Turn_raised py_error | Turn_refused | Turn_taken attempt

definition forward_provider ::
  "nat \<Rightarrow> nat \<Rightarrow> string \<Rightarrow> string \<Rightarrow> string \<Rightarrow> string \<Rightarrow> json_object \<Rightarrow> bool \<Rightarrow> (string \<times> int) option \<Rightarrow> rat \<Rightarrow> provider_port
    \<Rightarrow> rat \<Rightarrow> gateway \<Rightarrow> provider_turn \<times> gateway" where
  "forward_provider k attempt_no target provider_name uid path body streaming charge began port now g =
     (let g = take_off k target began charge g;
          (op, sends) = port_open port provider_name uid body streaming path;
          g = g\<lparr>gw_sent := gw_sent g @ wires_of target provider_name sends\<rparr>;
          no_slot = (\<lambda>err. (Turn_taken (not_reached target Pool_exhausted err),
            abandon_probe target (settle k attempt_no now None True None Pool_exhausted err g)));
          unreachable = (\<lambda>err. (Turn_taken (not_reached target Transport err),
            note_transport_failure target now (settle k attempt_no now None True None Transport err g)));
          own = (\<lambda>err message error_code.
            (Turn_taken (answered target (Own (error_response 502 message ''server_error'' error_code [] [])) None),
             abandon_probe target (settle k attempt_no now None True (Some 502) No_retry err g)))
      in case op of
           Opening_cancelled \<Rightarrow> (Turn_cancelled, g)
         | Opening_raised err \<Rightarrow> (Turn_raised err, g)
         | Not_admitting \<Rightarrow> (Turn_refused, settle k attempt_no now None True None No_retry [] g)
         | Provider_trouble \<Rightarrow> (Turn_refused, settle k attempt_no now None True None No_retry [] g)
         | Missing_key \<Rightarrow> own ''MissingKeyError''
             (''Provider '' @ quoted provider_name @ '' has no usable credential configured.'') ''provider_key_unavailable''
         | No_adapter message \<Rightarrow> own ''AdapterUnsupportedError'' message ''provider_adapter_unsupported''
         | No_provider_slot err \<Rightarrow> no_slot err
         | No_provider err \<Rightarrow> unreachable err
         | Failed_upstream st message body pause \<Rightarrow>
             (case synthetic_transport_error_class st message body of
                Some err \<Rightarrow> if err = POOL_TIMEOUT_CLASS then no_slot err else unreachable err
              | None \<Rightarrow>
                let g = note_transport_success target g in
                (case provider_headers pause of
                   Inl err \<Rightarrow> (Turn_raised err, g)
                 | Inr h \<Rightarrow>
                   if st \<ge> 500
                   then (Turn_taken (broke_there target st h body),
                         settle k attempt_no now None True (Some st) Server_error [] g)
                   else (Turn_taken (answered target (Whole st h body) None),
                         settle k attempt_no now None True (Some st) No_retry [] g)))
         | Opened st h media \<Rightarrow>
             (Turn_taken (answered target (Passing k st (passing_headers media h)) (Some k)), note_transport_success target g))"

text \<open>The provider's manager hears how the transfer ended, once.\<close>

definition exit_manager :: "nat \<Rightarrow> bool \<Rightarrow> gateway \<Rightarrow> gateway" where
  "exit_manager k clean g = g\<lparr>gw_exits := gw_exits g @ [(k, clean)]\<rparr>"

definition provider_plain_body ::
  "py_text \<Rightarrow> (string \<Rightarrow> json option) \<Rightarrow> nat \<Rightarrow> nat \<Rightarrow> string \<Rightarrow> int \<Rightarrow> accounting \<Rightarrow> passage \<Rightarrow> gateway
    \<Rightarrow> (string \<times> bool) \<times> gateway" where
  "provider_plain_body py parse k attempt_no target st acc p g =
     (let bytes = concat (map fst (fst p)); acc = note_chunks (fst p) acc in
      case snd p of
        Ended now \<Rightarrow>
          ((bytes, True), exit_manager k True
             (settle k attempt_no now (Some (finish_accounting py parse now acc)) False (Some st) No_retry [] g))
      | Broke err now \<Rightarrow>
          ((bytes, False), exit_manager k False
             (settle k attempt_no now None True None No_retry [] (note_transport_failure target now g)))
      | Left now \<Rightarrow> ((bytes, False), exit_manager k False (settle k attempt_no now None True None No_retry [] g)))"

definition provider_stream_body ::
  "py_text \<Rightarrow> (string \<Rightarrow> json option) \<Rightarrow> nat \<Rightarrow> nat \<Rightarrow> string \<Rightarrow> int \<Rightarrow> accounting \<Rightarrow> passage
    \<Rightarrow> (gateway \<Rightarrow> reopened \<times> gateway) option \<Rightarrow> gateway
    \<Rightarrow> (string \<times> bool) \<times> gateway" where
  "provider_stream_body py parse k attempt_no target st acc p reopen g =
     (case (snd p, concat (map fst (fst p)), reopen) of
        (Broke err now, [], Some again) \<Rightarrow>
          (case again g of
             (No_replacement, g) \<Rightarrow>
               (([], False), exit_manager k False
                  (settle k attempt_no now None True None No_retry [] (note_transport_failure target now g)))
           | (Interrupted, g) \<Rightarrow> (([], False), exit_manager k True (settle k attempt_no now None True None No_retry [] g))
           | (Replacement replacement, g) \<Rightarrow>
               replacement (exit_manager k False
                  (settle k attempt_no now None True None Transport err (note_transport_failure target now g))))
      | _ \<Rightarrow> provider_plain_body py parse k attempt_no target st acc p g)"

definition discard_provider :: "nat \<Rightarrow> nat \<Rightarrow> rat \<Rightarrow> gateway \<Rightarrow> gateway" where
  "discard_provider k attempt_no now g =
     exit_manager k False (settle k attempt_no now None True None No_retry ''Discarded'' g)"

end
