(* ===== verification/Proxy_Books.thy ===== *)
theory Proxy_Books
  imports Proxy
begin

text \<open>
  The books of the proxy: the counters of the targets and the cache charged to the deployments are at every
  moment those of the attempts not yet settled; an attempt that was not cancelled is settled, its upstream
  closed, by the end of its body; and what the breaker hears is evidence about the target. The cases in
  which an attempt is never settled are at the end.
\<close>

declare map_of_eq_Some_iff [simp del]

section \<open>The books\<close>

definition unsettled :: "gateway \<Rightarrow> flight list" where
  "unsettled g = filter (\<lambda>f. \<not> fl_finished f) (dvalues (gw_flights g))"

definition charge_on :: "string \<Rightarrow> flight \<Rightarrow> int" where
  "charge_on d f = (case fl_charge f of Some (i, kv) \<Rightarrow> if i = d then kv else 0 | None \<Rightarrow> 0)"

definition books_ok :: "gateway \<Rightarrow> bool" where
  "books_ok g \<longleftrightarrow> dkeys (gw_flights g) = [0..<length (gw_flights g)]
     \<and> (\<forall>f \<in> set (dvalues (gw_flights g)). \<forall>d kv. fl_charge f = Some (d, kv) \<longrightarrow> 0 \<le> kv)
     \<and> (\<forall>t. stats_outstanding (gw_stats g) t = int (length (filter (\<lambda>f. fl_target f = t) (unsettled g))))
     \<and> (\<forall>d. committed (gw_admission g) d = sum_list (map (charge_on d) (unsettled g)))"

lemma books_cong:
  "gw_flights g' = gw_flights g \<Longrightarrow> gw_stats g' = gw_stats g \<Longrightarrow> gw_admission g' = gw_admission g \<Longrightarrow> books_ok g' = books_ok g"
  by (simp add: books_ok_def unsettled_def)

lemma aside_fields [simp]:
  "gw_flights (on_breaker b g) = gw_flights g" "gw_stats (on_breaker b g) = gw_stats g"
  "gw_admission (on_breaker b g) = gw_admission g"
  "gw_open (on_breaker b g) = gw_open g" "gw_closed (on_breaker b g) = gw_closed g"
  "gw_flights (track k c t g) = gw_flights g" "gw_stats (track k c t g) = gw_stats g"
  "gw_admission (track k c t g) = gw_admission g" "gw_router (track k c t g) = gw_router g"
  "gw_closed (track k c t g) = gw_closed g"
  "gw_flights (untrack k g) = gw_flights g" "gw_stats (untrack k g) = gw_stats g"
  "gw_admission (untrack k g) = gw_admission g" "gw_router (untrack k g) = gw_router g"
  "gw_closed (untrack k g) = gw_closed g" "gw_open (untrack k g) = dpop k (gw_open g)"
  "gw_flights (close_quietly k g) = gw_flights g" "gw_stats (close_quietly k g) = gw_stats g"
  "gw_admission (close_quietly k g) = gw_admission g" "gw_router (close_quietly k g) = gw_router g"
  "gw_open (close_quietly k g) = gw_open g"
  "gw_flights (start_body k g) = gw_flights g" "gw_stats (start_body k g) = gw_stats g"
  "gw_admission (start_body k g) = gw_admission g" "gw_router (start_body k g) = gw_router g"
  by (simp_all add: on_breaker_def track_def untrack_def close_quietly_def start_body_def split: option.split)

lemma books_aside [simp]:
  "books_ok (on_breaker b g) = books_ok g" "books_ok (track k c t g) = books_ok g" "books_ok (untrack k g) = books_ok g"
  "books_ok (close_quietly k g) = books_ok g" "books_ok (start_body k g) = books_ok g"
  "books_ok (g\<lparr>gw_open := ou\<rparr>) = books_ok g" "books_ok (g\<lparr>gw_rows := rows\<rparr>) = books_ok g"
  by (rule books_cong; simp)+

lemma outstanding_on_stats [simp]:
  "stats_outstanding (gw_stats (on_stats t f g)) u
     = (if u = t then ts_outstanding (f (fst (stats_get t (gw_stats g)))) else stats_outstanding (gw_stats g) u)"
  by (auto simp: on_stats_def stats_get_def stats_outstanding_def split: option.split)

lemma on_stats_fields [simp]:
  "gw_flights (on_stats t f g) = gw_flights g" "gw_admission (on_stats t f g) = gw_admission g"
  "gw_router (on_stats t f g) = gw_router g" "gw_open (on_stats t f g) = gw_open g" "gw_closed (on_stats t f g) = gw_closed g"
  "gw_rows (on_stats t f g) = gw_rows g"
  by (simp_all add: on_stats_def split: prod.split)

lemma outstanding_get: "ts_outstanding (fst (stats_get t reg)) = stats_outstanding reg t"
  by (simp add: stats_get_def stats_outstanding_def new_stats_def split: option.split)

lemma dvalues_dset_new: "k \<notin> set (dkeys d) \<Longrightarrow> dvalues (dset k v d) = dvalues d @ [v]"
  by (induction d) auto

lemma dkeys_dset_new: "k \<notin> set (dkeys d) \<Longrightarrow> dkeys (dset k v d) = dkeys d @ [k]"
  by (induction d) auto

text \<open>A value replaced by one, seen through a filter and a sum.\<close>

lemma dvalues_dset_at:
  "dict_ok d \<Longrightarrow> dget d k = Some w \<Longrightarrow> \<exists>xs ys. dvalues d = xs @ w # ys \<and> dvalues (dset k v d) = xs @ v # ys"
proof (induction d)
  case (Cons p d)
  obtain a b where p: "p = (a, b)" by (cases p)
  show ?case
  proof (cases "a = k")
    case True
    then show ?thesis using Cons.prems by (intro exI [of _ "[]"] exI [of _ "dvalues d"]) (simp add: p)
  next
    case False
    then obtain xs ys where "dvalues d = xs @ w # ys" "dvalues (dset k v d) = xs @ v # ys"
      using Cons by (auto simp: p)
    then show ?thesis using False by (intro exI [of _ "b # xs"] exI [of _ ys]) (simp add: p)
  qed
qed simp

definition charge_kv :: "(string \<times> int) option \<Rightarrow> gateway \<Rightarrow> gateway" where
  "charge_kv charge g = (case charge of
     None \<Rightarrow> g | Some (d, kv) \<Rightarrow> g\<lparr>gw_admission := commit_kv d kv (gw_admission g)\<rparr>)"

lemma charge_kv_fields [simp]:
  "gw_flights (charge_kv charge g) = gw_flights g" "gw_stats (charge_kv charge g) = gw_stats g"
  "gw_router (charge_kv charge g) = gw_router g" "gw_open (charge_kv charge g) = gw_open g"
  "gw_closed (charge_kv charge g) = gw_closed g"
  by (simp_all add: charge_kv_def split: option.split)

lemma take_off_books:
  assumes ok: "books_ok g" and k: "k = length (gw_flights g)" and nonneg: "\<And>d kv. charge = Some (d, kv) \<Longrightarrow> 0 \<le> kv"
  shows "books_ok (take_off k target now charge (charge_kv charge g))"
proof -
  let ?f = "\<lparr>fl_target = target, fl_began = now, fl_charge = charge, fl_finished = False\<rparr>"
  let ?g = "take_off k target now charge (charge_kv charge g)"
  have keys: "dkeys (gw_flights g) = [0..<k]" using ok k by (simp add: books_ok_def)
  then have new: "k \<notin> set (dkeys (gw_flights g))" by simp
  have fl: "gw_flights ?g = dset k ?f (gw_flights g)" by (simp add: take_off_def)
  have vals: "dvalues (gw_flights ?g) = dvalues (gw_flights g) @ [?f]" unfolding fl by (rule dvalues_dset_new [OF new])
  have un: "unsettled ?g = unsettled g @ [?f]" by (simp add: unsettled_def vals)
  have "length (gw_flights ?g) = Suc k" using vals k by (metis length_append_singleton length_map)
  then have "dkeys (gw_flights ?g) = [0..<length (gw_flights ?g)]" unfolding fl dkeys_dset_new [OF new] keys by simp
  moreover have "stats_outstanding (gw_stats ?g) t = stats_outstanding (gw_stats g) t + (if t = target then 1 else 0)" for t
    by (simp add: take_off_def begin_request_def outstanding_get)
  moreover have "committed (gw_admission ?g) d = committed (gw_admission g) d + charge_on d ?f" for d
    by (auto simp: take_off_def charge_kv_def charge_on_def commit_kv_def committed_def dget_or_def split: option.split)
  ultimately show ?thesis using ok nonneg unfolding books_ok_def un vals by auto
qed

lemma settle_books: "books_ok g \<Longrightarrow> books_ok (settle k n now u bad st why err g)"
proof -
  assume ok: "books_ok g"
  show ?thesis
  proof (cases "\<exists>f. dget (gw_flights g) k = Some f \<and> \<not> fl_finished f")
    case False
    then have "settle k n now u bad st why err g = g" by (auto simp: settle_def split: option.split)
    then show ?thesis using ok by simp
  next
    case True
    then obtain f where f: "dget (gw_flights g) k = Some f" "\<not> fl_finished f" by blast
    let ?g = "settle k n now u bad st why err g"
    let ?done = "f\<lparr>fl_finished := True\<rparr>"
    have d: "dict_ok (gw_flights g)" using ok unfolding books_ok_def by (metis distinct_upt)
    obtain xs ys where split: "dvalues (gw_flights g) = xs @ f # ys" "dvalues (dset k ?done (gw_flights g)) = xs @ ?done # ys"
      using dvalues_dset_at [OF d f(1)] by blast
    have fl: "gw_flights ?g = dset k ?done (gw_flights g)"
      using f by (simp add: settle_def on_finish_def Let_def split: option.split)
    have un: "unsettled g = filter (\<lambda>f. \<not> fl_finished f) xs @ f # filter (\<lambda>f. \<not> fl_finished f) ys"
        "unsettled ?g = filter (\<lambda>f. \<not> fl_finished f) xs @ filter (\<lambda>f. \<not> fl_finished f) ys"
      by (simp_all add: unsettled_def fl split f(2))
    have "dkeys (gw_flights ?g) = dkeys (gw_flights g)" unfolding fl by (rule dkeys_dset_old) (metis f(1) map_of_eq_None_notin option.distinct(1))
    moreover from this have "length (gw_flights ?g) = length (gw_flights g)" by (metis length_map)
    moreover have "stats_outstanding (gw_stats ?g) t = (if t = fl_target f then max 0 (stats_outstanding (gw_stats g) t - 1) else stats_outstanding (gw_stats g) t)" for t
      using f by (auto simp: settle_def on_finish_def Let_def fail_request_def complete_request_def outstanding_get split: option.split)
    moreover have "committed (gw_admission ?g) d = committed (gw_admission g) d - charge_on d f" for d
    proof (cases "fl_charge f")
      case None
      then show ?thesis using f by (simp add: settle_def on_finish_def Let_def charge_on_def)
    next
      case (Some c)
      obtain i kv where c: "c = (i, kv)" by (cases c)
      have "0 \<le> kv" using ok Some c split(1) unfolding books_ok_def by auto
      moreover have "gw_admission ?g = release_kv i kv (gw_admission g)"
        using f Some c by (simp add: settle_def on_finish_def Let_def)
      moreover have "kv \<le> committed (gw_admission g) i"
      proof -
        have pos: "0 \<le> sum_list (map (charge_on i) (filter (\<lambda>f. \<not> fl_finished f) zs))"
          if "set zs \<subseteq> set (dvalues (gw_flights g))" for zs
          using ok that unfolding books_ok_def
          by (intro sum_list_nonneg) (force simp: charge_on_def split: option.split)
        have "set xs \<subseteq> set (dvalues (gw_flights g))" "set ys \<subseteq> set (dvalues (gw_flights g))" by (auto simp: split)
        from pos [OF this(1)] pos [OF this(2)]
        have "charge_on i f \<le> sum_list (map (charge_on i) (unsettled g))" unfolding un by simp
        also have "\<dots> = committed (gw_admission g) i" using ok by (simp add: books_ok_def)
        finally have "charge_on i f \<le> committed (gw_admission g) i" .
        then show ?thesis by (simp add: charge_on_def Some c)
      qed
      ultimately show ?thesis
        by (auto simp: release_kv_def committed_def charge_on_def Some c Let_def dget_or_def)
    qed
    ultimately show ?thesis using ok unfolding books_ok_def un fl split by auto
  qed
qed

section \<open>The steps of the gateway\<close>

text \<open>What happens between two awaits of any request: an attempt goes out with its charge, one is settled, or
  something that is not in the books moves. Any interleaving of requests is a sequence of these.\<close>

inductive gateway_step :: "gateway \<Rightarrow> gateway \<Rightarrow> bool" where
  goes_out: "(\<And>d kv. charge = Some (d, kv) \<Longrightarrow> 0 \<le> kv) \<Longrightarrow> k = length (gw_flights g) \<Longrightarrow>
     gateway_step g (take_off k target now charge (charge_kv charge g))"
| settled: "gateway_step g (settle k n now u bad st why err g)"
| aside: "gw_flights g' = gw_flights g \<Longrightarrow> gw_stats g' = gw_stats g \<Longrightarrow>
     adm_committed (gw_admission g') = adm_committed (gw_admission g) \<Longrightarrow> gateway_step g g'"

abbreviation later :: "gateway \<Rightarrow> gateway \<Rightarrow> bool" where
  "later \<equiv> gateway_step\<^sup>*\<^sup>*"

lemma later_aside:
  "gw_flights g' = gw_flights g \<Longrightarrow> gw_stats g' = gw_stats g \<Longrightarrow>
   adm_committed (gw_admission g') = adm_committed (gw_admission g) \<Longrightarrow> later g g'"
  by (rule r_into_rtranclp) (rule aside)

lemma later_settle: "later g (settle k n now u bad st why err g)"
  by (rule r_into_rtranclp) (rule settled)

text \<open>The operations, as steps after those already taken.\<close>

lemma then_settle: "later g0 g \<Longrightarrow> later g0 (settle k n now u bad st why err g)"
  by (rule rtranclp_trans [OF _ later_settle])

lemma then_aside:
  "later g0 g \<Longrightarrow> later g0 (on_breaker b g)" "later g0 g \<Longrightarrow> later g0 (track k c t g)"
  "later g0 g \<Longrightarrow> later g0 (untrack k g)" "later g0 g \<Longrightarrow> later g0 (close_quietly k g)"
  "later g0 g \<Longrightarrow> later g0 (start_body k g)" "later g0 g \<Longrightarrow> later g0 (exit_manager k clean g)"
  "later g0 g \<Longrightarrow> later g0 (g\<lparr>gw_open := ou\<rparr>)" "later g0 g \<Longrightarrow> later g0 (g\<lparr>gw_sent := ws\<rparr>)"
  by (erule rtranclp_trans, rule later_aside; simp add: exit_manager_def)+

lemmas then_step = rtranclp.rtrancl_refl then_settle then_aside

lemmas verdicts = note_transport_failure_def note_transport_success_def abandon_probe_def

text \<open>A settled attempt stays settled, and no attempt is forgotten.\<close>

definition landed :: "nat \<Rightarrow> gateway \<Rightarrow> bool" where
  "landed k g \<longleftrightarrow> (case dget (gw_flights g) k of None \<Rightarrow> False | Some f \<Rightarrow> fl_finished f)"

lemma settle_flights:
  "dget (gw_flights (settle k n now u bad st why err g)) j
     = (if j = k then map_option (\<lambda>f. f\<lparr>fl_finished := True\<rparr>) (dget (gw_flights g) k) else dget (gw_flights g) j)"
  by (auto simp: settle_def on_finish_def Let_def split: option.split)

lemma take_off_flights:
  "dget (gw_flights (take_off k target now charge g)) j
     = (if j = k then Some \<lparr>fl_target = target, fl_began = now, fl_charge = charge, fl_finished = False\<rparr>
        else dget (gw_flights g) j)"
  by (simp add: take_off_def)

lemma fresh_number: "books_ok g \<Longrightarrow> k = length (gw_flights g) \<Longrightarrow> dget (gw_flights g) k = None"
  by (simp add: books_ok_def map_of_eq_None_notin)

lemma step_keeps: "gateway_step g g' \<Longrightarrow> books_ok g \<Longrightarrow> books_ok g'"
proof (induction rule: gateway_step.induct)
  case (goes_out charge k g target now)
  then show ?case by (intro take_off_books) auto
next
  case (settled g k n now u bad st why err)
  then show ?case by (rule settle_books)
next
  case (aside g' g)
  then show ?case by (simp add: books_ok_def unsettled_def committed_def)
qed

lemma step_landed: "gateway_step g g' \<Longrightarrow> books_ok g \<Longrightarrow> landed j g \<Longrightarrow> landed j g'"
proof (induction rule: gateway_step.induct)
  case (goes_out charge k g target now)
  have "dget (gw_flights g) k = None" using goes_out by (intro fresh_number) auto
  then have "j \<noteq> k" using goes_out by (auto simp: landed_def)
  then show ?case using goes_out by (simp add: landed_def take_off_flights)
next
  case (settled g k n now u bad st why err)
  then show ?case by (auto simp: landed_def settle_flights split: option.split option.splits)
next
  case (aside g' g)
  then show ?case by (simp add: landed_def)
qed

lemma step_known: "gateway_step g g' \<Longrightarrow> dget (gw_flights g) j \<noteq> None \<Longrightarrow> dget (gw_flights g') j \<noteq> None"
  by (induction rule: gateway_step.induct) (auto simp: take_off_flights settle_flights)

lemma later_keeps: "later g g' \<Longrightarrow> books_ok g \<Longrightarrow> books_ok g'"
  by (induction rule: rtranclp_induct) (auto intro: step_keeps)

lemma later_landed: "later g g' \<Longrightarrow> books_ok g \<Longrightarrow> landed j g \<Longrightarrow> landed j g'"
  by (induction rule: rtranclp_induct) (auto intro: step_landed later_keeps)

lemma later_known: "later g g' \<Longrightarrow> dget (gw_flights g) j \<noteq> None \<Longrightarrow> dget (gw_flights g') j \<noteq> None"
  by (induction rule: rtranclp_induct) (auto dest: step_known)

lemma settle_lands: "dget (gw_flights g) k \<noteq> None \<Longrightarrow> landed k (settle k n now u bad st why err g)"
  by (auto simp: landed_def settle_flights)

section \<open>Every operation is steps\<close>

lemma goes_later:
  "(\<And>d kv. charge = Some (d, kv) \<Longrightarrow> 0 \<le> kv) \<Longrightarrow> k = length (gw_flights g) \<Longrightarrow>
   later g (take_off k target now charge (charge_kv charge g))"
  by (rule r_into_rtranclp) (rule goes_out; simp)

lemma forward_later:
  assumes "\<And>d kv. charge = Some (d, kv) \<Longrightarrow> 0 \<le> kv" and "k = length (gw_flights g)"
  shows "later g (snd (forward py parse k client n target key charge acc began ex (charge_kv charge g)))"
  unfolding forward_def Let_def verdicts using goes_later [where charge = charge and k = k and g = g and target = target and now = began, OF assms]
  by (cases "ex_sent ex"; cases "ex_peek ex"; cases "ex_error_body ex") (auto intro!: then_step)

lemma forward_provider_later:
  assumes "\<And>d kv. charge = Some (d, kv) \<Longrightarrow> 0 \<le> kv" and "k = length (gw_flights g)"
  shows "later g (snd (forward_provider k n target p uid path body streaming charge began port now (charge_kv charge g)))"
  unfolding forward_provider_def Let_def verdicts using goes_later [where charge = charge and k = k and g = g and target = target and now = began, OF assms]
  by (cases "port_open port p uid body streaming path"; cases "fst (port_open port p uid body streaming path)")
     (auto split: option.split sum.split intro!: then_step)

text \<open>What a body is handed to finish itself from another target must be steps as well.\<close>

definition reopens :: "(gateway \<Rightarrow> reopened \<times> gateway) option \<Rightarrow> bool" where
  "reopens reopen \<longleftrightarrow> (\<forall>again g. reopen = Some again \<longrightarrow> later g (snd (again g))
     \<and> (\<forall>r h. fst (again g) = Replacement r \<longrightarrow> later h (snd (r h))))"

lemma plain_body_later: "later g (snd (plain_body py parse k n target st acc p g))"
  unfolding plain_body_def Let_def finally_close_def verdicts by (cases "snd p") (auto intro!: then_step)

lemma provider_plain_body_later: "later g (snd (provider_plain_body py parse k n target st acc p g))"
  unfolding provider_plain_body_def Let_def verdicts by (cases "snd p") (auto intro!: then_step)

lemma reopensD:
  assumes "reopens (Some again)" and "again g = (Replacement r, g')"
  shows "later g g'" "later h (snd (r h))"
  using assms(1) [unfolded reopens_def, rule_format, of again g] assms(2) by auto

lemma reopens_state:
  assumes "reopens (Some again)" and "again g = (x, g')"
  shows "later g g'"
  using assms(1) [unfolded reopens_def, rule_format, of again g] assms(2) by auto

lemma plain_stream: "\<not> (\<exists>err now again. snd p = Broke err now \<and> concat (map fst (fst p)) = [] \<and> reopen = Some again) \<Longrightarrow>
   stream_body py parse k n target st acc p reopen g = plain_body py parse k n target st acc p g
   \<and> provider_stream_body py parse k n target st acc p reopen g = provider_plain_body py parse k n target st acc p g"
  unfolding stream_body_def provider_stream_body_def by (auto split: ending.split option.split list.split)

lemma handed_over:
  assumes "snd p = Broke err now" "concat (map fst (fst p)) = []"
  shows "stream_body py parse k n target st acc p (Some again) g =
     (case again (note_transport_failure target now (start_body k g)) of
        (No_replacement, g) \<Rightarrow> (([], False), finally_close k n now g)
      | (Interrupted, g) \<Rightarrow> (([], False), finally_close k n now g)
      | (Replacement replacement, g) \<Rightarrow>
          (case replacement (close_quietly k (untrack k (settle k n now None True None Transport err g))) of
             (out, g) \<Rightarrow> (out, finally_close k n now g)))"
    "provider_stream_body py parse k n target st acc p (Some again) g =
       (case again g of
          (No_replacement, g) \<Rightarrow> (([], False), exit_manager k False
             (settle k n now None True None No_retry [] (note_transport_failure target now g)))
        | (Interrupted, g) \<Rightarrow> (([], False), exit_manager k True (settle k n now None True None No_retry [] g))
        | (Replacement replacement, g) \<Rightarrow>
            replacement (exit_manager k False (settle k n now None True None Transport err (note_transport_failure target now g))))"
  unfolding stream_body_def provider_stream_body_def assms by simp_all

lemma stream_body_later:
  assumes "reopens reopen"
  shows "later g (snd (stream_body py parse k n target st acc p reopen g))" (is ?A)
    and "later g (snd (provider_stream_body py parse k n target st acc p reopen g))" (is ?B)
proof -
  have "?A \<and> ?B"
  proof (cases "\<exists>err now again. snd p = Broke err now \<and> concat (map fst (fst p)) = [] \<and> reopen = Some again")
    case False
    show ?thesis unfolding conjunct1 [OF plain_stream [OF False]] conjunct2 [OF plain_stream [OF False]]
      using plain_body_later provider_plain_body_later by blast
  next
    case True
    then obtain err now again where c: "snd p = Broke err now" "concat (map fst (fst p)) = []" "reopen = Some again" by blast
    have ok: "reopens (Some again)" using assms c(3) by simp
    let ?h = "note_transport_failure target now (start_body k g)"
    have h: "later g ?h" unfolding verdicts by (intro then_step)
    have "?A"
    proof (cases "again ?h")
      case (Pair o1 g1)
      have later1: "later g g1" using reopens_state [OF ok Pair] h by (simp add: rtranclp_trans)
      show ?thesis
      proof (cases o1)
        case No_replacement
        then show ?thesis using later1 unfolding c(3) handed_over(1) [OF c(1,2)] Pair No_replacement finally_close_def
          by (auto intro!: then_step)
      next
        case Interrupted
        then show ?thesis using later1 unfolding c(3) handed_over(1) [OF c(1,2)] Pair Interrupted finally_close_def
          by (auto intro!: then_step)
      next
        case (Replacement r)
        let ?g2 = "close_quietly k (untrack k (settle k n now None True None Transport err g1))"
        have "later g ?g2" using later1 by (intro then_step)
        moreover have "later ?g2 (snd (r ?g2))" using reopensD(2) [OF ok, of ?h r g1 ?g2] Pair Replacement by simp
        ultimately have "later g (snd (r ?g2))" by (rule rtranclp_trans)
        then show ?thesis unfolding c(3) handed_over(1) [OF c(1,2)] Pair Replacement finally_close_def
          by (auto intro!: then_step split: prod.split)
      qed
    qed
    moreover have "?B"
    proof (cases "again g")
      case (Pair o1 g1)
      have later1: "later g g1" using reopens_state [OF ok Pair] .
      show ?thesis
      proof (cases o1)
        case No_replacement
        then show ?thesis using later1 unfolding c(3) handed_over(2) [OF c(1,2)] Pair No_replacement verdicts
          by (auto intro!: then_step)
      next
        case Interrupted
        then show ?thesis using later1 unfolding c(3) handed_over(2) [OF c(1,2)] Pair Interrupted
          by (auto intro!: then_step)
      next
        case (Replacement r)
        let ?g2 = "exit_manager k False (settle k n now None True None Transport err (note_transport_failure target now g1))"
        have "later g ?g2" using later1 unfolding verdicts by (intro then_step)
        moreover have "later ?g2 (snd (r ?g2))" using reopensD(2) [OF ok, of g r g1 ?g2] Pair Replacement by simp
        ultimately show ?thesis unfolding c(3) handed_over(2) [OF c(1,2)] Pair Replacement
          by (simp add: rtranclp_trans)
      qed
    qed
    ultimately show ?thesis ..
  qed
  then show ?A ?B by blast+
qed

section \<open>Every attempt ends\<close>

lemma stream_body_closes:
  assumes "reopens reopen"
  obtains out now h where "stream_body py parse k n target st acc p reopen g = (out, finally_close k n now h)" "later g h"
proof (cases "\<exists>err now again. snd p = Broke err now \<and> concat (map fst (fst p)) = [] \<and> reopen = Some again")
  case False
  note plain = conjunct1 [OF plain_stream [OF False], of py parse k n target st acc g]
  show ?thesis
  proof (cases "snd p")
    case (Ended now)
    show ?thesis by (rule that, unfold plain plain_body_def Let_def Ended ending.case, rule refl) (intro then_step)
  next
    case (Broke err now)
    show ?thesis
      by (rule that, unfold plain plain_body_def Let_def Broke ending.case, rule refl, unfold verdicts) (intro then_step)
  next
    case (Left now)
    show ?thesis by (rule that, unfold plain plain_body_def Let_def Left ending.case, rule refl) (intro then_step)
  qed
next
  case True
  then obtain err now again where c: "snd p = Broke err now" "concat (map fst (fst p)) = []" "reopen = Some again" by blast
  have ok: "reopens (Some again)" using assms c(3) by simp
  let ?h = "note_transport_failure target now (start_body k g)"
  have h: "later g ?h" unfolding verdicts by (intro then_step)
  obtain o1 g1 where Pair: "again ?h = (o1, g1)" by fastforce
  note eq = handed_over(1) [OF c(1,2), of py parse k n target st acc again g, unfolded Pair, folded c(3)]
  have later1: "later g g1" using reopens_state [OF ok Pair] h by (simp add: rtranclp_trans)
  show ?thesis
  proof (cases o1)
    case No_replacement
    then show ?thesis using that eq later1 by simp
  next
    case Interrupted
    then show ?thesis using that eq later1 by simp
  next
    case (Replacement r)
    let ?g2 = "close_quietly k (untrack k (settle k n now None True None Transport err g1))"
    have "later g ?g2" using later1 by (intro then_step)
    moreover have "later ?g2 (snd (r ?g2))" using reopensD(2) [OF ok, of ?h r g1 ?g2] Pair Replacement by simp
    ultimately have "later g (snd (r ?g2))" by (rule rtranclp_trans)
    moreover obtain out g3 where "r ?g2 = (out, g3)" by fastforce
    ultimately show ?thesis using that eq Replacement by simp
  qed
qed

lemma finally_closed:
  "dget (gw_flights g) k \<noteq> None \<Longrightarrow> landed k (finally_close k n now g)"
  "k \<notin> set (dkeys (gw_open (finally_close k n now g)))" "k \<in> set (gw_closed (finally_close k n now g))"
  unfolding finally_close_def using settle_lands by (auto simp: landed_def close_quietly_def untrack_def delete_keys)

lemma known_flights [simp]:
  "dget (gw_flights (take_off k target now charge g)) k \<noteq> None"
  "dget (gw_flights g) k \<noteq> None \<Longrightarrow> dget (gw_flights (settle k n now u bad st why err g)) k \<noteq> None"
  by (auto simp: take_off_flights settle_flights)

lemma landed_aside [simp]:
  "landed k (on_breaker b g) = landed k g" "landed k (untrack j g) = landed k g" "landed k (close_quietly j g) = landed k g"
  "landed k (exit_manager j clean g) = landed k g"
  by (simp_all add: landed_def exit_manager_def)

lemma settle_open [simp]:
  "gw_open (settle k n now u bad st why err g) = gw_open g" "gw_closed (settle k n now u bad st why err g) = gw_closed g"
  "gw_open (take_off k target now charge g) = gw_open g" "gw_closed (take_off k target now charge g) = gw_closed g"
  by (simp_all add: settle_def on_finish_def take_off_def Let_def split: option.split)

lemma dpop_gone [simp]: "(k, b) \<notin> set (dpop k d)"
  by (simp add: AList.delete_eq)

lemma close_closes [simp]: "k \<in> set (gw_closed (close_quietly k g))"
  by (simp add: close_quietly_def)

definition ended :: "nat \<Rightarrow> exchange \<Rightarrow> gateway \<Rightarrow> bool" where
  "ended k ex g \<longleftrightarrow> landed k g \<and> k \<notin> set (dkeys (gw_open g))
     \<and> (case ex_sent ex of Answered st h \<Rightarrow> k \<in> set (gw_closed g) | _ \<Rightarrow> True)"

lemma forward_ends:
  assumes turn: "forward py parse k client n target key charge acc began ex g = (Some a, g1)"
    and new: "k \<notin> set (dkeys (gw_open g))"
  shows "case at_reply a of
      Some (Passing j st h) \<Rightarrow> j = k \<and> dget (gw_flights g1) k \<noteq> None \<and> (\<exists>h. ex_sent ex = Answered st h)
    | _ \<Rightarrow> ended k ex g1"
proof (cases "ex_sent ex")
  case (Answered st h)
  consider (broke) "st \<ge> 500" | (refused) "st < 500" "st \<ge> 400" | (fine) "st < 400" by linarith
  then show ?thesis
  proof cases
    case broke
    then show ?thesis using turn new Answered
      by (auto simp: forward_def Let_def verdicts broke_there_def ended_def settle_lands delete_keys split: option.splits)
  next
    case refused
    then show ?thesis using turn new Answered
      by (auto simp: forward_def Let_def verdicts answered_def ended_def settle_lands delete_keys split: option.splits)
  next
    case fine
    then show ?thesis using turn new Answered
      by (cases "ex_peek ex")
         (auto simp: forward_def Let_def verdicts answered_def not_reached_def ended_def settle_lands delete_keys split: option.splits)
  qed
qed (use turn new in \<open>auto simp: forward_def Let_def verdicts not_reached_def ended_def settle_lands\<close>)


text \<open>C6: at every moment, however the requests interleave, a target's outstanding count is the number of its
  attempts not yet settled, and the cache committed on a deployment is the sum of their charges: once every
  attempt is settled both are zero.\<close>

theorem books_match:
  assumes "books_ok g" and "later g g'"
  shows "stats_outstanding (gw_stats g') t = int (length (filter (\<lambda>f. fl_target f = t) (unsettled g')))
    \<and> committed (gw_admission g') d = sum_list (map (charge_on d) (unsettled g'))"
  using later_keeps [OF assms(2,1)] by (simp_all add: books_ok_def)

lemma on_stats_router [simp]: "gw_router (settle k n now u bad st why err g) = gw_router g"
  "gw_router (take_off k target now charge g) = gw_router g" "gw_router (exit_manager k clean g) = gw_router g"
  by (simp_all add: settle_def on_finish_def take_off_def exit_manager_def Let_def split: option.split)

lemma on_breaker_router [simp]: "rt_breaker (gw_router (on_breaker f g)) = map_option f (rt_breaker (gw_router g))"
  by (simp add: on_breaker_def)

lemma forward_breaker:
  assumes turn: "forward py parse k client n target key charge acc began ex g = (Some a, g1)"
  shows "rt_breaker (gw_router g1) = (case ex_sent ex of
      No_slot err \<Rightarrow> map_option (abandon target) (rt_breaker (gw_router g))
    | Unreachable err \<Rightarrow> map_option (record_transport_failure target (ex_at ex)) (rt_breaker (gw_router g))
    | Send_cancelled \<Rightarrow> rt_breaker (gw_router g)
    | Answered st h \<Rightarrow> if at_reason a = Transport
        then map_option (\<lambda>b. record_transport_failure target (ex_at ex) (record_success target b)) (rt_breaker (gw_router g))
        else map_option (record_success target) (rt_breaker (gw_router g)))"
proof (cases "ex_sent ex")
  case (Answered st h)
  consider (broke) "st \<ge> 500" | (refused) "st < 500" "st \<ge> 400" | (fine) "st < 400" by linarith
  then show ?thesis
  proof cases
    case broke
    then show ?thesis using turn Answered
      by (auto simp: forward_def Let_def verdicts broke_there_def split: option.splits)
  next
    case refused
    then show ?thesis using turn Answered
      by (auto simp: forward_def Let_def verdicts answered_def split: option.splits)
  next
    case fine
    then show ?thesis using turn Answered
      by (cases "ex_peek ex")
         (auto simp: forward_def Let_def verdicts answered_def not_reached_def option.map_comp comp_def split: option.splits)
  qed
qed (use turn in \<open>auto simp: forward_def Let_def verdicts not_reached_def\<close>)

definition circuit_of :: "circuit_breaker \<Rightarrow> string \<Rightarrow> circuit" where
  "circuit_of b target = dget_or (circuits b) target new_circuit"

lemma circuit_after:
  "circuit_of (abandon t b) u = (if u = t then (circuit_of b t)\<lparr>probing := False\<rparr> else circuit_of b u)"
  "circuit_of (record_success t b) u = (if u = t then new_circuit else circuit_of b u)"
  "circuit_of (record_transport_failure t now b) u = (if u = t
     then (circuit_of b t)\<lparr>failures := failures (circuit_of b t) + 1, probing := False,
            opened_at := if opened_at (circuit_of b t) \<noteq> None \<or> failures (circuit_of b t) + 1 \<ge> failure_threshold b
                         then Some now else None\<rparr>
     else circuit_of b u)"
  by (auto simp: circuit_of_def dget_or_def abandon_def record_success_def record_transport_failure_def new_circuit_def Let_def
      split: option.split)

text \<open>C20: the breaker learns from an attempt only what the attempt showed: an upstream that answered clears its
  count, one that could not be reached or died before its first chunk adds one failure, an empty pool of our own
  changes neither the count nor since when the circuit is open, and no other circuit is touched. In each case
  the target is not left with a probe out.\<close>

theorem verdict_is_evidence:
  assumes "forward py parse k client n target key charge acc began ex g = (Some a, g1)"
    and "rt_breaker (gw_router g) = Some b" and "rt_breaker (gw_router g1) = Some b1"
    and "ex_sent ex \<noteq> Send_cancelled"
  shows "\<not> probing (circuit_of b1 target)
    \<and> (u \<noteq> target \<longrightarrow> circuit_of b1 u = circuit_of b u)
    \<and> failures (circuit_of b1 target) = (case ex_sent ex of
        Answered st h \<Rightarrow> if at_reason a = Transport then 1 else 0
      | Unreachable err \<Rightarrow> failures (circuit_of b target) + 1
      | _ \<Rightarrow> failures (circuit_of b target))
    \<and> (at_reason a = Pool_exhausted \<longrightarrow> opened_at (circuit_of b1 target) = opened_at (circuit_of b target))"
proof (intro conjI impI)
  have eq: "Some b1 = (case ex_sent ex of
      No_slot err \<Rightarrow> Some (abandon target b) | Unreachable err \<Rightarrow> Some (record_transport_failure target (ex_at ex) b)
    | Send_cancelled \<Rightarrow> Some b
    | Answered st h \<Rightarrow> if at_reason a = Transport
        then Some (record_transport_failure target (ex_at ex) (record_success target b)) else Some (record_success target b))"
    using forward_breaker [OF assms(1)] assms(2,3) by (cases "ex_sent ex") (auto split: if_splits)
  show "\<not> probing (circuit_of b1 target)"
    using eq assms(4) by (cases "ex_sent ex") (auto simp: circuit_after new_circuit_def split: if_splits)
  show "circuit_of b1 u = circuit_of b u" if "u \<noteq> target"
    using eq assms(4) that by (cases "ex_sent ex") (auto simp: circuit_after split: if_splits)
  show "failures (circuit_of b1 target) = (case ex_sent ex of
        Answered st h \<Rightarrow> if at_reason a = Transport then 1 else 0
      | Unreachable err \<Rightarrow> failures (circuit_of b target) + 1
      | _ \<Rightarrow> failures (circuit_of b target))"
    using eq assms(4) by (cases "ex_sent ex") (auto simp: circuit_after new_circuit_def split: if_splits)
  show "opened_at (circuit_of b1 target) = opened_at (circuit_of b target)" if why: "at_reason a = Pool_exhausted"
  proof (cases "ex_sent ex")
    case (No_slot err)
    then show ?thesis using eq by (simp add: circuit_after)
  next
    case (Unreachable err)
    then show ?thesis using assms(1) why by (auto simp: forward_def Let_def not_reached_def)
  next
    case (Answered st h)
    then have "at_reason a \<noteq> Pool_exhausted" using assms(1)
      by (auto simp: forward_def Let_def not_reached_def broke_there_def answered_def split: if_splits option.splits peek.splits)
    then show ?thesis using why by simp
  qed (use assms(4) in simp)
qed

end
