(* ===== verification/Serve.thy ===== *)
theory Serve
  imports Serve_Request Proxy_Books Parking
begin

text \<open>
  One request through the OpenAI surface, \<open>gateway/openai_api.py\<close>: the lookup of the model, the offers of the
  request to one target after another, what the client is told when none could serve it, the second chance
  after parking, and the target that finishes a response whose upstream died before its first byte. Hedging is
  off, as it is by default. What the world does is an argument: per offer the environment the router reads, the
  answer of the upstream, the providers port, and the clock.
\<close>

declare map_of_eq_Some_iff [simp del]

section \<open>Requests and the world\<close>

record request =
  q_model :: string
  q_path :: string
  q_body :: "json_object option"
  q_content :: "string option"
  q_content_type :: "string option"
  q_raw :: string
  q_streaming :: bool
  q_headers :: headers

datatype parsed = Parsed json | Not_json string | Undecodable

text \<open>What the program is linked with: the JSON reader of bodies and of usage frames, the hash of the ring, the
  estimator of the fit port, the words of a refusal, and whether the providers port can open upstreams.\<close>

record service =
  sv_py :: py_text
  sv_loads :: "string \<Rightarrow> parsed"
  sv_frame :: "string \<Rightarrow> json option"
  sv_digest :: "string \<Rightarrow> 8 word list"
  sv_fit :: kv_estimator
  sv_say :: "msg \<Rightarrow> string"
  sv_open_upstream :: bool

record world =
  w_env :: environment
  w_exchange :: exchange
  w_port :: provider_port
  w_new_client :: nat
  w_after :: rat

text \<open>The router reads the statistics and the admission state of the gateway itself.\<close>

definition env_at :: "environment \<Rightarrow> gateway \<Rightarrow> environment" where
  "env_at env g = env\<lparr>env_stats := gw_stats g, env_admission := gw_admission g\<rparr>"

definition with_router :: "router \<Rightarrow> gateway \<Rightarrow> gateway" where
  "with_router r g = g\<lparr>gw_router := r\<rparr>"

definition note_refusal :: "string \<Rightarrow> api_response \<Rightarrow> gateway \<Rightarrow> gateway" where
  "note_refusal refusal_code r g = g\<lparr>gw_refusals := gw_refusals g @ [(refusal_code, rs_status r)]\<rparr>"

section \<open>One offer\<close>

datatype claimed = Nothing_left | Skip_target | Claimed selection

definition prefix_of :: "request \<Rightarrow> string option" where
  "prefix_of q = (case q_body q of Some body \<Rightarrow> prefix_key_of body | None \<Rightarrow> None)"

definition claim ::
  "service \<Rightarrow> request \<Rightarrow> world \<Rightarrow> nat \<Rightarrow> string list \<Rightarrow> gateway \<Rightarrow> claimed \<times> string list \<times> gateway" where
  "claim sv q w n tried g =
     (let env = env_at (w_env w) g in
      case select_target env (sv_digest sv) (q_model q) (if n = 0 then prefix_of q else None) tried (gw_router g) of
        (None, r) \<Rightarrow> (Nothing_left, tried, with_router r g)
      | (Some sel, r) \<Rightarrow>
        let t = target_id (sel_target sel); tried = List.insert t tried; r = fresh_index env r;
            (granted, b) = (case rt_breaker r of None \<Rightarrow> (True, None)
                            | Some b \<Rightarrow> (case begin_send t (env_now env) b of (ok, b) \<Rightarrow> (ok, Some b)));
            g = with_router (r\<lparr>rt_breaker := b\<rparr>) g
        in if \<not> granted then (Skip_target, tried, g)
           else if 0 < n
           then (case take_retry (env_now env) (gw_budget g) of
                   (True, budget) \<Rightarrow> (Claimed sel, tried, g\<lparr>gw_budget := budget\<rparr>)
                 | (False, budget) \<Rightarrow> (Nothing_left, tried, abandon_probe t (g\<lparr>gw_budget := budget\<rparr>)))
           else (Claimed sel, tried, g))"

text \<open>What is sent to a target: the client's own bytes, unless a provider calls the model something else.\<close>

definition payload_for :: "request \<Rightarrow> selection \<Rightarrow> payload option" where
  "payload_for q sel =
     (case (if target_kind (sel_target sel) = REMOTE then sel_model sel else None, q_body q, q_content q) of
        (Some m, Some body, _) \<Rightarrow> Some (Fields (dset ''model'' (JStr (upstream_id m)) body))
      | (Some m, None, Some up) \<Rightarrow>
          (case q_content_type q of
             Some ct \<Rightarrow> map_option Bytes (rewrite_multipart_field up ct ''model'' (upstream_id m))
           | None \<Rightarrow> Some (Bytes up))
      | (_, _, Some up) \<Rightarrow> Some (Bytes up)
      | (_, _, None) \<Rightarrow> Some (Bytes (q_raw q)))"

definition through_provider :: "service \<Rightarrow> request \<Rightarrow> selection \<Rightarrow> bool" where
  "through_provider sv q sel \<longleftrightarrow> target_kind (sel_target sel) = REMOTE \<and> sv_open_upstream sv \<and> sel_provider sel \<noteq> None
     \<and> sel_model sel \<noteq> None \<and> q_content q = None"

definition str_rstrip_slash :: "string \<Rightarrow> string" where
  "str_rstrip_slash s = rev (dropWhile (\<lambda>c. c = CHR ''/'') (rev s))"

definition accounting_for :: "request \<Rightarrow> rat \<Rightarrow> accounting" where
  "accounting_for q now = new_accounting (q_body q \<noteq> None) (q_streaming q) now"

datatype turn_outcome = Threw py_error | Went_away | Refused_with api_response | Nothing_sent | Tried attempt

definition send_direct ::
  "service \<Rightarrow> request \<Rightarrow> world \<Rightarrow> selection \<Rightarrow> nat \<Rightarrow> string option \<Rightarrow> (string \<times> int) option \<Rightarrow> gateway
    \<Rightarrow> turn_outcome \<times> gateway" where
  "send_direct sv q w sel n key charge g =
     (let tgt = sel_target sel; url = str_rstrip_slash (target_url tgt) @ q_path q; now = env_now (w_env w);
          h = outgoing_headers (target_kind tgt) key (q_content_type q) (q_headers q); k = length (gw_flights g)
      in case payload_for q sel of
           None \<Rightarrow> (Nothing_sent, abandon_probe (target_id tgt) g)
         | Some p \<Rightarrow>
           let (client, g) = client_for url now (w_new_client w) (charge_kv charge g);
               g = g\<lparr>gw_sent := gw_sent g @ [\<lparr>wr_target = target_id tgt, wr_kind = target_kind tgt,
                 wr_provider = map_option provider_id (sel_provider sel), wr_managed = False, wr_url = url, wr_headers = h,
                 wr_payload = p\<rparr>]\<rparr>
           in (case forward (sv_py sv) (sv_frame sv) k client n (target_id tgt) key charge (accounting_for q now) now
                      (w_exchange w) g of
                 (None, g) \<Rightarrow> (Went_away, g)
               | (Some a, g) \<Rightarrow> (Tried a, g)))"

definition key_refusal :: "string \<Rightarrow> api_response" where
  "key_refusal provider_name = error_response 502 (''Provider '' @ quoted provider_name @ '' has no usable credential configured.'')
     ''server_error'' ''provider_key_unavailable'' [] []"

definition admission_refusal :: "service \<Rightarrow> admission_decision \<Rightarrow> api_response" where
  "admission_refusal sv d =
     error_response (status d) (case dec_message d of Some m \<Rightarrow> sv_say sv m | None \<Rightarrow> [])
       (if status d = 400 then ''invalid_request_error'' else ''rate_limit_error'') (code d)
       (case retry_after d of Some n \<Rightarrow> if n \<noteq> 0 then [(''Retry-After'', show_int n)] else [] | None \<Rightarrow> []) []"

text \<open>Only a text deployment that is sent a readable body is charged for cache.\<close>

definition charged_body :: "request \<Rightarrow> selection \<Rightarrow> (deployment \<times> json_object) option" where
  "charged_body q sel =
     (case (sel_deployment sel, q_body q) of
        (Some d, Some body) \<Rightarrow> if dep_modality d = TEXT then Some (d, body) else None
      | _ \<Rightarrow> None)"

text \<open>The arguments of a provider's own road; it is taken only with a model and, of the two entries, by the one that
  read a JSON body.\<close>

definition upstream_name :: "selection \<Rightarrow> string" where
  "upstream_name sel = (case sel_model sel of Some m \<Rightarrow> upstream_id m | None \<Rightarrow> [])"

definition json_body :: "request \<Rightarrow> json_object" where
  "json_body q = (case q_body q of Some body \<Rightarrow> body | None \<Rightarrow> [])"

definition attempt_on ::
  "service \<Rightarrow> request \<Rightarrow> world \<Rightarrow> selection \<Rightarrow> nat \<Rightarrow> gateway \<Rightarrow> turn_outcome \<times> gateway" where
  "attempt_on sv q w sel n g =
     (let t = target_id (sel_target sel); k = length (gw_flights g); now = env_now (w_env w) in
      if target_kind (sel_target sel) = LOCAL
      then (case charged_body q sel of
              None \<Rightarrow> send_direct sv q w sel n None None g
            | Some (d, body) \<Rightarrow>
              (case admission_check (env_settings (w_env w)) (sv_fit sv) (str_of (sv_py sv)) (gw_admission g) d body of
                 Inl e \<Rightarrow> (Threw e, g)
               | Inr dec \<Rightarrow>
                 if \<not> dec_ok dec
                 then (Refused_with (admission_refusal sv dec),
                       note_refusal (code dec) (admission_refusal sv dec) (abandon_probe t g))
                 else send_direct sv q w sel n None (Some (deployment_id d, kv_bytes dec)) g))
      else if payload_for q sel = None then (Nothing_sent, abandon_probe t g)
      else case sel_provider sel of
             None \<Rightarrow> send_direct sv q w sel n None None g
           | Some p \<Rightarrow>
             if through_provider sv q sel
             then (case forward_provider k n t (provider_id p) (upstream_name sel) (q_path q) (json_body q) (q_streaming q) None
                          now (w_port w) (w_after w) g of
                     (Turn_cancelled, g) \<Rightarrow> (Went_away, g)
                   | (Turn_raised e, g) \<Rightarrow> (Threw e, g)
                   | (Turn_refused, g) \<Rightarrow> (Nothing_sent, abandon_probe t g)
                   | (Turn_taken a, g) \<Rightarrow> (Tried a, g))
             else (case port_key (w_port w) (provider_id p) of
                     Inl e \<Rightarrow> (Refused_with (key_refusal (provider_id p)),
                        note_refusal ''provider_key_unavailable'' (key_refusal (provider_id p)) (abandon_probe t g))
                   | Inr key \<Rightarrow> send_direct sv q w sel n key None g))"

section \<open>From one target to the next\<close>

datatype dispatched = Gave_up "attempt option" | Answers reply | Raised py_error | Left_alone

fun offer ::
  "service \<Rightarrow> request \<Rightarrow> (nat \<Rightarrow> world) \<Rightarrow> rat \<Rightarrow> nat list \<Rightarrow> string list \<Rightarrow> attempt option \<Rightarrow> gateway
    \<Rightarrow> dispatched \<times> string list \<times> gateway" where
  "offer sv q ws deadline [] tried prev g = (Gave_up prev, tried, g)"
| "offer sv q ws deadline (n # ns) tried prev g =
     (case claim sv q (ws n) n tried g of
        (Nothing_left, tried, g) \<Rightarrow> (Gave_up prev, tried, g)
      | (Skip_target, tried, g) \<Rightarrow> offer sv q ws deadline ns tried prev g
      | (Claimed sel, tried, g) \<Rightarrow>
        (case attempt_on sv q (ws n) sel n g of
           (Nothing_sent, g) \<Rightarrow> offer sv q ws deadline ns tried prev g
         | (Threw e, g) \<Rightarrow> (Raised e, tried, g)
         | (Went_away, g) \<Rightarrow> (Left_alone, tried, g)
         | (Refused_with r, g) \<Rightarrow> (Answers (Own r), tried, g)
         | (Tried a, g) \<Rightarrow>
           if \<not> at_retryable a
           then (case at_reply a of Some r \<Rightarrow> (Answers r, tried, g) | None \<Rightarrow> (Gave_up (Some a), tried, g))
           else if w_after (ws n) \<ge> deadline then (Gave_up (Some a), tried, g)
           else offer sv q ws deadline ns tried (Some a) g))"

text \<open>The answer when no target could serve the request: the last backend's own words, unless it never spoke.\<close>

definition terminal_answer :: "string \<Rightarrow> attempt \<Rightarrow> nat \<Rightarrow> reply" where
  "terminal_answer name prev tried =
     (case at_status prev of
        Some st \<Rightarrow> Whole st (at_headers prev) (at_body prev)
      | None \<Rightarrow> Own (if at_reason prev = Pool_exhausted then upstream_pool_exhausted name tried
                    else upstream_unreachable name (if at_error prev \<noteq> [] then at_error prev else ''unreachable'') tried))"

definition dispatch ::
  "service \<Rightarrow> request \<Rightarrow> (nat \<Rightarrow> world) \<Rightarrow> gateway \<Rightarrow> dispatched \<times> string list \<times> gateway" where
  "dispatch sv q ws g =
     (let s = env_settings (w_env (ws 0)); deadline = env_now (w_env (ws 0)) + failover_deadline_s s in
      case offer sv q ws deadline [0..<nat (failover_max_attempts s)] [] None g of
        (Gave_up (Some prev), tried, g) \<Rightarrow> (Answers (terminal_answer (q_model q) prev (length tried)), tried, g)
      | out \<Rightarrow> out)"

section \<open>Finishing a response from another target\<close>

definition header_of :: "string \<Rightarrow> headers \<Rightarrow> string option" where
  "header_of name h = map_option snd (find (\<lambda>(k, v). str_lower k = name) h)"

definition same_type :: "string option \<Rightarrow> string option \<Rightarrow> bool" where
  "same_type sent got = (case (sent, got) of (Some a, Some b) \<Rightarrow> a = [] \<or> b = [] \<or> a = b | _ \<Rightarrow> True)"

text \<open>The body of a stream, by the road its target was reached.\<close>

definition deliver ::
  "service \<Rightarrow> request \<Rightarrow> selection \<Rightarrow> rat \<Rightarrow> nat \<Rightarrow> nat \<Rightarrow> int \<Rightarrow> passage \<Rightarrow> (gateway \<Rightarrow> reopened \<times> gateway) option
    \<Rightarrow> delivery" where
  "deliver sv q sel began k n st p reopen =
     (if through_provider sv q sel
      then provider_stream_body (sv_py sv) (sv_frame sv) k n (target_id (sel_target sel)) st (accounting_for q began) p reopen
      else stream_body (sv_py sv) (sv_frame sv) k n (target_id (sel_target sel)) st (accounting_for q began) p reopen)"

definition reopen_from ::
  "service \<Rightarrow> request \<Rightarrow> world \<Rightarrow> string list \<Rightarrow> nat \<Rightarrow> string option \<Rightarrow> passage \<Rightarrow> gateway \<Rightarrow> reopened \<times> gateway" where
  "reopen_from sv q w tried committed_at sent_type p g =
     (let n = committed_at + 1 in
      if int n \<ge> failover_max_attempts (env_settings (w_env w)) then (No_replacement, g)
      else case claim sv q w n tried g of
             (Claimed sel, _, g) \<Rightarrow>
               (case attempt_on sv q w sel n g of
                  (Tried a, g) \<Rightarrow>
                    (case at_reply a of
                       Some (Passing k st h) \<Rightarrow>
                         if same_type sent_type (header_of ''content-type'' h)
                         then (Replacement (deliver sv q sel (env_now (w_env w)) k n st p None), g)
                         else (No_replacement, g)
                     | _ \<Rightarrow> (No_replacement, g))
                | (Threw e, g) \<Rightarrow> (Interrupted, g)
                | (Went_away, g) \<Rightarrow> (Interrupted, g)
                | (_, g) \<Rightarrow> (No_replacement, g))
           | (_, _, g) \<Rightarrow> (No_replacement, g))"

section \<open>The whole request\<close>

definition lookup_refusal :: "environment \<Rightarrow> request \<Rightarrow> router \<Rightarrow> (string \<times> api_response) option \<times> router" where
  "lookup_refusal env q r =
     (let r = fresh_index env r; ix = rt_index r; name = q_model q; known = dget (ix_targets ix) name \<noteq> None;
          waiting = dget_or (pending ix) name [];
          (holds, r) = (if known \<or> waiting \<noteq> [] then (True, r) else parkable env name r);
          wants = dget ENDPOINT_MODALITY (q_path q); has = dget (ix_modality ix) name
      in (if \<not> known \<and> waiting \<noteq> []
          then Some (''model_not_ready'', model_not_ready name (sort (remdups (map (state_value \<circ> env_dep_state env) waiting))))
          else if \<not> known \<and> \<not> holds then Some (''model_not_found'', unknown_model name (served_names ix))
          else case (has, wants) of
                 (Some m, Some m') \<Rightarrow> if modality_conflict m m'
                   then Some (''wrong_modality'', wrong_modality name m m' (''/v1'' @ q_path q)) else None
               | _ \<Rightarrow> None, r))"

definition nowhere_to_send :: "environment \<Rightarrow> string \<Rightarrow> router \<Rightarrow> api_response \<times> router" where
  "nowhere_to_send env name r =
     (let r = fresh_index env r; ix = rt_index r; waiting = dget_or (pending ix) name [] in
      (if dget (ix_targets ix) name \<noteq> None then no_target_admitting name
       else if waiting \<noteq> [] then model_not_ready name (sort (remdups (map (state_value \<circ> env_dep_state env) waiting)))
       else if recently_eligible env r name then no_target_admitting name
       else unknown_model name (served_names ix), r))"

text \<open>\<open>X-Request-Id\<close> goes on every answer of the program, its own and a backend's.\<close>

definition tagged :: "string \<Rightarrow> reply \<Rightarrow> reply" where
  "tagged request_id reply = (case reply of
     Whole st h body \<Rightarrow> Whole st (dset ''x-request-id'' request_id h) body
   | Passing k st h \<Rightarrow> Passing k st (dset ''x-request-id'' request_id h)
   | Own r \<Rightarrow> Own (r\<lparr>rs_headers := dset ''x-request-id'' request_id (rs_headers r)\<rparr>))"

text \<open>The wait in the lot: whether it is worth one, and what others did to the gateway meanwhile, together with
  whether a target came back. The environments are those of the lookup, of the decision to wait, and of the
  refusal.\<close>

record visit =
  v_id :: string
  v_env :: environment
  v_first :: "nat \<Rightarrow> world"
  v_wait_env :: environment
  v_lot :: parking_lot
  v_parked :: "gateway \<Rightarrow> bool \<times> gateway"
  v_second :: "nat \<Rightarrow> world"
  v_last_env :: environment

definition refuse_nowhere :: "request \<Rightarrow> visit \<Rightarrow> gateway \<Rightarrow> dispatched \<times> string list \<times> gateway" where
  "refuse_nowhere q v g =
     (case nowhere_to_send (env_at (v_last_env v) g) (q_model q) (gw_router g) of
        (r, rt) \<Rightarrow> (Answers (Own r), [], note_refusal ''no_target'' r (with_router rt g)))"

definition second_chance :: "service \<Rightarrow> request \<Rightarrow> visit \<Rightarrow> gateway \<Rightarrow> dispatched \<times> string list \<times> gateway" where
  "second_chance sv q v g =
     (if accepts (env_settings (v_wait_env v)) (v_lot v) (q_model q) (int (length (q_raw q)))
      then (case parkable (env_at (v_wait_env v) g) (q_model q) (gw_router g) of
              (False, r) \<Rightarrow> refuse_nowhere q v (with_router r g)
            | (True, r) \<Rightarrow>
              (case v_parked v (with_router r g) of
                 (False, g) \<Rightarrow> refuse_nowhere q v g
               | (True, g) \<Rightarrow>
                 (case dispatch sv q (v_second v) g of
                    (Gave_up x, _, g) \<Rightarrow> refuse_nowhere q v g
                  | out \<Rightarrow> out)))
      else refuse_nowhere q v g)"

definition serve_request :: "service \<Rightarrow> request \<Rightarrow> visit \<Rightarrow> gateway \<Rightarrow> dispatched \<times> string list \<times> gateway" where
  "serve_request sv q v g =
     (case lookup_refusal (env_at (v_env v) g) q (gw_router g) of
        (Some (refusal_code, r), rt) \<Rightarrow> (Answers (Own r), [], note_refusal refusal_code r (with_router rt g))
      | (None, rt) \<Rightarrow>
        let g = with_router rt g; g = g\<lparr>gw_budget := note_request (env_now (v_env v)) (gw_budget g)\<rparr> in
        (case dispatch sv q (v_first v) g of
           (Gave_up x, _, g) \<Rightarrow> second_chance sv q v g
         | out \<Rightarrow> out))"

section \<open>The two entries\<close>

fun read_bounded_body :: "int \<Rightarrow> string \<Rightarrow> string list \<Rightarrow> string option" where
  "read_bounded_body limit got [] = Some got"
| "read_bounded_body limit got (c # cs) =
     (if int (length (got @ c)) > limit then None else read_bounded_body limit (got @ c) cs)"

definition too_large :: "string \<Rightarrow> int \<Rightarrow> api_response" where
  "too_large what limit = error_response 413 (''The '' @ what @ '' is larger than the '' @ show_int (limit div (1024 * 1024)) @ '' MiB limit.'')
     ''invalid_request_error'' ''payload_too_large'' [] []"

definition bad_request :: "string \<Rightarrow> string \<Rightarrow> api_response" where
  "bad_request message error_code = error_response 400 message ''invalid_request_error'' error_code [] []"

definition missing_model :: api_response where
  "missing_model = bad_request (''You must provide a '' @ quoted ''model'' @ '' parameter.'') ''missing_model''"

datatype read_request = Read_as request | Refuse_read api_response | Read_raised py_error

definition read_json ::
  "service \<Rightarrow> gateway_settings \<Rightarrow> string \<Rightarrow> bool \<Rightarrow> headers \<Rightarrow> string list \<Rightarrow> read_request" where
  "read_json sv s path streaming_allowed h chunks =
     (case read_bounded_body (max_json_body_bytes s) [] chunks of
        None \<Rightarrow> Refuse_read (too_large ''request body'' (max_json_body_bytes s))
      | Some up \<Rightarrow>
        (case (if up = [] then Parsed (JObj []) else sv_loads sv up) of
           Undecodable \<Rightarrow> Read_raised (ValueError ''invalid start byte'')
         | Not_json why \<Rightarrow> Refuse_read (bad_request (''Request body is not valid JSON: '' @ why @ ''.'') ''invalid_json'')
         | Parsed (JObj body) \<Rightarrow>
           (case dget body ''model'' of
              Some (JStr name) \<Rightarrow>
                if name = [] then Refuse_read missing_model
                else Read_as \<lparr>q_model = name, q_path = path, q_body = Some body, q_content = None, q_content_type = None,
                       q_raw = up, q_streaming = (case dget body ''stream'' of Some x \<Rightarrow> truth_of x | None \<Rightarrow> False) \<and> streaming_allowed,
                       q_headers = h\<rparr>
            | _ \<Rightarrow> Refuse_read missing_model)
         | Parsed other \<Rightarrow> Refuse_read (bad_request ''Request body must be a JSON object.'' ''invalid_json'')))"

definition read_upload :: "gateway_settings \<Rightarrow> string \<Rightarrow> headers \<Rightarrow> string list \<Rightarrow> read_request" where
  "read_upload s path h chunks =
     (let ct = (case header_of ''content-type'' h of Some c \<Rightarrow> c | None \<Rightarrow> []) in
      if \<not> starts_with ''multipart/form-data'' (str_lower ct)
      then Refuse_read (bad_request (''This endpoint expects a multipart/form-data upload carrying '' @ quoted ''file'' @ '' and ''
             @ quoted ''model'' @ ''.'') ''invalid_content_type'')
      else case read_bounded_body (max_audio_upload_bytes s) [] chunks of
             None \<Rightarrow> Refuse_read (too_large ''upload'' (max_audio_upload_bytes s))
           | Some up \<Rightarrow>
             (case multipart_field up ct ''model'' of
                None \<Rightarrow> Refuse_read missing_model
              | Some name \<Rightarrow>
                if name = [] then Refuse_read missing_model
                else Read_as \<lparr>q_model = name, q_path = path, q_body = None, q_content = Some up, q_content_type = Some ct,
                       q_raw = up, q_streaming = False, q_headers = h\<rparr>))"

text \<open>The list of models.\<close>

definition target_kind_value :: "target_kind \<Rightarrow> string" where
  "target_kind_value k = (case k of LOCAL \<Rightarrow> ''local'' | REMOTE \<Rightarrow> ''remote'')"

definition list_models :: "environment \<Rightarrow> int \<Rightarrow> router \<Rightarrow> json \<times> router" where
  "list_models env created r =
     (let r = fresh_index env r; ix = rt_index r in
      (JObj [(''object'', JStr ''list''),
         (''data'', JList (map (\<lambda>name. let ts = dget_or (ix_targets ix) name [] in
            JObj [(''id'', JStr name), (''object'', JStr ''model''), (''created'', JInt created),
              (''owned_by'', JStr ''derate''), (''context_length'', jopt JInt (dget (ix_context_length ix) name)),
              (''target_count'', JInt (int (length ts))),
              (''target_kinds'', JList (map JStr (sort (remdups (map (target_kind_value \<circ> target_kind) ts))))),
              (''modality'', JStr (modality_value (dget_or (ix_modality ix) name TEXT)))])
          (sort (dkeys (ix_targets ix)))))], r))"

end
