(* ===== verification/Serve_Promises.thy ===== *)
theory Serve_Promises
  imports Serve Admission_Ledger
begin

text \<open>
  What a request can rely on: every target is tried at most once, a request that was sent is never parked and
  sent again, a key and a client's credentials go only where they belong, no probe is left out, every answer is
  given once, and everything a request does to the books is the steps of Proxy_Books. What is said of the
  requests on the network is said of \<open>gw_sent\<close>, which both roads write: a predicate \<open>P\<close> on its entries, and, when
  the providers port is honest, how many there are.
\<close>

declare map_of_eq_Some_iff [simp del]

section \<open>Probes\<close>

definition router_probes :: "router \<Rightarrow> string set" where
  "router_probes r = {u. case rt_breaker r of None \<Rightarrow> False | Some b \<Rightarrow> probing (circuit_of b u)}"

abbreviation probes :: "gateway \<Rightarrow> string set" where
  "probes g \<equiv> router_probes (gw_router g)"

lemma router_probes_cong: "rt_breaker r = rt_breaker r' \<Longrightarrow> router_probes r = router_probes r'"
  by (simp add: router_probes_def)

lemma safe_breaker [simp]: "rt_breaker (snd (safe name x fb r)) = rt_breaker r"
  by (cases x) auto

lemma retain_probes: "probing (circuit_of (retain ts b) u) \<Longrightarrow> probing (circuit_of b u)"
proof -
  have "dget (filter (\<lambda>p. fst p \<in> set ts) d) u = (if u \<in> set ts then dget d u else None)" for d :: "(string, circuit) dict"
    by (induction d) auto
  then show "probing (circuit_of (retain ts b) u) \<Longrightarrow> probing (circuit_of b u)"
    by (auto simp: circuit_of_def dget_or_def retain_def new_circuit_def split: if_splits option.splits)
qed

lemma rebuild_breaker: "\<exists>ts. rt_breaker (rebuild env force r) = map_option (retain ts) (rt_breaker r)"
  by (auto simp: rebuild_def Let_def split_beta)

lemma fresh_probes: "router_probes (fresh_index env r) \<subseteq> router_probes r"
proof -
  obtain ts where ts: "rt_breaker (rebuild env False r) = map_option (retain ts) (rt_breaker r)" using rebuild_breaker by blast
  then have "rt_breaker (fresh_index env r) = rt_breaker r \<or> rt_breaker (fresh_index env r) = map_option (retain ts) (rt_breaker r)"
    unfolding fresh_index_def by simp
  then show ?thesis unfolding router_probes_def by (auto split: option.splits dest: retain_probes)
qed

lemma select_probes: "select_target env digest name key ex r = (x, r') \<Longrightarrow> router_probes r' \<subseteq> router_probes r"
proof (erule select_targetE)
  assume "config_for env name r = (None, r')"
  then show ?thesis using config_for_None fresh_probes by blast
next
  fix config r1 assume c: "config_for env name r = (Some config, r1)" and "rt_breaker r' = rt_breaker r1"
  moreover have "rt_breaker r1 = rt_breaker (fresh_index env r)" by (rule config_forE [OF c])
  ultimately show ?thesis using fresh_probes router_probes_cong by metis
qed

lemma select_new:
  assumes "select_target env digest name key ex r = (Some sel, r')"
  shows "target_id (sel_target sel) \<notin> set ex"
  using assms by (rule select_targetE) auto

lemma begin_probes: "u \<noteq> t \<Longrightarrow> circuit_of (snd (begin_send t now b)) u = circuit_of b u"
  "\<not> fst (begin_send t now b) \<Longrightarrow> snd (begin_send t now b) = b"
  by (auto simp: begin_send_def circuit_of_def dget_or_def split: option.split)

lemma abandon_probes [simp]: "probes (abandon_probe t g) = probes g - {t}"
  by (auto simp: abandon_probe_def router_probes_def circuit_after split: option.splits if_splits)

lemma with_router_fields [simp]:
  "gw_flights (with_router r g) = gw_flights g" "gw_stats (with_router r g) = gw_stats g"
  "gw_admission (with_router r g) = gw_admission g" "gw_sent (with_router r g) = gw_sent g"
  "gw_router (with_router r g) = r"
  by (simp_all add: with_router_def)

lemma on_breaker_more [simp]: "gw_sent (on_breaker f g) = gw_sent g"
  by (simp add: on_breaker_def)

lemma abandon_fields [simp]:
  "gw_flights (abandon_probe t g) = gw_flights g" "gw_stats (abandon_probe t g) = gw_stats g"
  "gw_admission (abandon_probe t g) = gw_admission g" "gw_sent (abandon_probe t g) = gw_sent g"
  by (simp_all add: abandon_probe_def)

lemma claim_result:
  assumes "claim sv q w n tried g = (c, tried', g')"
  shows "gw_flights g' = gw_flights g \<and> gw_stats g' = gw_stats g \<and> gw_admission g' = gw_admission g \<and> gw_sent g' = gw_sent g
    \<and> (case c of Claimed sel \<Rightarrow> target_id (sel_target sel) \<notin> set tried \<and> tried' = target_id (sel_target sel) # tried
         \<and> probes g' \<subseteq> insert (target_id (sel_target sel)) (probes g)
       | _ \<Rightarrow> set tried \<subseteq> set tried' \<and> probes g' \<subseteq> probes g)"
proof -
  let ?env = "env_at (w_env w) g"
  obtain x r where sel: "select_target ?env (sv_digest sv) (q_model q) (if n = 0 then prefix_of q else None) tried (gw_router g) = (x, r)"
    by fastforce
  note sub = select_probes [OF sel]
  show ?thesis
  proof (cases x)
    case None
    then show ?thesis using assms sel sub by (auto simp: claim_def Let_def)
  next
    case (Some s)
    let ?t = "target_id (sel_target s)"
    let ?r = "fresh_index ?env r"
    have new: "?t \<notin> set tried" using select_new sel Some by blast
    have sub: "router_probes ?r \<subseteq> probes g" using sub fresh_probes by blast
    define gb where "gb = (case rt_breaker ?r of None \<Rightarrow> (True, None)
        | Some b \<Rightarrow> (case begin_send ?t (env_now ?env) b of (ok, b) \<Rightarrow> (ok, Some b)))"
    obtain granted b where gb: "gb = (granted, b)" by fastforce
    have pr: "router_probes (?r\<lparr>rt_breaker := b\<rparr>) \<subseteq> (if granted then insert ?t (probes g) else probes g)"
    proof (cases "rt_breaker ?r")
      case None
      then show ?thesis using gb unfolding gb_def by (auto simp: router_probes_def)
    next
      case (Some b0)
      then have b: "granted = fst (begin_send ?t (env_now ?env) b0)" "b = Some (snd (begin_send ?t (env_now ?env) b0))"
        using gb unfolding gb_def by (auto split: prod.splits)
      have "u \<in> probes g" if "u \<in> router_probes (?r\<lparr>rt_breaker := b\<rparr>)" "u \<noteq> ?t \<or> \<not> granted" for u
        using that begin_probes(1) [of u ?t "env_now ?env" b0] begin_probes(2) [of ?t "env_now ?env" b0] sub Some
        by (auto simp: router_probes_def b)
      then show ?thesis by auto
    qed
    have ins: "List.insert ?t tried = ?t # tried" using new by simp
    have run: "(c, tried', g') = (if \<not> granted then (Skip_target, ?t # tried, with_router (?r\<lparr>rt_breaker := b\<rparr>) g)
       else if 0 < n
       then (case take_retry (env_now ?env) (gw_budget (with_router (?r\<lparr>rt_breaker := b\<rparr>) g)) of
               (True, budget) \<Rightarrow> (Claimed s, ?t # tried, (with_router (?r\<lparr>rt_breaker := b\<rparr>) g)\<lparr>gw_budget := budget\<rparr>)
             | (False, budget) \<Rightarrow> (Nothing_left, ?t # tried,
                  abandon_probe ?t ((with_router (?r\<lparr>rt_breaker := b\<rparr>) g)\<lparr>gw_budget := budget\<rparr>)))
       else (Claimed s, ?t # tried, with_router (?r\<lparr>rt_breaker := b\<rparr>) g))"
      using assms unfolding claim_def Let_def sel Some option.case prod.case gb [unfolded gb_def] ins by (rule sym)
    show ?thesis
    proof (cases granted)
      case True
      then show ?thesis using run pr new
        by (auto split: if_splits prod.splits bool.splits)
    next
      case False
      then show ?thesis using run pr by auto
    qed
  qed
qed

section \<open>What an attempt leaves\<close>

lemma verdict_probes [simp]:
  "probes (note_transport_failure t now g) = probes g - {t}" "probes (note_transport_success t g) = probes g - {t}"
  by (auto simp: verdicts router_probes_def circuit_after new_circuit_def split: option.splits if_splits)

lemma verdict_fields [simp]:
  "gw_flights (note_transport_failure t now g) = gw_flights g" "gw_flights (note_transport_success t g) = gw_flights g"
  "gw_sent (note_transport_failure t now g) = gw_sent g" "gw_sent (note_transport_success t g) = gw_sent g"
  by (simp_all add: verdicts)

lemma sent_fields [simp]:
  "gw_sent (settle k n now u bad st why err g) = gw_sent g" "gw_sent (take_off k target now charge g) = gw_sent g"
  "gw_sent (track k c t g) = gw_sent g" "gw_sent (untrack k g) = gw_sent g" "gw_sent (close_quietly k g) = gw_sent g"
  "gw_sent (charge_kv charge g) = gw_sent g" "gw_sent (note_refusal e r g) = gw_sent g"
  by (simp_all add: settle_def on_finish_def take_off_def on_stats_def track_def untrack_def close_quietly_def charge_kv_def
      note_refusal_def Let_def split: option.split prod.split)

definition flies :: "nat \<Rightarrow> string \<Rightarrow> (nat, flight) dict \<Rightarrow> gateway \<Rightarrow> bool" where
  "flies k t d g \<longleftrightarrow> (\<exists>f. gw_flights g = dset k f d \<and> fl_target f = t)"

lemma flies_take_off: "flies k t (gw_flights g) (take_off k t now charge g)"
  by (auto simp: flies_def take_off_def)

lemma flies_settle:
  assumes "flies k t d g"
  shows "flies k t d (settle k n now u bad st why err g)"
proof -
  obtain f where f: "gw_flights g = dset k f d" "fl_target f = t" using assms unfolding flies_def by blast
  show ?thesis
  proof (cases "fl_finished f")
    case True
    then have "settle k n now u bad st why err g = g" by (simp add: settle_def f(1))
    then show ?thesis using assms by simp
  next
    case False
    then have "gw_flights (settle k n now u bad st why err g) = dset k (f\<lparr>fl_finished := True\<rparr>) (gw_flights g)"
      by (simp add: settle_def f(1) on_finish_def Let_def split: option.split)
    then show ?thesis using f by (auto simp: flies_def AList.update_last)
  qed
qed

lemma flies_aside [simp]:
  "flies k t d (note_transport_failure u now g) = flies k t d g" "flies k t d (note_transport_success u g) = flies k t d g"
  "flies k t d (abandon_probe u g) = flies k t d g" "flies k t d (track j c now g) = flies k t d g"
  "flies k t d (untrack j g) = flies k t d g" "flies k t d (close_quietly j g) = flies k t d g"
  "flies k t d (g\<lparr>gw_open := ou\<rparr>) = flies k t d g" "flies k t d (g\<lparr>gw_sent := ws\<rparr>) = flies k t d g"
  by (simp_all add: flies_def)

lemma forward_leaves:
  assumes "forward py parse k client n target key charge acc began ex g = (x, g1)"
  shows "gw_sent g1 = gw_sent g" and "flies k target (gw_flights g) g1"
    and "x \<noteq> None \<Longrightarrow> probes g1 = probes g - {target}"
  using assms unfolding forward_def Let_def
  by (auto simp: flies_settle flies_take_off split: sent.splits peek.splits option.splits if_splits)

lemma forward_provider_leaves:
  assumes "forward_provider k n target p uid path body streaming charge began port now g = (x, g1)"
    and "port_open port p uid body streaming path = (op, sends)"
  shows "gw_sent g1 = gw_sent g @ wires_of target p sends" and "flies k target (gw_flights g) g1"
    and "x = Turn_taken a \<Longrightarrow> probes g1 = probes g - {target}"
    and "x = Turn_refused \<Longrightarrow> probes g1 = probes g" and "x = Turn_refused \<Longrightarrow> op = Not_admitting \<or> op = Provider_trouble"
  using assms unfolding forward_provider_def Let_def
  by (auto simp: flies_settle flies_take_off split: opened.splits option.splits if_splits sum.splits)

lemma client_for_fields:
  "client_for url now new g = (c, g') \<Longrightarrow> gw_flights g' = gw_flights g \<and> gw_sent g' = gw_sent g \<and> gw_router g' = gw_router g
     \<and> gw_stats g' = gw_stats g \<and> gw_admission g' = gw_admission g"
  by (auto simp: client_for_def Let_def split: option.splits)

text \<open>Whose credentials a request carries: a remote target the key of its own provider, a local one the client's
  own.\<close>

definition credentials_ok :: "request \<Rightarrow> (string \<Rightarrow> string \<Rightarrow> bool) \<Rightarrow> wire \<Rightarrow> bool" where
  "credentials_ok q holds y \<longleftrightarrow> (\<forall>name v. (name, v) \<in> set (wr_headers y) \<longrightarrow> str_lower name = ''authorization'' \<longrightarrow>
     (if wr_kind y = REMOTE then \<exists>pid key. wr_provider y = Some pid \<and> holds pid key \<and> v = ''Bearer '' @ key
      else \<exists>name. (name, v) \<in> set (q_headers q) \<and> str_lower name = ''authorization''))"

text \<open>The key a direct send is given: the one the port has for the provider of the target, or none.\<close>

definition keyed :: "world \<Rightarrow> selection \<Rightarrow> string option \<Rightarrow> bool" where
  "keyed w sel key \<longleftrightarrow> (\<forall>k. key = Some k \<longrightarrow>
     (\<exists>p. sel_provider sel = Some p \<and> port_key (w_port w) (provider_id p) = Inr (Some k)))"

lemma keyed_None [simp]: "keyed w sel None"
  by (simp add: keyed_def)

definition direct_wire :: "request \<Rightarrow> selection \<Rightarrow> string option \<Rightarrow> string \<Rightarrow> payload \<Rightarrow> wire" where
  "direct_wire q sel key url p = \<lparr>wr_target = target_id (sel_target sel), wr_kind = target_kind (sel_target sel),
     wr_provider = map_option provider_id (sel_provider sel), wr_managed = False, wr_url = url,
     wr_headers = outgoing_headers (target_kind (sel_target sel)) key (q_content_type q) (q_headers q), wr_payload = p\<rparr>"

text \<open>What may be sent in a world holds of every request either road can build there.\<close>

definition sends_only :: "(wire \<Rightarrow> bool) \<Rightarrow> request \<Rightarrow> world \<Rightarrow> bool" where
  "sends_only P q w \<longleftrightarrow> (\<forall>sel key url p. keyed w sel key \<longrightarrow> P (direct_wire q sel key url p))
     \<and> (\<forall>t pid uid body stream path. \<forall>y \<in> set (wires_of t pid (snd (port_open (w_port w) pid uid body stream path))). P y)"

text \<open>A port that sends nothing when it refuses, and never more than twice.\<close>

definition honest :: "provider_port \<Rightarrow> bool" where
  "honest port \<longleftrightarrow> (\<forall>pid uid body stream path. case port_open port pid uid body stream path of (op, sends) \<Rightarrow>
     length sends \<le> 2 \<and> (op = Not_admitting \<or> op = Provider_trouble \<longrightarrow> sends = []))"

text \<open>The requests of one turn: straight to the target at most one; through a provider at most two.\<close>

definition one_turn :: "wire list \<Rightarrow> bool" where
  "one_turn ys \<longleftrightarrow> length ys \<le> 1 \<or> length ys \<le> 2 \<and> list_all wr_managed ys"

lemma wires_of_length [simp]: "length (wires_of t pid sends) = length sends"
  by (simp add: wires_of_def)

lemma wires_of_fields:
  "y \<in> set (wires_of t pid sends) \<Longrightarrow> wr_target y = t \<and> wr_managed y \<and> wr_kind y = REMOTE \<and> wr_provider y = Some pid"
  by (auto simp: wires_of_def)

lemma dset_in: "(a, b) \<in> set (dset k v d) \<Longrightarrow> (a, b) = (k, v) \<or> (a, b) \<in> set d"
  by (induction d) (auto split: if_splits)

lemma outgoing_credentials:
  assumes "(name, v) \<in> set (outgoing_headers tk key ct client)" and "str_lower name = ''authorization''"
  shows "if tk = REMOTE then \<exists>k. key = Some k \<and> v = ''Bearer '' @ k
     else \<exists>name. (name, v) \<in> set client \<and> str_lower name = ''authorization''"
proof -
  define h where "h = dset ''content-type'' (case ct of Some c \<Rightarrow> if c \<noteq> [] then c else ''application/json''
      | None \<Rightarrow> ''application/json'') (forward_request_headers client)"
  have base: "(name, v) \<notin> set h" using assms(2)
    by (auto simp: h_def forward_request_headers_def str_lower_def lower_char_def dest!: dset_in)
  have "outgoing_headers tk key ct client = (if tk = REMOTE
      then (case key of Some key \<Rightarrow> if key \<noteq> [] then dset ''authorization'' (''Bearer '' @ key) h else h | None \<Rightarrow> h)
      else (case find (\<lambda>(k, v). str_lower k = ''authorization'') client of
              Some (k, v) \<Rightarrow> if v \<noteq> [] then dset ''authorization'' v h else h | None \<Rightarrow> h))"
    unfolding outgoing_headers_def h_def Let_def by (rule refl)
  with assms(1) base consider
      (remote) k where "tk = REMOTE" "key = Some k" "(name, v) \<in> set (dset ''authorization'' (''Bearer '' @ k) h)"
    | (near) k' v' where "tk \<noteq> REMOTE" "find (\<lambda>(k, v). str_lower k = ''authorization'') client = Some (k', v')"
        "(name, v) \<in> set (dset ''authorization'' v' h)"
    by (auto split: if_splits option.splits)
  then show ?thesis
  proof cases
    case remote
    then show ?thesis using base by (auto dest!: dset_in)
  next
    case near
    then have "v = v'" using base by (auto dest!: dset_in)
    moreover have "(k', v') \<in> set client \<and> str_lower k' = ''authorization''"
      using near(2) by (auto simp: find_Some_iff) (metis nth_mem)
    ultimately show ?thesis using near(1) by auto
  qed
qed

definition quiet :: "turn_outcome \<Rightarrow> bool" where
  "quiet x \<longleftrightarrow> (case x of Tried a \<Rightarrow> False | Went_away \<Rightarrow> False | Threw e \<Rightarrow> False | _ \<Rightarrow> True)"

definition leaves :: "(wire \<Rightarrow> bool) \<Rightarrow> bool \<Rightarrow> string \<Rightarrow> turn_outcome \<Rightarrow> gateway \<Rightarrow> gateway \<Rightarrow> bool" where
  "leaves P hon t x g g' \<longleftrightarrow>
     (gw_flights g' = gw_flights g \<or> flies (length (gw_flights g)) t (gw_flights g) g')
     \<and> ((\<forall>e. x \<noteq> Threw e) \<longrightarrow> x \<noteq> Went_away \<longrightarrow> probes g' \<subseteq> probes g - {t})
     \<and> (\<exists>xs. gw_sent g' = gw_sent g @ xs \<and> (\<forall>y \<in> set xs. P y \<and> wr_target y = t)
          \<and> (hon \<longrightarrow> one_turn xs \<and> (quiet x \<longrightarrow> xs = [])))"

lemma send_direct_leaves:
  assumes "send_direct sv q w sel n key charge g = (x, g1)" and "keyed w sel key" and "sends_only P q w"
  shows "leaves P hon (target_id (sel_target sel)) x g g1" and "x = Nothing_sent \<or> x = Went_away \<or> (\<exists>a. x = Tried a)"
proof -
  let ?t = "target_id (sel_target sel)"
  let ?u = "str_rstrip_slash (target_url (sel_target sel)) @ q_path q"
  have all: "leaves P hon ?t x g g1 \<and> (x = Nothing_sent \<or> x = Went_away \<or> (\<exists>a. x = Tried a))"
  proof (cases "payload_for q sel")
    case None
    then have "x = Nothing_sent" "g1 = abandon_probe ?t g" using assms(1) by (simp_all add: send_direct_def Let_def)
    then show ?thesis by (auto simp: leaves_def one_turn_def)
  next
    case (Some p)
    obtain client g2 where cl: "client_for ?u (env_now (w_env w)) (w_new_client w) (charge_kv charge g) = (client, g2)" by fastforce
    note cf = client_for_fields [OF cl]
    let ?y = "direct_wire q sel key ?u p"
    let ?g3 = "g2\<lparr>gw_sent := gw_sent g2 @ [?y]\<rparr>"
    obtain a g4 where f: "forward (sv_py sv) (sv_frame sv) (length (gw_flights g)) client n ?t key charge
        (accounting_for q (env_now (w_env w))) (env_now (w_env w)) (w_exchange w) ?g3 = (a, g4)" by fastforce
    have x: "x = (case a of None \<Rightarrow> Went_away | Some a \<Rightarrow> Tried a)" "g1 = g4"
      using assms(1) Some cl f by (auto simp: send_direct_def direct_wire_def Let_def split: option.splits)
    have ok: "P ?y" using assms(2,3) by (auto simp: sends_only_def)
    have t: "wr_target ?y = ?t" by (simp add: direct_wire_def)
    have "flies (length (gw_flights g)) ?t (gw_flights g) g1" using forward_leaves(2) [OF f] cf x(2) by simp
    moreover have "probes g1 \<subseteq> probes g - {?t}" if "x \<noteq> Went_away"
      using forward_leaves(3) [OF f] cf x that by (auto split: option.splits)
    moreover have "gw_sent g1 = gw_sent g @ [?y]"
      using forward_leaves(1) [OF f] cf x(2) by simp
    moreover have "x = Went_away \<or> (\<exists>a. x = Tried a)" using x(1) by (cases a) auto
    ultimately show ?thesis using ok t by (auto simp: leaves_def one_turn_def quiet_def)
  qed
  then show "leaves P hon ?t x g g1" "x = Nothing_sent \<or> x = Went_away \<or> (\<exists>a. x = Tried a)" by blast+
qed

lemmas send_leaves = send_direct_leaves(1)

lemma refused_leaves: "leaves P hon t x g (abandon_probe t g)"
  by (auto simp: leaves_def one_turn_def)

lemma note_refusal_leaves [simp]: "leaves P hon t x g (note_refusal e r g') = leaves P hon t x g g'"
  by (simp add: leaves_def flies_def note_refusal_def)

lemma provider_leaves:
  assumes "forward_provider (length (gw_flights g)) n t pid uid path body streaming None began (w_port w) now g = (a, g1)"
    and "sends_only P q w" and "hon \<Longrightarrow> honest (w_port w)"
  shows "a = Turn_cancelled \<Longrightarrow> leaves P hon t Went_away g g1" "a = Turn_raised e \<Longrightarrow> leaves P hon t (Threw e) g g1"
    "a = Turn_taken att \<Longrightarrow> leaves P hon t (Tried att) g g1" "a = Turn_refused \<Longrightarrow> leaves P hon t Nothing_sent g (abandon_probe t g1)"
proof -
  obtain op sends where op: "port_open (w_port w) pid uid body streaming path = (op, sends)" by fastforce
  note l = forward_provider_leaves [OF assms(1) op]
  have "\<forall>y \<in> set (wires_of t pid (snd (port_open (w_port w) pid uid body streaming path))). P y"
    using assms(2) unfolding sends_only_def by blast
  then have P: "\<forall>y \<in> set (wires_of t pid sends). P y \<and> wr_target y = t" using wires_of_fields by (simp add: op)
  have h: "length sends \<le> 2 \<and> (op = Not_admitting \<or> op = Provider_trouble \<longrightarrow> sends = [])" if hon
    using assms(3) [OF that, unfolded honest_def, rule_format, of pid uid body streaming path] by (simp add: op)
  have few: "one_turn (wires_of t pid sends)" if hon
    using h [OF that] wires_of_fields by (auto simp: one_turn_def list_all_iff)
  have none: "wires_of t pid sends = []" if hon "a = Turn_refused"
    using h [OF that(1)] l(5) [OF that(2)] by (auto simp: wires_of_def)
  show "a = Turn_cancelled \<Longrightarrow> leaves P hon t Went_away g g1" "a = Turn_raised e \<Longrightarrow> leaves P hon t (Threw e) g g1"
    using l(1,2) P few by (auto simp: leaves_def quiet_def)
  show "a = Turn_taken att \<Longrightarrow> leaves P hon t (Tried att) g g1" using l(1-3) P few by (auto simp: leaves_def quiet_def)
  show "a = Turn_refused \<Longrightarrow> leaves P hon t Nothing_sent g (abandon_probe t g1)"
    using l(1,2,4) P few none by (auto simp: leaves_def)
qed

lemma attempt_on_leaves:
  assumes "attempt_on sv q w sel n g = (x, g')" and P: "sends_only P q w" and hon: "hon \<Longrightarrow> honest (w_port w)"
  shows "leaves P hon (target_id (sel_target sel)) x g g'"
proof -
  let ?t = "target_id (sel_target sel)"
  note D = assms(1) [unfolded attempt_on_def Let_def]
  show ?thesis
  proof (cases "target_kind (sel_target sel) = LOCAL")
    case True
    show ?thesis
    proof (cases "charged_body q sel")
      case None
      then have "send_direct sv q w sel n None None g = (x, g')" using D True by simp
      then show ?thesis by (rule send_leaves) (simp_all add: P)
    next
      case (Some db)
      obtain d body where db: "db = (d, body)" by (cases db)
      show ?thesis
      proof (cases "admission_check (env_settings (w_env w)) (sv_fit sv) (str_of (sv_py sv)) (gw_admission g) d body")
        case (Inl e)
        then have "x = Threw e" "g' = g" using D True Some db by simp_all
        then show ?thesis by (auto simp: leaves_def quiet_def one_turn_def)
      next
        case (Inr dec)
        show ?thesis
        proof (cases "dec_ok dec")
          case True
          then have "send_direct sv q w sel n None (Some (deployment_id d, kv_bytes dec)) g = (x, g')"
            using D \<open>target_kind (sel_target sel) = LOCAL\<close> Some db Inr by simp
          then show ?thesis by (rule send_leaves) (simp_all add: P)
        next
          case False
          then have "g' = note_refusal (code dec) (admission_refusal sv dec) (abandon_probe ?t g)"
            using D True Some db Inr by simp
          then show ?thesis by (simp add: refused_leaves)
        qed
      qed
    qed
  next
    case far: False
    show ?thesis
    proof (cases "payload_for q sel = None")
      case True
      then have "g' = abandon_probe ?t g" using D far by simp
      then show ?thesis by (simp add: refused_leaves)
    next
      case some: False
      show ?thesis
      proof (cases "sel_provider sel")
        case None
        then have "send_direct sv q w sel n None None g = (x, g')" using D far some by simp
        then show ?thesis by (rule send_leaves) (simp_all add: P)
      next
        case (Some p)
        show ?thesis
        proof (cases "through_provider sv q sel")
          case True
          obtain a g1 where f: "forward_provider (length (gw_flights g)) n ?t (provider_id p) (upstream_name sel) (q_path q)
              (json_body q) (q_streaming q) None (env_now (w_env w)) (w_port w) (w_after w) g = (a, g1)" by fastforce
          show ?thesis using D far some Some True f provider_leaves [OF f P hon] by (cases a) auto
        next
          case False
          show ?thesis
          proof (cases "port_key (w_port w) (provider_id p)")
            case (Inl e)
            then have "g' = note_refusal ''provider_key_unavailable'' (key_refusal (provider_id p)) (abandon_probe ?t g)"
              using D far some Some False by simp
            then show ?thesis by (simp add: refused_leaves)
          next
            case (Inr key)
            then have "send_direct sv q w sel n key None g = (x, g')" using D far some Some False by simp
            then show ?thesis by (rule send_leaves) (simp_all add: P keyed_def Inr Some)
          qed
        qed
      qed
    qed
  qed
qed

section \<open>What a dispatch leaves\<close>

definition numbered :: "gateway \<Rightarrow> bool" where
  "numbered g \<longleftrightarrow> dkeys (gw_flights g) = [0..<length (gw_flights g)]"

lemma flies_numbered:
  assumes "numbered g" and "flies (length (gw_flights g)) t (gw_flights g) g'"
  obtains f where "gw_flights g' = gw_flights g @ [(length (gw_flights g), f)]" "fl_target f = t" "numbered g'"
proof -
  obtain f where f: "gw_flights g' = dset (length (gw_flights g)) f (gw_flights g)" "fl_target f = t"
    using assms(2) unfolding flies_def by blast
  have new: "k \<notin> set (dkeys d) \<Longrightarrow> dset k f d = d @ [(k, f)]" for k and d :: "(nat, flight) dict"
    by (induction d) auto
  have "length (gw_flights g) \<notin> set (dkeys (gw_flights g))" using assms(1) by (simp add: numbered_def)
  then have "gw_flights g' = gw_flights g @ [(length (gw_flights g), f)]" unfolding f(1) by (rule new)
  moreover from this have "numbered g'" using assms(1) by (simp add: numbered_def)
  ultimately show ?thesis using that f(2) by blast
qed

text \<open>The targets of the flights since a state.\<close>

definition flown :: "gateway \<Rightarrow> gateway \<Rightarrow> string list" where
  "flown g g' = map fl_target (dvalues (drop (length (gw_flights g)) (gw_flights g')))"

definition keeps_order :: "string list \<Rightarrow> string list \<Rightarrow> nat \<Rightarrow> gateway \<Rightarrow> gateway \<Rightarrow> bool" where
  "keeps_order tried tried' m g g' \<longleftrightarrow> numbered g' \<and> set tried \<subseteq> set tried' \<and> take (length (gw_flights g)) (gw_flights g') = gw_flights g
     \<and> distinct (flown g g') \<and> set (flown g g') \<subseteq> set tried' - set tried \<and> length (flown g g') \<le> m"

lemma keeps_order_refl: "numbered g \<Longrightarrow> gw_flights g' = gw_flights g \<Longrightarrow> set tried \<subseteq> set tried' \<Longrightarrow> keeps_order tried tried' m g g'"
  by (simp add: keeps_order_def flown_def numbered_def)

lemma keeps_order_one:
  "numbered g \<Longrightarrow> flies (length (gw_flights g)) t (gw_flights g) g' \<Longrightarrow> t \<notin> set tried \<Longrightarrow> keeps_order tried (t # tried) 1 g g'"
  by (erule (1) flies_numbered) (auto simp: keeps_order_def flown_def)

lemma keeps_order_trans:
  assumes "keeps_order a b m g1 g2" and "keeps_order b c m' g2 g3"
  shows "keeps_order a c (m + m') g1 g3"
proof -
  have p: "take (length (gw_flights g1)) (gw_flights g2) = gw_flights g1" "take (length (gw_flights g2)) (gw_flights g3) = gw_flights g2"
    using assms by (simp_all add: keeps_order_def)
  then obtain x y where xy: "gw_flights g2 = gw_flights g1 @ x" "gw_flights g3 = gw_flights g2 @ y"
    by (metis append_take_drop_id)
  then have f: "flown g1 g3 = flown g1 g2 @ flown g2 g3" by (simp add: flown_def)
  show ?thesis using assms unfolding keeps_order_def f using xy by auto
qed

lemma keeps_order_cong:
  "gw_flights g0 = gw_flights g \<Longrightarrow> keeps_order a b m g0 g' = keeps_order a b m g g'"
  by (simp add: keeps_order_def flown_def)

definition settled_out :: "dispatched \<Rightarrow> bool" where
  "settled_out out \<longleftrightarrow> (case out of Raised e \<Rightarrow> False | Left_alone \<Rightarrow> False | _ \<Rightarrow> True)"

text \<open>To every target what was sent since is one turn's, and to a target tried before nothing.\<close>

definition fresh_turns :: "string list \<Rightarrow> string list \<Rightarrow> wire list \<Rightarrow> bool" where
  "fresh_turns tried tried' xs \<longleftrightarrow> wr_target ` set xs \<subseteq> set tried' - set tried
     \<and> (\<forall>t. one_turn (filter (\<lambda>y. wr_target y = t) xs))"

lemma fresh_turns_Nil [simp]: "fresh_turns a b []"
  by (simp add: fresh_turns_def one_turn_def)

lemma fresh_turns_trans:
  assumes "fresh_turns a b x" and "fresh_turns b c z" and "set a \<subseteq> set b" and "set b \<subseteq> set c"
  shows "fresh_turns a c (x @ z)"
proof -
  have "filter (\<lambda>y. wr_target y = t) x = [] \<or> filter (\<lambda>y. wr_target y = t) z = []" for t
    using assms(1,2) by (auto simp: fresh_turns_def filter_empty_conv)
  then have "one_turn (filter (\<lambda>y. wr_target y = t) (x @ z))" for t
    using assms(1,2) unfolding fresh_turns_def by (metis append_Nil append_Nil2 filter_append)
  then show ?thesis using assms by (auto simp: fresh_turns_def)
qed

lemma fresh_turns_one:
  assumes "\<forall>y \<in> set xs. P y \<and> wr_target y = t" and "one_turn xs" and "t \<notin> set tried"
  shows "fresh_turns tried (t # tried) xs"
proof -
  have "filter (\<lambda>y. wr_target y = u) xs = (if u = t then xs else [])" for u
    using assms(1) by (auto simp: filter_id_conv filter_empty_conv)
  then show ?thesis using assms by (auto simp: fresh_turns_def one_turn_def)
qed

definition offered ::
  "(wire \<Rightarrow> bool) \<Rightarrow> bool \<Rightarrow> string list \<Rightarrow> string list \<Rightarrow> nat \<Rightarrow> attempt option \<Rightarrow> dispatched \<Rightarrow> gateway \<Rightarrow> gateway \<Rightarrow> bool" where
  "offered P hon tried tried' m prev out g g' \<longleftrightarrow>
     keeps_order tried tried' m g g' \<and> (settled_out out \<longrightarrow> probes g' \<subseteq> probes g)
     \<and> (\<exists>xs. gw_sent g' = gw_sent g @ xs \<and> (\<forall>y \<in> set xs. P y) \<and> (out = Gave_up None \<longrightarrow> prev = None)
          \<and> (hon \<longrightarrow> fresh_turns tried tried' xs \<and> (out = Gave_up None \<longrightarrow> xs = [])))"

lemma claim_offered:
  assumes "claim sv q w n tried g = (c, tried', g')" and "numbered g" and "\<forall>sel. c \<noteq> Claimed sel"
  shows "offered P hon tried tried' m prev (Gave_up prev) g g'"
  using claim_result [OF assms(1)] assms(2,3) keeps_order_refl [OF assms(2), of g' tried tried' m]
  by (cases c) (auto simp: offered_def)

lemma offered_trans:
  assumes "offered P hon a b m prev out g1 g2" and "settled_out out" and "out = Gave_up prev'" and "offered P hon b c m' prev' out' g2 g3"
  shows "offered P hon a c (m + m') prev out' g1 g3"
proof -
  have k: "keeps_order a c (m + m') g1 g3" using assms(1,4) keeps_order_trans by (simp add: offered_def) blast
  have ab: "set a \<subseteq> set b" "set b \<subseteq> set c" using assms(1,4) by (simp_all add: offered_def keeps_order_def)
  have p: "settled_out out' \<longrightarrow> probes g3 \<subseteq> probes g1" using assms(1,2,4) unfolding offered_def by blast
  obtain x where x: "gw_sent g2 = gw_sent g1 @ x" "\<forall>y \<in> set x. P y" "out = Gave_up None \<longrightarrow> prev = None"
      "hon \<longrightarrow> fresh_turns a b x \<and> (out = Gave_up None \<longrightarrow> x = [])"
    using assms(1) unfolding offered_def by blast
  obtain z where z: "gw_sent g3 = gw_sent g2 @ z" "\<forall>y \<in> set z. P y" "out' = Gave_up None \<longrightarrow> prev' = None"
      "hon \<longrightarrow> fresh_turns b c z \<and> (out' = Gave_up None \<longrightarrow> z = [])"
    using assms(4) unfolding offered_def by blast
  have "gw_sent g3 = gw_sent g1 @ (x @ z)" using x(1) z(1) by simp
  moreover have "\<forall>y \<in> set (x @ z). P y" using x(2) z(2) by auto
  moreover have "out' = Gave_up None \<longrightarrow> prev = None" using x(3) z(3) assms(3) by auto
  moreover have "hon \<longrightarrow> fresh_turns a c (x @ z) \<and> (out' = Gave_up None \<longrightarrow> x @ z = [])"
    using fresh_turns_trans [OF _ _ ab] x(4) z(3,4) assms(3) by auto
  ultimately show ?thesis using k p unfolding offered_def by blast
qed

lemma attempt_offered:
  assumes "attempt_on sv q w sel n g = (x, g')" and "claim sv q w n tried g0 = (Claimed sel, tried', g)" and "numbered g0"
    and "sends_only P q w" and "hon \<Longrightarrow> honest (w_port w)" and "settled_out out \<Longrightarrow> (\<forall>e. x \<noteq> Threw e) \<and> x \<noteq> Went_away"
    and "out = Gave_up None \<Longrightarrow> prev = None \<and> quiet x"
  shows "offered P hon tried tried' 1 prev out g0 g'"
proof -
  let ?t = "target_id (sel_target sel)"
  have c: "gw_flights g = gw_flights g0" "gw_sent g = gw_sent g0" "?t \<notin> set tried" "tried' = ?t # tried"
      "probes g \<subseteq> insert ?t (probes g0)"
    using claim_result [OF assms(2)] by auto
  have l: "leaves P hon ?t x g g'" by (rule attempt_on_leaves [OF assms(1,4)]) (rule assms(5))
  note l = l [unfolded leaves_def c(1,2)]
  have "keeps_order tried tried' 1 g0 g'"
  proof (cases "gw_flights g' = gw_flights g0")
    case True
    then show ?thesis using assms(3) by (intro keeps_order_refl) (auto simp: c(4))
  next
    case False
    then have "flies (length (gw_flights g0)) ?t (gw_flights g0) g'" using l by blast
    then show ?thesis unfolding c(4) by (rule keeps_order_one [OF assms(3) _ c(3)])
  qed
  moreover have "settled_out out \<longrightarrow> probes g' \<subseteq> probes g0" using l assms(6) c(5) by blast
  moreover obtain xs where xs: "gw_sent g' = gw_sent g0 @ xs" "\<forall>y \<in> set xs. P y \<and> wr_target y = ?t"
      "hon \<longrightarrow> one_turn xs \<and> (quiet x \<longrightarrow> xs = [])"
    using l by blast
  moreover have "hon \<longrightarrow> fresh_turns tried tried' xs" unfolding c(4) using fresh_turns_one [OF xs(2) _ c(3)] xs(3) by blast
  ultimately show ?thesis using assms(7) unfolding offered_def by blast
qed

lemma offer_offered:
  assumes "\<And>n. sends_only P q (ws n)" and "hon \<Longrightarrow> \<forall>n. honest (w_port (ws n))"
  shows "offer sv q ws deadline ns tried prev g = (out, tried', g') \<Longrightarrow> numbered g \<Longrightarrow>
     offered P hon tried tried' (length ns) prev out g g'"
proof (induction ns arbitrary: tried prev g)
  case Nil
  then show ?case by (auto simp: offered_def keeps_order_refl)
next
  case (Cons n ns)
  obtain c tr1 g1 where claim: "claim sv q (ws n) n tried g = (c, tr1, g1)" by (metis surj_pair)
  show ?case
  proof (cases c)
    case Nothing_left
    then have "out = Gave_up prev" "tried' = tr1" "g' = g1" using Cons.prems(1) claim by simp_all
    then show ?thesis using claim_offered [OF claim Cons.prems(2)] Nothing_left by simp
  next
    case Skip_target
    then have rest: "offer sv q ws deadline ns tr1 prev g1 = (out, tried', g')" using Cons.prems(1) claim by simp
    have one: "offered P hon tried tr1 1 prev (Gave_up prev) g g1" using claim_offered [OF claim Cons.prems(2)] Skip_target by simp
    then have "numbered g1" by (simp add: offered_def keeps_order_def)
    then show ?thesis using offered_trans [OF one _ refl Cons.IH [OF rest]] by (simp add: settled_out_def)
  next
    case (Claimed sel)
    obtain x g2 where att: "attempt_on sv q (ws n) sel n g1 = (x, g2)" by fastforce
    have one: "\<And>out prev. \<lbrakk>settled_out out \<Longrightarrow> (\<forall>e. x \<noteq> Threw e) \<and> x \<noteq> Went_away; out = Gave_up None \<Longrightarrow> prev = None \<and> quiet x\<rbrakk>
        \<Longrightarrow> offered P hon tried tr1 1 prev out g g2"
      by (rule attempt_offered [OF att claim [unfolded Claimed] Cons.prems(2) assms(1)]) (use assms(2) in auto)
    have more: "offered P hon a b 1 p o1 h1 h2 \<Longrightarrow> offered P hon a b (length (n # ns)) p o1 h1 h2" for a b p o1 h1 h2
      by (auto simp: offered_def keeps_order_def)
    have again: "offered P hon tried tried' (length (n # ns)) prev out g g'"
      if "offer sv q ws deadline ns tr1 prev' g2 = (out, tried', g')" "(\<forall>e. x \<noteq> Threw e) \<and> x \<noteq> Went_away"
        "prev' = None \<longrightarrow> prev = None \<and> quiet x" for prev'
    proof -
      have first: "offered P hon tried tr1 1 prev (Gave_up prev') g g2" by (rule one) (use that in auto)
      then have "numbered g2" by (simp add: offered_def keeps_order_def)
      then show ?thesis using offered_trans [OF first _ refl Cons.IH [OF that(1)]] by (simp add: settled_out_def)
    qed
    show ?thesis
    proof (cases x)
      case (Threw e)
      then have "out = Raised e" "tried' = tr1" "g' = g2" using Cons.prems(1) claim Claimed att by simp_all
      then have "offered P hon tried tr1 1 prev out g g2" by (intro one) (auto simp: settled_out_def)
      then show ?thesis using \<open>tried' = tr1\<close> \<open>g' = g2\<close> more by blast
    next
      case Went_away
      then have "out = Left_alone" "tried' = tr1" "g' = g2" using Cons.prems(1) claim Claimed att by simp_all
      then have "offered P hon tried tr1 1 prev out g g2" by (intro one) (auto simp: settled_out_def)
      then show ?thesis using \<open>tried' = tr1\<close> \<open>g' = g2\<close> more by blast
    next
      case (Refused_with r)
      then have "out = Answers (Own r)" "tried' = tr1" "g' = g2" using Cons.prems(1) claim Claimed att by simp_all
      then have "offered P hon tried tr1 1 prev out g g2" using Refused_with by (intro one) auto
      then show ?thesis using \<open>tried' = tr1\<close> \<open>g' = g2\<close> more by blast
    next
      case Nothing_sent
      then show ?thesis using Cons.prems(1) claim Claimed att by (intro again [of prev]) (auto simp: quiet_def)
    next
      case (Tried a)
      show ?thesis
      proof (cases "at_retryable a \<and> \<not> w_after (ws n) \<ge> deadline")
        case True
        then show ?thesis using Cons.prems(1) claim Claimed att Tried by (intro again [of "Some a"]) auto
      next
        case False
        then have "out \<noteq> Gave_up None" "tried' = tr1" "g' = g2" using Cons.prems(1) claim Claimed att Tried
          by (auto split: if_splits option.splits)
        then have "offered P hon tried tr1 1 prev out g g2" using Tried by (intro one) auto
      then show ?thesis using \<open>tried' = tr1\<close> \<open>g' = g2\<close> more by blast
      qed
    qed
  qed
qed

lemma dispatch_offered:
  assumes "dispatch sv q ws g = (out, tried, g')" and "numbered g"
    and "\<And>n. sends_only P q (ws n)" and "hon \<Longrightarrow> \<forall>n. honest (w_port (ws n))"
  shows "offered P hon [] tried (nat (failover_max_attempts (env_settings (w_env (ws 0))))) None out g g'
     \<and> (\<forall>a. out \<noteq> Gave_up (Some a))"
proof -
  let ?ns = "[0..<nat (failover_max_attempts (env_settings (w_env (ws 0))))]"
  obtain o1 tr g1 where o: "offer sv q ws (env_now (w_env (ws 0)) + failover_deadline_s (env_settings (w_env (ws 0)))) ?ns [] None g
      = (o1, tr, g1)" by (metis surj_pair)
  have "offered P hon [] tr (length ?ns) None o1 g g1"
    by (rule offer_offered [OF assms(3,4) o assms(2)])
  moreover have "tried = tr \<and> g' = g1 \<and> (out = o1 \<or> (\<exists>a r. o1 = Gave_up (Some a) \<and> out = Answers r)) \<and> (\<forall>a. out \<noteq> Gave_up (Some a))"
    using assms(1) o by (auto simp: dispatch_def Let_def split: dispatched.splits option.splits)
  ultimately show ?thesis by (auto simp: offered_def settled_out_def)
qed

lemma sends_anything: "sends_only (\<lambda>y. True) q w"
  by (simp add: sends_only_def)

section \<open>Every request is answered\<close>

text \<open>A world in which nobody cancels the caller.\<close>

definition calm :: "world \<Rightarrow> bool" where
  "calm w \<longleftrightarrow> ex_sent (w_exchange w) \<noteq> Send_cancelled \<and> ex_error_body (w_exchange w) \<noteq> None
     \<and> ex_peek (w_exchange w) \<noteq> Peek_cancelled
     \<and> (\<forall>pid uid body stream path. fst (port_open (w_port w) pid uid body stream path) \<noteq> Opening_cancelled)"

text \<open>An exception a providers port can bring into a turn: its own, or the one the pause it names meets.\<close>

definition port_raises :: "provider_port \<Rightarrow> py_error \<Rightarrow> bool" where
  "port_raises port e \<longleftrightarrow> (\<exists>pid uid body stream path.
     case fst (port_open port pid uid body stream path) of
       Opening_raised err \<Rightarrow> err = e
     | Failed_upstream st message text pause \<Rightarrow> provider_headers pause = Inl e
     | _ \<Rightarrow> False)"

lemma calm_forward:
  "calm w \<Longrightarrow> fst (forward py parse k client n target key charge acc began (w_exchange w) g) \<noteq> None"
  unfolding forward_def Let_def calm_def by (auto split: sent.split peek.split)

lemma calm_provider:
  assumes "calm w" and "forward_provider k n target p uid path body streaming charge began (w_port w) now g = (x, g1)"
  shows "x \<noteq> Turn_cancelled" "x = Turn_raised e \<Longrightarrow> port_raises (w_port w) e"
proof -
  obtain op sends where op: "port_open (w_port w) p uid body streaming path = (op, sends)" by fastforce
  have "op \<noteq> Opening_cancelled" using assms(1) op unfolding calm_def by (metis fst_conv)
  then show "x \<noteq> Turn_cancelled" using assms(2) op unfolding forward_provider_def Let_def
    by (auto split: opened.splits option.splits if_splits sum.splits)
  have "case op of Opening_raised err \<Rightarrow> err = e | Failed_upstream st message text pause \<Rightarrow> provider_headers pause = Inl e | _ \<Rightarrow> False"
    if "x = Turn_raised e"
    using assms(2) op that unfolding forward_provider_def Let_def
    by (auto split: opened.splits option.splits if_splits sum.splits)
  then show "x = Turn_raised e \<Longrightarrow> port_raises (w_port w) e" using op unfolding port_raises_def by (metis fst_conv)
qed

lemma calm_send:
  assumes "calm w"
  shows "fst (send_direct sv q w sel n key charge g) \<noteq> Went_away"
proof -
  have never: "forward py parse k client n t key c acc b (w_exchange w) g \<noteq> (None, g')" for py parse k client t c acc b g g'
    using calm_forward [OF assms, of py parse k client n t key c acc b g] by auto
  show ?thesis unfolding send_direct_def Let_def by (auto split: option.split prod.split simp: never)
qed

text \<open>The estimator prices every deployment it is asked about, at no less than nothing.\<close>

definition fairly_priced :: "service \<Rightarrow> world \<Rightarrow> bool" where
  "fairly_priced sv w \<longleftrightarrow> (\<forall>d. prices_ok (env_settings (w_env w)) (sv_fit sv) d
     \<and> (\<exists>x. adm_kv_bytes_per_token (sv_fit sv) (dep_shape d) (default_kv_dtype (env_settings (w_env w))) = Inr x))"

lemma priced_check: "fairly_priced sv w \<Longrightarrow> \<exists>dec. admission_check (env_settings (w_env w)) (sv_fit sv) f a d body = Inr dec"
  unfolding fairly_priced_def admission_check_def Let_def by (auto dest: spec [of _ d])

definition ends_well :: "world \<Rightarrow> turn_outcome \<Rightarrow> bool" where
  "ends_well w x \<longleftrightarrow> x \<noteq> Went_away \<and> (\<forall>e. x = Threw e \<longrightarrow> port_raises (w_port w) e)"

lemma calm_attempt:
  assumes "calm w" and "fairly_priced sv w"
  shows "ends_well w (fst (attempt_on sv q w sel n g))"
proof -
  have send: "ends_well w (fst (send_direct sv q w sel n key charge g))" for key charge g
    using calm_send [OF assms(1), of sv q sel n key charge g]
    by (auto simp: ends_well_def send_direct_def Let_def split: option.splits prod.splits)
  have prov: "ends_well w (case x of Turn_cancelled \<Rightarrow> Went_away | Turn_raised e \<Rightarrow> Threw e | Turn_refused \<Rightarrow> Nothing_sent
      | Turn_taken a \<Rightarrow> Tried a)" if "forward_provider k n t p uid path body st c b (w_port w) now g = (x, g')"
    for x k t p uid path body st c b now g g'
    using calm_provider [OF assms(1) that] by (auto simp: ends_well_def split: provider_turn.split)
  have simple: "ends_well w (Refused_with r)" "ends_well w Nothing_sent" for r by (simp_all add: ends_well_def)
  show ?thesis
  proof (cases "target_kind (sel_target sel) = LOCAL")
    case True
    show ?thesis
    proof (cases "charged_body q sel")
      case (Some db)
      obtain d body where db: "db = (d, body)" by (cases db)
      obtain dec where "admission_check (env_settings (w_env w)) (sv_fit sv) (str_of (sv_py sv)) (gw_admission g) d body = Inr dec"
        using priced_check [OF assms(2)] by blast
      then show ?thesis using True Some db send simple by (simp add: attempt_on_def Let_def)
    qed (use True send in \<open>simp add: attempt_on_def Let_def\<close>)
  next
    case False
    obtain x g' where f: "forward_provider (length (gw_flights g)) n (target_id (sel_target sel)) (provider_id (the (sel_provider sel)))
        (upstream_name sel) (q_path q) (json_body q) (q_streaming q) None (env_now (w_env w)) (w_port w) (w_after w) g = (x, g')"
      by fastforce
    show ?thesis using False send simple prov [OF f] f
      by (cases x) (auto simp: attempt_on_def Let_def split: option.split sum.split)
  qed
qed

definition fine_out :: "(nat \<Rightarrow> world) \<Rightarrow> dispatched \<Rightarrow> bool" where
  "fine_out ws out \<longleftrightarrow> out \<noteq> Left_alone \<and> (\<forall>e. out = Raised e \<longrightarrow> (\<exists>n. port_raises (w_port (ws n)) e))"

lemma calm_offer:
  assumes "\<forall>n. calm (ws n) \<and> fairly_priced sv (ws n)"
  shows "fine_out ws (fst (offer sv q ws deadline ns tried prev g))"
proof (induction ns arbitrary: tried prev g)
  case (Cons n ns)
  obtain c tr1 g1 where claim: "claim sv q (ws n) n tried g = (c, tr1, g1)" by (metis surj_pair)
  show ?case
  proof (cases c)
    case (Claimed sel)
    obtain x g2 where att: "attempt_on sv q (ws n) sel n g1 = (x, g2)" by fastforce
    then have "ends_well (ws n) x" using calm_attempt [of "ws n" sv q sel n g1] assms by auto
    then show ?thesis using Cons.IH claim Claimed att by (cases x) (auto simp: fine_out_def ends_well_def split: option.split)
  qed (use Cons.IH claim in \<open>auto simp: fine_out_def\<close>)
qed (simp add: fine_out_def)

lemma calm_dispatch:
  assumes "\<forall>n. calm (ws n) \<and> fairly_priced sv (ws n)"
  shows "fine_out ws (fst (dispatch sv q ws g))"
proof -
  obtain o1 tr g1 where o: "offer sv q ws (env_now (w_env (ws 0)) + failover_deadline_s (env_settings (w_env (ws 0))))
      [0..<nat (failover_max_attempts (env_settings (w_env (ws 0))))] [] None g = (o1, tr, g1)" by (metis surj_pair)
  then have "fine_out ws o1" using calm_offer [OF assms] by (metis fst_conv)
  then show ?thesis using o by (auto simp: dispatch_def Let_def fine_out_def split: dispatched.splits option.splits)
qed

text \<open>The end of a visit: an answer, or an exception of one of its ports.\<close>

definition over :: "visit \<Rightarrow> dispatched \<Rightarrow> bool" where
  "over v out \<longleftrightarrow> (\<exists>r. out = Answers r) \<or> (\<exists>e n. out = Raised e \<and>
     (port_raises (w_port (v_first v n)) e \<or> port_raises (w_port (v_second v n)) e))"

lemma refuse_nowhere_answers: "over v (fst (refuse_nowhere q v g))"
  by (simp add: refuse_nowhere_def over_def split: prod.split)

lemma over_on:
  "fine_out ws (fst r) \<Longrightarrow> ws = v_first v \<or> ws = v_second v \<Longrightarrow> (\<And>g. over v (fst (f g))) \<Longrightarrow>
   over v (fst (case r of (Gave_up x, _, g) \<Rightarrow> f g | out \<Rightarrow> out))"
  by (cases r; cases "fst r") (auto simp: fine_out_def over_def)

lemma calm_second:
  assumes "\<forall>n. calm (v_second v n) \<and> fairly_priced sv (v_second v n)"
  shows "over v (fst (second_chance sv q v g))"
proof (cases "accepts (env_settings (v_wait_env v)) (v_lot v) (q_model q) (int (length (q_raw q)))")
  case True
  obtain ok r where p: "parkable (env_at (v_wait_env v) g) (q_model q) (gw_router g) = (ok, r)" by fastforce
  obtain won h where h: "v_parked v (with_router r g) = (won, h)" by fastforce
  show ?thesis unfolding second_chance_def using True p h refuse_nowhere_answers [of v q]
      over_on [OF calm_dispatch [OF assms], of v "refuse_nowhere q v" q h]
    by (cases ok; cases won) simp_all
qed (simp add: second_chance_def refuse_nowhere_answers)

lemma calm_serve:
  assumes "\<forall>n. calm (v_first v n) \<and> fairly_priced sv (v_first v n)" and "\<forall>n. calm (v_second v n) \<and> fairly_priced sv (v_second v n)"
  shows "over v (fst (serve_request sv q v g))"
proof -
  obtain x rt where l: "lookup_refusal (env_at (v_env v) g) q (gw_router g) = (x, rt)" by fastforce
  show ?thesis
  proof (cases x)
    case None
    then show ?thesis unfolding serve_request_def Let_def l prod.case None option.case
      by (intro over_on [OF calm_dispatch [OF assms(1)]] calm_second [OF assms(2)]) simp
  qed (auto simp: serve_request_def l over_def)
qed

section \<open>A request is steps of the gateway\<close>

lemma claim_later: "claim sv q w n tried g = (c, tried', g') \<Longrightarrow> later g g'"
  using claim_result by (intro later_aside) auto

lemma charge_kv_commutes:
  "(charge_kv charge g)\<lparr>gw_clients := cs\<rparr> = charge_kv charge (g\<lparr>gw_clients := cs\<rparr>)"
  "(charge_kv charge g)\<lparr>gw_sent := xs\<rparr> = charge_kv charge (g\<lparr>gw_sent := xs\<rparr>)"
  "gw_clients (charge_kv charge g) = gw_clients g"
  by (simp_all add: charge_kv_def split: option.split)

lemma client_for_charged:
  "client_for url now new (charge_kv charge g) = (c, g') \<Longrightarrow> \<exists>cs. g' = charge_kv charge (g\<lparr>gw_clients := cs\<rparr>)"
  by (auto simp: client_for_def Let_def charge_kv_commutes split: option.splits)

lemma send_direct_later:
  assumes "\<And>d kv. charge = Some (d, kv) \<Longrightarrow> 0 \<le> kv" and "send_direct sv q w sel n key charge g = (x, g1)"
  shows "later g g1"
proof (cases "payload_for q sel")
  case None
  then show ?thesis using assms(2) by (auto simp: send_direct_def Let_def verdicts intro!: then_step)
next
  case (Some p)
  let ?u = "str_rstrip_slash (target_url (sel_target sel)) @ q_path q"
  obtain client g2 where cl: "client_for ?u (env_now (w_env w)) (w_new_client w) (charge_kv charge g) = (client, g2)" by fastforce
  obtain cs where g2: "g2 = charge_kv charge (g\<lparr>gw_clients := cs\<rparr>)" using client_for_charged [OF cl] by blast
  let ?x = "direct_wire q sel key ?u p"
  define g0 where "g0 = g\<lparr>gw_clients := cs, gw_sent := gw_sent g @ [?x]\<rparr>"
  have g3: "g2\<lparr>gw_sent := gw_sent g2 @ [?x]\<rparr> = charge_kv charge g0" unfolding g2 charge_kv_commutes g0_def by simp
  have k: "length (gw_flights g) = length (gw_flights g0)" by (simp add: g0_def)
  have "later g g0" by (rule later_aside) (simp_all add: g0_def)
  moreover have "later g0 (snd (forward (sv_py sv) (sv_frame sv) (length (gw_flights g)) client n (target_id (sel_target sel)) key charge
      (accounting_for q (env_now (w_env w))) (env_now (w_env w)) (w_exchange w) (charge_kv charge g0)))"
    by (rule forward_later [OF assms(1) k])
  moreover have "g1 = snd (forward (sv_py sv) (sv_frame sv) (length (gw_flights g)) client n (target_id (sel_target sel)) key charge
      (accounting_for q (env_now (w_env w))) (env_now (w_env w)) (w_exchange w) (charge_kv charge g0))"
    using assms(2) Some cl g3 by (auto simp: send_direct_def direct_wire_def Let_def split: option.splits prod.splits)
  ultimately show ?thesis by (metis rtranclp_trans)
qed

lemma note_refusal_later: "later g h \<Longrightarrow> later g (note_refusal e r h)"
  by (erule rtranclp_trans, rule later_aside) (simp_all add: note_refusal_def)

lemma with_router_later: "later g (with_router r g)"
  by (rule later_aside) simp_all

lemma abandon_later: "later g h \<Longrightarrow> later g (abandon_probe t h)"
  unfolding verdicts by (rule then_step)

lemma attempt_on_later:
  assumes "fairly_priced sv w" and "attempt_on sv q w sel n g = (x, g')"
  shows "later g g'"
proof -
  have send: "\<lbrakk>\<And>d kv. charge = Some (d, kv) \<Longrightarrow> 0 \<le> kv; send_direct sv q w sel n key charge g = (x, g')\<rbrakk> \<Longrightarrow> later g g'" for key charge
    by (rule send_direct_later)
  have prov: "later g (snd (forward_provider (length (gw_flights g)) n t p uid path body st None b port now g))"
    for t p uid path body st b port now
    using forward_provider_later [of None "length (gw_flights g)" g n t p uid path body st b port now] by (simp add: charge_kv_def)
  show ?thesis
  proof (cases "target_kind (sel_target sel) = LOCAL")
    case True
    show ?thesis
    proof (cases "charged_body q sel")
      case None
      then show ?thesis using True assms(2) send [of None None] by (simp add: attempt_on_def Let_def)
    next
      case (Some db)
      obtain d body where db: "db = (d, body)" by (cases db)
      show ?thesis
      proof (cases "admission_check (env_settings (w_env w)) (sv_fit sv) (str_of (sv_py sv)) (gw_admission g) d body")
        case (Inl e)
        then show ?thesis using True Some db assms(2) by (simp add: attempt_on_def Let_def)
      next
        case (Inr dec)
        then have "0 \<le> kv_bytes dec" if "dec_ok dec" using check_ok(1) [OF Inr that] assms(1) by (auto simp: fairly_priced_def)
        then show ?thesis using True Some db Inr assms(2) send [of "Some (deployment_id d, kv_bytes dec)" None]
          by (auto simp: attempt_on_def Let_def split: if_splits intro!: note_refusal_later abandon_later)
      qed
    qed
  next
    case False
    obtain a g1 where f: "forward_provider (length (gw_flights g)) n (target_id (sel_target sel)) (provider_id (the (sel_provider sel)))
        (upstream_name sel) (q_path q) (json_body q) (q_streaming q) None (env_now (w_env w)) (w_port w) (w_after w) g = (a, g1)"
      by fastforce
    then have "later g g1" using prov by (metis snd_conv)
    then show ?thesis
      using False f assms(2) send [of None None] send [of None "case port_key (w_port w) (provider_id (the (sel_provider sel))) of Inr key \<Rightarrow> key | Inl e \<Rightarrow> None"]
      by (auto simp: attempt_on_def Let_def split: option.splits sum.splits if_splits provider_turn.splits
          intro!: note_refusal_later abandon_later)
  qed
qed

lemma offer_later:
  assumes "\<forall>n. fairly_priced sv (ws n)"
  shows "offer sv q ws deadline ns tried prev g = (out, tried', g') \<Longrightarrow> later g g'"
proof (induction ns arbitrary: tried prev g)
  case (Cons n ns)
  obtain c tr1 g1 where claim: "claim sv q (ws n) n tried g = (c, tr1, g1)" by (metis surj_pair)
  note one = claim_later [OF claim]
  show ?case
  proof (cases c)
    case (Claimed sel)
    obtain x g2 where att: "attempt_on sv q (ws n) sel n g1 = (x, g2)" by fastforce
    have two: "later g g2" using rtranclp_trans [OF one attempt_on_later [OF _ att]] assms by blast
    have rest: "offer sv q ws deadline ns tr1 p g2 = (out, tried', g') \<Longrightarrow> later g g'" for p
      using two Cons.IH by (metis rtranclp_trans)
    show ?thesis using Cons.prems claim Claimed att two rest by (cases x) (auto split: if_splits option.splits)
  next
    case Skip_target
    then show ?thesis using Cons.prems Cons.IH claim one by (auto intro: rtranclp_trans)
  qed (use Cons.prems claim one in auto)
qed simp

lemma dispatch_later:
  assumes "\<forall>n. fairly_priced sv (ws n)"
  shows "later g (snd (snd (dispatch sv q ws g)))"
proof -
  obtain o1 tr g1 where o: "offer sv q ws (env_now (w_env (ws 0)) + failover_deadline_s (env_settings (w_env (ws 0))))
      [0..<nat (failover_max_attempts (env_settings (w_env (ws 0))))] [] None g = (o1, tr, g1)" by (metis surj_pair)
  then show ?thesis using offer_later [OF assms o]
    by (auto simp: dispatch_def Let_def split: dispatched.splits option.splits)
qed

lemma refuse_nowhere_later: "later g (snd (snd (refuse_nowhere q v g)))"
  by (auto simp: refuse_nowhere_def split: prod.split intro!: note_refusal_later with_router_later)

lemma later_on:
  "later g (snd (snd r)) \<Longrightarrow> (\<And>h. later h (snd (snd (f h)))) \<Longrightarrow>
   later g (snd (snd (case r of (Gave_up x, _, h) \<Rightarrow> f h | out \<Rightarrow> out)))"
  by (cases r; cases "fst r") (auto intro: rtranclp_trans)

lemma second_chance_later:
  assumes "\<forall>n. fairly_priced sv (v_second v n)" and "\<And>h. later h (snd (v_parked v h))"
  shows "later g (snd (snd (second_chance sv q v g)))"
proof (cases "accepts (env_settings (v_wait_env v)) (v_lot v) (q_model q) (int (length (q_raw q)))")
  case True
  obtain ok r where p: "parkable (env_at (v_wait_env v) g) (q_model q) (gw_router g) = (ok, r)" by fastforce
  obtain won h where h: "v_parked v (with_router r g) = (won, h)" by fastforce
  have g1: "later g (with_router r g)" by (rule with_router_later)
  moreover have "later (with_router r g) h" using assms(2) [of "with_router r g"] h by simp
  ultimately have g2: "later g h" by (rule rtranclp_trans)
  have "later g (snd (snd (refuse_nowhere q v (with_router r g))))" by (rule rtranclp_trans [OF g1 refuse_nowhere_later])
  moreover have "later g (snd (snd (refuse_nowhere q v h)))" by (rule rtranclp_trans [OF g2 refuse_nowhere_later])
  moreover have "later g (snd (snd (case dispatch sv q (v_second v) h of (Gave_up x, _, g) \<Rightarrow> refuse_nowhere q v g | out \<Rightarrow> out)))"
    by (rule later_on [OF rtranclp_trans [OF g2 dispatch_later [OF assms(1)]] refuse_nowhere_later])
  ultimately show ?thesis unfolding second_chance_def using True p h by (cases ok; cases won) simp_all
qed (simp add: second_chance_def refuse_nowhere_later)

lemma serve_later:
  assumes "\<forall>n. fairly_priced sv (v_first v n)" and "\<forall>n. fairly_priced sv (v_second v n)" and "\<And>h. later h (snd (v_parked v h))"
  shows "later g (snd (snd (serve_request sv q v g)))"
proof -
  obtain x rt where l: "lookup_refusal (env_at (v_env v) g) q (gw_router g) = (x, rt)" by fastforce
  show ?thesis
  proof (cases x)
    case None
    let ?h = "(with_router rt g)\<lparr>gw_budget := note_request (env_now (v_env v)) (gw_budget (with_router rt g))\<rparr>"
    have "later g ?h" by (rule later_aside) simp_all
    then have "later g (snd (snd (dispatch sv q (v_first v) ?h)))" by (rule rtranclp_trans [OF _ dispatch_later [OF assms(1)]])
    then show ?thesis unfolding serve_request_def Let_def l prod.case None option.case
      by (rule later_on) (rule second_chance_later [OF assms(2,3)])
  qed (auto simp: serve_request_def l intro!: note_refusal_later with_router_later)
qed

section \<open>The gateway's own answers\<close>

text \<open>An error object as the clients of the API read it.\<close>

definition api_error :: "api_response \<Rightarrow> bool" where
  "api_error r \<longleftrightarrow> rs_status r \<in> {400, 404, 413, 429, 502, 503}
     \<and> (\<exists>m t c extra. rs_body r = JObj [(''error'', JObj ([(''message'', JStr m), (''type'', JStr t), (''param'', JNull), (''code'', JStr c)] @ extra))])"

lemma extras_follow:
  fixes d :: "('c, 'd) dict"
  assumes "\<forall>k \<in> set (dkeys extra). k \<notin> set (dkeys d)"
  shows "\<exists>rest. foldl (\<lambda>d (k, v). dset k v d) (d @ e) extra = d @ rest"
  using assms
proof (induction extra arbitrary: e)
  case (Cons p extra)
  obtain k v where p: "p = (k, v)" by (cases p)
  have app: "dset k v (d @ e) = d @ dset k v e" if "k \<notin> set (dkeys d)" for d :: "('c, 'd) dict" and k v e
    using that by (induction d) auto
  show ?case using Cons.IH [of "dset k v e"] Cons.prems p by (simp add: app)
qed auto

lemma error_response_ok:
  assumes "st \<in> {400, 404, 413, 429, 502, 503}" and "\<forall>k \<in> set (dkeys extra). k \<notin> {''message'', ''type'', ''param'', ''code''}"
  shows "api_error (error_response st m t c h extra)"
proof -
  let ?d = "[(''message'', JStr m), (''type'', JStr t), (''param'', JNull), (''code'', JStr c)]"
  obtain rest where "foldl (\<lambda>d (k, v). dset k v d) (?d @ []) extra = ?d @ rest"
    using extras_follow [of extra ?d "[]"] assms(2) by auto
  then show ?thesis using assms(1) by (auto simp: api_error_def error_response_def error_body_def)
qed

lemma own_errors [simp]:
  "api_error (unknown_model n ns)" "api_error (model_not_ready n ns)" "api_error (wrong_modality n m m' e)"
  "api_error (no_target_admitting n)" "api_error (upstream_unreachable n e k)" "api_error (upstream_pool_exhausted n k)"
  "api_error (key_refusal p)" "api_error (too_large what limit)" "api_error (bad_request msg c)" "api_error missing_model"
  by (auto simp: unknown_model_def model_not_ready_def wrong_modality_def no_target_admitting_def upstream_unreachable_def
      upstream_pool_exhausted_def key_refusal_def too_large_def bad_request_def missing_model_def Let_def intro!: error_response_ok)

lemma admission_refusal_ok:
  assumes "admission_check s fit f a d body = Inr dec" and "\<not> dec_ok dec"
  shows "api_error (admission_refusal sv dec)"
proof -
  have "status dec \<in> {400, 429}" using assms
    by (auto simp: admission_check_def Let_def split: if_splits simp: result_simps)
  then show ?thesis by (auto simp: admission_refusal_def intro!: error_response_ok)
qed
lemma forward_own: "fst (forward py parse k client n target key charge acc began ex g) = Some a \<Longrightarrow> at_reply a \<noteq> Some (Own r)"
  unfolding forward_def Let_def
  by (auto simp: not_reached_def broke_there_def answered_def split: sent.splits peek.splits option.splits if_splits)

lemma provider_own:
  assumes "forward_provider k n target p uid path body streaming charge began port now g = (Turn_taken a, g1)"
    and "at_reply a = Some (Own r)"
  shows "api_error r"
proof -
  obtain op sends where op: "port_open port p uid body streaming path = (op, sends)" by fastforce
  show ?thesis using assms unfolding forward_provider_def Let_def op
    by (auto simp: not_reached_def broke_there_def answered_def intro!: error_response_ok
        split: opened.splits option.splits if_splits sum.splits)
qed

definition own_outcome :: "turn_outcome \<Rightarrow> bool" where
  "own_outcome x \<longleftrightarrow> (\<forall>r a. (x = Refused_with r \<longrightarrow> api_error r) \<and> (x = Tried a \<longrightarrow> at_reply a = Some (Own r) \<longrightarrow> api_error r))"

lemma send_own: "own_outcome (fst (send_direct sv q w sel n key charge g))"
proof -
  have never: "at_reply a \<noteq> Some (Own r)" if "forward py parse k client n t key c acc b ex h = (Some a, h')"
    for py parse k client t c acc b ex h h' a r
    using forward_own [of py parse k client n t key c acc b ex h a r] that by simp
  show ?thesis unfolding own_outcome_def send_direct_def Let_def
    by (auto split: option.split prod.split dest: never)
qed

lemma attempt_own: "own_outcome (fst (attempt_on sv q w sel n g))"
proof -
  have simple: "own_outcome (Threw e)" "own_outcome Nothing_sent" "own_outcome Went_away" "own_outcome (Refused_with r) = api_error r" for e r
    by (auto simp: own_outcome_def)
  show ?thesis
  proof (cases "target_kind (sel_target sel) = LOCAL")
    case True
    show ?thesis
    proof (cases "charged_body q sel")
      case (Some db)
      obtain d body where db: "db = (d, body)" by (cases db)
      show ?thesis
      proof (cases "admission_check (env_settings (w_env w)) (sv_fit sv) (str_of (sv_py sv)) (gw_admission g) d body")
        case (Inr dec)
        then show ?thesis using True Some db send_own simple admission_refusal_ok [OF Inr] by (simp add: attempt_on_def Let_def)
      qed (use True Some db simple in \<open>simp add: attempt_on_def Let_def\<close>)
    qed (use True send_own in \<open>simp add: attempt_on_def Let_def\<close>)
  next
    case False
    have "own_outcome (Tried a)" if "forward_provider k n t p uid path body st c b port now h = (Turn_taken a, h')"
      for k t p uid path body st c b port now h h' a
      using provider_own [OF that] by (simp add: own_outcome_def)
    then show ?thesis using False send_own simple
      by (auto simp: attempt_on_def Let_def split: option.split sum.split prod.split provider_turn.split)
  qed
qed

definition own_ok :: "dispatched \<Rightarrow> bool" where
  "own_ok out \<longleftrightarrow> (\<forall>r. out = Answers (Own r) \<longrightarrow> api_error r)"

lemma offer_own: "own_ok (fst (offer sv q ws deadline ns tried prev g))"
proof (induction ns arbitrary: tried prev g)
  case (Cons n ns)
  obtain c tr1 g1 where claim: "claim sv q (ws n) n tried g = (c, tr1, g1)" by (metis surj_pair)
  show ?case
  proof (cases c)
    case (Claimed sel)
    obtain x g2 where att: "attempt_on sv q (ws n) sel n g1 = (x, g2)" by fastforce
    then have "own_outcome x" using attempt_own [of sv q "ws n" sel n g1] by simp
    then show ?thesis using Cons.IH claim Claimed att by (cases x) (auto simp: own_ok_def own_outcome_def split: option.split)
  qed (use Cons.IH claim in \<open>auto simp: own_ok_def\<close>)
qed (simp add: own_ok_def)

lemma dispatch_own: "own_ok (fst (dispatch sv q ws g))"
proof -
  obtain o1 tr g1 where o: "offer sv q ws (env_now (w_env (ws 0)) + failover_deadline_s (env_settings (w_env (ws 0))))
      [0..<nat (failover_max_attempts (env_settings (w_env (ws 0))))] [] None g = (o1, tr, g1)" by (metis surj_pair)
  then have "own_ok o1" using offer_own by (metis fst_conv)
  then show ?thesis using o
    by (auto simp: dispatch_def Let_def own_ok_def terminal_answer_def split: dispatched.splits option.splits)
qed

lemma refuse_nowhere_own: "own_ok (fst (refuse_nowhere q v g))"
  by (auto simp: own_ok_def refuse_nowhere_def nowhere_to_send_def Let_def split: prod.splits if_splits)

lemma own_on: "own_ok (fst r) \<Longrightarrow> (\<And>h. own_ok (fst (f h))) \<Longrightarrow> own_ok (fst (case r of (Gave_up x, _, h) \<Rightarrow> f h | out \<Rightarrow> out))"
  by (cases r; cases "fst r") auto

lemma second_chance_own: "own_ok (fst (second_chance sv q v g))"
proof -
  obtain ok r where p: "parkable (env_at (v_wait_env v) g) (q_model q) (gw_router g) = (ok, r)" by fastforce
  obtain won h where h: "v_parked v (with_router r g) = (won, h)" by fastforce
  show ?thesis unfolding second_chance_def using p h refuse_nowhere_own [of q v]
      own_on [OF dispatch_own, of "refuse_nowhere q v" sv q "v_second v" h] by (cases ok; cases won) simp_all
qed

lemma lookup_own: "fst (lookup_refusal env q r) = Some (e, x) \<Longrightarrow> api_error x"
  by (auto simp: lookup_refusal_def Let_def split: if_splits prod.splits option.splits)

lemma serve_own: "own_ok (fst (serve_request sv q v g))"
proof -
  obtain x rt where l: "lookup_refusal (env_at (v_env v) g) q (gw_router g) = (x, rt)" by fastforce
  show ?thesis
  proof (cases x)
    case None
    then show ?thesis unfolding serve_request_def Let_def l prod.case None option.case
      by (intro own_on dispatch_own second_chance_own)
  next
    case (Some y)
    obtain e a where y: "y = (e, a)" by (cases y)
    then have "api_error a" using lookup_own [of "env_at (v_env v) g" q "gw_router g" e a] l Some by simp
    then show ?thesis by (simp add: serve_request_def l Some y own_ok_def)
  qed
qed

end
