(* ===== verification/Provider_Port.thy ===== *)
theory Provider_Port
  imports Provider_Turn Serve_Promises
begin

text \<open>
  The providers port of the gateway on the provider service itself: \<open>resolve_key\<close> and \<open>open_upstream\<close> of
  \<open>control_plane/providers/service.py\<close> as \<open>gateway/openai_api.py\<close> and \<open>gateway/proxy.py\<close> call them, with the
  exceptions of \<open>control_plane/providers/errors.py\<close> as \<open>forward_provider\<close> catches them. The lemmas are what the
  gateway relies on: a refusal sends nothing, nothing is sent more than twice, what is sent carries the key of
  its own provider and no other, no error body holds that key, and the one exception that gets out is an
  \<open>OverflowError\<close>.
\<close>

declare map_of_eq_Some_iff [simp del]

section \<open>The port\<close>

text \<open>What \<open>forward_provider\<close> catches. \<open>note_rate_limit\<close> and \<open>_back_off\<close> raise \<open>OverflowError\<close>, which it does not;
  an unknown provider is one of the other \<open>ProviderError\<close>s, and no other error comes out of an opening (see
  \<open>opening_errors\<close>).\<close>

definition opened_of :: "service_error + opened_turn \<Rightarrow> opened" where
  "opened_of r = (case r of
     Inr ot \<Rightarrow> Opened (ot_status ot) (ot_headers ot) (ot_media ot)
   | Inl (Not_admitting_now pid why pause) \<Rightarrow> Not_admitting
   | Inl (Missing_key_error pid ref) \<Rightarrow> Missing_key
   | Inl (No_adapter_for pid why) \<Rightarrow> No_adapter (''provider '' @ quoted pid @ '': '' @ why)
   | Inl (Upstream_failed pid st message said pause) \<Rightarrow> Failed_upstream st message said pause
   | Inl Too_many_failures \<Rightarrow> Opening_raised OverflowError
   | Inl _ \<Rightarrow> Provider_trouble)"

text \<open>\<open>halt\<close> is a caller that is cancelled while the provider is being opened, when so many sends are out.\<close>

definition service_port :: "provider_host \<Rightarrow> rat \<Rightarrow> network \<Rightarrow> nat option \<Rightarrow> provider_service \<Rightarrow> provider_port" where
  "service_port h now net halt s =
     \<lparr>port_key = (\<lambda>pid. case dget (prs_entries s) pid of
        None \<Rightarrow> Inl (KeyError pid)
      | Some e \<Rightarrow> (case fst (resolve_key h pid e (prs_secrets s)) of Inl err \<Rightarrow> Inl (KeyError pid) | Inr key \<Rightarrow> Inr (Some key))),
      port_open = (\<lambda>pid uid body stream path. case open_turn h now pid uid body stream path net s of (r, s1) \<Rightarrow>
        let sends = map (\<lambda>(_, req). (pr_url req, pr_headers req, Fields (pr_payload req)))
              (drop (length (prs_wire s)) (prs_wire s1))
        in case halt of None \<Rightarrow> (opened_of r, sends) | Some n \<Rightarrow> (Opening_cancelled, take n sends))\<rparr>"

definition runs_service :: "provider_port \<Rightarrow> bool" where
  "runs_service port \<longleftrightarrow> (\<exists>h now net halt s. port = service_port h now net halt s)"

section \<open>How an opening ends\<close>

lemma pause_never_nan [simp]: "parse_retry_after hr v now \<noteq> Some Not_a_number"
proof -
  have "at_least_zero x \<noteq> Not_a_number" for x by (cases x) auto
  then show ?thesis by (auto simp: parse_retry_after_def Let_def split: option.splits if_splits)
qed

lemma send_errors:
  "fst (send h rd pid ref req left i net p) = Inl err \<Longrightarrow> err = Too_many_failures
     \<or> (\<exists>st m said pause. err = Upstream_failed pid st m said pause \<and> (said = [] \<or> (\<exists>raw. said = scrub rd raw))
          \<and> pause \<noteq> Some Not_a_number)"
proof (induction left arbitrary: i)
  case 0
  obtain now a where net: "net i req = (now, a)" by (cases "net i req")
  show ?case using 0 unfolding send.simps [of h rd pid ref req 0 i net p] net
    by (auto simp: note_raises_def Let_def split: upstream_answer.splits if_splits sum.splits)
next
  case (Suc left)
  obtain now a where net: "net i req = (now, a)" by (cases "net i req")
  show ?case using Suc.prems Suc.IH [of "i + 1"] unfolding send.simps [of h rd pid ref req "Suc left" i net p] net
    by (auto simp: note_raises_def Let_def split: upstream_answer.splits if_splits sum.splits)
qed

text \<open>An opening that was not admitted, and one that was: then one request is sent, at most twice.\<close>

lemma openings:
  obtains err s1 where "open_turn h now pid uid body stream endpoint net s = (Inl err, s1)" "prs_wire s1 = prs_wire s"
      "case err of Unknown_provider p \<Rightarrow> True | No_adapter_for p why \<Rightarrow> True | Not_admitting_now p why wait \<Rightarrow> True
         | Missing_key_error p ref \<Rightarrow> True | _ \<Rightarrow> False"
  | req s1 n where "prepare h now pid uid body stream endpoint s = (Inr req, s1)" "0 < n" "n \<le> 2"
      "prs_wire (snd (open_turn h now pid uid body stream endpoint net s)) = prs_wire s @ replicate n (pid, req)"
      "\<forall>err. fst (open_turn h now pid uid body stream endpoint net s) = Inl err \<longrightarrow> err = Too_many_failures
         \<or> (\<exists>st m said pause. err = Upstream_failed pid st m said pause \<and> (said = [] \<or> (\<exists>raw. said = scrub (redactor_of s1) raw))
              \<and> pause \<noteq> Some Not_a_number)"
proof -
  obtain r s1 where p: "prepare h now pid uid body stream endpoint s = (r, s1)" by fastforce
  show ?thesis
  proof (cases r)
    case (Inl err)
    have w: "prs_wire s1 = prs_wire s" using prepare_wire [of h now pid uid body stream endpoint s] by (simp add: p)
    have "case err of Unknown_provider p \<Rightarrow> True | No_adapter_for p why \<Rightarrow> True | Not_admitting_now p why wait \<Rightarrow> True
         | Missing_key_error p ref \<Rightarrow> True | _ \<Rightarrow> False"
      using p unfolding Inl prepare_def resolve_key_def Let_def by (auto split: option.splits if_splits sum.splits prod.splits)
    then show ?thesis using that(1) p w by (simp add: Inl open_turn_def)
  next
    case (Inr req)
    note p = p [unfolded Inr]
    obtain n where n: "0 < n" "n \<le> 2"
        "prs_wire (snd (open_turn h now pid uid body stream endpoint net s)) = prs_wire s @ replicate n (pid, req)"
      by (rule open_turn_wire [OF p, of net]) (simp add: SERVER_ERROR_RETRIES_def)
    obtain e where "dget (prs_entries s) pid = Some e" by (rule prepared [OF p])
    then have e: "dget (prs_entries s1) pid = Some e"
      using prepare_entries [of h now pid uid body stream endpoint s] by (simp add: p)
    obtain x q k where sent: "send h (redactor_of s1) pid (api_key_ref (pe_provider e)) req SERVER_ERROR_RETRIES 0 net
        (take_out uid (pe_live e)) = (x, q, k)" by (metis prod_cases3)
    have "fst (open_turn h now pid uid body stream endpoint net s) = Inl err \<Longrightarrow> x = Inl err" for err
      by (cases x) (auto simp: open_turn_def p e sent)
    then show ?thesis
      using send_errors [of h "redactor_of s1" pid "api_key_ref (pe_provider e)" req SERVER_ERROR_RETRIES 0 net
          "take_out uid (pe_live e)"]
      by (intro that(2) [OF p n]) (simp add: sent)
  qed
qed

lemma opening_errors:
  assumes "fst (open_turn h now pid uid body stream endpoint net s) = Inl err"
  shows "case err of Python e \<Rightarrow> False | Refused_request why \<Rightarrow> False | Leaked_key \<Rightarrow> False | _ \<Rightarrow> True"
  by (rule openings [of h now pid uid body stream endpoint net s]) (use assms in \<open>auto split: service_error.splits\<close>)

section \<open>What the gateway relies on\<close>

lemma service_port_honest: "honest (service_port h now net halt s)"
  unfolding honest_def
proof (intro allI)
  fix pid uid body stream path
  obtain r s1 where t: "open_turn h now pid uid body stream path net s = (r, s1)" by fastforce
  define sends where "sends = map (\<lambda>(_, req). (pr_url req, pr_headers req, Fields (pr_payload req)))
    (drop (length (prs_wire s)) (prs_wire s1))"
  have o: "port_open (service_port h now net halt s) pid uid body stream path
      = (case halt of None \<Rightarrow> (opened_of r, sends) | Some n \<Rightarrow> (Opening_cancelled, take n sends))"
    by (simp add: service_port_def t Let_def sends_def split: option.split)
  have few: "length sends \<le> 2"
    by (rule openings [of h now pid uid body stream path net s]) (simp_all add: t sends_def)
  have none: "sends = []" if "opened_of r = Not_admitting \<or> opened_of r = Provider_trouble"
    by (rule openings [of h now pid uid body stream path net s])
       (use that in \<open>auto simp: t sends_def opened_of_def split: sum.splits service_error.splits\<close>)
  show "case port_open (service_port h now net halt s) pid uid body stream path of (op, sends) \<Rightarrow>
      length sends \<le> 2 \<and> (op = Not_admitting \<or> op = Provider_trouble \<longrightarrow> sends = [])"
    unfolding o using few none by (auto split: option.split)
qed

lemma uncut_opening [simp]: "fst (port_open (service_port h now net None s) pid uid body stream path) \<noteq> Opening_cancelled"
  by (simp add: service_port_def opened_of_def Let_def split: prod.split sum.split service_error.split)

lemma runs_service_port [simp]: "runs_service (service_port h now net halt s)"
  unfolding runs_service_def by blast

lemma runs_service_honest: "runs_service port \<Longrightarrow> honest port"
  by (auto simp: runs_service_def service_port_honest)

lemma pause_overflow: "provider_headers pause = Inl e \<Longrightarrow> pause \<noteq> Some Not_a_number \<Longrightarrow> e = OverflowError"
  by (auto simp: provider_headers_def Let_def split: option.splits py_float.splits)

text \<open>Nothing but an \<open>OverflowError\<close> gets out of a turn: more failures in a row than a float has room for, or an
  infinite \<open>Retry-After\<close>.\<close>

lemma service_port_raises:
  assumes "port_raises (service_port h now net halt s) e"
  shows "e = OverflowError"
proof -
  obtain pid uid body stream path where c: "case fst (port_open (service_port h now net halt s) pid uid body stream path) of
       Opening_raised err \<Rightarrow> err = e
     | Failed_upstream st message said pause \<Rightarrow> provider_headers pause = Inl e
     | _ \<Rightarrow> False"
    using assms unfolding port_raises_def by blast
  obtain r s1 where t: "open_turn h now pid uid body stream path net s = (r, s1)" by fastforce
  have halt: "halt = None" using c by (auto simp: service_port_def t Let_def split: option.splits)
  then have c: "case opened_of r of Opening_raised err \<Rightarrow> err = e
     | Failed_upstream st message said pause \<Rightarrow> provider_headers pause = Inl e | _ \<Rightarrow> False"
    using c by (simp add: service_port_def t Let_def)
  show ?thesis
  proof (cases "opened_of r = Opening_raised OverflowError")
    case False
    then obtain p st m said pause where r: "r = Inl (Upstream_failed p st m said pause)" and h: "provider_headers pause = Inl e"
      using c by (auto simp: opened_of_def split: sum.splits service_error.splits)
    have "pause \<noteq> Some Not_a_number"
      by (rule openings [of h now pid uid body stream path net s]) (use r t in auto)
    then show ?thesis using pause_overflow [OF h] by blast
  qed (use c in simp)
qed

text \<open>The requests of a provider's turn carry no authorization but the key this provider's reference stands for.\<close>

lemma prepared_authorization:
  assumes "prepare h now pid uid body stream endpoint s = (Inr req, s1)" and "(name, v) \<in> set (pr_headers req)"
    and "str_lower name = ''authorization''"
  obtains e key where "dget (prs_entries s) pid = Some e" "fst (resolve_key h pid e (prs_secrets s)) = Inr key" "v = ''Bearer '' @ key"
proof -
  obtain e key ss where e: "dget (prs_entries s) pid = Some e" and k: "resolve_key h pid e (prs_secrets s) = (Inr key, ss)"
    and req: "pr_headers req = dset ''Accept'' (if stream then ''text/event-stream'' else ''application/json'')
       (dset ''Content-Type'' ''application/json'' (auth_headers (spec_of e) (Some key)))"
    by (rule prepared [OF assms(1)])
  have extra: "(n, x) \<notin> set (ks_extra_headers (spec_for kd))" if "str_lower n = ''authorization''" for n x kd
    using that by (cases kd) (auto simp: plain_spec_def str_lower_def lower_char_def)
  have "(name, v) \<in> set (auth_headers (spec_of e) (Some key))"
    using assms(2,3) unfolding req by (auto simp: str_lower_def lower_char_def dest!: dset_in)
  then have "v = ''Bearer '' @ key" using extra [OF assms(3)] assms(3)
    by (auto simp: auth_headers_def spec_of_def str_lower_def lower_char_def split: if_splits auth_style.splits dest!: dset_in)
  then show ?thesis using that e k by simp
qed

lemma service_port_sends:
  assumes "(url, hs, p) \<in> set (snd (port_open (service_port h now net halt s) pid uid body stream path))"
  obtains req s1 where "prepare h now pid uid body stream path s = (Inr req, s1)" "hs = pr_headers req"
    "url = pr_url req" "p = Fields (pr_payload req)"
proof -
  obtain r s1 where t: "open_turn h now pid uid body stream path net s = (r, s1)" by fastforce
  have x: "(url, hs, p) \<in> (\<lambda>(_, req). (pr_url req, pr_headers req, Fields (pr_payload req))) ` set (drop (length (prs_wire s)) (prs_wire s1))"
    using assms by (auto simp: service_port_def t Let_def split: option.splits dest: in_set_takeD)
  show ?thesis by (rule openings [of h now pid uid body stream path net s]) (use x t that in \<open>auto split: if_splits\<close>)
qed

lemma service_port_authorization:
  assumes "(url, hs, p) \<in> set (snd (port_open (service_port h now net halt s) pid uid body stream path))"
    and "(name, v) \<in> set hs" and "str_lower name = ''authorization''"
  obtains key where "port_key (service_port h now net halt s) pid = Inr (Some key)" "v = ''Bearer '' @ key"
proof -
  obtain req s1 where r: "prepare h now pid uid body stream path s = (Inr req, s1)" "hs = pr_headers req"
    by (rule service_port_sends [OF assms(1)])
  obtain e key where "dget (prs_entries s) pid = Some e" "fst (resolve_key h pid e (prs_secrets s)) = Inr key" "v = ''Bearer '' @ key"
    by (rule prepared_authorization [OF r(1) assms(2) [unfolded r(2)] assms(3)])
  then have "port_key (service_port h now net halt s) pid = Inr (Some key)" by (simp add: service_port_def)
  then show ?thesis using \<open>v = ''Bearer '' @ key\<close> by (rule that)
qed

text \<open>An error body that comes out of an opening does not hold the key the request was sent with.\<close>

lemma resolved_key_remembered:
  assumes "resolve_key h pid e ss = (Inr key, ss')" and "MIN_SCRUB_LEN \<le> length key"
  shows "key \<in> set (ss_redactor ss')"
  using assms unfolding resolve_key_def get_secret_def remembered_def remember_def Let_def
  by (auto simp: MIN_SCRUB_LEN_def split: if_splits option.splits prod.splits)

lemma service_port_hides:
  assumes "port_key (service_port h now net halt s) pid = Inr (Some key)" and "MIN_SCRUB_LEN \<le> length key" and "CHR ''*'' \<notin> set key"
    and "fst (port_open (service_port h now net halt s) pid uid body stream path) = Failed_upstream st m said pause"
  shows "\<not> str_contains key said"
proof -
  have key: "key \<noteq> []" using assms(2) by (auto simp: MIN_SCRUB_LEN_def)
  obtain r s1 where t: "open_turn h now pid uid body stream path net s = (r, s1)" by fastforce
  have "halt = None" using assms(4) by (auto simp: service_port_def t Let_def split: option.splits)
  then have r: "\<exists>p. r = Inl (Upstream_failed p st m said pause)"
    using assms(4) by (auto simp: service_port_def t Let_def opened_of_def split: sum.splits service_error.splits)
  obtain req s2 where p: "prepare h now pid uid body stream path s = (Inr req, s2)"
    and said: "said = [] \<or> (\<exists>raw. said = scrub (redactor_of s2) raw)"
    by (rule openings [of h now pid uid body stream path net s]) (use r t in auto)
  obtain e where e: "dget (prs_entries s) pid = Some e" by (rule prepared [OF p])
  have "key \<in> set (redactor_of s2)"
  proof -
    obtain ss where k: "resolve_key h pid e (prs_secrets s) = (Inr key, ss)"
      using assms(1) by (cases "resolve_key h pid e (prs_secrets s)") (auto simp: service_port_def e split: sum.splits)
    then have "redactor_of s2 = ss_redactor ss"
      using p unfolding prepare_def e by (auto simp: Let_def redactor_of_def split: if_splits)
    then show ?thesis using resolved_key_remembered [OF k assms(2)] by simp
  qed
  then show ?thesis using said scrub_hides [OF _ assms(3) key] key by (auto simp: str_contains_sublist)
qed

text \<open>So an attempt through the service holds it nowhere a backend's words are kept.\<close>

definition hides :: "string \<Rightarrow> attempt \<Rightarrow> bool" where
  "hides key a \<longleftrightarrow> \<not> str_contains key (at_body a)
     \<and> (case at_reply a of Some (Whole st h body) \<Rightarrow> \<not> str_contains key body | _ \<Rightarrow> True)"

lemma direct_hides:
  assumes "forward py parse k client n target (Some key) charge acc began ex g = (Some a, g1)"
    and "MIN_SCRUB_LEN \<le> length key" and "CHR ''*'' \<notin> set key"
  shows "hides key a"
proof -
  have key: "key \<noteq> []" using assms(2) by (auto simp: MIN_SCRUB_LEN_def)
  have clean: "\<not> str_contains key (scrub_upstream_body t (Some key))" for t
    unfolding scrub_upstream_body_def
    by (rule scrub_hides [OF _ assms(3) key]) (use assms(2) key in \<open>simp add: remember_def\<close>)
  show ?thesis
    using assms(1) clean key unfolding forward_def Let_def
    by (auto simp: hides_def not_reached_def broke_there_def answered_def str_contains_sublist
        split: sent.splits peek.splits option.splits if_splits)
qed

lemma provider_hides:
  assumes "forward_provider k n target pid uid path body streaming charge began (service_port h t net halt s) now g = (Turn_taken a, g1)"
    and "port_key (service_port h t net halt s) pid = Inr (Some key)" and "MIN_SCRUB_LEN \<le> length key" and "CHR ''*'' \<notin> set key"
  shows "hides key a"
proof -
  have key: "\<not> str_contains key []" using assms(3) by (auto simp: MIN_SCRUB_LEN_def str_contains_sublist)
  obtain op sends where op: "port_open (service_port h t net halt s) pid uid body streaming path = (op, sends)" by fastforce
  have clean: "\<not> str_contains key said" if "op = Failed_upstream st m said pause" for st m said pause
    using service_port_hides [OF assms(2-4), of uid body streaming path st m said pause] op that by simp
  show ?thesis using assms(1) clean key unfolding forward_provider_def Let_def op
    by (auto simp: hides_def not_reached_def broke_there_def answered_def
        split: opened.splits option.splits if_splits sum.splits)
qed

end
