(* ===== verification/Proxy_Cases.thy ===== *)
theory Proxy_Cases
  imports Proxy_Books
begin

text \<open>
  Runs of the proxy on concrete input: the witnesses of its properties, and the cases in which an attempt is
  never settled although its connection is gone.
\<close>

definition idle_gateway :: gateway where
  "idle_gateway = \<lparr>gw_router = new_router (Some (new_breaker 3 30)), gw_stats = [], gw_admission = new_admission,
     gw_budget = new_retry_budget (1 / 5) 60 3, gw_flights = [], gw_open = [], gw_closed = [], gw_clients = [],
     gw_gone_clients = [], gw_rows = [], gw_exits = [], gw_refusals = [], gw_sent = []\<rparr>"

definition one_exchange :: "sent \<Rightarrow> exchange" where
  "one_exchange sent = \<lparr>ex_sent = sent, ex_error_body = Some [], ex_peek = First_chunk, ex_at = 1\<rparr>"

abbreviation first_turn :: "exchange \<Rightarrow> gateway \<Rightarrow> attempt option \<times> gateway" where
  "first_turn ex g \<equiv> forward plain_text (\<lambda>s. None) 0 7 0 ''t'' None (Some (''d'', 100)) (new_accounting False False 0) 0 ex g"

lemma idle_books: "books_ok idle_gateway"
  by (simp add: books_ok_def idle_gateway_def unsettled_def stats_outstanding_def committed_def new_admission_def dget_or_def)

definition charged_gateway :: gateway where
  "charged_gateway = charge_kv (Some (''d'', 100)) idle_gateway"

lemma first_turn_later: "later idle_gateway (snd (first_turn ex charged_gateway))"
  unfolding charged_gateway_def by (rule forward_later) (simp_all add: idle_gateway_def)

theorem books_match_witness:
  "stats_outstanding (gw_stats (snd (first_turn (one_exchange (Answered 200 [])) charged_gateway))) ''t'' = 1
   \<and> committed (gw_admission (snd (first_turn (one_exchange (Answered 200 [])) charged_gateway))) ''d'' = 100"
proof -
  let ?g = "snd (first_turn (one_exchange (Answered 200 [])) charged_gateway)"
  have "unsettled ?g = [\<lparr>fl_target = ''t'', fl_began = 0, fl_charge = Some (''d'', 100), fl_finished = False\<rparr>]" by code_simp
  then show ?thesis using books_match [OF idle_books first_turn_later, of "one_exchange (Answered 200 [])"]
    by (simp add: charge_on_def)
qed


theorem verdict_is_evidence_witness:
  "failures (circuit_of (the (rt_breaker (gw_router (snd (first_turn (one_exchange (Unreachable ''ConnectError'')) charged_gateway))))) ''t'') = 1"
proof -
  let ?ex = "one_exchange (Unreachable ''ConnectError'')"
  obtain a where a: "first_turn ?ex charged_gateway = (Some a, snd (first_turn ?ex charged_gateway))"
    by (simp add: forward_def one_exchange_def Let_def)
  have b: "rt_breaker (gw_router charged_gateway) = Some (new_breaker 3 30)" by code_simp
  obtain b1 where b1: "rt_breaker (gw_router (snd (first_turn ?ex charged_gateway))) = Some b1"
    using forward_breaker [OF a] b by (simp add: one_exchange_def)
  show ?thesis using verdict_is_evidence [OF a b b1] b1
    by (simp add: one_exchange_def circuit_of_def new_breaker_def dget_or_def new_circuit_def)
qed

section \<open>Attempts that are never settled\<close>

text \<open>A response whose body is never started is closed by the janitor and taken off the list; its charge and
  its place in the outstanding count stay.\<close>

lemma unread_upstream_keeps_its_charge:
  "let g = reap 300 31 (snd (first_turn (one_exchange (Answered 200 [])) charged_gateway))
   in gw_open g = [] \<and> gw_closed g = [0] \<and> \<not> landed 0 g \<and> committed (gw_admission g) ''d'' = 100
      \<and> stats_outstanding (gw_stats g) ''t'' = 1"
  by code_simp

text \<open>A caller that goes away while the body of an error is read: the connection is closed, the attempt is not
  settled and its entry stays until the janitor comes.\<close>

lemma left_while_reading_an_error:
  "let (a, g) = first_turn (one_exchange (Answered 500 [])\<lparr>ex_error_body := None\<rparr>) charged_gateway
   in a = None \<and> gw_closed g = [0] \<and> \<not> landed 0 g \<and> committed (gw_admission g) ''d'' = 100"
  by code_simp

definition port_answering :: "opened \<Rightarrow> provider_port" where
  "port_answering op = \<lparr>port_key = (\<lambda>pid. Inr None), port_open = (\<lambda>pid uid body streaming path. (op, []))\<rparr>"

text \<open>A provider that is still being opened when the caller goes away is never settled either.\<close>

lemma left_while_opening_a_provider:
  "let (a, g) = forward_provider 0 0 ''t'' ''p'' ''m'' ''/chat/completions'' [] False None 0 (port_answering Opening_cancelled) 1
         idle_gateway
   in a = Turn_cancelled \<and> \<not> landed 0 g \<and> stats_outstanding (gw_stats g) ''t'' = 1"
  by code_simp

text \<open>An upstream that answers an error with \<open>Retry-After: inf\<close>: the exception of \<open>int()\<close> leaves the turn, after the
  upstream was called a success, and the attempt is never settled.\<close>

lemma endless_pause_escapes:
  "let (a, g) = forward_provider 0 0 ''t'' ''p'' ''m'' ''/chat/completions'' [] False None 0
         (port_answering (Failed_upstream 503 ''busy'' ''{}'' (Some Plus_inf))) 1 idle_gateway
   in a = Turn_raised OverflowError \<and> \<not> landed 0 g \<and> stats_outstanding (gw_stats g) ''t'' = 1"
  by code_simp

text \<open>A probe claimed for a send that is cancelled stays claimed: nothing is ever sent to the target again.\<close>

definition benched_breaker :: circuit_breaker where
  "benched_breaker = (new_breaker 3 30)\<lparr>circuits := [(''t'', \<lparr>failures = 3, opened_at = Some 0, probing = False\<rparr>)]\<rparr>"

definition probing_gateway :: gateway where
  "probing_gateway = idle_gateway\<lparr>gw_router := new_router (Some (snd (begin_send ''t'' 40 benched_breaker)))\<rparr>"

lemma cancelled_send_keeps_the_probe:
  "let b = the (rt_breaker (gw_router (snd (first_turn (one_exchange Send_cancelled) probing_gateway))))
   in probing (circuit_of b ''t'') \<and> \<not> fst (begin_send ''t'' 1000 b)"
  by code_simp

text \<open>The client of an origin is dropped by when it was last handed out: a stream that runs longer than the idle
  limit loses its client.\<close>

lemma running_stream_loses_its_client:
  "let (client, g) = client_for ''http://n1:8100/v1/chat/completions'' 0 7 idle_gateway;
       g = start_body 0 (snd (first_turn (one_exchange (Answered 200 [])) g));
       g = reap 300 300 g
   in client = 7 \<and> gw_gone_clients g = [7] \<and> map (\<lambda>(k, e). (ou_started e, ou_client e)) (gw_open g) = [(True, 7)]"
  by code_simp

text \<open>A client that leaves while a dead provider stream is looking for a replacement: the provider is told that
  the transfer finished, although nothing of it arrived.\<close>

lemma interrupted_handover_reads_as_finished:
  "let (out, g) = provider_stream_body plain_text (\<lambda>s. None) 0 0 ''t'' 200 (new_accounting False False 0)
         ([], Broke ''ReadError'' 9) (Some (\<lambda>g. (Interrupted, g))) idle_gateway
   in out = ([], False) \<and> gw_exits g = [(0, True)]"
  by code_simp

end
