(* ===== verification/Serve_Guarantees.thy ===== *)
theory Serve_Guarantees
  imports Provider_Port Proxy_Cases
begin

text \<open>
  What a request through the OpenAI surface can rely on, and two requests to show it by: one is offered to two
  replicas, of which the first cannot be reached and the second answers; the other goes through a provider that
  answers at the second send. The cases that end badly are at the end.
\<close>

declare map_of_eq_Some_iff [simp del]

section \<open>A request for a model with two replicas\<close>

definition two_replicas :: environment where
  "two_replicas = example_env\<lparr>env_dep_state := (\<lambda>d. READY)\<rparr>"

definition serving_gateway :: gateway where
  "serving_gateway = idle_gateway\<lparr>gw_router := example_router\<lparr>rt_breaker := Some (new_breaker 3 30)\<rparr>\<rparr>"

definition chat :: request where
  "chat = \<lparr>q_model = ''m'', q_path = ''/chat/completions'', q_body = Some [(''model'', JStr ''m'')], q_content = None,
     q_content_type = None, q_raw = ''{}'', q_streaming = False, q_headers = [(''authorization'', ''Bearer mine'')]\<rparr>"

definition plain_service :: service where
  "plain_service = \<lparr>sv_py = plain_text, sv_loads = (\<lambda>s. Undecodable), sv_frame = (\<lambda>s. None), sv_digest = (\<lambda>_. []),
     sv_fit = Some (\<lambda>_ _. Inr 1), sv_say = (\<lambda>_. []), sv_open_upstream = True\<rparr>"

definition try_world :: "sent \<Rightarrow> world" where
  "try_world answer = \<lparr>w_env = two_replicas, w_exchange = one_exchange answer,
     w_port = service_port plain_host 0 well None one_box, w_new_client = 7, w_after = 1\<rparr>"

definition first_fails :: "nat \<Rightarrow> world" where
  "first_fails n = (if n = 0 then try_world (Unreachable ''ConnectError'') else try_world (Answered 200 []))"

abbreviation failover :: "dispatched \<times> string list \<times> gateway" where
  "failover \<equiv> dispatch plain_service chat first_fails serving_gateway"

lemma failover_run:
  "case failover of (out, tried, g) \<Rightarrow> out = Answers (Passing 1 200 []) \<and> flown serving_gateway g = [''a'', ''b'']
     \<and> map (\<lambda>y. (wr_target y, wr_kind y, wr_headers y)) (gw_sent g)
        = map (\<lambda>t. (t, LOCAL, [(''content-type'', ''application/json''), (''authorization'', ''Bearer mine'')])) [''a'', ''b'']
     \<and> rt_breaker (gw_router g) \<noteq> None"
  by code_simp

lemma failover_answers:
  "fst failover = Answers (Passing 1 200 [])"
  "map (\<lambda>y. (wr_target y, wr_kind y, wr_headers y)) (gw_sent (snd (snd failover)))
     = map (\<lambda>t. (t, LOCAL, [(''content-type'', ''application/json''), (''authorization'', ''Bearer mine'')])) [''a'', ''b'']"
  "rt_breaker (gw_router (snd (snd failover))) \<noteq> None"
  using failover_run by (auto split: prod.splits)

lemma serving_numbered: "numbered serving_gateway"
  by (simp add: numbered_def serving_gateway_def idle_gateway_def)

lemma serving_sent: "gw_sent serving_gateway = []"
  by (simp add: serving_gateway_def idle_gateway_def)

lemma failover_split: "failover = (fst failover, fst (snd failover), snd (snd failover))"
  by simp

lemma plain_priced: "fairly_priced plain_service (first_fails n)"
  by (auto simp: fairly_priced_def prices_ok_def plain_service_def first_fails_def try_world_def two_replicas_def example_env_def
      default_settings_def adm_kv_bytes_per_token_def)

lemma plain_calm: "calm (first_fails n)"
  by (simp add: calm_def first_fails_def try_world_def one_exchange_def)

text \<open>A provider with a key, whose first answer is a 503 and whose second is the response.\<close>

definition keyed_provider :: provider where
  "keyed_provider = \<lparr>provider_id = ''box'', provider_kind = OPENAI, display_name = ''Box'', base_url = ''http://box/v1'',
     api_key_ref = ''BOX_KEY'', enabled = True, priority = 1, models = [], prov_healthy = True, prov_last_error = None,
     last_refreshed = 0\<rparr>"

definition keyed_box :: provider_service where
  "keyed_box = \<lparr>prs_entries = [(''box'', \<lparr>pe_provider = keyed_provider, pe_live = new_provider_live, pe_auto_disabled = False\<rparr>)],
     prs_secrets = \<lparr>ss_env = [(''BOX_KEY'', ''sk-1'')], ss_file = Absent, ss_redactor = []\<rparr>, prs_file = Absent,
     prs_dirty = False, prs_persisted_at = 0, prs_wire = []\<rparr>"

definition stumbling :: network where
  "stumbling i req = (of_nat i, if i = 0 then Answer 503 [] [] else Answer 200 [] [])"

definition remote_world :: "nat \<Rightarrow> world" where
  "remote_world n = (try_world (Answered 200 []))\<lparr>w_port := service_port plain_host 0 stumbling None keyed_box\<rparr>"

definition remote_gateway :: gateway where
  "remote_gateway = serving_gateway\<lparr>gw_router := (gw_router serving_gateway)\<lparr>rt_index := empty_index
     \<lparr>ix_targets := [(''m'', [(replica ''box/m'' 1)\<lparr>target_kind := REMOTE, target_url := ''http://box/v1''\<rparr>])],
      ix_remotes := [(''box/m'', keyed_provider, \<lparr>pm_served_name = ''m'', upstream_id = ''up-m'', pm_context_length = 8192,
        supports_streaming = True, supports_tools = False, input_cost_per_mtok = None, output_cost_per_mtok = None,
        pm_modality = TEXT\<rparr>)]\<rparr>\<rparr>\<rparr>"

abbreviation through_box :: "dispatched \<times> string list \<times> gateway" where
  "through_box \<equiv> dispatch plain_service chat remote_world remote_gateway"

lemma through_box_run:
  "case through_box of (out, tried, g) \<Rightarrow> out = Answers (Passing 0 200 []) \<and>
     map (\<lambda>y. (wr_target y, wr_kind y, wr_provider y, wr_managed y, dget (wr_headers y) ''Authorization'')) (gw_sent g)
       = replicate 2 (''box/m'', REMOTE, Some ''box'', True, Some ''Bearer sk-1'')"
  by code_simp

lemma through_box_split: "through_box = (Answers (Passing 0 200 []), fst (snd through_box), snd (snd through_box))"
  and through_box_sent: "map (\<lambda>y. (wr_target y, wr_kind y, wr_provider y, wr_managed y, dget (wr_headers y) ''Authorization''))
     (gw_sent (snd (snd through_box))) = replicate 2 (''box/m'', REMOTE, Some ''box'', True, Some ''Bearer sk-1'')"
  using through_box_run by (auto split: prod.splits)

lemma remote_numbered: "numbered remote_gateway" "gw_sent remote_gateway = []"
  using serving_numbered serving_sent by (simp_all add: numbered_def remote_gateway_def)

lemma ports_run_the_service: "\<forall>n. runs_service (w_port (first_fails n))" "\<forall>n. runs_service (w_port (remote_world n))"
  by (simp_all add: first_fails_def try_world_def remote_world_def)

definition one_visit :: visit where
  "one_visit = \<lparr>v_id = ''r-1'', v_env = two_replicas, v_first = first_fails, v_wait_env = two_replicas, v_lot = new_lot,
     v_parked = (\<lambda>g. (False, g)), v_second = first_fails, v_last_env = two_replicas\<rparr>"

section \<open>Guarantees\<close>

text \<open>What a pass put on the network.\<close>

definition sent_since :: "gateway \<Rightarrow> gateway \<Rightarrow> wire list" where
  "sent_since g g' = drop (length (gw_sent g)) (gw_sent g')"



text \<open>C12: a request is refused for want of a target, or parked to be offered again, only when nothing of it was
  sent on either road, to a target or by a provider's service: what was sent once is never sent a second time
  behind the client's back.\<close>

theorem parked_only_if_unsent:
  assumes "dispatch sv q ws g = (Gave_up x, tried, g')" and "numbered g" and "\<forall>n. runs_service (w_port (ws n))"
  shows "x = None \<and> gw_sent g' = gw_sent g"
proof -
  have hon: "\<forall>n. honest (w_port (ws n))" using assms(3) runs_service_honest by blast
  note o = dispatch_offered [OF assms(1,2) sends_anything, where hon = True, OF hon]
  have "x = None" using o by (cases x) auto
  then show ?thesis using o by (auto simp: offered_def)
qed

text \<open>The provider of the model is switched off: its road is taken, and refused.\<close>

definition closed_world :: "nat \<Rightarrow> world" where
  "closed_world n = (try_world (Answered 200 []))\<lparr>w_port := service_port plain_host 0 stumbling None
     (put_entry ''box'' \<lparr>pe_provider = keyed_provider\<lparr>enabled := False\<rparr>, pe_live = new_provider_live, pe_auto_disabled = False\<rparr>
        keyed_box)\<rparr>"

theorem parked_only_if_unsent_witness:
  "gw_sent (snd (snd (dispatch plain_service chat closed_world remote_gateway))) = []"
proof -
  let ?d = "dispatch plain_service chat closed_world remote_gateway"
  have "fst ?d = Gave_up None" by code_simp
  then have d: "?d = (Gave_up None, fst (snd ?d), snd (snd ?d))" by (metis prod.collapse)
  have p: "\<forall>n. runs_service (w_port (closed_world n))" by (simp add: closed_world_def)
  from parked_only_if_unsent [OF d remote_numbered(1) p] show ?thesis by (simp add: remote_numbered)
qed



text \<open>C14: a request that got its answer leaves no probe out: for every target the breaker holds as many claimed
  probes as before, so no target is kept from serving by a request that is over.\<close>

theorem no_probe_left_out:
  assumes "dispatch sv q ws g = (out, tried, g')" and "numbered g" and "settled_out out"
    and "rt_breaker (gw_router g) = Some b" and "rt_breaker (gw_router g') = Some b'" and "probing (circuit_of b' u)"
  shows "probing (circuit_of b u)"
proof -
  have "probes g' \<subseteq> probes g" using dispatch_offered [OF assms(1,2) sends_anything, where hon = False] assms(3) by (simp add: offered_def)
  then show ?thesis using assms(4-6) by (auto simp: router_probes_def)
qed

theorem no_probe_left_out_witness:
  "\<not> probing (circuit_of (the (rt_breaker (gw_router (snd (snd failover))))) ''a'')"
proof
  assume p: "probing (circuit_of (the (rt_breaker (gw_router (snd (snd failover))))) ''a'')"
  have s: "settled_out (fst failover)" by (simp add: failover_answers settled_out_def)
  have b: "rt_breaker (gw_router serving_gateway) = Some (new_breaker 3 30)" by (simp add: serving_gateway_def)
  have b': "rt_breaker (gw_router (snd (snd failover))) = Some (the (rt_breaker (gw_router (snd (snd failover)))))"
    using failover_answers(3) by simp
  show False using no_probe_left_out [OF failover_split serving_numbered s b b' p]
    by (simp add: circuit_of_def new_breaker_def dget_or_def new_circuit_def)
qed




lemma serving_books: "books_ok serving_gateway"
  using idle_books by (simp add: books_ok_def serving_gateway_def unsettled_def)


text \<open>C36: what the JSON and upload routes of the OpenAI surface answer in the gateway's own name is an error
  object of the API, an object whose error has a message, a type, a null parameter and a code, in this order,
  under one of six statuses: the refusals of a body that cannot be read as a request, and every answer to a
  request that could be read but those that are a backend's.\<close>

theorem own_answers_are_api_errors:
  "(case read_json sv s path streaming h chunks of Refuse_read r \<Rightarrow> api_error r | _ \<Rightarrow> True)
   \<and> (case read_upload s path h chunks of Refuse_read r \<Rightarrow> api_error r | _ \<Rightarrow> True)
   \<and> (case serve_request sv q v g of (Answers (Own r), tried, g') \<Rightarrow> api_error r | _ \<Rightarrow> True)"
proof (intro conjI)
  show "case read_json sv s path streaming h chunks of Refuse_read r \<Rightarrow> api_error r | _ \<Rightarrow> True"
    by (auto simp: read_json_def Let_def split: option.split parsed.split json.split read_request.split if_splits)
  show "case read_upload s path h chunks of Refuse_read r \<Rightarrow> api_error r | _ \<Rightarrow> True"
    by (auto simp: read_upload_def Let_def split: option.split read_request.split if_splits)
  show "case serve_request sv q v g of (Answers (Own r), tried, g') \<Rightarrow> api_error r | _ \<Rightarrow> True"
    using serve_own [of sv q v g] by (auto simp: own_ok_def split: prod.split dispatched.split reply.split)
qed

text \<open>C29: the body of an error is scrubbed of the key it was asked with, on both roads, when the key is long enough
  to be scrubbed and holds no star: neither the body kept for a replay nor the one given to the client holds
  it, wherever the backend put it.\<close>

theorem forwarded_errors_hide_the_key:
  assumes "MIN_SCRUB_LEN \<le> length key" and "CHR ''*'' \<notin> set key"
  shows "(fst (forward py parse k client n target (Some key) charge acc began ex g) = Some a \<longrightarrow> hides key a)
    \<and> (port_key (service_port h t net halt s) pid = Inr (Some key) \<longrightarrow>
        fst (forward_provider k n target pid uid path body streaming charge began (service_port h t net halt s) now g) = Turn_taken a
        \<longrightarrow> hides key a)"
  using direct_hides [OF _ assms] provider_hides [OF _ _ assms] by (metis prod.collapse)

text \<open>A provider that answers a 500 with the key in the body.\<close>

definition telling :: network where
  "telling i req = (of_nat i, Answer 500 [] ''bad key sk-12345678'')"

definition long_keyed_box :: provider_service where
  "long_keyed_box = keyed_box\<lparr>prs_secrets := \<lparr>ss_env = [(''BOX_KEY'', ''sk-12345678'')], ss_file = Absent, ss_redactor = []\<rparr>\<rparr>"

abbreviation telling_port :: provider_port where
  "telling_port \<equiv> service_port plain_host 0 telling None long_keyed_box"

lemma telling_port_key: "port_key telling_port ''box'' = Inr (Some ''sk-12345678'')"
  by (simp add: service_port_def long_keyed_box_def keyed_box_def keyed_provider_def resolve_key_def get_secret_def)

lemma telling_opening:
  "\<exists>m said. fst (port_open telling_port ''box'' ''up-m'' [] False ''/chat/completions'') = Failed_upstream 500 m said None"
  by (simp add: service_port_def open_turn_def prepare_def long_keyed_box_def keyed_box_def keyed_provider_def spec_of_def plain_spec_def
      new_provider_live_def allowed_model_def rate_limited_def over_budget_def resolve_key_def get_secret_def send.simps telling_def
      SERVER_ERROR_RETRIES_def take_out_def note_raises_def note_server_error_def back_off_def backoff_seconds_def answer_header_def
      parse_retry_after_def plain_host_def opened_of_def Let_def)

lemma telling_turn:
  "\<exists>a. fst (forward_provider 0 0 ''box/m'' ''box'' ''up-m'' ''/chat/completions'' [] False None 0 telling_port 0 idle_gateway)
     = Turn_taken a"
  using telling_opening
  by (auto simp: forward_provider_def synthetic_transport_error_class_def provider_headers_def Let_def split: prod.split)

theorem forwarded_errors_hide_the_key_witness:
  "hides ''sk-12345678'' (the (fst (forward plain_text (\<lambda>s. None) 0 7 0 ''t'' (Some ''sk-12345678'') None
     (new_accounting False False 0) 0 ((one_exchange (Answered 500 []))\<lparr>ex_error_body := Some [''key sk-12'', ''345678 bad'']\<rparr>)
     idle_gateway)))
   \<and> (\<exists>a. fst (forward_provider 0 0 ''box/m'' ''box'' ''up-m'' ''/chat/completions'' [] False None 0 telling_port 0 idle_gateway)
        = Turn_taken a \<and> hides ''sk-12345678'' a)"
proof -
  let ?ex = "(one_exchange (Answered 500 []))\<lparr>ex_error_body := Some [''key sk-12'', ''345678 bad'']\<rparr>"
  obtain a where f: "fst (forward plain_text (\<lambda>s. None) 0 7 0 ''t'' (Some ''sk-12345678'') None (new_accounting False False 0) 0 ?ex
      idle_gateway) = Some a" by (simp add: forward_def one_exchange_def Let_def)
  have k: "MIN_SCRUB_LEN \<le> length ''sk-12345678''" "CHR ''*'' \<notin> set ''sk-12345678''" by (simp_all add: MIN_SCRUB_LEN_def)
  note hide = forwarded_errors_hide_the_key [OF k]
  obtain b where b: "fst (forward_provider 0 0 ''box/m'' ''box'' ''up-m'' ''/chat/completions'' [] False None 0 telling_port 0 idle_gateway)
      = Turn_taken b" using telling_turn by blast
  have "hides ''sk-12345678'' b" using conjunct2 [OF hide] telling_port_key b by blast
  moreover have "hides ''sk-12345678'' a" using conjunct1 [OF hide] f by blast
  ultimately show ?thesis using f b by simp
qed

section \<open>Cases that end badly\<close>

text \<open>A provider that answers a 503 with \<open>Retry-After: inf\<close>, twice: the pause reaches the gateway, and the request
  ends in the exception of \<open>int()\<close>, its attempt unsettled. It is the case that \<open>requests_are_answered\<close> sets apart.\<close>

definition endless :: network where
  "endless i req = (of_nat i, Answer 503 [(''retry-after'', ''inf'')] [])"

definition endless_host :: provider_host where
  "endless_host = plain_host\<lparr>ph_reader := \<lparr>to_float = (\<lambda>s. Some Plus_inf), to_date = (\<lambda>s. None)\<rparr>\<rparr>"

lemma endless_pause_reaches_the_gateway:
  "\<exists>m said. fst (port_open (service_port endless_host 0 endless None keyed_box) ''box'' ''up-m'' [] False ''/chat/completions'')
     = Failed_upstream 503 m said (Some Plus_inf)"
  by (simp add: service_port_def open_turn_def prepare_def keyed_box_def keyed_provider_def spec_of_def plain_spec_def
      new_provider_live_def allowed_model_def rate_limited_def over_budget_def resolve_key_def get_secret_def send.simps endless_def
      SERVER_ERROR_RETRIES_def take_out_def note_raises_def note_server_error_def back_off_def backoff_seconds_def answer_header_def
      str_lower_def lower_char_def parse_retry_after_def endless_host_def plain_host_def opened_of_def Let_def)

lemma endless_pause_ends_the_request:
  "let (out, tried, g) = dispatch plain_service chat
         (\<lambda>n. (try_world (Answered 200 []))\<lparr>w_port := port_answering (Failed_upstream 503 ''busy'' ''{}'' (Some Plus_inf))\<rparr>) remote_gateway
   in out = Raised OverflowError \<and> \<not> landed 0 g \<and> stats_outstanding (gw_stats g) ''box/m'' = 1"
  by code_simp

text \<open>A replacement of another content type is refused after it was opened: nothing closes or settles it.\<close>

lemma refused_replacement_is_never_settled:
  "let (x, g) = reopen_from plain_service chat (try_world (Answered 200 [(''content-type'', ''text/html'')])) [''a''] 0
         (Some ''application/json'') ([], Ended 3) serving_gateway
   in (case x of No_replacement \<Rightarrow> True | _ \<Rightarrow> False) \<and> dkeys (gw_open g) = [0] \<and> \<not> landed 0 g \<and> gw_closed g = []"
  by code_simp

text \<open>A target whose one probe is already out uses up the first attempt: the request then needs a retry from the
  budget although it was never sent, and is refused when the budget is empty, with a healthy replica there.\<close>

definition probing_elsewhere :: gateway where
  "probing_elsewhere = serving_gateway\<lparr>gw_budget := new_retry_budget 0 60 0,
     gw_router := (gw_router serving_gateway)\<lparr>rt_breaker := Some ((new_breaker 3 30)
       \<lparr>circuits := [(''a'', \<lparr>failures = 3, opened_at = Some (-100), probing = True\<rparr>)]\<rparr>)\<rparr>\<rparr>"

lemma skipped_target_costs_a_retry:
  "let (x, tried, g) = dispatch plain_service chat (\<lambda>n. try_world (Answered 200 [])) probing_elsewhere
   in x = Gave_up None \<and> gw_sent g = [] \<and> refused (gw_budget g) = 1"
  by code_simp

end
