(* ===== verification/Provider_Admin.thy ===== *)
theory Provider_Admin
  imports Provider_Turn
begin

text \<open>
  What an operator does to a provider, \<open>control_plane/providers/service.py\<close>: adding one, changing one field by
  field, removing one and reading its catalogue again; the screens that keep key material out of what is
  shown, and what an edit leaves behind when it is refused half way.
\<close>

section \<open>Screens\<close>

definition screen_free_text :: "string \<Rightarrow> string \<Rightarrow> service_error option" where
  "screen_free_text v what =
     (if looks_like_secret v then Some (Refused_request (Msg ''looks like it contains key material'' [S what])) else None)"

fun screen_aliases :: "(string, string) dict \<Rightarrow> service_error option" where
  "screen_aliases [] = None"
| "screen_aliases ((k, v) # al) =
     (case screen_free_text k ''aliases key'' of
        Some e \<Rightarrow> Some e
      | None \<Rightarrow> (case screen_free_text v ''aliases'' of Some e \<Rightarrow> Some e | None \<Rightarrow> screen_aliases al))"

definition KEY_IN_REF_FIELD :: msg where "KEY_IN_REF_FIELD = Msg ''api_key_ref must be a name'' []"

text \<open>Ids a provider does not publish, in order.\<close>

definition unpublished :: "provider_entry \<Rightarrow> string list \<Rightarrow> string list" where
  "unpublished e ids = sort (remdups (filter (\<lambda>i. i \<notin> upstream_id ` set (models (pe_provider e))) ids))"

definition not_published :: "provider_entry \<Rightarrow> string list \<Rightarrow> service_error" where
  "not_published e ids = Refused_request (Msg ''does not publish''
     (S (provider_id (pe_provider e)) # map S (take 3 ids) @ [I (int (length ids - 3))]))"

definition screen_allowlist :: "py_text \<Rightarrow> provider_entry \<Rightarrow> json \<Rightarrow> service_error + string list" where
  "screen_allowlist py e j =
     (case (if truth_of j then elements_of j else Inr []) of
        Inl err \<Rightarrow> Inl (Python err)
      | Inr xs \<Rightarrow>
        let wanted = remdups (map (str_of py) xs); unknown = unpublished e wanted
        in if unknown \<noteq> [] then Inl (not_published e unknown) else Inr wanted)"

definition merge_pins :: "(string, string) dict \<Rightarrow> (string, string) dict \<Rightarrow> (string, string) dict" where
  "merge_pins ups pins = foldl (\<lambda>d (uid, tag). if tag \<noteq> [] then dset uid tag d else dpop uid d) pins ups"

definition screen_backend_pins :: "py_text \<Rightarrow> provider_entry \<Rightarrow> json \<Rightarrow> service_error + (string, string) dict" where
  "screen_backend_pins py e j =
     (if \<not> ks_backend_routing (spec_of e)
      then Inl (Refused_request (Msg ''does not aggregate backend hosts'' [S (provider_id (pe_provider e))]))
      else case text_items py j of
          Inl err \<Rightarrow> Inl (Python err)
        | Inr ups \<Rightarrow>
          let unknown = unpublished e (dkeys ups)
          in if unknown \<noteq> [] then Inl (not_published e unknown) else Inr (merge_pins ups (lv_backend_pins (pe_live e))))"

definition apply_aliases :: "(string, string) dict \<Rightarrow> provider_model list \<Rightarrow> provider_model list" where
  "apply_aliases al ms =
     sort_key pm_served_name (map (\<lambda>m. m\<lparr>pm_served_name := dget_or al (upstream_id m) (upstream_id m)\<rparr>) ms)"

section \<open>Changing a provider\<close>

text \<open>A step on the entry and the secrets; after one that raises nothing more runs, and what was written stays.\<close>

type_synonym edit = "with_secrets \<Rightarrow> service_error option \<times> with_secrets"

definition and_then :: "edit \<Rightarrow> edit \<Rightarrow> edit" where
  "and_then f g w = (case f w of (Some e, w) \<Rightarrow> (Some e, w) | (None, w) \<Rightarrow> g w)"

definition edit_provider :: "(provider \<Rightarrow> provider) \<Rightarrow> edit" where
  "edit_provider f w = (None, (fst w)\<lparr>pe_provider := f (pe_provider (fst w))\<rparr>, snd w)"

definition edit_live :: "(provider_live \<Rightarrow> provider_live) \<Rightarrow> edit" where
  "edit_live f w = (None, (fst w)\<lparr>pe_live := f (pe_live (fst w))\<rparr>, snd w)"

definition refuse :: "service_error \<Rightarrow> edit" where
  "refuse e w = (Some e, w)"

definition when_given :: "json_object \<Rightarrow> string \<Rightarrow> (json \<Rightarrow> edit) \<Rightarrow> edit" where
  "when_given patch k f w = (case dget patch k of None \<Rightarrow> (None, w) | Some j \<Rightarrow> f j w)"

definition or_refuse :: "'a result \<Rightarrow> ('a \<Rightarrow> edit) \<Rightarrow> edit" where
  "or_refuse r f = (case r of Inl e \<Rightarrow> refuse (Python e) | Inr x \<Rightarrow> f x)"

definition set_enabled :: "json \<Rightarrow> edit" where
  "set_enabled j w = (None, (fst w)\<lparr>pe_provider := (pe_provider (fst w))\<lparr>enabled := truth_of j\<rparr>, pe_auto_disabled := False\<rparr>, snd w)"

definition set_budget :: "py_text \<Rightarrow> json \<Rightarrow> edit" where
  "set_budget py j = (if j = JNull then edit_live (\<lambda>p. p\<lparr>lv_budget := None\<rparr>)
     else or_refuse (float_of py j) (\<lambda>x. edit_live (\<lambda>p. p\<lparr>lv_budget := Some x\<rparr>)))"

definition set_display_name :: "py_text \<Rightarrow> json \<Rightarrow> edit" where
  "set_display_name py j = (let n = str_of py j in
     case screen_free_text n ''display_name'' of Some e \<Rightarrow> refuse e | None \<Rightarrow> edit_provider (\<lambda>p. p\<lparr>display_name := n\<rparr>))"

definition set_base_url :: "py_text \<Rightarrow> json \<Rightarrow> edit" where
  "set_base_url py j = (let u = str_strip (str_of py j) in
     if looks_like_secret u then refuse (Refused_request (Msg ''base_url looks like it contains key material'' []))
     else edit_provider (\<lambda>p. p\<lparr>base_url := u\<rparr>))"

definition set_key_ref :: "py_text \<Rightarrow> json \<Rightarrow> edit" where
  "set_key_ref py j = (let r = str_strip (str_of py j) in
     if looks_like_secret r then refuse (Refused_request KEY_IN_REF_FIELD) else edit_provider (\<lambda>p. p\<lparr>api_key_ref := r\<rparr>))"

definition set_key :: "provider_host \<Rightarrow> string \<Rightarrow> bool \<Rightarrow> json \<Rightarrow> edit" where
  "set_key h pid ref_given j w =
     (let (e, ss) = w; key = str_strip (if truth_of j then str_of (ph_py h) j else []); ss = remembered (Some key) ss in
      if key = [] then (Some (Refused_request (Msg ''api_key must not be empty'' [])), e, ss)
      else let ref = api_key_ref (pe_provider e);
               ref = (if \<not> ref_given \<and> ref \<noteq> minted_ref pid then minted_ref pid else ref)
        in case store_key h ref key ss of
             (Some err, ss) \<Rightarrow> (Some err, e, ss)
           | (None, ss) \<Rightarrow> (None, e\<lparr>pe_provider := (pe_provider e)\<lparr>api_key_ref := ref\<rparr>\<rparr>, ss))"

definition set_aliases :: "py_text \<Rightarrow> json \<Rightarrow> edit" where
  "set_aliases py j = or_refuse (text_items py j) (\<lambda>al. case screen_aliases al of
     Some e \<Rightarrow> refuse e
   | None \<Rightarrow> and_then (edit_live (\<lambda>p. p\<lparr>lv_aliases := al\<rparr>)) (edit_provider (\<lambda>p. p\<lparr>models := apply_aliases al (models p)\<rparr>)))"

definition set_allowlist :: "py_text \<Rightarrow> json \<Rightarrow> edit" where
  "set_allowlist py j w = (case screen_allowlist py (fst w) j of
     Inl e \<Rightarrow> (Some e, w) | Inr ids \<Rightarrow> edit_live (\<lambda>p. p\<lparr>lv_enabled_models := Some ids\<rparr>) w)"

definition set_pins :: "py_text \<Rightarrow> json \<Rightarrow> edit" where
  "set_pins py j w = (case screen_backend_pins py (fst w) j of
     Inl e \<Rightarrow> (Some e, w) | Inr pins \<Rightarrow> edit_live (\<lambda>p. p\<lparr>lv_backend_pins := pins\<rparr>) w)"

definition recheck :: "provider_host \<Rightarrow> edit" where
  "recheck h w = (if enabled (pe_provider (fst w)) \<or> pe_auto_disabled (fst w) then (None, snd (check_key h w)) else (None, w))"

definition edits :: "provider_host \<Rightarrow> string \<Rightarrow> json_object \<Rightarrow> edit list" where
  "edits h pid patch =
     (let py = ph_py h in
     [when_given patch ''enabled'' set_enabled,
      when_given patch ''priority'' (\<lambda>j. or_refuse (int_of py j) (\<lambda>n. edit_provider (\<lambda>p. p\<lparr>priority := n\<rparr>))),
      when_given patch ''display_name'' (set_display_name py),
      when_given patch ''daily_budget_usd'' (set_budget py),
      when_given patch ''base_url'' (set_base_url py),
      when_given patch ''api_key_ref'' (set_key_ref py),
      when_given patch ''api_key'' (set_key h pid (dget patch ''api_key_ref'' \<noteq> None)),
      when_given patch ''aliases'' (set_aliases py),
      when_given patch ''enabled_models'' (set_allowlist py),
      when_given patch ''backend_pins'' (set_pins py),
      recheck h])"

definition run_edits :: "edit list \<Rightarrow> edit" where
  "run_edits fs = foldr and_then fs (\<lambda>w. (None, w))"

definition update_provider ::
  "provider_host \<Rightarrow> rat \<Rightarrow> string \<Rightarrow> json_object \<Rightarrow> provider_service \<Rightarrow> service_error option \<times> provider_service" where
  "update_provider h now pid patch s =
     (case dget (prs_entries s) pid of
        None \<Rightarrow> (Some (Unknown_provider pid), s)
      | Some e \<Rightarrow>
        (case run_edits (edits h pid patch) (e, prs_secrets s) of
           (Some err, e, ss) \<Rightarrow> (Some err, (put_entry pid e s)\<lparr>prs_secrets := ss\<rparr>)
         | (None, e, ss) \<Rightarrow> persist h now ((put_entry pid e s)\<lparr>prs_secrets := ss\<rparr>)))"

section \<open>Adding and removing\<close>

text \<open>The first of \<open>base\<close>, \<open>base-2\<close>, \<open>base-3\<close>, ... not used; one of the first \<open>n + 1\<close> is free when \<open>n\<close> are used.\<close>

fun mint_from :: "nat \<Rightarrow> string \<Rightarrow> nat \<Rightarrow> string list \<Rightarrow> string" where
  "mint_from 0 base n used = base @ ''-'' @ show_int (int n)"
| "mint_from (Suc k) base n used =
     (let c = base @ ''-'' @ show_int (int n) in if c \<in> set used then mint_from k base (n + 1) used else c)"

definition id_char :: "char \<Rightarrow> bool" where
  "id_char c \<longleftrightarrow> is_alnum c \<and> \<not> (65 \<le> (of_char c :: nat) \<and> (of_char c :: nat) \<le> 90) \<or> c \<in> set ''._-''"

definition mint_id :: "provider_kind \<Rightarrow> string list \<Rightarrow> string" where
  "mint_id k used =
     (let base = strip_ends (CHR ''-'') (squeeze id_char (CHR ''-'') False (str_lower (provider_kind_value k)));
          base = (if base = [] then ''provider'' else base)
      in if base \<notin> set used then base else mint_from (length used) base 2 used)"

definition given :: "py_text \<Rightarrow> json_object \<Rightarrow> string \<Rightarrow> string" where
  "given py d k = str_strip (let j = got d k in if truth_of j then str_of py j else [])"

definition register ::
  "provider_host \<Rightarrow> rat \<Rightarrow> json_object \<Rightarrow> provider_service \<Rightarrow> (service_error + string) \<times> provider_service" where
  "register h now spec s =
     (let py = ph_py h in
      case enum_of provider_kind_value all_provider_kinds (dget_or spec ''kind'' (JStr ''custom'')) of
        Inl err \<Rightarrow> (Inl (Python err), s)
      | Inr pk \<Rightarrow>
        let ks = spec_for pk;
            url = (let j = got spec ''base_url'' in str_strip (if truth_of j then str_of py j else ks_base_url ks))
        in if url = [] then (Inl (Refused_request (Msg ''needs a base_url'' [])), s)
        else if looks_like_secret url then (Inl (Refused_request (Msg ''base_url looks like it contains key material'' [])), s)
        else
          let key = given py spec ''api_key''; s = s\<lparr>prs_secrets := remembered (Some key) (prs_secrets s)\<rparr>;
              ref = given py spec ''api_key_ref''
          in if looks_like_secret ref then (Inl (Refused_request KEY_IN_REF_FIELD), s)
          else if ks_requires_key ks \<and> ref = [] \<and> key = [] then (Inl (Refused_request (Msg ''needs an api_key'' [])), s)
          else
            let pid = (let p = given py spec ''provider_id'' in if p \<noteq> [] then p else mint_id pk (dkeys (prs_entries s)))
            in if dget (prs_entries s) pid \<noteq> None then (Inl (Refused_request (Msg ''already exists'' [S pid])), s)
            else
              let shown = (let j = got spec ''display_name'' in if truth_of j then str_of py j else ks_display_name ks)
              in case text_items py (got spec ''aliases'') of
                 Inl err \<Rightarrow> (Inl (Python err), s)
               | Inr al \<Rightarrow>
                 (case screen_free_text shown ''display_name'' of
                    Some err \<Rightarrow> (Inl err, s)
                  | None \<Rightarrow>
                    (case screen_aliases al of
                       Some err \<Rightarrow> (Inl err, s)
                     | None \<Rightarrow>
                       let ref' = (if key \<noteq> [] \<and> ref = [] then minted_ref pid else ref);
                           (err, ss) = (if key \<noteq> [] then store_key h ref' key (prs_secrets s) else (None, prs_secrets s));
                           s = s\<lparr>prs_secrets := ss\<rparr>
                       in case err of
                            Some err \<Rightarrow> (Inl err, s)
                          | None \<Rightarrow>
                            (case bindR (int_of py (dget_or spec ''priority'' (JInt 100))) (\<lambda>prio.
                                   mapR (\<lambda>b. (prio, b)) (as_opt (float_of py) (got spec ''daily_budget_usd''))) of
                               Inl err \<Rightarrow> (Inl (Python err), s)
                             | Inr (prio, budget) \<Rightarrow>
                               let e = \<lparr>pe_provider = \<lparr>provider_id = pid, provider_kind = pk, display_name = shown,
                                          base_url = url, api_key_ref = ref',
                                          enabled = truth_of (dget_or spec ''enabled'' (JBool True)), priority = prio,
                                          models = [], prov_healthy = True, prov_last_error = None, last_refreshed = 0\<rparr>,
                                        pe_live = new_provider_live\<lparr>lv_budget := budget, lv_aliases := al,
                                          lv_enabled_models := Some []\<rparr>, pe_auto_disabled = False\<rparr>;
                                   (_, e, ss) = check_key h (e, prs_secrets s);
                                   (err, s) = persist h now ((put_entry pid e s)\<lparr>prs_secrets := ss\<rparr>)
                               in (case err of Some err \<Rightarrow> Inl err | None \<Rightarrow> Inr pid, s)))))"

definition remove_provider ::
  "provider_host \<Rightarrow> rat \<Rightarrow> string \<Rightarrow> provider_service \<Rightarrow> service_error option \<times> provider_service" where
  "remove_provider h now pid s =
     (case dget (prs_entries s) pid of
        None \<Rightarrow> (Some (Unknown_provider pid), s)
      | Some e \<Rightarrow>
        let ref = api_key_ref (pe_provider e); s = s\<lparr>prs_entries := dpop pid (prs_entries s)\<rparr>;
            s = (if ref \<noteq> [] \<and> ref = minted_ref pid
                 then s\<lparr>prs_secrets := snd (delete_secret (ph_py h) ref (prs_secrets s))\<rparr> else s)
        in persist h now s)"

section \<open>The catalogue read again\<close>

text \<open>What the listing call comes to: no answer, or a status and a body.\<close>

datatype listing_answer = No_listing string | Listing int string

definition note_refresh_failure :: "redactor \<Rightarrow> string \<Rightarrow> provider_entry \<Rightarrow> provider_entry" where
  "note_refresh_failure rd message e =
     e\<lparr>pe_live := (pe_live e)\<lparr>lv_last_error := Some (Msg ''refresh'' [S (scrub rd message)]),
         lv_healthy := lv_healthy (pe_live e) \<and> models (pe_provider e) \<noteq> []\<rparr>\<rparr>"

definition note_refreshed :: "rat \<Rightarrow> provider_model list \<Rightarrow> provider_entry \<Rightarrow> provider_entry" where
  "note_refreshed now ms e =
     e\<lparr>pe_provider := (pe_provider e)\<lparr>models := ms\<rparr>,
       pe_live := (pe_live e)\<lparr>lv_last_refreshed := now, lv_healthy := True, lv_last_error := None\<rparr>\<rparr>"

definition read_listing ::
  "provider_host \<Rightarrow> redactor \<Rightarrow> rat \<Rightarrow> listing_answer \<Rightarrow> provider_entry \<Rightarrow> provider_entry" where
  "read_listing h rd now l e =
     (case l of
        No_listing err \<Rightarrow>
          note_refresh_failure rd (''could not reach '' @ join_url (base_url (pe_provider e)) (ks_models_path (spec_of e)) @ '': '' @ err) e
      | Listing st body \<Rightarrow>
        if st \<ge> 400 then
          (let m = error_message h rd st body in
           if st = 401 \<or> st = 403 then e\<lparr>pe_live := note_auth_failure st (api_key_ref (pe_provider e)) m (pe_live e)\<rparr>
           else note_refresh_failure rd (''model list returned '' @ show_int st @ '': '' @ m) e)
        else case ph_parse h body of
            None \<Rightarrow> note_refresh_failure rd ''model list was not JSON'' e
          | Some j \<Rightarrow>
            let ms = parse_models (ph_py h) j (spec_of e) (lv_aliases (pe_live e)) in
            if ms \<noteq> [] then note_refreshed now ms e
            else if ks_pull_path (spec_of e) \<noteq> [] \<and> recognized_envelope j then note_refreshed now [] e
            else note_refresh_failure rd ''model list was empty or unrecognized'' e)"

definition refresh ::
  "provider_host \<Rightarrow> rat \<Rightarrow> string \<Rightarrow> listing_answer \<Rightarrow> provider_service \<Rightarrow> service_error option \<times> provider_service" where
  "refresh h now pid l s =
     (case dget (prs_entries s) pid of
        None \<Rightarrow> (Some (Unknown_provider pid), s)
      | Some e \<Rightarrow>
        (case check_key h (e, prs_secrets s) of
           (False, e, ss) \<Rightarrow> persist h now ((put_entry pid e s)\<lparr>prs_secrets := ss\<rparr>)
         | (True, e, ss) \<Rightarrow>
           (case resolve_key h pid e ss of
              (Inl _, ss) \<Rightarrow>
                (let (_, e, ss) = check_key h (e, ss) in persist h now ((put_entry pid e s)\<lparr>prs_secrets := ss\<rparr>))
            | (Inr _, ss) \<Rightarrow>
              persist h now ((put_entry pid (read_listing h (ss_redactor ss) now l e) s)\<lparr>prs_secrets := ss\<rparr>))))"

text \<open>A listing is one event of the provider's health, and it keeps the provider out only when its key was rejected or
  there were no models from an earlier one.\<close>

lemma read_listing_cases:
  "(\<exists>m. read_listing h rd now l e = note_refresh_failure rd m e) \<or> (\<exists>ms. read_listing h rd now l e = note_refreshed now ms e)
   \<or> (\<exists>st r m. read_listing h rd now l e = e\<lparr>pe_live := note_auth_failure st r m (pe_live e)\<rparr>)"
  unfolding read_listing_def Let_def
  by (cases l) (simp_all split: option.split if_split, blast+)

lemma read_listing_event:
  obtains x where "pe_live (read_listing h rd now l e) = live_step hr (now, x) (pe_live e)"
    "keeps_out x \<Longrightarrow> lv_auth_rejected (pe_live (read_listing h rd now l e)) \<or> models (pe_provider e) = []"
proof -
  consider (failed) m where "read_listing h rd now l e = note_refresh_failure rd m e"
    | (read) ms where "read_listing h rd now l e = note_refreshed now ms e"
    | (auth) st r m where "read_listing h rd now l e = e\<lparr>pe_live := note_auth_failure st r m (pe_live e)\<rparr>"
    using read_listing_cases by blast
  then show ?thesis
  proof cases
    case failed
    then show ?thesis by (intro that [of "List_failed (models (pe_provider e) \<noteq> []) (Msg ''refresh'' [S (scrub rd m)])"])
      (simp_all add: note_refresh_failure_def)
  next
    case read
    then show ?thesis by (intro that [of List_read]) (simp_all add: note_refreshed_def)
  next
    case auth
    then show ?thesis by (intro that [of "Auth_failed st r m"]) (simp_all add: note_auth_failure_def)
  qed
qed

section \<open>A minted name is free\<close>

lemma show_nat_length: "0 < length (show_nat n)" "10 \<le> n \<Longrightarrow> 2 \<le> length (show_nat n)"
proof -
  show pos: "0 < length (show_nat n)" for n by (subst show_nat.simps) simp
  show "2 \<le> length (show_nat n)" if "10 \<le> n" using that pos [of "n div 10"] by (subst show_nat.simps) (simp add: Suc_le_eq)
qed

lemma digit_char_inj: "a < 10 \<Longrightarrow> b < 10 \<Longrightarrow> digit_char a = digit_char b \<Longrightarrow> a = b"
proof -
  assume "a < 10" "b < 10" "digit_char a = digit_char b"
  moreover have "of_char (digit_char n) = 48 + n" if "n < 10" for n :: nat using that by (simp add: digit_char_def)
  ultimately show "a = b" by (metis add_left_cancel)
qed

lemma show_nat_inj: "show_nat m = show_nat n \<Longrightarrow> m = n"
proof (induction m arbitrary: n rule: less_induct)
  case (less m)
  show ?case
  proof (cases "m < 10 \<or> n < 10")
    case True
    then have "m < 10 \<and> n < 10" using less.prems show_nat_length(2) [of m] show_nat_length(2) [of n]
      by (cases "m < 10"; cases "n < 10"; simp add: show_nat.simps [of m] show_nat.simps [of n])
    then show ?thesis using less.prems digit_char_inj by (simp add: show_nat.simps [of m] show_nat.simps [of n])
  next
    case False
    then have "show_nat (m div 10) = show_nat (n div 10)" "digit_char (m mod 10) = digit_char (n mod 10)"
      using less.prems by (simp_all add: show_nat.simps [of m] show_nat.simps [of n])
    then have "m div 10 = n div 10" "m mod 10 = n mod 10" using less.IH [of "m div 10" "n div 10"] False digit_char_inj by auto
    then show ?thesis by (metis div_mult_mod_eq)
  qed
qed

definition minted_candidate :: "string \<Rightarrow> nat \<Rightarrow> string" where
  "minted_candidate base n = base @ ''-'' @ show_int (int n)"

lemma minted_candidate_inj: "inj (minted_candidate base)"
  by (rule injI) (use show_nat_inj in \<open>auto simp: minted_candidate_def show_int_def\<close>)

lemma mint_from_used: "mint_from k base n used \<in> set used \<Longrightarrow> i \<le> k \<Longrightarrow> minted_candidate base (n + i) \<in> set used"
proof (induction k arbitrary: n i)
  case (Suc k)
  show ?case
  proof (cases i)
    case 0
    then show ?thesis using Suc.prems by (auto simp: minted_candidate_def Let_def split: if_splits)
  next
    case j: (Suc j)
    have "mint_from k base (n + 1) used \<in> set used" using Suc.prems(1) by (auto simp: Let_def split: if_splits)
    then show ?thesis using Suc.IH [of "n + 1" j] Suc.prems(2) j by simp
  qed
qed (simp add: minted_candidate_def)

lemma mint_from_free: "mint_from (length used) base n used \<notin> set used"
proof
  assume "mint_from (length used) base n used \<in> set used"
  then have "minted_candidate base ` {n..n + length used} \<subseteq> set used"
    using mint_from_used [of "length used" base n used] by (auto simp: le_iff_add)
  then have "card (minted_candidate base ` {n..n + length used}) \<le> card (set used)" by (rule card_mono [OF finite_set])
  also have "\<dots> \<le> length used" by (rule card_length)
  finally show False by (simp add: card_image inj_on_subset [OF minted_candidate_inj])
qed

lemma mint_id_free: "mint_id k used \<notin> set used"
  using mint_from_free by (simp add: mint_id_def Let_def)

section \<open>What an edit keeps\<close>

definition kept_by :: "edit \<Rightarrow> (with_secrets \<Rightarrow> bool) \<Rightarrow> bool" where
  "kept_by f P \<longleftrightarrow> (\<forall>w. P w \<longrightarrow> P (snd (f w)))"

lemma kept_byD: "kept_by f P \<Longrightarrow> P w \<Longrightarrow> f w = (x, w') \<Longrightarrow> P w'"
  unfolding kept_by_def by (metis snd_conv)

lemma kept_and_then: "kept_by f P \<Longrightarrow> kept_by g P \<Longrightarrow> kept_by (and_then f g) P"
  by (auto simp: kept_by_def and_then_def split: prod.splits option.splits) (metis snd_conv)+

lemma kept_run: "\<forall>f \<in> set fs. kept_by f P \<Longrightarrow> kept_by (run_edits fs) P"
  by (induction fs) (auto simp: run_edits_def intro: kept_and_then, simp add: kept_by_def)

lemma kept_when_given: "(\<And>j. kept_by (f j) P) \<Longrightarrow> kept_by (when_given patch k f) P"
  by (auto simp: kept_by_def when_given_def split: option.split)

lemma kept_refuse: "kept_by (refuse e) P"
  by (simp add: kept_by_def refuse_def)

lemma kept_or_refuse: "(\<And>x. kept_by (f x) P) \<Longrightarrow> kept_by (or_refuse r f) P"
  by (simp add: or_refuse_def kept_refuse split: sum.split)

lemma run_edits_Cons: "run_edits (f # fs) = and_then f (run_edits fs)"
  by (simp add: run_edits_def)

lemma run_edits_append: "run_edits (fs @ gs) w = and_then (run_edits fs) (run_edits gs) w"
  by (induction fs arbitrary: w) (auto simp: run_edits_def and_then_def split: prod.split option.split)

section \<open>Keys\<close>

definition key_value :: "py_text \<Rightarrow> string \<Rightarrow> secret_store \<Rightarrow> string option" where
  "key_value py ref ss = fst (get_secret py ref ss)"

lemma key_value_eq:
  "key_value py ref ss = (if ref = [] then None else case dget (ss_env ss) ref of Some v \<Rightarrow> Some v
     | None \<Rightarrow> dget (file_values py (ss_file ss)) ref)"
  by (simp add: key_value_def get_secret_def load_secrets_def Let_def split: option.split)

lemma stores_kept [simp]:
  "ss_env (snd (get_secret py r ss)) = ss_env ss" "ss_file (snd (get_secret py r ss)) = ss_file ss"
  "ss_env (remembered v ss) = ss_env ss" "ss_file (remembered v ss) = ss_file ss"
  "ss_env (snd (env_ref r ss)) = ss_env ss" "ss_file (snd (env_ref r ss)) = ss_file ss"
  by (simp_all add: get_secret_def load_secrets_def remembered_def env_ref_def Let_def split: option.split)

lemma key_value_kept [simp]:
  "key_value py ref (snd (get_secret py' r ss)) = key_value py ref ss" "key_value py ref (remembered v ss) = key_value py ref ss"
  unfolding key_value_eq stores_kept by (rule refl)+

lemma file_values_strings [simp]: "file_values py (Holds (strings_of d)) = d"
  by (simp add: file_values_def strings_of_def) (induction d; auto)

lemma put_secret_stores [simp]:
  "ss_env (put_secret py ref v ss) = ss_env ss"
  "file_values py (ss_file (put_secret py ref v ss)) = dset ref v (file_values py (ss_file ss))"
  by (simp_all add: put_secret_def load_secrets_def Let_def remembered_def)

lemma store_key_value:
  assumes "store_key h ref v ss = (None, ss')" and "ref \<noteq> []"
  shows "key_value (ph_py h) r ss' = (if r = ref then Some v else key_value (ph_py h) r ss)"
proof -
  obtain sh ss1 where e: "env_ref ref ss = (sh, ss1)" by (cases "env_ref ref ss")
  then have sh: "sh = dget (ss_env ss) ref" using assms(2) by (auto simp: env_ref_def Let_def)
  have kept: "ss_env ss1 = ss_env ss" "ss_file ss1 = ss_file ss" using stores_kept(5,6) [of ref ss] by (simp_all add: e)
  have "sh = None \<or> sh = Some v" and ss': "ss' = put_secret (ph_py h) ref v ss1"
    using assms(1) by (auto simp: store_key_def e split: if_splits)
  then show ?thesis using sh kept by (auto simp: key_value_eq ss' assms(2) split: option.split)
qed

lemma check_key_keeps [simp]:
  "api_key_ref (pe_provider (fst (snd (check_key h w)))) = api_key_ref (pe_provider (fst w))"
  "key_value py r (snd (snd (check_key h w))) = key_value py r (snd w)"
  by (simp_all add: check_key_def split_def Let_def)

lemmas kept_parts = kept_when_given kept_or_refuse kept_refuse kept_and_then

lemma kept_simple:
  "kept_by (edit_live f) (\<lambda>w. \<forall>r. key_value py r (snd w) = V r)" "kept_by (edit_provider g) (\<lambda>w. \<forall>r. key_value py r (snd w) = V r)"
  "kept_by (set_enabled j) (\<lambda>w. \<forall>r. key_value py r (snd w) = V r)" "kept_by (recheck h) (\<lambda>w. \<forall>r. key_value py r (snd w) = V r)"
  "kept_by (set_allowlist p j) (\<lambda>w. \<forall>r. key_value py r (snd w) = V r)" "kept_by (set_pins p j) (\<lambda>w. \<forall>r. key_value py r (snd w) = V r)"
  "kept_by (edit_live f) (\<lambda>w. api_key_ref (pe_provider (fst w)) = R)" "kept_by (recheck h) (\<lambda>w. api_key_ref (pe_provider (fst w)) = R)"
  "kept_by (set_allowlist p j) (\<lambda>w. api_key_ref (pe_provider (fst w)) = R)" "kept_by (set_pins p j) (\<lambda>w. api_key_ref (pe_provider (fst w)) = R)"
  by (auto simp: kept_by_def edit_live_def edit_provider_def set_enabled_def recheck_def set_allowlist_def set_pins_def split: sum.split)

lemma kept_models: "kept_by (edit_provider (\<lambda>p. p\<lparr>models := f p\<rparr>)) (\<lambda>w. api_key_ref (pe_provider (fst w)) = R)"
  by (simp add: kept_by_def edit_provider_def)

lemma before_the_key:
  "kept_by (run_edits (take 6 (edits h pid patch))) (\<lambda>w. \<forall>r. key_value py r (snd w) = V r)"
  by (rule kept_run)
    (auto simp: edits_def set_display_name_def set_budget_def set_base_url_def set_key_ref_def Let_def
      intro!: kept_parts kept_simple split: option.split)

lemma after_the_key:
  "kept_by (run_edits (drop 7 (edits h pid patch))) (\<lambda>w. \<forall>r. key_value py r (snd w) = V r)"
  "kept_by (run_edits (drop 7 (edits h pid patch))) (\<lambda>w. api_key_ref (pe_provider (fst w)) = R)"
  by (rule kept_run; auto simp: edits_def set_aliases_def Let_def intro!: kept_parts kept_simple kept_models split: option.split)+

text \<open>The reference a pasted key is stored under: the one of the same patch, or the provider's own.\<close>

definition key_place :: "provider_host \<Rightarrow> string \<Rightarrow> json_object \<Rightarrow> string" where
  "key_place h pid patch =
     (case dget patch ''api_key_ref'' of None \<Rightarrow> minted_ref pid | Some j \<Rightarrow> str_strip (str_of (ph_py h) j))"

lemma minted_ref_some [simp]: "minted_ref pid \<noteq> []"
  by (simp add: minted_ref_def Let_def)

lemma the_key:
  assumes "set_key h pid own j (e, ss) = (None, e', ss')" and "ref = (if own then api_key_ref (pe_provider e) else minted_ref pid)"
    and "ref \<noteq> []"
  shows "api_key_ref (pe_provider e') = ref
    \<and> (\<forall>r. key_value (ph_py h) r ss' =
        (if r = ref then Some (str_strip (if truth_of j then str_of (ph_py h) j else [])) else key_value (ph_py h) r ss))"
proof -
  let ?k = "str_strip (if truth_of j then str_of (ph_py h) j else [])"
  obtain ss1 where "store_key h ref ?k (remembered (Some ?k) ss) = (None, ss1)" "ss' = ss1" "api_key_ref (pe_provider e') = ref"
    using assms(1) unfolding assms(2) by (auto simp: set_key_def Let_def split: if_splits prod.splits option.splits)
  then show ?thesis using store_key_value assms(3) by (metis key_value_kept(2))
qed

lemma the_reference:
  assumes "run_edits (take 6 (edits h pid patch)) w = (None, w')" and "dget patch ''api_key_ref'' = Some j"
  shows "api_key_ref (pe_provider (fst w')) = str_strip (str_of (ph_py h) j)"
proof -
  have "take 6 (edits h pid patch) = take 5 (edits h pid patch) @ [when_given patch ''api_key_ref'' (set_key_ref (ph_py h))]"
    by (simp add: edits_def Let_def)
  then obtain w5 where "when_given patch ''api_key_ref'' (set_key_ref (ph_py h)) w5 = (None, w')"
    using assms(1) by (auto simp: run_edits_append run_edits_Cons and_then_def split: prod.splits option.splits)
       (simp add: run_edits_def)
  then show ?thesis using assms(2)
    by (auto simp: when_given_def set_key_ref_def refuse_def edit_provider_def Let_def split: if_splits)
qed

lemma split_edits: "edits h pid patch = take 6 (edits h pid patch) @ (edits h pid patch ! 6) # drop 7 (edits h pid patch)"
  by (simp add: edits_def Let_def)

lemma the_seventh_edit: "edits h pid patch ! 6 = when_given patch ''api_key'' (set_key h pid (dget patch ''api_key_ref'' \<noteq> None))"
  by (simp add: edits_def Let_def)

lemma persist_entry:
  "dget (prs_entries (snd (persist h now s))) pid = map_option (sync_entry h now) (dget (prs_entries s) pid)"
  "prs_secrets (snd (persist h now s)) = prs_secrets s"
  by (simp_all add: persist_def Let_def dget_map_values split: prod.split sum.split)

text \<open>C21: a pasted key is the one the provider authenticates with from then on: an update that carries a key and
  succeeds has stored it under the reference named in the same patch, or else under the provider's own, moved
  the provider onto that reference, and left every other key in the environment and the file as it was. The one
  exception is a patch that names an empty reference beside the key, see below.\<close>

theorem pasted_key_is_used:
  assumes "update_provider h now pid patch s = (None, s')"
    and "dget patch ''api_key'' = Some (JStr k)" and "key_place h pid patch \<noteq> []"
  shows "\<exists>e. dget (prs_entries s') pid = Some e \<and> api_key_ref (pe_provider e) = key_place h pid patch
    \<and> fst (resolve_key h pid e (prs_secrets s')) = Inr (str_strip k)
    \<and> (\<forall>r. r \<noteq> key_place h pid patch \<longrightarrow>
        fst (get_secret (ph_py h) r (prs_secrets s')) = fst (get_secret (ph_py h) r (prs_secrets s)))"
proof -
  obtain e where e: "dget (prs_entries s) pid = Some e" using assms(1) by (cases "dget (prs_entries s) pid") (simp_all add: update_provider_def)
  let ?es = "edits h pid patch" and ?w = "(e, prs_secrets s)" and ?R = "key_place h pid patch"
  obtain e3 ss3 where run: "run_edits ?es ?w = (None, e3, ss3)"
    using assms(1) by (cases "run_edits ?es ?w"; cases "fst (run_edits ?es ?w)") (simp_all add: update_provider_def e split: prod.splits)
  have s': "s' = snd (persist h now ((put_entry pid e3 s)\<lparr>prs_secrets := ss3\<rparr>))"
    using assms(1) by (simp add: update_provider_def e run)
  obtain w1 where w1: "run_edits (take 6 ?es) ?w = (None, w1)"
    using run by (subst (asm) split_edits) (auto simp: run_edits_append and_then_def split: prod.splits option.splits)
  obtain e2 ss2 where w2: "set_key h pid (dget patch ''api_key_ref'' \<noteq> None) (JStr k) w1 = (None, e2, ss2)"
      and w3: "run_edits (drop 7 ?es) (e2, ss2) = (None, e3, ss3)"
    using run w1 assms(2)
    by (subst (asm) split_edits) (auto simp: run_edits_append run_edits_Cons the_seventh_edit when_given_def and_then_def split: prod.splits option.splits)
  have v1: "\<forall>r. key_value (ph_py h) r (snd w1) = key_value (ph_py h) r (prs_secrets s)"
    by (rule kept_byD [OF before_the_key _ w1]) simp
  have k: "str_strip (if truth_of (JStr k) then str_of (ph_py h) (JStr k) else []) = str_strip k" by (simp add: str_strip_def)
  have R: "?R = (if dget patch ''api_key_ref'' \<noteq> None then api_key_ref (pe_provider (fst w1)) else minted_ref pid)"
    using the_reference [OF w1] by (auto simp: key_place_def split: option.split)
  have key: "api_key_ref (pe_provider e2) = ?R
      \<and> (\<forall>r. key_value (ph_py h) r ss2 = (if r = ?R then Some (str_strip k) else key_value (ph_py h) r (snd w1)))"
    using the_key [of h pid _ "JStr k" "fst w1" "snd w1", OF _ R assms(3)] w2 unfolding k by simp
  have v3: "\<forall>r. key_value (ph_py h) r ss3 = key_value (ph_py h) r ss2" "api_key_ref (pe_provider e3) = api_key_ref (pe_provider e2)"
    using kept_byD [OF after_the_key(1) [where V = "\<lambda>r. key_value (ph_py h) r ss2"] _ w3]
      kept_byD [OF after_the_key(2) [where R = "api_key_ref (pe_provider e2)"] _ w3] by simp_all
  let ?e = "sync_entry h now e3"
  have "dget (prs_entries s') pid = Some ?e" "prs_secrets s' = ss3"
    by (simp_all add: s' persist_entry put_entry_def)
  moreover have "api_key_ref (pe_provider ?e) = ?R" using key v3(2) by (simp add: sync_entry_def Let_def)
  moreover have vals: "key_value (ph_py h) r ss3 = (if r = ?R then Some (str_strip k)
      else key_value (ph_py h) r (prs_secrets s))" for r using key v1 v3(1) by simp
  moreover from this [of ?R] obtain x where "get_secret (ph_py h) ?R ss3 = (Some (str_strip k), x)"
    by (cases "get_secret (ph_py h) ?R ss3") (simp add: key_value_def)
  ultimately show ?thesis using assms(3) by (intro exI [of _ ?e]) (simp add: resolve_key_def Let_def key_value_def)
qed

theorem pasted_key_is_used_witness:
  "(\<exists>e. api_key_ref (pe_provider e) = minted_ref ''box'' \<and> fst (resolve_key plain_host ''box'' e
     (prs_secrets (snd (update_provider plain_host 5 ''box'' [(''api_key'', JStr ''abc'')] one_box)))) = Inr ''abc'')
   \<and> (\<exists>e. api_key_ref (pe_provider e) = ''OWN'' \<and> fst (resolve_key plain_host ''box'' e
     (prs_secrets (snd (update_provider plain_host 5 ''box'' [(''api_key_ref'', JStr ''OWN''), (''api_key'', JStr ''abc'')] one_box))))
       = Inr ''abc'')"
proof
  have k: "str_strip ''abc'' = ''abc''" "str_strip ''OWN'' = ''OWN''" by code_simp+
  let ?u = "update_provider plain_host 5 ''box'' [(''api_key'', JStr ''abc'')] one_box"
  have "fst ?u = None" by code_simp
  then have u: "?u = (None, snd ?u)" by (metis prod.collapse)
  have p: "key_place plain_host ''box'' [(''api_key'', JStr ''abc'')] = minted_ref ''box''" by (simp add: key_place_def)
  have "dget [(''api_key'', JStr ''abc'')] ''api_key'' = Some (JStr ''abc'')" by simp
  from pasted_key_is_used [OF u this, unfolded p k, OF minted_ref_some]
  show "\<exists>e. api_key_ref (pe_provider e) = minted_ref ''box'' \<and> fst (resolve_key plain_host ''box'' e (prs_secrets (snd ?u))) = Inr ''abc''"
    by (elim exE conjE) (intro exI conjI)
  let ?p = "[(''api_key_ref'', JStr ''OWN''), (''api_key'', JStr ''abc'')]"
  let ?v = "update_provider plain_host 5 ''box'' ?p one_box"
  have "fst ?v = None" by code_simp
  then have v: "?v = (None, snd ?v)" by (metis prod.collapse)
  have p: "key_place plain_host ''box'' ?p = ''OWN''" by (simp add: key_place_def k)
  have "dget ?p ''api_key'' = Some (JStr ''abc'')" by simp
  moreover have "''OWN'' \<noteq> []" by simp
  ultimately have "\<exists>e. dget (prs_entries (snd ?v)) ''box'' = Some e \<and> api_key_ref (pe_provider e) = ''OWN''
      \<and> fst (resolve_key plain_host ''box'' e (prs_secrets (snd ?v))) = Inr ''abc''
      \<and> (\<forall>r. r \<noteq> ''OWN'' \<longrightarrow> fst (get_secret (ph_py plain_host) r (prs_secrets (snd ?v)))
           = fst (get_secret (ph_py plain_host) r (prs_secrets one_box)))"
    by (rule pasted_key_is_used [OF v, of "''abc''", unfolded p k])
  then
  show "\<exists>e. api_key_ref (pe_provider e) = ''OWN'' \<and> fst (resolve_key plain_host ''box'' e (prs_secrets (snd ?v))) = Inr ''abc''"
    by (elim exE conjE) (intro exI conjI)
qed

section \<open>Where it breaks\<close>

text \<open>A patch that is refused half way keeps what it wrote before: here the provider is off, in memory only.\<close>

lemma refused_update_takes_effect:
  "let (err, s) = update_provider plain_host 5 ''box'' [(''enabled'', JBool False), (''priority'', JStr ''high'')] one_box
   in err \<noteq> None \<and> (case dget (prs_entries s) ''box'' of Some e \<Rightarrow> \<not> enabled (pe_provider e) | None \<Rightarrow> False)
      \<and> (case prs_file s of Absent \<Rightarrow> True | _ \<Rightarrow> False)"
  by code_simp

text \<open>A new key does not clear the rejection of the old one: no edit of a field touches it.\<close>

definition locked_out :: provider_service where
  "locked_out = put_entry ''box'' (box\<lparr>pe_live := note_auth_failure 401 ''KEY'' ''bad key'' new_provider_live\<rparr>) one_box"

lemma new_key_stays_rejected:
  "let (err, s) = update_provider plain_host 5 ''box'' [(''api_key'', JStr ''abc'')] locked_out
   in err = None \<and> (case dget (prs_entries s) ''box'' of
        Some e \<Rightarrow> lv_auth_rejected (pe_live e) \<and> \<not> lv_healthy (pe_live e) \<and> \<not> prov_healthy (pe_provider e) | None \<Rightarrow> False)"
  by code_simp

text \<open>An empty reference beside a key stores the key under the empty name, where nothing finds it.\<close>

definition keyed_service :: provider_service where
  "keyed_service = put_entry ''p'' (box\<lparr>pe_provider := (pe_provider box)\<lparr>provider_kind := OPENAI\<rparr>\<rparr>) one_box"

lemma key_under_no_name:
  "let (err, s) = update_provider plain_host 5 ''p'' [(''api_key_ref'', JStr []), (''api_key'', JStr ''abc'')] keyed_service
   in err = None \<and> (case dget (prs_entries s) ''p'' of
        Some e \<Rightarrow> \<not> enabled (pe_provider e) \<and> lv_missing_key (pe_live e) = Some [] | None \<Rightarrow> False)
      \<and> dget (file_values plain_text (ss_file (prs_secrets s))) [] = Some ''abc''"
  by code_simp

text \<open>A provider refused for its priority has stored its key already.\<close>

lemma refused_provider_leaves_its_key:
  "let (r, s) = register plain_host 5 [(''kind'', JStr ''openai''), (''api_key'', JStr ''abc''), (''priority'', JStr ''high'')] one_box
   in \<not> returns r \<and> dget (file_values plain_text (ss_file (prs_secrets s))) (minted_ref ''openai'') = Some ''abc''"
  by code_simp

end
