(* ===== verification/Restart.thy ===== *)
theory Restart
  imports Prelude
begin

text \<open>
  The restart of a crashed deployment, \<open>RestartCoordinator\<close> of \<open>control_plane/gateway/restart.py\<close>: a table from
  served name to the loop that relaunches it, the events of the deployment manager, and the turns of a loop.
  A loop is a task: it sleeps, then an attempt is out, then it sleeps again or is over. What an attempt comes
  to is an argument; a task that is cancelled is over at once.
\<close>

section \<open>State\<close>

definition MAX_RESTART_ATTEMPTS :: nat where "MAX_RESTART_ATTEMPTS = 3"
definition RESTART_BACKOFF_S :: "rat list" where "RESTART_BACKOFF_S = [5, 20, 80]"
definition OPERATOR_STOP_REASON :: string where "OPERATOR_STOP_REASON = ''stopped during launch''"

datatype loop_phase = Sleeping rat | Attempting | Over

record restart_loop =
  rl_name :: string
  rl_deployment :: string
  rl_attempts :: nat
  rl_phase :: loop_phase
  rl_detail :: "string option"

datatype relaunch = Launched string | Conflict string | Wont_fit | Runtime_unsupported | Sharding_unsupported | Launch_error

datatype restart_event =
    Attempted string string nat relaunch "string option"
  | Exhausted string string nat "string option"

record coordinator =
  rc_state :: "(string, nat) dict"
  rc_loops :: "restart_loop list"
  rc_enabled :: bool
  rc_events :: "restart_event list"

definition new_coordinator :: "bool \<Rightarrow> coordinator" where
  "new_coordinator b = \<lparr>rc_state = [], rc_loops = [], rc_enabled = b, rc_events = []\<rparr>"

text \<open>A loop that is not over is in flight.\<close>

definition loop_in_flight :: "coordinator \<Rightarrow> nat \<Rightarrow> bool" where
  "loop_in_flight c i \<longleftrightarrow> i < length (rc_loops c) \<and> rl_phase (rc_loops c ! i) \<noteq> Over"

definition set_loop :: "nat \<Rightarrow> restart_loop \<Rightarrow> coordinator \<Rightarrow> coordinator" where
  "set_loop i l c = c\<lparr>rc_loops := (rc_loops c)[i := l]\<rparr>"

definition end_loop :: "nat \<Rightarrow> coordinator \<Rightarrow> coordinator" where
  "end_loop i c = set_loop i ((rc_loops c ! i)\<lparr>rl_phase := Over\<rparr>) c"

text \<open>The head of the loop: over when the setting is off, else asleep for the wait of the next attempt.\<close>

definition loop_head :: "restart_loop \<Rightarrow> bool \<Rightarrow> loop_phase" where
  "loop_head l on =
     (if on then Sleeping (RESTART_BACKOFF_S ! min (rl_attempts l) (length RESTART_BACKOFF_S - 1)) else Over)"

section \<open>One attempt\<close>

text \<open>What the collaborators answer: planning and fitting (an exception, or the static and the live verdict as
  whether each fits), whether the runtime supports the model, why it cannot be sharded so, and the launch.\<close>

datatype planned = Planning_failed string | Planned "(bool \<times> string) option" "(bool \<times> string) option"
datatype launch_answer = Started string | Refused "string option" string

record relaunch_world =
  rw_plan :: planned
  rw_supported :: "(bool \<times> string) option"
  rw_sharding :: "string option"
  rw_launch :: launch_answer

definition attempt_relaunch :: "relaunch_world \<Rightarrow> relaunch \<times> string option" where
  "attempt_relaunch w =
     (case rw_plan w of
        Planning_failed m \<Rightarrow> (Launch_error, Some m)
      | Planned None live \<Rightarrow> (Launch_error, Some ''the fit calculator is not wired'')
      | Planned (Some (fits, reason)) live \<Rightarrow>
        (case rw_supported w of
           Some (False, why) \<Rightarrow> (Runtime_unsupported, Some why)
         | _ \<Rightarrow>
           if rw_sharding w \<noteq> None \<and> rw_sharding w \<noteq> Some [] then (Sharding_unsupported, rw_sharding w)
           else if \<not> fits then (Wont_fit, Some reason)
           else (case live of
                   Some (False, why) \<Rightarrow> (Wont_fit, Some why)
                 | _ \<Rightarrow>
                   (case rw_launch w of
                      Started did \<Rightarrow> (Launched did, None)
                    | Refused existing m \<Rightarrow>
                      (case existing of
                         Some did \<Rightarrow> if did \<noteq> [] then (Conflict did, Some m) else (Launch_error, Some m)
                       | None \<Rightarrow> (Launch_error, Some m))))))"

section \<open>Events of the deployment manager\<close>

record state_changed =
  sc_name :: "string option"
  sc_to :: "string option"
  sc_reason :: "string option"
  sc_deployment :: "string option"

definition handle_event :: "state_changed \<Rightarrow> coordinator \<Rightarrow> coordinator" where
  "handle_event ev c =
     (case (sc_name ev, sc_to ev) of
        (Some name, Some to) \<Rightarrow>
          if name = [] then c
          else if to = ''ready'' then
            (case dget (rc_state c) name of
               None \<Rightarrow> c
             | Some i \<Rightarrow> end_loop i (c\<lparr>rc_state := dpop name (rc_state c)\<rparr>))
          else if to \<noteq> ''failed'' then c
          else if sc_reason ev = Some OPERATOR_STOP_REASON then c
          else if \<not> rc_enabled c then c
          else
            (case sc_deployment ev of
               None \<Rightarrow> c
             | Some did \<Rightarrow>
               if did = [] then c
               else if (case dget (rc_state c) name of None \<Rightarrow> False | Some i \<Rightarrow> loop_in_flight c i) then c
               else let l = \<lparr>rl_name = name, rl_deployment = did, rl_attempts = 0, rl_phase = Over, rl_detail = None\<rparr>
                 in c\<lparr>rc_state := dset name (length (rc_loops c)) (rc_state c),
                      rc_loops := rc_loops c @ [l\<lparr>rl_phase := loop_head l (rc_enabled c)\<rparr>]\<rparr>)
      | _ \<Rightarrow> c)"

section \<open>Turns of a loop\<close>

text \<open>The sleep is over; \<open>known\<close> says whether the manager still has the deployment.\<close>

definition wake :: "nat \<Rightarrow> bool \<Rightarrow> coordinator \<Rightarrow> coordinator" where
  "wake i known c =
     (if i < length (rc_loops c) \<and> (case rl_phase (rc_loops c ! i) of Sleeping _ \<Rightarrow> True | _ \<Rightarrow> False)
      then if \<not> rc_enabled c \<or> \<not> known then end_loop i c
           else let l = rc_loops c ! i in set_loop i (l\<lparr>rl_attempts := rl_attempts l + 1, rl_phase := Attempting\<rparr>) c
      else c)"

definition emit_restart :: "restart_event \<Rightarrow> coordinator \<Rightarrow> coordinator" where
  "emit_restart e c = c\<lparr>rc_events := rc_events c @ [e]\<rparr>"

fun ends_the_loop :: "relaunch \<Rightarrow> bool" where
  "ends_the_loop (Launched _) = True"
| "ends_the_loop (Conflict _) = True"
| "ends_the_loop _ = False"

definition attempt_done :: "nat \<Rightarrow> relaunch \<Rightarrow> string option \<Rightarrow> coordinator \<Rightarrow> coordinator" where
  "attempt_done i out detail c =
     (if i < length (rc_loops c) \<and> rl_phase (rc_loops c ! i) = Attempting
      then let l = (rc_loops c ! i)\<lparr>rl_detail := detail\<rparr>;
               c = emit_restart (Attempted (rl_name l) (rl_deployment l) (rl_attempts l) out detail) c
        in if ends_the_loop out then end_loop i (set_loop i l c)
           else if rl_attempts l < MAX_RESTART_ATTEMPTS then set_loop i (l\<lparr>rl_phase := loop_head l (rc_enabled c)\<rparr>) c
           else end_loop i (set_loop i l (emit_restart (Exhausted (rl_name l) (rl_deployment l) (rl_attempts l) detail) c))
      else c)"

text \<open>An exception of an attempt, which is logged and nothing more: the loop is over without an event.\<close>

definition attempt_raised :: "nat \<Rightarrow> coordinator \<Rightarrow> coordinator" where
  "attempt_raised i c =
     (if i < length (rc_loops c) \<and> rl_phase (rc_loops c ! i) = Attempting then end_loop i c else c)"

definition stop_coordinator :: "coordinator \<Rightarrow> coordinator" where
  "stop_coordinator c = (foldl (\<lambda>c i. end_loop i c) c (dvalues (rc_state c)))\<lparr>rc_state := []\<rparr>"

section \<open>Histories\<close>

datatype restart_op = Event state_changed | Wake nat bool | Done nat relaunch "string option" | Broken nat | Setting bool | Stop

fun restart_step :: "coordinator \<Rightarrow> restart_op \<Rightarrow> coordinator" where
  "restart_step c (Event ev) = handle_event ev c"
| "restart_step c (Wake i known) = wake i known c"
| "restart_step c (Done i out d) = attempt_done i out d c"
| "restart_step c (Broken i) = attempt_raised i c"
| "restart_step c (Setting b) = c\<lparr>rc_enabled := b\<rparr>"
| "restart_step c Stop = stop_coordinator c"

definition restart_run :: "restart_op list \<Rightarrow> coordinator \<Rightarrow> coordinator" where
  "restart_run ops c = foldl restart_step c ops"

lemma restart_run_simps [simp]:
  "restart_run [] c = c" "restart_run (op # ops) c = restart_run ops (restart_step c op)"
  "restart_run (ops @ ops') c = restart_run ops' (restart_run ops c)"
  by (simp_all add: restart_run_def)

section \<open>The invariant\<close>

text \<open>A loop in flight is the one its name stands for, so there is one per name; no loop has made more than the
  attempts it may make, and one that still sleeps has made fewer.\<close>

definition loop_ok :: "coordinator \<Rightarrow> nat \<Rightarrow> bool" where
  "loop_ok c i \<longleftrightarrow> (loop_in_flight c i \<longrightarrow> dget (rc_state c) (rl_name (rc_loops c ! i)) = Some i)
     \<and> rl_attempts (rc_loops c ! i) \<le> MAX_RESTART_ATTEMPTS
     \<and> (\<forall>w. rl_phase (rc_loops c ! i) = Sleeping w \<longrightarrow> rl_attempts (rc_loops c ! i) < MAX_RESTART_ATTEMPTS)"

definition restart_ok :: "coordinator \<Rightarrow> bool" where
  "restart_ok c \<longleftrightarrow> (\<forall>i < length (rc_loops c). loop_ok c i)
     \<and> (\<forall>name i. dget (rc_state c) name = Some i \<longrightarrow> i < length (rc_loops c) \<and> rl_name (rc_loops c ! i) = name)"

lemma loops_end:
  "rc_loops (end_loop i c) ! j =
     (if j = i \<and> i < length (rc_loops c) then (rc_loops c ! i)\<lparr>rl_phase := Over\<rparr> else rc_loops c ! j)"
  by (cases "i < length (rc_loops c)") (auto simp: end_loop_def set_loop_def nth_list_update list_update_beyond)

lemma end_loop_simps [simp]:
  "rc_state (end_loop i c) = rc_state c" "rc_enabled (end_loop i c) = rc_enabled c" "rc_events (end_loop i c) = rc_events c"
  "length (rc_loops (end_loop i c)) = length (rc_loops c)"
  by (simp_all add: end_loop_def set_loop_def)

lemma loop_end_keeps [simp]:
  "rl_name (rc_loops (end_loop i c) ! j) = rl_name (rc_loops c ! j)"
  "rl_attempts (rc_loops (end_loop i c) ! j) = rl_attempts (rc_loops c ! j)"
  by (simp_all add: loops_end)

lemma loop_in_flight_end: "loop_in_flight (end_loop i c) j \<longleftrightarrow> loop_in_flight c j \<and> j \<noteq> i"
  by (auto simp: loop_in_flight_def loops_end)

lemma end_ok: "restart_ok c \<Longrightarrow> restart_ok (end_loop i c)"
  by (auto simp: restart_ok_def loop_ok_def loop_in_flight_end loops_end)

text \<open>Forgetting a name whose loop is over.\<close>

lemma forget_ok:
  assumes "restart_ok c" and "\<And>i. dget (rc_state c) name = Some i \<Longrightarrow> \<not> loop_in_flight c i"
  shows "restart_ok (c\<lparr>rc_state := dpop name (rc_state c)\<rparr>)"
  using assms by (auto simp: restart_ok_def loop_ok_def loop_in_flight_def)

text \<open>Changing one loop that keeps its name.\<close>

lemma set_loop_ok:
  assumes "restart_ok c" and "i < length (rc_loops c)" and "rl_name l = rl_name (rc_loops c ! i)"
    and "rl_phase l \<noteq> Over \<Longrightarrow> loop_in_flight c i" and "rl_attempts l \<le> MAX_RESTART_ATTEMPTS"
    and "\<And>w. rl_phase l = Sleeping w \<Longrightarrow> rl_attempts l < MAX_RESTART_ATTEMPTS"
  shows "restart_ok (set_loop i l c)"
  using assms by (auto simp: restart_ok_def loop_ok_def loop_in_flight_def set_loop_def nth_list_update)

lemma restart_ok_events [simp]: "restart_ok (c\<lparr>rc_events := es\<rparr>) = restart_ok c" "restart_ok (c\<lparr>rc_enabled := b\<rparr>) = restart_ok c"
  by (simp_all add: restart_ok_def loop_ok_def loop_in_flight_def)

lemma loop_in_flight_named: "restart_ok c \<Longrightarrow> loop_in_flight c i \<Longrightarrow> dget (rc_state c) (rl_name (rc_loops c ! i)) = Some i"
  by (auto simp: restart_ok_def loop_ok_def loop_in_flight_def)

lemma start_loop_ok:
  assumes "restart_ok c" and "case dget (rc_state c) name of None \<Rightarrow> True | Some i \<Rightarrow> \<not> loop_in_flight c i"
    and "rl_name l = name" "rl_attempts l = 0"
  shows "restart_ok (c\<lparr>rc_state := dset name (length (rc_loops c)) (rc_state c), rc_loops := rc_loops c @ [l]\<rparr>)"
proof -
  have "rl_name (rc_loops c ! i) \<noteq> name" if "loop_in_flight c i" for i
    using loop_in_flight_named [OF assms(1) that] assms(2) that by (auto split: option.splits)
  then show ?thesis using assms
    by (auto simp: restart_ok_def loop_ok_def loop_in_flight_def nth_append less_Suc_eq MAX_RESTART_ATTEMPTS_def)
qed

lemma handle_ok: "restart_ok c \<Longrightarrow> restart_ok (handle_event ev c)"
proof -
  assume ok: "restart_ok c"
  have pop: "restart_ok (end_loop i (c\<lparr>rc_state := dpop name (rc_state c)\<rparr>))" if "dget (rc_state c) name = Some i" for i name
  proof -
    have "restart_ok ((end_loop i c)\<lparr>rc_state := dpop name (rc_state (end_loop i c))\<rparr>)"
      by (rule forget_ok [OF end_ok [OF ok]]) (use that in \<open>auto simp: loop_in_flight_end\<close>)
    moreover have "end_loop i (c\<lparr>rc_state := x\<rparr>) = (end_loop i c)\<lparr>rc_state := x\<rparr>" for x
      by (cases c) (simp add: end_loop_def set_loop_def)
    ultimately show ?thesis by simp
  qed
  show ?thesis
    unfolding handle_event_def Let_def
    using ok pop by (auto intro!: start_loop_ok split: option.splits)
qed

lemma wake_ok: "restart_ok c \<Longrightarrow> restart_ok (wake i known c)"
proof -
  assume ok: "restart_ok c"
  show ?thesis
  proof (cases "i < length (rc_loops c) \<and> (\<exists>w. rl_phase (rc_loops c ! i) = Sleeping w)")
    case True
    then have "rl_attempts (rc_loops c ! i) < MAX_RESTART_ATTEMPTS" using ok by (auto simp: restart_ok_def loop_ok_def)
    then have "restart_ok (set_loop i ((rc_loops c ! i)\<lparr>rl_attempts := rl_attempts (rc_loops c ! i) + 1, rl_phase := Attempting\<rparr>) c)"
      by (intro set_loop_ok) (use ok True in \<open>auto simp: loop_in_flight_def\<close>)
    then show ?thesis using True end_ok [OF ok, of i] by (auto simp: wake_def Let_def)
  next
    case False
    then have "wake i known c = c" by (auto simp: wake_def split: loop_phase.split)
    then show ?thesis using ok by simp
  qed
qed

lemma done_ok: "restart_ok c \<Longrightarrow> restart_ok (attempt_done i out d c)"
proof -
  assume ok: "restart_ok c"
  show ?thesis
  proof (cases "i < length (rc_loops c) \<and> rl_phase (rc_loops c ! i) = Attempting")
    case True
    let ?l = "(rc_loops c ! i)\<lparr>rl_detail := d\<rparr>"
    have i: "loop_in_flight c i" using True by (simp add: loop_in_flight_def)
    have a: "rl_attempts (rc_loops c ! i) \<le> MAX_RESTART_ATTEMPTS" using ok True by (auto simp: restart_ok_def loop_ok_def)
    have same: "restart_ok (set_loop i ?l (c\<lparr>rc_events := es\<rparr>))" for es
      by (rule set_loop_ok) (use True i ok a in \<open>auto simp: loop_in_flight_def\<close>)
    have sleep: "restart_ok (set_loop i (?l\<lparr>rl_phase := p\<rparr>) (c\<lparr>rc_events := es\<rparr>))" if "rl_attempts (rc_loops c ! i) < MAX_RESTART_ATTEMPTS" for p es
      by (rule set_loop_ok) (use True i ok a that in \<open>auto simp: loop_in_flight_def\<close>)
    show ?thesis using True end_ok [OF same] sleep by (auto simp: attempt_done_def Let_def emit_restart_def)
  next
    case False
    then show ?thesis using ok by (auto simp: attempt_done_def)
  qed
qed

lemma raised_ok: "restart_ok c \<Longrightarrow> restart_ok (attempt_raised i c)"
  by (simp add: attempt_raised_def end_ok)

lemma ended_all: "loop_in_flight (foldl (\<lambda>c i. end_loop i c) c is) j \<longleftrightarrow> loop_in_flight c j \<and> j \<notin> set is"
  by (induction "is" arbitrary: c) (auto simp: loop_in_flight_end)

lemma ended_ok: "restart_ok c \<Longrightarrow> restart_ok (foldl (\<lambda>c i. end_loop i c) c is)"
  by (induction "is" arbitrary: c) (auto intro: end_ok)

lemma stop_ok: "restart_ok c \<Longrightarrow> restart_ok (stop_coordinator c)"
proof -
  assume ok: "restart_ok c"
  let ?c = "foldl (\<lambda>c i. end_loop i c) c (dvalues (rc_state c))"
  have over: "\<not> loop_in_flight ?c i" for i
  proof
    assume "loop_in_flight ?c i"
    then have f: "loop_in_flight c i" "i \<notin> set (dvalues (rc_state c))" by (simp_all add: ended_all del: set_map)
    from map_of_SomeD [OF loop_in_flight_named [OF ok f(1)]] have "i \<in> set (dvalues (rc_state c))" by force
    then show False using f(2) by simp
  qed
  have "restart_ok (d\<lparr>rc_state := []\<rparr>)" if "restart_ok d" "\<And>i. \<not> loop_in_flight d i" for d
    using that by (auto simp: restart_ok_def loop_ok_def loop_in_flight_def)
  from this [OF ended_ok [OF ok] over] show ?thesis by (simp add: stop_coordinator_def)
qed

lemma run_ok: "restart_ok c \<Longrightarrow> restart_ok (restart_run ops c)"
proof (induction ops arbitrary: c)
  case (Cons op ops)
  have "restart_ok (restart_step c op)" using Cons.prems by (cases op) (simp_all add: handle_ok wake_ok done_ok raised_ok stop_ok)
  then show ?case using Cons.IH by simp
qed simp

lemma new_ok: "restart_ok (new_coordinator b)"
  by (simp add: restart_ok_def new_coordinator_def)

section \<open>Guarantees\<close>

text \<open>C23: whatever the deployment manager announces, however loops and attempts interleave and the setting is
  switched: a served name has at most one loop in flight and a loop makes at most three attempts; an
  operator's own stop, and any crash while the setting is off, starts none; and a loop that wakes while the
  setting is off, or whose deployment is gone, makes no attempt.\<close>

theorem restarts_are_bounded:
  assumes "c = restart_run ops (new_coordinator b)"
  shows "(\<forall>i j. loop_in_flight c i \<and> loop_in_flight c j \<and> rl_name (rc_loops c ! i) = rl_name (rc_loops c ! j) \<longrightarrow> i = j)
    \<and> (\<forall>i < length (rc_loops c). rl_attempts (rc_loops c ! i) \<le> 3)
    \<and> (\<forall>ev. sc_to ev = Some ''failed'' \<and> (sc_reason ev = Some OPERATOR_STOP_REASON \<or> \<not> rc_enabled c) \<longrightarrow> handle_event ev c = c)
    \<and> (\<forall>i j known. (\<not> rc_enabled c \<or> \<not> known) \<and> rl_phase (rc_loops (wake i known c) ! j) = Attempting
         \<longrightarrow> rl_phase (rc_loops c ! j) = Attempting)"
proof (intro conjI allI impI)
  have ok: "restart_ok c" unfolding assms by (rule run_ok [OF new_ok])
  show "i = j" if "loop_in_flight c i \<and> loop_in_flight c j \<and> rl_name (rc_loops c ! i) = rl_name (rc_loops c ! j)" for i j
    using loop_in_flight_named [OF ok] that by (metis option.inject)
  show "rl_attempts (rc_loops c ! i) \<le> 3" if "i < length (rc_loops c)" for i
    using ok that by (auto simp: restart_ok_def loop_ok_def MAX_RESTART_ATTEMPTS_def)
  show "handle_event ev c = c" if "sc_to ev = Some ''failed'' \<and> (sc_reason ev = Some OPERATOR_STOP_REASON \<or> \<not> rc_enabled c)" for ev
    using that by (auto simp: handle_event_def split: option.split)
  show "rl_phase (rc_loops c ! j) = Attempting"
    if "(\<not> rc_enabled c \<or> \<not> known) \<and> rl_phase (rc_loops (wake i known c) ! j) = Attempting" for i j known
    using that by (auto simp: wake_def loops_end split: if_splits loop_phase.splits)
qed

definition crashed :: state_changed where
  "crashed = \<lparr>sc_name = Some ''m'', sc_to = Some ''failed'', sc_reason = Some ''container exited'', sc_deployment = Some ''d-1''\<rparr>"

theorem restarts_are_bounded_witness:
  "let c = restart_run [Event crashed, Event crashed, Wake 0 True, Done 0 Launch_error None, Wake 0 True] (new_coordinator True)
   in loop_in_flight c 0 \<and> rl_attempts (rc_loops c ! 0) = 2 \<and> rl_attempts (rc_loops c ! 0) \<le> 3"
proof -
  let ?c = "restart_run [Event crashed, Event crashed, Wake 0 True, Done 0 Launch_error None, Wake 0 True] (new_coordinator True)"
  have "loop_in_flight ?c 0" "rl_attempts (rc_loops ?c ! 0) = 2" by code_simp+
  moreover have "0 < length (rc_loops ?c)" using calculation(1) by (simp add: loop_in_flight_def)
  ultimately show ?thesis
    using restarts_are_bounded [OF refl, of "[Event crashed, Event crashed, Wake 0 True, Done 0 Launch_error None, Wake 0 True]" True]
    by (auto simp: Let_def simp del: restart_run_simps)
qed

section \<open>Where it breaks\<close>

text \<open>A model whose every launch is accepted and then crashes is relaunched for ever: an accepted launch ends the
  loop, and the next crash starts a new one with no attempts made. The budget is never used up.\<close>

definition one_round :: "nat \<Rightarrow> restart_op list" where
  "one_round i = [Event crashed, Wake i True, Done i (Launched ''d-1'') None]"

definition all_over :: "nat \<Rightarrow> coordinator \<Rightarrow> bool" where
  "all_over n c \<longleftrightarrow> rc_enabled c \<and> length (rc_loops c) = n \<and> (\<forall>i. \<not> loop_in_flight c i)
     \<and> rc_events c = map (\<lambda>i. Attempted ''m'' ''d-1'' 1 (Launched ''d-1'') None) [0..<n]"

lemma one_more_round: "all_over n c \<Longrightarrow> all_over (n + 1) (restart_run (one_round n) c)"
proof -
  assume a: "all_over n c"
  let ?l = "\<lparr>rl_name = ''m'', rl_deployment = ''d-1'', rl_attempts = 0, rl_phase = Sleeping 5, rl_detail = None\<rparr>"
  have h: "handle_event crashed c = c\<lparr>rc_state := dset ''m'' n (rc_state c), rc_loops := rc_loops c @ [?l]\<rparr>"
    using a by (auto simp: all_over_def handle_event_def crashed_def OPERATOR_STOP_REASON_def loop_head_def RESTART_BACKOFF_S_def Let_def
        split: option.split)
  have "i < n \<Longrightarrow> rl_phase (rc_loops c ! i) = Over" for i using a by (auto simp: all_over_def loop_in_flight_def)
  then show ?thesis using a
    by (auto simp: one_round_def h all_over_def wake_def attempt_done_def set_loop_def end_loop_def emit_restart_def Let_def
        loop_in_flight_def nth_append list_update_append less_Suc_eq)
qed

lemma broken_model_never_exhausted:
  "all_over n (restart_run (concat (map one_round [0..<n])) (new_coordinator True))"
proof (induction n)
  case 0
  show ?case by (simp add: all_over_def new_coordinator_def loop_in_flight_def)
next
  case (Suc n)
  then show ?case using one_more_round by simp
qed

end
