(* ===== verification/Spec2Isabelle.thy ===== *)
theory Spec2Isabelle
  imports
    Deploy_Fsm Quant Fit_Check Fit_Advice
    Planner_Rank
    Breaker Retry_Budget Parking Admission_Ledger Policies_Fair Router Registry_Safety Reach
    Launch_Progress Deploy_Store Deploy_Command Deploy_Cases
    Serve_Guarantees
    Provider_Admin Restart
begin

text \<open>
  derate serves large language models on a small cluster of unequal nodes. This library models the
  parts of its control plane (\<open>src/control_plane/\<close>) that decide something, and proves what
  makes those decisions right. The path of a model through the program, and of this library, is:

  \<^item> nodes join the cluster with a token, report their hardware and live memory, and are watched
    (\<open>registry/\<close>);
  \<^item> a launch is priced by the memory gate (\<open>fit/\<close>), which refuses it or reports what fits;
  \<^item> the planner (\<open>planner/\<close>) chooses the nodes and the parallelism, asking the gate for
    capacity;
  \<^item> the deployment manager (\<open>deploy/\<close>) writes the recipe, starts the workload, waits until it
    answers, watches it, sheds load under pressure, and takes it down; a crash is relaunched by
    \<open>gateway/restart.py\<close>;
  \<^item> the gateway (\<open>gateway/\<close>) reads a request, routes it to a live target, sends it and passes the
    answer on: admission control bounds the cache a node is asked for, the circuit breaker benches dead
    targets, the retry budget bounds failover, and the parking lot holds requests whose only node has
    just died;
  \<^item> a third-party provider (\<open>providers/\<close>) stands beside the cluster as a target with a key, a budget
    and a health of its own.

  \<^bold>\<open>Theories and code.\<close>

  \<^item> \<open>Prelude\<close>: dictionaries as association lists in insertion order, exceptions as the left
    side of a sum, \<open>int()\<close>, first-wins \<open>min\<close>/\<open>max\<close>, strings, the rule collections. \<open>Json\<close>: JSON values
    and the conversions of the codecs.
  \<^item> \<open>Contracts\<close>: the dataclasses and enums of \<open>contracts/\<close> with their derived properties.
  \<^item> \<open>Deploy_Fsm\<close>: \<open>deploy/fsm.py\<close> (\<open>LEGAL\<close>, \<open>can\<close>, \<open>check\<close>) and
    \<open>gateway/states.py\<close>; reachability over the checked transitions.
  \<^item> \<open>Quant\<close>: \<open>contracts/quant.py\<close>, the price table of the weight formats.
  \<^item> \<open>Fit_Kv\<close>, \<open>Gate_Search\<close>, \<open>Fit_Calculator\<close>, \<open>Fit_Check\<close>, \<open>Fit_Advice\<close>: \<open>fit/kv.py\<close>,
    \<open>fit/constants.py\<close> and \<open>fit/calculator.py\<close>. \<open>Gate_Search\<close> is the bisection and the
    step-down loop, proved once in a locale of monotone budget tests; \<open>Fit_Calculator\<close> has the terms of
    the breakdown and interprets that locale at the searches for context, concurrency and nodes;
    \<open>Fit_Check\<close> is \<open>FitCalculator.check\<close> with every branch; \<open>Fit_Advice\<close> shows what its
    refusals are worth to the operator.
  \<^item> \<open>Planner_Legality\<close>, \<open>Planner_Comm\<close>, \<open>Planner_Topology\<close>, \<open>Planner_Fit_Bridge\<close>,
    \<open>Planner\<close>, \<open>Planner_Rank\<close>: the files of \<open>planner/\<close> of the same names. The
    interface to capacity is the locale \<open>fit_helpers\<close>, interpreted at the gate and at the planner's
    own fallback; \<open>Planner\<close> holds the definitions of \<open>planner.py\<close> and \<open>Planner_Rank\<close> what holds of the
    ranked list.
  \<^item> \<open>Enrollment\<close>, \<open>Host_Probe\<close>, \<open>Telemetry_Samples\<close>, \<open>Node_Wire\<close>, \<open>Registry\<close>, \<open>Registry_Roster\<close>,
    \<open>Registry_Safety\<close>, \<open>Reach\<close>: the files of \<open>registry/\<close>. Tokens and their file; what a host's tools
    answer made into a profile and a sample; the wire form, names and addresses; members, candidates, the
    join and the health rounds; the invariant of every history and the roster file; who becomes a member
    and what is offered to the gate; whether two nodes reach each other.
  \<^item> \<open>Deploy_Codec\<close>, \<open>Deploy_Store\<close>: \<open>deploy/store.py\<close>. \<open>Launch_Progress\<close>: \<open>deploy/progress.py\<close>.
    \<open>Deploy_Recipes\<close>, \<open>Deploy_Launch\<close>, \<open>Deploy_Command\<close>: \<open>deploy/flags.py\<close>, \<open>recipes.py\<close>,
    \<open>sparkrun.py\<close> and \<open>procmatch.py\<close>, and what no caller can put into a recipe or a command.
    \<open>Deploy_Health\<close>: \<open>deploy/health.py\<close> and \<open>utilization.py\<close>. \<open>Deploy_Manager\<close> and \<open>Deploy_Watch\<close>:
    \<open>deploy/manager.py\<close>; \<open>Deploy_Live\<close> its invariant and the announcements, \<open>Deploy_Duty\<close> what it owes an
    operator, \<open>Deploy_Cases\<close> concrete runs. \<open>Restart\<close>: \<open>gateway/restart.py\<close>.
  \<^item> \<open>Gateway_Settings\<close>, \<open>Breaker\<close>, \<open>Retry_Budget\<close>, \<open>Parking\<close>, \<open>Admission\<close>, \<open>Admission_Ledger\<close>:
    \<open>gateway/settings.py\<close>, \<open>breaker.py\<close>, \<open>budget.py\<close>, \<open>parking.py\<close> and \<open>admission.py\<close>. Their
    histories are sequences of operations (or the steps of an inductive relation), since each operation
    runs under a lock or on one event loop.
  \<^item> \<open>Policies\<close>, \<open>Policies_Fair\<close>, \<open>Routing_Stats\<close>, \<open>Strength\<close>, \<open>Targets\<close>, \<open>Router\<close>:
    \<open>gateway/policies.py\<close>, \<open>stats.py\<close>, \<open>strength.py\<close>, \<open>targets.py\<close> and \<open>router.py\<close>: one selection, a run
    of selections, the counters, the scores, the index and the live view a selection is made on.
  \<^item> \<open>Api_Errors\<close>, \<open>Redaction\<close>, \<open>Usage_Meter\<close>: \<open>gateway/errors.py\<close>, \<open>redaction.py\<close> and
    \<open>providers/usage.py\<close>. \<open>Proxy\<close>: \<open>gateway/proxy.py\<close>, one target's turn with a request;
    \<open>Proxy_Books\<close>: the steps of the gateway as one abstract relation, the books every step keeps and the
    settlement of every attempt; \<open>Proxy_Cases\<close>: runs. \<open>Serve_Request\<close>, \<open>Serve\<close>:
    \<open>gateway/openai_api.py\<close>, a request read, looked up, claimed, offered, parked and answered;
    \<open>Serve_Promises\<close> shows that serving is made of the steps of \<open>Proxy_Books\<close>, and \<open>Serve_Guarantees\<close>
    what a request can rely on.
  \<^item> \<open>Provider_Runtime\<close>, \<open>Provider_Health\<close>: \<open>providers/runtime.py\<close>, and that no wait for a failed
    request lasts (a provider whose model list failed with nothing cached stays out until the next list) and the
    spend adds up. \<open>Provider_Catalog\<close>: \<open>providers/kinds.py\<close> and \<open>discovery.py\<close>. \<open>Provider_Store\<close>:
    \<open>providers/store.py\<close> and \<open>secrets.py\<close>. \<open>Provider_Service\<close>, \<open>Provider_Turn\<close>, \<open>Provider_Admin\<close>:
    \<open>providers/service.py\<close>: keys and the guards of a request, the request itself, and what an operator
    changes. \<open>Provider_Port\<close>: \<open>resolve_key\<close> and \<open>open_upstream\<close> of that service as the record
    \<open>provider_port\<close> through which the gateway calls it, and what the gateway may rely on.

  \<^bold>\<open>How the parts meet.\<close> The planner asks the gate through \<open>fit_helpers\<close>; the registry's memory is what
  the gate is offered; the router reads deployments, providers, breaker and admission through the index of
  \<open>Targets\<close>; \<open>Serve\<close> calls the router, the breaker, the budget, the lot and the proxy on one state, the
  record \<open>gateway\<close>. \<open>Proxy\<close> and \<open>Serve\<close> call a provider through the record \<open>provider_port\<close>, which says what
  opening it came to (\<open>opened\<close>, the exceptions \<open>forward_provider\<close> catches and the one it does not) and what was
  sent meanwhile; \<open>service_port\<close> in \<open>Provider_Port\<close> is that record for the provider service, from
  \<open>prepare\<close> and \<open>open_turn\<close>. Two logs that no decision reads say what went out: \<open>gw_sent\<close>, an entry for each
  request of either road with its target, provider, address, headers and payload, and \<open>prs_wire\<close>, the
  prepared requests a provider was sent.

  \<^bold>\<open>Reading of the code.\<close> A Python \<open>int\<close> is an \<open>int\<close>; a \<open>float\<close> is the exact rational it
  denotes and float arithmetic is exact, so rounding of the last bit is not modelled; where an infinity or
  an overflow decides something (\<open>Provider_Runtime\<close>, the pause an upstream names in \<open>Proxy\<close>) it is a case of
  its own. \<open>int()\<close>
  truncates. A dictionary is an association list without duplicate keys. An exception is \<open>Inl\<close> with its
  class; a sentence shown to an operator is a \<open>msg\<close> with its template and the interpolated values,
  so number formatting is not modelled, or its text where a client or the program reads it. The clock is an
  argument, read where the code reads it; what a network, a process or a human answers is an argument too.
  Code outside the repository is a parameter (\<open>str()\<close> of a JSON value, \<open>json.loads\<close>, a digest, an optional
  price function). Tasks of the event loop are interleaved at their suspension points, which are the
  operations of the models.

  \<^bold>\<open>Bounds.\<close> The searches recurse on the width of their interval
  (\<open>bisect\<close>) or on the value stepped down; the node search runs over \<open>MAX_SEARCH_NODES\<close> counts and
  the context search over \<open>MAX_CONTEXT_SEARCH\<close> tokens, both from \<open>fit/constants.py\<close>. The port search is
  over \<open>PORT_SEARCH\<close> ports, failover over the attempts of the settings, a provider's repetition over
  \<open>SERVER_ERROR_RETRIES\<close>; \<open>mint_from\<close> looks at one name more than there are providers. Dates are those of
  years with four digits.

  \<^bold>\<open>Not modelled.\<close> The HTTP handlers around these decisions (\<open>internal_api.py\<close>, \<open>capacity_api.py\<close>, the user
  interface's payloads), hedged requests (\<open>hedge_after_s\<close> is unset by default, and a pass of \<open>dispatch\<close> is one
  without it) and realtime requests, the subprocess and file work under the deployment
  manager, discovery and the agents of the registry, link measurement, metadata resolution, telemetry
  storage, the inventory, the speech server and the wiring of the process: they move data between the
  outside world and the decisions modelled here, or render it. Of the providers, pulling weights, the
  listing of backends and the public payloads are left out. File modes and the atomic rename are not
  modelled except where a crash between the two shows (\<open>save_killed\<close> in \<open>Deploy_Store\<close>); the registry's roster is on a disk that takes writes, where the code
  only warns of one that fails. What bash makes of a command is a set of characters (\<open>shell_syntax\<close>) without the
  tilde, which the tokens may hold and bash expands (\<open>tilde_is_accepted\<close> in \<open>Deploy_Command\<close>).
\<close>

end
